(* ===== verification/Prelude.thy ===== *)
theory Prelude
  imports Main "HOL-Library.Word" "HOL-Library.AList" "HOL-Library.Char_ord" "HOL-Library.List_Lexorder"
begin

text \<open>
  Shared vocabulary of the development: instants and durations of Go's \<open>time\<close> package, byte
  strings with \<open>strings.Join\<close>, \<open>strconv\<close> and \<open>encoding/hex\<close>, association lists for the
  maps the code iterates over, \<open>sort.Slice\<close>, and the sliding window of timestamps that three
  components keep. The generic lemmas are collected in \<open>list_facts\<close> and \<open>time_facts\<close>.
\<close>

named_theorems time_facts \<open>facts on instants and durations\<close>
named_theorems list_facts \<open>facts on joined strings, association lists and sorted slices\<close>

section \<open>Instants and durations\<close>

text \<open>
  An instant is a number of nanoseconds since the Unix epoch; a \<open>time.Duration\<close> is an int64
  number of nanoseconds. \<open>time.Time{}\<close> is January 1 of year 1. \<open>Add\<close> is exact, \<open>Sub\<close>
  saturates at the bounds of int64, as \<open>time.Time.Sub\<close> documents.
\<close>

type_synonym time = int
type_synonym duration = int
type_synonym member_id = string
type_synonym bytes = string
type_synonym u64 = "64 word"

definition zero_time :: time where
  "zero_time = - 62135596800000000000"

definition max_duration :: duration where "max_duration = 9223372036854775807"
definition min_duration :: duration where "min_duration = - 9223372036854775808"

definition time_sub :: "time \<Rightarrow> time \<Rightarrow> duration" where
  "time_sub t u = max min_duration (min max_duration (t - u))"

abbreviation second :: duration where "second \<equiv> 1000000000"
abbreviation minute :: duration where "minute \<equiv> 60000000000"
abbreviation hour :: duration where "hour \<equiv> 3600000000000"

lemma time_sub_less [time_facts]:
  "min_duration < d \<Longrightarrow> d \<le> max_duration \<Longrightarrow> time_sub t u < d \<longleftrightarrow> t - u < d"
  by (auto simp: time_sub_def max_duration_def min_duration_def)

lemma time_sub_greater [time_facts]:
  "min_duration \<le> d \<Longrightarrow> d < max_duration \<Longrightarrow> d < time_sub t u \<longleftrightarrow> d < t - u"
  by (auto simp: time_sub_def max_duration_def min_duration_def)

lemma time_sub_exact [time_facts]:
  "min_duration \<le> t - u \<Longrightarrow> t - u \<le> max_duration \<Longrightarrow> time_sub t u = t - u"
  by (auto simp: time_sub_def)

text \<open>\<open>time.Duration(n) * time.Second\<close> is an int64 product and wraps.\<close>

definition int64 :: "int \<Rightarrow> int" where
  "int64 i = sint (word_of_int i :: 64 word)"

section \<open>Byte strings\<close>

text \<open>\<open>strings.Join(xs, "\n")\<close> and its kin, for a one-byte separator.\<close>

fun join :: "char \<Rightarrow> string list \<Rightarrow> string" where
  "join c [] = []"
| "join c [x] = x"
| "join c (x # y # ys) = x @ [c] @ join c (y # ys)"

abbreviation LF :: char where "LF \<equiv> CHR 0x0A"

definition free_of :: "char \<Rightarrow> string \<Rightarrow> bool" where
  "free_of c s \<longleftrightarrow> c \<notin> set s"

lemma free_of_append [simp]: "free_of c (s @ t) \<longleftrightarrow> free_of c s \<and> free_of c t"
  by (auto simp: free_of_def)

lemma free_of_Nil [simp]: "free_of c []"
  by (simp add: free_of_def)

lemma free_of_Cons [simp]: "free_of c (x # s) \<longleftrightarrow> c \<noteq> x \<and> free_of c s"
  by (auto simp: free_of_def)

lemma append_sep_inj:
  "free_of c a \<Longrightarrow> free_of c b \<Longrightarrow> a @ c # r = b @ c # s \<longleftrightarrow> a = b \<and> r = s"
proof (induction a arbitrary: b)
  case Nil
  then show ?case by (cases b) auto
next
  case (Cons x a)
  then show ?case by (cases b) auto
qed

lemma append_sep_free: "free_of c a \<Longrightarrow> a \<noteq> b @ c # s"
  by (auto simp: free_of_def)

lemma join_Cons_cases:
  "join c (x # xs) = (if xs = [] then x else x @ c # join c xs)"
  by (cases xs) auto

lemma join_inj [list_facts]:
  assumes "\<forall>x\<in>set xs. free_of c x" "\<forall>y\<in>set ys. free_of c y" "xs \<noteq> []" "ys \<noteq> []"
  shows "join c xs = join c ys \<longleftrightarrow> xs = ys"
  using assms
proof (induction xs arbitrary: ys)
  case Nil
  then show ?case by simp
next
  case (Cons x xs)
  then obtain y ys' where ys: "ys = y # ys'" by (cases ys) auto
  show ?case
  proof (cases "xs = []"; cases "ys' = []")
    assume "xs \<noteq> []" "ys' \<noteq> []"
    with Cons ys show ?thesis by (auto simp: join_Cons_cases append_sep_inj)
  qed (use Cons.prems ys in \<open>auto simp: join_Cons_cases append_sep_free dest: append_sep_free\<close>)
qed

text \<open>Decimal rendering: \<open>%d\<close> and \<open>strconv.FormatInt(_, 10)\<close>.\<close>

definition digit_char :: "nat \<Rightarrow> char" where
  "digit_char d = char_of (48 + d)"

fun dec_nat :: "nat \<Rightarrow> string" where
  "dec_nat n = (if n < 10 then [digit_char n] else dec_nat (n div 10) @ [digit_char (n mod 10)])"

declare dec_nat.simps [simp del]

definition dec_int :: "int \<Rightarrow> string" where
  "dec_int i = (if i < 0 then CHR ''-'' # dec_nat (nat (- i)) else dec_nat (nat i))"

lemma of_digit_char: "d < 10 \<Longrightarrow> of_char (digit_char d) = (48 + d :: nat)"
  by (simp add: digit_char_def)

lemma dec_nat_chars: "c \<in> set (dec_nat n) \<Longrightarrow> 48 \<le> (of_char c :: nat) \<and> (of_char c :: nat) < 58"
proof (induction n rule: dec_nat.induct)
  case (1 n)
  then show ?case
    by (cases "n < 10") (auto simp: dec_nat.simps [of n] of_digit_char)
qed

definition undec :: "string \<Rightarrow> nat" where
  "undec s = foldl (\<lambda>n c. 10 * n + (of_char c - 48)) 0 s"

lemma undec_dec_nat: "undec (dec_nat n) = n"
proof (induction n rule: dec_nat.induct)
  case (1 n)
  then show ?case
    by (cases "n < 10") (simp_all add: undec_def dec_nat.simps [of n] of_digit_char)
qed

lemma dec_nat_inj [list_facts]: "dec_nat m = dec_nat n \<longleftrightarrow> m = n"
  by (metis undec_dec_nat)

lemma dec_nat_free: "of_char c < (48 :: nat) \<or> 58 \<le> (of_char c :: nat) \<Longrightarrow> free_of c (dec_nat n)"
  by (force simp: free_of_def dest: dec_nat_chars)

lemma dec_int_free: "of_char c < (45 :: nat) \<or> 58 \<le> (of_char c :: nat) \<Longrightarrow> free_of c (dec_int i)"
  using dec_nat_free [of c] by (auto simp: dec_int_def)

lemma dec_int_inj [list_facts]: "dec_int i = dec_int j \<longleftrightarrow> i = j"
proof -
  have minus: "CHR ''-'' # dec_nat m \<noteq> dec_nat n" for m n
    using dec_nat_free [of "CHR ''-''" n] by (auto simp: free_of_def dest: sym)
  show ?thesis
    by (auto simp: dec_int_def dec_nat_inj minus minus [symmetric] nat_eq_iff split: if_splits)
qed

text \<open>\<open>hex.EncodeToString\<close>: two lowercase digits a byte.\<close>

definition hex_digit :: "nat \<Rightarrow> char" where
  "hex_digit d = (if d < 10 then char_of (48 + d) else char_of (87 + d))"

definition hex_byte :: "char \<Rightarrow> string" where
  "hex_byte c = [hex_digit (of_char c div 16), hex_digit (of_char c mod 16)]"

definition hex_encode :: "bytes \<Rightarrow> string" where
  "hex_encode s = concat (map hex_byte s)"

lemma of_hex_digit: "d < 16 \<Longrightarrow> of_char (hex_digit d) = (if d < 10 then 48 + d else 87 + d :: nat)"
  by (simp add: hex_digit_def)

lemma hex_digit_inj:
  assumes "a < 16" "b < 16"
  shows "hex_digit a = hex_digit b \<longleftrightarrow> a = b"
proof
  assume *: "hex_digit a = hex_digit b"
  then have "(of_char (hex_digit a) :: nat) = of_char (hex_digit b)" by simp
  with assms show "a = b" by (simp add: of_hex_digit split: if_splits)
qed simp

lemma nibbles: "(of_char c :: nat) div 16 < 16" "(of_char c :: nat) mod 16 < 16"
  using nat_of_char_less_256 [of c] by (simp_all add: less_mult_imp_div_less)

lemma hex_byte_inj: "hex_byte c = hex_byte d \<longleftrightarrow> c = d"
proof
  assume "hex_byte c = hex_byte d"
  then have "(of_char c :: nat) div 16 = of_char d div 16" "(of_char c :: nat) mod 16 = of_char d mod 16"
    by (simp_all add: hex_byte_def hex_digit_inj nibbles)
  then have "(of_char c :: nat) = of_char d"
    by (metis div_mult_mod_eq)
  then show "c = d" by simp
qed simp

lemma hex_encode_inj [list_facts]: "hex_encode s = hex_encode t \<longleftrightarrow> s = t"
proof (induction s arbitrary: t)
  case Nil
  then show ?case by (cases t) (auto simp: hex_encode_def hex_byte_def)
next
  case (Cons c s)
  show ?case
  proof (cases t)
    case Nil
    then show ?thesis by (simp add: hex_encode_def hex_byte_def)
  next
    case (Cons d t')
    then have "hex_encode (c # s) = hex_encode t \<longleftrightarrow> hex_byte c = hex_byte d \<and> hex_encode s = hex_encode t'"
      by (auto simp: hex_encode_def hex_byte_def)
    with Cons Cons.IH show ?thesis by (simp add: hex_byte_inj)
  qed
qed

lemma hex_encode_free: "of_char c < (48 :: nat) \<Longrightarrow> free_of c (hex_encode s)"
proof (induction s)
  case (Cons d s)
  have "c \<notin> set (hex_byte d)"
  proof
    assume "c \<in> set (hex_byte d)"
    then have "48 \<le> (of_char c :: nat)"
      by (auto simp: hex_byte_def of_hex_digit nibbles)
    with Cons.prems show False by simp
  qed
  with Cons show ?case by (auto simp: hex_encode_def free_of_def)
qed (simp add: hex_encode_def)

lemma length_hex_encode: "length (hex_encode s) = 2 * length s"
  by (induction s) (simp_all add: hex_encode_def hex_byte_def)

text \<open>16 bytes as a UUID, with version and variant bits set: \<open>newUUIDv4\<close> and \<open>foldToUUID\<close>.\<close>

definition uuid_of :: "bytes \<Rightarrow> string" where
  "uuid_of b =
     (let b6 = char_of (of_char (b ! 6) mod 16 + 64 :: nat);
          b8 = char_of (of_char (b ! 8) mod 64 + 128 :: nat);
          b = b[6 := b6, 8 := b8]
      in hex_encode (take 4 b) @ ''-'' @ hex_encode (take 2 (drop 4 b)) @ ''-'' @
         hex_encode (take 2 (drop 6 b)) @ ''-'' @ hex_encode (take 2 (drop 8 b)) @ ''-'' @
         hex_encode (take 6 (drop 10 b)))"

text \<open>\<open>strings.ToUpper\<close> and \<open>strings.ToLower\<close> on ASCII bytes, the ones the code passes.\<close>

definition upper_char :: "char \<Rightarrow> char" where
  "upper_char c = (let n = of_char c :: nat in if 97 \<le> n \<and> n \<le> 122 then char_of (n - 32) else c)"

definition lower_char :: "char \<Rightarrow> char" where
  "lower_char c = (let n = of_char c :: nat in if 65 \<le> n \<and> n \<le> 90 then char_of (n + 32) else c)"

definition to_upper :: "string \<Rightarrow> string" where "to_upper = map upper_char"
definition to_lower :: "string \<Rightarrow> string" where "to_lower = map lower_char"

section \<open>Slices and maps\<close>

text \<open>
  \<open>sort.Slice(xs, less)\<close> and \<open>sort.Strings\<close>: the library promises some sorted permutation.
  The model sorts by insertion; \<open>sort_slice_head\<close> below shows that where the key determines the
  element, every sorted permutation starts with the same element.
\<close>

fun insert_by :: "('a \<Rightarrow> 'a \<Rightarrow> bool) \<Rightarrow> 'a \<Rightarrow> 'a list \<Rightarrow> 'a list" where
  "insert_by lt x [] = [x]"
| "insert_by lt x (y # ys) = (if lt y x then y # insert_by lt x ys else x # y # ys)"

definition sort_slice :: "('a \<Rightarrow> 'a \<Rightarrow> bool) \<Rightarrow> 'a list \<Rightarrow> 'a list" where
  "sort_slice lt xs = foldr (insert_by lt) xs []"

lemma set_insert_by [simp]: "set (insert_by lt x ys) = insert x (set ys)"
  by (induction ys) auto

lemma set_sort_slice [simp]: "set (sort_slice lt xs) = set xs"
  by (induction xs) (auto simp: sort_slice_def)

lemma sort_slice_Nil [simp]: "sort_slice lt xs = [] \<longleftrightarrow> xs = []"
  using set_sort_slice [of lt xs] by (metis set_empty2)

lemma sort_eq_Nil [list_facts]: "sort xs = [] \<longleftrightarrow> xs = []"
  by (metis set_sort set_empty)

text \<open>
  The interface of a selection order: irreflexive, transitive, and total between elements with
  different keys. The election interprets it with the orders on candidates.
\<close>

locale selection_order =
  fixes lt :: "'a \<Rightarrow> 'a \<Rightarrow> bool" and key :: "'a \<Rightarrow> 'k"
  assumes irrefl: "\<not> lt x x"
    and trans: "lt x y \<Longrightarrow> lt y z \<Longrightarrow> lt x z"
    and total: "key x \<noteq> key y \<Longrightarrow> lt x y \<or> lt y x"
begin

lemma asym: "lt x y \<Longrightarrow> \<not> lt y x"
  using irrefl trans by blast

definition least_in :: "'a \<Rightarrow> 'a set \<Rightarrow> bool" where
  "least_in m A \<longleftrightarrow> m \<in> A \<and> (\<forall>y\<in>A. y = m \<or> lt m y)"

lemma least_in_unique:
  assumes "least_in a A" "least_in b A"
  shows "a = b"
proof (rule ccontr)
  assume "a \<noteq> b"
  with assms have "lt a b" "lt b a" unfolding least_in_def by auto
  then show False by (simp add: asym)
qed

lemma hd_insert_by:
  "ys \<noteq> [] \<Longrightarrow> hd (insert_by lt x ys) = (if lt (hd ys) x then hd ys else x)"
  by (cases ys) auto

lemma hd_sort_slice_Cons:
  "xs \<noteq> [] \<Longrightarrow> hd (sort_slice lt (x # xs)) = (if lt (hd (sort_slice lt xs)) x then hd (sort_slice lt xs) else x)"
  using hd_insert_by [of "sort_slice lt xs" x] by (simp add: sort_slice_def [of lt "x # xs"] flip: sort_slice_def)

lemma trichotomy: "inj_on key A \<Longrightarrow> x \<in> A \<Longrightarrow> y \<in> A \<Longrightarrow> x = y \<or> lt x y \<or> lt y x"
  using total by (meson inj_onD)

lemma least_in_insert:
  assumes "least_in m A" "inj_on key (insert x A)"
  shows "least_in (if lt m x then m else x) (insert x A)"
proof -
  have "m \<in> A" using assms by (simp add: least_in_def)
  then have "x = m \<or> lt x m \<or> lt m x"
    using trichotomy [OF assms(2), of x m] by simp
  then show ?thesis
    using assms(1) trans [of x m] unfolding least_in_def by auto
qed

lemma sort_slice_least:
  "xs \<noteq> [] \<Longrightarrow> inj_on key (set xs) \<Longrightarrow> least_in (hd (sort_slice lt xs)) (set xs)"
proof (induction xs)
  case (Cons x xs)
  show ?case
  proof (cases "xs = []")
    case True
    then show ?thesis by (simp add: sort_slice_def least_in_def)
  next
    case False
    with Cons have "least_in (hd (sort_slice lt xs)) (set xs)" by simp
    with Cons.prems(2) show ?thesis
      using least_in_insert [of "hd (sort_slice lt xs)" "set xs" x]
      by (simp add: hd_sort_slice_Cons [OF False])
  qed
qed simp

lemma sort_slice_head:
  assumes "set xs = set ys" "xs \<noteq> []" "inj_on key (set xs)"
  shows "hd (sort_slice lt xs) = hd (sort_slice lt ys)"
proof (rule least_in_unique)
  show "least_in (hd (sort_slice lt xs)) (set xs)"
    using assms by (intro sort_slice_least)
  show "least_in (hd (sort_slice lt ys)) (set xs)"
    unfolding assms(1) using assms by (intro sort_slice_least) auto
qed

end

text \<open>
  A Go map the code ranges over is an association list with distinct keys: \<open>map_of\<close> looks up,
  \<open>AList.update\<close> stores, \<open>AList.delete\<close> deletes.
\<close>

abbreviation keys :: "('k \<times> 'v) list \<Rightarrow> 'k set" where
  "keys m \<equiv> fst ` set m"

definition wf_map :: "('k \<times> 'v) list \<Rightarrow> bool" where
  "wf_map m \<longleftrightarrow> distinct (map fst m)"

lemma wf_map_update [simp]: "wf_map m \<Longrightarrow> wf_map (AList.update k v m)"
  by (simp add: wf_map_def distinct_update)

lemma wf_map_delete [simp]: "wf_map m \<Longrightarrow> wf_map (AList.delete k m)"
  by (simp add: wf_map_def distinct_delete)

lemma wf_map_filter [simp]: "wf_map m \<Longrightarrow> wf_map (filter P m)"
  by (induction m) (auto simp: wf_map_def)

lemma wf_map_Nil [simp]: "wf_map []"
  by (simp add: wf_map_def)

lemma map_of_filter_wf [list_facts]:
  "wf_map m \<Longrightarrow> map_of (filter (\<lambda>(k, v). P k v) m) k =
     (case map_of m k of None \<Rightarrow> None | Some v \<Rightarrow> if P k v then Some v else None)"
proof (induction m)
  case (Cons p m)
  obtain a b where [simp]: "p = (a, b)" by (cases p)
  have "k = a \<Longrightarrow> map_of m k = None"
    using Cons.prems by (auto simp: wf_map_def map_of_eq_None_iff)
  with Cons show ?case by (auto simp: wf_map_def split: option.splits)
qed simp

lemma length_update_new [list_facts]:
  "length (AList.update k v m) = (if k \<in> keys m then length m else Suc (length m))"
  by (induction m) auto

lemma length_delete_less [list_facts]: "length (AList.delete k m) \<le> length m"
  by (simp add: AList.length_delete_le)

text \<open>A property of all entries of a map, and its laws under lookup, store and delete.\<close>

definition map_all :: "('k \<Rightarrow> 'v \<Rightarrow> bool) \<Rightarrow> ('k \<times> 'v) list \<Rightarrow> bool" where
  "map_all P m \<longleftrightarrow> (\<forall>(k, v)\<in>set m. P k v)"

lemma map_all_Nil [simp]: "map_all P []"
  by (simp add: map_all_def)

lemma map_all_update [intro]: "map_all P m \<Longrightarrow> P k v \<Longrightarrow> map_all P (AList.update k v m)"
  unfolding map_all_def by (induction m) auto

lemma map_all_filter [intro]: "map_all P m \<Longrightarrow> map_all P (filter Q m)"
  by (auto simp: map_all_def)

lemma map_all_delete [intro]: "map_all P m \<Longrightarrow> map_all P (AList.delete k m)"
  by (auto simp: AList.delete_eq)

lemma map_all_lookup: "map_all P m \<Longrightarrow> map_of m k = Some v \<Longrightarrow> P k v"
  by (auto simp: map_all_def dest: map_of_SomeD)

lemma map_of_key: "map_of m k = Some v \<Longrightarrow> k \<in> keys m"
  by (metis domI dom_map_of_conv_image_fst)

lemma map_of_no_key: "map_of m k = None \<Longrightarrow> k \<notin> keys m"
  by (simp add: map_of_eq_None_iff)

section \<open>Sliding windows of timestamps\<close>

text \<open>
  \<open>peers.Registry.checkRateLimitLocked\<close>, \<open>toolexec.RateLimiter.Allow\<close> and
  \<open>scores.RecentFailures\<close> keep the timestamps that lie strictly after \<open>now - window\<close>.
\<close>

definition prune :: "duration \<Rightarrow> time \<Rightarrow> time list \<Rightarrow> time list" where
  "prune window now ts = filter (\<lambda>t. now - window < t) ts"

definition in_window :: "duration \<Rightarrow> time \<Rightarrow> time list \<Rightarrow> nat" where
  "in_window window now ts = length (prune window now ts)"

lemma prune_prune: "now \<le> later \<Longrightarrow> prune w later (prune w now ts) = prune w later ts"
  by (auto simp: prune_def intro: filter_cong)

lemma prune_append: "prune w now (xs @ ys) = prune w now xs @ prune w now ys"
  by (simp add: prune_def)

text \<open>
  The contract of a limiter keyed by caller: a request prunes the caller's stamps, is granted iff
  fewer than \<open>limit\<close> remain, and a granted request is stamped. In any window of that length a
  caller then gets at most \<open>limit\<close> grants, whatever it and the others ask for.
\<close>

definition hits :: "duration \<Rightarrow> time \<Rightarrow> time list \<Rightarrow> nat" where
  "hits window t us = length (filter (\<lambda>u. t - window < u \<and> u \<le> t) us)"

lemma hits_append [simp]: "hits w t (us @ vs) = hits w t us + hits w t vs"
  by (simp add: hits_def)

lemma hits_le_prune:
  assumes "u \<le> t" "\<forall>g\<in>set gs. g \<le> u"
  shows "hits w t gs \<le> length (prune w u gs)"
proof -
  have "filter (\<lambda>g. t - w < g \<and> g \<le> t) gs = filter (\<lambda>g. t - w < g \<and> g \<le> t) (prune w u gs)"
    using assms by (auto simp: prune_def intro!: filter_cong)
  then show ?thesis by (simp add: hits_def)
qed

locale window_limiter =
  fixes allow :: "time \<Rightarrow> 's \<Rightarrow> 'k \<Rightarrow> 's \<times> bool"
    and stamps :: "'s \<Rightarrow> 'k \<Rightarrow> time list"
    and limit :: nat and window :: duration and served :: "'k \<Rightarrow> bool"
  assumes window_pos: "0 < window"
    and granted_iff: "served k \<Longrightarrow> snd (allow now s k) \<longleftrightarrow> length (prune window now (stamps s k)) < limit"
    and stamps_same: "served k \<Longrightarrow> stamps (fst (allow now s k)) k =
      prune window now (stamps s k) @ (if snd (allow now s k) then [now] else [])"
    and stamps_other: "k' \<noteq> k \<Longrightarrow> stamps (fst (allow now s k)) k' = stamps s k'"
begin

fun grants :: "'s \<Rightarrow> (time \<times> 'k) list \<Rightarrow> (time \<times> 'k) list" where
  "grants s [] = []"
| "grants s ((now, k) # rs) =
     (if snd (allow now s k) then [(now, k)] else []) @ grants (fst (allow now s k)) rs"

definition grants_of :: "'k \<Rightarrow> 's \<Rightarrow> (time \<times> 'k) list \<Rightarrow> time list" where
  "grants_of k s rs = map fst (filter (\<lambda>(t, k'). k' = k) (grants s rs))"

lemma grants_of_Cons:
  "grants_of k s ((now, k') # rs) =
     (if k' = k \<and> snd (allow now s k') then [now] else []) @ grants_of k (fst (allow now s k')) rs"
  by (simp add: grants_of_def)

lemma grants_bounded_from:
  assumes "served k" "sorted (map fst rs)" "\<forall>r\<in>set rs. n \<le> fst r"
    and "\<forall>g\<in>set gs. g \<le> n" "stamps s k = prune window n gs" "\<forall>t. hits window t gs \<le> limit"
  shows "hits window t (gs @ grants_of k s rs) \<le> limit"
  using assms(2-)
proof (induction rs arbitrary: s n gs)
  case Nil
  then show ?case by (simp add: grants_of_def hits_def)
next
  case (Cons r rs)
  obtain u j where r: "r = (u, j)" by (cases r)
  from Cons.prems r have rs: "sorted (map fst rs)" "\<forall>r\<in>set rs. u \<le> fst r" "n \<le> u"
    by auto
  let ?s = "fst (allow u s j)"
  show ?case
  proof (cases "j = k")
    case False
    then have "stamps ?s k = prune window n gs" using stamps_other Cons.prems(4) by metis
    with Cons.IH [of n gs ?s] Cons.prems r rs False show ?thesis
      by (auto simp: grants_of_Cons)
  next
    case True
    have pr: "prune window u (stamps s k) = prune window u gs"
      using Cons.prems(4) rs(3) by (simp add: prune_prune)
    have old: "\<forall>g\<in>set gs. g \<le> u" using Cons.prems(3) rs(3) by force
    let ?new = "if snd (allow u s k) then [u] else []"
    have st: "stamps ?s k = prune window u (gs @ ?new)"
      using stamps_same [OF assms(1), of u s] True pr window_pos by (simp add: prune_append prune_def)
    have "hits window t (gs @ ?new) \<le> limit" for t
    proof (cases "snd (allow u s k) \<and> u \<le> t \<and> t - window < u")
      case True
      have "hits window t gs < limit"
        using hits_le_prune [of u t gs window] True old granted_iff [OF assms(1), of u s] pr by auto
      then show ?thesis by (simp add: hits_def)
    next
      case False
      then have "hits window t ?new = 0" by (auto simp: hits_def)
      with Cons.prems(5) show ?thesis by simp
    qed
    then have "hits window t ((gs @ ?new) @ grants_of k ?s rs) \<le> limit"
      using Cons.IH [of u "gs @ ?new" ?s] rs st old by auto
    with True r show ?thesis by (simp add: grants_of_Cons)
  qed
qed

lemma grants_bounded:
  assumes "served k" "stamps s k = []" "sorted (map fst rs)"
  shows "hits window t (grants_of k s rs) \<le> limit"
proof (cases rs)
  case Nil
  then show ?thesis by (simp add: grants_of_def hits_def)
next
  case (Cons r rs')
  with assms(3) have "\<forall>x\<in>set rs. fst r \<le> fst x" by auto
  with assms show ?thesis
    using grants_bounded_from [of k rs "fst r" "[]" s t] by (simp add: prune_def hits_def)
qed

end

section \<open>JSON values and audit records\<close>

text \<open>
  A decoded JSON value (\<open>map[string]any\<close> in the code). Numbers are kept as integers: the code
  modelled here only distinguishes them from the other kinds.
\<close>

datatype json = JNull | JBool bool | JNum int | JStr string | JArr "json list" | JObj "(string \<times> json) list"

type_synonym json_object = "(string \<times> json) list"

text \<open>An HTTP status code, as the handlers write it.\<close>

type_synonym http_status = nat

text \<open>One line of the audit log: tool, decision and reason; the arguments are not modelled.\<close>

datatype audit_event = Audit (audit_tool: string) (audit_decision: string) (audit_reason: string)

end
