(* ===== verification/Gossip.thy ===== *)
theory Gossip
  imports Prelude
begin

text \<open>
  The contract of the three gossiped replicas (revocation list, roster states, memory graph):
  merging joins their views in a semilattice. The lemmas are proved once for any such merge and
  reached through interpretations in the theories that model the replicas.
\<close>

text \<open>
  A group of replicas, one per member, and one step in which a member pulls the replica of another. A run of
  such steps in any order is what heartbeats, acknowledgements and retries amount to.
\<close>

definition pull_step :: "('s \<Rightarrow> 's \<Rightarrow> 's) \<Rightarrow> ('i \<Rightarrow> 's) \<Rightarrow> 'i \<times> 'i \<Rightarrow> 'i \<Rightarrow> 's" where
  "pull_step pull reps p = reps(fst p := pull (reps (fst p)) (reps (snd p)))"

abbreviation pull_run :: "('s \<Rightarrow> 's \<Rightarrow> 's) \<Rightarrow> ('i \<Rightarrow> 's) \<Rightarrow> ('i \<times> 'i) list \<Rightarrow> 'i \<Rightarrow> 's" where
  "pull_run pull \<equiv> foldl (pull_step pull)"

locale gossip_merge =
  fixes merge :: "'s \<Rightarrow> 's \<Rightarrow> 's"
    and view :: "'s \<Rightarrow> 'v::semilattice_sup"
    and ok :: "'s \<Rightarrow> bool"
  assumes view_merge: "ok a \<Longrightarrow> ok b \<Longrightarrow> view (merge a b) = sup (view a) (view b)"
    and ok_merge: "ok a \<Longrightarrow> ok b \<Longrightarrow> ok (merge a b)"
begin

lemma view_comm: "ok a \<Longrightarrow> ok b \<Longrightarrow> view (merge a b) = view (merge b a)"
  by (simp add: view_merge sup_commute)

lemma view_assoc:
  "ok a \<Longrightarrow> ok b \<Longrightarrow> ok c \<Longrightarrow> view (merge (merge a b) c) = view (merge a (merge b c))"
  by (simp add: view_merge ok_merge sup_assoc)

lemma view_idem: "ok a \<Longrightarrow> view (merge a a) = view a"
  by (simp add: view_merge)

lemma view_absorb: "ok a \<Longrightarrow> ok b \<Longrightarrow> view (merge (merge a b) b) = view (merge a b)"
  by (simp add: view_merge ok_merge sup_assoc)

lemma view_grows: "ok a \<Longrightarrow> ok b \<Longrightarrow> view a \<le> view (merge a b)"
  by (simp add: view_merge)

text \<open>A whole run of merges: the view depends only on which replicas were heard from.\<close>

lemma ok_foldl: "ok a \<Longrightarrow> \<forall>b\<in>set bs. ok b \<Longrightarrow> ok (foldl merge a bs)"
  by (induction bs arbitrary: a) (auto simp: ok_merge)

lemma view_foldl_upper:
  "ok a \<Longrightarrow> \<forall>b\<in>set bs. ok b \<Longrightarrow> view (foldl merge a bs) \<le> v \<longleftrightarrow> view a \<le> v \<and> (\<forall>b\<in>set bs. view b \<le> v)"
proof (induction bs arbitrary: a)
  case (Cons b bs)
  then show ?case by (simp add: ok_merge view_merge conj_assoc)
qed simp

lemma foldl_same_sources:
  assumes "\<forall>x\<in>set (a # bs). ok x" "set (a # bs) = set (c # cs)"
  shows "view (foldl merge a bs) = view (foldl merge c cs)"
proof -
  have all: "view (foldl merge x xs) \<le> v \<longleftrightarrow> (\<forall>y\<in>set (x # xs). view y \<le> v)"
    if "\<forall>y\<in>set (x # xs). ok y" for x xs v
    using that by (simp add: view_foldl_upper)
  have "\<forall>x\<in>set (c # cs). ok x" by (rule assms(1) [unfolded assms(2)])
  then have "view (foldl merge a bs) \<le> v \<longleftrightarrow> view (foldl merge c cs) \<le> v" for v
    unfolding all [OF assms(1)] by (simp only: all assms(2))
  then show ?thesis by (meson order.refl order.antisym)
qed

lemma foldl_grows: "ok a \<Longrightarrow> \<forall>b\<in>set bs. ok b \<Longrightarrow> view a \<le> view (foldl merge a bs)"
  using view_foldl_upper [of a bs "view (foldl merge a bs)"] by simp

lemma foldl_includes:
  "ok a \<Longrightarrow> \<forall>b\<in>set bs. ok b \<Longrightarrow> b \<in> set bs \<Longrightarrow> view b \<le> view (foldl merge a bs)"
  using view_foldl_upper [of a bs "view (foldl merge a bs)"] by simp

text \<open>Runs of pulls between the members of a group.\<close>

lemma step_view: "\<forall>i. ok (reps i) \<Longrightarrow> view (pull_step merge reps (i, j) k) =
    (if k = i then sup (view (reps i)) (view (reps j)) else view (reps k))"
  by (simp add: pull_step_def view_merge)

lemma step_ok: "\<forall>i. ok (reps i) \<Longrightarrow> \<forall>i. ok (pull_step merge reps p i)"
  by (simp add: pull_step_def ok_merge)

lemma run_ok: "\<forall>i. ok (reps i) \<Longrightarrow> \<forall>i. ok (pull_run merge reps ps i)"
  by (induction ps arbitrary: reps) (simp_all add: step_ok)

lemma run_grows: "\<forall>i. ok (reps i) \<Longrightarrow> view (reps k) \<le> view (pull_run merge reps ps k)"
proof (induction ps arbitrary: reps)
  case (Cons p ps)
  have "view (reps k) \<le> view (pull_step merge reps p k)"
    using Cons.prems by (cases p) (simp add: step_view)
  also have "\<dots> \<le> view (pull_run merge (pull_step merge reps p) ps k)"
    using Cons.prems by (intro Cons.IH) (rule step_ok)
  finally show ?case by simp
qed simp

lemma run_bounded:
  "\<forall>i. ok (reps i) \<Longrightarrow> \<forall>i\<in>G. view (reps i) \<le> v \<Longrightarrow> set ps \<subseteq> G \<times> G \<Longrightarrow> k \<in> G \<Longrightarrow> view (pull_run merge reps ps k) \<le> v"
proof (induction ps arbitrary: reps)
  case (Cons p ps)
  from Cons.prems have "\<forall>i\<in>G. view (pull_step merge reps p i) \<le> v"
    by (cases p) (auto simp: step_view)
  then show ?case using Cons.prems by (simp add: Cons.IH step_ok)
qed simp

lemma run_gathers:
  "\<forall>i. ok (reps i) \<Longrightarrow> (k, j) \<in> set ps \<Longrightarrow> view (reps j) \<le> view (pull_run merge reps ps k)"
proof (induction ps arbitrary: reps)
  case (Cons p ps)
  note ok = step_ok [OF Cons.prems(1), of p]
  show ?case
  proof (cases "p = (k, j)")
    case True
    have "view (reps j) \<le> view (pull_step merge reps p k)"
      using Cons.prems(1) True by (simp add: step_view)
    also have "\<dots> \<le> view (pull_run merge (pull_step merge reps p) ps k)" by (rule run_grows [OF ok])
    finally show ?thesis by simp
  next
    case False
    have "view (reps j) \<le> view (pull_step merge reps p j)"
      using run_grows [OF Cons.prems(1), of j "[p]"] by simp
    also have "\<dots> \<le> view (pull_run merge (pull_step merge reps p) ps k)"
      using Cons.prems(2) False by (intro Cons.IH [OF ok]) auto
    finally show ?thesis by simp
  qed
qed simp

text \<open>
  A leg in which the hub pulls from everybody, then one in which everybody pulls from the hub: the whole group
  holds the join of what its members held, whatever else was pulled in between.
\<close>

lemma two_legs:
  assumes ok: "\<forall>i. ok (reps i)" and G: "hub \<in> G" "set (up @ down) \<subseteq> G \<times> G"
    and up: "\<forall>i\<in>G - {hub}. (hub, i) \<in> set up" and down: "\<forall>i\<in>G - {hub}. (i, hub) \<in> set down"
    and i: "i \<in> G"
  shows "view (pull_run merge reps (up @ down) i) = view (pull_run merge reps up hub)"
    and "j \<in> G \<Longrightarrow> view (reps j) \<le> view (pull_run merge reps (up @ down) i)"
proof -
  let ?mid = "pull_run merge reps up"
  have mid: "\<forall>i. ok (?mid i)" by (rule run_ok [OF ok])
  have all: "view (reps j) \<le> view (?mid hub)" if "j \<in> G" for j
    using run_gathers [OF ok, of hub j up] run_grows [OF ok, of hub up] up that by (cases "j = hub") auto
  have le: "view (?mid k) \<le> view (?mid hub)" if "k \<in> G" for k
    using G all that by (intro run_bounded [OF ok, of G]) auto
  have "view (pull_run merge ?mid down i) \<le> view (?mid hub)"
    using G le i by (intro run_bounded [OF mid, of G]) auto
  moreover have "view (?mid hub) \<le> view (pull_run merge ?mid down i)"
    using run_gathers [OF mid, of i hub down] run_grows [OF mid, of i down] down i by (cases "i = hub") auto
  ultimately show eq: "view (pull_run merge reps (up @ down) i) = view (?mid hub)" by simp
  show "view (reps j) \<le> view (pull_run merge reps (up @ down) i)" if "j \<in> G"
    unfolding eq by (rule all [OF that])
qed

end

end
