(* ===== verification/ClanState.thy ===== *)
theory ClanState
  imports Gossip "HOL-Library.Multiset"
begin

text \<open>
  \<open>cland/internal/state/state.go\<close>: the persisted clan, its roster, the revocation list, their
  digests and merges, and the store that keeps them on disk. SHA-256 is the parameter \<open>sha\<close> of the
  definitions that hash. The store carries two environment flags, whether the disk can be read and
  written, so that the error returns of \<open>loadJSON\<close> and \<open>saveJSONAtomic\<close> are branches; the JSON text
  itself is not modelled (a saved value is loaded back as it was).
\<close>

section \<open>Data\<close>

record roster_member =
  rm_id :: member_id
  rm_pub_key :: string
  rm_state :: string
  rm_admitted_at :: time
  rm_last_seen_at :: time

record clan =
  cl_id :: string
  cl_key_b64 :: string
  cl_cert_pem :: string
  cl_cert_pin :: string
  cl_cert_priv_b64 :: string
  cl_role :: string
  cl_joined_at :: time
  cl_roster :: "roster_member list"
  cl_orchestrator :: member_id
  cl_term :: u64
  cl_pinned_orchestrator :: bool
  cl_scribe :: member_id
  cl_pinned_scribe :: bool

record revocation =
  rv_id :: member_id
  rv_pub_key_hash :: string
  rv_revoked_at :: time
  rv_revoked_by :: member_id
  rv_reason :: string

text \<open>\<open>Revocations\<close> is a struct around \<open>Entries\<close>; a nil pointer is \<open>None\<close>.\<close>

type_synonym revocations = "revocation list"

definition empty_clan :: clan where
  "empty_clan = \<lparr>cl_id = [], cl_key_b64 = [], cl_cert_pem = [], cl_cert_pin = [], cl_cert_priv_b64 = [],
     cl_role = [], cl_joined_at = zero_time, cl_roster = [], cl_orchestrator = [], cl_term = 0,
     cl_pinned_orchestrator = False, cl_scribe = [], cl_pinned_scribe = False\<rparr>"

definition is_active :: "clan option \<Rightarrow> bool" where
  "is_active c = (case c of None \<Rightarrow> False | Some c \<Rightarrow> cl_id c \<noteq> [])"

section \<open>Digests\<close>

definition revocations_digest :: "(bytes \<Rightarrow> bytes) \<Rightarrow> revocations option \<Rightarrow> string" where
  "revocations_digest sha r =
     (case r of
        None \<Rightarrow> hex_encode (sha [])
      | Some es \<Rightarrow>
          if length es = 0 then hex_encode (sha [])
          else hex_encode (sha (join LF (sort (map rv_id es)))))"

definition roster_pair :: "roster_member \<Rightarrow> string" where
  "roster_pair m = rm_id m @ '':'' @ rm_state m"

definition roster_digest :: "(bytes \<Rightarrow> bytes) \<Rightarrow> clan option \<Rightarrow> string" where
  "roster_digest sha c =
     (case c of
        None \<Rightarrow> hex_encode (sha [])
      | Some c \<Rightarrow>
          if length (cl_roster c) = 0 then hex_encode (sha [])
          else hex_encode (sha (join LF (sort (map roster_pair (cl_roster c))))))"

section \<open>Merges\<close>

text \<open>One \<open>range\<close> loop of \<open>Revocations.Merge\<close>: \<open>out\<close> and \<open>seen\<close> threaded through the entries.\<close>

fun append_unseen ::
  "revocation list \<times> member_id set \<Rightarrow> revocation list \<Rightarrow> revocation list \<times> member_id set" where
  "append_unseen (out, seen) [] = (out, seen)"
| "append_unseen (out, seen) (e # es) =
     (if rv_id e \<notin> seen then append_unseen (out @ [e], insert (rv_id e) seen) es
      else append_unseen (out, seen) es)"

definition revocations_merge :: "revocations option \<Rightarrow> revocations option \<Rightarrow> revocations" where
  "revocations_merge r other =
     (let acc = ([], {});
          acc = (case r of None \<Rightarrow> acc | Some es \<Rightarrow> append_unseen acc es);
          acc = (case other of None \<Rightarrow> acc | Some es \<Rightarrow> append_unseen acc es)
      in fst acc)"

definition state_rank :: "string \<Rightarrow> nat" where
  "state_rank s =
     (if s = ''unaffiliated'' then 0 else if s = ''admitted'' then 1
      else if s = ''active'' then 2 else if s = ''revoked'' then 3 else 0)"

fun index_by_id :: "(member_id \<rightharpoonup> roster_member) \<Rightarrow> roster_member list \<Rightarrow> (member_id \<rightharpoonup> roster_member)" where
  "index_by_id m [] = m"
| "index_by_id m (r # rs) = index_by_id (m(rm_id r \<mapsto> r)) rs"

fun progress_by_id :: "(member_id \<rightharpoonup> roster_member) \<Rightarrow> roster_member list \<Rightarrow> (member_id \<rightharpoonup> roster_member)" where
  "progress_by_id m [] = m"
| "progress_by_id m (r # rs) =
     (case m (rm_id r) of
        None \<Rightarrow> progress_by_id (m(rm_id r \<mapsto> r)) rs
      | Some existing \<Rightarrow>
          if state_rank (rm_state existing) < state_rank (rm_state r)
          then progress_by_id (m(rm_id r \<mapsto> existing\<lparr>rm_state := rm_state r\<rparr>)) rs
          else progress_by_id m rs)"

fun emit_unseen :: "(member_id \<rightharpoonup> roster_member) \<Rightarrow> member_id set \<Rightarrow> roster_member list \<Rightarrow> roster_member list" where
  "emit_unseen m seen [] = []"
| "emit_unseen m seen (r # rs) =
     (if rm_id r \<notin> seen then the (m (rm_id r)) # emit_unseen m (insert (rm_id r) seen) rs
      else emit_unseen m seen rs)"

definition merge_roster_states :: "roster_member list \<Rightarrow> roster_member list \<Rightarrow> roster_member list" where
  "merge_roster_states local other =
     (let by_id = progress_by_id (index_by_id Map.empty local) other
      in map (\<lambda>m. the (by_id (rm_id m))) local @ emit_unseen by_id (rm_id ` set local) other)"

section \<open>The store\<close>

datatype store_error = ReadFailed | WriteFailed | NilSave

record store =
  st_clan :: "clan option"
  st_revocations :: "revocations option"
  st_readable :: bool
  st_writable :: bool

definition load_clan :: "store \<Rightarrow> store_error + clan option" where
  "load_clan s = (if st_readable s then Inr (st_clan s) else Inl ReadFailed)"

definition save_clan :: "store \<Rightarrow> clan option \<Rightarrow> store \<times> store_error option" where
  "save_clan s c =
     (case c of
        None \<Rightarrow> (s, Some NilSave)
      | Some c \<Rightarrow> if st_writable s then (s\<lparr>st_clan := Some c\<rparr>, None) else (s, Some WriteFailed))"

definition load_revocations :: "store \<Rightarrow> store_error + revocations" where
  "load_revocations s =
     (if st_readable s then Inr (case st_revocations s of None \<Rightarrow> [] | Some r \<Rightarrow> r) else Inl ReadFailed)"

definition save_revocations :: "store \<Rightarrow> revocations option \<Rightarrow> store \<times> store_error option" where
  "save_revocations s r =
     (case r of
        None \<Rightarrow> (s, Some NilSave)
      | Some r \<Rightarrow> if st_writable s then (s\<lparr>st_revocations := Some r\<rparr>, None) else (s, Some WriteFailed))"

lemmas store_defs = load_clan_def save_clan_def load_revocations_def save_revocations_def

section \<open>The revocation list as a set\<close>

definition revoked_ids :: "revocations \<Rightarrow> member_id set" where
  "revoked_ids es = rv_id ` set es"

definition wf_revocations :: "revocations \<Rightarrow> bool" where
  "wf_revocations es \<longleftrightarrow> distinct (map rv_id es)"

lemma append_unseen_spec:
  assumes "seen = revoked_ids out" "wf_revocations out" "append_unseen (out, seen) es = (out', seen')"
  shows "seen' = revoked_ids out' \<and> wf_revocations out' \<and> seen' = seen \<union> revoked_ids es
    \<and> (\<exists>new. out' = out @ new \<and> set new \<subseteq> set es)"
  using assms
proof (induction es arbitrary: out seen)
  case Nil
  then show ?case by (auto simp: revoked_ids_def)
next
  case (Cons e es)
  show ?case
  proof (cases "rv_id e \<in> seen")
    case True
    with Cons.prems have "append_unseen (out, seen) es = (out', seen')" by simp
    from Cons.IH [OF Cons.prems(1,2) this] True show ?thesis by (auto simp: revoked_ids_def)
  next
    case False
    with Cons.prems have step: "append_unseen (out @ [e], insert (rv_id e) seen) es = (out', seen')" by simp
    have "insert (rv_id e) seen = revoked_ids (out @ [e])" "wf_revocations (out @ [e])"
      using Cons.prems(1,2) False by (auto simp: revoked_ids_def wf_revocations_def)
    from Cons.IH [OF this step] show ?thesis by (auto simp: revoked_ids_def)
  qed
qed

lemma append_unseen_start:
  "append_unseen ([], {}) es = (out, seen) \<Longrightarrow>
     seen = revoked_ids out \<and> wf_revocations out \<and> revoked_ids out = revoked_ids es"
  using append_unseen_spec [of "{}" "[]" es out seen] by (auto simp: revoked_ids_def wf_revocations_def)

lemma append_unseen_all:
  "wf_revocations (out @ es) \<Longrightarrow> append_unseen (out, revoked_ids out) es = (out @ es, revoked_ids (out @ es))"
proof (induction es arbitrary: out)
  case (Cons e es)
  have "rv_id e \<notin> revoked_ids out"
    using Cons.prems by (auto simp: wf_revocations_def revoked_ids_def)
  moreover have "insert (rv_id e) (revoked_ids out) = revoked_ids (out @ [e])"
    by (simp add: revoked_ids_def)
  ultimately show ?case using Cons.IH [of "out @ [e]"] Cons.prems by simp
qed simp

lemma revocations_merge_cases:
  obtains out seen out' seen' where
    "append_unseen ([], {}) a = (out, seen)" "append_unseen (out, seen) b = (out', seen')"
    "revocations_merge (Some a) (Some b) = out'"
proof -
  obtain out seen where 1: "append_unseen ([], {}) a = (out, seen)" by force
  obtain out' seen' where 2: "append_unseen (out, seen) b = (out', seen')" by force
  from 1 2 have "revocations_merge (Some a) (Some b) = out'" by (simp add: revocations_merge_def)
  with 1 2 that show thesis by blast
qed

lemma revocations_merge_ids:
  "revoked_ids (revocations_merge (Some a) (Some b)) = revoked_ids a \<union> revoked_ids b"
  by (rule revocations_merge_cases [of a b]) (metis append_unseen_spec append_unseen_start)

lemma revocations_merge_wf: "wf_revocations (revocations_merge (Some a) (Some b))"
  by (rule revocations_merge_cases [of a b]) (metis append_unseen_spec append_unseen_start)

lemma revocations_merge_keeps_local:
  assumes "wf_revocations a"
  obtains new where "revocations_merge (Some a) (Some b) = a @ new" "set new \<subseteq> set b"
proof -
  have a: "append_unseen ([], {}) a = (a, revoked_ids a)"
    using append_unseen_all [of "[]" a] assms by (simp add: revoked_ids_def)
  obtain out' seen' where b: "append_unseen (a, revoked_ids a) b = (out', seen')" by force
  from a b have "revocations_merge (Some a) (Some b) = out'" by (simp add: revocations_merge_def)
  with append_unseen_spec [OF refl assms b] that show thesis by auto
qed

interpretation revocation_gossip: gossip_merge "\<lambda>a b. revocations_merge (Some a) (Some b)" revoked_ids "\<lambda>_. True"
  by unfold_locales (simp_all add: revocations_merge_ids)

text \<open>The text that is hashed is a function of the id set when ids are listed once.\<close>

definition revocations_text :: "revocations \<Rightarrow> bytes" where
  "revocations_text es = join LF (sort (map rv_id es))"

lemma revocations_digest_text: "revocations_digest sha (Some es) = hex_encode (sha (revocations_text es))"
  by (simp add: revocations_digest_def revocations_text_def)

lemma sort_eq_of_distinct:
  fixes xs ys :: "'a::linorder list"
  shows "distinct xs \<Longrightarrow> distinct ys \<Longrightarrow> set xs = set ys \<Longrightarrow> sort xs = sort ys"
  by (metis set_sort sorted_sort distinct_sort sorted_distinct_set_unique)

lemma revocations_text_set:
  "wf_revocations a \<Longrightarrow> wf_revocations b \<Longrightarrow> revoked_ids a = revoked_ids b \<Longrightarrow>
     revocations_text a = revocations_text b"
  unfolding revocations_text_def wf_revocations_def revoked_ids_def
  by (metis list.set_map sort_eq_of_distinct)

definition plain_ids :: "revocations \<Rightarrow> bool" where
  "plain_ids es \<longleftrightarrow> (\<forall>e\<in>set es. rv_id e \<noteq> [] \<and> free_of LF (rv_id e))"

lemma join_sort_ids_inj:
  assumes "plain_ids a" "plain_ids b" "revocations_text a = revocations_text b"
  shows "sort (map rv_id a) = sort (map rv_id b)"
proof -
  have ne: "revocations_text es \<noteq> []" if "plain_ids es" "es \<noteq> []" for es
  proof -
    have "length (sort (map rv_id es)) \<noteq> 0" using that by simp
    then obtain i js where js: "sort (map rv_id es) = i # js"
      by (cases "sort (map rv_id es)") auto
    have "i \<in> set (sort (map rv_id es))" unfolding js by simp
    then have "i \<in> rv_id ` set es" by simp
    with that have "i \<noteq> []" by (auto simp: plain_ids_def)
    with js show ?thesis by (simp add: revocations_text_def join_Cons_cases)
  qed
  show ?thesis
  proof (cases "a = [] \<or> b = []")
    case True
    have "revocations_text [] = []" by (simp add: revocations_text_def)
    have "a = [] \<and> b = []"
      using True ne [of a] ne [of b] assms \<open>revocations_text [] = []\<close> by (cases "a = []"; cases "b = []") auto
    then show ?thesis by simp
  next
    case False
    have free: "\<forall>x\<in>set (sort (map rv_id es)). free_of LF x" if "plain_ids es" for es
      using that by (auto simp: plain_ids_def)
    have ne': "sort (map rv_id a) \<noteq> []" "sort (map rv_id b) \<noteq> []"
      using False by (simp_all add: sort_eq_Nil)
    have "join LF (sort (map rv_id a)) = join LF (sort (map rv_id b))"
      by (rule assms(3) [unfolded revocations_text_def])
    then show ?thesis
      by (rule iffD1 [OF join_inj [OF free [OF assms(1)] free [OF assms(2)] ne']])
  qed
qed

section \<open>Roster states as ranks\<close>

definition wf_roster :: "roster_member list \<Rightarrow> bool" where
  "wf_roster rs \<longleftrightarrow> distinct (map rm_id rs)"

definition member_of :: "roster_member list \<Rightarrow> member_id \<Rightarrow> roster_member option" where
  "member_of rs i = find (\<lambda>m. rm_id m = i) rs"

definition rank_view :: "roster_member list \<Rightarrow> member_id \<Rightarrow> nat" where
  "rank_view rs i = (case member_of rs i of None \<Rightarrow> 0 | Some m \<Rightarrow> Suc (state_rank (rm_state m)))"

definition progressed :: "roster_member \<Rightarrow> roster_member \<Rightarrow> roster_member" where
  "progressed e r = (if state_rank (rm_state e) < state_rank (rm_state r) then e\<lparr>rm_state := rm_state r\<rparr> else e)"

lemma member_of_Nil [simp]: "member_of [] i = None"
  by (simp add: member_of_def)

lemma member_of_Cons: "member_of (r # rs) i = (if rm_id r = i then Some r else member_of rs i)"
  by (simp add: member_of_def)

lemma member_of_None: "member_of rs i = None \<longleftrightarrow> i \<notin> rm_id ` set rs"
  by (auto simp: member_of_def find_None_iff)

lemma member_of_Some: "member_of rs i = Some m \<Longrightarrow> m \<in> set rs \<and> rm_id m = i"
  by (auto simp: member_of_def find_Some_iff)

lemma member_of_in: "wf_roster rs \<Longrightarrow> m \<in> set rs \<Longrightarrow> member_of rs (rm_id m) = Some m"
  by (induction rs) (auto simp: member_of_Cons wf_roster_def)

lemma index_by_id_lookup:
  "wf_roster rs \<Longrightarrow> index_by_id m rs i = (case member_of rs i of None \<Rightarrow> m i | Some r \<Rightarrow> Some r)"
proof (induction rs arbitrary: m)
  case (Cons r rs)
  then have "member_of rs (rm_id r) = None" "wf_roster rs"
    by (simp_all add: wf_roster_def member_of_None)
  with Cons.IH show ?case by (auto simp: member_of_Cons split: option.splits)
qed simp

lemma progress_by_id_lookup:
  "wf_roster rs \<Longrightarrow> progress_by_id m rs i =
     (case member_of rs i of None \<Rightarrow> m i
      | Some r \<Rightarrow> Some (case m i of None \<Rightarrow> r | Some e \<Rightarrow> progressed e r))"
proof (induction rs arbitrary: m)
  case (Cons r rs)
  then have "member_of rs (rm_id r) = None" "wf_roster rs"
    by (simp_all add: wf_roster_def member_of_None)
  with Cons.IH show ?case
    by (auto simp: member_of_Cons progressed_def split: option.splits)
qed simp

definition merged_member :: "roster_member list \<Rightarrow> roster_member list \<Rightarrow> member_id \<Rightarrow> roster_member option" where
  "merged_member a b i =
     (case member_of b i of None \<Rightarrow> member_of a i
      | Some r \<Rightarrow> Some (case member_of a i of None \<Rightarrow> r | Some e \<Rightarrow> progressed e r))"

lemma by_id_lookup:
  "wf_roster a \<Longrightarrow> wf_roster b \<Longrightarrow> progress_by_id (index_by_id Map.empty a) b i = merged_member a b i"
  by (simp add: progress_by_id_lookup index_by_id_lookup merged_member_def split: option.splits)

lemma merged_member_id: "merged_member a b i = Some m \<Longrightarrow> rm_id m = i"
  by (auto simp: merged_member_def progressed_def split: option.splits if_splits dest: member_of_Some)

lemma merged_member_dom: "merged_member a b i = None \<longleftrightarrow> i \<notin> rm_id ` set a \<and> i \<notin> rm_id ` set b"
  by (auto simp: merged_member_def member_of_None split: option.splits) (auto simp: member_of_None [symmetric])

lemma emit_unseen_spec:
  "wf_roster rs \<Longrightarrow> emit_unseen m seen rs = map (\<lambda>r. the (m (rm_id r))) (filter (\<lambda>r. rm_id r \<notin> seen) rs)"
proof (induction rs arbitrary: seen)
  case (Cons r rs)
  then have wf: "wf_roster rs" and "rm_id r \<notin> rm_id ` set rs" by (auto simp: wf_roster_def)
  then have "filter (\<lambda>x. rm_id x \<notin> insert (rm_id r) seen) rs = filter (\<lambda>x. rm_id x \<notin> seen) rs"
    by (intro filter_cong) (auto simp: image_iff)
  with Cons.IH [OF wf] show ?case by simp
qed simp

lemma merge_roster_unfold:
  assumes "wf_roster a" "wf_roster b"
  shows "merge_roster_states a b =
    map (\<lambda>r. the (merged_member a b (rm_id r))) (a @ filter (\<lambda>r. rm_id r \<notin> rm_id ` set a) b)"
  using assms by (simp add: merge_roster_states_def by_id_lookup emit_unseen_spec)

lemma merge_roster_ids:
  assumes "wf_roster a" "wf_roster b"
  shows "map rm_id (merge_roster_states a b) =
    map rm_id (a @ filter (\<lambda>r. rm_id r \<notin> rm_id ` set a) b)"
proof -
  have "rm_id (the (merged_member a b i)) = i" if "i \<in> rm_id ` set a \<union> rm_id ` set b" for i
    using that merged_member_dom [of a b i] by (auto dest: merged_member_id)
  then show ?thesis by (auto simp: merge_roster_unfold [OF assms] comp_def)
qed

lemma merge_roster_wf: "wf_roster a \<Longrightarrow> wf_roster b \<Longrightarrow> wf_roster (merge_roster_states a b)"
  by (auto simp: wf_roster_def [of "merge_roster_states a b"] merge_roster_ids)
    (auto simp: wf_roster_def distinct_map inj_on_def image_iff)

lemma merge_roster_member:
  assumes "wf_roster a" "wf_roster b"
  shows "member_of (merge_roster_states a b) i = merged_member a b i"
proof (cases "merged_member a b i")
  case None
  have "rm_id ` set (merge_roster_states a b) = set (map rm_id (merge_roster_states a b))" by simp
  also have "\<dots> \<subseteq> rm_id ` set a \<union> rm_id ` set b"
    unfolding merge_roster_ids [OF assms] by auto
  finally have "i \<notin> rm_id ` set (merge_roster_states a b)"
    using None by (auto simp: merged_member_dom)
  with None show ?thesis by (simp add: member_of_None)
next
  case (Some m)
  then have "i \<in> rm_id ` set (a @ filter (\<lambda>r. rm_id r \<notin> rm_id ` set a) b)"
    using merged_member_dom [of a b i] by auto
  then obtain r where r: "r \<in> set (a @ filter (\<lambda>r. rm_id r \<notin> rm_id ` set a) b)" "rm_id r = i" by blast
  with Some have "m = the (merged_member a b (rm_id r))" by simp
  with r have "m \<in> set (merge_roster_states a b)"
    unfolding merge_roster_unfold [OF assms] set_map by blast
  moreover have "rm_id m = i" using Some by (rule merged_member_id)
  ultimately show ?thesis
    using Some merge_roster_wf [OF assms] member_of_in [of "merge_roster_states a b" m] by simp
qed

lemma merge_roster_view:
  "wf_roster a \<Longrightarrow> wf_roster b \<Longrightarrow> rank_view (merge_roster_states a b) = sup (rank_view a) (rank_view b)"
  by (rule ext) (auto simp: rank_view_def merge_roster_member merged_member_def progressed_def sup_nat_def
      split: option.splits)

interpretation roster_gossip: gossip_merge merge_roster_states rank_view wf_roster
  by unfold_locales (simp_all add: merge_roster_view merge_roster_wf)

definition same_person :: "roster_member \<Rightarrow> roster_member \<Rightarrow> bool" where
  "same_person m m' \<longleftrightarrow> rm_id m' = rm_id m \<and> rm_pub_key m' = rm_pub_key m \<and>
     rm_admitted_at m' = rm_admitted_at m \<and> state_rank (rm_state m) \<le> state_rank (rm_state m') \<and>
     (rm_state m = ''revoked'' \<longrightarrow> rm_state m' = ''revoked'')"

lemma progressed_same_person: "same_person m (progressed m r)"
  by (auto simp: same_person_def progressed_def state_rank_def)

lemma merged_member_progress:
  assumes "wf_roster a" "wf_roster b" "m \<in> set a"
  shows "\<exists>m'. member_of (merge_roster_states a b) (rm_id m) = Some m' \<and> same_person m m'"
  using assms progressed_same_person [of m]
  by (auto simp: merge_roster_member merged_member_def member_of_in same_person_def split: option.splits)

lemma rank_view_le_D:
  "rank_view a \<le> rank_view b \<Longrightarrow> member_of a i = Some m \<Longrightarrow>
     \<exists>m'. member_of b i = Some m' \<and> state_rank (rm_state m) \<le> state_rank (rm_state m')"
  by (drule le_funD [of _ _ i]) (auto simp: rank_view_def split: option.splits)

text \<open>Spec states are told apart by their rank, so the view determines the digested pairs.\<close>

definition known_state :: "string \<Rightarrow> bool" where
  "known_state s \<longleftrightarrow> s \<in> {''unaffiliated'', ''admitted'', ''active'', ''revoked''}"

definition known_roster :: "roster_member list \<Rightarrow> bool" where
  "known_roster rs \<longleftrightarrow> (\<forall>m\<in>set rs. known_state (rm_state m))"

lemma state_rank_inj: "known_state s \<Longrightarrow> known_state t \<Longrightarrow> state_rank s = state_rank t \<longleftrightarrow> s = t"
  by (auto simp: known_state_def state_rank_def)

lemma known_merge: "wf_roster a \<Longrightarrow> wf_roster b \<Longrightarrow> known_roster a \<Longrightarrow> known_roster b \<Longrightarrow> known_roster (merge_roster_states a b)"
  unfolding known_roster_def
proof
  fix m assume wf: "wf_roster a" "wf_roster b" and k: "\<forall>m\<in>set a. known_state (rm_state m)" "\<forall>m\<in>set b. known_state (rm_state m)"
    and m: "m \<in> set (merge_roster_states a b)"
  then have "merged_member a b (rm_id m) = Some m"
    using merge_roster_member merge_roster_wf member_of_in by metis
  then show "known_state (rm_state m)"
    using k by (auto simp: merged_member_def progressed_def split: option.splits if_splits dest: member_of_Some)
qed

lemma roster_pairs_of_view:
  assumes "wf_roster a" "wf_roster b" "known_roster a" "known_roster b" "rank_view a = rank_view b"
  shows "(\<lambda>m. (rm_id m, rm_state m)) ` set a \<subseteq> (\<lambda>m. (rm_id m, rm_state m)) ` set b"
proof
  fix p assume "p \<in> (\<lambda>m. (rm_id m, rm_state m)) ` set a"
  then obtain m where m: "m \<in> set a" "p = (rm_id m, rm_state m)" by auto
  then have "member_of a (rm_id m) = Some m" using assms(1) by (simp add: member_of_in)
  with assms(5) obtain m' where m': "member_of b (rm_id m) = Some m'"
    and "Suc (state_rank (rm_state m)) = Suc (state_rank (rm_state m'))"
    by (auto simp: rank_view_def fun_eq_iff split: option.splits)
  moreover have "m' \<in> set b" "rm_id m' = rm_id m" using m' by (auto dest: member_of_Some)
  ultimately have "rm_state m = rm_state m'"
    using m assms(3,4) by (auto simp: known_roster_def state_rank_inj)
  with m \<open>rm_id m' = rm_id m\<close> have "p = (rm_id m', rm_state m')" by simp
  with \<open>m' \<in> set b\<close> show "p \<in> (\<lambda>m. (rm_id m, rm_state m)) ` set b" by blast
qed

lemma mset_pairs_of_view:
  assumes "wf_roster a" "wf_roster b" "known_roster a" "known_roster b" "rank_view a = rank_view b"
  shows "sort (map roster_pair a) = sort (map roster_pair b)"
proof -
  let ?p = "\<lambda>m. (rm_id m, rm_state m)"
  have "set (map ?p a) = set (map ?p b)"
    using roster_pairs_of_view [of a b] roster_pairs_of_view [of b a] assms by auto
  moreover have "distinct (map ?p a)" "distinct (map ?p b)"
    using assms(1,2) by (auto simp: wf_roster_def distinct_map inj_on_def)
  ultimately have "mset (map ?p a) = mset (map ?p b)"
    by (simp only: set_eq_iff_mset_eq_distinct)
  then have "mset (map (\<lambda>(i, s). i @ '':'' @ s) (map ?p a)) = mset (map (\<lambda>(i, s). i @ '':'' @ s) (map ?p b))"
    by (simp only: mset_map)
  then have "mset (map roster_pair a) = mset (map roster_pair b)"
    by (simp add: comp_def roster_pair_def [abs_def])
  then show ?thesis by (intro properties_for_sort) simp_all
qed

lemma roster_digest_view:
  assumes "wf_roster a" "wf_roster b" "known_roster a" "known_roster b" "rank_view a = rank_view b"
  shows "roster_digest sha (Some (c\<lparr>cl_roster := a\<rparr>)) = roster_digest sha (Some (d\<lparr>cl_roster := b\<rparr>))"
  using mset_pairs_of_view [OF assms]
  by (auto simp: roster_digest_def sort_eq_Nil dest: arg_cong [of _ _ size])

lemma foldl_known:
  "\<forall>x\<in>set (a # bs). wf_roster x \<and> known_roster x \<Longrightarrow> wf_roster (foldl merge_roster_states a bs) \<and> known_roster (foldl merge_roster_states a bs)"
  by (induction bs arbitrary: a) (simp_all add: merge_roster_wf known_merge)

section \<open>Properties\<close>

text \<open>C23: Roster gossip converges. Two members that have merged the same roster snapshots, in any order,
  with any repetitions and starting from any of them, publish the same roster digest, whatever local
  metadata (keys, timestamps) their entries carry.\<close>

theorem roster_gossip_converges:
  assumes "\<forall>r\<in>set (a # bs). wf_roster r \<and> known_roster r" "set (a # bs) = set (a' # cs)"
  shows "roster_digest sha (Some (c\<lparr>cl_roster := foldl merge_roster_states a bs\<rparr>)) =
    roster_digest sha (Some (d\<lparr>cl_roster := foldl merge_roster_states a' cs\<rparr>))"
proof (rule roster_digest_view)
  have "\<forall>r\<in>set (a' # cs). wf_roster r \<and> known_roster r"
    using assms(1) unfolding assms(2) .
  from foldl_known [OF this] foldl_known [OF assms(1)]
  show "wf_roster (foldl merge_roster_states a bs)" "wf_roster (foldl merge_roster_states a' cs)"
    "known_roster (foldl merge_roster_states a bs)" "known_roster (foldl merge_roster_states a' cs)"
    by simp_all
  show "rank_view (foldl merge_roster_states a bs) = rank_view (foldl merge_roster_states a' cs)"
    using assms by (intro roster_gossip.foldl_same_sources) auto
qed

definition sample_member :: "member_id \<Rightarrow> string \<Rightarrow> time \<Rightarrow> roster_member" where
  "sample_member i s t = \<lparr>rm_id = i, rm_pub_key = [], rm_state = s, rm_admitted_at = t, rm_last_seen_at = t\<rparr>"

theorem roster_gossip_converges_witness:
  "roster_digest rev (Some (empty_clan\<lparr>cl_roster := foldl merge_roster_states
      [sample_member ''a'' ''active'' 1] [[sample_member ''b'' ''admitted'' 2], [sample_member ''a'' ''revoked'' 3]]\<rparr>)) =
   roster_digest rev (Some (empty_clan\<lparr>cl_roster := foldl merge_roster_states
      [sample_member ''a'' ''revoked'' 3] [[sample_member ''a'' ''active'' 1], [sample_member ''b'' ''admitted'' 2]]\<rparr>))"
  by (rule roster_gossip_converges)
    (auto simp: wf_roster_def known_roster_def known_state_def sample_member_def)

text \<open>Membership state never moves backwards under roster gossip. After any run of merges every member
  of the local roster is still there with its public key and admission time, in a state of at least
  its former rank; a revoked member stays revoked.\<close>

theorem roster_gossip_never_demotes:
  assumes "wf_roster a" "\<forall>b\<in>set bs. wf_roster b" "m \<in> set a"
  shows "\<exists>m'. member_of (foldl merge_roster_states a bs) (rm_id m) = Some m' \<and> rm_id m' = rm_id m \<and>
    rm_pub_key m' = rm_pub_key m \<and> rm_admitted_at m' = rm_admitted_at m \<and>
    state_rank (rm_state m) \<le> state_rank (rm_state m') \<and>
    (rm_state m = ''revoked'' \<longrightarrow> rm_state m' = ''revoked'')"
  using assms
proof (induction bs arbitrary: a m)
  case Nil
  then show ?case by (auto simp: member_of_in)
next
  case (Cons b bs)
  obtain m1 where m1: "member_of (merge_roster_states a b) (rm_id m) = Some m1" "same_person m m1"
    using merged_member_progress [of a b m] Cons.prems by auto
  then have "m1 \<in> set (merge_roster_states a b)" by (auto dest: member_of_Some)
  with Cons.IH [of "merge_roster_states a b" m1] Cons.prems m1 show ?case
    by (auto simp: merge_roster_wf same_person_def)
qed

theorem roster_gossip_never_demotes_witness:
  "\<exists>m'. member_of (foldl merge_roster_states [sample_member ''a'' ''revoked'' 1] [[sample_member ''a'' ''active'' 3]])
      (rm_id (sample_member ''a'' ''revoked'' 1)) = Some m' \<and> rm_state m' = ''revoked'' \<and> rm_admitted_at m' = 1"
  using roster_gossip_never_demotes [of "[sample_member ''a'' ''revoked'' 1]" "[[sample_member ''a'' ''active'' 3]]"
      "sample_member ''a'' ''revoked'' 1"]
  by (auto simp: wf_roster_def sample_member_def)

text \<open>Revocation gossip converges. Two members that have merged the same revocation lists, in any
  order and with any repetitions, publish the same digest, and the lists they hold name exactly the
  members revoked in some source.\<close>

theorem revocation_gossip_converges:
  fixes a :: revocations and bs cs
  defines "merge \<equiv> \<lambda>x y. revocations_merge (Some x) (Some y)"
  assumes "bs \<noteq> []" "cs \<noteq> []" "set (a # bs) = set (a' # cs)"
  shows "revocations_digest sha (Some (foldl merge a bs)) = revocations_digest sha (Some (foldl merge a' cs))
    \<and> revoked_ids (foldl merge a bs) = (\<Union>es\<in>set (a # bs). revoked_ids es)"
proof -
  have wf: "wf_revocations (foldl merge x xs)" if "xs \<noteq> []" for x xs
    using that by (induction xs rule: rev_induct) (simp_all add: merge_def revocations_merge_wf)
  have ids: "revoked_ids (foldl merge x xs) = (\<Union>es\<in>set (x # xs). revoked_ids es)" for x xs
    by (induction xs arbitrary: x) (auto simp: merge_def revocations_merge_ids)
  have "revoked_ids (foldl merge a bs) = revoked_ids (foldl merge a' cs)"
    unfolding ids assms(4) ..
  then have "revocations_text (foldl merge a bs) = revocations_text (foldl merge a' cs)"
    by (intro revocations_text_set wf assms)
  with ids show ?thesis by (simp add: revocations_digest_text)
qed

definition sample_revocation :: "member_id \<Rightarrow> time \<Rightarrow> revocation" where
  "sample_revocation i t = \<lparr>rv_id = i, rv_pub_key_hash = [], rv_revoked_at = t, rv_revoked_by = ''op'', rv_reason = []\<rparr>"

theorem revocation_gossip_converges_witness:
  "revocations_digest rev (Some (foldl (\<lambda>x y. revocations_merge (Some x) (Some y))
      [sample_revocation ''a'' 1] [[sample_revocation ''b'' 2], [sample_revocation ''a'' 3]])) =
   revocations_digest rev (Some (foldl (\<lambda>x y. revocations_merge (Some x) (Some y))
      [sample_revocation ''a'' 3] [[sample_revocation ''a'' 1], [sample_revocation ''b'' 2]]))"
  by (rule conjunct1, rule revocation_gossip_converges) (auto simp: sample_revocation_def)

text \<open>Equal revocation digests mean equal revocation sets. For two lists that name each member once,
  with non-empty ids without line feeds and a hash that does not collide on the two hashed texts, the
  digests agree exactly when the two lists revoke the same members; the entries' other fields do not
  matter.\<close>

theorem revocations_digest_faithful:
  assumes "wf_revocations a" "wf_revocations b" "plain_ids a" "plain_ids b"
    and "sha (revocations_text a) = sha (revocations_text b) \<Longrightarrow> revocations_text a = revocations_text b"
  shows "revocations_digest sha (Some a) = revocations_digest sha (Some b) \<longleftrightarrow> revoked_ids a = revoked_ids b"
proof
  assume "revocations_digest sha (Some a) = revocations_digest sha (Some b)"
  then have "sort (map rv_id a) = sort (map rv_id b)"
    using assms by (intro join_sort_ids_inj) (auto simp: revocations_digest_text hex_encode_inj)
  then have "set (sort (map rv_id a)) = set (sort (map rv_id b))" by simp
  then show "revoked_ids a = revoked_ids b" by (simp add: revoked_ids_def)
next
  assume "revoked_ids a = revoked_ids b"
  with assms show "revocations_digest sha (Some a) = revocations_digest sha (Some b)"
    by (simp add: revocations_digest_text revocations_text_set [of a b])
qed

theorem revocations_digest_faithful_witness:
  "revocations_digest rev (Some [sample_revocation ''a'' 1, sample_revocation ''b'' 2]) =
     revocations_digest rev (Some [sample_revocation ''b'' 7, sample_revocation ''a'' 8]) \<longleftrightarrow>
   revoked_ids [sample_revocation ''a'' 1, sample_revocation ''b'' 2] =
     revoked_ids [sample_revocation ''b'' 7, sample_revocation ''a'' 8]"
  by (rule revocations_digest_faithful)
    (auto simp: wf_revocations_def plain_ids_def sample_revocation_def)

end
