(* ===== verification/ElectionState.thy ===== *)
theory ElectionState
  imports ClanState
begin

text \<open>
  \<open>cland/internal/election/state.go\<close>: the in-memory lease and election state of one daemon. Each
  method holds the mutex for its whole body, so each is one atomic function; the clock readings are
  arguments. Terms are uint64 and wrap.
\<close>

section \<open>Data\<close>

record heartbeat =
  hb_member_id :: member_id
  hb_clan_id :: string
  hb_term :: u64
  hb_lease_until :: time
  hb_reasoning_score :: int
  hb_active_roster :: "member_id list"
  hb_revocations_digest :: string
  hb_roster_digest :: string
  hb_memory_digest :: string
  hb_scribe :: member_id

record history_entry =
  he_term :: u64
  he_winner :: member_id
  he_reason :: string
  he_at :: time

record election_state =
  es_self_id :: member_id
  es_started_at :: time
  es_term :: u64
  es_orchestrator :: member_id
  es_lease_expires :: time
  es_scribe :: member_id
  es_history :: "history_entry list"
  es_history_cap :: nat

record apply_result =
  ar_accepted :: bool
  ar_term_changed :: bool
  ar_orch_changed :: bool
  ar_new_term :: u64
  ar_new_orch :: member_id

datatype election_error = ErrTermStale | ErrAntiSpoof | ErrSenderMismatch | ErrForeignClan

abbreviation reason_bootstrap :: string where "reason_bootstrap \<equiv> ''bootstrap''"
abbreviation reason_lease_expire :: string where "reason_lease_expire \<equiv> ''lease_expired''"
abbreviation reason_pin_override :: string where "reason_pin_override \<equiv> ''pin_override''"
abbreviation reason_retry :: string where "reason_retry \<equiv> ''split_brain_retry''"

section \<open>Operations\<close>

definition new_state :: "time \<Rightarrow> member_id \<Rightarrow> u64 \<Rightarrow> member_id \<Rightarrow> int \<Rightarrow> election_state" where
  "new_state now self term orch cap =
     \<lparr>es_self_id = self, es_started_at = now, es_term = term, es_orchestrator = orch,
      es_lease_expires = zero_time, es_scribe = [], es_history = [],
      es_history_cap = nat (if cap \<le> 0 then 32 else cap)\<rparr>"

definition set_scribe :: "election_state \<Rightarrow> member_id \<Rightarrow> election_state \<times> bool" where
  "set_scribe s i = (if es_scribe s = i then (s, False) else (s\<lparr>es_scribe := i\<rparr>, True))"

definition seed_scribe :: "election_state \<Rightarrow> member_id \<Rightarrow> election_state" where
  "seed_scribe s i = s\<lparr>es_scribe := i\<rparr>"

definition push_history :: "election_state \<Rightarrow> history_entry \<Rightarrow> election_state" where
  "push_history s e =
     (let h = es_history s @ [e]
      in s\<lparr>es_history := if length h > es_history_cap s then drop (length h - es_history_cap s) h else h\<rparr>)"

definition accept_result :: "election_state \<Rightarrow> heartbeat \<Rightarrow> apply_result" where
  "accept_result s hb =
     \<lparr>ar_accepted = True, ar_term_changed = (hb_term hb \<noteq> es_term s),
      ar_orch_changed = (hb_member_id hb \<noteq> es_orchestrator s), ar_new_term = hb_term hb,
      ar_new_orch = hb_member_id hb\<rparr>"

definition accept_state :: "election_state \<Rightarrow> heartbeat \<Rightarrow> time \<Rightarrow> duration \<Rightarrow> election_state" where
  "accept_state s hb now lease_duration =
     (let s1 = s\<lparr>es_term := hb_term hb, es_orchestrator := hb_member_id hb,
                 es_lease_expires := now + lease_duration\<rparr>
      in if hb_term hb \<noteq> es_term s \<or> hb_member_id hb \<noteq> es_orchestrator s
         then push_history s1 \<lparr>he_term = hb_term hb, he_winner = hb_member_id hb,
                he_reason = reason_lease_expire, he_at = now\<rparr>
         else s1)"

definition apply_heartbeat ::
  "election_state \<Rightarrow> heartbeat \<Rightarrow> time \<Rightarrow> duration \<Rightarrow> bool \<Rightarrow> election_state \<times> (election_error + apply_result)" where
  "apply_heartbeat s hb now lease_duration acceptable =
     (if hb_term hb < es_term s then (s, Inl ErrTermStale)
      else if hb_term hb = es_term s \<and> \<not> acceptable then (s, Inl ErrAntiSpoof)
      else (accept_state s hb now lease_duration, Inr (accept_result s hb)))"

definition commit_self_election ::
  "election_state \<Rightarrow> u64 \<Rightarrow> string \<Rightarrow> time \<Rightarrow> duration \<Rightarrow> election_state \<times> apply_result" where
  "commit_self_election s new_term reason now lease_duration =
     (let term_changed = new_term \<noteq> es_term s;
          orch_changed = es_self_id s \<noteq> es_orchestrator s;
          s1 = s\<lparr>es_term := new_term, es_orchestrator := es_self_id s, es_lease_expires := now + lease_duration\<rparr>;
          s2 = push_history s1 \<lparr>he_term = new_term, he_winner = es_self_id s, he_reason = reason, he_at = now\<rparr>
      in (s2, \<lparr>ar_accepted = True, ar_term_changed = term_changed, ar_orch_changed = orch_changed,
               ar_new_term = new_term, ar_new_orch = es_self_id s\<rparr>))"

definition lease_silent :: "election_state \<Rightarrow> time \<Rightarrow> duration \<Rightarrow> bool" where
  "lease_silent s now grace \<longleftrightarrow> es_lease_expires s = zero_time \<or> es_lease_expires s + grace < now"

definition i_am_orchestrator :: "election_state \<Rightarrow> time \<Rightarrow> bool" where
  "i_am_orchestrator s now \<longleftrightarrow>
     es_orchestrator s = es_self_id s \<and> es_lease_expires s \<noteq> zero_time \<and> now < es_lease_expires s"

section \<open>Frame lemmas\<close>

named_theorems state_frame \<open>what each state operation leaves alone\<close>

lemma push_history_frame [state_frame, simp]:
  "es_self_id (push_history s e) = es_self_id s" "es_started_at (push_history s e) = es_started_at s"
  "es_term (push_history s e) = es_term s" "es_orchestrator (push_history s e) = es_orchestrator s"
  "es_lease_expires (push_history s e) = es_lease_expires s" "es_scribe (push_history s e) = es_scribe s"
  "es_history_cap (push_history s e) = es_history_cap s"
  by (simp_all add: push_history_def Let_def)

lemma set_scribe_frame [state_frame, simp]:
  "es_self_id (fst (set_scribe s i)) = es_self_id s" "es_term (fst (set_scribe s i)) = es_term s"
  "es_orchestrator (fst (set_scribe s i)) = es_orchestrator s"
  "es_lease_expires (fst (set_scribe s i)) = es_lease_expires s"
  "es_history (fst (set_scribe s i)) = es_history s" "es_history_cap (fst (set_scribe s i)) = es_history_cap s"
  "es_started_at (fst (set_scribe s i)) = es_started_at s" "es_scribe (fst (set_scribe s i)) = i"
  by (simp_all add: set_scribe_def)

lemma commit_self_election_frame [state_frame, simp]:
  "es_self_id (fst (commit_self_election s t r now d)) = es_self_id s"
  "es_term (fst (commit_self_election s t r now d)) = t"
  "es_orchestrator (fst (commit_self_election s t r now d)) = es_self_id s"
  "es_lease_expires (fst (commit_self_election s t r now d)) = now + d"
  "es_history_cap (fst (commit_self_election s t r now d)) = es_history_cap s"
  "es_started_at (fst (commit_self_election s t r now d)) = es_started_at s"
  "es_scribe (fst (commit_self_election s t r now d)) = es_scribe s"
  by (simp_all add: commit_self_election_def Let_def)

lemma accept_state_frame [state_frame, simp]:
  "es_self_id (accept_state s hb now d) = es_self_id s" "es_started_at (accept_state s hb now d) = es_started_at s"
  "es_term (accept_state s hb now d) = hb_term hb" "es_orchestrator (accept_state s hb now d) = hb_member_id hb"
  "es_lease_expires (accept_state s hb now d) = now + d" "es_scribe (accept_state s hb now d) = es_scribe s"
  "es_history_cap (accept_state s hb now d) = es_history_cap s"
  by (simp_all add: accept_state_def Let_def)

lemma apply_heartbeat_cases:
  obtains (stale) "hb_term hb < es_term s" "apply_heartbeat s hb now d ok = (s, Inl ErrTermStale)"
  | (spoof) "hb_term hb = es_term s" "\<not> ok" "apply_heartbeat s hb now d ok = (s, Inl ErrAntiSpoof)"
  | (accepted) "es_term s \<le> hb_term hb" "es_term s < hb_term hb \<or> ok"
      "apply_heartbeat s hb now d ok = (accept_state s hb now d, Inr (accept_result s hb))"
  unfolding apply_heartbeat_def by (cases "hb_term hb < es_term s"; cases "hb_term hb = es_term s \<and> \<not> ok")
    (auto simp: not_less order.order_iff_strict)

section \<open>The history ring\<close>

definition history_ok :: "election_state \<Rightarrow> bool" where
  "history_ok s \<longleftrightarrow> 0 < es_history_cap s \<and> length (es_history s) \<le> es_history_cap s"

lemma push_history_ok [intro, simp]: "history_ok s \<Longrightarrow> history_ok (push_history s e)"
  by (auto simp: history_ok_def push_history_def Let_def)

lemma push_history_last: "history_ok s \<Longrightarrow> last (es_history (push_history s e)) = e \<and> es_history (push_history s e) \<noteq> []"
  by (auto simp: history_ok_def push_history_def Let_def)

lemma history_ok_frame:
  "es_history s' = es_history s \<Longrightarrow> es_history_cap s' = es_history_cap s \<Longrightarrow> history_ok s' = history_ok s"
  by (simp add: history_ok_def)

lemma new_state_history_ok: "history_ok (new_state now self t orch cap)"
  by (simp add: history_ok_def new_state_def)

lemma set_scribe_history_ok [intro]: "history_ok s \<Longrightarrow> history_ok (fst (set_scribe s i))"
  by (simp add: history_ok_frame [of "fst (set_scribe s i)" s])

lemma commit_history_ok [intro]: "history_ok s \<Longrightarrow> history_ok (fst (commit_self_election s t r now d))"
  by (simp add: commit_self_election_def Let_def history_ok_def [of s])
    (intro push_history_ok, simp add: history_ok_def)

lemma accept_history_ok [intro]: "history_ok s \<Longrightarrow> history_ok (accept_state s hb now d)"
  by (auto simp: accept_state_def Let_def intro!: push_history_ok) (auto simp: history_ok_def)

lemma apply_history_ok [intro]: "history_ok s \<Longrightarrow> history_ok (fst (apply_heartbeat s hb now d ok))"
  by (auto simp: apply_heartbeat_def)

end
