(* ===== verification/Peers.thy ===== *)
theory Peers
  imports ClanState
begin

text \<open>
  \<open>cland/internal/peers\<close>: the runtime registry of candidate addresses and member entries
  (\<open>peers.go\<close>) and the three endpoints on it (\<open>handlers.go\<close>). Every mutex-guarded section is one
  atomic operation; \<open>AddPeer\<close>, which releases the lock around its dial, is an admission step and a
  later \<open>UpsertCandidate\<close>. Clock readings and the result of the dial are arguments. The maps are
  association lists, since \<open>Snapshot\<close> ranges over them; a missing rate bucket is the empty one.
\<close>

section \<open>Data\<close>

datatype discovered_via = SourceMDNS | SourceManual | SourceJoin

text \<open>\<open>Hardware\<close>, \<open>Capabilities\<close> and the float \<open>Load\<close> are carried as decoded JSON.\<close>

record advertisement =
  ad_member_id :: member_id
  ad_clan_id :: string
  ad_term :: u64
  ad_generation :: u64
  ad_os :: string
  ad_lan_address :: string
  ad_hardware :: json_object
  ad_reasoning_score :: int
  ad_system_score :: int
  ad_capabilities :: json_object
  ad_load :: json
  ad_pinned_orchestrator :: bool
  ad_scribe_capable :: bool
  ad_pinned_scribe :: bool

record candidate =
  cd_address :: string
  cd_discovered_via :: discovered_via
  cd_first_seen :: time

record peer_member =
  pm_id :: member_id
  pm_address :: string
  pm_discovered_via :: discovered_via
  pm_last_ad :: time
  pm_last_seen_at :: time
  pm_latest_ad :: "advertisement option"
  pm_ad_generation :: u64
  pm_heartbeat_seen :: bool

record registry =
  rg_candidates :: "(string \<times> candidate) list"
  rg_members :: "(member_id \<times> peer_member) list"
  rg_revocations :: "member_id set"
  rg_rates :: "member_id \<Rightarrow> time list"
  rg_max_entries :: int

datatype peers_error = AddressRequired | OriginRequired | AdRequiresMember
  | ErrRevoked | ErrRegistryFull | ErrRateLimited | PreDialFailed

definition default_max_entries :: int where "default_max_entries = 100"
definition ad_fresh_window :: duration where "ad_fresh_window = 90 * second"
definition live_window :: duration where "live_window = 4 * second"
definition peer_add_rate_limit :: nat where "peer_add_rate_limit = 10"
definition peer_add_rate_window :: duration where "peer_add_rate_window = 60 * second"

definition new_registry :: registry where
  "new_registry = \<lparr>rg_candidates = [], rg_members = [], rg_revocations = {}, rg_rates = (\<lambda>_. []),
     rg_max_entries = default_max_entries\<rparr>"

section \<open>Freshness\<close>

definition ad_fresh :: "peer_member \<Rightarrow> time \<Rightarrow> bool" where
  "ad_fresh m now \<longleftrightarrow> pm_last_ad m \<noteq> zero_time \<and> time_sub now (pm_last_ad m) < ad_fresh_window"

definition live :: "peer_member \<Rightarrow> time \<Rightarrow> bool" where
  "live m now \<longleftrightarrow> pm_last_seen_at m \<noteq> zero_time \<and> time_sub now (pm_last_seen_at m) < live_window"

section \<open>Operations of the registry\<close>

definition set_max_entries :: "registry \<Rightarrow> int \<Rightarrow> registry" where
  "set_max_entries r n = r\<lparr>rg_max_entries := n\<rparr>"

definition set_revocations :: "registry \<Rightarrow> revocations \<Rightarrow> registry" where
  "set_revocations r es = r\<lparr>rg_revocations := foldl (\<lambda>s e. insert (rv_id e) s) {} es\<rparr>"

definition total_locked :: "registry \<Rightarrow> int" where
  "total_locked r = int (length (rg_candidates r)) + int (length (rg_members r))"

definition upsert_candidate ::
  "time \<Rightarrow> registry \<Rightarrow> string \<Rightarrow> discovered_via \<Rightarrow> registry \<times> peers_error option" where
  "upsert_candidate now r address via =
     (if address = [] then (r, Some AddressRequired)
      else if map_of (rg_candidates r) address \<noteq> None then (r, None)
      else if total_locked r \<ge> rg_max_entries r then (r, Some ErrRegistryFull)
      else (r\<lparr>rg_candidates := AList.update address
                \<lparr>cd_address = address, cd_discovered_via = via, cd_first_seen = now\<rparr>
                (rg_candidates r)\<rparr>, None))"

definition check_rate_limit :: "time \<Rightarrow> registry \<Rightarrow> member_id \<Rightarrow> registry \<times> bool" where
  "check_rate_limit now r origin =
     (let kept = prune peer_add_rate_window now (rg_rates r origin)
      in if length kept \<ge> peer_add_rate_limit
         then (r\<lparr>rg_rates := (rg_rates r)(origin := kept)\<rparr>, False)
         else (r\<lparr>rg_rates := (rg_rates r)(origin := kept @ [now])\<rparr>, True))"

text \<open>The part of \<open>AddPeer\<close> up to the release of the lock; \<open>None\<close> lets it go on to dial.\<close>

definition add_peer_admit ::
  "time \<Rightarrow> registry \<Rightarrow> member_id \<Rightarrow> string \<Rightarrow> registry \<times> peers_error option" where
  "add_peer_admit now r origin address =
     (if origin = [] then (r, Some OriginRequired)
      else if address = [] then (r, Some AddressRequired)
      else case check_rate_limit now r origin of
        (r1, ok) \<Rightarrow>
          if \<not> ok then (r1, Some ErrRateLimited)
          else if total_locked r1 \<ge> rg_max_entries r1 then (r1, Some ErrRegistryFull)
          else (r1, None))"

definition add_peer ::
  "(string \<Rightarrow> bool) \<Rightarrow> time \<Rightarrow> time \<Rightarrow> registry \<Rightarrow> member_id \<Rightarrow> string \<Rightarrow> registry \<times> peers_error option" where
  "add_peer dial now later r origin address =
     (case add_peer_admit now r origin address of
        (r1, Some e) \<Rightarrow> (r1, Some e)
      | (r1, None) \<Rightarrow>
          if \<not> dial address then (r1, Some PreDialFailed)
          else upsert_candidate later r1 address SourceManual)"

text \<open>
  \<open>BindMember\<close>: the address it settles on, the entry it stores for a known and for a new member, and
  the operation itself.
\<close>

definition bind_addr :: "advertisement \<Rightarrow> string \<Rightarrow> string" where
  "bind_addr ad remote_addr = (if ad_lan_address ad = [] then remote_addr else ad_lan_address ad)"

definition refreshed_member :: "time \<Rightarrow> advertisement \<Rightarrow> string \<Rightarrow> peer_member \<Rightarrow> peer_member" where
  "refreshed_member now ad remote_addr existing =
     (let addr = bind_addr ad remote_addr;
          m = existing\<lparr>pm_last_ad := now, pm_last_seen_at := now, pm_latest_ad := Some ad,
                pm_ad_generation := ad_generation ad\<rparr>
      in if addr \<noteq> [] then m\<lparr>pm_address := addr\<rparr> else m)"

definition new_member :: "time \<Rightarrow> registry \<Rightarrow> advertisement \<Rightarrow> string \<Rightarrow> peer_member" where
  "new_member now r ad remote_addr =
     (let addr = bind_addr ad remote_addr;
          via = (case map_of (rg_candidates r) addr of
                   Some cand \<Rightarrow> cd_discovered_via cand
                 | None \<Rightarrow> (case map_of (rg_candidates r) remote_addr of
                     Some cand \<Rightarrow> cd_discovered_via cand
                   | None \<Rightarrow> SourceMDNS))
      in \<lparr>pm_id = ad_member_id ad, pm_address = addr, pm_discovered_via = via, pm_last_ad = now,
          pm_last_seen_at = now, pm_latest_ad = Some ad, pm_ad_generation = ad_generation ad,
          pm_heartbeat_seen = False\<rparr>)"

definition stale_ad :: "advertisement \<Rightarrow> peer_member \<Rightarrow> bool" where
  "stale_ad ad existing \<longleftrightarrow> ad_generation ad > 0 \<and> ad_generation ad < pm_ad_generation existing"

definition put_member :: "registry \<Rightarrow> member_id \<Rightarrow> peer_member \<Rightarrow> registry" where
  "put_member r i m = r\<lparr>rg_members := AList.update i m (rg_members r)\<rparr>"

definition bind_member ::
  "time \<Rightarrow> registry \<Rightarrow> advertisement option \<Rightarrow> string \<Rightarrow> registry \<times> peers_error option" where
  "bind_member now r ad remote_addr =
     (case ad of
        None \<Rightarrow> (r, Some AdRequiresMember)
      | Some ad \<Rightarrow>
          if ad_member_id ad = [] then (r, Some AdRequiresMember)
          else if ad_member_id ad \<in> rg_revocations r then (r, Some ErrRevoked)
          else case map_of (rg_members r) (ad_member_id ad) of
            Some existing \<Rightarrow>
              if stale_ad ad existing
              then (put_member r (ad_member_id ad) (existing\<lparr>pm_last_seen_at := now\<rparr>), None)
              else (put_member r (ad_member_id ad) (refreshed_member now ad remote_addr existing), None)
          | None \<Rightarrow>
              if total_locked r \<ge> rg_max_entries r then (r, Some ErrRegistryFull)
              else (put_member r (ad_member_id ad) (new_member now r ad remote_addr), None))"

definition touch_live :: "time \<Rightarrow> registry \<Rightarrow> member_id \<Rightarrow> registry" where
  "touch_live now r i =
     (case map_of (rg_members r) i of
        None \<Rightarrow> r
      | Some m \<Rightarrow> put_member r i (m\<lparr>pm_last_seen_at := now, pm_heartbeat_seen := True\<rparr>))"

definition snapshot :: "registry \<Rightarrow> candidate list \<times> peer_member list" where
  "snapshot r = (map snd (rg_candidates r), map snd (rg_members r))"

section \<open>Endpoints\<close>

text \<open>
  A body that does not decode is \<open>None\<close>. The optional callbacks \<open>Promote\<close> and \<open>Bump\<close> act on the rest
  \<open>w\<close> of the daemon.
\<close>

definition handle_advertise ::
  "(member_id \<Rightarrow> 'w \<Rightarrow> 'w) option \<Rightarrow> time \<Rightarrow> registry \<Rightarrow> 'w \<Rightarrow> advertisement option \<Rightarrow> string
     \<Rightarrow> registry \<times> 'w \<times> http_status" where
  "handle_advertise promote now r w body remote_addr =
     (case body of
        None \<Rightarrow> (r, w, 400)
      | Some ad \<Rightarrow>
          (case bind_member now r (Some ad) remote_addr of
             (r1, Some ErrRevoked) \<Rightarrow> (r1, w, 403)
           | (r1, Some ErrRegistryFull) \<Rightarrow> (r1, w, 503)
           | (r1, Some _) \<Rightarrow> (r1, w, 400)
           | (r1, None) \<Rightarrow>
               (r1, (case promote of None \<Rightarrow> w | Some f \<Rightarrow> f (ad_member_id ad) w), 200)))"

definition handle_peer_add ::
  "(string \<Rightarrow> bool) \<Rightarrow> ('w \<Rightarrow> 'w) option \<Rightarrow> time \<Rightarrow> time \<Rightarrow> registry \<Rightarrow> 'w \<Rightarrow> member_id \<Rightarrow> string option
     \<Rightarrow> registry \<times> 'w \<times> http_status" where
  "handle_peer_add dial bump now later r w origin body =
     (case body of
        None \<Rightarrow> (r, w, 400)
      | Some address \<Rightarrow>
          (case add_peer dial now later r origin address of
             (r1, Some ErrRateLimited) \<Rightarrow> (r1, w, 429)
           | (r1, Some ErrRegistryFull) \<Rightarrow> (r1, w, 503)
           | (r1, Some _) \<Rightarrow> (r1, w, 503)
           | (r1, None) \<Rightarrow> (r1, (case bump of None \<Rightarrow> w | Some f \<Rightarrow> f w), 200)))"

definition handle_list_peers :: "registry \<Rightarrow> (candidate list \<times> peer_member list) \<times> http_status" where
  "handle_list_peers r = (snapshot r, 200)"

section \<open>Runs of the registry\<close>

text \<open>Every critical section other goroutines may interleave with, as one datatype of operations.\<close>

datatype registry_op =
    OpRevocations revocations
  | OpUpsert string discovered_via
  | OpAdmit member_id string
  | OpBind "advertisement option" string
  | OpTouch member_id

definition registry_exec :: "registry \<Rightarrow> time \<times> registry_op \<Rightarrow> registry" where
  "registry_exec r e =
     (case e of (now, op) \<Rightarrow>
        (case op of
           OpRevocations es \<Rightarrow> set_revocations r es
         | OpUpsert a via \<Rightarrow> fst (upsert_candidate now r a via)
         | OpAdmit origin a \<Rightarrow> fst (add_peer_admit now r origin a)
         | OpBind ad remote \<Rightarrow> fst (bind_member now r ad remote)
         | OpTouch i \<Rightarrow> touch_live now r i))"

abbreviation registry_run :: "registry \<Rightarrow> (time \<times> registry_op) list \<Rightarrow> registry" where
  "registry_run \<equiv> foldl registry_exec"

definition member_entry_ok :: "member_id \<Rightarrow> peer_member \<Rightarrow> bool" where
  "member_entry_ok i m \<longleftrightarrow> i \<noteq> [] \<and> pm_id m = i \<and>
     (\<exists>ad. pm_latest_ad m = Some ad \<and> ad_member_id ad = i \<and> ad_generation ad = pm_ad_generation m)"

definition candidate_entry_ok :: "string \<Rightarrow> candidate \<Rightarrow> bool" where
  "candidate_entry_ok a c \<longleftrightarrow> a \<noteq> [] \<and> cd_address c = a"

definition registry_ok :: "registry \<Rightarrow> bool" where
  "registry_ok r \<longleftrightarrow> wf_map (rg_candidates r) \<and> wf_map (rg_members r)
     \<and> map_all candidate_entry_ok (rg_candidates r) \<and> map_all member_entry_ok (rg_members r)
     \<and> total_locked r \<le> max 0 (rg_max_entries r)"

lemma check_rate_limit_frame:
  "check_rate_limit now r i = (r', ok) \<Longrightarrow>
     rg_candidates r' = rg_candidates r \<and> rg_members r' = rg_members r \<and>
     rg_revocations r' = rg_revocations r \<and> rg_max_entries r' = rg_max_entries r"
  by (auto simp: check_rate_limit_def Let_def split: if_splits)

lemma add_peer_admit_frame:
  "rg_candidates (fst (add_peer_admit now r i a)) = rg_candidates r"
  "rg_members (fst (add_peer_admit now r i a)) = rg_members r"
  "rg_revocations (fst (add_peer_admit now r i a)) = rg_revocations r"
  "rg_max_entries (fst (add_peer_admit now r i a)) = rg_max_entries r"
  by (auto simp: add_peer_admit_def dest!: check_rate_limit_frame split: prod.splits)

section \<open>The registry invariant\<close>

lemma registry_ok_new: "registry_ok new_registry"
  by (simp add: registry_ok_def new_registry_def total_locked_def default_max_entries_def)

lemma upsert_candidate_ok: "registry_ok r \<Longrightarrow> registry_ok (fst (upsert_candidate now r a via))"
  by (auto simp: registry_ok_def upsert_candidate_def total_locked_def length_update_new candidate_entry_ok_def
      dest: map_of_no_key)

lemma set_member_ok:
  assumes "registry_ok r" "member_entry_ok i m" "i \<in> keys (rg_members r) \<or> total_locked r < rg_max_entries r"
  shows "registry_ok (put_member r i m)"
  using assms by (auto simp: registry_ok_def put_member_def total_locked_def length_update_new)

lemma registry_ok_member:
  "registry_ok r \<Longrightarrow> map_of (rg_members r) i = Some m \<Longrightarrow> member_entry_ok i m"
  by (auto simp: registry_ok_def dest: map_all_lookup)

lemma member_entry_seen [simp]:
  "member_entry_ok i (m\<lparr>pm_last_seen_at := t\<rparr>) = member_entry_ok i m"
  "member_entry_ok i (m\<lparr>pm_heartbeat_seen := h\<rparr>) = member_entry_ok i m"
  "member_entry_ok i (m\<lparr>pm_address := a\<rparr>) = member_entry_ok i m"
  by (simp_all add: member_entry_ok_def)

lemma member_entry_refreshed:
  "member_entry_ok (ad_member_id a) m \<Longrightarrow> member_entry_ok (ad_member_id a) (refreshed_member now a remote m)"
  by (auto simp: member_entry_ok_def refreshed_member_def Let_def)

lemma member_entry_new:
  "ad_member_id a \<noteq> [] \<Longrightarrow> member_entry_ok (ad_member_id a) (new_member now r a remote)"
  by (auto simp: member_entry_ok_def new_member_def Let_def)

text \<open>Every bind either fails without effect or stores one entry under the advertised id.\<close>

lemma bind_member_cases:
  obtains (fail) e where "bind_member now r ad remote = (r, Some e)"
  | (stale) a old where "ad = Some a" "ad_member_id a \<notin> rg_revocations r" "stale_ad a old"
      "map_of (rg_members r) (ad_member_id a) = Some old"
      "bind_member now r ad remote = (put_member r (ad_member_id a) (old\<lparr>pm_last_seen_at := now\<rparr>), None)"
  | (refresh) a old where "ad = Some a" "ad_member_id a \<notin> rg_revocations r" "\<not> stale_ad a old"
      "map_of (rg_members r) (ad_member_id a) = Some old"
      "bind_member now r ad remote = (put_member r (ad_member_id a) (refreshed_member now a remote old), None)"
  | (new) a where "ad = Some a" "ad_member_id a \<notin> rg_revocations r" "ad_member_id a \<noteq> []"
      "map_of (rg_members r) (ad_member_id a) = None" "total_locked r < rg_max_entries r"
      "bind_member now r ad remote = (put_member r (ad_member_id a) (new_member now r a remote), None)"
proof (cases ad)
  case None
  then show thesis by (intro fail) (simp add: bind_member_def)
next
  case (Some a)
  show thesis
  proof (cases "ad_member_id a = [] \<or> ad_member_id a \<in> rg_revocations r")
    case True
    with Some have "\<exists>e. bind_member now r ad remote = (r, Some e)" by (auto simp: bind_member_def)
    with fail show thesis by blast
  next
    case a: False
    show thesis
    proof (cases "map_of (rg_members r) (ad_member_id a)")
      case None
      with Some a show thesis
        by (cases "total_locked r < rg_max_entries r") (auto simp: bind_member_def intro: fail new)
    next
      case old: (Some old)
      with Some a show thesis
        by (cases "stale_ad a old") (auto simp: bind_member_def intro: stale refresh)
    qed
  qed
qed

lemma bind_member_ok:
  assumes "registry_ok r"
  shows "registry_ok (fst (bind_member now r ad remote))"
  using assms
  by (cases rule: bind_member_cases [of now r ad remote])
    (auto intro!: set_member_ok intro: map_of_key dest: registry_ok_member
      simp: member_entry_new member_entry_refreshed)

lemma touch_live_ok: "registry_ok r \<Longrightarrow> registry_ok (touch_live now r i)"
  by (auto simp: touch_live_def split: option.splits intro!: set_member_ok intro: map_of_key registry_ok_member)

lemma registry_ok_frame:
  assumes "rg_candidates r' = rg_candidates r" "rg_members r' = rg_members r" "rg_max_entries r' = rg_max_entries r"
  shows "registry_ok r' = registry_ok r"
  by (simp add: registry_ok_def total_locked_def assms)

lemma registry_exec_ok: "registry_ok r \<Longrightarrow> registry_ok (registry_exec r e)"
  by (auto simp: registry_exec_def upsert_candidate_ok bind_member_ok touch_live_ok add_peer_admit_frame
      set_revocations_def cong: registry_ok_frame split: registry_op.splits prod.splits)

lemma registry_run_ok: "registry_ok r \<Longrightarrow> registry_ok (registry_run r es)"
  by (induction es arbitrary: r) (simp_all add: registry_exec_ok)

lemma bind_member_max [simp]: "rg_max_entries (fst (bind_member now r ad remote)) = rg_max_entries r"
  by (cases rule: bind_member_cases [of now r ad remote]) (simp_all add: put_member_def)

lemma registry_exec_max: "rg_max_entries (registry_exec r e) = rg_max_entries r"
  by (auto simp: registry_exec_def set_revocations_def upsert_candidate_def touch_live_def put_member_def
      add_peer_admit_frame split: registry_op.splits prod.splits option.splits)

lemma registry_run_max: "rg_max_entries (registry_run r es) = rg_max_entries r"
  by (induction es arbitrary: r) (simp_all add: registry_exec_max)

section \<open>Revoked members\<close>

lemma set_revocations_ids [simp]: "rg_revocations (set_revocations r es) = revoked_ids es"
proof -
  have "foldl (\<lambda>s e. insert (rv_id e) s) A es = A \<union> revoked_ids es" for A
    by (induction es arbitrary: A) (auto simp: revoked_ids_def)
  then show ?thesis by (simp add: set_revocations_def)
qed

definition keeps_revoked :: "member_id \<Rightarrow> time \<times> registry_op \<Rightarrow> bool" where
  "keeps_revoked i e = (case snd e of OpRevocations es \<Rightarrow> i \<in> revoked_ids es | _ \<Rightarrow> True)"

lemma bind_member_revocations [simp]: "rg_revocations (fst (bind_member now r ad remote)) = rg_revocations r"
  by (cases rule: bind_member_cases [of now r ad remote]) (simp_all add: put_member_def)

lemma bind_member_revoked:
  "i \<in> rg_revocations r \<Longrightarrow>
     map_of (rg_members (fst (bind_member now r ad remote))) i = map_of (rg_members r) i"
  by (cases rule: bind_member_cases [of now r ad remote]) (auto simp: update_conv' put_member_def)

lemma touch_live_ad:
  "rg_revocations (touch_live now r i) = rg_revocations r"
  "map_option pm_latest_ad (map_of (rg_members (touch_live now r i)) j) = map_option pm_latest_ad (map_of (rg_members r) j)"
  by (auto simp: touch_live_def put_member_def update_conv' split: option.splits)

lemma upsert_candidate_members [simp]:
  "rg_members (fst (upsert_candidate now r a via)) = rg_members r"
  "rg_revocations (fst (upsert_candidate now r a via)) = rg_revocations r"
  by (auto simp: upsert_candidate_def)

lemma set_revocations_members [simp]: "rg_members (set_revocations r es) = rg_members r"
  by (simp add: set_revocations_def)

lemma registry_exec_revoked:
  assumes "i \<in> rg_revocations r" "keeps_revoked i e"
  shows "i \<in> rg_revocations (registry_exec r e)
    \<and> map_option pm_latest_ad (map_of (rg_members (registry_exec r e)) i) = map_option pm_latest_ad (map_of (rg_members r) i)"
  using assms
  by (auto simp: registry_exec_def keeps_revoked_def add_peer_admit_frame bind_member_revoked touch_live_ad
      split: registry_op.splits prod.splits)

lemma registry_run_revoked:
  "i \<in> rg_revocations r \<Longrightarrow> \<forall>e\<in>set es. keeps_revoked i e \<Longrightarrow>
     map_option pm_latest_ad (map_of (rg_members (registry_run r es)) i) = map_option pm_latest_ad (map_of (rg_members r) i)"
  by (induction es arbitrary: r) (auto simp: registry_exec_revoked)

lemma bind_member_generation:
  assumes "map_of (rg_members r) i = Some m" "\<forall>a. ad = Some a \<longrightarrow> ad_member_id a = i \<longrightarrow> ad_generation a > 0"
  shows "\<exists>m'. map_of (rg_members (fst (bind_member now r ad remote))) i = Some m' \<and> pm_ad_generation m \<le> pm_ad_generation m'"
  using assms
  by (cases rule: bind_member_cases [of now r ad remote])
    (auto simp: put_member_def update_conv' stale_ad_def refreshed_member_def Let_def not_less)

definition numbered_ad :: "member_id \<Rightarrow> time \<times> registry_op \<Rightarrow> bool" where
  "numbered_ad i e =
     (case snd e of OpBind (Some a) _ \<Rightarrow> ad_member_id a = i \<longrightarrow> ad_generation a > 0 | _ \<Rightarrow> True)"

lemma registry_exec_generation:
  assumes "map_of (rg_members r) i = Some m" "numbered_ad i e"
  shows "\<exists>m'. map_of (rg_members (registry_exec r e)) i = Some m' \<and> pm_ad_generation m \<le> pm_ad_generation m'"
proof (cases "snd e")
  case (OpBind ad remote)
  with assms show ?thesis
    using bind_member_generation [of r i m ad "fst e" remote]
    by (auto simp: registry_exec_def numbered_ad_def split: prod.splits option.splits)
qed (use assms in \<open>auto simp: registry_exec_def add_peer_admit_frame touch_live_def put_member_def update_conv'
  split: prod.splits option.splits\<close>)

section \<open>The peer-add rate limit\<close>

definition rate_allow :: "time \<Rightarrow> (member_id \<Rightarrow> time list) \<Rightarrow> member_id \<Rightarrow> (member_id \<Rightarrow> time list) \<times> bool" where
  "rate_allow now f k = map_prod rg_rates id (check_rate_limit now (new_registry\<lparr>rg_rates := f\<rparr>) k)"

interpretation peer_limiter: window_limiter rate_allow "\<lambda>f k. f k" peer_add_rate_limit peer_add_rate_window "\<lambda>_. True"
  by unfold_locales (auto simp: rate_allow_def check_rate_limit_def peer_add_rate_window_def Let_def)

lemma check_rate_limit_allow:
  "rg_rates (fst (check_rate_limit now r k)) = fst (rate_allow now (rg_rates r) k)"
  "snd (check_rate_limit now r k) = snd (rate_allow now (rg_rates r) k)"
  by (simp_all add: rate_allow_def check_rate_limit_def Let_def)

text \<open>The instants at which \<open>AddPeer\<close> calls of one origin got past the limiter in a run.\<close>

definition passed_limiter :: "member_id \<Rightarrow> registry \<Rightarrow> time \<times> registry_op \<Rightarrow> bool" where
  "passed_limiter i r e =
     (case snd e of
        OpAdmit j a \<Rightarrow> j = i \<and> snd (add_peer_admit (fst e) r i a) \<in> {None, Some ErrRegistryFull}
      | _ \<Rightarrow> False)"

fun admissions :: "member_id \<Rightarrow> registry \<Rightarrow> (time \<times> registry_op) list \<Rightarrow> time list" where
  "admissions i r [] = []"
| "admissions i r (e # es) =
     (if passed_limiter i r e then [fst e] else []) @ admissions i (registry_exec r e) es"

fun limiter_requests :: "(time \<times> registry_op) list \<Rightarrow> (time \<times> member_id) list" where
  "limiter_requests [] = []"
| "limiter_requests ((now, OpAdmit j a) # es) =
     (if j = [] \<or> a = [] then [] else [(now, j)]) @ limiter_requests es"
| "limiter_requests (e # es) = limiter_requests es"

lemma bind_member_rates [simp]: "rg_rates (fst (bind_member now r ad remote)) = rg_rates r"
  by (cases rule: bind_member_cases [of now r ad remote]) (simp_all add: put_member_def)

lemma registry_exec_rates:
  "rg_rates (registry_exec r (now, op)) =
     (case op of OpAdmit j a \<Rightarrow> if j = [] \<or> a = [] then rg_rates r else fst (rate_allow now (rg_rates r) j)
      | _ \<Rightarrow> rg_rates r)"
  by (auto simp: registry_exec_def set_revocations_def upsert_candidate_def touch_live_def put_member_def
      add_peer_admit_def check_rate_limit_allow [symmetric] split: registry_op.splits prod.splits option.splits)

lemma passed_limiter_allow:
  "passed_limiter i r (now, OpAdmit j a) \<longleftrightarrow> j = i \<and> i \<noteq> [] \<and> a \<noteq> [] \<and> snd (rate_allow now (rg_rates r) i)"
  by (auto simp: passed_limiter_def add_peer_admit_def check_rate_limit_allow [symmetric] split: prod.splits)

lemma admissions_grants: "admissions i r es = peer_limiter.grants_of i (rg_rates r) (limiter_requests es)"
proof (induction es arbitrary: r)
  case Nil
  then show ?case by (simp add: peer_limiter.grants_of_def)
next
  case (Cons e es)
  obtain now op where e: "e = (now, op)" by (cases e)
  show ?case
  proof (cases op)
    case (OpAdmit j a)
    with e Cons show ?thesis
      by (auto simp: passed_limiter_allow registry_exec_rates peer_limiter.grants_of_Cons)
  qed (use e Cons in \<open>auto simp: passed_limiter_def registry_exec_rates\<close>)
qed

lemma limiter_requests_times: "fst ` set (limiter_requests es) \<subseteq> fst ` set es"
  by (induction es rule: limiter_requests.induct) auto

lemma limiter_requests_sorted: "sorted (map fst es) \<Longrightarrow> sorted (map fst (limiter_requests es))"
  by (induction es rule: limiter_requests.induct) (use limiter_requests_times in \<open>force\<close>)+

section \<open>Properties\<close>

text \<open>The registry stays well formed and bounded. From the fresh registry, whatever interleaving of
  discovery, peer-add, advertisement, heartbeat and revocation steps is run, candidates and members are
  keyed by their own non-empty address or id, every member entry carries the advertisement of that very
  member, and candidates and members together never exceed the cap of 100.\<close>

theorem registry_bounded_and_keyed:
  "registry_ok (registry_run new_registry es) \<and>
   length (rg_candidates (registry_run new_registry es)) + length (rg_members (registry_run new_registry es)) \<le> 100"
  using registry_run_ok [OF registry_ok_new, of es] registry_run_max [of new_registry es]
  by (auto simp: registry_ok_def total_locked_def new_registry_def default_max_entries_def)

text \<open>C15: A revoked member cannot (re)enter the registry. As long as the revocation snapshots installed in a
  run keep the member revoked, no interleaving of operations binds it or replaces the advertisement it
  had before it was revoked, and each of its advertisements is answered with 403.\<close>

theorem revoked_member_frozen:
  assumes "i \<in> rg_revocations r" "\<forall>e\<in>set es. keeps_revoked i e" "ad_member_id ad = i" "i \<noteq> []"
  shows "map_option pm_latest_ad (map_of (rg_members (registry_run r es)) i) =
      map_option pm_latest_ad (map_of (rg_members r) i) \<and>
    handle_advertise promote now r w (Some ad) remote = (r, w, 403)"
  using registry_run_revoked [OF assms(1,2)] assms by (auto simp: handle_advertise_def bind_member_def)

definition sample_ad :: "member_id \<Rightarrow> u64 \<Rightarrow> advertisement" where
  "sample_ad i g = \<lparr>ad_member_id = i, ad_clan_id = ''c'', ad_term = 0, ad_generation = g, ad_os = ''linux'',
     ad_lan_address = ''10.0.0.1:7700'', ad_hardware = [], ad_reasoning_score = 5, ad_system_score = 3,
     ad_capabilities = [], ad_load = JNum 0, ad_pinned_orchestrator = False, ad_scribe_capable = False,
     ad_pinned_scribe = False\<rparr>"

theorem revoked_member_frozen_witness:
  "map_option pm_latest_ad (map_of (rg_members (registry_run
       (set_revocations new_registry [sample_revocation ''a'' 1])
       [(2, OpBind (Some (sample_ad ''a'' 1)) []), (3, OpTouch ''a'')])) ''a'') = None"
  using revoked_member_frozen [of "''a''" "set_revocations new_registry [sample_revocation ''a'' 1]"
      "[(2, OpBind (Some (sample_ad ''a'' 1)) []), (3, OpTouch ''a'')]" "sample_ad ''a'' 1" None 2 "()" "[]"]
  by (simp add: revoked_ids_def sample_revocation_def keeps_revoked_def sample_ad_def new_registry_def)

text \<open>The peer-add rate limit holds under every interleaving. In any run with a clock that does not go
  back, at most 10 of one origin's peer-add calls get past the limiter in any 60 seconds, whatever other
  origins and the rest of the registry do in between.\<close>

theorem peer_add_rate_bounded:
  assumes "sorted (map fst es)"
  shows "hits (60 * second) t (admissions i new_registry es) \<le> 10"
  using peer_limiter.grants_bounded [of "rg_rates new_registry" i "limiter_requests es" t] limiter_requests_sorted [OF assms]
  by (simp add: admissions_grants new_registry_def peer_add_rate_window_def peer_add_rate_limit_def)

theorem peer_add_rate_bounded_witness:
  "hits (60 * second) (9 * second)
     (admissions ''a'' new_registry (map (\<lambda>n. (int n * second, OpAdmit ''a'' ''10.0.0.9:7700'')) [0..<12])) \<le> 10"
  by (rule peer_add_rate_bounded) (simp add: upt_rec)

text \<open>Advertisement generations. A run in which a member only sends advertisements with a non-zero
  generation never lowers the generation recorded for it: a delayed older advertisement refreshes the
  liveness stamp but replaces nothing.\<close>

theorem generation_never_lowered:
  assumes "map_of (rg_members r) i = Some m" "\<forall>e\<in>set es. numbered_ad i e"
  shows "\<exists>m'. map_of (rg_members (registry_run r es)) i = Some m' \<and> pm_ad_generation m \<le> pm_ad_generation m'"
  using assms
proof (induction es arbitrary: r m)
  case (Cons e es)
  then obtain m1 where m1: "map_of (rg_members (registry_exec r e)) i = Some m1" "pm_ad_generation m \<le> pm_ad_generation m1"
    using registry_exec_generation [of r i m e] by auto
  from Cons.IH [OF m1(1)] Cons.prems(2) obtain m2 where
    "map_of (rg_members (registry_run (registry_exec r e) es)) i = Some m2" "pm_ad_generation m1 \<le> pm_ad_generation m2"
    by auto
  with m1(2) show ?case by auto
qed simp

definition sample_registry :: registry where
  "sample_registry = fst (bind_member 1 new_registry (Some (sample_ad ''a'' 5)) [])"

theorem generation_never_lowered_witness:
  "\<exists>m'. map_of (rg_members (registry_run sample_registry [(2, OpBind (Some (sample_ad ''a'' 4)) [])])) ''a'' = Some m'
     \<and> 5 \<le> pm_ad_generation m'"
proof -
  have "map_of (rg_members sample_registry) ''a'' = Some (new_member 1 new_registry (sample_ad ''a'' 5) [])"
    by (simp add: sample_registry_def bind_member_def new_registry_def sample_ad_def total_locked_def
        default_max_entries_def put_member_def)
  from generation_never_lowered [OF this, of "[(2, OpBind (Some (sample_ad ''a'' 4)) [])]"]
  show ?thesis by (simp add: numbered_ad_def sample_ad_def new_member_def Let_def)
qed

end
