(* ===== verification/Selection.thy ===== *)
theory Selection
  imports Peers
begin

text \<open>
  The candidate selections of \<open>cland/internal/election/engine.go\<close>: the Orchestrator (pinned first,
  else highest reasoning score) and its inverse, the Scribe. Both sort a slice of candidates and take
  the first; \<open>self\<close> is the value of the \<open>LocalSelf\<close> callback and \<open>clock\<close> the \<open>time.Now()\<close> read inside.
\<close>

section \<open>Candidates\<close>

record local_candidate =
  lc_member_id :: member_id
  lc_reasoning_score :: int
  lc_reasoning_enabled :: bool
  lc_pinned :: bool
  lc_admitted_at :: time
  lc_scribe_capable :: bool
  lc_pinned_scribe :: bool

definition no_candidate :: local_candidate where
  "no_candidate = \<lparr>lc_member_id = [], lc_reasoning_score = 0, lc_reasoning_enabled = False, lc_pinned = False,
     lc_admitted_at = zero_time, lc_scribe_capable = False, lc_pinned_scribe = False\<rparr>"

text \<open>\<open>caps["reasoning"].(map[string]any)["enabled"].(bool)\<close>\<close>

definition reasoning_enabled :: "json_object \<Rightarrow> bool" where
  "reasoning_enabled caps =
     (case map_of caps ''reasoning'' of
        Some (JObj r) \<Rightarrow> (case map_of r ''enabled'' of Some (JBool en) \<Rightarrow> en | _ \<Rightarrow> False)
      | _ \<Rightarrow> False)"

fun admitted_at_from :: "roster_member list \<Rightarrow> member_id \<Rightarrow> time" where
  "admitted_at_from [] i = zero_time"
| "admitted_at_from (m # ms) i = (if rm_id m = i then rm_admitted_at m else admitted_at_from ms i)"

definition admitted_at_from_roster :: "clan option \<Rightarrow> member_id \<Rightarrow> time" where
  "admitted_at_from_roster c i = (case c of None \<Rightarrow> zero_time | Some c \<Rightarrow> admitted_at_from (cl_roster c) i)"

definition selectable :: "time \<Rightarrow> peer_member \<Rightarrow> bool" where
  "selectable clock m = (if pm_heartbeat_seen m then live m clock else ad_fresh m clock)"

section \<open>The Orchestrator\<close>

fun peer_candidates :: "time \<Rightarrow> clan option \<Rightarrow> peer_member list \<Rightarrow> local_candidate list" where
  "peer_candidates clock c [] = []"
| "peer_candidates clock c (m # ms) =
     (case pm_latest_ad m of
        None \<Rightarrow> peer_candidates clock c ms
      | Some ad \<Rightarrow>
          if \<not> reasoning_enabled (ad_capabilities ad) then peer_candidates clock c ms
          else if \<not> selectable clock m then peer_candidates clock c ms
          else \<lparr>lc_member_id = pm_id m, lc_reasoning_score = ad_reasoning_score ad,
                lc_reasoning_enabled = True, lc_pinned = ad_pinned_orchestrator ad,
                lc_admitted_at = admitted_at_from_roster c (pm_id m),
                lc_scribe_capable = False, lc_pinned_scribe = False\<rparr> # peer_candidates clock c ms)"

definition orchestrator_candidates ::
  "local_candidate \<Rightarrow> time \<Rightarrow> clan option \<Rightarrow> peer_member list \<Rightarrow> local_candidate list" where
  "orchestrator_candidates self clock c ms =
     (if lc_reasoning_enabled self then [self] else []) @ peer_candidates clock c ms"

definition id_before :: "local_candidate \<Rightarrow> local_candidate \<Rightarrow> bool" where
  "id_before c d \<longleftrightarrow> lc_member_id c < lc_member_id d"

definition orchestrator_before :: "local_candidate \<Rightarrow> local_candidate \<Rightarrow> bool" where
  "orchestrator_before c d =
     (if lc_reasoning_score c \<noteq> lc_reasoning_score d then lc_reasoning_score c > lc_reasoning_score d
      else if lc_admitted_at c \<noteq> lc_admitted_at d then lc_admitted_at c < lc_admitted_at d
      else lc_member_id c < lc_member_id d)"

definition pick_orchestrator :: "local_candidate list \<Rightarrow> local_candidate \<times> string" where
  "pick_orchestrator cs =
     (if length cs = 0 then (no_candidate, [])
      else
        let pinned = filter lc_pinned cs
        in if length pinned > 0 then (hd (sort_slice id_before pinned), ''pin_override'')
           else (hd (sort_slice orchestrator_before cs), ''lease_expired''))"

definition select_candidate ::
  "local_candidate \<Rightarrow> time \<Rightarrow> registry \<Rightarrow> clan option \<Rightarrow> local_candidate \<times> string" where
  "select_candidate self clock r c =
     pick_orchestrator (orchestrator_candidates self clock c (snd (snapshot r)))"

section \<open>The Scribe\<close>

fun peer_scribes :: "time \<Rightarrow> clan option \<Rightarrow> peer_member list \<Rightarrow> local_candidate list" where
  "peer_scribes clock c [] = []"
| "peer_scribes clock c (m # ms) =
     (case pm_latest_ad m of
        None \<Rightarrow> peer_scribes clock c ms
      | Some ad \<Rightarrow>
          if \<not> ad_scribe_capable ad then peer_scribes clock c ms
          else if \<not> selectable clock m then peer_scribes clock c ms
          else \<lparr>lc_member_id = pm_id m, lc_reasoning_score = ad_reasoning_score ad,
                lc_reasoning_enabled = False, lc_pinned = False,
                lc_admitted_at = admitted_at_from_roster c (pm_id m),
                lc_scribe_capable = True, lc_pinned_scribe = ad_pinned_scribe ad\<rparr> # peer_scribes clock c ms)"

definition scribe_candidates ::
  "local_candidate \<Rightarrow> time \<Rightarrow> clan option \<Rightarrow> peer_member list \<Rightarrow> local_candidate list" where
  "scribe_candidates self clock c ms =
     (if lc_scribe_capable self then [self] else []) @ peer_scribes clock c ms"

definition scribe_before :: "local_candidate \<Rightarrow> local_candidate \<Rightarrow> bool" where
  "scribe_before c d =
     (if lc_reasoning_score c \<noteq> lc_reasoning_score d then lc_reasoning_score c < lc_reasoning_score d
      else if lc_admitted_at c \<noteq> lc_admitted_at d then lc_admitted_at c < lc_admitted_at d
      else lc_member_id c < lc_member_id d)"

definition pick_scribe :: "local_candidate list \<Rightarrow> local_candidate" where
  "pick_scribe cs =
     (if length cs = 0 then no_candidate
      else
        let pinned = filter lc_pinned_scribe cs
        in if length pinned > 0 then hd (sort_slice id_before pinned)
           else hd (sort_slice scribe_before cs))"

definition select_scribe :: "local_candidate \<Rightarrow> time \<Rightarrow> registry \<Rightarrow> clan option \<Rightarrow> local_candidate" where
  "select_scribe self clock r c = pick_scribe (scribe_candidates self clock c (snd (snapshot r)))"

section \<open>The orders\<close>

interpretation by_id: selection_order id_before lc_member_id
  by unfold_locales (auto simp: id_before_def)

interpretation by_score: selection_order orchestrator_before lc_member_id
  by unfold_locales (auto simp: orchestrator_before_def split: if_splits)

interpretation by_low_score: selection_order scribe_before lc_member_id
  by unfold_locales (auto simp: scribe_before_def split: if_splits)

text \<open>
  Two daemons build their candidates from different sources (their own probe for themselves, the
  advertisement for the other), so they agree only on what the orders read: these views.
\<close>

type_synonym candidate_view = "member_id \<times> int \<times> time \<times> bool"

definition orchestrator_view :: "local_candidate \<Rightarrow> candidate_view" where
  "orchestrator_view c = (lc_member_id c, lc_reasoning_score c, lc_admitted_at c, lc_pinned c)"

definition scribe_view :: "local_candidate \<Rightarrow> candidate_view" where
  "scribe_view c = (lc_member_id c, lc_reasoning_score c, lc_admitted_at c, lc_pinned_scribe c)"

definition view_id_before :: "candidate_view \<Rightarrow> candidate_view \<Rightarrow> bool" where
  "view_id_before v w \<longleftrightarrow> fst v < fst w"

definition view_before :: "int \<Rightarrow> candidate_view \<Rightarrow> candidate_view \<Rightarrow> bool" where
  "view_before sign v w =
     (case v of (i, s, t, p) \<Rightarrow> case w of (j, s', t', q) \<Rightarrow>
        if s \<noteq> s' then sign * s > sign * s' else if t \<noteq> t' then t < t' else i < j)"

interpretation view_by_id: selection_order view_id_before fst
  by unfold_locales (auto simp: view_id_before_def)

interpretation view_by_score: selection_order "view_before 1" fst
  by unfold_locales (auto simp: view_before_def split: if_splits)

interpretation view_by_low_score: selection_order "view_before (- 1)" fst
  by unfold_locales (auto simp: view_before_def split: if_splits)

lemma insert_by_map:
  "(\<And>x y. lt x y = lt' (f x) (f y)) \<Longrightarrow> map f (insert_by lt x ys) = insert_by lt' (f x) (map f ys)"
  by (induction ys) auto

lemma sort_slice_map:
  "(\<And>x y. lt x y = lt' (f x) (f y)) \<Longrightarrow> map f (sort_slice lt xs) = sort_slice lt' (map f xs)"
  by (induction xs) (simp_all add: sort_slice_def insert_by_map [of lt lt'])

lemma hd_sort_slice_map:
  assumes "\<And>x y. lt x y = lt' (f x) (f y)" "xs \<noteq> []"
  shows "f (hd (sort_slice lt xs)) = hd (sort_slice lt' (map f xs))"
  using assms(2) sort_slice_map [of lt lt' f xs, OF assms(1)]
  by (metis list.map_sel(1) sort_slice_Nil)

lemma orchestrator_before_view: "orchestrator_before c d = view_before 1 (orchestrator_view c) (orchestrator_view d)"
  by (simp add: orchestrator_before_def view_before_def orchestrator_view_def)

lemma scribe_before_view: "scribe_before c d = view_before (- 1) (scribe_view c) (scribe_view d)"
  by (simp add: scribe_before_def view_before_def scribe_view_def)

lemma id_before_view:
  "id_before c d = view_id_before (orchestrator_view c) (orchestrator_view d)"
  "id_before c d = view_id_before (scribe_view c) (scribe_view d)"
  by (simp_all add: id_before_def view_id_before_def orchestrator_view_def scribe_view_def)

lemmas hd_view =
  hd_sort_slice_map [where lt = orchestrator_before and lt' = "view_before 1" and f = orchestrator_view, OF orchestrator_before_view]
  hd_sort_slice_map [where lt = scribe_before and lt' = "view_before (- 1)" and f = scribe_view, OF scribe_before_view]
  hd_sort_slice_map [where lt = id_before and lt' = view_id_before and f = orchestrator_view, OF id_before_view(1)]
  hd_sort_slice_map [where lt = id_before and lt' = view_id_before and f = scribe_view, OF id_before_view(2)]

text \<open>The view of the pick is a function of the views of the candidates.\<close>

definition pick_view :: "int \<Rightarrow> candidate_view list \<Rightarrow> candidate_view" where
  "pick_view sign vs =
     (let pinned = filter (\<lambda>(_, _, _, p). p) vs
      in if pinned \<noteq> [] then hd (sort_slice view_id_before pinned) else hd (sort_slice (view_before sign) vs))"

lemma pick_view_cong:
  assumes "set vs = set ws" "inj_on fst (set vs)" "vs \<noteq> []" "sign = 1 \<or> sign = - 1"
  shows "pick_view sign vs = pick_view sign ws"
proof -
  let ?P = "\<lambda>(_, _, _, p). p"
  have pin: "set (filter ?P vs) = set (filter ?P ws)" using assms(1) by simp
  then have "filter ?P vs = [] \<longleftrightarrow> filter ?P ws = []" by (metis set_empty)
  moreover have "hd (sort_slice view_id_before (filter ?P vs)) = hd (sort_slice view_id_before (filter ?P ws))"
    if "filter ?P vs \<noteq> []"
    using assms(2) by (intro view_by_id.sort_slice_head [OF pin that]) (auto intro: inj_on_subset)
  moreover have "hd (sort_slice (view_before sign) vs) = hd (sort_slice (view_before sign) ws)"
    using assms view_by_score.sort_slice_head [of vs ws] view_by_low_score.sort_slice_head [of vs ws] by auto
  ultimately show ?thesis by (simp add: pick_view_def Let_def)
qed

lemma pick_orchestrator_view:
  assumes "cs \<noteq> []"
  shows "orchestrator_view (fst (pick_orchestrator cs)) = pick_view 1 (map orchestrator_view cs)"
proof -
  have f: "filter (\<lambda>(_, _, _, p). p) (map orchestrator_view cs) = map orchestrator_view (filter lc_pinned cs)"
    by (simp add: filter_map comp_def orchestrator_view_def)
  show ?thesis
    using assms unfolding pick_view_def f
    by (cases "filter lc_pinned cs = []") (simp_all add: pick_orchestrator_def Let_def hd_view)
qed

lemma pick_scribe_view:
  assumes "cs \<noteq> []"
  shows "scribe_view (pick_scribe cs) = pick_view (- 1) (map scribe_view cs)"
proof -
  have f: "filter (\<lambda>(_, _, _, p). p) (map scribe_view cs) = map scribe_view (filter lc_pinned_scribe cs)"
    by (simp add: filter_map comp_def scribe_view_def)
  show ?thesis
    using assms unfolding pick_view_def f
    by (cases "filter lc_pinned_scribe cs = []") (simp_all add: pick_scribe_def Let_def hd_view)
qed

section \<open>Who is a candidate\<close>

lemma peer_candidates_member:
  "d \<in> set (peer_candidates clock c ms) \<Longrightarrow>
     \<exists>m\<in>set ms. \<exists>ad. pm_latest_ad m = Some ad \<and> pm_id m = lc_member_id d \<and>
       reasoning_enabled (ad_capabilities ad) \<and> selectable clock m"
  by (induction ms) (auto split: option.splits if_splits)

lemma peer_scribes_member:
  "d \<in> set (peer_scribes clock c ms) \<Longrightarrow>
     \<exists>m\<in>set ms. \<exists>ad. pm_latest_ad m = Some ad \<and> pm_id m = lc_member_id d \<and>
       ad_scribe_capable ad \<and> selectable clock m"
  by (induction ms) (auto split: option.splits if_splits)

lemma peer_candidates_ids: "set (map lc_member_id (peer_candidates clock c ms)) \<subseteq> set (map pm_id ms)"
  "set (map lc_member_id (peer_scribes clock c ms)) \<subseteq> set (map pm_id ms)"
  by (induction ms) (auto split: option.splits)

lemma peer_candidates_distinct:
  "distinct (map pm_id ms) \<Longrightarrow> distinct (map lc_member_id (peer_candidates clock c ms))"
  "distinct (map pm_id ms) \<Longrightarrow> distinct (map lc_member_id (peer_scribes clock c ms))"
proof (induction ms)
  case (Cons m ms)
  { case 1 then show ?case using Cons.IH(1) peer_candidates_ids(1) [of clock c ms] by (auto split: option.splits) }
  { case 2 then show ?case using Cons.IH(2) peer_candidates_ids(2) [of clock c ms] by (auto split: option.splits) }
qed simp_all

lemma snapshot_ids:
  assumes "registry_ok r"
  shows "map pm_id (snd (snapshot r)) = map fst (rg_members r)"
proof -
  have "map_all member_entry_ok (rg_members r)" using assms by (simp add: registry_ok_def)
  then show ?thesis by (auto simp: snapshot_def map_all_def member_entry_ok_def)
qed

lemma candidates_inj:
  assumes "registry_ok r" "lc_member_id self \<notin> keys (rg_members r)"
  shows "inj_on lc_member_id (set (orchestrator_candidates self clock c (snd (snapshot r))))"
    and "inj_on lc_member_id (set (scribe_candidates self clock c (snd (snapshot r))))"
proof -
  have d: "distinct (map pm_id (snd (snapshot r)))"
    using assms(1) by (simp add: snapshot_ids registry_ok_def wf_map_def)
  have n: "lc_member_id self \<notin> set (map pm_id (snd (snapshot r)))"
    using assms by (simp add: snapshot_ids)
  have nc: "lc_member_id self \<notin> lc_member_id ` set (peer_candidates clock c (snd (snapshot r)))"
    "lc_member_id self \<notin> lc_member_id ` set (peer_scribes clock c (snd (snapshot r)))"
    using n subsetD [OF peer_candidates_ids(1) [of clock c "snd (snapshot r)"], of "lc_member_id self"]
      subsetD [OF peer_candidates_ids(2) [of clock c "snd (snapshot r)"], of "lc_member_id self"]
    unfolding set_map by metis+
  have "distinct (map lc_member_id (orchestrator_candidates self clock c (snd (snapshot r))))"
    "distinct (map lc_member_id (scribe_candidates self clock c (snd (snapshot r))))"
    using peer_candidates_distinct [OF d, of clock c] nc by (simp_all add: orchestrator_candidates_def scribe_candidates_def)
  then show "inj_on lc_member_id (set (orchestrator_candidates self clock c (snd (snapshot r))))"
    "inj_on lc_member_id (set (scribe_candidates self clock c (snd (snapshot r))))"
    by (simp_all add: distinct_map)
qed

text \<open>The pick is the least candidate of the pinned ones, else of all, in the respective order.\<close>

lemma pick_orchestrator_least:
  assumes "cs \<noteq> []" "inj_on lc_member_id (set cs)"
  shows "if \<exists>d\<in>set cs. lc_pinned d
    then by_id.least_in (fst (pick_orchestrator cs)) {d \<in> set cs. lc_pinned d} \<and> snd (pick_orchestrator cs) = ''pin_override''
    else by_score.least_in (fst (pick_orchestrator cs)) (set cs) \<and> snd (pick_orchestrator cs) = ''lease_expired''"
  using assms by_id.sort_slice_least [of "filter lc_pinned cs"] by_score.sort_slice_least [of cs]
  by (auto simp: pick_orchestrator_def Let_def filter_empty_conv intro: inj_on_subset)

lemma pick_scribe_least:
  assumes "cs \<noteq> []" "inj_on lc_member_id (set cs)"
  shows "if \<exists>d\<in>set cs. lc_pinned_scribe d
    then by_id.least_in (pick_scribe cs) {d \<in> set cs. lc_pinned_scribe d}
    else by_low_score.least_in (pick_scribe cs) (set cs)"
  using assms by_id.sort_slice_least [of "filter lc_pinned_scribe cs"] by_low_score.sort_slice_least [of cs]
  by (auto simp: pick_scribe_def Let_def filter_empty_conv intro: inj_on_subset)

lemma pick_orchestrator_in: "cs \<noteq> [] \<Longrightarrow> fst (pick_orchestrator cs) \<in> set cs"
proof -
  assume "cs \<noteq> []"
  then have "hd (sort_slice orchestrator_before cs) \<in> set (sort_slice orchestrator_before cs)"
    by (intro hd_in_set) simp
  moreover have "filter lc_pinned cs \<noteq> [] \<Longrightarrow> hd (sort_slice id_before (filter lc_pinned cs)) \<in> set (sort_slice id_before (filter lc_pinned cs))"
    by (intro hd_in_set) simp
  ultimately show ?thesis using \<open>cs \<noteq> []\<close> by (auto simp: pick_orchestrator_def Let_def)
qed

section \<open>Properties\<close>

text \<open>C19: The Orchestrator selection is optimal. On a well-formed registry that does not list the daemon itself,
  if there is a candidate at all, the selected one is a candidate; when some candidate is pinned it is
  the pinned candidate of lowest member id and the reason is pin_override; otherwise every other
  candidate has a lower score, or the same score and a later admission, or ties in both and a larger
  member id, and the reason is lease_expired.\<close>

theorem orchestrator_selection_optimal:
  fixes self r clock c
  defines "cs \<equiv> orchestrator_candidates self clock c (snd (snapshot r))"
    and "w \<equiv> fst (select_candidate self clock r c)"
  assumes "registry_ok r" "lc_member_id self \<notin> keys (rg_members r)" "cs \<noteq> []"
  shows "w \<in> set cs \<and>
    (if \<exists>d\<in>set cs. lc_pinned d
     then lc_pinned w \<and> (\<forall>d\<in>set cs. lc_pinned d \<longrightarrow> d = w \<or> lc_member_id w < lc_member_id d)
       \<and> snd (select_candidate self clock r c) = ''pin_override''
     else (\<forall>d\<in>set cs. d = w \<or> lc_reasoning_score d < lc_reasoning_score w \<or>
         lc_reasoning_score d = lc_reasoning_score w \<and>
           (lc_admitted_at w < lc_admitted_at d \<or>
            lc_admitted_at w = lc_admitted_at d \<and> lc_member_id w < lc_member_id d))
       \<and> snd (select_candidate self clock r c) = ''lease_expired'')"
proof -
  have inj: "inj_on lc_member_id (set cs)" unfolding cs_def by (rule candidates_inj [OF assms(3,4)])
  have w: "w = fst (pick_orchestrator cs)" "snd (select_candidate self clock r c) = snd (pick_orchestrator cs)"
    by (simp_all add: w_def select_candidate_def cs_def)
  show ?thesis
    using pick_orchestrator_least [OF assms(5) inj] pick_orchestrator_in [OF assms(5)] unfolding w
    by (auto simp: by_id.least_in_def by_score.least_in_def id_before_def orchestrator_before_def
        split: if_splits)
qed

definition reasoning_ad :: "member_id \<Rightarrow> int \<Rightarrow> advertisement" where
  "reasoning_ad i score = (sample_ad i 1)\<lparr>ad_reasoning_score := score, ad_scribe_capable := True,
     ad_capabilities := [(''reasoning'', JObj [(''enabled'', JBool True)])]\<rparr>"

definition two_peers :: registry where
  "two_peers = registry_run new_registry
     [(1, OpBind (Some (reasoning_ad ''a'' 5)) []), (1, OpBind (Some (reasoning_ad ''b'' 7)) [])]"

lemma two_peers_ok: "registry_ok two_peers"
  unfolding two_peers_def by (intro registry_run_ok registry_ok_new)

definition self_candidate :: "member_id \<Rightarrow> int \<Rightarrow> local_candidate" where
  "self_candidate i score = no_candidate\<lparr>lc_member_id := i, lc_reasoning_score := score,
     lc_reasoning_enabled := True, lc_scribe_capable := True\<rparr>"

lemma two_peers_members: "keys (rg_members two_peers) = {''a'', ''b''}"
  by (auto simp: two_peers_def registry_exec_def bind_member_def new_registry_def reasoning_ad_def sample_ad_def
      total_locked_def default_max_entries_def put_member_def)

theorem orchestrator_selection_optimal_witness:
  "fst (select_candidate (self_candidate ''s'' 6) 2 two_peers None)
     \<in> set (orchestrator_candidates (self_candidate ''s'' 6) 2 None (snd (snapshot two_peers)))"
  using orchestrator_selection_optimal [OF two_peers_ok, of "self_candidate ''s'' 6" 2 None]
  by (simp add: two_peers_members self_candidate_def orchestrator_candidates_def)

text \<open>Two daemons agree on the Orchestrator. If their candidates carry the same member ids with the same
  scores, admission times and pins, in whatever order their registries list them and whoever of them is
  the daemon itself, both select the same member.\<close>

theorem orchestrator_selection_agrees:
  fixes self1 self2 r1 r2 t1 t2 c1 c2
  defines "views1 \<equiv> orchestrator_view ` set (orchestrator_candidates self1 t1 c1 (snd (snapshot r1)))"
    and "views2 \<equiv> orchestrator_view ` set (orchestrator_candidates self2 t2 c2 (snd (snapshot r2)))"
  assumes "views1 = views2" "inj_on fst views1"
  shows "lc_member_id (fst (select_candidate self1 t1 r1 c1)) = lc_member_id (fst (select_candidate self2 t2 r2 c2))"
proof -
  let ?cs = "orchestrator_candidates self1 t1 c1 (snd (snapshot r1))"
  let ?ds = "orchestrator_candidates self2 t2 c2 (snd (snapshot r2))"
  show ?thesis
  proof (cases "?cs = []")
    case True
    with assms(3) have "?ds = []" unfolding views1_def views2_def by simp
    with True show ?thesis by (simp add: select_candidate_def pick_orchestrator_def)
  next
    case False
    with assms(3) have ne: "?ds \<noteq> []" unfolding views1_def views2_def by auto
    have "pick_view 1 (map orchestrator_view ?cs) = pick_view 1 (map orchestrator_view ?ds)"
      using assms False unfolding views1_def views2_def by (intro pick_view_cong) simp_all
    then have "orchestrator_view (fst (pick_orchestrator ?cs)) = orchestrator_view (fst (pick_orchestrator ?ds))"
      by (simp only: pick_orchestrator_view [OF False] pick_orchestrator_view [OF ne])
    then show ?thesis by (simp add: orchestrator_view_def select_candidate_def)
  qed
qed

definition one_peer :: "member_id \<Rightarrow> int \<Rightarrow> registry" where
  "one_peer i score = registry_run new_registry [(1, OpBind (Some (reasoning_ad i score)) [])]"

lemma one_peer_views:
  "i \<noteq> [] \<Longrightarrow> orchestrator_view ` set (orchestrator_candidates (self_candidate s t) 2 None (snd (snapshot (one_peer i score))))
     = {(s, t, zero_time, False), (i, score, zero_time, False)}"
  by (simp add: one_peer_def registry_exec_def bind_member_def new_registry_def reasoning_ad_def sample_ad_def
      total_locked_def default_max_entries_def put_member_def new_member_def Let_def snapshot_def
      orchestrator_candidates_def self_candidate_def no_candidate_def orchestrator_view_def reasoning_enabled_def
      selectable_def ad_fresh_def ad_fresh_window_def time_sub_def max_duration_def min_duration_def zero_time_def
      admitted_at_from_roster_def)

theorem orchestrator_selection_agrees_witness:
  "lc_member_id (fst (select_candidate (self_candidate ''a'' 6) 2 (one_peer ''b'' 7) None)) =
   lc_member_id (fst (select_candidate (self_candidate ''b'' 7) 2 (one_peer ''a'' 6) None))"
  by (rule orchestrator_selection_agrees) (auto simp: one_peer_views)

text \<open>The Scribe selection mirrors it with the order on scores inverted. The selected scribe is the pinned
  scribe candidate of lowest member id when one is pinned, and otherwise every other candidate has a
  higher score, or the same score and a later admission, or ties in both and a larger member id.\<close>

theorem scribe_selection_optimal:
  fixes self r clock c
  defines "cs \<equiv> scribe_candidates self clock c (snd (snapshot r))"
    and "w \<equiv> select_scribe self clock r c"
  assumes "registry_ok r" "lc_member_id self \<notin> keys (rg_members r)" "cs \<noteq> []"
  shows "w \<in> set cs \<and>
    (if \<exists>d\<in>set cs. lc_pinned_scribe d
     then lc_pinned_scribe w \<and> (\<forall>d\<in>set cs. lc_pinned_scribe d \<longrightarrow> d = w \<or> lc_member_id w < lc_member_id d)
     else \<forall>d\<in>set cs. d = w \<or> lc_reasoning_score d > lc_reasoning_score w \<or>
         lc_reasoning_score d = lc_reasoning_score w \<and>
           (lc_admitted_at w < lc_admitted_at d \<or>
            lc_admitted_at w = lc_admitted_at d \<and> lc_member_id w < lc_member_id d))"
proof -
  have inj: "inj_on lc_member_id (set cs)" unfolding cs_def by (rule candidates_inj [OF assms(3,4)])
  have w: "w = pick_scribe cs" by (simp add: w_def select_scribe_def cs_def)
  show ?thesis
    using pick_scribe_least [OF assms(5) inj] unfolding w
    by (auto simp: by_id.least_in_def by_low_score.least_in_def id_before_def scribe_before_def
        split: if_splits)
qed

theorem scribe_selection_optimal_witness:
  "select_scribe (self_candidate ''s'' 6) 2 two_peers None
     \<in> set (scribe_candidates (self_candidate ''s'' 6) 2 None (snd (snapshot two_peers)))"
  using scribe_selection_optimal [OF two_peers_ok, of "self_candidate ''s'' 6" 2 None]
  by (simp add: two_peers_members self_candidate_def scribe_candidates_def)

end
