(* ===== verification/Election.thy ===== *)
theory Election
  imports ElectionState Selection
begin

text \<open>
  \<open>cland/internal/election/engine.go\<close> and \<open>handlers.go\<close>: the engine that emits heartbeats, runs
  elections and receives heartbeats, and its endpoints. A node is the engine's mutable surroundings:
  lease state, store, registry, counters, audit log and the callbacks it has fired. The network is the
  argument \<open>post\<close>, which maps the rest \<open>w\<close> of the world, a URL and a heartbeat to the world after the
  request and the response, \<open>None\<close> for a transport error; the decoded ack is \<open>None\<close> when the body does
  not parse. What one tick reads from outside (clocks, \<open>LocalSelf\<close>, \<open>Health\<close>, \<open>MemoryDigest\<close>) is the
  record \<open>tick_env\<close>. Logging and the sleep after an aborted election are not modelled.
\<close>

section \<open>Data\<close>

record heartbeat_ack =
  ack_accepted :: bool
  ack_term_changed :: bool
  ack_orch_changed :: bool
  ack_memory_digest :: string

type_synonym 'w poster = "'w \<Rightarrow> string \<Rightarrow> heartbeat \<Rightarrow> 'w \<times> (http_status \<times> heartbeat_ack option) option"

datatype passenger = RevocationsPassenger | RosterPassenger | MemoryPassenger

text \<open>Callbacks fired by the engine and its handlers, in order.\<close>

datatype engine_event = SelfElected | ElectionWon u64 string | AckReceived member_id heartbeat_ack
  | SyncRequested passenger member_id string | BumpRequested

record engine_opts =
  eo_self_id :: member_id
  eo_clan_id :: string
  eo_sha :: "bytes \<Rightarrow> bytes"
  eo_heartbeat_interval :: duration
  eo_lease_duration :: duration
  eo_failover_grace :: duration
  eo_election_timeout :: duration

record tick_env =
  te_now :: time
  te_clock :: time
  te_self :: local_candidate
  te_healthy :: bool
  te_memory_digest :: "string option"

record node =
  nd_state :: election_state
  nd_store :: store
  nd_registry :: registry
  nd_heartbeats_sent :: u64
  nd_elections_run :: u64
  nd_audit :: "audit_event list"
  nd_events :: "engine_event list"

datatype persist_error = PersistStore store_error | PersistNilClan

datatype engine_error = SelfIDRequired | ClanIDRequired

section \<open>Construction\<close>

text \<open>The nil checks of \<open>NewEngine\<close> have no counterpart: the model's dependencies are values.\<close>

definition new_engine :: "engine_opts \<Rightarrow> engine_error + engine_opts" where
  "new_engine o1 =
     (if eo_self_id o1 = [] then Inl SelfIDRequired
      else if eo_clan_id o1 = [] then Inl ClanIDRequired
      else Inr (o1\<lparr>
        eo_heartbeat_interval := (if eo_heartbeat_interval o1 \<le> 0 then 2 * second else eo_heartbeat_interval o1),
        eo_lease_duration := (if eo_lease_duration o1 \<le> 0 then 8 * second else eo_lease_duration o1),
        eo_failover_grace := (if eo_failover_grace o1 \<le> 0 then 6 * second else eo_failover_grace o1),
        eo_election_timeout := (if eo_election_timeout o1 \<le> 0 then second else eo_election_timeout o1)\<rparr>))"

section \<open>Persistence\<close>

definition persist_term_and_orch :: "store \<Rightarrow> u64 \<Rightarrow> member_id \<Rightarrow> store \<times> persist_error option" where
  "persist_term_and_orch s term orch =
     (case load_clan s of
        Inl e \<Rightarrow> (s, Some (PersistStore e))
      | Inr None \<Rightarrow> (s, Some PersistNilClan)
      | Inr (Some c) \<Rightarrow>
          if cl_term c = term \<and> cl_orchestrator c = orch then (s, None)
          else (case save_clan s (Some (c\<lparr>cl_term := term, cl_orchestrator := orch\<rparr>)) of
                  (s1, e) \<Rightarrow> (s1, map_option PersistStore e)))"

definition persist_scribe :: "store \<Rightarrow> member_id \<Rightarrow> store \<times> persist_error option" where
  "persist_scribe s scribe =
     (case load_clan s of
        Inl e \<Rightarrow> (s, Some (PersistStore e))
      | Inr None \<Rightarrow> (s, None)
      | Inr (Some c) \<Rightarrow>
          if cl_scribe c = scribe then (s, None)
          else (case save_clan s (Some (c\<lparr>cl_scribe := scribe\<rparr>)) of
                  (s1, e) \<Rightarrow> (s1, map_option PersistStore e)))"

text \<open>\<open>SetScribe\<close> and, when it changed, \<open>persistScribe\<close>; a failed write is only logged.\<close>

definition adopt_scribe :: "node \<Rightarrow> member_id \<Rightarrow> node" where
  "adopt_scribe n scribe =
     (case set_scribe (nd_state n) scribe of
        (s1, changed) \<Rightarrow>
          let n1 = n\<lparr>nd_state := s1\<rparr>
          in if changed then n1\<lparr>nd_store := fst (persist_scribe (nd_store n1) scribe)\<rparr> else n1)"

definition refresh_scribe :: "tick_env \<Rightarrow> node \<Rightarrow> clan \<Rightarrow> node \<times> member_id" where
  "refresh_scribe env n c =
     (let scribe = lc_member_id (select_scribe (te_self env) (te_clock env) (nd_registry n) (Some c))
      in (adopt_scribe n scribe, scribe))"

section \<open>Quorum and roster projections\<close>

fun active_roster :: "roster_member list \<Rightarrow> member_id list" where
  "active_roster [] = []"
| "active_roster (m # ms) = (if rm_state m = ''active'' then rm_id m # active_roster ms else active_roster ms)"

fun count_active :: "roster_member list \<Rightarrow> nat" where
  "count_active [] = 0"
| "count_active (m # ms) = (if rm_state m = ''active'' then 1 else 0) + count_active ms"

definition quorum :: "clan \<Rightarrow> nat" where
  "quorum c = (let n = count_active (cl_roster c); n = (if n = 0 then 1 else n) in (n + 1) div 2)"

section \<open>Sending heartbeats\<close>

definition revocations_passenger :: "engine_opts \<Rightarrow> store \<Rightarrow> string" where
  "revocations_passenger eo s =
     (case load_revocations s of Inl _ \<Rightarrow> [] | Inr r \<Rightarrow> revocations_digest (eo_sha eo) (Some r))"

definition make_heartbeat ::
  "engine_opts \<Rightarrow> tick_env \<Rightarrow> store \<Rightarrow> clan \<Rightarrow> u64 \<Rightarrow> int \<Rightarrow> member_id \<Rightarrow> heartbeat" where
  "make_heartbeat eo env s c term score scribe =
     \<lparr>hb_member_id = eo_self_id eo, hb_clan_id = eo_clan_id eo, hb_term = term,
      hb_lease_until = te_now env + eo_lease_duration eo, hb_reasoning_score = score,
      hb_active_roster = active_roster (cl_roster c),
      hb_revocations_digest = revocations_passenger eo s,
      hb_roster_digest = roster_digest (eo_sha eo) (Some c),
      hb_memory_digest = (case te_memory_digest env of None \<Rightarrow> [] | Some d \<Rightarrow> d),
      hb_scribe = scribe\<rparr>"

definition handle_ack_response :: "node \<Rightarrow> member_id \<Rightarrow> http_status \<Rightarrow> heartbeat_ack option \<Rightarrow> node" where
  "handle_ack_response n peer status ack =
     (if status \<noteq> 200 then n
      else case ack of None \<Rightarrow> n | Some a \<Rightarrow> n\<lparr>nd_events := nd_events n @ [AckReceived peer a]\<rparr>)"

definition heartbeat_url :: "peer_member \<Rightarrow> string" where
  "heartbeat_url m = ''https://'' @ pm_address m @ ''/clan/heartbeat''"

text \<open>The two \<open>range members\<close> loops: emission, and the announcement that counts accepts.\<close>

fun emit_loop ::
  "engine_opts \<Rightarrow> time \<Rightarrow> 'w poster \<Rightarrow> heartbeat \<Rightarrow> peer_member list \<Rightarrow> node \<times> 'w \<Rightarrow> node \<times> 'w" where
  "emit_loop eo clock post hb [] (n, w) = (n, w)"
| "emit_loop eo clock post hb (m # ms) (n, w) =
     (if pm_id m = eo_self_id eo then emit_loop eo clock post hb ms (n, w)
      else case post w (heartbeat_url m) hb of
        (w1, None) \<Rightarrow> emit_loop eo clock post hb ms (n, w1)
      | (w1, Some (status, ack)) \<Rightarrow>
          let n1 = n\<lparr>nd_registry := touch_live clock (nd_registry n) (pm_id m)\<rparr>;
              n2 = handle_ack_response n1 (pm_id m) status ack
          in emit_loop eo clock post hb ms (n2\<lparr>nd_heartbeats_sent := nd_heartbeats_sent n2 + 1\<rparr>, w1))"

fun announce_loop ::
  "engine_opts \<Rightarrow> time \<Rightarrow> 'w poster \<Rightarrow> heartbeat \<Rightarrow> peer_member list \<Rightarrow> node \<times> 'w \<times> nat \<Rightarrow> node \<times> 'w \<times> nat" where
  "announce_loop eo clock post hb [] (n, w, accepts) = (n, w, accepts)"
| "announce_loop eo clock post hb (m # ms) (n, w, accepts) =
     (if pm_id m = eo_self_id eo then announce_loop eo clock post hb ms (n, w, accepts)
      else case post w (heartbeat_url m) hb of
        (w1, None) \<Rightarrow> announce_loop eo clock post hb ms (n, w1, accepts)
      | (w1, Some (status, ack)) \<Rightarrow>
          let accepts1 = (if status = 200 then accepts + 1 else accepts);
              n1 = n\<lparr>nd_registry := touch_live clock (nd_registry n) (pm_id m)\<rparr>
          in announce_loop eo clock post hb ms (handle_ack_response n1 (pm_id m) status ack, w1, accepts1))"

definition commit_node :: "engine_opts \<Rightarrow> tick_env \<Rightarrow> node \<Rightarrow> u64 \<Rightarrow> string \<Rightarrow> node \<times> apply_result" where
  "commit_node eo env n term reason =
     (case commit_self_election (nd_state n) term reason (te_now env) (eo_lease_duration eo) of
        (s, res) \<Rightarrow> (n\<lparr>nd_state := s\<rparr>, res))"

definition emit_heartbeats ::
  "engine_opts \<Rightarrow> tick_env \<Rightarrow> 'w poster \<Rightarrow> node \<times> 'w \<Rightarrow> u64 \<Rightarrow> node \<times> 'w" where
  "emit_heartbeats eo env post nw term =
     (case nw of (n, w) \<Rightarrow>
        (case load_clan (nd_store n) of
           Inl _ \<Rightarrow> (n, w)
         | Inr None \<Rightarrow> (n, w)
         | Inr (Some c) \<Rightarrow>
             (case refresh_scribe env n c of
                (n1, scribe) \<Rightarrow>
                  let hb = make_heartbeat eo env (nd_store n) c term (lc_reasoning_score (te_self env)) scribe;
                      members = snd (snapshot (nd_registry n1))
                  in if length members = 0
                     then (fst (commit_node eo env n1 term reason_bootstrap), w)
                     else (case emit_loop eo (te_clock env) post hb members (n1, w) of
                             (n2, w2) \<Rightarrow> (fst (commit_node eo env n2 term reason_bootstrap), w2)))))"

section \<open>Elections\<close>

text \<open>What follows a reached quorum: commit, persist on change, callbacks, audit.\<close>

definition win_election :: "engine_opts \<Rightarrow> tick_env \<Rightarrow> node \<Rightarrow> u64 \<Rightarrow> string \<Rightarrow> node" where
  "win_election eo env n new_term reason =
     (case commit_node eo env n new_term reason of
        (n1, res) \<Rightarrow>
          let n2 = (if ar_term_changed res \<or> ar_orch_changed res
                    then n1\<lparr>nd_store := fst (persist_term_and_orch (nd_store n1) new_term (eo_self_id eo))\<rparr>
                    else n1)
          in n2\<lparr>nd_events := nd_events n2 @ [SelfElected, ElectionWon new_term reason],
                nd_audit := nd_audit n2 @ [Audit ''election.commit'' ''allow'' reason]\<rparr>)"

definition abort_election :: "tick_env \<Rightarrow> node \<Rightarrow> u64 \<Rightarrow> node" where
  "abort_election env n new_term =
     n\<lparr>nd_state := push_history (nd_state n)
         \<lparr>he_term = new_term, he_winner = [], he_reason = reason_retry, he_at = te_now env\<rparr>\<rparr>"

definition run_election ::
  "engine_opts \<Rightarrow> tick_env \<Rightarrow> 'w poster \<Rightarrow> node \<times> 'w \<Rightarrow> u64 \<Rightarrow> node \<times> 'w" where
  "run_election eo env post nw current_term =
     (case nw of (n0, w) \<Rightarrow>
        let n = n0\<lparr>nd_elections_run := nd_elections_run n0 + 1\<rparr>
        in case load_clan (nd_store n) of
             Inl _ \<Rightarrow> (n, w)
           | Inr None \<Rightarrow> (n, w)
           | Inr (Some c) \<Rightarrow>
               (case select_candidate (te_self env) (te_clock env) (nd_registry n) (Some c) of
                  (candidate, reason) \<Rightarrow>
                    if lc_member_id candidate = [] then (n, w)
                    else if lc_member_id candidate \<noteq> eo_self_id eo then (n, w)
                    else
                      let new_term = current_term + 1;
                          q = quorum c
                      in (case refresh_scribe env n c of
                            (n1, scribe) \<Rightarrow>
                              let hb = make_heartbeat eo env (nd_store n) c new_term
                                         (lc_reasoning_score candidate) scribe
                              in (case announce_loop eo (te_clock env) post hb
                                         (snd (snapshot (nd_registry n1))) (n1, w, 1) of
                                    (n2, w2, accepts) \<Rightarrow>
                                      if accepts \<ge> q then (win_election eo env n2 new_term reason, w2)
                                      else (abort_election env n2 new_term, w2)))))"

section \<open>The tick\<close>

definition steps_down :: "engine_opts \<Rightarrow> tick_env \<Rightarrow> node \<Rightarrow> bool" where
  "steps_down eo env n =
     (case load_clan (nd_store n) of
        Inr (Some c) \<Rightarrow>
          let cand = fst (select_candidate (te_self env) (te_clock env) (nd_registry n) (Some c))
          in lc_member_id cand \<noteq> [] \<and> lc_member_id cand \<noteq> eo_self_id eo
      | _ \<Rightarrow> False)"

definition tick :: "engine_opts \<Rightarrow> tick_env \<Rightarrow> 'w poster \<Rightarrow> node \<times> 'w \<Rightarrow> node \<times> 'w" where
  "tick eo env post nw =
     (case nw of (n, w) \<Rightarrow>
        let s = nd_state n;
            now = te_now env;
            within_grace = time_sub now (es_started_at s) < eo_failover_grace eo
        in if i_am_orchestrator s now then
             if steps_down eo env n then (n, w)
             else if te_healthy env then emit_heartbeats eo env post (n, w) (es_term s)
             else (n\<lparr>nd_audit := nd_audit n @ [Audit ''election.heartbeat'' ''deny'' ''runtime_unhealthy'']\<rparr>, w)
           else if within_grace then (n, w)
           else if \<not> lease_silent s now (eo_failover_grace eo) then (n, w)
           else run_election eo env post (n, w) (es_term s))"

section \<open>Receiving heartbeats\<close>

definition acceptable_sender :: "tick_env \<Rightarrow> node \<Rightarrow> member_id \<Rightarrow> bool" where
  "acceptable_sender env n sender =
     (case load_clan (nd_store n) of
        Inr (Some c) \<Rightarrow>
          lc_member_id (fst (select_candidate (te_self env) (te_clock env) (nd_registry n) (Some c))) = sender
      | _ \<Rightarrow> False)"

definition on_heartbeat_received ::
  "engine_opts \<Rightarrow> tick_env \<Rightarrow> node \<Rightarrow> heartbeat \<Rightarrow> member_id \<Rightarrow> node \<times> (election_error + apply_result)" where
  "on_heartbeat_received eo env n hb sender =
     (if hb_member_id hb \<noteq> sender then (n, Inl ErrSenderMismatch)
      else if hb_clan_id hb \<noteq> eo_clan_id eo then (n, Inl ErrForeignClan)
      else case apply_heartbeat (nd_state n) hb (te_now env) (eo_lease_duration eo) (acceptable_sender env n sender) of
        (s, Inl e) \<Rightarrow> (n\<lparr>nd_state := s\<rparr>, Inl e)
      | (s, Inr res) \<Rightarrow>
          let n1 = n\<lparr>nd_state := s, nd_registry := touch_live (te_clock env) (nd_registry n) sender\<rparr>;
              n2 = (if ar_term_changed res \<or> ar_orch_changed res
                    then n1\<lparr>nd_store := fst (persist_term_and_orch (nd_store n1) (ar_new_term res) (ar_new_orch res))\<rparr>
                    else n1)
          in (adopt_scribe n2 (hb_scribe hb), Inr res))"

section \<open>Endpoints\<close>

datatype heartbeat_reply = HbError string | HbConflict election_error member_id | HbAck heartbeat_ack

text \<open>
  \<open>syncs\<close> says which of the three optional syncers are wired, \<open>local_digest\<close> is \<open>h.MemoryDigest\<close>. A body
  that does not decode is \<open>None\<close>.
\<close>

definition sync_event :: "passenger set \<Rightarrow> passenger \<Rightarrow> member_id \<Rightarrow> string \<Rightarrow> engine_event list" where
  "sync_event syncs p sender digest = (if p \<in> syncs \<and> digest \<noteq> [] then [SyncRequested p sender digest] else [])"

definition handle_heartbeat ::
  "engine_opts \<Rightarrow> tick_env \<Rightarrow> passenger set \<Rightarrow> string option \<Rightarrow> node \<Rightarrow> heartbeat option \<Rightarrow> member_id
     \<Rightarrow> node \<times> http_status \<times> heartbeat_reply" where
  "handle_heartbeat eo env syncs local_digest n body sender =
     (case body of
        None \<Rightarrow> (n, 400, HbError ''decode'')
      | Some hb \<Rightarrow>
          if sender = [] then (n, 401, HbError ''no authenticated sender'')
          else case on_heartbeat_received eo env n hb sender of
            (n1, Inl ErrAntiSpoof) \<Rightarrow>
              (n1, 409, HbConflict ErrAntiSpoof
                 (case load_clan (nd_store n1) of
                    Inr (Some c) \<Rightarrow>
                      lc_member_id (fst (select_candidate (te_self env) (te_clock env) (nd_registry n1) (Some c)))
                  | _ \<Rightarrow> []))
          | (n1, Inl ErrTermStale) \<Rightarrow> (n1, 409, HbConflict ErrTermStale [])
          | (n1, Inl e) \<Rightarrow> (n1, 400, HbConflict e [])
          | (n1, Inr res) \<Rightarrow>
              (n1\<lparr>nd_events := nd_events n1 @
                   sync_event syncs RevocationsPassenger sender (hb_revocations_digest hb) @
                   sync_event syncs RosterPassenger sender (hb_roster_digest hb) @
                   sync_event syncs MemoryPassenger sender (hb_memory_digest hb)\<rparr>,
               200, HbAck \<lparr>ack_accepted = ar_accepted res, ack_term_changed = ar_term_changed res,
                      ack_orch_changed = ar_orch_changed res,
                      ack_memory_digest = (case local_digest of None \<Rightarrow> [] | Some d \<Rightarrow> d)\<rparr>))"

record orchestrator_response =
  or_current_orchestrator :: member_id
  or_current_term :: u64
  or_lease_expires :: time
  or_self :: member_id
  or_is_self :: bool

definition handle_orchestrator :: "node \<Rightarrow> orchestrator_response \<times> http_status" where
  "handle_orchestrator n =
     (let s = nd_state n
      in (\<lparr>or_current_orchestrator = es_orchestrator s, or_current_term = es_term s,
           or_lease_expires = es_lease_expires s, or_self = es_self_id s,
           or_is_self = (es_orchestrator s = es_self_id s)\<rparr>, 200))"

definition handle_history :: "node \<Rightarrow> history_entry list \<times> http_status" where
  "handle_history n = (es_history (nd_state n), 200)"

text \<open>The two pin endpoints; the answer is the status and, on success, the pin now in force.\<close>

definition handle_pin :: "node \<Rightarrow> bool option \<Rightarrow> node \<times> http_status \<times> bool option" where
  "handle_pin n req =
     (case req of
        None \<Rightarrow> (n, 400, None)
      | Some v \<Rightarrow>
          (case load_clan (nd_store n) of
             Inr (Some c) \<Rightarrow>
               if cl_pinned_orchestrator c = v then (n, 200, Some (cl_pinned_orchestrator c))
               else (case save_clan (nd_store n) (Some (c\<lparr>cl_pinned_orchestrator := v\<rparr>)) of
                       (s, Some _) \<Rightarrow> (n\<lparr>nd_store := s\<rparr>, 500, None)
                     | (s, None) \<Rightarrow> (n\<lparr>nd_store := s, nd_events := nd_events n @ [BumpRequested]\<rparr>, 200, Some v))
           | _ \<Rightarrow> (n, 500, None)))"

definition handle_pin_scribe :: "node \<Rightarrow> bool option \<Rightarrow> node \<times> http_status \<times> bool option" where
  "handle_pin_scribe n req =
     (case req of
        None \<Rightarrow> (n, 400, None)
      | Some v \<Rightarrow>
          (case load_clan (nd_store n) of
             Inr (Some c) \<Rightarrow>
               if cl_pinned_scribe c = v then (n, 200, Some (cl_pinned_scribe c))
               else (case save_clan (nd_store n) (Some (c\<lparr>cl_pinned_scribe := v\<rparr>)) of
                       (s, Some _) \<Rightarrow> (n\<lparr>nd_store := s\<rparr>, 500, None)
                     | (s, None) \<Rightarrow> (n\<lparr>nd_store := s, nd_events := nd_events n @ [BumpRequested]\<rparr>, 200, Some v))
           | _ \<Rightarrow> (n, 500, None)))"

definition handle_scribe :: "node \<Rightarrow> (member_id \<times> member_id \<times> bool \<times> bool) \<times> http_status" where
  "handle_scribe n =
     (let s = nd_state n; scribe = es_scribe s;
          pinned = (case load_clan (nd_store n) of Inr (Some c) \<Rightarrow> cl_pinned_scribe c | _ \<Rightarrow> False)
      in ((scribe, es_self_id s, scribe \<noteq> [] \<and> scribe = es_self_id s, pinned), 200))"

end
