(* ===== verification/ElectionProps.thy ===== *)
theory ElectionProps
  imports Election
begin

text \<open>
  What the election guarantees and what it does not: invariants of every run of a node, the conditions
  under which a tick acts, votes and quorums, persistence, and the behaviour under partition.
\<close>

section \<open>Frames of the engine operations\<close>

named_theorems node_frame \<open>what each engine operation leaves alone\<close>

lemma adopt_scribe_frame [node_frame, simp]:
  "es_term (nd_state (adopt_scribe n i)) = es_term (nd_state n)"
  "es_orchestrator (nd_state (adopt_scribe n i)) = es_orchestrator (nd_state n)"
  "es_self_id (nd_state (adopt_scribe n i)) = es_self_id (nd_state n)"
  "es_lease_expires (nd_state (adopt_scribe n i)) = es_lease_expires (nd_state n)"
  "es_started_at (nd_state (adopt_scribe n i)) = es_started_at (nd_state n)"
  "es_history (nd_state (adopt_scribe n i)) = es_history (nd_state n)"
  "es_history_cap (nd_state (adopt_scribe n i)) = es_history_cap (nd_state n)"
  "es_scribe (nd_state (adopt_scribe n i)) = i"
  "nd_registry (adopt_scribe n i) = nd_registry n"
  "nd_audit (adopt_scribe n i) = nd_audit n" "nd_events (adopt_scribe n i) = nd_events n"
  using set_scribe_frame [of "nd_state n" i]
  by (auto simp: adopt_scribe_def Let_def split: prod.splits simp del: set_scribe_frame)

lemma adopt_scribe_history_ok: "history_ok (nd_state (adopt_scribe n i)) = history_ok (nd_state n)"
  by (simp add: history_ok_def)

lemma handle_ack_frame [node_frame, simp]:
  "nd_state (handle_ack_response n p st ack) = nd_state n"
  "nd_store (handle_ack_response n p st ack) = nd_store n"
  "nd_registry (handle_ack_response n p st ack) = nd_registry n"
  "nd_audit (handle_ack_response n p st ack) = nd_audit n"
  by (simp_all add: handle_ack_response_def split: option.splits)

lemma emit_loop_frame:
  "emit_loop eo clock post hb ms (n, w) = (n', w') \<Longrightarrow>
     nd_state n' = nd_state n \<and> nd_store n' = nd_store n \<and> nd_audit n' = nd_audit n \<and>
     (registry_ok (nd_registry n) \<longrightarrow> registry_ok (nd_registry n'))"
proof (induction ms arbitrary: n w)
  case (Cons m ms)
  show ?case
  proof (cases "pm_id m = eo_self_id eo")
    case False
    obtain w1 r where p: "post w (heartbeat_url m) hb = (w1, r)" by force
    show ?thesis
    proof (cases r)
      case None
      with Cons False p show ?thesis by simp
    next
      case (Some resp)
      then obtain st ack where "r = Some (st, ack)" by (cases resp) auto
      with Cons.prems False p Cons.IH show ?thesis
        by (fastforce simp: Let_def intro: touch_live_ok)
    qed
  qed (use Cons in simp)
qed simp

text \<open>The number of 200 answers the network gives to an announcement.\<close>

fun votes :: "engine_opts \<Rightarrow> 'w poster \<Rightarrow> heartbeat \<Rightarrow> peer_member list \<Rightarrow> 'w \<Rightarrow> nat" where
  "votes eo post hb [] w = 0"
| "votes eo post hb (m # ms) w =
     (if pm_id m = eo_self_id eo then votes eo post hb ms w
      else case post w (heartbeat_url m) hb of
        (w1, None) \<Rightarrow> votes eo post hb ms w1
      | (w1, Some (st, _)) \<Rightarrow> (if st = 200 then 1 else 0) + votes eo post hb ms w1)"

lemma announce_loop_frame:
  "announce_loop eo clock post hb ms (n, w, a) = (n', w', a') \<Longrightarrow>
     nd_state n' = nd_state n \<and> nd_store n' = nd_store n \<and> nd_audit n' = nd_audit n \<and>
     a' = a + votes eo post hb ms w \<and>
     (registry_ok (nd_registry n) \<longrightarrow> registry_ok (nd_registry n'))"
proof (induction ms arbitrary: n w a)
  case (Cons m ms)
  show ?case
  proof (cases "pm_id m = eo_self_id eo")
    case False
    obtain w1 r where p: "post w (heartbeat_url m) hb = (w1, r)" by force
    show ?thesis
    proof (cases r)
      case None
      with Cons False p show ?thesis by simp
    next
      case (Some resp)
      then obtain st ack where "r = Some (st, ack)" by (cases resp) auto
      with Cons.prems False p Cons.IH show ?thesis
        by (fastforce simp: Let_def intro: touch_live_ok)
    qed
  qed (use Cons in simp)
qed simp

section \<open>What a tick can do\<close>

text \<open>The heartbeat announced by an election and the members it goes to.\<close>

definition election_heartbeat :: "engine_opts \<Rightarrow> tick_env \<Rightarrow> node \<Rightarrow> clan \<Rightarrow> heartbeat" where
  "election_heartbeat eo env n c =
     (let r = nd_registry n
      in make_heartbeat eo env (nd_store n) c (es_term (nd_state n) + 1)
           (lc_reasoning_score (fst (select_candidate (te_self env) (te_clock env) r (Some c))))
           (lc_member_id (select_scribe (te_self env) (te_clock env) r (Some c))))"

definition election_votes :: "engine_opts \<Rightarrow> tick_env \<Rightarrow> 'w poster \<Rightarrow> node \<Rightarrow> 'w \<Rightarrow> clan \<Rightarrow> nat" where
  "election_votes eo env post n w c =
     1 + votes eo post (election_heartbeat eo env n c) (snd (snapshot (nd_registry n))) w"

definition may_elect :: "engine_opts \<Rightarrow> tick_env \<Rightarrow> node \<Rightarrow> clan \<Rightarrow> bool" where
  "may_elect eo env n c \<longleftrightarrow>
     \<not> i_am_orchestrator (nd_state n) (te_now env)
     \<and> \<not> time_sub (te_now env) (es_started_at (nd_state n)) < eo_failover_grace eo
     \<and> lease_silent (nd_state n) (te_now env) (eo_failover_grace eo)
     \<and> load_clan (nd_store n) = Inr (Some c)
     \<and> eo_self_id eo \<noteq> []
     \<and> lc_member_id (fst (select_candidate (te_self env) (te_clock env) (nd_registry n) (Some c))) = eo_self_id eo"

text \<open>
  Every tick falls in one of four cases: nothing but counters and the audit log changes; the leader
  emits and renews; an election is won; an election is aborted.
\<close>

lemma refresh_scribe_eq:
  "refresh_scribe env n c =
     (adopt_scribe n (lc_member_id (select_scribe (te_self env) (te_clock env) (nd_registry n) (Some c))),
      lc_member_id (select_scribe (te_self env) (te_clock env) (nd_registry n) (Some c)))"
  by (simp add: refresh_scribe_def Let_def)

definition idle_change :: "node \<Rightarrow> node \<Rightarrow> bool" where
  "idle_change n n' \<longleftrightarrow> nd_state n' = nd_state n \<and> nd_store n' = nd_store n \<and> nd_registry n' = nd_registry n \<and>
     nd_events n' = nd_events n"

lemma tick_cases:
  obtains (idle) n' where "tick eo env post (n, w) = (n', w)" "idle_change n n'" "\<nexists>c. may_elect eo env n c"
      "\<not> (i_am_orchestrator (nd_state n) (te_now env) \<and> \<not> steps_down eo env n \<and> te_healthy env \<and>
         (\<exists>c. load_clan (nd_store n) = Inr (Some c)))"
  | (emit) c n1 n2 w' where "i_am_orchestrator (nd_state n) (te_now env)" "load_clan (nd_store n) = Inr (Some c)"
      "\<not> steps_down eo env n" "te_healthy env"
      "n1 = adopt_scribe n (lc_member_id (select_scribe (te_self env) (te_clock env) (nd_registry n) (Some c)))"
      "nd_state n2 = nd_state n1" "nd_store n2 = nd_store n1"
      "registry_ok (nd_registry n) \<longrightarrow> registry_ok (nd_registry n2)"
      "tick eo env post (n, w) = (fst (commit_node eo env n2 (es_term (nd_state n)) reason_bootstrap), w')"
  | (won) c n1 n2 w' reason where "may_elect eo env n c" "quorum c \<le> election_votes eo env post n w c"
      "n1 = adopt_scribe n (lc_member_id (select_scribe (te_self env) (te_clock env) (nd_registry n) (Some c)))"
      "nd_state n2 = nd_state n1" "nd_store n2 = nd_store n1"
      "registry_ok (nd_registry n) \<longrightarrow> registry_ok (nd_registry n2)"
      "tick eo env post (n, w) = (win_election eo env n2 (es_term (nd_state n) + 1) reason, w')"
  | (aborted) c n1 n2 w' where "may_elect eo env n c" "election_votes eo env post n w c < quorum c"
      "n1 = adopt_scribe n (lc_member_id (select_scribe (te_self env) (te_clock env) (nd_registry n) (Some c)))"
      "nd_state n2 = nd_state n1" "nd_store n2 = nd_store n1"
      "registry_ok (nd_registry n) \<longrightarrow> registry_ok (nd_registry n2)"
      "tick eo env post (n, w) = (abort_election env n2 (es_term (nd_state n) + 1), w')"
proof (cases "i_am_orchestrator (nd_state n) (te_now env)")
  case lead: True
  show thesis
  proof (cases "\<not> steps_down eo env n \<and> te_healthy env \<and> (\<exists>c. load_clan (nd_store n) = Inr (Some c))")
    case True
    then obtain c where c: "load_clan (nd_store n) = Inr (Some c)" "\<not> steps_down eo env n" "te_healthy env" by blast
    let ?n1 = "adopt_scribe n (lc_member_id (select_scribe (te_self env) (te_clock env) (nd_registry n) (Some c)))"
    let ?hb = "make_heartbeat eo env (nd_store n) c (es_term (nd_state n)) (lc_reasoning_score (te_self env))
                 (lc_member_id (select_scribe (te_self env) (te_clock env) (nd_registry n) (Some c)))"
    let ?ms = "snd (snapshot (nd_registry n))"
    obtain n2 w2 where e: "emit_loop eo (te_clock env) post ?hb ?ms (?n1, w) = (n2, w2)" by force
    have t: "tick eo env post (n, w) =
      (fst (commit_node eo env n2 (es_term (nd_state n)) reason_bootstrap), w2)"
      using lead c e
      by (cases ?ms) (auto simp: tick_def Let_def emit_heartbeats_def refresh_scribe_eq)
    from emit_loop_frame [OF e] show thesis
      by (intro emit [OF lead c refl _ _ _ t]) simp_all
  next
    case False
    then have "\<exists>n'. tick eo env post (n, w) = (n', w) \<and> idle_change n n'"
      using lead by (auto simp: tick_def Let_def emit_heartbeats_def idle_change_def split: sum.splits option.splits)
    moreover have "\<nexists>c. may_elect eo env n c" using lead by (simp add: may_elect_def)
    ultimately show thesis using idle False by blast
  qed
next
  case follow: False
  show thesis
  proof (cases "\<exists>c. may_elect eo env n c")
    case False
    then have "\<exists>n'. tick eo env post (n, w) = (n', w) \<and> idle_change n n'"
      using follow
      by (auto simp: tick_def Let_def run_election_def idle_change_def may_elect_def
          split: sum.splits option.splits prod.splits)
    with idle False follow show thesis by blast
  next
    case True
    then obtain c where c: "may_elect eo env n c" by blast
    let ?scribe = "lc_member_id (select_scribe (te_self env) (te_clock env) (nd_registry n) (Some c))"
    let ?n0 = "n\<lparr>nd_elections_run := nd_elections_run n + 1\<rparr>"
    let ?n1 = "adopt_scribe ?n0 ?scribe"
    let ?ms = "snd (snapshot (nd_registry n))"
    obtain cand reason where sel: "select_candidate (te_self env) (te_clock env) (nd_registry n) (Some c) = (cand, reason)"
      by force
    obtain n2 w2 a where a: "announce_loop eo (te_clock env) post (election_heartbeat eo env n c) ?ms (?n1, w, 1) = (n2, w2, a)"
      by (metis prod_cases3)
    have hb: "make_heartbeat eo env (nd_store n) c (es_term (nd_state n) + 1) (lc_reasoning_score cand) ?scribe =
      election_heartbeat eo env n c"
      by (simp add: election_heartbeat_def Let_def sel)
    have t: "tick eo env post (n, w) =
      (if quorum c \<le> a then (win_election eo env n2 (es_term (nd_state n) + 1) reason, w2)
       else (abort_election env n2 (es_term (nd_state n) + 1), w2))"
      using follow c sel a hb
      by (simp add: tick_def Let_def may_elect_def run_election_def refresh_scribe_eq)
    have n1: "nd_state ?n1 = nd_state (adopt_scribe n ?scribe)" "nd_store ?n1 = nd_store (adopt_scribe n ?scribe)"
      "nd_registry ?n1 = nd_registry n"
      by (auto simp: adopt_scribe_def Let_def split: prod.splits)
    have v: "a = election_votes eo env post n w c"
      using announce_loop_frame [OF a] by (simp add: election_votes_def)
    have n2: "nd_state n2 = nd_state (adopt_scribe n ?scribe)" "nd_store n2 = nd_store (adopt_scribe n ?scribe)"
      "registry_ok (nd_registry n) \<longrightarrow> registry_ok (nd_registry n2)"
      using announce_loop_frame [OF a] n1 by simp_all
    show thesis
    proof (cases "quorum c \<le> a")
      case True
      show thesis by (rule won [OF c _ refl n2, of reason w2]) (use True v t in simp_all)
    next
      case False
      show thesis by (rule aborted [OF c _ refl n2, of w2]) (use False v t in simp_all)
    qed
  qed
qed

section \<open>Terms and leaders across a tick or a heartbeat\<close>

lemma commit_node_state [simp]:
  "es_term (nd_state (fst (commit_node eo env n t r))) = t"
  "es_orchestrator (nd_state (fst (commit_node eo env n t r))) = es_self_id (nd_state n)"
  "es_self_id (nd_state (fst (commit_node eo env n t r))) = es_self_id (nd_state n)"
  "es_lease_expires (nd_state (fst (commit_node eo env n t r))) = te_now env + eo_lease_duration eo"
  "nd_store (fst (commit_node eo env n t r)) = nd_store n"
  "nd_registry (fst (commit_node eo env n t r)) = nd_registry n"
  using commit_self_election_frame [of "nd_state n" t r "te_now env" "eo_lease_duration eo"]
  by (auto simp: commit_node_def split: prod.splits simp del: commit_self_election_frame)

lemma commit_node_history_ok: "history_ok (nd_state n) \<Longrightarrow> history_ok (nd_state (fst (commit_node eo env n t r)))"
  using commit_history_ok [of "nd_state n" t r "te_now env" "eo_lease_duration eo"]
  by (auto simp: commit_node_def split: prod.splits)

lemma win_election_state [simp]:
  "nd_state (win_election eo env n t r) = nd_state (fst (commit_node eo env n t r))"
  "nd_registry (win_election eo env n t r) = nd_registry n"
  using commit_node_state(6) [of eo env n t r]
  by (auto simp: win_election_def Let_def split: prod.splits simp del: commit_node_state)

lemma abort_election_state [simp]:
  "es_term (nd_state (abort_election env n t)) = es_term (nd_state n)"
  "es_orchestrator (nd_state (abort_election env n t)) = es_orchestrator (nd_state n)"
  "es_self_id (nd_state (abort_election env n t)) = es_self_id (nd_state n)"
  "es_lease_expires (nd_state (abort_election env n t)) = es_lease_expires (nd_state n)"
  "nd_registry (abort_election env n t) = nd_registry n" "nd_store (abort_election env n t) = nd_store n"
  by (simp_all add: abort_election_def)

lemma tick_self: "es_self_id (nd_state (fst (tick eo env post (n, w)))) = es_self_id (nd_state n)"
  by (cases rule: tick_cases [of eo env post n w]) (auto simp: idle_change_def)

lemma tick_term:
  "es_term (nd_state (fst (tick eo env post (n, w)))) \<in> {es_term (nd_state n), es_term (nd_state n) + 1}"
  by (cases rule: tick_cases [of eo env post n w]) (auto simp: idle_change_def)

lemma tick_history_ok:
  "history_ok (nd_state n) \<Longrightarrow> history_ok (nd_state (fst (tick eo env post (n, w))))"
  by (cases rule: tick_cases [of eo env post n w])
    (auto simp: idle_change_def adopt_scribe_history_ok abort_election_def intro!: commit_node_history_ok push_history_ok)

lemma tick_registry_ok:
  "registry_ok (nd_registry n) \<Longrightarrow> registry_ok (nd_registry (fst (tick eo env post (n, w))))"
  by (cases rule: tick_cases [of eo env post n w]) (auto simp: idle_change_def)

lemma on_heartbeat_cases:
  obtains (refused) e where "on_heartbeat_received eo env n hb sender = (n, Inl e)"
      "e = ErrSenderMismatch \<and> hb_member_id hb \<noteq> sender \<or>
       e = ErrForeignClan \<and> hb_member_id hb = sender \<and> hb_clan_id hb \<noteq> eo_clan_id eo \<or>
       e = ErrTermStale \<and> hb_member_id hb = sender \<and> hb_clan_id hb = eo_clan_id eo \<and> hb_term hb < es_term (nd_state n) \<or>
       e = ErrAntiSpoof \<and> hb_member_id hb = sender \<and> hb_clan_id hb = eo_clan_id eo \<and>
         hb_term hb = es_term (nd_state n) \<and> \<not> acceptable_sender env n sender"
  | (accepted) n1 where "hb_member_id hb = sender" "hb_clan_id hb = eo_clan_id eo" "es_term (nd_state n) \<le> hb_term hb"
      "es_term (nd_state n) < hb_term hb \<or> acceptable_sender env n sender"
      "nd_state n1 = accept_state (nd_state n) hb (te_now env) (eo_lease_duration eo)"
      "nd_registry n1 = touch_live (te_clock env) (nd_registry n) sender"
      "nd_store n1 = (if hb_term hb \<noteq> es_term (nd_state n) \<or> sender \<noteq> es_orchestrator (nd_state n)
         then fst (persist_term_and_orch (nd_store n) (hb_term hb) sender) else nd_store n)"
      "nd_events n1 = nd_events n"
      "on_heartbeat_received eo env n hb sender = (adopt_scribe n1 (hb_scribe hb), Inr (accept_result (nd_state n) hb))"
proof (cases "hb_member_id hb = sender \<and> hb_clan_id hb = eo_clan_id eo")
  case False
  then have "\<exists>e. on_heartbeat_received eo env n hb sender = (n, Inl e) \<and>
     (e = ErrSenderMismatch \<and> hb_member_id hb \<noteq> sender \<or>
      e = ErrForeignClan \<and> hb_member_id hb = sender \<and> hb_clan_id hb \<noteq> eo_clan_id eo)"
    by (auto simp: on_heartbeat_received_def)
  with refused show thesis by blast
next
  case True
  show thesis
  proof (cases rule: apply_heartbeat_cases [of hb "nd_state n" "te_now env" "eo_lease_duration eo" "acceptable_sender env n sender"])
    case stale
    with True show thesis by (intro refused [of ErrTermStale]) (simp_all add: on_heartbeat_received_def)
  next
    case spoof
    with True show thesis by (intro refused [of ErrAntiSpoof]) (simp_all add: on_heartbeat_received_def)
  next
    case acc: accepted
    let ?n0 = "n\<lparr>nd_state := accept_state (nd_state n) hb (te_now env) (eo_lease_duration eo),
                 nd_registry := touch_live (te_clock env) (nd_registry n) sender\<rparr>"
    let ?n1 = "if hb_term hb \<noteq> es_term (nd_state n) \<or> sender \<noteq> es_orchestrator (nd_state n)
               then ?n0\<lparr>nd_store := fst (persist_term_and_orch (nd_store n) (hb_term hb) sender)\<rparr> else ?n0"
    show thesis
      by (rule accepted [of ?n1]) (use True acc in \<open>simp_all add: on_heartbeat_received_def Let_def accept_result_def\<close>)
  qed
qed

lemma on_heartbeat_self: "es_self_id (nd_state (fst (on_heartbeat_received eo env n hb sender))) = es_self_id (nd_state n)"
  by (cases rule: on_heartbeat_cases [of eo env n hb sender]) simp_all

lemma on_heartbeat_term: "es_term (nd_state n) \<le> es_term (nd_state (fst (on_heartbeat_received eo env n hb sender)))"
  by (cases rule: on_heartbeat_cases [of eo env n hb sender]) simp_all

lemma on_heartbeat_ok:
  "history_ok (nd_state n) \<Longrightarrow> history_ok (nd_state (fst (on_heartbeat_received eo env n hb sender)))"
  "registry_ok (nd_registry n) \<Longrightarrow> registry_ok (nd_registry (fst (on_heartbeat_received eo env n hb sender)))"
  by (cases rule: on_heartbeat_cases [of eo env n hb sender];
      auto simp: adopt_scribe_history_ok intro: accept_history_ok touch_live_ok)+

section \<open>Runs of a node\<close>

text \<open>
  The steps of one daemon: its own ticks and received heartbeats, and the registry and store updates
  other goroutines make between them.
\<close>

inductive engine_step :: "engine_opts \<Rightarrow> 'w poster \<Rightarrow> node \<times> 'w \<Rightarrow> node \<times> 'w \<Rightarrow> bool" for eo post where
  step_tick: "engine_step eo post (n, w) (tick eo env post (n, w))"
| step_heartbeat: "engine_step eo post (n, w) (fst (on_heartbeat_received eo env n hb sender), w)"
| step_registry: "engine_step eo post (n, w) (n\<lparr>nd_registry := registry_exec (nd_registry n) e\<rparr>, w)"
| step_store: "engine_step eo post (n, w) (n\<lparr>nd_store := s\<rparr>, w)"

inductive_cases engine_stepE: "engine_step eo post a b"

definition node_ok :: "node \<Rightarrow> bool" where
  "node_ok n \<longleftrightarrow> history_ok (nd_state n) \<and> registry_ok (nd_registry n)"

lemma engine_step_ok: "engine_step eo post a b \<Longrightarrow> node_ok (fst a) \<Longrightarrow> node_ok (fst b)"
  by (erule engine_stepE)
    (auto simp: node_ok_def tick_history_ok tick_registry_ok on_heartbeat_ok registry_exec_ok)

lemma engine_step_self: "engine_step eo post a b \<Longrightarrow> es_self_id (nd_state (fst b)) = es_self_id (nd_state (fst a))"
  by (erule engine_stepE) (auto simp: tick_self on_heartbeat_self)

lemma engine_steps_ok: "(engine_step eo post)\<^sup>*\<^sup>* a b \<Longrightarrow> node_ok (fst a) \<Longrightarrow> node_ok (fst b)"
  by (induction rule: rtranclp_induct) (auto dest: engine_step_ok)

lemma u64_le_inc:
  fixes t :: u64
  assumes "t \<noteq> - 1"
  shows "t \<le> t + 1"
proof -
  have "unat t \<noteq> 2 ^ 64 - 1"
  proof
    assume "unat t = 2 ^ 64 - 1"
    then have "word_of_nat (unat t) = (word_of_nat (2 ^ 64 - 1) :: u64)" by simp
    then have "t = - 1" by simp
    with assms show False ..
  qed
  with unsigned_less [of t, where ?'a = nat] show ?thesis by (simp add: no_olen_add_nat)
qed

lemma engine_step_term:
  assumes "engine_step eo post a b" "es_term (nd_state (fst a)) \<noteq> - 1"
  shows "es_term (nd_state (fst a)) \<le> es_term (nd_state (fst b))"
  using assms(1)
proof (cases rule: engine_step.cases)
  case (step_tick n w env)
  then show ?thesis using tick_term [of eo env post n w] u64_le_inc [OF assms(2)] by auto
qed (auto simp: on_heartbeat_term)

section \<open>Votes and quorums\<close>

lemma votes_none: "\<forall>m w. snd (post w (heartbeat_url m) hb) = None \<Longrightarrow> votes eo post hb ms w = 0"
proof (induction ms arbitrary: w)
  case (Cons m ms)
  obtain w1 r where "post w (heartbeat_url m) hb = (w1, r)" by force
  moreover have "r = None" using Cons.prems [rule_format, of w m] calculation by simp
  ultimately show ?case using Cons by simp
qed simp

lemma count_active_length: "count_active ms = length (active_roster ms)"
  by (induction ms) auto

lemma active_roster_distinct: "wf_roster ms \<Longrightarrow> distinct (active_roster ms)"
proof -
  have "set (active_roster ms) \<subseteq> rm_id ` set ms" for ms by (induction ms) auto
  then show "wf_roster ms \<Longrightarrow> distinct (active_roster ms)"
    by (induction ms) (auto simp: wf_roster_def)
qed

lemma quorum_bounds:
  "count_active (cl_roster c) \<le> 2 * quorum c" "0 < quorum c"
  "odd (count_active (cl_roster c)) \<Longrightarrow> count_active (cl_roster c) < 2 * quorum c"
  by (auto simp: quorum_def Let_def elim!: oddE)

section \<open>Persistence\<close>

definition persisted :: "node \<Rightarrow> bool" where
  "persisted n \<longleftrightarrow> st_readable (nd_store n) \<and> st_writable (nd_store n) \<and>
     (\<exists>c. st_clan (nd_store n) = Some c \<and> cl_term c = es_term (nd_state n) \<and>
        cl_orchestrator c = es_orchestrator (nd_state n))"

definition store_shows :: "store \<Rightarrow> u64 \<Rightarrow> member_id \<Rightarrow> bool" where
  "store_shows s t i \<longleftrightarrow> st_readable s \<and> st_writable s \<and>
     (\<exists>c. st_clan s = Some c \<and> cl_term c = t \<and> cl_orchestrator c = i)"

lemma persisted_shows: "persisted n = store_shows (nd_store n) (es_term (nd_state n)) (es_orchestrator (nd_state n))"
  by (simp add: persisted_def store_shows_def)

lemma persist_scribe_shows [simp]: "store_shows s t i \<Longrightarrow> store_shows (fst (persist_scribe s x)) t i"
  by (auto simp: store_shows_def persist_scribe_def store_defs)

lemma persist_term_shows: "store_shows s t0 i0 \<Longrightarrow> store_shows (fst (persist_term_and_orch s t i)) t i"
  by (auto simp: store_shows_def persist_term_and_orch_def store_defs)

lemma adopt_scribe_shows [simp]: "store_shows (nd_store n) t i \<Longrightarrow> store_shows (nd_store (adopt_scribe n x)) t i"
  by (auto simp: adopt_scribe_def Let_def split: prod.splits)

lemma win_election_shows:
  "store_shows (nd_store n) t0 i0 \<Longrightarrow> t0 \<noteq> t \<or> i0 = es_self_id (nd_state n) \<Longrightarrow> es_term (nd_state n) = t0 \<Longrightarrow>
     es_self_id (nd_state n) = eo_self_id eo \<Longrightarrow> es_orchestrator (nd_state n) = i0 \<Longrightarrow>
     store_shows (nd_store (win_election eo env n t r)) t (eo_self_id eo)"
  by (auto simp: win_election_def Let_def commit_node_def commit_self_election_def persist_term_shows split: prod.splits)

section \<open>Under partition\<close>

lemma isolated_votes:
  assumes "\<forall>m v hb. snd (post v (heartbeat_url m) hb) = None"
  shows "election_votes eo env post n w c = 1"
  using assms by (simp add: election_votes_def votes_none)

lemma quorum_one: "quorum c \<le> 1 \<longleftrightarrow> count_active (cl_roster c) \<le> 2"
  by (auto simp: quorum_def Let_def)

section \<open>Properties\<close>


definition sample_opts :: "member_id \<Rightarrow> engine_opts" where
  "sample_opts i = \<lparr>eo_self_id = i, eo_clan_id = ''c'', eo_sha = rev, eo_heartbeat_interval = 2 * second,
     eo_lease_duration = 8 * second, eo_failover_grace = 6 * second, eo_election_timeout = second\<rparr>"

definition sample_clan :: "string list \<Rightarrow> clan" where
  "sample_clan ids = empty_clan\<lparr>cl_id := ''c'', cl_roster := map (\<lambda>i. sample_member i ''active'' 1) ids\<rparr>"

definition sample_node :: "member_id \<Rightarrow> string list \<Rightarrow> node" where
  "sample_node i ids = \<lparr>nd_state = new_state 0 i 0 [] 32,
     nd_store = \<lparr>st_clan = Some (sample_clan ids), st_revocations = None, st_readable = True, st_writable = True\<rparr>,
     nd_registry = new_registry, nd_heartbeats_sent = 0, nd_elections_run = 0, nd_audit = [], nd_events = []\<rparr>"

definition sample_env :: "member_id \<Rightarrow> time \<Rightarrow> tick_env" where
  "sample_env i t = \<lparr>te_now = t, te_clock = t, te_self = self_candidate i 5, te_healthy = True, te_memory_digest = None\<rparr>"

definition no_network :: "unit poster" where
  "no_network w url hb = ((), None)"

definition sample_heartbeat :: "member_id \<Rightarrow> u64 \<Rightarrow> heartbeat" where
  "sample_heartbeat i t = \<lparr>hb_member_id = i, hb_clan_id = ''c'', hb_term = t, hb_lease_until = 0, hb_reasoning_score = 0,
     hb_active_roster = [], hb_revocations_digest = [], hb_roster_digest = [], hb_memory_digest = [], hb_scribe = []\<rparr>"

lemma sample_node_ok: "node_ok (sample_node i ids)"
  by (simp add: node_ok_def sample_node_def new_state_history_ok registry_ok_new)


text \<open>C1: Leadership is won only by a quorum of votes. A node that is not the Orchestrator is the Orchestrator
  after a tick exactly when it may stand (out of the startup grace, lease silent past the failover grace,
  clan loaded, its own selection prefers it) and its own vote together with the 200 answers to its
  announcement reaches the quorum of the persisted active roster; it then leads in the next term with a
  fresh lease, and otherwise its term is what it was.\<close>

theorem leadership_needs_quorum:
  fixes eo env n w and post :: "'w poster"
  defines "n' \<equiv> fst (tick eo env post (n, w))"
  assumes "\<not> i_am_orchestrator (nd_state n) (te_now env)" "0 < eo_lease_duration eo"
    and "te_now env + eo_lease_duration eo \<noteq> zero_time"
  shows "(i_am_orchestrator (nd_state n') (te_now env) \<longleftrightarrow>
      (\<exists>c. may_elect eo env n c \<and> quorum c \<le> election_votes eo env post n w c)) \<and>
    (if i_am_orchestrator (nd_state n') (te_now env)
     then es_term (nd_state n') = es_term (nd_state n) + 1 \<and>
       es_lease_expires (nd_state n') = te_now env + eo_lease_duration eo
     else es_term (nd_state n') = es_term (nd_state n))"
proof (cases rule: tick_cases [of eo env post n w])
  case (idle m)
  then have "nd_state n' = nd_state n" by (simp add: n'_def idle_change_def)
  with idle(3) assms(2) show ?thesis by simp
next
  case (emit c n1 n2 w')
  with assms(2) show ?thesis by simp
next
  case (won c n1 n2 w' reason)
  then have st: "es_term (nd_state n') = es_term (nd_state n) + 1"
    "es_lease_expires (nd_state n') = te_now env + eo_lease_duration eo"
    "es_orchestrator (nd_state n') = es_self_id (nd_state n')"
    by (simp_all add: n'_def)
  then have "i_am_orchestrator (nd_state n') (te_now env)"
    using assms(3,4) by (simp add: i_am_orchestrator_def)
  with st won(1,2) show ?thesis by auto
next
  case (aborted c n1 n2 w')
  then have st: "es_term (nd_state n') = es_term (nd_state n)"
    "es_lease_expires (nd_state n') = es_lease_expires (nd_state n)"
    "es_orchestrator (nd_state n') = es_orchestrator (nd_state n)"
    "es_self_id (nd_state n') = es_self_id (nd_state n)"
    by (simp_all add: n'_def)
  then have "\<not> i_am_orchestrator (nd_state n') (te_now env)"
    using assms(2) by (simp add: i_am_orchestrator_def)
  moreover have "c' = c" if "may_elect eo env n c'" for c'
    using that aborted(1) by (simp add: may_elect_def)
  ultimately show ?thesis using aborted(2) st(1) by auto
qed

definition late_env :: "member_id \<Rightarrow> tick_env" where
  "late_env i = sample_env i (100 * second)"

lemma late_may_elect:
  "i \<noteq> [] \<Longrightarrow> may_elect (sample_opts i) (late_env i) (sample_node i ids) (sample_clan ids)"
  by (simp add: may_elect_def late_env_def sample_env_def sample_node_def sample_opts_def i_am_orchestrator_def
      lease_silent_def new_state_def time_sub_def max_duration_def min_duration_def load_clan_def
      select_candidate_def orchestrator_candidates_def snapshot_def new_registry_def self_candidate_def
      no_candidate_def pick_orchestrator_def sort_slice_def)

theorem leadership_needs_quorum_witness:
  "es_term (nd_state (fst (tick (sample_opts ''a'') (late_env ''a'') no_network (sample_node ''a'' [''a''], ())))) = 1"
  using leadership_needs_quorum [of "sample_node ''a'' [''a'']" "late_env ''a''" "sample_opts ''a''" no_network "()"]
    late_may_elect [of "''a''" "[''a'']"]
  by (auto simp: may_elect_def sample_opts_def late_env_def sample_env_def zero_time_def sample_node_def new_state_def
      election_votes_def quorum_def sample_clan_def sample_member_def split: if_splits)

text \<open>Split votes. With n distinct active members, two sets of voters that each reach the quorum share a
  member when n is odd, so no two candidates can be elected by disjoint votes; when n is even and positive
  the quorum is exactly half, and two disjoint sets of voters can both reach it.\<close>

theorem quorum_intersection:
  fixes c
  defines "V \<equiv> set (active_roster (cl_roster c))"
  assumes "wf_roster (cl_roster c)"
  shows "if odd (card V)
    then \<forall>A B. A \<subseteq> V \<longrightarrow> B \<subseteq> V \<longrightarrow> quorum c \<le> card A \<longrightarrow> quorum c \<le> card B \<longrightarrow> A \<inter> B \<noteq> {}
    else V \<noteq> {} \<longrightarrow> (\<exists>A B. A \<subseteq> V \<and> B \<subseteq> V \<and> quorum c \<le> card A \<and> quorum c \<le> card B \<and> A \<inter> B = {})"
proof -
  have n: "count_active (cl_roster c) = card V"
    unfolding V_def using active_roster_distinct [OF assms(2)] by (simp add: count_active_length distinct_card)
  have fin: "finite V" by (simp add: V_def)
  show ?thesis
  proof (cases "odd (card V)")
    case True
    have "A \<inter> B \<noteq> {}" if "A \<subseteq> V" "B \<subseteq> V" "quorum c \<le> card A" "quorum c \<le> card B" for A B
    proof
      assume "A \<inter> B = {}"
      then have "card A + card B = card (A \<union> B)"
        using that fin by (simp add: card_Un_disjoint finite_subset)
      also have "\<dots> \<le> card V" using that fin by (simp add: card_mono)
      finally show False using that quorum_bounds(3) [of c] True n by simp
    qed
    with True show ?thesis by simp
  next
    case False
    have "\<exists>A B. A \<subseteq> V \<and> B \<subseteq> V \<and> quorum c \<le> card A \<and> quorum c \<le> card B \<and> A \<inter> B = {}" if "V \<noteq> {}"
    proof -
      obtain A where A: "A \<subseteq> V" "card A = card V div 2"
        using obtain_subset_with_card_n [of "card V div 2" V] by auto
      have "card (V - A) = card V - card V div 2" using A fin by (simp add: card_Diff_subset finite_subset)
      moreover have "quorum c = card V div 2"
        using False n that fin by (auto simp: quorum_def Let_def elim!: evenE)
      ultimately show ?thesis using A by (intro exI [of _ A] exI [of _ "V - A"]) auto
    qed
    with False show ?thesis by simp
  qed
qed

theorem quorum_intersection_witness:
  "\<exists>A B. A \<inter> B = {} \<and> quorum (sample_clan [''a'', ''b'']) \<le> card (A :: string set) \<and>
     quorum (sample_clan [''a'', ''b'']) \<le> card (B :: string set)"
  using quorum_intersection [of "sample_clan [''a'', ''b'']"]
  by (auto simp: sample_clan_def sample_member_def wf_roster_def)

text \<open>Isolation. A member that may stand and whose every request fails elects itself exactly when the
  persisted roster has at most two active members: a clan of three or more cannot be taken over by one
  isolated member, but in a clan of two both members can become Orchestrator of the same term.\<close>

theorem isolated_member_elected_iff:
  assumes "may_elect eo env n c" "\<forall>m v hb. snd (post v (heartbeat_url m) hb) = None"
    and "0 < eo_lease_duration eo" "te_now env + eo_lease_duration eo \<noteq> zero_time"
  shows "i_am_orchestrator (nd_state (fst (tick eo env post (n, w)))) (te_now env) \<longleftrightarrow>
    count_active (cl_roster c) \<le> 2"
proof (cases rule: tick_cases [of eo env post n w])
  case (idle m)
  with assms(1) show ?thesis by blast
next
  case (emit d n1 n2 w')
  with assms(1) show ?thesis by (simp add: may_elect_def)
next
  case (won d n1 n2 w' reason)
  then have "d = c" using assms(1) by (simp add: may_elect_def)
  with won assms show ?thesis
    by (simp add: isolated_votes [OF assms(2)] i_am_orchestrator_def quorum_one [simplified])
next
  case (aborted d n1 n2 w')
  then have "d = c" using assms(1) by (simp add: may_elect_def)
  moreover have "\<not> i_am_orchestrator (nd_state n) (te_now env)" using assms(1) by (simp add: may_elect_def)
  ultimately show ?thesis
    using aborted isolated_votes [OF assms(2), of eo env n w c] quorum_one [of c]
    by (simp add: i_am_orchestrator_def)
qed

theorem isolated_member_elected_iff_witness:
  "i_am_orchestrator (nd_state (fst (tick (sample_opts ''a'') (late_env ''a'') no_network (sample_node ''a'' [''a'', ''b''], ())))) (100 * second) \<and>
   i_am_orchestrator (nd_state (fst (tick (sample_opts ''b'') (late_env ''b'') no_network (sample_node ''b'' [''a'', ''b''], ())))) (100 * second)"
proof -
  have "i_am_orchestrator (nd_state (fst (tick (sample_opts ''a'') (late_env ''a'') no_network (sample_node ''a'' [''a'', ''b''], ())))) (100 * second)"
    using isolated_member_elected_iff [OF late_may_elect [of "''a''" "[''a'', ''b'']"], of no_network "()"]
    by (simp add: no_network_def sample_opts_def late_env_def sample_env_def zero_time_def sample_clan_def sample_member_def)
  moreover have "i_am_orchestrator (nd_state (fst (tick (sample_opts ''b'') (late_env ''b'') no_network (sample_node ''b'' [''a'', ''b''], ())))) (100 * second)"
    using isolated_member_elected_iff [OF late_may_elect [of "''b''" "[''a'', ''b'']"], of no_network "()"]
    by (simp add: no_network_def sample_opts_def late_env_def sample_env_def zero_time_def sample_clan_def sample_member_def)
  ultimately show ?thesis ..
qed

text \<open>When a tick must not act. An Orchestrator whose runtime is unhealthy (R1), or whose selection prefers
  another member (step-down), sends nothing and keeps its lease state, store and registry; a node that is
  not the Orchestrator does nothing at all within the startup grace (R6) or while the lease it has seen
  is not silent.\<close>

theorem tick_restraint:
  assumes "if i_am_orchestrator (nd_state n) (te_now env) then steps_down eo env n \<or> \<not> te_healthy env
    else time_sub (te_now env) (es_started_at (nd_state n)) < eo_failover_grace eo
      \<or> \<not> lease_silent (nd_state n) (te_now env) (eo_failover_grace eo)"
  shows "\<exists>audit. tick eo env post (n, w) = (n\<lparr>nd_audit := nd_audit n @ audit\<rparr>, w) \<and>
    (audit = [] \<or> audit = [Audit ''election.heartbeat'' ''deny'' ''runtime_unhealthy''])"
proof (cases "i_am_orchestrator (nd_state n) (te_now env) \<and> \<not> steps_down eo env n")
  case True
  with assms show ?thesis
    by (intro exI [of _ "[Audit ''election.heartbeat'' ''deny'' ''runtime_unhealthy'']"]) (simp add: tick_def Let_def)
next
  case False
  with assms have "tick eo env post (n, w) = (n, w)" by (auto simp: tick_def Let_def split: if_splits)
  then show ?thesis by (intro exI [of _ "[]"]) simp
qed

theorem tick_restraint_witness:
  "\<exists>audit. tick (sample_opts ''a'') (sample_env ''a'' second) no_network (sample_node ''a'' [''a''], ()) =
     ((sample_node ''a'' [''a''])\<lparr>nd_audit := audit\<rparr>, ())"
  using tick_restraint [of "sample_node ''a'' [''a'']" "sample_env ''a'' second" "sample_opts ''a''" no_network "()"]
  by (auto simp: sample_node_def sample_env_def sample_opts_def new_state_def i_am_orchestrator_def time_sub_def
      max_duration_def min_duration_def)

text \<open>A follower waits out the lease it heard. After accepting a heartbeat of another member, a node leaves
  term, leader, store and network alone in every tick up to the end of the lease plus the failover grace,
  counted from its own clock at receipt, whatever lease the message claimed.\<close>

theorem follower_waits_out_lease:
  assumes "on_heartbeat_received eo env n hb sender = (n1, Inr res)" "sender \<noteq> es_self_id (nd_state n)"
    and "te_now env' \<le> te_now env + eo_lease_duration eo + eo_failover_grace eo"
    and "te_now env + eo_lease_duration eo \<noteq> zero_time"
  shows "tick eo env' post (n1, w) = (n1, w)"
proof (cases rule: on_heartbeat_cases [of eo env n hb sender])
  case (refused e)
  with assms(1) show ?thesis by simp
next
  case (accepted n0)
  with assms(1) have "n1 = adopt_scribe n0 (hb_scribe hb)" by simp
  with accepted have "es_orchestrator (nd_state n1) = sender" "es_self_id (nd_state n1) = es_self_id (nd_state n)"
    "es_lease_expires (nd_state n1) = te_now env + eo_lease_duration eo"
    by simp_all
  then have "\<not> i_am_orchestrator (nd_state n1) (te_now env')"
    "\<not> lease_silent (nd_state n1) (te_now env') (eo_failover_grace eo)"
    using assms(2-4) by (auto simp: i_am_orchestrator_def lease_silent_def)
  then show ?thesis by (simp add: tick_def Let_def)
qed

lemma sample_accepts:
  "snd (on_heartbeat_received (sample_opts ''a'') (sample_env ''a'' 1) (sample_node ''a'' [''a'', ''b'']) (sample_heartbeat ''b'' 3) ''b'')
     = Inr (accept_result (nd_state (sample_node ''a'' [''a'', ''b''])) (sample_heartbeat ''b'' 3))"
  by (simp add: on_heartbeat_received_def sample_heartbeat_def sample_opts_def apply_heartbeat_def sample_node_def
      new_state_def Let_def)

theorem follower_waits_out_lease_witness:
  "let n1 = fst (on_heartbeat_received (sample_opts ''a'') (sample_env ''a'' 1) (sample_node ''a'' [''a'', ''b''])
        (sample_heartbeat ''b'' 3) ''b'')
   in tick (sample_opts ''a'') (sample_env ''a'' (14 * second)) no_network (n1, ()) = (n1, ())"
proof -
  obtain n1 where n1: "on_heartbeat_received (sample_opts ''a'') (sample_env ''a'' 1) (sample_node ''a'' [''a'', ''b''])
      (sample_heartbeat ''b'' 3) ''b'' = (n1, Inr (accept_result (nd_state (sample_node ''a'' [''a'', ''b''])) (sample_heartbeat ''b'' 3)))"
    using sample_accepts by (metis prod.collapse)
  from follower_waits_out_lease [OF n1, of "sample_env ''a'' (14 * second)" no_network "()"] n1
  show ?thesis by (simp add: sample_node_def new_state_def sample_env_def sample_opts_def zero_time_def)
qed

text \<open>The term on disk is the term in memory. On a working disk that shows the node's term and leader, every
  tick and every received heartbeat ends with the disk showing the then current term and leader, so a
  restart resumes from them.\<close>

theorem persisted_term_tracks_memory:
  assumes "persisted n" "es_self_id (nd_state n) = eo_self_id eo"
  shows "persisted (fst (tick eo env post (n, w))) \<and> persisted (fst (on_heartbeat_received eo env n hb sender))"
proof
  have sh: "store_shows (nd_store n) (es_term (nd_state n)) (es_orchestrator (nd_state n))"
    using assms(1) by (simp add: persisted_shows)
  show "persisted (fst (tick eo env post (n, w)))"
  proof (cases rule: tick_cases [of eo env post n w])
    case (won c n1 n2 w' reason)
    have "store_shows (nd_store (win_election eo env n2 (es_term (nd_state n) + 1) reason))
        (es_term (nd_state n) + 1) (eo_self_id eo)"
      by (rule win_election_shows [of _ "es_term (nd_state n)" "es_orchestrator (nd_state n)"])
        (use won sh assms(2) in simp_all)
    with won assms(2) show ?thesis by (simp add: persisted_shows)
  next
    case (emit c n1 n2 w')
    then have "es_orchestrator (nd_state n) = es_self_id (nd_state n)" by (simp add: i_am_orchestrator_def)
    with emit sh show ?thesis by (simp add: persisted_shows)
  qed (use sh in \<open>auto simp: persisted_shows idle_change_def\<close>)
  show "persisted (fst (on_heartbeat_received eo env n hb sender))"
  proof (cases rule: on_heartbeat_cases [of eo env n hb sender])
    case (accepted n1)
    have "store_shows (nd_store n1) (hb_term hb) sender"
      using accepted(7) sh persist_term_shows [OF sh, of "hb_term hb" sender] by auto
    with accepted show ?thesis by (simp add: persisted_shows)
  qed (use sh in \<open>simp add: persisted_shows\<close>)
qed

theorem persisted_term_tracks_memory_witness:
  "persisted (fst (tick (sample_opts ''a'') (late_env ''a'') no_network (sample_node ''a'' [''a''], ())))"
  by (rule conjunct1, rule persisted_term_tracks_memory)
    (simp_all add: persisted_def sample_node_def new_state_def sample_clan_def empty_clan_def sample_opts_def)

text \<open>A leader renews its own lease whatever the network answers. A healthy Orchestrator that does not step
  down extends its lease by the full duration in every tick, in the same term, even when every heartbeat
  of the tick fails or is refused.\<close>

theorem leader_renews_whatever_the_answers:
  assumes "i_am_orchestrator (nd_state n) (te_now env)" "load_clan (nd_store n) = Inr (Some c)"
    and "\<not> steps_down eo env n" "te_healthy env"
  shows "let s = nd_state (fst (tick eo env post (n, w)))
    in es_term s = es_term (nd_state n) \<and> es_orchestrator s = es_self_id s \<and>
       es_lease_expires s = te_now env + eo_lease_duration eo"
proof (cases rule: tick_cases [of eo env post n w])
  case (idle m)
  with assms show ?thesis by blast
next
  case (emit d n1 n2 w')
  then show ?thesis by (simp add: Let_def)
qed (use assms in \<open>auto simp: may_elect_def\<close>)

theorem leader_renews_whatever_the_answers_witness:
  "let n = (sample_node ''a'' [''a'', ''b'', ''d''])\<lparr>nd_state :=
         fst (commit_self_election (new_state 0 ''a'' 3 ''a'' 32) 3 reason_bootstrap 1 (8 * second))\<rparr>
   in es_lease_expires (nd_state (fst (tick (sample_opts ''a'') (sample_env ''a'' (2 * second)) no_network (n, ())))) = 10 * second"
proof -
  let ?s = "fst (commit_self_election (new_state 0 ''a'' 3 ''a'' 32) 3 reason_bootstrap 1 (8 * second))"
  let ?n = "(sample_node ''a'' [''a'', ''b'', ''d''])\<lparr>nd_state := ?s\<rparr>"
  have "i_am_orchestrator (nd_state ?n) (te_now (sample_env ''a'' (2 * second)))"
    by (simp add: i_am_orchestrator_def sample_env_def commit_self_election_def new_state_def Let_def push_history_def zero_time_def)
  moreover have "load_clan (nd_store ?n) = Inr (Some (sample_clan [''a'', ''b'', ''d'']))"
    by (simp add: sample_node_def load_clan_def)
  moreover have "\<not> steps_down (sample_opts ''a'') (sample_env ''a'' (2 * second)) ?n" "te_healthy (sample_env ''a'' (2 * second))"
    by (simp_all add: steps_down_def sample_node_def load_clan_def sample_env_def sample_opts_def
        select_candidate_def orchestrator_candidates_def snapshot_def new_registry_def self_candidate_def
        no_candidate_def pick_orchestrator_def sort_slice_def Let_def)
  ultimately show ?thesis
    using leader_renews_whatever_the_answers [of ?n "sample_env ''a'' (2 * second)" "sample_clan [''a'', ''b'', ''d'']"
        "sample_opts ''a''" no_network "()"]
    by (simp add: Let_def sample_env_def sample_opts_def)
qed

text \<open>The answer to a heartbeat. The endpoint answers 401 without an authenticated sender, 400 when the
  message names another sender or clan, 409 when its term is older than ours or equal with a sender our
  own selection does not prefer, and 200 otherwise; a refusal changes nothing, an acceptance installs the
  sender as Orchestrator of the message's term with a lease counted from now and adopts its scribe.\<close>

theorem heartbeat_decision:
  fixes eo env syncs digest n hb sender
  defines "res \<equiv> handle_heartbeat eo env syncs digest n (Some hb) sender"
    and "cur \<equiv> es_term (nd_state n)"
  shows "fst (snd res) =
      (if sender = [] then 401
       else if hb_member_id hb \<noteq> sender \<or> hb_clan_id hb \<noteq> eo_clan_id eo then 400
       else if hb_term hb < cur \<or> hb_term hb = cur \<and> \<not> acceptable_sender env n sender then 409
       else 200) \<and>
    (if fst (snd res) = 200
     then (let s = nd_state (fst res)
           in es_term s = hb_term hb \<and> es_orchestrator s = sender \<and>
              es_lease_expires s = te_now env + eo_lease_duration eo \<and> es_scribe s = hb_scribe hb)
     else fst res = n)"
proof (cases "sender = []")
  case True
  then show ?thesis by (simp add: res_def handle_heartbeat_def)
next
  case False
  show ?thesis
  proof (cases rule: on_heartbeat_cases [of eo env n hb sender])
    case (refused e)
    with False show ?thesis by (auto simp: res_def cur_def handle_heartbeat_def)
  next
    case (accepted n1)
    with False show ?thesis by (auto simp: res_def cur_def handle_heartbeat_def Let_def)
  qed
qed

text \<open>A voter can back two leaders in one term. The answer to an election announcement depends on the term
  and on the voter's own selection, not on an earlier vote: after accepting a first sender for a higher
  term, the same voter accepts for the same term a second sender that its selection prefers.\<close>

theorem voter_backs_two_leaders:
  assumes "hb_member_id hb1 = x" "hb_clan_id hb1 = eo_clan_id eo" "es_term (nd_state n) < hb_term hb1" "x \<noteq> []"
    and "hb_member_id hb2 = y" "hb_clan_id hb2 = eo_clan_id eo" "hb_term hb2 = hb_term hb1" "y \<noteq> []"
    and "acceptable_sender env2 (fst (handle_heartbeat eo env1 syncs d n (Some hb1) x)) y"
  shows "fst (snd (handle_heartbeat eo env1 syncs d n (Some hb1) x)) = 200 \<and>
    fst (snd (handle_heartbeat eo env2 syncs d (fst (handle_heartbeat eo env1 syncs d n (Some hb1) x)) (Some hb2) y)) = 200"
proof (cases rule: on_heartbeat_cases [of eo env1 n hb1 x])
  case (refused e)
  with assms show ?thesis by auto
next
  case (accepted n1)
  let ?n = "fst (handle_heartbeat eo env1 syncs d n (Some hb1) x)"
  have "es_term (nd_state ?n) = hb_term hb2" "fst (snd (handle_heartbeat eo env1 syncs d n (Some hb1) x)) = 200"
    using accepted assms by (simp_all add: handle_heartbeat_def)
  moreover have "fst (snd (handle_heartbeat eo env2 syncs d ?n (Some hb2) y)) = 200"
  proof (cases rule: on_heartbeat_cases [of eo env2 ?n hb2 y])
    case (refused e)
    with assms calculation show ?thesis by auto
  next
    case (accepted n2)
    then show ?thesis using assms by (simp add: handle_heartbeat_def)
  qed
  ultimately show ?thesis by simp
qed

definition voter_node :: node where
  "voter_node = (sample_node ''v'' [''a'', ''b'', ''v''])\<lparr>nd_registry := two_peers\<rparr>"

lemma voter_prefers_b:
  "acceptable_sender (sample_env ''v'' 3)
     (fst (handle_heartbeat (sample_opts ''v'') (sample_env ''v'' 2) {} None voter_node (Some (sample_heartbeat ''a'' 1)) ''a'')) ''b''"
  by code_simp

theorem voter_backs_two_leaders_witness:
  "let r1 = handle_heartbeat (sample_opts ''v'') (sample_env ''v'' 2) {} None voter_node (Some (sample_heartbeat ''a'' 1)) ''a'';
       r2 = handle_heartbeat (sample_opts ''v'') (sample_env ''v'' 3) {} None (fst r1) (Some (sample_heartbeat ''b'' 1)) ''b''
   in fst (snd r1) = 200 \<and> fst (snd r2) = 200"
  using voter_backs_two_leaders [of "sample_heartbeat ''a'' 1" "''a''" "sample_opts ''v''" voter_node
      "sample_heartbeat ''b'' 1" "''b''" "sample_env ''v'' 3" "sample_env ''v'' 2" "{}" None] voter_prefers_b
  by (simp add: sample_heartbeat_def sample_opts_def voter_node_def sample_node_def new_state_def Let_def)

theorem heartbeat_decision_witness:
  "fst (snd (handle_heartbeat (sample_opts ''v'') (sample_env ''v'' 2) {} None voter_node (Some (sample_heartbeat ''a'' 1)) ''b'')) = 400"
  using heartbeat_decision [of "sample_opts ''v''" "sample_env ''v'' 2" "{}" None voter_node "sample_heartbeat ''a'' 1" "''b''"]
  by (simp add: sample_heartbeat_def)

end
