(* ===== verification/Base64.thy ===== *)
theory Base64
  imports Prelude
begin

text \<open>
  The uses the repository makes of Go's \<open>encoding/base64\<close>: \<open>StdEncoding\<close> (padded) for keys and
  ciphertexts, \<open>RawURLEncoding\<close> (unpadded) for invite tokens. Decoding skips carriage returns and line
  feeds and rejects every other foreign byte and a misplaced or missing padding, as the package does.
\<close>

definition b64_char :: "char \<Rightarrow> char \<Rightarrow> nat \<Rightarrow> char" where
  "b64_char c62 c63 d =
     (if d < 26 then char_of (65 + d) else if d < 52 then char_of (71 + d)
      else if d < 62 then char_of (d - 4) else if d = 62 then c62 else c63)"

definition b64_value :: "char \<Rightarrow> char \<Rightarrow> char \<Rightarrow> nat option" where
  "b64_value c62 c63 c =
     (let n = of_char c :: nat
      in if 65 \<le> n \<and> n \<le> 90 then Some (n - 65) else if 97 \<le> n \<and> n \<le> 122 then Some (n - 71)
         else if 48 \<le> n \<and> n \<le> 57 then Some (n + 4)
         else if c = c62 then Some 62 else if c = c63 then Some 63 else None)"

fun b64_encode :: "char \<Rightarrow> char \<Rightarrow> string \<Rightarrow> bytes \<Rightarrow> string" where
  "b64_encode p q pad [] = []"
| "b64_encode p q pad [a] =
     (let x = of_char a :: nat in [b64_char p q (x div 4), b64_char p q (x mod 4 * 16)] @ pad @ pad)"
| "b64_encode p q pad [a, b] =
     (let x = of_char a :: nat; y = of_char b
      in [b64_char p q (x div 4), b64_char p q (x mod 4 * 16 + y div 16), b64_char p q (y mod 16 * 4)] @ pad)"
| "b64_encode p q pad (a # b # c # s) =
     (let x = of_char a :: nat; y = of_char b; z = of_char c
      in [b64_char p q (x div 4), b64_char p q (x mod 4 * 16 + y div 16),
          b64_char p q (y mod 16 * 4 + z div 64), b64_char p q (z mod 64)] @ b64_encode p q pad s)"

definition std_encode :: "bytes \<Rightarrow> string" where "std_encode = b64_encode CHR ''+'' CHR ''/'' ''=''"
definition raw_url_encode :: "bytes \<Rightarrow> string" where "raw_url_encode = b64_encode CHR ''-'' CHR ''_'' []"

definition std_value :: "char \<Rightarrow> nat option" where "std_value = b64_value CHR ''+'' CHR ''/''"

fun std_decode_groups :: "string \<Rightarrow> bytes option" where
  "std_decode_groups [] = Some []"
| "std_decode_groups [a, b, c, d] =
     (case (std_value a, std_value b) of
        (Some w, Some x) \<Rightarrow>
          if c = CHR ''='' then (if d = CHR ''='' then Some [char_of (w * 4 + x div 16)] else None)
          else (case std_value c of
             None \<Rightarrow> None
           | Some y \<Rightarrow>
               if d = CHR ''='' then Some [char_of (w * 4 + x div 16), char_of (x mod 16 * 16 + y div 4)]
               else map_option (\<lambda>z. [char_of (w * 4 + x div 16), char_of (x mod 16 * 16 + y div 4),
                                     char_of (y mod 4 * 64 + z)]) (std_value d))
      | _ \<Rightarrow> None)"
| "std_decode_groups (a # b # c # d # e # s) =
     (case (std_value a, std_value b, std_value c, std_value d) of
        (Some w, Some x, Some y, Some z) \<Rightarrow>
          map_option (\<lambda>r. [char_of (w * 4 + x div 16), char_of (x mod 16 * 16 + y div 4),
                           char_of (y mod 4 * 64 + z)] @ r) (std_decode_groups (e # s))
      | _ \<Rightarrow> None)"
| "std_decode_groups s = None"

definition std_decode :: "string \<Rightarrow> bytes option" where
  "std_decode s = std_decode_groups (filter (\<lambda>c. c \<noteq> LF \<and> c \<noteq> CHR 0x0D) s)"

section \<open>Round trip\<close>

lemma of_char_of_small: "n < 256 \<Longrightarrow> (of_char (char_of (n :: nat)) :: nat) = n"
  by simp

lemma std_value_char: "d < 64 \<Longrightarrow> std_value (b64_char CHR ''+'' CHR ''/'' d) = Some d"
proof -
  assume d: "d < 64"
  consider "d < 26" | "26 \<le> d" "d < 52" | "52 \<le> d" "d < 62" | "d = 62" | "d = 63"
    using d by linarith
  then show ?thesis
  proof cases
    case 3
    then have "of_char (b64_char CHR ''+'' CHR ''/'' d) = d - 4" by (simp add: b64_char_def of_char_of_small)
    moreover have "48 \<le> d - 4" "d - 4 \<le> 57" "d - 4 + 4 = d" using 3 by arith+
    ultimately show ?thesis by (simp add: std_value_def b64_value_def Let_def)
  qed (simp_all add: std_value_def b64_value_def b64_char_def Let_def of_char_of_small)
qed

lemma std_value_special: "std_value CHR ''='' = None" "std_value LF = None" "std_value CHR 0x0D = None"
  by code_simp+

lemma b64_char_not_special:
  assumes "d < 64"
  shows "b64_char CHR ''+'' CHR ''/'' d \<noteq> CHR ''=''" "b64_char CHR ''+'' CHR ''/'' d \<noteq> LF"
    "b64_char CHR ''+'' CHR ''/'' d \<noteq> CHR 0x0D"
  using std_value_char [OF assms] std_value_special by (auto dest: arg_cong [of _ _ std_value])

lemma sextets:
  fixes x y z :: nat
  assumes "x < 256" "y < 256" "z < 256"
  shows "x div 4 < 64" "x mod 4 * 16 < 64" "x mod 4 * 16 + y div 16 < 64" "y mod 16 * 4 < 64"
    "y mod 16 * 4 + z div 64 < 64" "z mod 64 < 64"
    "x div 4 * 4 + x mod 4 * 16 div 16 = x" "x div 4 * 4 + (x mod 4 * 16 + y div 16) div 16 = x"
    "(x mod 4 * 16 + y div 16) mod 16 * 16 + y mod 16 * 4 div 4 = y"
    "(x mod 4 * 16 + y div 16) mod 16 * 16 + (y mod 16 * 4 + z div 64) div 4 = y"
    "(y mod 16 * 4 + z div 64) mod 4 * 64 + z mod 64 = z"
proof -
  define a b where "a = x div 4" and "b = x mod 4"
  define c d where "c = y div 16" and "d = y mod 16"
  define e f where "e = z div 64" and "f = z mod 64"
  have x: "x = 4 * a + b" "b < 4" "a < 64" and y: "y = 16 * c + d" "d < 16" "c < 16"
    and z: "z = 64 * e + f" "f < 64" "e < 4"
    using assms by (simp_all add: a_def b_def c_def d_def e_def f_def)
  show "x div 4 < 64" "x mod 4 * 16 < 64" "x mod 4 * 16 + y div 16 < 64" "y mod 16 * 4 < 64"
    "y mod 16 * 4 + z div 64 < 64" "z mod 64 < 64"
    "x div 4 * 4 + x mod 4 * 16 div 16 = x" "x div 4 * 4 + (x mod 4 * 16 + y div 16) div 16 = x"
    "(x mod 4 * 16 + y div 16) mod 16 * 16 + y mod 16 * 4 div 4 = y"
    "(x mod 4 * 16 + y div 16) mod 16 * 16 + (y mod 16 * 4 + z div 64) div 4 = y"
    "(y mod 16 * 4 + z div 64) mod 4 * 64 + z mod 64 = z"
    unfolding a_def [symmetric] b_def [symmetric] c_def [symmetric] d_def [symmetric] e_def [symmetric] f_def [symmetric]
    using x y z by simp_all
qed

lemma std_decode_groups_full:
  assumes "p < 64" "q < 64" "u < 64" "v < 64"
  shows "std_decode_groups (b64_char CHR ''+'' CHR ''/'' p # b64_char CHR ''+'' CHR ''/'' q #
      b64_char CHR ''+'' CHR ''/'' u # b64_char CHR ''+'' CHR ''/'' v # s) =
    map_option ((@) [char_of (p * 4 + q div 16), char_of (q mod 16 * 16 + u div 4), char_of (u mod 4 * 64 + v)])
      (std_decode_groups s)"
  by (cases s) (simp_all add: std_value_char b64_char_not_special assms comp_def append_def [symmetric])

lemma std_decode_groups_pad1:
  assumes "p < 64" "q < 64" "u < 64"
  shows "std_decode_groups [b64_char CHR ''+'' CHR ''/'' p, b64_char CHR ''+'' CHR ''/'' q,
      b64_char CHR ''+'' CHR ''/'' u, CHR ''=''] = Some [char_of (p * 4 + q div 16), char_of (q mod 16 * 16 + u div 4)]"
  by (simp add: std_value_char b64_char_not_special assms)

lemma std_decode_groups_pad2:
  assumes "p < 64" "q < 64"
  shows "std_decode_groups [b64_char CHR ''+'' CHR ''/'' p, b64_char CHR ''+'' CHR ''/'' q, CHR ''='', CHR ''='']
    = Some [char_of (p * 4 + q div 16)]"
  by (simp add: std_value_char assms)

lemma std_decode_groups_encode: "std_decode_groups (b64_encode CHR ''+'' CHR ''/'' ''='' s) = Some s"
proof (induction "CHR ''+''" "CHR ''/''" "''=''" s rule: b64_encode.induct)
  case 1
  show ?case by simp
next
  case (2 a)
  note sx = sextets [OF nat_of_char_less_256 [of a] nat_of_char_less_256 [of a] nat_of_char_less_256 [of a]]
  show ?case
    unfolding b64_encode.simps Let_def append_Cons append_Nil std_decode_groups_pad2 [OF sx(1,2)] sx(7) char_of_char ..
next
  case (3 a b)
  note sx = sextets [OF nat_of_char_less_256 [of a] nat_of_char_less_256 [of b] nat_of_char_less_256 [of a]]
  show ?case
    unfolding b64_encode.simps Let_def append_Cons append_Nil std_decode_groups_pad1 [OF sx(1,3,4)] sx(8,9) char_of_char ..
next
  case (4 a b c s)
  note sx = sextets [OF nat_of_char_less_256 [of a] nat_of_char_less_256 [of b] nat_of_char_less_256 [of c]]
  have IH: "std_decode_groups (b64_encode CHR ''+'' CHR ''/'' ''='' s) = Some s" by (rule 4) simp_all
  show ?case
    unfolding b64_encode.simps Let_def append_Cons append_Nil std_decode_groups_full [OF sx(1,3,5,6)] sx(8,10,11) char_of_char IH
    by simp
qed

lemma b64_encode_chars:
  "c \<in> set (b64_encode p q ''='' s) \<Longrightarrow> c = CHR ''='' \<or> (\<exists>d<64. c = b64_char p q d)"
proof (induction p q "''=''" s rule: b64_encode.induct)
  case (2 p q a)
  with sextets [OF nat_of_char_less_256 [of a] nat_of_char_less_256 [of a] nat_of_char_less_256 [of a]]
  show ?case unfolding b64_encode.simps Let_def by (simp only: set_append list.set) blast
next
  case (3 p q a b)
  with sextets [OF nat_of_char_less_256 [of a] nat_of_char_less_256 [of b] nat_of_char_less_256 [of a]]
  show ?case unfolding b64_encode.simps Let_def by (simp only: set_append list.set) blast
next
  case (4 p q a b c s)
  with sextets [OF nat_of_char_less_256 [of a] nat_of_char_less_256 [of b] nat_of_char_less_256 [of c]]
  show ?case unfolding b64_encode.simps Let_def by (simp only: set_append list.set) blast
qed simp

lemma std_encode_clean: "c \<in> set (std_encode s) \<Longrightarrow> c \<noteq> LF \<and> c \<noteq> CHR 0x0D"
  unfolding std_encode_def using b64_char_not_special by (auto dest!: b64_encode_chars)

lemma std_decode_encode [simp]: "std_decode (std_encode s) = Some s"
proof -
  have "filter (\<lambda>c. c \<noteq> LF \<and> c \<noteq> CHR 0x0D) (std_encode s) = std_encode s"
    by (rule filter_True) (use std_encode_clean in blast)
  then show ?thesis unfolding std_decode_def std_encode_def by (simp add: std_decode_groups_encode)
qed

end
