(* ===== verification/Invites.thy ===== *)
theory Invites
  imports Base64
begin

text \<open>
  \<open>cland/internal/membership/invite.go\<close>: the in-memory store of single-use invite tokens, and the
  interface it shares with the knock store and the key-rotation proposals: what has been taken once
  cannot be taken again.
\<close>

section \<open>Single use\<close>

text \<open>
  A store with operations \<open>'op\<close>, some of which \<open>mint\<close> an entry under a key and some of which \<open>win\<close> it.
  A win needs a live entry and leaves none behind; only minting brings a dead key back.
\<close>

locale single_use =
  fixes exec :: "'s \<Rightarrow> 'op \<Rightarrow> 's"
    and wins :: "'s \<Rightarrow> 'op \<Rightarrow> 'k \<Rightarrow> bool"
    and alive :: "'s \<Rightarrow> 'k \<Rightarrow> bool"
    and mints :: "'op \<Rightarrow> 'k \<Rightarrow> bool"
    and ok :: "'s \<Rightarrow> bool"
  assumes wins_alive: "wins s x k \<Longrightarrow> alive s k"
    and wins_spends: "wins s x k \<Longrightarrow> \<not> alive (exec s x) k"
    and dead_stays: "ok s \<Longrightarrow> \<not> alive s k \<Longrightarrow> \<not> mints x k \<Longrightarrow> \<not> alive (exec s x) k"
    and exec_ok: "ok s \<Longrightarrow> ok (exec s x)"
begin

fun win_count :: "'k \<Rightarrow> 's \<Rightarrow> 'op list \<Rightarrow> nat" where
  "win_count k s [] = 0"
| "win_count k s (x # xs) = (if wins s x k then 1 else 0) + win_count k (exec s x) xs"

lemma wins_bounded:
  "ok s \<Longrightarrow> win_count k s xs \<le> length (filter (\<lambda>x. mints x k) xs) + (if alive s k then 1 else 0)"
proof (induction xs arbitrary: s)
  case (Cons x xs)
  have IH: "win_count k (exec s x) xs \<le> length (filter (\<lambda>x. mints x k) xs) + (if alive (exec s x) k then 1 else 0)"
    by (intro Cons.IH exec_ok Cons.prems)
  show ?case
  proof (cases "wins s x k")
    case True
    then show ?thesis using IH wins_alive wins_spends by auto
  next
    case False
    then show ?thesis using IH dead_stays [OF Cons.prems, of k x] by (auto split: if_splits)
  qed
qed simp

text \<open>The count as a set of positions in the run, for statements outside the locale.\<close>

definition win_positions :: "'k \<Rightarrow> 's \<Rightarrow> 'op list \<Rightarrow> nat list" where
  "win_positions k s xs = filter (\<lambda>i. wins (foldl exec s (take i xs)) (xs ! i) k) [0..<length xs]"

lemma length_win_positions: "length (win_positions k s xs) = win_count k s xs"
proof (induction xs arbitrary: s)
  case (Cons x xs)
  have "length (win_positions k s (x # xs)) =
      (if wins s x k then 1 else 0) + length (win_positions k (exec s x) xs)"
    by (simp add: win_positions_def upt_conv_Cons del: upt_Suc)
      (simp add: map_Suc_upt [symmetric] filter_map comp_def del: upt_Suc)
  then show ?case using Cons.IH [of "exec s x"] by simp
qed (simp add: win_positions_def)

lemma positions_bounded:
  "ok s \<Longrightarrow> length (filter (\<lambda>i. wins (foldl exec s (take i xs)) (xs ! i) k) [0..<length xs]) \<le>
     length (filter (\<lambda>x. mints x k) xs) + (if alive s k then 1 else 0)"
  using length_win_positions [of k s xs] wins_bounded [of s k xs]
  by (simp add: win_positions_def)

lemma run_ok: "ok s \<Longrightarrow> ok (foldl exec s xs)"
  by (induction xs arbitrary: s) (simp_all add: exec_ok)

end

section \<open>The invite store\<close>

record invite_token =
  it_token :: string
  it_clan_id :: string
  it_issued_by :: member_id
  it_issued_at :: time
  it_expires_at :: time

type_synonym invite_store = "(string \<times> invite_token) list"

datatype invite_error = ErrInviteUnknown | ErrInviteExpired | ErrInviteTTL | ErrInviteRand

definition invite_ttl_min :: duration where "invite_ttl_min = 60 * second"
definition invite_ttl_max :: duration where "invite_ttl_max = 24 * hour"

text \<open>\<open>rand\<close> is what \<open>rand.Read\<close> delivers: 32 bytes, or \<open>None\<close> when it fails.\<close>

definition issue :: "bytes option \<Rightarrow> time \<Rightarrow> invite_store \<Rightarrow> string \<Rightarrow> member_id \<Rightarrow> duration
    \<Rightarrow> invite_store \<times> (invite_error + invite_token)" where
  "issue rand now s clan_id issued_by ttl =
     (if ttl < invite_ttl_min \<or> ttl > invite_ttl_max then (s, Inl ErrInviteTTL)
      else case rand of
        None \<Rightarrow> (s, Inl ErrInviteRand)
      | Some b \<Rightarrow>
          let tok = \<lparr>it_token = raw_url_encode b, it_clan_id = clan_id, it_issued_by = issued_by,
                     it_issued_at = now, it_expires_at = now + ttl\<rparr>
          in (AList.update (it_token tok) tok s, Inr tok))"

definition redeem :: "time \<Rightarrow> invite_store \<Rightarrow> string \<Rightarrow> invite_store \<times> (invite_error + invite_token)" where
  "redeem now s token =
     (case map_of s token of
        None \<Rightarrow> (s, Inl ErrInviteUnknown)
      | Some tok \<Rightarrow>
          if now > it_expires_at tok then (AList.delete token s, Inl ErrInviteExpired)
          else (AList.delete token s, Inr tok))"

definition invite_sweep :: "time \<Rightarrow> invite_store \<Rightarrow> invite_store \<times> nat" where
  "invite_sweep now s =
     (filter (\<lambda>(k, t). \<not> now > it_expires_at t) s, length (filter (\<lambda>(k, t). now > it_expires_at t) s))"

definition invite_size :: "invite_store \<Rightarrow> nat" where
  "invite_size s = length s"

datatype invite_op =
    IssueOp "bytes option" time string member_id duration
  | RedeemOp time string
  | InviteSweepOp time

definition invite_exec :: "invite_store \<Rightarrow> invite_op \<Rightarrow> invite_store" where
  "invite_exec s x =
     (case x of
        IssueOp rand now c i ttl \<Rightarrow> fst (issue rand now s c i ttl)
      | RedeemOp now token \<Rightarrow> fst (redeem now s token)
      | InviteSweepOp now \<Rightarrow> fst (invite_sweep now s))"

definition invite_wins :: "invite_store \<Rightarrow> invite_op \<Rightarrow> string \<Rightarrow> bool" where
  "invite_wins s x k =
     (case x of RedeemOp now token \<Rightarrow> token = k \<and> (\<exists>t. snd (redeem now s token) = Inr t) | _ \<Rightarrow> False)"

definition invite_alive :: "invite_store \<Rightarrow> string \<Rightarrow> bool" where
  "invite_alive s k \<longleftrightarrow> k \<in> keys s"

definition invite_mints :: "invite_op \<Rightarrow> string \<Rightarrow> bool" where
  "invite_mints x k =
     (case x of IssueOp (Some b) now c i ttl \<Rightarrow> raw_url_encode b = k | _ \<Rightarrow> False)"

lemma keys_update [simp]: "keys (AList.update k v m) = insert k (keys m)"
  by (induction m) auto

lemma keys_delete [simp]: "keys (AList.delete k m) = keys m - {k}"
  by (auto simp: AList.delete_eq)

lemma keys_filter: "keys (filter P m) \<subseteq> keys m"
  by auto

interpretation invites: single_use invite_exec invite_wins invite_alive invite_mints "\<lambda>_. True"
proof
  fix s x k
  assume w: "invite_wins s x k"
  then obtain now t where x: "x = RedeemOp now k" "snd (redeem now s k) = Inr t"
    by (auto simp: invite_wins_def split: invite_op.splits)
  then obtain tok where "map_of s k = Some tok"
    by (auto simp: redeem_def split: option.splits)
  with x show "invite_alive s k" "\<not> invite_alive (invite_exec s x) k"
    by (auto simp: invite_alive_def invite_exec_def redeem_def dest: map_of_key)
next
  fix s k x
  assume "\<not> invite_alive s k" "\<not> invite_mints x k"
  then show "\<not> invite_alive (invite_exec s x) k"
    by (cases x) (auto simp: invite_alive_def invite_exec_def invite_mints_def issue_def redeem_def Let_def
        invite_sweep_def split: option.splits)
qed simp

lemma redeem_success:
  "redeem now s token = (s', Inr tok) \<Longrightarrow>
     map_of s token = Some tok \<and> s' = AList.delete token s \<and> now \<le> it_expires_at tok"
  by (auto simp: redeem_def split: option.splits if_splits)

text \<open>Every stored token is filed under its own text and lives between one minute and a day.\<close>

definition invites_ok :: "invite_store \<Rightarrow> bool" where
  "invites_ok s \<longleftrightarrow> wf_map s \<and>
     map_all (\<lambda>k t. it_token t = k \<and> it_issued_at t + 60 * second \<le> it_expires_at t
                \<and> it_expires_at t \<le> it_issued_at t + 24 * hour) s"

lemma invite_exec_ok: "invites_ok s \<Longrightarrow> invites_ok (invite_exec s x)"
  by (cases x) (auto simp: invites_ok_def invite_exec_def issue_def redeem_def invite_sweep_def Let_def
      invite_ttl_min_def invite_ttl_max_def split: option.splits)

section \<open>Properties\<close>

text \<open>Invite tokens are single use. In any interleaving of issuing, redeeming and sweeping on a store, the
  number of successful redemptions of a token is at most the number of times it was issued (plus one if
  it was in the store to begin with); a token issued once is redeemed at most once.\<close>

theorem invite_redeemed_at_most_once:
  "length (filter (\<lambda>i. invite_wins (foldl invite_exec s (take i xs)) (xs ! i) k) [0..<length xs])
     \<le> length (filter (\<lambda>x. invite_mints x k) xs) + (if k \<in> keys s then 1 else 0)"
  using invites.positions_bounded [of s xs k] by (simp add: invite_alive_def)

text \<open>Only a live token admits. Whatever was done to a store that started empty, a redemption that
  succeeds returns the entry filed under the presented text, no later than its expiry, which lies between
  60 seconds and 24 hours after its issue; the token is gone from the store afterwards and a second
  redemption is refused as unknown.\<close>

theorem redeemed_invite_is_live:
  assumes "redeem now (foldl invite_exec [] xs) token = (s', Inr tok)"
  shows "it_token tok = token \<and> now \<le> it_expires_at tok \<and>
    it_issued_at tok + 60 * second \<le> it_expires_at tok \<and> it_expires_at tok \<le> it_issued_at tok + 24 * hour \<and>
    redeem later s' token = (s', Inl ErrInviteUnknown)"
proof -
  have "invites_ok s" if "invites_ok s0" "s = foldl invite_exec s0 xs" for s s0
    using that by (induction xs arbitrary: s0) (auto simp: invite_exec_ok)
  then have ok: "invites_ok (foldl invite_exec [] xs)" by (auto simp: invites_ok_def)
  from redeem_success [OF assms] have m: "map_of (foldl invite_exec [] xs) token = Some tok"
    and s': "s' = AList.delete token (foldl invite_exec [] xs)" "now \<le> it_expires_at tok" by simp_all
  from ok m have "it_token tok = token \<and> it_issued_at tok + 60 * second \<le> it_expires_at tok \<and>
      it_expires_at tok \<le> it_issued_at tok + 24 * hour"
    unfolding invites_ok_def by (auto dest: map_all_lookup)
  moreover have "map_of s' token = None" using s'(1) by (simp add: delete_conv')
  ultimately show ?thesis using s'(2) by (simp add: redeem_def)
qed

theorem redeemed_invite_is_live_witness:
  "redeem 9 (fst (redeem 5 (foldl invite_exec [] [IssueOp (Some ''secret'') 1 ''c'' ''a'' hour]) (raw_url_encode ''secret'')))
     (raw_url_encode ''secret'') = ([], Inl ErrInviteUnknown)"
proof -
  have "redeem 5 (foldl invite_exec [] [IssueOp (Some ''secret'') 1 ''c'' ''a'' hour]) (raw_url_encode ''secret'') =
    ([], Inr \<lparr>it_token = raw_url_encode ''secret'', it_clan_id = ''c'', it_issued_by = ''a'', it_issued_at = 1,
       it_expires_at = 1 + hour\<rparr>)"
    by (simp add: invite_exec_def issue_def invite_ttl_min_def invite_ttl_max_def redeem_def Let_def)
  with redeemed_invite_is_live [OF this, of 9] show ?thesis by simp
qed

end
