(* ===== verification/Knocks.thy ===== *)
theory Knocks
  imports Invites
begin

unbundle bit_operations_syntax

text \<open>
  The receiver side of \<open>cland/internal/membership/knock.go\<close>: the rate-limited store of pending knocks,
  whose entries are decided by compare-and-swap, and the short authentication string both screens show.
  X25519 and HKDF are parameters.
\<close>

section \<open>Data\<close>

record pending_knock =
  pk_knock_id :: string
  pk_clan_id :: string
  pk_joiner_id :: member_id
  pk_joiner_pub :: string
  pk_derived_key :: bytes
  pk_derived_nonce :: bytes
  pk_knock_id_bytes :: bytes
  pk_sas :: string
  pk_joiner_address :: string
  pk_expires_at :: time
  pk_state :: string

datatype knock_error = ErrKnockNotFound | ErrKnockExpired | ErrKnockNotPending | ErrKnockRateLimit

definition knock_ttl :: duration where "knock_ttl = 5 * minute"
definition knock_rate_per_src :: nat where "knock_rate_per_src = 10"
definition knock_rate_per_clan :: nat where "knock_rate_per_clan = 30"
definition knock_rate_window :: duration where "knock_rate_window = 60 * second"

section \<open>The fixed-window bucket\<close>

record rl_bucket =
  rb_count :: nat
  rb_window_end :: time

definition new_bucket :: rl_bucket where
  "new_bucket = \<lparr>rb_count = 0, rb_window_end = zero_time\<rparr>"

definition bucket_allow :: "rl_bucket \<Rightarrow> nat \<Rightarrow> duration \<Rightarrow> time \<Rightarrow> rl_bucket \<times> bool" where
  "bucket_allow b limit window now =
     (let b = (if now > rb_window_end b then \<lparr>rb_count = 0, rb_window_end = now + window\<rparr> else b)
      in if rb_count b \<ge> limit then (b, False) else (b\<lparr>rb_count := rb_count b + 1\<rparr>, True))"

section \<open>The store\<close>

record knock_store =
  ks_knocks :: "(string \<times> pending_knock) list"
  ks_src :: "string \<Rightarrow> rl_bucket"
  ks_clan :: "string \<Rightarrow> rl_bucket"

definition new_knock_store :: knock_store where
  "new_knock_store = \<lparr>ks_knocks = [], ks_src = (\<lambda>_. new_bucket), ks_clan = (\<lambda>_. new_bucket)\<rparr>"

definition knock_put :: "time \<Rightarrow> knock_store \<Rightarrow> pending_knock \<Rightarrow> string \<Rightarrow> knock_store \<times> knock_error option" where
  "knock_put now s pk source_ip =
     (case bucket_allow (ks_src s source_ip) knock_rate_per_src knock_rate_window now of
        (b, ok) \<Rightarrow>
          let s1 = s\<lparr>ks_src := (ks_src s)(source_ip := b)\<rparr>
          in if \<not> ok then (s1, Some ErrKnockRateLimit)
             else (case bucket_allow (ks_clan s1 (pk_clan_id pk)) knock_rate_per_clan knock_rate_window now of
                     (c, ok) \<Rightarrow>
                       let s2 = s1\<lparr>ks_clan := (ks_clan s1)(pk_clan_id pk := c)\<rparr>
                       in if \<not> ok then (s2, Some ErrKnockRateLimit)
                          else (s2\<lparr>ks_knocks := AList.update (pk_knock_id pk) pk (ks_knocks s2)\<rparr>, None)))"

definition knock_list :: "time \<Rightarrow> knock_store \<Rightarrow> pending_knock list" where
  "knock_list now s =
     map snd (filter (\<lambda>(_, pk). \<not> now > pk_expires_at pk \<and> pk_state pk = ''pending'') (ks_knocks s))"

definition consume :: "time \<Rightarrow> knock_store \<Rightarrow> string \<Rightarrow> string \<Rightarrow> knock_store \<times> (knock_error + pending_knock)" where
  "consume now s knock_id target_state =
     (case map_of (ks_knocks s) knock_id of
        None \<Rightarrow> (s, Inl ErrKnockNotFound)
      | Some pk \<Rightarrow>
          if now > pk_expires_at pk
          then (s\<lparr>ks_knocks := AList.delete knock_id (ks_knocks s)\<rparr>, Inl ErrKnockExpired)
          else if pk_state pk \<noteq> ''pending'' then (s, Inl ErrKnockNotPending)
          else let pk1 = pk\<lparr>pk_state := target_state\<rparr>
               in (s\<lparr>ks_knocks := AList.update knock_id pk1 (ks_knocks s)\<rparr>, Inr pk1))"

definition knock_sweep :: "time \<Rightarrow> knock_store \<Rightarrow> knock_store \<times> nat" where
  "knock_sweep now s =
     (let dead = (\<lambda>(k, pk). now > pk_expires_at pk \<or> pk_state pk \<noteq> ''pending'')
      in (s\<lparr>ks_knocks := filter (\<lambda>e. \<not> dead e) (ks_knocks s)\<rparr>, length (filter dead (ks_knocks s))))"

section \<open>Key derivation and the short authentication string\<close>

text \<open>
  \<open>bundle\<close> is the 48 bytes HKDF yields. The four bytes after the key, read big-endian and masked to 30
  bits, are shown modulo 10^9 as nine digits split 4-5.
\<close>

definition be32 :: "bytes \<Rightarrow> 32 word" where
  "be32 bs = foldl (\<lambda>w c. push_bit 8 w OR word_of_nat (of_char c)) 0 bs"

definition sas_of_bundle :: "bytes \<Rightarrow> string" where
  "sas_of_bundle bundle =
     (let n = unat (be32 (take 4 (drop 32 bundle)) AND 0x3FFFFFFF) mod 1000000000;
          s = dec_nat n;
          s = replicate (9 - length s) CHR ''0'' @ s
      in take 4 s @ ''-'' @ drop 4 s)"

definition derive_knock_bundle ::
  "(bytes \<Rightarrow> bytes \<Rightarrow> bytes option) \<Rightarrow> (bytes \<Rightarrow> bytes \<Rightarrow> bytes \<Rightarrow> bytes) \<Rightarrow> bytes \<Rightarrow> bytes \<Rightarrow> string \<Rightarrow>
     bytes \<Rightarrow> bytes \<Rightarrow> bytes \<Rightarrow> (bytes \<times> bytes \<times> string) option" where
  "derive_knock_bundle x25519 hkdf my_priv peer_pub clan_id knock_id joiner_pub receiver_pub =
     (case x25519 my_priv peer_pub of
        None \<Rightarrow> None
      | Some shared \<Rightarrow>
          let bundle = hkdf shared ''minti-knock-v1'' (clan_id @ knock_id @ joiner_pub @ receiver_pub)
          in Some (take 32 bundle, take 12 (drop 32 bundle), sas_of_bundle bundle))"

section \<open>Runs\<close>

datatype knock_op =
    KnockPutOp time pending_knock string
  | ConsumeOp time string string
  | KnockSweepOp time

definition knock_exec :: "knock_store \<Rightarrow> knock_op \<Rightarrow> knock_store" where
  "knock_exec s x =
     (case x of
        KnockPutOp now pk ip \<Rightarrow> fst (knock_put now s pk ip)
      | ConsumeOp now i target \<Rightarrow> fst (consume now s i target)
      | KnockSweepOp now \<Rightarrow> fst (knock_sweep now s))"

definition knock_wins :: "knock_store \<Rightarrow> knock_op \<Rightarrow> string \<Rightarrow> bool" where
  "knock_wins s x k =
     (case x of ConsumeOp now i target \<Rightarrow> i = k \<and> target \<noteq> ''pending'' \<and> (\<exists>pk. snd (consume now s i target) = Inr pk)
      | _ \<Rightarrow> False)"

definition knock_pending :: "knock_store \<Rightarrow> string \<Rightarrow> bool" where
  "knock_pending s k \<longleftrightarrow> (\<exists>pk. map_of (ks_knocks s) k = Some pk \<and> pk_state pk = ''pending'')"

text \<open>Storing a knock, or a swap back to pending (which the code never asks for), revives its id.\<close>

definition knock_mints :: "knock_op \<Rightarrow> string \<Rightarrow> bool" where
  "knock_mints x k =
     (case x of KnockPutOp now pk ip \<Rightarrow> pk_knock_id pk = k
      | ConsumeOp now i target \<Rightarrow> i = k \<and> target = ''pending'' | _ \<Rightarrow> False)"

definition knocks_ok :: "knock_store \<Rightarrow> bool" where
  "knocks_ok s \<longleftrightarrow> wf_map (ks_knocks s)"

lemma knock_put_knocks:
  "ks_knocks (fst (knock_put now s pk ip)) \<in> {ks_knocks s, AList.update (pk_knock_id pk) pk (ks_knocks s)}"
  by (auto simp: knock_put_def Let_def split: prod.splits)

lemma map_of_sweep:
  "map_of (filter P m) k = Some v \<Longrightarrow> wf_map m \<Longrightarrow> map_of m k = Some v"
  by (metis (no_types, lifting) filter_is_subset map_of_SomeD map_of_is_SomeI subsetD wf_map_def)

lemma consume_cases:
  obtains (lost) e where "consume now s i t = (s, Inl e)" "\<not> knock_pending s i \<or> e = ErrKnockExpired"
  | (expired) "consume now s i t = (s\<lparr>ks_knocks := AList.delete i (ks_knocks s)\<rparr>, Inl ErrKnockExpired)"
  | (won) pk where "map_of (ks_knocks s) i = Some pk" "pk_state pk = ''pending''" "now \<le> pk_expires_at pk"
      "consume now s i t = (s\<lparr>ks_knocks := AList.update i (pk\<lparr>pk_state := t\<rparr>) (ks_knocks s)\<rparr>, Inr (pk\<lparr>pk_state := t\<rparr>))"
proof (cases "map_of (ks_knocks s) i")
  case None
  then show thesis by (intro lost [of ErrKnockNotFound]) (simp_all add: consume_def knock_pending_def)
next
  case (Some pk)
  consider "pk_expires_at pk < now" | "now \<le> pk_expires_at pk" "pk_state pk \<noteq> ''pending''"
    | "now \<le> pk_expires_at pk" "pk_state pk = ''pending''" by fastforce
  then show thesis
  proof cases
    case 1 with Some show thesis by (intro expired) (simp add: consume_def)
  next
    case 2 with Some show thesis by (intro lost [of ErrKnockNotPending]) (simp_all add: consume_def knock_pending_def)
  next
    case 3 with Some show thesis by (intro won [of pk]) (simp_all add: consume_def Let_def)
  qed
qed

lemma knock_exec_ok: "knocks_ok s \<Longrightarrow> knocks_ok (knock_exec s x)"
proof (cases x)
  case (KnockPutOp now pk ip)
  then show "knocks_ok s \<Longrightarrow> ?thesis" using knock_put_knocks [of now s pk ip] by (auto simp: knocks_ok_def knock_exec_def)
next
  case (ConsumeOp now i t)
  then show "knocks_ok s \<Longrightarrow> ?thesis"
    by (cases rule: consume_cases [of now s i t]) (simp_all add: knocks_ok_def knock_exec_def)
next
  case (KnockSweepOp now)
  then show "knocks_ok s \<Longrightarrow> ?thesis" by (simp add: knocks_ok_def knock_exec_def knock_sweep_def Let_def)
qed

lemma knock_put_dead:
  "\<not> knock_pending s k \<Longrightarrow> pk_knock_id pk \<noteq> k \<Longrightarrow> \<not> knock_pending (fst (knock_put now s pk ip)) k"
  using knock_put_knocks [of now s pk ip] by (auto simp: knock_pending_def update_conv')

lemma consume_dead:
  "\<not> knock_pending s k \<Longrightarrow> i \<noteq> k \<or> t \<noteq> ''pending'' \<Longrightarrow> \<not> knock_pending (fst (consume now s i t)) k"
  by (cases rule: consume_cases [of now s i t])
    (auto simp: knock_pending_def update_conv' delete_conv' restrict_map_def split: if_splits)

interpretation knocks: single_use knock_exec knock_wins knock_pending knock_mints knocks_ok
proof
  fix s x k
  assume "knock_wins s x k"
  then obtain now t pk where x: "x = ConsumeOp now k t" "t \<noteq> ''pending''" "snd (consume now s k t) = Inr pk"
    by (auto simp: knock_wins_def split: knock_op.splits)
  then show "knock_pending s k" "\<not> knock_pending (knock_exec s x) k"
    by (cases rule: consume_cases [of now s k t]; auto simp: knock_pending_def knock_exec_def update_conv')+
next
  fix s x k
  assume "knocks_ok s" "\<not> knock_pending s k" "\<not> knock_mints x k"
  then show "\<not> knock_pending (knock_exec s x) k"
  proof (cases x)
    case (KnockSweepOp now)
    with \<open>knocks_ok s\<close> \<open>\<not> knock_pending s k\<close> show ?thesis
      by (auto simp: knock_exec_def knock_sweep_def knock_pending_def Let_def knocks_ok_def dest: map_of_sweep)
  qed (auto simp: knock_exec_def knock_mints_def knock_put_dead consume_dead)
qed (rule knock_exec_ok)

text \<open>The authentication string: nine digits in two groups.\<close>

lemma length_dec_nat: "0 < k \<Longrightarrow> n < 10 ^ k \<Longrightarrow> length (dec_nat n) \<le> k"
proof (induction n arbitrary: k rule: dec_nat.induct)
  case (1 n)
  show ?case
  proof (cases "n < 10")
    case True
    then show ?thesis using "1.prems" by (simp add: dec_nat.simps [of n])
  next
    case False
    then obtain j where k: "k = Suc j" "0 < j" using "1.prems"
      by (cases k; cases "k - 1") auto
    have "n div 10 < 10 ^ j" using "1.prems"(2) k by (simp add: less_mult_imp_div_less)
    with "1.IH" [OF False k(2)] k False show ?thesis by (simp add: dec_nat.simps [of n])
  qed
qed

section \<open>Properties\<close>

text \<open>A knock is decided once. In any interleaving of storing, deciding and sweeping on a well-formed
  store, the decisions (to a state other than pending) that succeed for a knock id are at most as many as
  the knocks stored under that id, plus one if it was pending before: of two operators who accept or deny
  the same knock, one is refused.\<close>

theorem knock_decided_at_most_once:
  assumes "knocks_ok s" "\<forall>now k. ConsumeOp now k ''pending'' \<notin> set xs"
  shows "length (filter (\<lambda>i. knock_wins (foldl knock_exec s (take i xs)) (xs ! i) k) [0..<length xs])
    \<le> length (filter (\<lambda>x. \<exists>now pk ip. x = KnockPutOp now pk ip \<and> pk_knock_id pk = k) xs)
      + (if knock_pending s k then 1 else 0)"
proof -
  have "filter (\<lambda>x. knock_mints x k) xs = filter (\<lambda>x. \<exists>now pk ip. x = KnockPutOp now pk ip \<and> pk_knock_id pk = k) xs"
    using assms(2) by (intro filter_cong) (auto simp: knock_mints_def split: knock_op.splits)
  then show ?thesis using knocks.positions_bounded [OF assms(1), of xs k] by simp
qed

definition sample_knock :: "string \<Rightarrow> pending_knock" where
  "sample_knock i = \<lparr>pk_knock_id = i, pk_clan_id = ''c'', pk_joiner_id = ''j'', pk_joiner_pub = ''p'',
     pk_derived_key = [], pk_derived_nonce = [], pk_knock_id_bytes = [], pk_sas = [], pk_joiner_address = ''h'',
     pk_expires_at = hour, pk_state = ''pending''\<rparr>"

theorem knock_decided_at_most_once_witness:
  "length (filter (\<lambda>i. knock_wins (foldl knock_exec new_knock_store
       (take i [KnockPutOp 1 (sample_knock ''k'') ''ip'', ConsumeOp 2 ''k'' ''accepted'', ConsumeOp 3 ''k'' ''denied'']))
       ([KnockPutOp 1 (sample_knock ''k'') ''ip'', ConsumeOp 2 ''k'' ''accepted'', ConsumeOp 3 ''k'' ''denied''] ! i) ''k'')
     [0..<length [KnockPutOp 1 (sample_knock ''k'') ''ip'', ConsumeOp 2 ''k'' ''accepted'', ConsumeOp 3 ''k'' ''denied'']])
   \<le> 1"
  by (rule order_trans [OF knock_decided_at_most_once])
    (auto simp: knocks_ok_def new_knock_store_def knock_pending_def)

text \<open>The authentication string is nine decimal digits shown as four, a dash and five, whatever bytes the
  key derivation yields.\<close>

theorem sas_shape:
  "length (sas_of_bundle b) = 10 \<and> sas_of_bundle b ! 4 = CHR ''-'' \<and>
   (\<forall>i<10. i \<noteq> 4 \<longrightarrow> 48 \<le> (of_char (sas_of_bundle b ! i) :: nat) \<and> (of_char (sas_of_bundle b ! i) :: nat) < 58)"
proof -
  define s where "s = (let s = dec_nat (unat (be32 (take 4 (drop 32 b)) AND 0x3FFFFFFF) mod 1000000000)
    in replicate (9 - length s) CHR ''0'' @ s)"
  have "length (dec_nat (unat (be32 (take 4 (drop 32 b)) AND 0x3FFFFFFF) mod 1000000000)) \<le> 9"
    by (rule length_dec_nat) simp_all
  then have len: "length s = 9" by (simp add: s_def Let_def)
  have digits: "\<forall>c\<in>set s. 48 \<le> (of_char c :: nat) \<and> (of_char c :: nat) < 58"
    by (auto simp: s_def Let_def dest: dec_nat_chars)
  have sas: "sas_of_bundle b = take 4 s @ CHR ''-'' # drop 4 s" by (simp add: sas_of_bundle_def s_def Let_def)
  have "48 \<le> (of_char (sas_of_bundle b ! i) :: nat) \<and> (of_char (sas_of_bundle b ! i) :: nat) < 58"
    if "i < 10" "i \<noteq> 4" for i
  proof (cases "i < 4")
    case True
    with len digits show ?thesis by (simp add: sas nth_append)
  next
    case False
    define j where "j = i - 5"
    from False that have "i = Suc (4 + j)" "j < 5" unfolding j_def by arith+
    with len digits show ?thesis by (simp add: sas nth_append)
  qed
  with len show ?thesis by (simp add: sas nth_append)
qed

end
