(* ===== verification/Bip39.thy ===== *)
theory Bip39
  imports Prelude
begin

text \<open>
  \<open>cland/internal/bip39/bip39.go\<close>: 16-byte seeds as 12-word mnemonics with a 4-bit checksum. The word
  list (an embedded data file of 2048 words) and SHA-256 are the parameters \<open>wl\<close> and \<open>sha\<close>. Bit strings
  are lists of 0 and 1, most significant first; filling \<open>bits[w*11+b]\<close> in order is appending.
\<close>

section \<open>Bits\<close>

definition seed_bytes :: nat where "seed_bytes = 16"
definition mnemonic_words :: nat where "mnemonic_words = 12"

definition bit_at :: "bytes \<Rightarrow> nat \<Rightarrow> nat" where
  "bit_at b i = of_char (b ! (i div 8)) div 2 ^ (7 - i mod 8) mod 2"

text \<open>\<open>idx = (idx << 1) | bit\<close> over a slice, and back: \<open>(idx >> (n-1-b)) & 1\<close>.\<close>

definition num_of_bits :: "nat list \<Rightarrow> nat" where
  "num_of_bits bs = foldl (\<lambda>n b. 2 * n + b) 0 bs"

definition bits_of_num :: "nat \<Rightarrow> nat \<Rightarrow> nat list" where
  "bits_of_num n x = map (\<lambda>b. x div 2 ^ (n - 1 - b) mod 2) [0..<n]"

datatype bip39_error = SeedLength | WordCount | UnknownWord string nat | ChecksumMismatch

section \<open>Encoding\<close>

definition seed_bits :: "(bytes \<Rightarrow> bytes) \<Rightarrow> bytes \<Rightarrow> nat list" where
  "seed_bits sha seed = map (bit_at seed) [0..<128] @ map (bit_at (sha seed)) [0..<4]"

definition mnemonic_from_seed :: "string list \<Rightarrow> (bytes \<Rightarrow> bytes) \<Rightarrow> bytes \<Rightarrow> bip39_error + string" where
  "mnemonic_from_seed wl sha seed =
     (if length seed \<noteq> seed_bytes then Inl SeedLength
      else let bits = seed_bits sha seed;
               words = map (\<lambda>w. wl ! num_of_bits (take 11 (drop (w * 11) bits))) [0..<mnemonic_words]
           in Inr (join CHR '' '' words))"

section \<open>Decoding\<close>

text \<open>\<open>strings.Fields\<close> and \<open>strings.TrimSpace\<close> on ASCII text.\<close>

definition is_space :: "char \<Rightarrow> bool" where
  "is_space c \<longleftrightarrow> c \<in> {CHR '' '', CHR 0x09, CHR 0x0A, CHR 0x0B, CHR 0x0C, CHR 0x0D}"

definition trim_space :: "string \<Rightarrow> string" where
  "trim_space s = rev (dropWhile is_space (rev (dropWhile is_space s)))"

fun fields_from :: "string \<Rightarrow> string \<Rightarrow> string list" where
  "fields_from w [] = (if w = [] then [] else [w])"
| "fields_from w (c # s) =
     (if is_space c then (if w = [] then [] else [w]) @ fields_from [] s else fields_from (w @ [c]) s)"

definition fields :: "string \<Rightarrow> string list" where "fields s = fields_from [] s"

text \<open>\<open>wordIndex\<close>: the last position of a word in the list (duplicates overwrite).\<close>

fun index_from :: "nat \<Rightarrow> string list \<Rightarrow> string \<Rightarrow> nat option" where
  "index_from n [] w = None"
| "index_from n (x # xs) w = (case index_from (Suc n) xs w of Some i \<Rightarrow> Some i | None \<Rightarrow> if x = w then Some n else None)"

definition word_index :: "string list \<Rightarrow> string \<Rightarrow> nat option" where
  "word_index wl w = index_from 0 wl w"

fun words_bits :: "string list \<Rightarrow> nat \<Rightarrow> string list \<Rightarrow> bip39_error + nat list" where
  "words_bits wl n [] = Inr []"
| "words_bits wl n (w # ws) =
     (case word_index wl w of
        None \<Rightarrow> Inl (UnknownWord w (n + 1))
      | Some idx \<Rightarrow> (case words_bits wl (n + 1) ws of Inl e \<Rightarrow> Inl e | Inr bs \<Rightarrow> Inr (bits_of_num 11 idx @ bs)))"

definition bytes_of_bits :: "nat list \<Rightarrow> bytes" where
  "bytes_of_bits bits = map (\<lambda>j. char_of (num_of_bits (take 8 (drop (j * 8) bits)))) [0..<seed_bytes]"

definition seed_from_mnemonic :: "string list \<Rightarrow> (bytes \<Rightarrow> bytes) \<Rightarrow> string \<Rightarrow> bip39_error + bytes" where
  "seed_from_mnemonic wl sha mnemonic =
     (let words = fields (to_lower (trim_space mnemonic))
      in if length words \<noteq> mnemonic_words then Inl WordCount
         else case words_bits wl 0 words of
           Inl e \<Rightarrow> Inl e
         | Inr bits \<Rightarrow>
             let seed = bytes_of_bits bits
             in if map (bit_at (sha seed)) [0..<4] \<noteq> map (\<lambda>i. bits ! (128 + i)) [0..<4]
                then Inl ChecksumMismatch else Inr seed)"

section \<open>Bits and numbers\<close>

definition bitstring :: "nat list \<Rightarrow> bool" where
  "bitstring bs \<longleftrightarrow> set bs \<subseteq> {0, 1}"

lemma num_of_bits_snoc: "num_of_bits (bs @ [b]) = 2 * num_of_bits bs + b"
  by (simp add: num_of_bits_def)

lemma bits_of_num_Suc: "bits_of_num (Suc n) x = bits_of_num n (x div 2) @ [x mod 2]"
proof -
  have "x div 2 ^ (n - b) mod 2 = x div 2 div 2 ^ (n - Suc b) mod 2" if "b < n" for b
  proof -
    have "n - b = Suc (n - Suc b)" using that by simp
    then show ?thesis by (simp add: div_mult2_eq)
  qed
  then show ?thesis by (simp add: bits_of_num_def)
qed

lemma length_bits_of_num [simp]: "length (bits_of_num n x) = n"
  by (simp add: bits_of_num_def)

lemma num_of_bits_of_num: "num_of_bits (bits_of_num n x) = x mod 2 ^ n"
proof (induction n arbitrary: x)
  case (Suc n)
  have "2 * (x div 2 mod 2 ^ n) + x mod 2 = x mod 2 ^ Suc n"
    using mod_mult2_eq [of x 2 "2 ^ n"] by simp
  with Suc show ?case by (simp add: bits_of_num_Suc num_of_bits_snoc)
qed (simp add: num_of_bits_def bits_of_num_def)

lemma bits_of_num_of_bits: "bitstring bs \<Longrightarrow> bits_of_num (length bs) (num_of_bits bs) = bs"
proof (induction bs rule: rev_induct)
  case (snoc b bs)
  then have "b < 2" "bitstring bs" by (auto simp: bitstring_def)
  with snoc show ?case by (simp add: num_of_bits_snoc bits_of_num_Suc)
qed (simp add: bits_of_num_def)

lemma num_of_bits_less: "bitstring bs \<Longrightarrow> num_of_bits bs < 2 ^ length bs"
proof (induction bs rule: rev_induct)
  case (snoc b bs)
  then have "b < 2" "bitstring bs" by (auto simp: bitstring_def)
  with snoc show ?case by (simp add: num_of_bits_snoc)
qed (simp add: num_of_bits_def)

lemma chunks_concat:
  "length xs = n * k \<Longrightarrow> concat (map (\<lambda>j. take k (drop (j * k) xs)) [0..<n]) = xs"
proof (induction n arbitrary: xs)
  case (Suc n)
  have "concat (map (\<lambda>j. take k (drop (j * k) (take (n * k) xs))) [0..<n]) = take (n * k) xs"
    using Suc.prems by (intro Suc.IH) simp
  moreover have "take k (drop (j * k) (take (n * k) xs)) = take k (drop (j * k) xs)" if "j < n" for j
  proof -
    have "k \<le> n * k - j * k" using that by (metis Suc_leI diff_mult_distrib le_add1 mult_le_mono1 nat_mult_1 plus_1_eq_Suc le_diff_conv2 less_imp_le add.commute)
    then show ?thesis by (simp add: drop_take min_absorb1)
  qed
  ultimately have "concat (map (\<lambda>j. take k (drop (j * k) xs)) [0..<n]) = take (n * k) xs"
    by (metis (no_types, lifting) atLeastLessThan_iff atLeast_upt map_eq_conv set_upt)
  moreover have "take k (drop (n * k) xs) = drop (n * k) xs" using Suc.prems by simp
  ultimately show ?case by simp
qed simp

lemma bit_at_byte: "j < length b \<Longrightarrow> map (bit_at b) [j * 8..<Suc j * 8] = bits_of_num 8 (of_char (b ! j))"
  by (auto simp: bit_at_def bits_of_num_def intro!: nth_equalityI)

lemma byte_bits: "n \<le> length b \<Longrightarrow> map (bit_at b) [0..<n * 8] = concat (map (\<lambda>j. bits_of_num 8 (of_char (b ! j))) [0..<n])"
proof (induction n)
  case (Suc n)
  have "[0..<Suc n * 8] = [0..<n * 8] @ [n * 8..<Suc n * 8]"
    by (metis add.commute le_add1 le_add2 mult_Suc upt_add_eq_append zero_le)
  with Suc bit_at_byte [of n b] show ?case by simp
qed simp

lemma take_drop_concat:
  "(\<And>x. length (f x) = k) \<Longrightarrow> j < length xs \<Longrightarrow> take k (drop (j * k) (concat (map f xs))) = f (xs ! j)"
proof (induction xs arbitrary: j)
  case (Cons x xs)
  then show ?case by (cases j) auto
qed simp

lemma bytes_of_seed_bits:
  assumes "length seed = 16"
  shows "bytes_of_bits (map (bit_at seed) [0..<128] @ r) = seed"
proof (rule nth_equalityI)
  show "length (bytes_of_bits (map (bit_at seed) [0..<128] @ r)) = length seed"
    using assms by (simp add: bytes_of_bits_def seed_bytes_def)
  fix j assume "j < length (bytes_of_bits (map (bit_at seed) [0..<128] @ r))"
  then have j: "j < 16" by (simp add: bytes_of_bits_def seed_bytes_def)
  have bits: "map (bit_at seed) [0..<128] = concat (map (\<lambda>j. bits_of_num 8 (of_char (seed ! j))) [0..<16])"
    using byte_bits [of 16 seed] assms by simp
  have "take 8 (drop (j * 8) (map (bit_at seed) [0..<128] @ r)) = take 8 (drop (j * 8) (map (bit_at seed) [0..<128]))"
    using j by simp
  also have "\<dots> = bits_of_num 8 (of_char (seed ! j))"
    unfolding bits using j take_drop_concat [of "\<lambda>j. bits_of_num 8 (of_char (seed ! j))" 8 j "[0..<16]"] by simp
  finally have "num_of_bits (take 8 (drop (j * 8) (map (bit_at seed) [0..<128] @ r))) = of_char (seed ! j) mod 2 ^ 8"
    by (simp add: num_of_bits_of_num)
  also have "\<dots> = of_char (seed ! j)" by simp
  finally show "bytes_of_bits (map (bit_at seed) [0..<128] @ r) ! j = seed ! j"
    using j by (simp add: bytes_of_bits_def seed_bytes_def)
qed

lemma bitstring_seed_bits: "bitstring (seed_bits sha seed)"
  by (auto simp: bitstring_def seed_bits_def bit_at_def)

lemma length_seed_bits [simp]: "length (seed_bits sha seed) = 132"
  by (simp add: seed_bits_def)

section \<open>Words\<close>

definition wordlist_ok :: "string list \<Rightarrow> bool" where
  "wordlist_ok wl \<longleftrightarrow> length wl = 2048 \<and> distinct wl \<and>
     (\<forall>w\<in>set wl. w \<noteq> [] \<and> (\<forall>c\<in>set w. \<not> is_space c \<and> lower_char c = c))"

lemma index_from_nth:
  "distinct wl \<Longrightarrow> i < length wl \<Longrightarrow> index_from n wl (wl ! i) = Some (n + i)"
proof (induction wl arbitrary: n i)
  case (Cons x wl)
  have none: "w \<notin> set wl \<Longrightarrow> index_from m wl w = None" for w m by (induction wl arbitrary: m) auto
  show ?case
  proof (cases i)
    case 0
    with Cons.prems none [of x] show ?thesis by simp
  next
    case (Suc j)
    with Cons show ?thesis by simp
  qed
qed simp

lemma fields_from_word: "\<forall>c\<in>set w. \<not> is_space c \<Longrightarrow> fields_from v (w @ s) = fields_from (v @ w) s"
  by (induction w arbitrary: v) simp_all

lemma fields_join:
  assumes "\<forall>w\<in>set ws. w \<noteq> [] \<and> (\<forall>c\<in>set w. \<not> is_space c)"
  shows "fields (join CHR '' '' ws) = ws"
proof -
  have "fields_from [] (join CHR '' '' ws) = ws"
    using assms
  proof (induction "CHR '' ''" ws rule: join.induct)
    case (2 x)
    then show ?case using fields_from_word [of x "[]" "[]"] by simp
  next
    case (3 x y ys)
    then show ?case
      using fields_from_word [of x "[]" "CHR '' '' # join CHR '' '' (y # ys)"] by (simp add: is_space_def)
  qed simp
  then show ?thesis by (simp add: fields_def)
qed

lemma to_lower_join:
  "\<forall>w\<in>set ws. \<forall>c\<in>set w. lower_char c = c \<Longrightarrow> to_lower (join CHR '' '' ws) = join CHR '' '' ws"
proof (induction "CHR '' ''" ws rule: join.induct)
  case (2 x)
  then show ?case by (simp add: to_lower_def map_idI)
next
  case (3 x y ys)
  then have "map lower_char x = x" by (simp add: map_idI)
  with 3 show ?case by (simp add: to_lower_def lower_char_def [of "CHR '' ''"])
qed (simp add: to_lower_def)

lemma join_first:
  "ws \<noteq> [] \<Longrightarrow> \<forall>w\<in>set ws. w \<noteq> [] \<and> (\<forall>c\<in>set w. \<not> is_space c) \<Longrightarrow>
     join CHR '' '' ws \<noteq> [] \<and> \<not> is_space (hd (join CHR '' '' ws)) \<and> \<not> is_space (last (join CHR '' '' ws))"
proof (induction ws)
  case (Cons w ws)
  then show ?case by (cases "ws = []") (auto simp: join_Cons_cases hd_append)
qed simp

lemma trim_space_id: "s \<noteq> [] \<Longrightarrow> \<not> is_space (hd s) \<Longrightarrow> \<not> is_space (last s) \<Longrightarrow> trim_space s = s"
proof -
  assume s: "s \<noteq> []" "\<not> is_space (hd s)" "\<not> is_space (last s)"
  then have "dropWhile is_space s = s" by (cases s) auto
  moreover have "dropWhile is_space (rev s) = rev s" using s by (cases "rev s") (auto simp: last_rev hd_rev)
  ultimately show ?thesis by (simp add: trim_space_def)
qed

lemma words_bits_nth:
  assumes "wordlist_ok wl" "\<forall>i\<in>set ks. i < 2048"
  shows "words_bits wl n (map (\<lambda>i. wl ! i) ks) = Inr (concat (map (bits_of_num 11) ks))"
  using assms(2)
proof (induction ks arbitrary: n)
  case (Cons i ks)
  then have "word_index wl (wl ! i) = Some i"
    using assms(1) index_from_nth [of wl i 0] by (simp add: word_index_def wordlist_ok_def)
  with Cons show ?case by simp
qed simp

lemma mnemonic_decodes:
  assumes "wordlist_ok wl" "length seed = 16"
  shows "\<exists>m. mnemonic_from_seed wl sha seed = Inr m \<and> seed_from_mnemonic wl sha m = Inr seed"
proof -
  let ?bits = "seed_bits sha seed"
  let ?chunk = "\<lambda>w. take 11 (drop (w * 11) ?bits)"
  let ?is = "map (\<lambda>w. num_of_bits (?chunk w)) [0..<12]"
  let ?ws = "map (\<lambda>i. wl ! i) ?is"
  have chunk: "bitstring (?chunk w) \<and> length (?chunk w) = 11" if "w < 12" for w
    using that bitstring_seed_bits [of sha seed] by (auto simp: bitstring_def dest: in_set_takeD in_set_dropD)
  then have small: "\<forall>i\<in>set ?is. i < 2048"
    using num_of_bits_less by fastforce
  have ws: "\<forall>w\<in>set ?ws. w \<noteq> [] \<and> (\<forall>c\<in>set w. \<not> is_space c \<and> lower_char c = c)"
  proof
    fix w assume "w \<in> set ?ws"
    then obtain i where i: "i \<in> set ?is" "w = wl ! i" unfolding set_map by blast
    have "length wl = 2048" using assms(1) by (simp add: wordlist_ok_def)
    with small i(1) have "i < length wl" by (simp only:)
    then have "w \<in> set wl" unfolding i(2) by (rule nth_mem)
    with assms(1) show "w \<noteq> [] \<and> (\<forall>c\<in>set w. \<not> is_space c \<and> lower_char c = c)" by (simp add: wordlist_ok_def)
  qed
  have inv: "bits_of_num 11 (num_of_bits (?chunk w)) = ?chunk w" if "w < 12" for w
    using bits_of_num_of_bits [OF conjunct1 [OF chunk [OF that]]] unfolding conjunct2 [OF chunk [OF that]] .
  have "map (bits_of_num 11) ?is = map ?chunk [0..<12]"
    unfolding map_map comp_def
  proof (rule map_cong [OF refl])
    fix w assume "w \<in> set [0..<12::nat]"
    then have "w < 12" by simp
    then show "bits_of_num 11 (num_of_bits (?chunk w)) = ?chunk w" by (rule inv)
  qed
  then have "concat (map (bits_of_num 11) ?is) = concat (map ?chunk [0..<12])" by (rule arg_cong)
  also have "\<dots> = ?bits" by (rule chunks_concat) simp
  finally have bits: "words_bits wl 0 ?ws = Inr ?bits" by (simp only: words_bits_nth [OF assms(1) small])
  let ?m = "join CHR '' '' ?ws"
  have enc: "mnemonic_from_seed wl sha seed = Inr ?m"
    using assms(2) by (simp add: mnemonic_from_seed_def seed_bytes_def mnemonic_words_def Let_def comp_def del: upt_rec_numeral)
  have "trim_space ?m = ?m" using join_first [of ?ws] ws by (intro trim_space_id) (simp_all del: upt_rec_numeral)
  moreover have "to_lower ?m = ?m" using ws by (intro to_lower_join) blast
  moreover have "fields ?m = ?ws" using ws by (intro fields_join) blast
  ultimately have words: "fields (to_lower (trim_space ?m)) = ?ws" by simp
  have seed: "bytes_of_bits ?bits = seed"
    unfolding seed_bits_def by (rule bytes_of_seed_bits [OF assms(2)])
  have check: "map (\<lambda>i. ?bits ! (128 + i)) [0..<4] = map (bit_at (sha seed)) [0..<4]"
    by (simp add: seed_bits_def nth_append)
  have "seed_from_mnemonic wl sha ?m = Inr seed"
    unfolding seed_from_mnemonic_def Let_def words bits sum.case seed check by (simp add: mnemonic_words_def)
  with enc show ?thesis by blast
qed

definition sample_word :: "nat \<Rightarrow> string" where
  "sample_word i = [char_of (97 + i div 676), char_of (97 + i div 26 mod 26), char_of (97 + i mod 26)]"

definition sample_wordlist :: "string list" where
  "sample_wordlist = map sample_word [0..<2048]"

lemma sample_letter:
  fixes d :: nat
  assumes "d < 26"
  shows "\<not> is_space (char_of (97 + d)) \<and> lower_char (char_of (97 + d)) = char_of (97 + d)"
proof -
  have "\<forall>d\<in>set [0..<26]. \<not> is_space (char_of (97 + d)) \<and> lower_char (char_of (97 + d :: nat)) = char_of (97 + d)"
    by code_simp
  with assms show ?thesis by simp
qed

lemma sample_word_inj: "i < 2048 \<Longrightarrow> j < 2048 \<Longrightarrow> sample_word i = sample_word j \<Longrightarrow> i = j"
proof -
  assume i: "i < 2048" "j < 2048" and e: "sample_word i = sample_word j"
  have code: "97 + d < 256" "of_char (char_of (97 + d)) = 97 + d" if "d < 26" for d :: nat
    using that by simp_all
  have b: "i div 676 < 26" "j div 676 < 26" "i div 26 mod 26 < 26" "j div 26 mod 26 < 26" "i mod 26 < 26" "j mod 26 < 26"
    using i by auto
  have d: "x = y" if "x < 26" "y < 26" "char_of (97 + x) = (char_of (97 + y) :: char)" for x y :: nat
    using arg_cong [OF that(3), of "of_char :: char \<Rightarrow> nat"] code(2) [OF that(1)] code(2) [OF that(2)] by simp
  from e have "i div 676 = j div 676" "i div 26 mod 26 = j div 26 mod 26" "i mod 26 = j mod 26"
    using d [OF b(1,2)] d [OF b(3,4)] d [OF b(5,6)] by (simp_all add: sample_word_def)
  then have "i div 26 div 26 = j div 26 div 26" "i div 26 mod 26 = j div 26 mod 26" "i mod 26 = j mod 26"
    by (simp_all add: div_mult2_eq [of _ 26 26, simplified, symmetric])
  then show "i = j" by (metis div_mult_mod_eq)
qed

lemma sample_wordlist_ok: "wordlist_ok sample_wordlist"
proof -
  have "inj_on sample_word {0..<2048}" using sample_word_inj by (auto intro: inj_onI)
  then have "distinct sample_wordlist"
    unfolding sample_wordlist_def distinct_map by (simp del: upt_rec_numeral)
  moreover have "\<forall>w\<in>set sample_wordlist. w \<noteq> [] \<and> (\<forall>c\<in>set w. \<not> is_space c \<and> lower_char c = c)"
  proof
    fix w assume "w \<in> set sample_wordlist"
    then obtain i where "i < 2048" "w = sample_word i"
      unfolding sample_wordlist_def set_map set_upt by auto
    moreover from this have "i div 676 < 26" by (simp add: less_mult_imp_div_less)
    ultimately show "w \<noteq> [] \<and> (\<forall>c\<in>set w. \<not> is_space c \<and> lower_char c = c)"
      using sample_letter by (simp add: sample_word_def)
  qed
  moreover have "length sample_wordlist = 2048" by (simp add: sample_wordlist_def del: upt_rec_numeral)
  ultimately show ?thesis by (simp add: wordlist_ok_def)
qed

section \<open>Properties\<close>

text \<open>C24: Mnemonics round-trip. With a word list of 2048 distinct lower-case words and any hash function, the
  mnemonic of a 16-byte seed decodes back to exactly that seed, so founder and joiner derive the same
  clan key from it.\<close>

theorem mnemonic_round_trip:
  assumes "wordlist_ok wl" "length seed = 16"
  shows "\<exists>m. mnemonic_from_seed wl sha seed = Inr m \<and> seed_from_mnemonic wl sha m = Inr seed"
  using assms by (rule mnemonic_decodes)

theorem mnemonic_round_trip_witness:
  "\<exists>m. mnemonic_from_seed sample_wordlist rev ''0123456789abcdef'' = Inr m \<and>
     seed_from_mnemonic sample_wordlist rev m = Inr ''0123456789abcdef''"
  by (rule mnemonic_round_trip [OF sample_wordlist_ok]) simp

end
