(* ===== verification/Membership.thy ===== *)
theory Membership
  imports Knocks Bip39 ClanState
begin

text \<open>
  \<open>cland/internal/membership\<close>: founding a clan (\<open>membership.go\<close>), the operations of the membership
  service (\<open>service.go\<close>, \<open>knock.go\<close>) and their endpoints (\<open>handlers.go\<close>, \<open>knock_handlers.go\<close>). The
  service state is the store, the two token stores, the audit log and the \<open>OnEvent\<close> calls made.
  Random bytes, clock readings, HKDF, X25519, AES-GCM, certificate generation and the delivery request
  to a joiner are arguments.
\<close>

section \<open>Founding\<close>

record identity =
  id_member :: member_id
  id_pub_key :: string
  id_private_key :: bytes

record paste_key =
  pa_clan_id :: string
  pa_mnemonic :: string
  pa_address :: string
  pa_pin :: string

datatype create_error = CreateListenAddr | CreateRand | CreateMnemonic bip39_error | CreateDerive
  | CreateCert | CreateSave store_error

definition set_clan_key :: "clan \<Rightarrow> bytes \<Rightarrow> clan" where
  "set_clan_key c key = c\<lparr>cl_key_b64 := std_encode key\<rparr>"

definition set_clan_cert_priv_key :: "clan \<Rightarrow> bytes \<Rightarrow> clan" where
  "set_clan_cert_priv_key c priv = c\<lparr>cl_cert_priv_b64 := std_encode priv\<rparr>"

text \<open>\<open>ClanKey\<close>: nil when unaffiliated; the decode error is dropped, what decoded before it is kept.\<close>

definition clan_key :: "clan option \<Rightarrow> bytes" where
  "clan_key c =
     (case c of None \<Rightarrow> []
      | Some c \<Rightarrow> if cl_key_b64 c = [] then [] else (case std_decode (cl_key_b64 c) of None \<Rightarrow> [] | Some k \<Rightarrow> k))"

definition derive_clan_key :: "(bytes \<Rightarrow> bytes \<Rightarrow> bytes \<Rightarrow> bytes) \<Rightarrow> bytes \<Rightarrow> bytes option" where
  "derive_clan_key hkdf seed =
     (if length seed \<noteq> seed_bytes then None else Some (take 32 (hkdf seed ''minti-clan-key'' ''v1'')))"

definition create_clan ::
  "string list \<Rightarrow> (bytes \<Rightarrow> bytes) \<Rightarrow> (bytes \<Rightarrow> bytes \<Rightarrow> bytes \<Rightarrow> bytes) \<Rightarrow> (bytes \<Rightarrow> (string \<times> string) option) \<Rightarrow>
     bytes option \<Rightarrow> bytes option \<Rightarrow> time \<Rightarrow> store \<Rightarrow> identity \<Rightarrow> string \<Rightarrow> store \<times> (create_error + paste_key)" where
  "create_clan wl sha hkdf gen_cert seed_rand uuid_rand now s idn listen_addr =
     (if listen_addr = [] then (s, Inl CreateListenAddr)
      else case seed_rand of
        None \<Rightarrow> (s, Inl CreateRand)
      | Some seed \<Rightarrow>
          (case mnemonic_from_seed wl sha seed of
             Inl e \<Rightarrow> (s, Inl (CreateMnemonic e))
           | Inr mnemonic \<Rightarrow>
               (case derive_clan_key hkdf seed of
                  None \<Rightarrow> (s, Inl CreateDerive)
                | Some key \<Rightarrow>
                    (case uuid_rand of
                       None \<Rightarrow> (s, Inl CreateRand)
                     | Some u \<Rightarrow>
                         (case gen_cert (id_private_key idn) of
                            None \<Rightarrow> (s, Inl CreateCert)
                          | Some (pem, pin) \<Rightarrow>
                              let c = empty_clan\<lparr>cl_id := uuid_of u, cl_cert_pem := pem, cl_cert_pin := pin,
                                        cl_role := ''founder'', cl_joined_at := now,
                                        cl_roster := [\<lparr>rm_id = id_member idn, rm_pub_key = id_pub_key idn,
                                          rm_state = ''active'', rm_admitted_at = now, rm_last_seen_at = now\<rparr>]\<rparr>;
                                  c = set_clan_cert_priv_key (set_clan_key c key) (id_private_key idn)
                              in (case save_clan s (Some c) of
                                    (s1, Some e) \<Rightarrow> (s1, Inl (CreateSave e))
                                  | (s1, None) \<Rightarrow>
                                      (s1, Inr \<lparr>pa_clan_id = uuid_of u, pa_mnemonic = mnemonic,
                                                pa_address = listen_addr, pa_pin = pin\<rparr>)))))))"

definition pre_join_via_mnemonic ::
  "string list \<Rightarrow> (bytes \<Rightarrow> bytes) \<Rightarrow> (bytes \<Rightarrow> bytes \<Rightarrow> bytes \<Rightarrow> bytes) \<Rightarrow> string \<Rightarrow> create_error + bytes \<times> bytes" where
  "pre_join_via_mnemonic wl sha hkdf mnemonic =
     (case seed_from_mnemonic wl sha mnemonic of
        Inl e \<Rightarrow> Inl (CreateMnemonic e)
      | Inr seed \<Rightarrow> (case derive_clan_key hkdf seed of None \<Rightarrow> Inl CreateDerive | Some key \<Rightarrow> Inr (key, seed)))"

section \<open>The service\<close>

datatype membership_error =
    FieldsRequired | NotInClan | StoreFailed store_error | ClanChanged | MemberNotInRoster
  | InviteFailed invite_error | KnockFailed knock_error | ErrKnockClanID | KnockBadKey | KnockRand
  | KnockDerive | SealFailed | DeliverFailed

record service =
  sv_store :: store
  sv_invites :: invite_store
  sv_knocks :: knock_store
  sv_listen_addr :: string
  sv_audit :: "audit_event list"
  sv_events :: "(string \<times> member_id) list"

record join_response =
  jr_clan_id :: string
  jr_clan_key_b64 :: string
  jr_cert_pem :: string
  jr_cert_priv_b64 :: string
  jr_roster :: "roster_member list"

definition zombie_max_age :: duration where "zombie_max_age = 24 * hour"

definition log_audit :: "string \<Rightarrow> string \<Rightarrow> string \<Rightarrow> service \<Rightarrow> service" where
  "log_audit tool decision reason s = s\<lparr>sv_audit := sv_audit s @ [Audit tool decision reason]\<rparr>"

definition fire_event :: "string \<Rightarrow> member_id \<Rightarrow> service \<Rightarrow> service" where
  "fire_event kind i s = s\<lparr>sv_events := sv_events s @ [(kind, i)]\<rparr>"

text \<open>\<open>LoadClan\<close> followed by \<open>IsActive\<close>.\<close>

definition active_clan :: "service \<Rightarrow> membership_error + clan" where
  "active_clan s =
     (case load_clan (sv_store s) of
        Inl e \<Rightarrow> Inl (StoreFailed e)
      | Inr c \<Rightarrow> if \<not> is_active c then Inl NotInClan else (case c of None \<Rightarrow> Inl NotInClan | Some c \<Rightarrow> Inr c))"

definition store_clan :: "service \<Rightarrow> clan \<Rightarrow> service \<times> membership_error option" where
  "store_clan s c = (case save_clan (sv_store s) (Some c) of (st, e) \<Rightarrow> (s\<lparr>sv_store := st\<rparr>, map_option StoreFailed e))"

fun upsert_roster :: "roster_member list \<Rightarrow> roster_member \<Rightarrow> roster_member list" where
  "upsert_roster [] m = [m]"
| "upsert_roster (x # xs) m = (if rm_id x = rm_id m then m # xs else x # upsert_roster xs m)"

definition admitted_member :: "time \<Rightarrow> member_id \<Rightarrow> string \<Rightarrow> roster_member" where
  "admitted_member now i pub =
     \<lparr>rm_id = i, rm_pub_key = pub, rm_state = ''admitted'', rm_admitted_at = now, rm_last_seen_at = now\<rparr>"

definition issue_invite ::
  "bytes option \<Rightarrow> time \<Rightarrow> service \<Rightarrow> member_id \<Rightarrow> duration \<Rightarrow> service \<times> (membership_error + invite_token \<times> string \<times> string)" where
  "issue_invite rand now s issuer ttl =
     (case active_clan s of
        Inl e \<Rightarrow> (s, Inl e)
      | Inr c \<Rightarrow>
          (case issue rand now (sv_invites s) (cl_id c) issuer ttl of
             (tks, Inl e) \<Rightarrow> (s\<lparr>sv_invites := tks\<rparr>, Inl (InviteFailed e))
           | (tks, Inr tok) \<Rightarrow>
               (log_audit ''membership.invite'' ''allow'' [] (s\<lparr>sv_invites := tks\<rparr>),
                Inr (tok, cl_cert_pin c, sv_listen_addr s))))"

definition redeem_invite ::
  "time \<Rightarrow> time \<Rightarrow> service \<Rightarrow> string \<Rightarrow> member_id \<Rightarrow> string \<Rightarrow> service \<times> (membership_error + join_response)" where
  "redeem_invite now later s token i pub =
     (if token = [] \<or> i = [] \<or> pub = [] then (s, Inl FieldsRequired)
      else case redeem now (sv_invites s) token of
        (tks, Inl e) \<Rightarrow>
          (log_audit ''membership.join_token'' ''deny'' [] (s\<lparr>sv_invites := tks\<rparr>), Inl (InviteFailed e))
      | (tks, Inr tok) \<Rightarrow>
          let s1 = s\<lparr>sv_invites := tks\<rparr>
          in (case load_clan (sv_store s1) of
                Inl e \<Rightarrow> (s1, Inl (StoreFailed e))
              | Inr None \<Rightarrow> (s1, Inl ClanChanged)
              | Inr (Some c) \<Rightarrow>
                  if \<not> is_active (Some c) \<or> cl_id c \<noteq> it_clan_id tok then (s1, Inl ClanChanged)
                  else
                    let updated = upsert_roster (cl_roster c) (admitted_member later i pub);
                        c1 = c\<lparr>cl_roster := updated\<rparr>
                    in (case store_clan s1 c1 of
                          (s2, Some e) \<Rightarrow> (s2, Inl e)
                        | (s2, None) \<Rightarrow>
                            (fire_event ''member_joined'' i (log_audit ''membership.join_token'' ''allow'' [] s2),
                             Inr \<lparr>jr_clan_id = cl_id c1, jr_clan_key_b64 = cl_key_b64 c1,
                                  jr_cert_pem = cl_cert_pem c1, jr_cert_priv_b64 = cl_cert_priv_b64 c1,
                                  jr_roster = updated\<rparr>))))"

text \<open>\<open>Welcome\<close> returns no clan key: the joiner derived it from the mnemonic.\<close>

definition welcome_joiner :: "time \<Rightarrow> service \<Rightarrow> member_id \<Rightarrow> string \<Rightarrow> service \<times> (membership_error + join_response)" where
  "welcome_joiner now s i pub =
     (if i = [] \<or> pub = [] then (s, Inl FieldsRequired)
      else case active_clan s of
        Inl e \<Rightarrow> (s, Inl e)
      | Inr c \<Rightarrow>
          let updated = upsert_roster (cl_roster c) (admitted_member now i pub);
              c1 = c\<lparr>cl_roster := updated\<rparr>
          in (case store_clan s c1 of
                (s2, Some e) \<Rightarrow> (s2, Inl e)
              | (s2, None) \<Rightarrow>
                  (fire_event ''member_joined'' i (log_audit ''membership.welcome'' ''allow'' [] s2),
                   Inr \<lparr>jr_clan_id = cl_id c1, jr_clan_key_b64 = [], jr_cert_pem = cl_cert_pem c1,
                        jr_cert_priv_b64 = cl_cert_priv_b64 c1, jr_roster = updated\<rparr>)))"

definition members :: "service \<Rightarrow> membership_error + roster_member list" where
  "members s = (case active_clan s of Inl e \<Rightarrow> Inl e | Inr c \<Rightarrow> Inr (cl_roster c))"

definition leave :: "service \<Rightarrow> service \<times> membership_error option" where
  "leave s =
     (case active_clan s of
        Inl e \<Rightarrow> (s, Some e)
      | Inr c \<Rightarrow>
          (case store_clan s empty_clan of
             (s1, Some e) \<Rightarrow> (s1, Some e)
           | (s1, None) \<Rightarrow> (log_audit ''membership.leave'' ''allow'' [] s1, None)))"

text \<open>The loop of \<open>Revoke\<close> over the roster: the first entry of the member is marked, its key hashed.\<close>

definition short_hash_hex :: "(bytes \<Rightarrow> bytes) \<Rightarrow> string \<Rightarrow> string" where
  "short_hash_hex sha b64 = (case std_decode b64 of Some raw \<Rightarrow> hex_encode (sha raw) | None \<Rightarrow> hex_encode (sha b64))"

fun mark_revoked :: "(bytes \<Rightarrow> bytes) \<Rightarrow> roster_member list \<Rightarrow> member_id \<Rightarrow> roster_member list \<times> string" where
  "mark_revoked sha [] i = ([], [])"
| "mark_revoked sha (m # ms) i =
     (if rm_id m = i then (m\<lparr>rm_state := ''revoked''\<rparr> # ms, ''sha256:'' @ short_hash_hex sha (rm_pub_key m))
      else (case mark_revoked sha ms i of (ms', h) \<Rightarrow> (m # ms', h)))"

definition revoke ::
  "(bytes \<Rightarrow> bytes) \<Rightarrow> time \<Rightarrow> service \<Rightarrow> member_id \<Rightarrow> string \<Rightarrow> member_id \<Rightarrow> service \<times> membership_error option" where
  "revoke sha now s i reason revoker =
     (if i = [] then (s, Some FieldsRequired)
      else case active_clan s of
        Inl e \<Rightarrow> (s, Some e)
      | Inr c \<Rightarrow>
          (case mark_revoked sha (cl_roster c) i of
             (roster, pub_hash) \<Rightarrow>
               if pub_hash = [] then (s, Some MemberNotInRoster)
               else (case store_clan s (c\<lparr>cl_roster := roster\<rparr>) of
                       (s1, Some e) \<Rightarrow> (s1, Some e)
                     | (s1, None) \<Rightarrow>
                         (case load_revocations (sv_store s1) of
                            Inl e \<Rightarrow> (s1, Some (StoreFailed e))
                          | Inr revs \<Rightarrow>
                              let entry = \<lparr>rv_id = i, rv_pub_key_hash = pub_hash, rv_revoked_at = now,
                                           rv_revoked_by = revoker, rv_reason = reason\<rparr>
                              in (case save_revocations (sv_store s1) (Some (revs @ [entry])) of
                                    (st, Some e) \<Rightarrow> (s1\<lparr>sv_store := st\<rparr>, Some (StoreFailed e))
                                  | (st, None) \<Rightarrow>
                                      (fire_event ''member_revoked'' i
                                         (log_audit ''membership.revoke'' ''allow'' [] (s1\<lparr>sv_store := st\<rparr>)), None))))))"

text \<open>The loop of \<open>PromoteToActive\<close>: the first admitted entry of the member becomes active.\<close>

fun mark_active :: "roster_member list \<Rightarrow> member_id \<Rightarrow> roster_member list \<times> bool" where
  "mark_active [] i = ([], False)"
| "mark_active (m # ms) i =
     (if rm_id m = i \<and> rm_state m = ''admitted'' then (m\<lparr>rm_state := ''active''\<rparr> # ms, True)
      else (case mark_active ms i of (ms', ch) \<Rightarrow> (m # ms', ch)))"

definition promote_to_active :: "service \<Rightarrow> member_id \<Rightarrow> service \<times> membership_error option" where
  "promote_to_active s i =
     (if i = [] then (s, None)
      else case load_clan (sv_store s) of
        Inl e \<Rightarrow> (s, Some (StoreFailed e))
      | Inr None \<Rightarrow> (s, None)
      | Inr (Some c) \<Rightarrow>
          if \<not> is_active (Some c) then (s, None)
          else (case mark_active (cl_roster c) i of
                  (roster, changed) \<Rightarrow>
                    if \<not> changed then (s, None)
                    else (case store_clan s (c\<lparr>cl_roster := roster\<rparr>) of
                            (s1, Some e) \<Rightarrow> (s1, Some e)
                          | (s1, None) \<Rightarrow>
                              (log_audit ''membership.promote'' ''allow'' ''first_advertisement'' s1, None))))"

definition is_zombie :: "time \<Rightarrow> roster_member \<Rightarrow> bool" where
  "is_zombie now m \<longleftrightarrow> rm_state m = ''admitted'' \<and> time_sub now (rm_admitted_at m) > zombie_max_age"

definition sweep_zombies :: "time \<Rightarrow> service \<Rightarrow> service \<times> (membership_error + nat)" where
  "sweep_zombies now s =
     (case load_clan (sv_store s) of
        Inl e \<Rightarrow> (s, Inl (StoreFailed e))
      | Inr None \<Rightarrow> (s, Inr 0)
      | Inr (Some c) \<Rightarrow>
          if \<not> is_active (Some c) then (s, Inr 0)
          else
            let kept = filter (\<lambda>m. \<not> is_zombie now m) (cl_roster c);
                purged = length (filter (is_zombie now) (cl_roster c))
            in if purged = 0 then (s, Inr 0)
               else (case store_clan s (c\<lparr>cl_roster := kept\<rparr>) of
                       (s1, Some e) \<Rightarrow> (s1, Inl e)
                     | (s1, None) \<Rightarrow> (log_audit ''membership.zombie_sweep'' ''allow'' [] s1, Inr purged)))"

text \<open>One firing of the ticker in \<open>StartZombieSweep\<close>; the results are only logged.\<close>

definition sweep_tick :: "time \<Rightarrow> service \<Rightarrow> service" where
  "sweep_tick now s =
     (let s1 = fst (sweep_zombies now s);
          s2 = s1\<lparr>sv_invites := fst (invite_sweep now (sv_invites s1))\<rparr>
      in s2\<lparr>sv_knocks := fst (knock_sweep now (sv_knocks s2))\<rparr>)"

section \<open>Knocks\<close>

record knock_request =
  kr_clan_id :: string
  kr_joiner_id :: member_id
  kr_joiner_pub :: string
  kr_joiner_x25519 :: string
  kr_joiner_address :: string

record knock_response =
  kp_knock_id :: string
  kp_receiver_x25519 :: string
  kp_cert_pin :: string
  kp_receiver_address :: string

text \<open>What the host and the crypto libraries supply to one knock.\<close>

record knock_env =
  ke_now :: time
  ke_keypair :: "(bytes \<times> bytes) option"
  ke_knock_rand :: "bytes option"
  ke_x25519 :: "bytes \<Rightarrow> bytes \<Rightarrow> bytes option"
  ke_hkdf :: "bytes \<Rightarrow> bytes \<Rightarrow> bytes \<Rightarrow> bytes"

definition knock :: "knock_env \<Rightarrow> service \<Rightarrow> knock_request \<Rightarrow> string \<Rightarrow> service \<times> (membership_error + knock_response)" where
  "knock env s req source_ip =
     (if kr_clan_id req = [] \<or> kr_joiner_id req = [] \<or> kr_joiner_pub req = [] \<or> kr_joiner_x25519 req = []
         \<or> kr_joiner_address req = []
      then (s, Inl FieldsRequired)
      else case active_clan s of
        Inl e \<Rightarrow> (s, Inl e)
      | Inr c \<Rightarrow>
          if cl_id c \<noteq> kr_clan_id req then (s, Inl ErrKnockClanID)
          else case std_decode (kr_joiner_x25519 req) of
            None \<Rightarrow> (s, Inl KnockBadKey)
          | Some jpub \<Rightarrow>
              if length jpub \<noteq> 32 then (s, Inl KnockBadKey)
              else case ke_keypair env of
                None \<Rightarrow> (s, Inl KnockRand)
              | Some (recv_priv, recv_pub) \<Rightarrow>
                  (case ke_knock_rand env of
                     None \<Rightarrow> (s, Inl KnockRand)
                   | Some raw \<Rightarrow>
                       (case derive_knock_bundle (ke_x25519 env) (ke_hkdf env) recv_priv jpub (kr_clan_id req) raw jpub recv_pub of
                          None \<Rightarrow> (s, Inl KnockDerive)
                        | Some (key, nonce, sas) \<Rightarrow>
                            let pk = \<lparr>pk_knock_id = hex_encode raw, pk_clan_id = kr_clan_id req,
                                  pk_joiner_id = kr_joiner_id req, pk_joiner_pub = kr_joiner_pub req,
                                  pk_derived_key = key, pk_derived_nonce = nonce, pk_knock_id_bytes = raw,
                                  pk_sas = sas, pk_joiner_address = kr_joiner_address req,
                                  pk_expires_at = ke_now env + knock_ttl, pk_state = ''pending''\<rparr>
                            in (case knock_put (ke_now env) (sv_knocks s) pk source_ip of
                                  (ks, Some e) \<Rightarrow> (s\<lparr>sv_knocks := ks\<rparr>, Inl (KnockFailed e))
                                | (ks, None) \<Rightarrow>
                                    (log_audit ''membership.knock'' ''allow'' [] (s\<lparr>sv_knocks := ks\<rparr>),
                                     Inr \<lparr>kp_knock_id = hex_encode raw,
                                          kp_receiver_x25519 = std_encode recv_pub,
                                          kp_cert_pin = cl_cert_pin c, kp_receiver_address = sv_listen_addr s\<rparr>)))))"

definition knock_list_op :: "time \<Rightarrow> service \<Rightarrow> membership_error + pending_knock list" where
  "knock_list_op now s =
     (case active_clan s of Inl e \<Rightarrow> Inl e | Inr c \<Rightarrow> Inr (knock_list now (sv_knocks s)))"

text \<open>
  \<open>seal\<close> is AES-GCM under the derived key and nonce with the knock id as associated data; \<open>deliver\<close> posts
  the result to the joiner's URL and says whether it answered 200.
\<close>

datatype delivery = DeliverWelcome bytes | DeliverDenied string

definition welcome_of :: "clan \<Rightarrow> join_response" where
  "welcome_of c = \<lparr>jr_clan_id = cl_id c, jr_clan_key_b64 = cl_key_b64 c, jr_cert_pem = cl_cert_pem c,
     jr_cert_priv_b64 = cl_cert_priv_b64 c, jr_roster = cl_roster c\<rparr>"

definition deliver_url :: "pending_knock \<Rightarrow> string" where
  "deliver_url pk = ''http://'' @ pk_joiner_address pk @ ''/clan/knock-deliver''"

definition knock_accept ::
  "(bytes \<Rightarrow> bytes \<Rightarrow> bytes \<Rightarrow> join_response \<Rightarrow> bytes option) \<Rightarrow> ('w \<Rightarrow> string \<Rightarrow> delivery \<Rightarrow> 'w \<times> bool) \<Rightarrow>
     time \<Rightarrow> time \<Rightarrow> service \<Rightarrow> 'w \<Rightarrow> string \<Rightarrow> service \<times> 'w \<times> membership_error option" where
  "knock_accept seal deliver now later s w knock_id =
     (case consume now (sv_knocks s) knock_id ''accepted'' of
        (ks, Inl e) \<Rightarrow> (s\<lparr>sv_knocks := ks\<rparr>, w, Some (KnockFailed e))
      | (ks, Inr pk) \<Rightarrow>
          let s1 = s\<lparr>sv_knocks := ks\<rparr>
          in (case active_clan s1 of
                Inl e \<Rightarrow> (s1, w, Some e)
              | Inr c \<Rightarrow>
                  (case seal (pk_derived_key pk) (pk_derived_nonce pk) (pk_knock_id_bytes pk) (welcome_of c) of
                     None \<Rightarrow> (s1, w, Some SealFailed)
                   | Some ct \<Rightarrow>
                       (case deliver w (deliver_url pk) (DeliverWelcome (std_encode ct)) of
                          (w1, False) \<Rightarrow> (log_audit ''membership.knock_accept'' ''deny'' [] s1, w1, Some DeliverFailed)
                        | (w1, True) \<Rightarrow>
                            let c1 = c\<lparr>cl_roster := upsert_roster (cl_roster c)
                                       (admitted_member later (pk_joiner_id pk) (pk_joiner_pub pk))\<rparr>
                            in (case store_clan s1 c1 of
                                  (s2, Some e) \<Rightarrow> (s2, w1, Some e)
                                | (s2, None) \<Rightarrow>
                                    (fire_event ''member_joined'' (pk_joiner_id pk)
                                       (log_audit ''membership.knock_accept'' ''allow'' [] s2), w1, None))))))"

definition knock_deny ::
  "('w \<Rightarrow> string \<Rightarrow> delivery \<Rightarrow> 'w \<times> bool) \<Rightarrow> time \<Rightarrow> service \<Rightarrow> 'w \<Rightarrow> string \<Rightarrow> string \<Rightarrow>
     service \<times> 'w \<times> membership_error option" where
  "knock_deny deliver now s w knock_id reason =
     (case consume now (sv_knocks s) knock_id ''denied'' of
        (ks, Inl e) \<Rightarrow> (s\<lparr>sv_knocks := ks\<rparr>, w, Some (KnockFailed e))
      | (ks, Inr pk) \<Rightarrow>
          (log_audit ''membership.knock_deny'' ''allow'' reason (s\<lparr>sv_knocks := ks\<rparr>),
           fst (deliver w (deliver_url pk) (DeliverDenied reason)), None))"

section \<open>Endpoints\<close>

fun status_for_err :: "membership_error \<Rightarrow> http_status" where
  "status_for_err (InviteFailed ErrInviteUnknown) = 403"
| "status_for_err (InviteFailed ErrInviteExpired) = 403"
| "status_for_err (InviteFailed ErrInviteTTL) = 400"
| "status_for_err (KnockFailed ErrKnockNotFound) = 404"
| "status_for_err (KnockFailed ErrKnockExpired) = 410"
| "status_for_err (KnockFailed ErrKnockNotPending) = 409"
| "status_for_err (KnockFailed ErrKnockRateLimit) = 429"
| "status_for_err ErrKnockClanID = 403"
| "status_for_err _ = 400"

definition reply :: "'s \<times> (membership_error + 'r) \<Rightarrow> 's \<times> http_status \<times> 'r option" where
  "reply r = (case r of (s, Inl e) \<Rightarrow> (s, status_for_err e, None) | (s, Inr x) \<Rightarrow> (s, 200, Some x))"

definition handle_invite ::
  "bytes option \<Rightarrow> time \<Rightarrow> service \<Rightarrow> member_id \<Rightarrow> int option \<Rightarrow> service \<times> http_status \<times> (invite_token \<times> string \<times> string) option" where
  "handle_invite rand now s issuer body =
     (case body of
        None \<Rightarrow> (s, 400, None)
      | Some ttl_seconds \<Rightarrow>
          let ttl = int64 (ttl_seconds * second); ttl = (if ttl = 0 then hour else ttl)
          in if issuer = [] then (s, 401, None) else reply (issue_invite rand now s issuer ttl))"

definition handle_join ::
  "time \<Rightarrow> time \<Rightarrow> service \<Rightarrow> (string \<times> member_id \<times> string) option \<Rightarrow> service \<times> http_status \<times> join_response option" where
  "handle_join now later s body =
     (case body of None \<Rightarrow> (s, 400, None) | Some (token, i, pub) \<Rightarrow> reply (redeem_invite now later s token i pub))"

definition handle_welcome ::
  "time \<Rightarrow> service \<Rightarrow> (member_id \<times> string) option \<Rightarrow> service \<times> http_status \<times> join_response option" where
  "handle_welcome now s body =
     (case body of None \<Rightarrow> (s, 400, None) | Some (i, pub) \<Rightarrow> reply (welcome_joiner now s i pub))"

definition handle_members :: "service \<Rightarrow> service \<times> http_status \<times> roster_member list option" where
  "handle_members s = reply (s, members s)"

definition handle_leave :: "service \<Rightarrow> service \<times> http_status" where
  "handle_leave s = (case leave s of (s1, Some e) \<Rightarrow> (s1, status_for_err e) | (s1, None) \<Rightarrow> (s1, 200))"

definition handle_revoke ::
  "(bytes \<Rightarrow> bytes) \<Rightarrow> time \<Rightarrow> service \<Rightarrow> member_id \<Rightarrow> (member_id \<times> string) option \<Rightarrow> service \<times> http_status" where
  "handle_revoke sha now s revoker body =
     (case body of
        None \<Rightarrow> (s, 400)
      | Some (i, reason) \<Rightarrow>
          if revoker = [] then (s, 401)
          else (case revoke sha now s i reason revoker of
                  (s1, Some e) \<Rightarrow> (s1, status_for_err e) | (s1, None) \<Rightarrow> (s1, 200)))"

definition handle_knock ::
  "knock_env \<Rightarrow> service \<Rightarrow> knock_request option \<Rightarrow> string \<Rightarrow> service \<times> http_status \<times> knock_response option" where
  "handle_knock env s body source_ip =
     (case body of
        None \<Rightarrow> (s, 400, None)
      | Some req \<Rightarrow>
          (case knock env s req source_ip of
             (s1, Inl ErrKnockClanID) \<Rightarrow> (s1, 403, None)
           | (s1, Inl (KnockFailed ErrKnockRateLimit)) \<Rightarrow> (s1, 429, None)
           | (s1, Inl _) \<Rightarrow> (s1, 400, None)
           | (s1, Inr r) \<Rightarrow> (s1, 200, Some r)))"

definition handle_knock_list :: "time \<Rightarrow> service \<Rightarrow> service \<times> http_status \<times> pending_knock list option" where
  "handle_knock_list now s = reply (s, knock_list_op now s)"

fun knock_status :: "membership_error \<Rightarrow> http_status" where
  "knock_status (KnockFailed ErrKnockNotFound) = 404"
| "knock_status (KnockFailed ErrKnockExpired) = 410"
| "knock_status (KnockFailed ErrKnockNotPending) = 409"
| "knock_status _ = 500"

definition handle_knock_accept ::
  "(bytes \<Rightarrow> bytes \<Rightarrow> bytes \<Rightarrow> join_response \<Rightarrow> bytes option) \<Rightarrow> ('w \<Rightarrow> string \<Rightarrow> delivery \<Rightarrow> 'w \<times> bool) \<Rightarrow>
     time \<Rightarrow> time \<Rightarrow> service \<Rightarrow> 'w \<Rightarrow> member_id \<Rightarrow> string option \<Rightarrow> service \<times> 'w \<times> http_status" where
  "handle_knock_accept seal deliver now later s w actor body =
     (case body of
        None \<Rightarrow> (s, w, 400)
      | Some knock_id \<Rightarrow>
          if actor = [] then (s, w, 401)
          else (case knock_accept seal deliver now later s w knock_id of
                  (s1, w1, Some e) \<Rightarrow> (s1, w1, knock_status e) | (s1, w1, None) \<Rightarrow> (s1, w1, 200)))"

definition handle_knock_deny ::
  "('w \<Rightarrow> string \<Rightarrow> delivery \<Rightarrow> 'w \<times> bool) \<Rightarrow> time \<Rightarrow> service \<Rightarrow> 'w \<Rightarrow> member_id \<Rightarrow> (string \<times> string) option \<Rightarrow>
     service \<times> 'w \<times> http_status" where
  "handle_knock_deny deliver now s w actor body =
     (case body of
        None \<Rightarrow> (s, w, 400)
      | Some (knock_id, reason) \<Rightarrow>
          if actor = [] then (s, w, 401)
          else (case knock_deny deliver now s w knock_id reason of
                  (s1, w1, Some e) \<Rightarrow> (s1, w1, knock_status e) | (s1, w1, None) \<Rightarrow> (s1, w1, 200)))"

section \<open>Runs of the service\<close>

datatype service_op =
    SIssue "bytes option" time member_id duration
  | SRedeem time time string member_id string
  | SWelcome time member_id string
  | SLeave
  | SRevoke time member_id string member_id
  | SPromote member_id
  | SSweep time
  | SKnock knock_env knock_request string
  | SAccept time time string
  | SDeny time string string

definition service_exec ::
  "(bytes \<Rightarrow> bytes) \<Rightarrow> (bytes \<Rightarrow> bytes \<Rightarrow> bytes \<Rightarrow> join_response \<Rightarrow> bytes option) \<Rightarrow>
     ('w \<Rightarrow> string \<Rightarrow> delivery \<Rightarrow> 'w \<times> bool) \<Rightarrow> service \<times> 'w \<Rightarrow> service_op \<Rightarrow> service \<times> 'w" where
  "service_exec sha seal deliver sw x =
     (case sw of (s, w) \<Rightarrow>
        (case x of
           SIssue rand now issuer ttl \<Rightarrow> (fst (issue_invite rand now s issuer ttl), w)
         | SRedeem now later token i pub \<Rightarrow> (fst (redeem_invite now later s token i pub), w)
         | SWelcome now i pub \<Rightarrow> (fst (welcome_joiner now s i pub), w)
         | SLeave \<Rightarrow> (fst (leave s), w)
         | SRevoke now i reason revoker \<Rightarrow> (fst (revoke sha now s i reason revoker), w)
         | SPromote i \<Rightarrow> (fst (promote_to_active s i), w)
         | SSweep now \<Rightarrow> (sweep_tick now s, w)
         | SKnock env req ip \<Rightarrow> (fst (knock env s req ip), w)
         | SAccept now later k \<Rightarrow> (case knock_accept seal deliver now later s w k of (s1, w1, e) \<Rightarrow> (s1, w1))
         | SDeny now k reason \<Rightarrow> (case knock_deny deliver now s w k reason of (s1, w1, e) \<Rightarrow> (s1, w1))))"

definition roster_of :: "service \<Rightarrow> roster_member list" where
  "roster_of s = (case st_clan (sv_store s) of None \<Rightarrow> [] | Some c \<Rightarrow> cl_roster c)"

lemma log_audit_simps [simp]:
  "sv_store (log_audit a b c s) = sv_store s" "sv_knocks (log_audit a b c s) = sv_knocks s"
  "sv_invites (log_audit a b c s) = sv_invites s" "sv_events (log_audit a b c s) = sv_events s"
  by (simp_all add: log_audit_def)

lemma fire_event_simps [simp]:
  "sv_store (fire_event a b s) = sv_store s" "sv_knocks (fire_event a b s) = sv_knocks s"
  "sv_invites (fire_event a b s) = sv_invites s"
  by (simp_all add: fire_event_def)

lemma roster_of_frame [simp]:
  "roster_of (log_audit a b c s) = roster_of s" "roster_of (fire_event d e s) = roster_of s"
  "roster_of (s\<lparr>sv_invites := x\<rparr>) = roster_of s" "roster_of (s\<lparr>sv_knocks := y\<rparr>) = roster_of s"
  by (simp_all add: roster_of_def)

lemma active_clan_Inr: "active_clan s = Inr c \<Longrightarrow> st_clan (sv_store s) = Some c \<and> roster_of s = cl_roster c"
  by (auto simp: active_clan_def load_clan_def roster_of_def is_active_def split: sum.splits option.splits if_splits)

text \<open>A store write either changes nothing or installs the new roster.\<close>

lemma store_clan_roster: "roster_of (fst (store_clan s c)) \<in> {roster_of s, cl_roster c}"
  by (auto simp: store_clan_def save_clan_def roster_of_def split: prod.splits if_splits)

lemma store_clan_ok: "store_clan s c = (s1, None) \<Longrightarrow> roster_of s1 = cl_roster c \<and> s1 = s\<lparr>sv_store := (sv_store s)\<lparr>st_clan := Some c\<rparr>\<rparr>"
  by (auto simp: store_clan_def save_clan_def roster_of_def split: if_splits)

lemma store_clan_D:
  "store_clan s c = (s1, e) \<Longrightarrow> roster_of s1 = roster_of s \<or> roster_of s1 = cl_roster c"
  using store_clan_roster [of s c] by auto

lemma load_clan_D: "load_clan (sv_store s) = Inr (Some c) \<Longrightarrow> cl_roster c = roster_of s"
  by (auto simp: load_clan_def roster_of_def split: if_splits)

lemma active_clan_D: "active_clan s = Inr c \<Longrightarrow> cl_roster c = roster_of s"
  using active_clan_Inr by auto

lemmas roster_dests = store_clan_D active_clan_D load_clan_D

text \<open>What each operation can do to the roster.\<close>

lemma issue_invite_roster: "roster_of (fst (issue_invite rand now s issuer ttl)) = roster_of s"
  by (auto simp: issue_invite_def split: sum.splits prod.splits)

lemma redeem_invite_roster:
  "roster_of (fst (redeem_invite now later s token i pub)) = roster_of s \<or>
   roster_of (fst (redeem_invite now later s token i pub)) = upsert_roster (roster_of s) (admitted_member later i pub)"
  by (auto simp: redeem_invite_def Let_def split: sum.split option.split prod.split dest!: roster_dests)

lemma welcome_roster:
  "roster_of (fst (welcome_joiner now s i pub)) = roster_of s \<or>
   roster_of (fst (welcome_joiner now s i pub)) = upsert_roster (roster_of s) (admitted_member now i pub)"
  by (auto simp: welcome_joiner_def Let_def split: sum.split option.split prod.split dest!: roster_dests)

lemma leave_roster: "roster_of (fst (leave s)) = roster_of s \<or> roster_of (fst (leave s)) = []"
  by (auto simp: leave_def empty_clan_def split: sum.split option.split prod.split dest!: store_clan_D)

lemma revoke_roster:
  "roster_of (fst (revoke sha now s i reason revoker)) = roster_of s \<or>
   roster_of (fst (revoke sha now s i reason revoker)) = fst (mark_revoked sha (roster_of s) i)"
proof -
  have frame: "roster_of (s1\<lparr>sv_store := st\<rparr>) = roster_of s1"
    if "save_revocations (sv_store s1) (Some r) = (st, e)" for s1 st r e
    using that by (auto simp: save_revocations_def roster_of_def split: if_splits)
  show ?thesis
    by (auto simp: revoke_def Let_def split: sum.split option.split prod.split dest!: roster_dests frame)
qed

lemma promote_roster:
  "roster_of (fst (promote_to_active s i)) = roster_of s \<or>
   roster_of (fst (promote_to_active s i)) = fst (mark_active (roster_of s) i)"
  by (auto simp: promote_to_active_def Let_def split: sum.split option.split prod.split dest!: roster_dests)

lemma sweep_tick_roster:
  "roster_of (sweep_tick now s) = roster_of s \<or>
   roster_of (sweep_tick now s) = filter (\<lambda>m. \<not> is_zombie now m) (roster_of s)"
  by (auto simp: sweep_tick_def sweep_zombies_def Let_def split: sum.split option.split prod.split dest!: roster_dests)

lemma knock_roster: "roster_of (fst (knock env s req ip)) = roster_of s"
  by (auto simp: knock_def Let_def split: sum.split option.split prod.split)

lemma active_clan_knocks: "active_clan (s\<lparr>sv_knocks := ks\<rparr>) = active_clan s"
  by (simp add: active_clan_def)

lemma knock_accept_roster:
  "roster_of (fst (knock_accept seal deliver now later s w k)) = roster_of s \<or>
   (\<exists>i pub. roster_of (fst (knock_accept seal deliver now later s w k)) =
      upsert_roster (roster_of s) (admitted_member later i pub))"
  by (auto simp: knock_accept_def Let_def active_clan_knocks split: sum.split option.split prod.split bool.split
      dest!: roster_dests) metis+

lemma knock_deny_roster: "roster_of (fst (knock_deny deliver now s w k reason)) = roster_of s"
  by (auto simp: knock_deny_def split: sum.split prod.split)

lemma service_exec_roster:
  obtains (same) "roster_of (fst (service_exec sha seal deliver (s, w) x)) = roster_of s"
  | (join) t i pub where "roster_of (fst (service_exec sha seal deliver (s, w) x)) = upsert_roster (roster_of s) (admitted_member t i pub)"
      "(\<exists>now token. x = SRedeem now t token i pub) \<or> x = SWelcome t i pub \<or> (\<exists>now k. x = SAccept now t k)"
  | (left) "x = SLeave" "roster_of (fst (service_exec sha seal deliver (s, w) x)) = []"
  | (revoked) now i reason by' where "x = SRevoke now i reason by'"
      "roster_of (fst (service_exec sha seal deliver (s, w) x)) = fst (mark_revoked sha (roster_of s) i)"
  | (promoted) i where "x = SPromote i"
      "roster_of (fst (service_exec sha seal deliver (s, w) x)) = fst (mark_active (roster_of s) i)"
  | (swept) now where "x = SSweep now"
      "roster_of (fst (service_exec sha seal deliver (s, w) x)) = filter (\<lambda>m. \<not> is_zombie now m) (roster_of s)"
proof (cases x)
  case (SIssue rand now issuer ttl)
  then show thesis using issue_invite_roster [of rand now s issuer ttl] by (intro same) (simp add: service_exec_def)
next
  case (SRedeem now later token i pub)
  then show thesis
    using redeem_invite_roster [of now later s token i pub] same join [of later i pub] by (auto simp: service_exec_def)
next
  case (SWelcome now i pub)
  then show thesis
    using welcome_roster [of now s i pub] same join [of now i pub] by (auto simp: service_exec_def)
next
  case SLeave
  then show thesis using leave_roster [of s] same left by (auto simp: service_exec_def)
next
  case (SRevoke now i reason revoker)
  then show thesis
    using revoke_roster [of sha now s i reason revoker] same revoked by (auto simp: service_exec_def)
next
  case (SPromote i)
  then show thesis using promote_roster [of s i] same promoted by (auto simp: service_exec_def)
next
  case (SSweep now)
  then show thesis using sweep_tick_roster [of now s] same swept by (auto simp: service_exec_def)
next
  case (SKnock env req ip)
  then show thesis using knock_roster [of env s req ip] by (intro same) (simp add: service_exec_def)
next
  case (SAccept now later k)
  have "fst (case knock_accept seal deliver now later s w k of (s1, w1, e) \<Rightarrow> (s1, w1)) = fst (knock_accept seal deliver now later s w k)"
    by (simp split: prod.split)
  with SAccept show thesis
    using knock_accept_roster [of seal deliver now later s w k] same join [of later] by (auto simp: service_exec_def)
next
  case (SDeny now k reason)
  have "fst (case knock_deny deliver now s w k reason of (s1, w1, e) \<Rightarrow> (s1, w1)) = fst (knock_deny deliver now s w k reason)"
    by (simp split: prod.split)
  with SDeny show thesis
    using knock_deny_roster [of deliver now s w k reason] by (intro same) (simp add: service_exec_def)
qed

section \<open>Roster updates, member by member\<close>

lemma upsert_ids: "rm_id ` set (upsert_roster rs m) = insert (rm_id m) (rm_id ` set rs)"
  by (induction rs) auto

lemma upsert_wf: "wf_roster rs \<Longrightarrow> wf_roster (upsert_roster rs m)"
proof (induction rs)
  case (Cons r rs)
  have "rm_id r \<noteq> rm_id m \<Longrightarrow> rm_id r \<notin> rm_id ` set (upsert_roster rs m)"
    using Cons.prems unfolding upsert_ids by (auto simp: wf_roster_def)
  with Cons show ?case by (auto simp: wf_roster_def)
qed (simp add: wf_roster_def)

lemma upsert_member_of:
  "member_of (upsert_roster rs m) i = (if i = rm_id m then Some m else member_of rs i)"
  by (induction rs) (auto simp: member_of_Cons)

lemma mark_revoked_ids: "map rm_id (fst (mark_revoked sha rs i)) = map rm_id rs"
  by (induction rs) (auto split: prod.splits)

lemma mark_revoked_member_of:
  "member_of (fst (mark_revoked sha rs i)) j =
     (if j = i then map_option (\<lambda>m. m\<lparr>rm_state := ''revoked''\<rparr>) (member_of rs j) else member_of rs j)"
  by (induction rs) (auto simp: member_of_Cons split: prod.splits)

lemma mark_active_ids: "map rm_id (fst (mark_active rs i)) = map rm_id rs"
  by (induction rs) (auto split: prod.splits)

lemma mark_active_none: "i \<notin> rm_id ` set rs \<Longrightarrow> mark_active rs i = (rs, False)"
  by (induction rs) auto

lemma mark_active_member_of:
  "wf_roster rs \<Longrightarrow> member_of (fst (mark_active rs i)) j =
     (if j = i then map_option (\<lambda>m. if rm_state m = ''admitted'' then m\<lparr>rm_state := ''active''\<rparr> else m) (member_of rs j)
      else member_of rs j)"
proof (induction rs)
  case (Cons r rs)
  show ?case
  proof (cases "rm_id r = i")
    case True
    with Cons.prems have "i \<notin> rm_id ` set rs" by (auto simp: wf_roster_def)
    with True show ?thesis by (auto simp: member_of_Cons mark_active_none split: prod.splits)
  next
    case False
    with Cons show ?thesis by (auto simp: member_of_Cons wf_roster_def split: prod.splits)
  qed
qed simp

lemma filter_wf: "wf_roster rs \<Longrightarrow> wf_roster (filter P rs)"
  by (simp add: wf_roster_def distinct_map_filter)

lemma filter_member_of:
  "wf_roster rs \<Longrightarrow> member_of (filter P rs) i =
     (case member_of rs i of None \<Rightarrow> None | Some m \<Rightarrow> if P m then Some m else None)"
proof (induction rs)
  case (Cons r rs)
  then have "rm_id r \<notin> rm_id ` set rs" "wf_roster rs" by (auto simp: wf_roster_def)
  moreover from this have "member_of rs (rm_id r) = None" by (simp add: member_of_None)
  ultimately show ?case using Cons.IH by (auto simp: member_of_Cons split: option.splits)
qed simp

lemma service_exec_wf:
  assumes "wf_roster (roster_of s)"
  shows "wf_roster (roster_of (fst (service_exec sha seal deliver (s, w) x)))"
  using assms
  by (cases rule: service_exec_roster [of sha seal deliver s w x])
    (simp_all add: upsert_wf filter_wf, simp_all add: wf_roster_def mark_revoked_ids mark_active_ids)

section \<open>Properties\<close>

definition joins :: "member_id \<Rightarrow> service_op \<Rightarrow> bool" where
  "joins i x = (case x of SRedeem now t token j pub \<Rightarrow> j = i | SWelcome t j pub \<Rightarrow> j = i | SAccept now t k \<Rightarrow> True | _ \<Rightarrow> False)"

definition state_of :: "service \<Rightarrow> member_id \<Rightarrow> string option" where
  "state_of s i = map_option rm_state (member_of (roster_of s) i)"

text \<open>C7: The membership state machine. A membership operation changes the state of a roster member only in
  these ways: a join (token, mnemonic or accepted knock) makes it admitted; leaving clears it; a
  revocation of a listed member makes it revoked; promotion makes exactly an admitted member active; the
  zombie sweep removes exactly a member that is still admitted more than 24 hours after its admission.
  The roster keeps one entry per member.\<close>

theorem membership_transitions:
  fixes sha seal deliver s w x
  defines "s' \<equiv> fst (service_exec sha seal deliver (s, w) x)"
  assumes "wf_roster (roster_of s)"
  shows "wf_roster (roster_of s') \<and>
    (state_of s' i = state_of s i \<or>
     joins i x \<and> state_of s' i = Some ''admitted'' \<or>
     x = SLeave \<and> state_of s' i = None \<or>
     (\<exists>now reason r. x = SRevoke now i reason r) \<and> state_of s i \<noteq> None \<and> state_of s' i = Some ''revoked'' \<or>
     x = SPromote i \<and> state_of s i = Some ''admitted'' \<and> state_of s' i = Some ''active'' \<or>
     (\<exists>now m. x = SSweep now \<and> member_of (roster_of s) i = Some m \<and> rm_state m = ''admitted'' \<and>
        24 * hour < now - rm_admitted_at m \<and> state_of s' i = None))"
proof
  show "wf_roster (roster_of s')" unfolding s'_def by (rule service_exec_wf [OF assms(2)])
  show "state_of s' i = state_of s i \<or>
     joins i x \<and> state_of s' i = Some ''admitted'' \<or>
     x = SLeave \<and> state_of s' i = None \<or>
     (\<exists>now reason r. x = SRevoke now i reason r) \<and> state_of s i \<noteq> None \<and> state_of s' i = Some ''revoked'' \<or>
     x = SPromote i \<and> state_of s i = Some ''admitted'' \<and> state_of s' i = Some ''active'' \<or>
     (\<exists>now m. x = SSweep now \<and> member_of (roster_of s) i = Some m \<and> rm_state m = ''admitted'' \<and>
        24 * hour < now - rm_admitted_at m \<and> state_of s' i = None)"
  proof (cases rule: service_exec_roster [of sha seal deliver s w x])
    case (join t j pub)
    then show ?thesis by (auto simp: s'_def state_of_def upsert_member_of admitted_member_def joins_def)
  next
    case (revoked now j reason r)
    then show ?thesis by (cases "member_of (roster_of s) i") (auto simp: s'_def state_of_def mark_revoked_member_of)
  next
    case (promoted j)
    show ?thesis
    proof (cases "member_of (roster_of s) i")
      case None
      with promoted show ?thesis
        by (cases "j = i") (simp_all add: s'_def state_of_def mark_active_member_of [OF assms(2)])
    next
      case (Some m)
      with promoted show ?thesis
        by (cases "rm_state m = ''admitted''"; cases "j = i")
          (simp_all add: s'_def state_of_def mark_active_member_of [OF assms(2)])
    qed
  next
    case (swept now)
    have "24 * hour < now - rm_admitted_at m" if "is_zombie now m" for m
      using that by (auto simp: is_zombie_def zombie_max_age_def time_facts max_duration_def min_duration_def)
    with swept show ?thesis
      by (cases "member_of (roster_of s) i")
        (auto simp: s'_def state_of_def filter_member_of [OF assms(2)] is_zombie_def)
  qed (simp_all add: s'_def state_of_def)
qed

definition sample_service :: "string \<Rightarrow> service" where
  "sample_service st = \<lparr>sv_store = \<lparr>st_clan = Some (empty_clan\<lparr>cl_id := ''c'', cl_roster := [sample_member ''a'' st 1]\<rparr>),
       st_revocations = None, st_readable = True, st_writable = True\<rparr>,
     sv_invites = [], sv_knocks = new_knock_store, sv_listen_addr = [], sv_audit = [], sv_events = []\<rparr>"

theorem membership_transitions_witness:
  "wf_roster (roster_of (fst (service_exec rev (\<lambda>_ _ _ _. None) (\<lambda>w _ _. (w, True)) (sample_service ''admitted'', ()) (SPromote ''a''))))"
  using membership_transitions [of "sample_service ''admitted''" rev "\<lambda>_ _ _ _. None" "\<lambda>w _ _. (w, True)" "()" "SPromote ''a''" "''a''"]
  by (simp add: sample_service_def roster_of_def wf_roster_def)

text \<open>Founder and paste-key joiner share the clan key. When founding succeeds, the mnemonic in the paste key
  it returns decodes, at any joiner with the same word list, hash and key derivation, to the very key the
  founder has persisted (base64) in its clan, and the founder is listed there as an active member.\<close>

theorem paste_key_shares_clan_key:
  assumes "create_clan wl sha hkdf gen_cert seed_rand uuid_rand now s idn addr = (s', Inr pk)" "wordlist_ok wl"
  shows "\<exists>key seed c. pre_join_via_mnemonic wl sha hkdf (pa_mnemonic pk) = Inr (key, seed) \<and>
    st_clan s' = Some c \<and> cl_key_b64 c = std_encode key \<and> cl_id c = pa_clan_id pk \<and> cl_cert_pin c = pa_pin pk \<and>
    map (\<lambda>m. (rm_id m, rm_state m)) (cl_roster c) = [(id_member idn, ''active'')]"
proof -
  from assms(1) obtain seed mn key u pem pin where
    seed: "mnemonic_from_seed wl sha seed = Inr mn" "derive_clan_key hkdf seed = Some key" "pa_mnemonic pk = mn"
    and c: "\<exists>c. st_clan s' = Some c \<and> cl_key_b64 c = std_encode key \<and> cl_id c = pa_clan_id pk \<and> cl_cert_pin c = pa_pin pk \<and>
      map (\<lambda>m. (rm_id m, rm_state m)) (cl_roster c) = [(id_member idn, ''active'')]"
    by (auto simp: create_clan_def Let_def save_clan_def set_clan_key_def set_clan_cert_priv_key_def
        split: if_splits option.splits sum.splits prod.splits)
  from seed(1) have "length seed = 16" by (simp add: mnemonic_from_seed_def seed_bytes_def split: if_splits)
  from mnemonic_decodes [OF assms(2) this, of sha] seed have "seed_from_mnemonic wl sha mn = Inr seed" by simp
  with seed have "pre_join_via_mnemonic wl sha hkdf (pa_mnemonic pk) = Inr (key, seed)"
    by (simp add: pre_join_via_mnemonic_def)
  moreover from c obtain d where "st_clan s' = Some d \<and> cl_key_b64 d = std_encode key \<and> cl_id d = pa_clan_id pk \<and>
      cl_cert_pin d = pa_pin pk \<and> map (\<lambda>m. (rm_id m, rm_state m)) (cl_roster d) = [(id_member idn, ''active'')]" ..
  ultimately show ?thesis by (intro exI [of _ key] exI [of _ seed] exI [of _ d]) simp
qed

definition sample_identity :: identity where
  "sample_identity = \<lparr>id_member = ''a'', id_pub_key = ''p'', id_private_key = ''k''\<rparr>"

lemma sample_create:
  "\<exists>s' pk. create_clan sample_wordlist rev (\<lambda>s _ _. s) (\<lambda>_. Some (''pem'', ''pin'')) (Some ''0123456789abcdef'')
     (Some ''0123456789abcdef'') 5 \<lparr>st_clan = None, st_revocations = None, st_readable = True, st_writable = True\<rparr>
     sample_identity ''h'' = (s', Inr pk)"
  using mnemonic_decodes [OF sample_wordlist_ok, of "''0123456789abcdef''" rev]
  by (auto simp: create_clan_def derive_clan_key_def seed_bytes_def Let_def save_clan_def)

theorem paste_key_shares_clan_key_witness:
  "\<exists>s' pk key seed. create_clan sample_wordlist rev (\<lambda>s _ _. s) (\<lambda>_. Some (''pem'', ''pin'')) (Some ''0123456789abcdef'')
     (Some ''0123456789abcdef'') 5 \<lparr>st_clan = None, st_revocations = None, st_readable = True, st_writable = True\<rparr>
     sample_identity ''h'' = (s', Inr pk) \<and>
     pre_join_via_mnemonic sample_wordlist rev (\<lambda>s _ _. s) (pa_mnemonic pk) = Inr (key, seed)"
proof -
  from sample_create obtain s' pk where c: "create_clan sample_wordlist rev (\<lambda>s _ _. s) (\<lambda>_. Some (''pem'', ''pin'')) (Some ''0123456789abcdef'')
     (Some ''0123456789abcdef'') 5 \<lparr>st_clan = None, st_revocations = None, st_readable = True, st_writable = True\<rparr>
     sample_identity ''h'' = (s', Inr pk)" by blast
  from paste_key_shares_clan_key [OF c sample_wordlist_ok] c show ?thesis by blast
qed

lemma mark_revoked_found: "snd (mark_revoked sha rs i) \<noteq> [] \<Longrightarrow> i \<in> rm_id ` set rs"
  by (induction rs) (auto split: prod.splits if_splits)

lemma revoke_success:
  assumes "revoke sha now s i reason r = (s', None)"
  obtains c h where "active_clan s = Inr c" "h = snd (mark_revoked sha (cl_roster c) i)" "h \<noteq> []"
    "st_clan (sv_store s') = Some (c\<lparr>cl_roster := fst (mark_revoked sha (cl_roster c) i)\<rparr>)"
    "st_revocations (sv_store s') = Some ((case st_revocations (sv_store s) of None \<Rightarrow> [] | Some es \<Rightarrow> es) @
       [\<lparr>rv_id = i, rv_pub_key_hash = h, rv_revoked_at = now, rv_revoked_by = r, rv_reason = reason\<rparr>])"
    "sv_events s' = sv_events s @ [(''member_revoked'', i)]"
  using assms
  by (auto simp: revoke_def Let_def store_clan_def save_clan_def load_revocations_def save_revocations_def
      fire_event_def log_audit_def
      split: if_splits sum.splits prod.splits option.splits)

text \<open>What a successful revocation does. It marks the member revoked in the persisted roster, leaves every
  other member's entry alone, appends one entry for the member to the persisted revocation list, and
  fires the member_revoked event.\<close>

theorem revocation_effect:
  assumes "revoke sha now s i reason r = (s', None)"
  shows "state_of s' i = Some ''revoked'' \<and>
    (\<forall>j. j \<noteq> i \<longrightarrow> member_of (roster_of s') j = member_of (roster_of s) j) \<and>
    (\<exists>e. rv_id e = i \<and> st_revocations (sv_store s') =
       Some ((case st_revocations (sv_store s) of None \<Rightarrow> [] | Some es \<Rightarrow> es) @ [e])) \<and>
    sv_events s' = sv_events s @ [(''member_revoked'', i)]"
proof (rule revoke_success [OF assms])
  fix c h
  assume c: "active_clan s = Inr c" "h = snd (mark_revoked sha (cl_roster c) i)" "h \<noteq> []"
    "st_clan (sv_store s') = Some (c\<lparr>cl_roster := fst (mark_revoked sha (cl_roster c) i)\<rparr>)"
    "st_revocations (sv_store s') = Some ((case st_revocations (sv_store s) of None \<Rightarrow> [] | Some es \<Rightarrow> es) @
       [\<lparr>rv_id = i, rv_pub_key_hash = h, rv_revoked_at = now, rv_revoked_by = r, rv_reason = reason\<rparr>])"
    "sv_events s' = sv_events s @ [(''member_revoked'', i)]"
  have "i \<in> rm_id ` set (cl_roster c)" using c(2,3) mark_revoked_found by blast
  then obtain m where "member_of (cl_roster c) i = Some m"
    by (cases "member_of (cl_roster c) i") (simp_all add: member_of_None)
  with c active_clan_D [OF c(1)] show ?thesis
    by (auto simp: state_of_def roster_of_def mark_revoked_member_of)
qed

theorem revocation_effect_witness:
  "\<exists>s'. revoke rev 5 (sample_service ''active'') ''a'' ''lost'' ''b'' = (s', None) \<and> state_of s' ''a'' = Some ''revoked''"
proof -
  have "snd (revoke rev 5 (sample_service ''active'') ''a'' ''lost'' ''b'') = None"
    by (simp add: revoke_def sample_service_def active_clan_def load_clan_def is_active_def sample_member_def
        store_clan_def save_clan_def load_revocations_def save_revocations_def Let_def)
  then obtain s' where s': "revoke rev 5 (sample_service ''active'') ''a'' ''lost'' ''b'' = (s', None)"
    by (metis prod.collapse)
  from revocation_effect [OF s'] s' show ?thesis by blast
qed

text \<open>Revoking a member twice changes the digest of an unchanged set. When the member is already on the
  revocation list, a second successful revocation leaves the set of revoked members as it was but, with
  plain ids and a hash that does not collide on the two texts, changes the list's digest.\<close>

theorem second_revocation_changes_digest:
  assumes "revoke sha now s i reason r = (s', None)" "st_revocations (sv_store s) = Some es"
    and "i \<in> revoked_ids es" "plain_ids es"
    and "\<And>es'. sha (revocations_text es) = sha (revocations_text es') \<Longrightarrow> revocations_text es = revocations_text es'"
  shows "\<exists>es'. st_revocations (sv_store s') = Some es' \<and> revoked_ids es' = revoked_ids es \<and>
    revocations_digest sha (Some es') \<noteq> revocations_digest sha (Some es)"
proof (rule revoke_success [OF assms(1)])
  fix c h
  let ?e = "\<lparr>rv_id = i, rv_pub_key_hash = h, rv_revoked_at = now, rv_revoked_by = r, rv_reason = reason\<rparr>"
  assume "st_revocations (sv_store s') = Some ((case st_revocations (sv_store s) of None \<Rightarrow> [] | Some es \<Rightarrow> es) @ [?e])"
  then have es': "st_revocations (sv_store s') = Some (es @ [?e])" using assms(2) by simp
  have ids: "revoked_ids (es @ [?e]) = revoked_ids es" using assms(3) by (auto simp: revoked_ids_def)
  have plain: "plain_ids (es @ [?e])" using assms(3,4) by (auto simp: plain_ids_def revoked_ids_def)
  have "revocations_text es \<noteq> revocations_text (es @ [?e])"
  proof
    assume "revocations_text es = revocations_text (es @ [?e])"
    then have "sort (map rv_id es) = sort (map rv_id (es @ [?e]))"
      by (rule join_sort_ids_inj [OF assms(4) plain])
    then have "length (sort (map rv_id es)) = length (sort (map rv_id (es @ [?e])))" by (rule arg_cong)
    then show False by simp
  qed
  then have "revocations_digest sha (Some (es @ [?e])) \<noteq> revocations_digest sha (Some es)"
    using assms(5) [of "es @ [?e]"] by (auto simp: revocations_digest_text hex_encode_inj)
  with es' ids show ?thesis by blast
qed

definition once_revoked :: service where
  "once_revoked = (sample_service ''revoked'')\<lparr>sv_store := (sv_store (sample_service ''revoked''))\<lparr>st_revocations := Some [sample_revocation ''a'' 1]\<rparr>\<rparr>"

theorem second_revocation_changes_digest_witness:
  "\<exists>s' es'. revoke rev 5 once_revoked ''a'' ''lost'' ''b'' = (s', None) \<and> st_revocations (sv_store s') = Some es' \<and>
     revocations_digest rev (Some es') \<noteq> revocations_digest rev (Some [sample_revocation ''a'' 1])"
proof -
  have "snd (revoke rev 5 once_revoked ''a'' ''lost'' ''b'') = None"
    by (simp add: once_revoked_def revoke_def sample_service_def active_clan_def load_clan_def is_active_def sample_member_def
        store_clan_def save_clan_def load_revocations_def save_revocations_def Let_def)
  then obtain s' where s': "revoke rev 5 once_revoked ''a'' ''lost'' ''b'' = (s', None)"
    by (metis prod.collapse)
  from second_revocation_changes_digest [OF s', of "[sample_revocation ''a'' 1]"] s' show ?thesis
    by (auto simp: once_revoked_def plain_ids_def sample_revocation_def revoked_ids_def)
qed

text \<open>Rejoining clears a revocation from the roster. A revoked member that calls the welcome endpoint again
  (it still holds the clan key) is admitted in the roster, while the revocation list keeps naming it.\<close>

theorem welcome_readmits_revoked:
  assumes "welcome_joiner now s i pub = (s', Inr resp)" "state_of s i = Some ''revoked''"
  shows "state_of s' i = Some ''admitted'' \<and> st_revocations (sv_store s') = st_revocations (sv_store s)"
  using assms(1)
  by (auto simp: welcome_joiner_def Let_def store_clan_def save_clan_def state_of_def roster_of_def upsert_member_of
      admitted_member_def split: if_splits sum.splits prod.splits)

theorem welcome_readmits_revoked_witness:
  "\<exists>s' resp. welcome_joiner 9 once_revoked ''a'' ''p'' = (s', Inr resp) \<and> state_of s' ''a'' = Some ''admitted''"
proof -
  have "\<exists>resp. snd (welcome_joiner 9 once_revoked ''a'' ''p'') = Inr resp"
    by (simp add: once_revoked_def welcome_joiner_def sample_service_def active_clan_def load_clan_def is_active_def
        store_clan_def save_clan_def Let_def)
  then obtain s' resp where s': "welcome_joiner 9 once_revoked ''a'' ''p'' = (s', Inr resp)"
    by (metis prod.collapse)
  have "state_of once_revoked ''a'' = Some ''revoked''"
    by (simp add: once_revoked_def sample_service_def state_of_def roster_of_def sample_member_def member_of_Cons)
  from welcome_readmits_revoked [OF s' this] s' show ?thesis by blast
qed

end
