(* ===== verification/Transport.thy ===== *)
theory Transport
  imports Prelude
begin

text \<open>
  Request authentication: the clan-key provider (\<open>cland/internal/crypto/keyprovider.go\<close>), the MAC over
  the canonical request (\<open>crypto/hmac.go\<close>), the nonce cache (\<open>transport/nonce.go\<close>) and the
  middleware in front of every authenticated handler (\<open>transport/server.go\<close>). SHA-256 and HMAC are the
  parameters \<open>sha\<close> and \<open>hmac\<close>; TLS is not modelled.
\<close>

section \<open>The key provider\<close>

record key_provider =
  kp_current :: bytes
  kp_grace :: "bytes option"
  kp_grace_expiry :: time

definition new_key_provider :: "bytes \<Rightarrow> key_provider option" where
  "new_key_provider key =
     (if length key = 0 then None
      else Some \<lparr>kp_current = key, kp_grace = None, kp_grace_expiry = zero_time\<rparr>)"

definition grace :: "time \<Rightarrow> key_provider \<Rightarrow> bytes option" where
  "grace now p =
     (case kp_grace p of None \<Rightarrow> None | Some g \<Rightarrow> if now > kp_grace_expiry p then None else Some g)"

definition rotate_key :: "time \<Rightarrow> key_provider \<Rightarrow> bytes \<Rightarrow> duration \<Rightarrow> key_provider option" where
  "rotate_key now p new_key grace_dur =
     (if length new_key = 0 then None
      else Some (p\<lparr>kp_grace := Some (kp_current p), kp_grace_expiry := now + grace_dur, kp_current := new_key\<rparr>))"

definition drop_grace :: "key_provider \<Rightarrow> key_provider" where
  "drop_grace p = p\<lparr>kp_grace := None, kp_grace_expiry := zero_time\<rparr>"

section \<open>The request MAC\<close>

definition canonical :: "(bytes \<Rightarrow> bytes) \<Rightarrow> string \<Rightarrow> string \<Rightarrow> bytes \<Rightarrow> int \<Rightarrow> string \<Rightarrow> bytes" where
  "canonical sha meth path body ts nonce =
     to_upper meth @ [LF] @ path @ [LF] @ hex_encode (sha body) @ [LF] @ dec_int ts @ [LF] @ nonce"

definition compute_mac ::
  "(bytes \<Rightarrow> bytes) \<Rightarrow> (bytes \<Rightarrow> bytes \<Rightarrow> bytes) \<Rightarrow> bytes \<Rightarrow> string \<Rightarrow> string \<Rightarrow> bytes \<Rightarrow> int \<Rightarrow> string \<Rightarrow> string" where
  "compute_mac sha hmac key meth path body ts nonce =
     hex_encode (hmac key (canonical sha meth path body ts nonce))"

text \<open>\<open>hex.DecodeString\<close>: digits of either case, an even number of them.\<close>

definition hex_value :: "char \<Rightarrow> nat option" where
  "hex_value c =
     (let n = of_char c :: nat
      in if 48 \<le> n \<and> n \<le> 57 then Some (n - 48) else if 97 \<le> n \<and> n \<le> 102 then Some (n - 87)
         else if 65 \<le> n \<and> n \<le> 70 then Some (n - 55) else None)"

fun hex_decode :: "string \<Rightarrow> bytes option" where
  "hex_decode [] = Some []"
| "hex_decode [_] = None"
| "hex_decode (a # b # s) =
     (case (hex_value a, hex_value b) of
        (Some x, Some y) \<Rightarrow> map_option (\<lambda>r. char_of (16 * x + y) # r) (hex_decode s)
      | _ \<Rightarrow> None)"

definition verify_mac ::
  "(bytes \<Rightarrow> bytes) \<Rightarrow> (bytes \<Rightarrow> bytes \<Rightarrow> bytes) \<Rightarrow> bytes \<Rightarrow> string \<Rightarrow> string \<Rightarrow> bytes \<Rightarrow> int \<Rightarrow> string \<Rightarrow> string \<Rightarrow> bool" where
  "verify_mac sha hmac key meth path body ts nonce provided =
     (case hex_decode (to_lower provided) of
        None \<Rightarrow> False
      | Some a \<Rightarrow>
          (case hex_decode (compute_mac sha hmac key meth path body ts nonce) of None \<Rightarrow> a = [] | Some b \<Rightarrow> a = b))"

section \<open>The nonce cache\<close>

text \<open>
  One bucket per member: the LRU list from oldest to newest. The code's \<open>entries\<close> map indexes the same
  elements by nonce; every statement that touches one touches the other, so the list stands for both.
\<close>

record nonce_cache =
  nc_members :: "member_id \<Rightarrow> (string \<times> time) list"
  nc_cap :: nat
  nc_ttl :: duration

definition new_nonce_cache :: "int \<Rightarrow> duration \<Rightarrow> nonce_cache" where
  "new_nonce_cache cap ttl =
     \<lparr>nc_members = (\<lambda>_. []), nc_cap = nat (if cap \<le> 0 then 10000 else cap),
      nc_ttl = (if ttl \<le> 0 then 5 * minute else ttl)\<rparr>"

definition check_and_store :: "time \<Rightarrow> nonce_cache \<Rightarrow> member_id \<Rightarrow> string \<Rightarrow> nonce_cache \<times> bool" where
  "check_and_store now c m nonce =
     (let swept = dropWhile (\<lambda>(_, added). \<not> time_sub now added \<le> nc_ttl c) (nc_members c m)
      in if nonce \<in> set (map fst swept) then (c\<lparr>nc_members := (nc_members c)(m := swept)\<rparr>, False)
         else let pushed = swept @ [(nonce, now)];
                  kept = drop (length pushed - nc_cap c) pushed
              in (c\<lparr>nc_members := (nc_members c)(m := kept)\<rparr>, True))"

definition member_size :: "nonce_cache \<Rightarrow> member_id \<Rightarrow> nat" where
  "member_size c m = length (nc_members c m)"

section \<open>The middleware\<close>

text \<open>
  \<open>strconv.ParseInt(s, 10, 64)\<close>: an optional sign and decimal digits within int64. A body that cannot be
  read is \<open>None\<close>; an absent header reads as the empty string.
\<close>

definition is_digit :: "char \<Rightarrow> bool" where
  "is_digit c \<longleftrightarrow> 48 \<le> (of_char c :: nat) \<and> (of_char c :: nat) \<le> 57"

definition parse_int64 :: "string \<Rightarrow> int option" where
  "parse_int64 s =
     (let (neg, ds) = (case s of [] \<Rightarrow> (False, []) | c # r \<Rightarrow>
            if c = CHR ''-'' then (True, r) else if c = CHR ''+'' then (False, r) else (False, s));
          v = (if neg then - int (undec ds) else int (undec ds))
      in if ds = [] \<or> \<not> list_all is_digit ds then None
         else if v < - (2 ^ 63) \<or> v \<ge> 2 ^ 63 then None else Some v)"

record request =
  rq_method :: string
  rq_path :: string
  rq_body :: "bytes option"
  rq_member :: string
  rq_timestamp :: string
  rq_nonce :: string
  rq_mac :: string

record server =
  tr_keys :: key_provider
  tr_nonces :: nonce_cache
  tr_audit :: "audit_event list"

definition timestamp_skew_max :: duration where "timestamp_skew_max = 60 * second"
definition nonce_ttl :: duration where "nonce_ttl = 5 * minute"
definition max_body :: nat where "max_body = 8 * 1024 * 1024"

definition reject :: "server \<Rightarrow> string \<Rightarrow> server \<times> (string + member_id)" where
  "reject s reason = (s\<lparr>tr_audit := tr_audit s @ [Audit ''transport.auth'' ''deny'' reason]\<rparr>, Inl reason)"

text \<open>The middleware up to the call of the handler, which runs with the member id on the right.\<close>

definition auth_middleware ::
  "(bytes \<Rightarrow> bytes) \<Rightarrow> (bytes \<Rightarrow> bytes \<Rightarrow> bytes) \<Rightarrow> time \<Rightarrow> server \<Rightarrow> request \<Rightarrow> server \<times> (string + member_id)" where
  "auth_middleware sha hmac now s r =
     (case rq_body r of
        None \<Rightarrow> reject s ''body_read''
      | Some body \<Rightarrow>
          if length body > max_body then reject s ''body_read''
          else if rq_member r = [] \<or> rq_timestamp r = [] \<or> rq_nonce r = [] \<or> rq_mac r = []
          then reject s ''missing_headers''
          else case parse_int64 (rq_timestamp r) of
            None \<Rightarrow> reject s ''bad_timestamp''
          | Some millis \<Rightarrow>
              let skew = time_sub now (millis * 1000000)
              in if skew > timestamp_skew_max \<or> skew < - timestamp_skew_max then reject s ''timestamp_skew''
                 else
                   let ok = (verify_mac sha hmac (kp_current (tr_keys s)) (rq_method r) (rq_path r) body millis
                               (rq_nonce r) (rq_mac r) \<or>
                             (case grace now (tr_keys s) of
                                None \<Rightarrow> False
                              | Some g \<Rightarrow> verify_mac sha hmac g (rq_method r) (rq_path r) body millis
                                  (rq_nonce r) (rq_mac r)))
                   in if \<not> ok then reject s ''hmac_mismatch''
                      else case check_and_store now (tr_nonces s) (rq_member r) (rq_nonce r) of
                        (c, False) \<Rightarrow> reject (s\<lparr>tr_nonces := c\<rparr>) ''replay''
                      | (c, True) \<Rightarrow> (s\<lparr>tr_nonces := c\<rparr>, Inr (rq_member r)))"

section \<open>The MAC\<close>

lemma hex_value_digit: "d < 16 \<Longrightarrow> hex_value (hex_digit d) = Some d"
  by (auto simp: hex_value_def of_hex_digit Let_def)

lemma hex_decode_encode [simp]: "hex_decode (hex_encode s) = Some s"
proof (induction s)
  case (Cons c s)
  then show ?case
    by (simp add: hex_encode_def hex_byte_def hex_value_digit nibbles)
qed (simp add: hex_encode_def)

lemma verify_mac_iff:
  "verify_mac sha hmac key meth path body ts nonce provided \<longleftrightarrow>
     hex_decode (to_lower provided) = Some (hmac key (canonical sha meth path body ts nonce))"
  by (simp add: verify_mac_def compute_mac_def split: option.splits)

lemma lower_hex_digit: "d < 16 \<Longrightarrow> lower_char (hex_digit d) = hex_digit d"
  by (auto simp: lower_char_def of_hex_digit Let_def)

lemma to_lower_hex [simp]: "to_lower (hex_encode s) = hex_encode s"
proof (induction s)
  case (Cons c s)
  then show ?case
    by (simp add: to_lower_def hex_encode_def hex_byte_def lower_hex_digit nibbles)
qed (simp add: to_lower_def hex_encode_def)

lemma append_last_sep_inj:
  assumes "free_of c a" "free_of c b"
  shows "r @ [c] @ a = s @ [c] @ b \<longleftrightarrow> r = s \<and> a = b"
proof -
  have "r @ [c] @ a = s @ [c] @ b \<longleftrightarrow> rev (r @ [c] @ a) = rev (s @ [c] @ b)"
    by (simp only: rev_is_rev_conv)
  also have "\<dots> \<longleftrightarrow> rev a @ c # rev r = rev b @ c # rev s" by simp
  also have "\<dots> \<longleftrightarrow> rev a = rev b \<and> rev r = rev s"
    by (rule append_sep_inj) (use assms in \<open>simp_all add: free_of_def\<close>)
  finally show ?thesis by auto
qed

lemma upper_char_LF: "upper_char c = LF \<Longrightarrow> c = LF"
proof -
  assume "upper_char c = LF"
  then have "(of_char (upper_char c) :: nat) = 10" by simp
  then have "(of_char c :: nat) = of_char LF"
    by (auto simp: upper_char_def Let_def split: if_splits)
  then show "c = LF" by (simp only: of_char_eq_iff)
qed

lemma to_upper_free: "free_of LF m \<Longrightarrow> free_of LF (to_upper m)"
  by (auto simp: free_of_def to_upper_def dest: sym upper_char_LF)

text \<open>
  The fields are read back from both ends: the method up to the first line feed, then nonce, timestamp and
  body hash from the last ones. The path in between may itself contain line feeds.
\<close>

lemma canonical_fields:
  assumes "canonical sha m p b t n = canonical sha m' p' b' t' n'"
    and "free_of LF m" "free_of LF m'" "free_of LF n" "free_of LF n'"
  shows "to_upper m = to_upper m' \<and> p = p' \<and> sha b = sha b' \<and> t = t' \<and> n = n'"
proof -
  have shape: "canonical sha m p b t n = to_upper m @ LF # (((p @ [LF] @ hex_encode (sha b)) @ [LF] @ dec_int t) @ [LF] @ n)"
    for m p b t n by (simp add: canonical_def)
  from assms(1) have "to_upper m = to_upper m'"
    and r: "((p @ [LF] @ hex_encode (sha b)) @ [LF] @ dec_int t) @ [LF] @ n =
      ((p' @ [LF] @ hex_encode (sha b')) @ [LF] @ dec_int t') @ [LF] @ n'"
    unfolding shape append_sep_inj [OF to_upper_free [OF assms(2)] to_upper_free [OF assms(3)]] by simp_all
  moreover from r have n: "n = n'" and r1: "(p @ [LF] @ hex_encode (sha b)) @ [LF] @ dec_int t =
      (p' @ [LF] @ hex_encode (sha b')) @ [LF] @ dec_int t'"
    unfolding append_last_sep_inj [OF assms(4,5)] by simp_all
  have dec: "free_of LF (dec_int i)" for i by (rule dec_int_free) simp
  from r1 have t: "t = t'" and r2: "p @ [LF] @ hex_encode (sha b) = p' @ [LF] @ hex_encode (sha b')"
    unfolding append_last_sep_inj [OF dec dec] by (simp_all add: dec_int_inj)
  have hex: "free_of LF (hex_encode x)" for x by (rule hex_encode_free) simp
  from r2 have "p = p' \<and> sha b = sha b'"
    unfolding append_last_sep_inj [OF hex hex] by (simp add: hex_encode_inj)
  with \<open>to_upper m = to_upper m'\<close> n t show ?thesis by simp
qed

section \<open>The nonce cache\<close>

text \<open>
  The log of accepted pairs, oldest first. As long as a member's log stays within the capacity nothing
  is evicted, and the member's bucket is its log without a prefix of expired entries.
\<close>

type_synonym nonce_log = "(member_id \<times> string \<times> time) list"

definition log_of :: "nonce_log \<Rightarrow> member_id \<Rightarrow> (string \<times> time) list" where
  "log_of l m = map snd (filter (\<lambda>e. fst e = m) l)"

definition nonce_inv :: "nonce_cache \<Rightarrow> nonce_log \<Rightarrow> time \<Rightarrow> bool" where
  "nonce_inv c l seen_at \<longleftrightarrow> (\<forall>m. (\<exists>pre. log_of l m = pre @ nc_members c m \<and> (\<forall>(n, t)\<in>set pre. nc_ttl c < seen_at - t))
      \<and> (\<forall>(n, t)\<in>set (log_of l m). t \<le> seen_at))"

definition ttl_sane :: "nonce_cache \<Rightarrow> bool" where
  "ttl_sane c \<longleftrightarrow> 0 \<le> nc_ttl c \<and> nc_ttl c < max_duration"

lemma log_of_snoc: "log_of (l @ [(m, n, t)]) k = log_of l k @ (if k = m then [(n, t)] else [])"
  by (simp add: log_of_def)

lemma check_and_store_frame [simp]:
  "nc_ttl (fst (check_and_store now c m n)) = nc_ttl c" "nc_cap (fst (check_and_store now c m n)) = nc_cap c"
  by (simp_all add: check_and_store_def Let_def)

lemma check_and_store_inv:
  assumes inv: "nonce_inv c l seen_at" "seen_at \<le> now" "ttl_sane c"
    and cap: "snd (check_and_store now c m n) \<Longrightarrow> length (log_of l m) < nc_cap c"
  shows "nonce_inv (fst (check_and_store now c m n)) (if snd (check_and_store now c m n) then l @ [(m, n, now)] else l) now \<and>
    (snd (check_and_store now c m n) \<longrightarrow> (\<forall>t. (n, t) \<in> set (log_of l m) \<longrightarrow> nc_ttl c < now - t))"
proof -
  let ?dead = "\<lambda>(x :: string, added). \<not> time_sub now added \<le> nc_ttl c"
  let ?swept = "dropWhile ?dead (nc_members c m)"
  let ?res = "check_and_store now c m n"
  have dead: "?dead (x, t) \<longleftrightarrow> nc_ttl c < now - t" for x t
    using assms(3) by (simp add: not_le ttl_sane_def time_facts min_duration_def)
  obtain pre where pre: "log_of l m = pre @ nc_members c m" "\<forall>(x, t)\<in>set pre. nc_ttl c < seen_at - t"
    using inv(1) unfolding nonce_inv_def by blast
  obtain pre' where tw: "nc_members c m = pre' @ ?swept" "\<forall>e\<in>set pre'. ?dead e"
    using takeWhile_dropWhile_id [of ?dead "nc_members c m"] set_takeWhileD [of _ ?dead "nc_members c m"] by metis
  have split: "log_of l m = (pre @ pre') @ ?swept" using pre(1) tw(1) by simp
  have exp: "\<forall>(x, t)\<in>set (pre @ pre'). nc_ttl c < now - t"
    using pre(2) tw(2) inv(2) dead by fastforce
  have other: "\<exists>p. log_of l k = p @ nc_members c k \<and> (\<forall>(x, t)\<in>set p. nc_ttl c < now - t)" for k
  proof -
    obtain p where "log_of l k = p @ nc_members c k" "\<forall>(x, t)\<in>set p. nc_ttl c < seen_at - t"
      using inv(1) unfolding nonce_inv_def by blast
    with inv(2) show ?thesis by (intro exI [of _ p]) fastforce
  qed
  have old: "\<forall>(x, t)\<in>set (log_of l k). t \<le> now" for k
    using inv(1,2) unfolding nonce_inv_def by fastforce
  show ?thesis
  proof (cases "n \<in> set (map fst ?swept)")
    case True
    then have res: "?res = (c\<lparr>nc_members := (nc_members c)(m := ?swept)\<rparr>, False)"
      by (simp add: check_and_store_def Let_def)
    have "\<exists>p. log_of l k = p @ nc_members (fst ?res) k \<and> (\<forall>(x, t)\<in>set p. nc_ttl c < now - t)" for k
      using other [of k] split exp res by (cases "k = m") auto
    then show ?thesis using old res unfolding nonce_inv_def by simp
  next
    case False
    then have ok: "snd ?res" by (auto simp: check_and_store_def Let_def)
    have "length ?swept < nc_cap c" using cap [OF ok] split by simp
    then have res: "?res = (c\<lparr>nc_members := (nc_members c)(m := ?swept @ [(n, now)])\<rparr>, True)"
      using False by (auto simp: check_and_store_def Let_def)
    have "nc_ttl c < now - t" if "(n, t) \<in> set (log_of l m)" for t
    proof -
      have "(n, t) \<notin> set ?swept" using False by force
      with that split have "(n, t) \<in> set (pre @ pre')" by simp
      with exp show ?thesis by blast
    qed
    moreover have "\<exists>p. log_of (l @ [(m, n, now)]) k = p @ nc_members (fst ?res) k \<and> (\<forall>(x, t)\<in>set p. nc_ttl c < now - t)" for k
      using other [of k] split exp res by (cases "k = m") (auto simp: log_of_snoc)
    moreover have "\<forall>(x, t)\<in>set (log_of (l @ [(m, n, now)]) k). t \<le> now" for k
      using old [of k] by (auto simp: log_of_snoc)
    ultimately have "nonce_inv (fst ?res) (l @ [(m, n, now)]) now"
      unfolding nonce_inv_def by simp
    moreover have "\<forall>t. (n, t) \<in> set (log_of l m) \<longrightarrow> nc_ttl c < now - t"
      using \<open>\<And>t. (n, t) \<in> set (log_of l m) \<Longrightarrow> nc_ttl c < now - t\<close> by blast
    ultimately show ?thesis using res by simp
  qed
qed

section \<open>What the middleware accepts\<close>

definition mac_ok :: "(bytes \<Rightarrow> bytes) \<Rightarrow> (bytes \<Rightarrow> bytes \<Rightarrow> bytes) \<Rightarrow> bytes \<Rightarrow> request \<Rightarrow> bool" where
  "mac_ok sha hmac key r \<longleftrightarrow> (\<exists>body millis. rq_body r = Some body \<and> parse_int64 (rq_timestamp r) = Some millis \<and>
     hex_decode (to_lower (rq_mac r)) = Some (hmac key (canonical sha (rq_method r) (rq_path r) body millis (rq_nonce r))))"

lemma auth_cases:
  obtains (early) reason where "auth_middleware sha hmac now s r = reject s reason"
  | (replay) "snd (check_and_store now (tr_nonces s) (rq_member r) (rq_nonce r)) = False"
      "auth_middleware sha hmac now s r =
         reject (s\<lparr>tr_nonces := fst (check_and_store now (tr_nonces s) (rq_member r) (rq_nonce r))\<rparr>) ''replay''"
  | (accepted) body millis key where "rq_body r = Some body" "length body \<le> max_body"
      "rq_member r \<noteq> []" "rq_timestamp r \<noteq> []" "rq_nonce r \<noteq> []" "rq_mac r \<noteq> []"
      "parse_int64 (rq_timestamp r) = Some millis" "\<bar>now - millis * 1000000\<bar> \<le> 60 * second"
      "key = kp_current (tr_keys s) \<or> grace now (tr_keys s) = Some key" "mac_ok sha hmac key r"
      "snd (check_and_store now (tr_nonces s) (rq_member r) (rq_nonce r)) = True"
      "auth_middleware sha hmac now s r =
         (s\<lparr>tr_nonces := fst (check_and_store now (tr_nonces s) (rq_member r) (rq_nonce r))\<rparr>, Inr (rq_member r))"
proof (cases "rq_body r")
  case None
  then show thesis by (intro early) (simp add: auth_middleware_def)
next
  case (Some body)
  show thesis
  proof (cases "length body > max_body \<or> rq_member r = [] \<or> rq_timestamp r = [] \<or> rq_nonce r = [] \<or> rq_mac r = []
      \<or> parse_int64 (rq_timestamp r) = None")
    case True
    with Some have "\<exists>reason. auth_middleware sha hmac now s r = reject s reason"
      by (auto simp: auth_middleware_def)
    with early show thesis by blast
  next
    case False
    then obtain millis where h: "length body \<le> max_body" "rq_member r \<noteq> []" "rq_timestamp r \<noteq> []" "rq_nonce r \<noteq> []"
      "rq_mac r \<noteq> []" "parse_int64 (rq_timestamp r) = Some millis" by (auto simp: not_less)
    let ?skew = "time_sub now (millis * 1000000)"
    let ?v = "\<lambda>k. verify_mac sha hmac k (rq_method r) (rq_path r) body millis (rq_nonce r) (rq_mac r)"
    let ?ok = "?v (kp_current (tr_keys s)) \<or> (case grace now (tr_keys s) of None \<Rightarrow> False | Some g \<Rightarrow> ?v g)"
    show thesis
    proof (cases "(?skew > timestamp_skew_max \<or> ?skew < - timestamp_skew_max) \<or> \<not> ?ok")
      case True
      with Some h have "\<exists>reason. auth_middleware sha hmac now s r = reject s reason"
        by (auto simp: auth_middleware_def Let_def not_less)
      with early show thesis by blast
    next
      case False
      then have skew: "\<bar>now - millis * 1000000\<bar> \<le> 60 * second"
        by (auto simp: timestamp_skew_max_def time_facts max_duration_def min_duration_def not_less)
      from False have ok: "?ok" by blast
      then obtain key where key: "key = kp_current (tr_keys s) \<or> grace now (tr_keys s) = Some key" "?v key"
        by (auto split: option.splits)
      then have mac: "mac_ok sha hmac key r" using Some h by (auto simp: mac_ok_def verify_mac_iff)
      obtain c b where cs: "check_and_store now (tr_nonces s) (rq_member r) (rq_nonce r) = (c, b)" by force
      show thesis
      proof (cases b)
        case True
        show thesis
          by (rule accepted [OF Some h skew key(1) mac])
            (use True cs Some h False ok in \<open>auto simp: auth_middleware_def Let_def not_less\<close>)
      next
        case b: False
        show thesis
          by (rule replay) (use b cs Some h False ok in \<open>auto simp: auth_middleware_def Let_def not_less\<close>)
      qed
    qed
  qed
qed

lemma accepted_elim:
  assumes "auth_middleware sha hmac now s r = (s', Inr m)"
  obtains body millis key where "rq_body r = Some body" "length body \<le> max_body"
    "rq_member r \<noteq> []" "rq_timestamp r \<noteq> []" "rq_nonce r \<noteq> []" "rq_mac r \<noteq> []"
    "parse_int64 (rq_timestamp r) = Some millis" "\<bar>now - millis * 1000000\<bar> \<le> 60 * second"
    "key = kp_current (tr_keys s) \<or> grace now (tr_keys s) = Some key" "mac_ok sha hmac key r"
    "m = rq_member r" "s' = s\<lparr>tr_nonces := fst (check_and_store now (tr_nonces s) (rq_member r) (rq_nonce r))\<rparr>"
proof (rule auth_cases [of sha hmac now s r])
  fix reason
  assume "auth_middleware sha hmac now s r = reject s reason"
  with assms show thesis by (simp add: reject_def)
next
  assume "auth_middleware sha hmac now s r =
    reject (s\<lparr>tr_nonces := fst (check_and_store now (tr_nonces s) (rq_member r) (rq_nonce r))\<rparr>) ''replay''"
  with assms show thesis by (simp add: reject_def)
next
  fix body millis key
  assume *: "rq_body r = Some body" "length body \<le> max_body"
    "rq_member r \<noteq> []" "rq_timestamp r \<noteq> []" "rq_nonce r \<noteq> []" "rq_mac r \<noteq> []"
    "parse_int64 (rq_timestamp r) = Some millis" "\<bar>now - millis * 1000000\<bar> \<le> 60 * second"
    "key = kp_current (tr_keys s) \<or> grace now (tr_keys s) = Some key" "mac_ok sha hmac key r"
  assume "auth_middleware sha hmac now s r =
    (s\<lparr>tr_nonces := fst (check_and_store now (tr_nonces s) (rq_member r) (rq_nonce r))\<rparr>, Inr (rq_member r))"
  with assms have "(s', Inr m :: string + member_id) =
    (s\<lparr>tr_nonces := fst (check_and_store now (tr_nonces s) (rq_member r) (rq_nonce r))\<rparr>, Inr (rq_member r))"
    by (rule trans [OF sym])
  then show thesis by (intro that [OF *]) simp_all
qed

lemma skew_ok:
  assumes "\<bar>now - t\<bar> \<le> 60 * second"
  shows "\<not> timestamp_skew_max < time_sub now t" "\<not> time_sub now t < - timestamp_skew_max"
  using assms by (auto simp: timestamp_skew_max_def time_facts max_duration_def min_duration_def not_less)

lemma auth_accepts:
  assumes "rq_body r = Some body" "length body \<le> max_body"
    and "rq_member r \<noteq> []" "rq_timestamp r \<noteq> []" "rq_nonce r \<noteq> []" "rq_mac r \<noteq> []"
    and "parse_int64 (rq_timestamp r) = Some millis" "\<bar>now - millis * 1000000\<bar> \<le> 60 * second"
    and "key = kp_current (tr_keys s) \<or> grace now (tr_keys s) = Some key" "mac_ok sha hmac key r"
    and "snd (check_and_store now (tr_nonces s) (rq_member r) (rq_nonce r))"
  shows "snd (auth_middleware sha hmac now s r) = Inr (rq_member r)"
proof -
  let ?v = "\<lambda>k. verify_mac sha hmac k (rq_method r) (rq_path r) body millis (rq_nonce r) (rq_mac r)"
  have "?v key" using assms(1,7,10) by (simp add: mac_ok_def verify_mac_iff)
  with assms(9) have ok: "?v (kp_current (tr_keys s)) \<or> (case grace now (tr_keys s) of None \<Rightarrow> False | Some g \<Rightarrow> ?v g)"
    by auto
  obtain c where cs: "check_and_store now (tr_nonces s) (rq_member r) (rq_nonce r) = (c, True)"
    using assms(11) by (metis prod.collapse)
  show ?thesis
    unfolding auth_middleware_def Let_def assms(1,7) option.case
    using assms(2-6) skew_ok [OF assms(8)] ok cs by simp
qed

section \<open>Runs of the server\<close>

datatype transport_op = TrRequest request | TrRotate bytes duration | TrDropGrace

definition transport_exec ::
  "(bytes \<Rightarrow> bytes) \<Rightarrow> (bytes \<Rightarrow> bytes \<Rightarrow> bytes) \<Rightarrow> server \<Rightarrow> time \<times> transport_op \<Rightarrow> server" where
  "transport_exec sha hmac s e =
     (case snd e of
        TrRequest r \<Rightarrow> fst (auth_middleware sha hmac (fst e) s r)
      | TrRotate key d \<Rightarrow> (case rotate_key (fst e) (tr_keys s) key d of None \<Rightarrow> s | Some p \<Rightarrow> s\<lparr>tr_keys := p\<rparr>)
      | TrDropGrace \<Rightarrow> s\<lparr>tr_keys := drop_grace (tr_keys s)\<rparr>)"

text \<open>The accepted requests of a run, with the instants of their acceptance.\<close>

fun accepted_requests ::
  "(bytes \<Rightarrow> bytes) \<Rightarrow> (bytes \<Rightarrow> bytes \<Rightarrow> bytes) \<Rightarrow> server \<Rightarrow> (time \<times> transport_op) list \<Rightarrow> (time \<times> request) list" where
  "accepted_requests sha hmac s [] = []"
| "accepted_requests sha hmac s (e # es) =
     (case snd e of
        TrRequest r \<Rightarrow> (case snd (auth_middleware sha hmac (fst e) s r) of Inr m \<Rightarrow> [(fst e, r)] | Inl _ \<Rightarrow> [])
      | _ \<Rightarrow> []) @ accepted_requests sha hmac (transport_exec sha hmac s e) es"

definition request_key :: "time \<times> request \<Rightarrow> string \<times> string \<times> string" where
  "request_key e = (rq_member (snd e), rq_timestamp (snd e), rq_nonce (snd e))"

definition nonce_log_of :: "(time \<times> request) list \<Rightarrow> nonce_log" where
  "nonce_log_of A = map (\<lambda>(t, r). (rq_member r, rq_nonce r, t)) A"

definition within_skew :: "time \<times> request \<Rightarrow> bool" where
  "within_skew e \<longleftrightarrow> (\<exists>millis. parse_int64 (rq_timestamp (snd e)) = Some millis \<and> \<bar>fst e - millis * 1000000\<bar> \<le> 60 * second)"

definition accepted_by :: "member_id \<Rightarrow> (time \<times> request) list \<Rightarrow> nat" where
  "accepted_by m A = length (filter (\<lambda>e. rq_member (snd e) = m) A)"

lemma length_log_of: "length (log_of (nonce_log_of A) m) = accepted_by m A"
  by (induction A) (auto simp: log_of_def nonce_log_of_def accepted_by_def)

lemma log_of_member: "(t, r) \<in> set A \<Longrightarrow> (rq_nonce r, t) \<in> set (log_of (nonce_log_of A) (rq_member r))"
  by (force simp: log_of_def nonce_log_of_def)

lemma nonce_inv_mono: "nonce_inv c l n \<Longrightarrow> n \<le> now \<Longrightarrow> nonce_inv c l now"
  unfolding nonce_inv_def
  by (intro allI conjI) (force, fastforce)

lemma nonce_log_snoc: "nonce_log_of (A @ [(t, r)]) = nonce_log_of A @ [(rq_member r, rq_nonce r, t)]"
  by (simp add: nonce_log_of_def)

lemma reject_nonces [simp]: "tr_nonces (fst (reject s reason)) = tr_nonces s" "snd (reject s reason) = Inl reason"
  by (simp_all add: reject_def)

text \<open>One step of a run: the log grows by what was accepted, and only by fresh keys.\<close>

definition step_accepts ::
  "(bytes \<Rightarrow> bytes) \<Rightarrow> (bytes \<Rightarrow> bytes \<Rightarrow> bytes) \<Rightarrow> server \<Rightarrow> time \<times> transport_op \<Rightarrow> (time \<times> request) list" where
  "step_accepts sha hmac s e =
     (case snd e of
        TrRequest r \<Rightarrow> (case snd (auth_middleware sha hmac (fst e) s r) of Inr m \<Rightarrow> [(fst e, r)] | Inl _ \<Rightarrow> [])
      | _ \<Rightarrow> [])"

lemma accepted_requests_Cons:
  "accepted_requests sha hmac s (e # es) = step_accepts sha hmac s e @ accepted_requests sha hmac (transport_exec sha hmac s e) es"
  by (simp add: step_accepts_def)

lemma transport_step:
  assumes inv: "nonce_inv (tr_nonces s) (nonce_log_of A) n" "n \<le> now" "ttl_sane (tr_nonces s)"
    and ttl: "120 * second \<le> nc_ttl (tr_nonces s)"
    and A: "\<forall>e\<in>set A. within_skew e" "distinct (map request_key A)"
    and cap: "\<forall>m. accepted_by m (A @ step_accepts sha hmac s (now, x)) \<le> nc_cap (tr_nonces s)"
  shows "nonce_inv (tr_nonces (transport_exec sha hmac s (now, x))) (nonce_log_of (A @ step_accepts sha hmac s (now, x))) now \<and>
    nc_ttl (tr_nonces (transport_exec sha hmac s (now, x))) = nc_ttl (tr_nonces s) \<and>
    nc_cap (tr_nonces (transport_exec sha hmac s (now, x))) = nc_cap (tr_nonces s) \<and>
    (\<forall>e\<in>set (A @ step_accepts sha hmac s (now, x)). within_skew e) \<and>
    distinct (map request_key (A @ step_accepts sha hmac s (now, x)))"
proof (cases x)
  case (TrRequest r)
  let ?c = "check_and_store now (tr_nonces s) (rq_member r) (rq_nonce r)"
  show ?thesis
  proof (cases rule: auth_cases [of sha hmac now s r])
    case (early reason)
    then show ?thesis
      using TrRequest A nonce_inv_mono [OF inv(1,2)] by (simp add: transport_exec_def step_accepts_def)
  next
    case replay
    have "nonce_inv (fst ?c) (nonce_log_of A) now"
      using check_and_store_inv [OF inv, of "rq_member r" "rq_nonce r"] replay(1) by simp
    then show ?thesis
      using TrRequest A replay by (simp add: transport_exec_def step_accepts_def)
  next
    case (accepted body millis key)
    have st: "step_accepts sha hmac s (now, x) = [(now, r)]"
      "tr_nonces (transport_exec sha hmac s (now, x)) = fst ?c"
      using TrRequest accepted(12) by (simp_all add: step_accepts_def transport_exec_def)
    have "accepted_by (rq_member r) (A @ [(now, r)]) = accepted_by (rq_member r) A + 1"
      by (simp add: accepted_by_def)
    with cap st have "length (log_of (nonce_log_of A) (rq_member r)) < nc_cap (tr_nonces s)"
      unfolding length_log_of by (metis Suc_eq_plus1 Suc_le_eq)
    from check_and_store_inv [OF inv, where m = "rq_member r" and n = "rq_nonce r", OF this] accepted(11)
    have inv': "nonce_inv (fst ?c) (nonce_log_of (A @ [(now, r)])) now"
      and fresh: "\<And>t. (rq_nonce r, t) \<in> set (log_of (nonce_log_of A) (rq_member r)) \<Longrightarrow> nc_ttl (tr_nonces s) < now - t"
      by (auto simp: nonce_log_snoc)
    have ws: "within_skew (now, r)" using accepted(7,8) by (simp add: within_skew_def)
    have "request_key (now, r) \<notin> request_key ` set A"
    proof
      assume "request_key (now, r) \<in> request_key ` set A"
      then obtain t r' where e: "(t, r') \<in> set A" "rq_member r' = rq_member r" "rq_timestamp r' = rq_timestamp r"
        "rq_nonce r' = rq_nonce r" by (auto simp: request_key_def)
      have "nc_ttl (tr_nonces s) < now - t" using fresh log_of_member [OF e(1)] e by simp
      moreover obtain m where "parse_int64 (rq_timestamp r) = Some m" "\<bar>t - m * 1000000\<bar> \<le> 60 * second"
        using A(1) e(1,3) unfolding within_skew_def by (metis fst_conv snd_conv)
      ultimately show False using accepted(7,8) ttl by simp
    qed
    with inv' ws A show ?thesis unfolding st by simp
  qed
next
  case (TrRotate key d)
  then show ?thesis
    using A nonce_inv_mono [OF inv(1,2)] by (simp add: transport_exec_def step_accepts_def split: option.split)
next
  case TrDropGrace
  then show ?thesis using A nonce_inv_mono [OF inv(1,2)] by (simp add: transport_exec_def step_accepts_def)
qed

lemma accepted_by_append: "accepted_by m (A @ B) = accepted_by m A + accepted_by m B"
  by (simp add: accepted_by_def)

lemma accepted_by_length: "accepted_by m (accepted_requests sha hmac s es) \<le> length es"
proof (induction es arbitrary: s)
  case (Cons e es)
  have "accepted_by m (step_accepts sha hmac s e) \<le> 1"
    by (auto simp: step_accepts_def accepted_by_def split: transport_op.split sum.split)
  with Cons.IH [of "transport_exec sha hmac s e"] show ?case
    unfolding accepted_requests_Cons accepted_by_append by simp
qed (simp add: accepted_by_def)

lemma accepted_distinct_from:
  assumes "nonce_inv (tr_nonces s) (nonce_log_of A) n" "ttl_sane (tr_nonces s)" "120 * second \<le> nc_ttl (tr_nonces s)"
    and "sorted (map fst es)" "\<forall>e\<in>set es. n \<le> fst e" "\<forall>e\<in>set A. within_skew e" "distinct (map request_key A)"
    and "\<forall>m. accepted_by m (A @ accepted_requests sha hmac s es) \<le> nc_cap (tr_nonces s)"
  shows "distinct (map request_key (A @ accepted_requests sha hmac s es))"
  using assms
proof (induction es arbitrary: s A n)
  case (Cons e es)
  obtain now x where e: "e = (now, x)" by (cases e)
  let ?P = "step_accepts sha hmac s (now, x)" and ?s = "transport_exec sha hmac s (now, x)"
  have "\<forall>m. accepted_by m (A @ ?P) \<le> nc_cap (tr_nonces s)"
    using Cons.prems(8) unfolding accepted_requests_Cons e accepted_by_append by (meson add_leD1 add_le_mono le_trans le_add1 order_refl)
  with Cons.prems e have st: "nonce_inv (tr_nonces ?s) (nonce_log_of (A @ ?P)) now"
    "nc_ttl (tr_nonces ?s) = nc_ttl (tr_nonces s)" "nc_cap (tr_nonces ?s) = nc_cap (tr_nonces s)"
    "\<forall>e\<in>set (A @ ?P). within_skew e" "distinct (map request_key (A @ ?P))"
    using transport_step [of s A n now sha hmac x] by auto
  have "distinct (map request_key ((A @ ?P) @ accepted_requests sha hmac ?s es))"
  proof (rule Cons.IH [OF st(1)])
    show "ttl_sane (tr_nonces ?s)" using Cons.prems(2) st(2) by (simp add: ttl_sane_def)
    show "120 * second \<le> nc_ttl (tr_nonces ?s)" using Cons.prems(3) st(2) by simp
    show "sorted (map fst es)" "\<forall>e\<in>set es. now \<le> fst e" using Cons.prems(4) e by auto
    show "\<forall>e\<in>set (A @ ?P). within_skew e" "distinct (map request_key (A @ ?P))" by (fact st)+
    show "\<forall>m. accepted_by m ((A @ ?P) @ accepted_requests sha hmac ?s es) \<le> nc_cap (tr_nonces ?s)"
      using Cons.prems(8) unfolding accepted_requests_Cons e st(3) by simp
  qed
  then show ?case unfolding accepted_requests_Cons e by simp
qed simp

section \<open>Properties\<close>

text \<open>The MAC input determines the request. Two requests whose methods and nonces contain no line feed (HTTP
  does not allow one) have the same canonical text only if they have the same method (up to case), path,
  body hash, timestamp and nonce, even when the decoded path contains line feeds.\<close>

theorem canonical_injective:
  assumes "canonical sha m p b t n = canonical sha m' p' b' t' n'"
    and "free_of LF m" "free_of LF m'" "free_of LF n" "free_of LF n'"
  shows "to_upper m = to_upper m' \<and> p = p' \<and> sha b = sha b' \<and> t = t' \<and> n = n'"
  using assms by (rule canonical_fields)

theorem canonical_injective_witness:
  "to_upper ''post'' = to_upper ''POST'' \<and> ''/clan/leave'' = ''/clan/leave'' \<and> rev ''x'' = rev ''x'' \<and> 5 = (5::int) \<and> ''n'' = ''n''"
  by (rule canonical_injective [where sha = rev]) code_simp+

text \<open>C3: No request is accepted twice. In a run of the server on a clock that does not go back, with any key
  rotations in between, from an empty nonce cache with a TTL of at least two minutes, as long as no member
  has more accepted requests than the cache holds for it, no two accepted requests carry the same member,
  timestamp and nonce headers.\<close>

theorem no_replay:
  assumes "nc_members (tr_nonces s) = (\<lambda>_. [])" "120 * second \<le> nc_ttl (tr_nonces s)" "nc_ttl (tr_nonces s) < max_duration"
    and "sorted (map fst es)" "\<forall>m. accepted_by m (accepted_requests sha hmac s es) \<le> nc_cap (tr_nonces s)"
  shows "distinct (map request_key (accepted_requests sha hmac s es))"
proof (cases es)
  case Nil
  then show ?thesis by simp
next
  case (Cons e es')
  have "nonce_inv (tr_nonces s) (nonce_log_of []) (fst e)"
    using assms(1) by (simp add: nonce_inv_def nonce_log_of_def log_of_def)
  from accepted_distinct_from [OF this, of es sha hmac] show ?thesis
    using assms Cons by (auto simp: ttl_sane_def)
qed

definition sample_server :: server where
  "sample_server = \<lparr>tr_keys = \<lparr>kp_current = ''key'', kp_grace = None, kp_grace_expiry = zero_time\<rparr>,
     tr_nonces = new_nonce_cache 0 0, tr_audit = []\<rparr>"

definition sample_request :: "member_id \<Rightarrow> request" where
  "sample_request m = \<lparr>rq_method = ''GET'', rq_path = ''/clan/peers'', rq_body = Some [], rq_member = m,
     rq_timestamp = ''1000'', rq_nonce = ''n1'',
     rq_mac = compute_mac rev (\<lambda>k t. k @ t) ''key'' ''GET'' ''/clan/peers'' [] 1000 ''n1''\<rparr>"

definition rotated_keys :: key_provider where
  "rotated_keys = \<lparr>kp_current = ''key2'', kp_grace = Some ''key'', kp_grace_expiry = minute\<rparr>"

lemma sample_millis: "parse_int64 (rq_timestamp (sample_request m)) = Some 1000"
proof -
  have "parse_int64 ''1000'' = Some 1000" by code_simp
  then show ?thesis by (simp add: sample_request_def)
qed

lemma sample_mac: "mac_ok rev (\<lambda>k t. k @ t) ''key'' (sample_request m)"
  using sample_millis [of m] unfolding mac_ok_def
  by (simp add: sample_request_def compute_mac_def)

lemma sample_mac_key2: "\<not> mac_ok rev (\<lambda>k t. k @ t) ''key2'' (sample_request m)"
  unfolding mac_ok_def sample_millis
  by (simp add: sample_request_def compute_mac_def canonical_def to_upper_def upper_char_def)

lemma sample_accepted:
  assumes "m \<noteq> []" "''key'' = kp_current (tr_keys s) \<or> grace second (tr_keys s) = Some ''key''"
    and "nc_members (tr_nonces s) m = []"
  shows "\<exists>s'. auth_middleware rev (\<lambda>k t. k @ t) second s (sample_request m) = (s', Inr m)"
proof -
  have "snd (auth_middleware rev (\<lambda>k t. k @ t) second s (sample_request m)) = Inr (rq_member (sample_request m))"
  proof (rule auth_accepts [where body = "[]" and millis = 1000 and key = "''key''"])
    show "snd (check_and_store second (tr_nonces s) (rq_member (sample_request m)) (rq_nonce (sample_request m)))"
      using assms(3) by (simp add: check_and_store_def sample_request_def)
    show "rq_mac (sample_request m) \<noteq> []"
      by (simp add: sample_request_def compute_mac_def hex_encode_def hex_byte_def)
    show "\<bar>second - 1000 * 1000000\<bar> \<le> 60 * second" by simp
  qed (use assms(1,2) sample_mac sample_millis in \<open>simp_all add: sample_request_def\<close>)
  then show ?thesis by (cases "auth_middleware rev (\<lambda>k t. k @ t) second s (sample_request m)") (simp add: sample_request_def)
qed

theorem no_replay_witness:
  "distinct (map request_key (accepted_requests rev (\<lambda>k t. k @ t) sample_server
     [(second, TrRequest (sample_request ''a'')), (2 * second, TrRequest (sample_request ''a''))]))"
proof (rule no_replay)
  show "\<forall>m. accepted_by m (accepted_requests rev (\<lambda>k t. k @ t) sample_server
     [(second, TrRequest (sample_request ''a'')), (2 * second, TrRequest (sample_request ''a''))]) \<le> nc_cap (tr_nonces sample_server)"
    by (intro allI order_trans [OF accepted_by_length]) (simp add: sample_server_def new_nonce_cache_def)
qed (simp_all add: sample_server_def new_nonce_cache_def max_duration_def)

text \<open>C4: What authentication establishes, across a key rotation. After the clan key was rotated at \<open>t\<close> with a
  grace of \<open>d\<close>, a request is let through only under the id it names, with a timestamp within 60 seconds of
  the server's clock and a MAC that verifies under the new key, or, no later than \<open>t + d\<close>, under the one
  it replaced.\<close>

theorem accepted_request_is_authentic:
  assumes "rotate_key t p new_key d = Some p'" "tr_keys s = p'"
    and "auth_middleware sha hmac now s r = (s', Inr m)"
  shows "m = rq_member r \<and> m \<noteq> [] \<and>
    (\<exists>millis. parse_int64 (rq_timestamp r) = Some millis \<and> \<bar>now - millis * 1000000\<bar> \<le> 60 * second) \<and>
    (mac_ok sha hmac new_key r \<or> now \<le> t + d \<and> mac_ok sha hmac (kp_current p) r)"
proof -
  have keys: "kp_current p' = new_key" "grace now p' = (if now > t + d then None else Some (kp_current p))"
    using assms(1) by (auto simp: rotate_key_def grace_def split: if_splits)
  show ?thesis
  proof (rule accepted_elim [OF assms(3)])
    fix body millis key
    assume *: "rq_member r \<noteq> []" "parse_int64 (rq_timestamp r) = Some millis" "\<bar>now - millis * 1000000\<bar> \<le> 60 * second"
      "m = rq_member r" "mac_ok sha hmac key r"
    assume "key = kp_current (tr_keys s) \<or> grace now (tr_keys s) = Some key"
    then have "key = new_key \<or> now \<le> t + d \<and> key = kp_current p"
      unfolding assms(2) keys by (cases "t + d < now") auto
    with *(5) have "mac_ok sha hmac new_key r \<or> now \<le> t + d \<and> mac_ok sha hmac (kp_current p) r" by blast
    with * show ?thesis by simp
  qed
qed

theorem accepted_request_is_authentic_witness:
  "\<exists>s'. auth_middleware rev (\<lambda>k t. k @ t) second
     (sample_server\<lparr>tr_keys := rotated_keys\<rparr>) (sample_request ''a'') = (s', Inr ''a'') \<and>
     mac_ok rev (\<lambda>k t. k @ t) ''key'' (sample_request ''a'')"
proof -
  obtain s' where s': "auth_middleware rev (\<lambda>k t. k @ t) second (sample_server\<lparr>tr_keys := rotated_keys\<rparr>) (sample_request ''a'') = (s', Inr ''a'')"
    using sample_accepted [of "''a''" "sample_server\<lparr>tr_keys := rotated_keys\<rparr>"]
    by (auto simp: rotated_keys_def grace_def sample_server_def new_nonce_cache_def)
  have rot: "rotate_key 0 (tr_keys sample_server) ''key2'' minute = Some rotated_keys"
    by (simp add: rotate_key_def sample_server_def rotated_keys_def)
  from accepted_request_is_authentic [OF rot _ s'] sample_mac_key2
  have "mac_ok rev (\<lambda>k t. k @ t) (kp_current (tr_keys sample_server)) (sample_request ''a'')" by simp
  with s' show ?thesis by (simp add: sample_server_def)
qed

text \<open>C26: The member header is not authenticated. The MAC does not cover the member id: whoever captures an
  accepted request can present it again under any other non-empty member id that has not used the nonce,
  and the server lets it through as that member.\<close>

theorem member_header_unauthenticated:
  assumes "auth_middleware sha hmac now s r = (s', Inr m)" "m' \<noteq> m" "m' \<noteq> []"
    and "rq_nonce r \<notin> fst ` set (nc_members (tr_nonces s) m')"
  shows "snd (auth_middleware sha hmac now s' (r\<lparr>rq_member := m'\<rparr>)) = Inr m'"
proof (rule accepted_elim [OF assms(1)])
  fix body millis key
  assume r: "rq_body r = Some body" "length body \<le> max_body"
    "rq_member r \<noteq> []" "rq_timestamp r \<noteq> []" "rq_nonce r \<noteq> []" "rq_mac r \<noteq> []"
    "parse_int64 (rq_timestamp r) = Some millis" "\<bar>now - millis * 1000000\<bar> \<le> 60 * second"
    "key = kp_current (tr_keys s) \<or> grace now (tr_keys s) = Some key" "mac_ok sha hmac key r"
  assume m: "m = rq_member r"
    and s': "s' = s\<lparr>tr_nonces := fst (check_and_store now (tr_nonces s) (rq_member r) (rq_nonce r))\<rparr>"
  have bucket: "nc_members (tr_nonces s') m' = nc_members (tr_nonces s) m'"
    using assms(2) unfolding m s' by (simp add: check_and_store_def Let_def)
  have "rq_nonce r \<notin> set (map fst (dropWhile P (nc_members (tr_nonces s') m')))" for P
    unfolding bucket set_map using assms(4) set_dropWhileD [of _ P] by blast
  then have fresh: "snd (check_and_store now (tr_nonces s') m' (rq_nonce r))"
    by (simp add: check_and_store_def Let_def)
  have "snd (auth_middleware sha hmac now s' (r\<lparr>rq_member := m'\<rparr>)) = Inr (rq_member (r\<lparr>rq_member := m'\<rparr>))"
    by (rule auth_accepts [where body = body and millis = millis and key = key])
      (use r fresh assms(3) in \<open>simp_all add: s' mac_ok_def\<close>)
  then show ?thesis by simp
qed

theorem member_header_unauthenticated_witness:
  "\<exists>s'. auth_middleware rev (\<lambda>k t. k @ t) second sample_server (sample_request ''a'') = (s', Inr ''a'') \<and>
     snd (auth_middleware rev (\<lambda>k t. k @ t) second s' ((sample_request ''a'')\<lparr>rq_member := ''b''\<rparr>)) = Inr ''b''"
proof -
  obtain s' where s': "auth_middleware rev (\<lambda>k t. k @ t) second sample_server (sample_request ''a'') = (s', Inr ''a'')"
    using sample_accepted [of "''a''" sample_server] by (auto simp: sample_server_def new_nonce_cache_def)
  with member_header_unauthenticated [OF s', of "''b''"] show ?thesis
    by (simp add: sample_server_def new_nonce_cache_def)
qed

end
