(* ===== verification/KeyRotate.thy ===== *)
theory KeyRotate
  imports Transport Invites Peers
begin

text \<open>
  Clan-key rotation by two-phase commit (\<open>cland/internal/keyrotate\<close>): the member's proposal store
  (\<open>store.go\<close>) and its three endpoints (\<open>member.go\<close>), the Orchestrator's coordinator
  (\<open>coordinator.go\<close>), the trigger endpoint (\<open>trigger.go\<close>), and the choice of the peers to consult
  (the daemon's \<open>main.go\<close>). The rotater on both sides is the key provider of \<open>Transport\<close>. Random
  bytes and the network are parameters; the requests of a broadcast are served in any given order.
\<close>

section \<open>Types\<close>

definition propose_timeout :: duration where "propose_timeout = 60 * second"
definition member_revert_after :: duration where "member_revert_after = 90 * second"
definition default_grace_duration :: duration where "default_grace_duration = 5 * minute"
definition key_len :: nat where "key_len = 32"

datatype rotate_error =
    CorruptKey | ErrBadKey | ErrAlreadyPending | ErrUnknownPropose | EmptyKey
  | NoRandomKey | NoProposeId | SelfRotateFailed

record propose_request =
  pr_propose_id :: string
  pr_new_key_b64 :: string
  pr_propose_ts :: time

record commit_request =
  cr_propose_id :: string
  cr_commit_ts :: time
  cr_grace_duration :: duration

record abort_request =
  ar_propose_id :: string
  ar_reason :: string

record ack_response =
  ack_propose_id :: string
  ack_accepted :: bool
  ack_reason :: "rotate_error option"

definition new_key :: "propose_request \<Rightarrow> rotate_error + bytes" where
  "new_key r =
     (case std_decode (pr_new_key_b64 r) of
        None \<Rightarrow> Inl CorruptKey
      | Some b \<Rightarrow> if length b \<noteq> key_len then Inl ErrBadKey else Inr b)"

section \<open>The proposal store\<close>

record pending =
  pd_propose_id :: string
  pd_new_key :: bytes
  pd_received_at :: time

type_synonym propose_store = "pending option"

definition put_proposal :: "time \<Rightarrow> propose_store \<Rightarrow> propose_request \<Rightarrow> propose_store \<times> (rotate_error + bool)" where
  "put_proposal now s p =
     (case new_key p of
        Inl e \<Rightarrow> (s, Inl e)
      | Inr key \<Rightarrow>
          let fresh = Some \<lparr>pd_propose_id = pr_propose_id p, pd_new_key = key, pd_received_at = now\<rparr>
          in case s of
               None \<Rightarrow> (fresh, Inr True)
             | Some pd \<Rightarrow>
                 if pd_propose_id pd = pr_propose_id p then (s, Inr True)
                 else if time_sub now (pd_received_at pd) < member_revert_after then (s, Inl ErrAlreadyPending)
                 else (fresh, Inr True))"

definition take_proposal :: "propose_store \<Rightarrow> string \<Rightarrow> propose_store \<times> bytes option" where
  "take_proposal s propose_id =
     (case s of
        None \<Rightarrow> (s, None)
      | Some pd \<Rightarrow> if pd_propose_id pd \<noteq> propose_id then (s, None) else (None, Some (pd_new_key pd)))"

definition clear_proposal :: "propose_store \<Rightarrow> string \<Rightarrow> propose_store \<times> bool" where
  "clear_proposal s propose_id =
     (case s of
        None \<Rightarrow> (s, False)
      | Some pd \<Rightarrow> if pd_propose_id pd \<noteq> propose_id then (s, False) else (None, True))"

definition pending_id :: "propose_store \<Rightarrow> string" where
  "pending_id s = (case s of None \<Rightarrow> [] | Some pd \<Rightarrow> pd_propose_id pd)"

definition sweep_expired :: "time \<Rightarrow> propose_store \<Rightarrow> propose_store \<times> bool" where
  "sweep_expired now s =
     (case s of
        None \<Rightarrow> (s, False)
      | Some pd \<Rightarrow>
          if time_sub now (pd_received_at pd) < member_revert_after then (s, False) else (None, True))"

section \<open>The member's endpoints\<close>

record member_node =
  mn_store :: propose_store
  mn_keys :: key_provider
  mn_audit :: "audit_event list"

definition member_audit :: "member_node \<Rightarrow> string \<Rightarrow> string \<Rightarrow> member_node" where
  "member_audit n decision reason =
     n\<lparr>mn_audit := mn_audit n @ [Audit ''keyrotate.member'' decision reason]\<rparr>"

text \<open>A body that does not decode is \<open>None\<close>; the reply without an acknowledgement is the error body.\<close>

type_synonym rotate_reply = "http_status \<times> ack_response option"

definition handle_propose :: "time \<Rightarrow> member_node \<Rightarrow> propose_request option \<Rightarrow> member_node \<times> rotate_reply" where
  "handle_propose now n req =
     (case req of
        None \<Rightarrow> (n, 400, None)
      | Some p \<Rightarrow>
          let ack = \<lparr>ack_propose_id = pr_propose_id p, ack_accepted = False, ack_reason = None\<rparr>
          in case put_proposal now (mn_store n) p of
               (s, Inl e) \<Rightarrow>
                 (member_audit (n\<lparr>mn_store := s\<rparr>) ''deny'' ''propose_rejected'',
                  (if e = ErrBadKey then 400 else 409), Some (ack\<lparr>ack_reason := Some e\<rparr>))
             | (s, Inr accepted) \<Rightarrow>
                 if \<not> accepted then (n\<lparr>mn_store := s\<rparr>, 409, Some ack)
                 else (member_audit (n\<lparr>mn_store := s\<rparr>) ''allow'' ''propose_accepted'',
                       200, Some (ack\<lparr>ack_accepted := True\<rparr>)))"

definition handle_commit :: "time \<Rightarrow> member_node \<Rightarrow> commit_request option \<Rightarrow> member_node \<times> rotate_reply" where
  "handle_commit now n req =
     (case req of
        None \<Rightarrow> (n, 400, None)
      | Some c \<Rightarrow>
          let ack = \<lparr>ack_propose_id = cr_propose_id c, ack_accepted = False, ack_reason = None\<rparr>
          in case take_proposal (mn_store n) (cr_propose_id c) of
               (s, None) \<Rightarrow>
                 (member_audit (n\<lparr>mn_store := s\<rparr>) ''deny'' ''commit_no_pending'',
                  409, Some (ack\<lparr>ack_reason := Some ErrUnknownPropose\<rparr>))
             | (s, Some key) \<Rightarrow>
                 let grace_dur = (if cr_grace_duration c \<le> 0 then default_grace_duration else cr_grace_duration c)
                 in case rotate_key now (mn_keys n) key grace_dur of
                      None \<Rightarrow>
                        (member_audit (n\<lparr>mn_store := s\<rparr>) ''deny'' ''commit_rotate_failed'',
                         500, Some (ack\<lparr>ack_reason := Some EmptyKey\<rparr>))
                    | Some ks \<Rightarrow>
                        (member_audit (n\<lparr>mn_store := s, mn_keys := ks\<rparr>) ''allow'' ''commit_applied'',
                         200, Some (ack\<lparr>ack_accepted := True\<rparr>)))"

definition handle_abort :: "member_node \<Rightarrow> abort_request option \<Rightarrow> member_node \<times> rotate_reply" where
  "handle_abort n req =
     (case req of
        None \<Rightarrow> (n, 400, None)
      | Some a \<Rightarrow>
          (case clear_proposal (mn_store n) (ar_propose_id a) of
             (s, cleared) \<Rightarrow>
               (member_audit (n\<lparr>mn_store := s\<rparr>) ''allow'' ''abort_received'',
                200, Some \<lparr>ack_propose_id = ar_propose_id a, ack_accepted = cleared, ack_reason = None\<rparr>)))"

section \<open>The coordinator\<close>

record rotate_peer =
  rp_member_id :: member_id
  rp_address :: string

record coordinator =
  co_self_id :: member_id
  co_keys :: key_provider
  co_propose_timeout :: duration
  co_grace_duration :: duration
  co_audit :: "audit_event list"

definition new_coordinator :: "member_id \<Rightarrow> key_provider \<Rightarrow> duration \<Rightarrow> duration \<Rightarrow> coordinator option" where
  "new_coordinator self_id ks timeout grace_dur =
     (if self_id = [] then None
      else Some \<lparr>co_self_id = self_id, co_keys = ks,
        co_propose_timeout = (if timeout \<le> 0 then propose_timeout else timeout),
        co_grace_duration = (if grace_dur \<le> 0 then default_grace_duration else grace_dur), co_audit = []\<rparr>)"

text \<open>
  The peers consulted: the members of the persisted roster that are active, other than the daemon itself,
  and present in the registry with an address.
\<close>

definition peer_source :: "member_id \<Rightarrow> clan option \<Rightarrow> registry \<Rightarrow> rotate_peer list" where
  "peer_source self_id c r =
     (case c of
        None \<Rightarrow> []
      | Some c \<Rightarrow>
          let active = set (map rm_id (filter (\<lambda>m. rm_state m = ''active'' \<and> rm_id m \<noteq> self_id) (cl_roster c)))
          in map (\<lambda>m. \<lparr>rp_member_id = pm_id m, rp_address = pm_address m\<rparr>)
               (filter (\<lambda>m. pm_id m \<in> active \<and> pm_address m \<noteq> []) (snd (snapshot r))))"

text \<open>
  The three messages of the protocol; the constructor stands for the path. A poster takes the receiver's
  address and yields the status of the answer, or \<open>None\<close> when there is none.
\<close>

datatype rotate_msg = Propose propose_request | Commit commit_request | Abort abort_request

type_synonym 'w rotate_poster = "'w \<Rightarrow> string \<Rightarrow> rotate_msg \<Rightarrow> 'w \<times> http_status option"

record peer_result =
  res_member_id :: member_id
  res_ok :: bool
  res_status :: http_status

definition send_one :: "'w rotate_poster \<Rightarrow> 'w \<Rightarrow> rotate_peer \<Rightarrow> rotate_msg \<Rightarrow> 'w \<times> peer_result" where
  "send_one post w p msg =
     (case post w (rp_address p) msg of
        (w', None) \<Rightarrow> (w', \<lparr>res_member_id = rp_member_id p, res_ok = False, res_status = 0\<rparr>)
      | (w', Some st) \<Rightarrow> (w', \<lparr>res_member_id = rp_member_id p, res_ok = (st = 200), res_status = st\<rparr>))"

text \<open>
  One goroutine per peer, each writing its own slot of the results. The order in which the peers are
  served is a schedule: a permutation of the indices.
\<close>

fun broadcast_in ::
  "'w rotate_poster \<Rightarrow> rotate_peer list \<Rightarrow> rotate_msg \<Rightarrow> nat list \<Rightarrow> 'w \<times> peer_result list \<Rightarrow> 'w \<times> peer_result list" where
  "broadcast_in post ps msg [] wr = wr"
| "broadcast_in post ps msg (i # is) wr =
     (case send_one post (fst wr) (ps ! i) msg of
        (w', r) \<Rightarrow> broadcast_in post ps msg is (w', (snd wr)[i := r]))"

definition broadcast ::
  "'w rotate_poster \<Rightarrow> nat list \<Rightarrow> rotate_peer list \<Rightarrow> rotate_msg \<Rightarrow> 'w \<Rightarrow> 'w \<times> peer_result list" where
  "broadcast post sched ps msg w =
     broadcast_in post ps msg sched
       (w, replicate (length ps) \<lparr>res_member_id = [], res_ok = False, res_status = 0\<rparr>)"

definition peers_by_id :: "rotate_peer list \<Rightarrow> member_id list \<Rightarrow> rotate_peer list" where
  "peers_by_id ps ids = filter (\<lambda>p. rp_member_id p \<in> set ids) ps"

record rotate_result =
  rr_propose_id :: string
  rr_committed :: bool
  rr_acked_by :: "member_id list"
  rr_failed_by :: "member_id list"
  rr_aborted_at :: "time option"

definition coordinator_audit :: "coordinator \<Rightarrow> string \<Rightarrow> string \<Rightarrow> coordinator" where
  "coordinator_audit co decision reason =
     co\<lparr>co_audit := co_audit co @ [Audit ''keyrotate.coordinator'' decision reason]\<rparr>"

text \<open>
  What one call of \<open>Rotate\<close> draws and reads: the random key and proposal id (\<open>None\<close> when there is no
  randomness), the clock at each use, and the schedules of the three broadcasts for a number of peers.
\<close>

record rotate_env =
  re_key :: "bytes option"
  re_propose_id :: "string option"
  re_propose_now :: time
  re_abort_now :: time
  re_commit_now :: time
  re_rotate_now :: time
  re_propose_sched :: "nat \<Rightarrow> nat list"
  re_commit_sched :: "nat \<Rightarrow> nat list"
  re_abort_sched :: "nat \<Rightarrow> nat list"

definition rotate ::
  "'w rotate_poster \<Rightarrow> rotate_env \<Rightarrow> rotate_peer list \<Rightarrow> coordinator \<times> 'w
     \<Rightarrow> (coordinator \<times> 'w) \<times> (rotate_error + rotate_result)" where
  "rotate post e ps cw =
     (case cw of (co, w) \<Rightarrow>
      case re_key e of
        None \<Rightarrow> ((co, w), Inl NoRandomKey)
      | Some key \<Rightarrow>
     (case re_propose_id e of
        None \<Rightarrow> ((co, w), Inl NoProposeId)
      | Some prop_id \<Rightarrow>
          let res = \<lparr>rr_propose_id = prop_id, rr_committed = False, rr_acked_by = [], rr_failed_by = [],
                     rr_aborted_at = None\<rparr>
          in if ps = [] then
               (case rotate_key (re_rotate_now e) (co_keys co) key (co_grace_duration co) of
                  None \<Rightarrow> ((co, w), Inl SelfRotateFailed)
                | Some ks \<Rightarrow>
                    ((coordinator_audit (co\<lparr>co_keys := ks\<rparr>) ''allow'' ''rotate_lone'', w),
                     Inr (res\<lparr>rr_committed := True\<rparr>)))
             else
               let proposal = Propose \<lparr>pr_propose_id = prop_id, pr_new_key_b64 = std_encode key,
                                       pr_propose_ts = re_propose_now e\<rparr>
               in (case broadcast post (re_propose_sched e (length ps)) ps proposal w of
                     (w1, results) \<Rightarrow>
                       let acked = map res_member_id (filter res_ok results);
                           failed = map res_member_id (filter (\<lambda>r. \<not> res_ok r) results);
                           res1 = res\<lparr>rr_acked_by := acked, rr_failed_by := failed\<rparr>
                       in if length failed > 0 then
                            let acked_peers = peers_by_id ps acked;
                                abort = Abort \<lparr>ar_propose_id = prop_id,
                                               ar_reason = dec_nat (length failed) @ '' peers failed propose''\<rparr>;
                                w2 = fst (broadcast post (re_abort_sched e (length acked_peers)) acked_peers abort w1)
                            in ((coordinator_audit co ''deny'' ''rotate_aborted'', w2),
                                Inr (res1\<lparr>rr_aborted_at := Some (re_abort_now e)\<rparr>))
                          else
                            let commit = Commit \<lparr>cr_propose_id = prop_id, cr_commit_ts = re_commit_now e,
                                                 cr_grace_duration = co_grace_duration co\<rparr>;
                                w2 = fst (broadcast post (re_commit_sched e (length ps)) ps commit w1)
                            in (case rotate_key (re_rotate_now e) (co_keys co) key (co_grace_duration co) of
                                  None \<Rightarrow> ((co, w2), Inl SelfRotateFailed)
                                | Some ks \<Rightarrow>
                                    ((coordinator_audit (co\<lparr>co_keys := ks\<rparr>) ''allow'' ''rotate_committed'', w2),
                                     Inr (res1\<lparr>rr_committed := True\<rparr>))))))"

text \<open>The trigger endpoint: only the current Orchestrator starts a rotation.\<close>

definition handle_rotate ::
  "'w rotate_poster \<Rightarrow> rotate_env \<Rightarrow> rotate_peer list \<Rightarrow> bool \<Rightarrow> coordinator \<times> 'w
     \<Rightarrow> (coordinator \<times> 'w) \<times> http_status \<times> rotate_result option" where
  "handle_rotate post e ps is_orchestrator cw =
     (if \<not> is_orchestrator then (cw, 503, None)
      else case rotate post e ps cw of
             (cw', Inl _) \<Rightarrow> (cw', 500, None)
           | (cw', Inr res) \<Rightarrow> (cw', (if rr_committed res then 200 else 409), Some res))"

section \<open>Runs of a member\<close>

datatype member_op =
    MPropose time propose_request
  | MCommit time commit_request
  | MAbort abort_request
  | MSweep time

definition member_exec :: "member_node \<Rightarrow> member_op \<Rightarrow> member_node" where
  "member_exec n x =
     (case x of
        MPropose now p \<Rightarrow> fst (handle_propose now n (Some p))
      | MCommit now c \<Rightarrow> fst (handle_commit now n (Some c))
      | MAbort a \<Rightarrow> fst (handle_abort n (Some a))
      | MSweep now \<Rightarrow> n\<lparr>mn_store := fst (sweep_expired now (mn_store n))\<rparr>)"

definition member_commits :: "member_node \<Rightarrow> member_op \<Rightarrow> string \<Rightarrow> bool" where
  "member_commits n x k =
     (case x of
        MCommit now c \<Rightarrow> cr_propose_id c = k \<and> fst (snd (handle_commit now n (Some c))) = 200
      | _ \<Rightarrow> False)"

definition proposed :: "member_node \<Rightarrow> string \<Rightarrow> bool" where
  "proposed n k \<longleftrightarrow> (case mn_store n of None \<Rightarrow> False | Some pd \<Rightarrow> pd_propose_id pd = k)"

definition proposes :: "member_op \<Rightarrow> string \<Rightarrow> bool" where
  "proposes x k = (case x of MPropose now p \<Rightarrow> pr_propose_id p = k | _ \<Rightarrow> False)"

lemma member_audit_simps [simp]:
  "mn_store (member_audit n d r) = mn_store n" "mn_keys (member_audit n d r) = mn_keys n"
  by (simp_all add: member_audit_def)

lemma put_proposal_cases:
  obtains (refused) e where "put_proposal now s p = (s, Inl e)"
  | (again) pd where "s = Some pd" "pd_propose_id pd = pr_propose_id p" "put_proposal now s p = (s, Inr True)"
  | (stored) key where "new_key p = Inr key"
      "put_proposal now s p =
         (Some \<lparr>pd_propose_id = pr_propose_id p, pd_new_key = key, pd_received_at = now\<rparr>, Inr True)"
proof (cases "new_key p")
  case (Inl e)
  then show thesis by (intro refused [of e]) (simp add: put_proposal_def)
next
  case (Inr key)
  show thesis
  proof (cases s)
    case None
    with Inr show thesis by (intro stored [of key]) (simp_all add: put_proposal_def)
  next
    case (Some pd)
    consider "pd_propose_id pd = pr_propose_id p"
      | "pd_propose_id pd \<noteq> pr_propose_id p" "time_sub now (pd_received_at pd) < member_revert_after"
      | "pd_propose_id pd \<noteq> pr_propose_id p" "\<not> time_sub now (pd_received_at pd) < member_revert_after" by blast
    then show thesis
    proof cases
      case 1
      with Inr Some show thesis by (intro again [of pd]) (simp_all add: put_proposal_def)
    next
      case 2
      with Inr Some show thesis by (intro refused [of ErrAlreadyPending]) (simp add: put_proposal_def)
    next
      case 3
      with Inr Some show thesis by (intro stored [of key]) (simp_all add: put_proposal_def)
    qed
  qed
qed

lemma handle_propose_node:
  "mn_store (fst (handle_propose now n (Some p))) = fst (put_proposal now (mn_store n) p)"
  "mn_keys (fst (handle_propose now n (Some p))) = mn_keys n"
  by (simp_all add: handle_propose_def Let_def split: prod.split sum.split)

lemma handle_abort_node:
  "mn_store (fst (handle_abort n (Some a))) = fst (clear_proposal (mn_store n) (ar_propose_id a))"
  "mn_keys (fst (handle_abort n (Some a))) = mn_keys n"
  by (simp_all add: handle_abort_def split: prod.split)

lemma handle_commit_cases:
  obtains (unknown) "\<not> proposed n (cr_propose_id c)" "fst (snd (handle_commit now n (Some c))) = 409"
      "mn_store (fst (handle_commit now n (Some c))) = mn_store n" "mn_keys (fst (handle_commit now n (Some c))) = mn_keys n"
  | (taken) pd where "mn_store n = Some pd" "pd_propose_id pd = cr_propose_id c"
      "mn_store (fst (handle_commit now n (Some c))) = None"
      "fst (snd (handle_commit now n (Some c))) = (if pd_new_key pd = [] then 500 else 200)"
      "mn_keys (fst (handle_commit now n (Some c))) =
         (if pd_new_key pd = [] then mn_keys n
          else (mn_keys n)\<lparr>kp_grace := Some (kp_current (mn_keys n)),
            kp_grace_expiry := now + (if cr_grace_duration c \<le> 0 then default_grace_duration else cr_grace_duration c),
            kp_current := pd_new_key pd\<rparr>)"
proof (cases "proposed n (cr_propose_id c)")
  case False
  then have "take_proposal (mn_store n) (cr_propose_id c) = (mn_store n, None)"
    by (auto simp: proposed_def take_proposal_def split: option.splits)
  with False show thesis by (intro unknown) (simp_all add: handle_commit_def)
next
  case True
  then obtain pd where pd: "mn_store n = Some pd" "pd_propose_id pd = cr_propose_id c"
    by (auto simp: proposed_def split: option.splits)
  then have "take_proposal (mn_store n) (cr_propose_id c) = (None, Some (pd_new_key pd))"
    by (simp add: take_proposal_def)
  with pd show thesis
    by (intro taken [of pd]) (simp_all add: handle_commit_def rotate_key_def Let_def)
qed

interpretation proposals: single_use member_exec member_commits proposed proposes "\<lambda>_. True"
proof
  fix n x k
  assume "member_commits n x k"
  then obtain now c where x: "x = MCommit now c" "cr_propose_id c = k" "fst (snd (handle_commit now n (Some c))) = 200"
    by (auto simp: member_commits_def split: member_op.splits)
  show "proposed n k" "\<not> proposed (member_exec n x) k"
    using x by (cases rule: handle_commit_cases [of n c now]; simp add: proposed_def member_exec_def)+
next
  fix n k x
  assume *: "\<not> proposed n k" "\<not> proposes x k"
  show "\<not> proposed (member_exec n x) k"
  proof (cases x)
    case (MPropose now p)
    with * show ?thesis
      by (cases rule: put_proposal_cases [of now "mn_store n" p])
        (auto simp: proposed_def proposes_def member_exec_def handle_propose_node)
  next
    case (MCommit now c)
    with * show ?thesis
      by (cases rule: handle_commit_cases [of n c now]) (simp_all add: proposed_def member_exec_def)
  next
    case (MAbort a)
    with * show ?thesis
      by (auto simp: proposed_def member_exec_def handle_abort_node clear_proposal_def split: option.splits)
  next
    case (MSweep now)
    with * show ?thesis
      by (auto simp: proposed_def member_exec_def sweep_expired_def split: option.splits)
  qed
qed simp

section \<open>A cluster\<close>

text \<open>
  The members by address, and the network: for every message in sending order, whether it arrives, whether
  its answer does, and the receiver's clock at that moment.
\<close>

datatype fate = Delivered | RequestLost | AnswerLost

record cluster =
  ct_nodes :: "string \<Rightarrow> member_node option"
  ct_wire :: "nat \<Rightarrow> fate \<times> time"
  ct_sent :: nat

definition deliver :: "time \<Rightarrow> member_node \<Rightarrow> rotate_msg \<Rightarrow> member_node \<times> http_status" where
  "deliver now n msg =
     (case msg of
        Propose p \<Rightarrow> (case handle_propose now n (Some p) of (n', st, _) \<Rightarrow> (n', st))
      | Commit c \<Rightarrow> (case handle_commit now n (Some c) of (n', st, _) \<Rightarrow> (n', st))
      | Abort a \<Rightarrow> (case handle_abort n (Some a) of (n', st, _) \<Rightarrow> (n', st)))"

definition cluster_post :: "cluster rotate_poster" where
  "cluster_post ct addr msg =
     (let ct1 = ct\<lparr>ct_sent := ct_sent ct + 1\<rparr>
      in case (ct_nodes ct addr, ct_wire ct (ct_sent ct)) of
           (None, _) \<Rightarrow> (ct1, None)
         | (_, RequestLost, _) \<Rightarrow> (ct1, None)
         | (Some n, fate, now) \<Rightarrow>
             (case deliver now n msg of
                (n', st) \<Rightarrow>
                  (ct1\<lparr>ct_nodes := (ct_nodes ct)(addr := Some n')\<rparr>,
                   if fate = Delivered then Some st else None)))"

lemma deliver_fst:
  "fst (deliver now n (Propose p)) = fst (handle_propose now n (Some p))"
  "fst (deliver now n (Commit c)) = fst (handle_commit now n (Some c))"
  "fst (deliver now n (Abort a)) = fst (handle_abort n (Some a))"
  "snd (deliver now n (Propose p)) = fst (snd (handle_propose now n (Some p)))"
  "snd (deliver now n (Commit c)) = fst (snd (handle_commit now n (Some c)))"
  by (simp_all add: deliver_def split: prod.split)

text \<open>A relation between the members before and now that every delivery keeps is kept by every broadcast.\<close>

definition all_nodes :: "(member_node \<Rightarrow> member_node \<Rightarrow> bool) \<Rightarrow> cluster \<Rightarrow> cluster \<Rightarrow> bool" where
  "all_nodes R ct0 ct \<longleftrightarrow> (\<forall>a. rel_option R (ct_nodes ct0 a) (ct_nodes ct a))"

lemma all_nodes_mono: "all_nodes R ct0 ct \<Longrightarrow> (\<And>n n'. R n n' \<Longrightarrow> S n n') \<Longrightarrow> all_nodes S ct0 ct"
  unfolding all_nodes_def by (metis option.rel_mono_strong)

lemma cluster_post_nodes:
  assumes "all_nodes R ct0 ct" "\<And>now n n'. R n n' \<Longrightarrow> R n (fst (deliver now n' msg))"
  shows "all_nodes R ct0 (fst (cluster_post ct addr msg))"
proof (cases "ct_nodes ct addr")
  case None
  with assms(1) show ?thesis by (simp add: cluster_post_def all_nodes_def Let_def)
next
  case (Some n')
  obtain f now where wire: "ct_wire ct (ct_sent ct) = (f, now)" by force
  from assms(1) Some obtain n where n: "ct_nodes ct0 addr = Some n" "R n n'"
    unfolding all_nodes_def by (metis option_rel_Some2)
  have "fst (cluster_post ct addr msg) = ct\<lparr>ct_sent := ct_sent ct + 1\<rparr> \<or>
    ct_nodes (fst (cluster_post ct addr msg)) = (ct_nodes ct)(addr := Some (fst (deliver now n' msg)))"
    by (cases f) (simp_all add: cluster_post_def Some wire Let_def split: prod.split)
  with assms(1) n assms(2) [OF n(2), of now] show ?thesis
    unfolding all_nodes_def by (elim disjE) simp_all
qed

lemma broadcast_nodes:
  assumes "all_nodes R ct0 ct" "\<And>now n n'. R n n' \<Longrightarrow> R n (fst (deliver now n' msg))"
  shows "all_nodes R ct0 (fst (broadcast cluster_post sched ps msg ct))"
proof -
  have "all_nodes R ct0 (fst (broadcast_in cluster_post ps msg sched (ct, rs)))" if "all_nodes R ct0 ct" for ct rs
    using that
  proof (induction sched arbitrary: ct rs)
    case (Cons i sched)
    have "fst (send_one cluster_post ct (ps ! i) msg) = fst (cluster_post ct (rp_address (ps ! i)) msg)"
      by (simp add: send_one_def split: prod.split option.split)
    with cluster_post_nodes [OF Cons.prems assms(2)] Cons.IH show ?case
      by (simp split: prod.split) (metis fst_conv)
  qed simp
  with assms(1) show ?thesis by (simp add: broadcast_def)
qed

text \<open>
  What a rotation of \<open>pid\<close> to \<open>key\<close> does to a member: until the commit its keys are untouched and a
  proposal of that id carries that key; the commit installs the key and keeps the replaced one as grace.
\<close>

definition only_proposed :: "string \<Rightarrow> bytes \<Rightarrow> member_node \<Rightarrow> member_node \<Rightarrow> bool" where
  "only_proposed pid key n n' \<longleftrightarrow> mn_keys n' = mn_keys n \<and>
     (\<forall>pd. mn_store n' = Some pd \<longrightarrow> pd_propose_id pd = pid \<longrightarrow> pd_new_key pd = key)"

definition rotated_to :: "bytes \<Rightarrow> member_node \<Rightarrow> member_node \<Rightarrow> bool" where
  "rotated_to key n n' \<longleftrightarrow>
     kp_current (mn_keys n') = key \<and> kp_grace (mn_keys n') = Some (kp_current (mn_keys n))"

definition maybe_rotated :: "string \<Rightarrow> bytes \<Rightarrow> member_node \<Rightarrow> member_node \<Rightarrow> bool" where
  "maybe_rotated pid key n n' \<longleftrightarrow> only_proposed pid key n n' \<or> rotated_to key n n' \<and> \<not> proposed n' pid"

lemma only_proposed_propose:
  assumes "only_proposed pid key n n'" "new_key p = Inr key" "pr_propose_id p = pid"
  shows "only_proposed pid key n (fst (deliver now n' (Propose p)))"
  using assms by (cases rule: put_proposal_cases [of now "mn_store n'" p])
    (auto simp: only_proposed_def deliver_fst handle_propose_node)

lemma only_proposed_abort:
  "only_proposed pid key n n' \<Longrightarrow> only_proposed pid key n (fst (deliver now n' (Abort a)))"
  by (auto simp: only_proposed_def deliver_fst handle_abort_node clear_proposal_def split: option.splits)

lemma maybe_rotated_commit:
  assumes "maybe_rotated pid key n n'" "cr_propose_id c = pid"
  shows "maybe_rotated pid key n (fst (deliver now n' (Commit c)))"
  using assms unfolding maybe_rotated_def
  by (cases rule: handle_commit_cases [of n' c now])
    (auto simp: only_proposed_def rotated_to_def proposed_def deliver_fst split: if_splits)

lemma new_key_of_encoded:
  "length key = key_len \<Longrightarrow> new_key \<lparr>pr_propose_id = pid, pr_new_key_b64 = std_encode key, pr_propose_ts = t\<rparr> = Inr key"
  by (simp add: new_key_def)

lemma rotate_key_D:
  "rotate_key now p key d = Some p' \<Longrightarrow>
     kp_current p' = key \<and> kp_grace p' = Some (kp_current p) \<and> kp_grace_expiry p' = now + d"
  by (auto simp: rotate_key_def split: if_splits)

text \<open>
  A call of \<open>Rotate\<close> that returns a result is one of three runs.
\<close>

lemma rotate_cases:
  assumes "rotate post e ps (co, w) = ((co', w'), Inr res)"
  obtains key pid where "re_key e = Some key" "re_propose_id e = Some pid" "ps = []" "w' = w" "rr_committed res"
      "rotate_key (re_rotate_now e) (co_keys co) key (co_grace_duration co) = Some (co_keys co')"
  | key pid w1 rs aps ar asched where "re_key e = Some key" "re_propose_id e = Some pid" "ps \<noteq> []"
      "broadcast post (re_propose_sched e (length ps)) ps
         (Propose \<lparr>pr_propose_id = pid, pr_new_key_b64 = std_encode key, pr_propose_ts = re_propose_now e\<rparr>) w = (w1, rs)"
      "\<exists>r\<in>set rs. \<not> res_ok r" "w' = fst (broadcast post asched aps (Abort ar) w1)"
      "\<not> rr_committed res" "co_keys co' = co_keys co"
  | key pid w1 rs cr where "re_key e = Some key" "re_propose_id e = Some pid" "ps \<noteq> []"
      "broadcast post (re_propose_sched e (length ps)) ps
         (Propose \<lparr>pr_propose_id = pid, pr_new_key_b64 = std_encode key, pr_propose_ts = re_propose_now e\<rparr>) w = (w1, rs)"
      "\<forall>r\<in>set rs. res_ok r" "w' = fst (broadcast post (re_commit_sched e (length ps)) ps (Commit cr) w1)"
      "cr_propose_id cr = pid" "rr_committed res"
      "rotate_key (re_rotate_now e) (co_keys co) key (co_grace_duration co) = Some (co_keys co')"
proof -
  obtain key pid where k: "re_key e = Some key" "re_propose_id e = Some pid"
    using assms by (auto simp: rotate_def split: option.splits)
  show thesis
  proof (cases "ps = []")
    case True
    with assms k show thesis
      by (intro that(1) [of key pid]) (auto simp: rotate_def Let_def coordinator_audit_def split: option.splits)
  next
    case False
    obtain w1 rs where p: "broadcast post (re_propose_sched e (length ps)) ps
      (Propose \<lparr>pr_propose_id = pid, pr_new_key_b64 = std_encode key, pr_propose_ts = re_propose_now e\<rparr>) w = (w1, rs)"
      by force
    show thesis
    proof (cases "\<exists>r\<in>set rs. \<not> res_ok r")
      case True
      then have "filter (\<lambda>r. \<not> res_ok r) rs \<noteq> []" by (simp add: filter_empty_conv)
      with assms k False p show thesis
        by (intro that(2) [OF k False p True]) (auto simp: rotate_def Let_def coordinator_audit_def)
    next
      case ok: False
      then have "filter (\<lambda>r. \<not> res_ok r) rs = []" by (simp add: filter_empty_conv)
      with assms k False p ok show thesis
        by (intro that(3) [OF k False p]) (auto simp: rotate_def Let_def coordinator_audit_def split: option.splits)
    qed
  qed
qed

section \<open>A network without losses\<close>

lemma cluster_post_frame [simp]: "ct_wire (fst (cluster_post ct addr msg)) = ct_wire ct"
  by (simp add: cluster_post_def Let_def split: option.split prod.split fate.split)

text \<open>
  When nothing is lost, each of the scheduled peers, found in a state \<open>P\<close> in which the message is answered
  with 200 and leads to \<open>G\<close>, ends in \<open>G\<close> with its slot of the results set; nobody else is touched.
\<close>

definition delivered ::
  "(member_node \<Rightarrow> member_node \<Rightarrow> bool) \<Rightarrow> rotate_peer list \<Rightarrow> nat set \<Rightarrow> cluster \<times> peer_result list
     \<Rightarrow> cluster \<times> peer_result list \<Rightarrow> bool" where
  "delivered G ps I cr cr' \<longleftrightarrow> ct_wire (fst cr') = ct_wire (fst cr) \<and> length (snd cr') = length (snd cr) \<and>
    (\<forall>i<length ps. i \<notin> I \<longrightarrow> snd cr' ! i = snd cr ! i) \<and>
    (\<forall>i\<in>I. res_ok (snd cr' ! i) \<and> res_member_id (snd cr' ! i) = rp_member_id (ps ! i)) \<and>
    (\<forall>a. a \<notin> (\<lambda>i. rp_address (ps ! i)) ` I \<longrightarrow> ct_nodes (fst cr') a = ct_nodes (fst cr) a) \<and>
    (\<forall>i\<in>I. \<exists>n n'. ct_nodes (fst cr) (rp_address (ps ! i)) = Some n \<and>
       ct_nodes (fst cr') (rp_address (ps ! i)) = Some n' \<and> G n n')"

lemma delivered_step:
  assumes "delivered G ps I cr1 cr2" "i \<notin> I" "i < length ps" "I \<subseteq> {..<length ps}" "length (snd cr) = length ps"
    and dist: "distinct (map rp_address ps)"
    and one: "ct_nodes (fst cr) (rp_address (ps ! i)) = Some n" "G n n'" "res_ok r" "res_member_id r = rp_member_id (ps ! i)"
    and cr1: "fst cr1 = (fst cr)\<lparr>ct_sent := k, ct_nodes := (ct_nodes (fst cr))(rp_address (ps ! i) := Some n')\<rparr>"
      "snd cr1 = (snd cr)[i := r]"
  shows "delivered G ps (insert i I) cr cr2"
proof -
  let ?a = "\<lambda>i. rp_address (ps ! i)"
  have apart: "?a j \<noteq> ?a i" if "j \<in> I" for j
    using nth_eq_iff_index_eq [OF dist, of j i] that assms(2,3,4) by auto
  have d: "ct_wire (fst cr2) = ct_wire (fst cr1)" "length (snd cr2) = length (snd cr1)"
    "\<forall>j<length ps. j \<notin> I \<longrightarrow> snd cr2 ! j = snd cr1 ! j"
    "\<forall>j\<in>I. res_ok (snd cr2 ! j) \<and> res_member_id (snd cr2 ! j) = rp_member_id (ps ! j)"
    "\<forall>a. a \<notin> ?a ` I \<longrightarrow> ct_nodes (fst cr2) a = ct_nodes (fst cr1) a"
    "\<forall>j\<in>I. \<exists>n n'. ct_nodes (fst cr1) (?a j) = Some n \<and> ct_nodes (fst cr2) (?a j) = Some n' \<and> G n n'"
    using assms(1) [unfolded delivered_def] by - (elim conjE, assumption)+
  have away: "?a i \<notin> ?a ` I"
  proof
    assume "?a i \<in> ?a ` I"
    then obtain j where "j \<in> I" "?a i = ?a j" ..
    from apart [OF this(1)] this(2) show False by simp
  qed
  show ?thesis
    unfolding delivered_def
  proof (intro conjI allI ballI impI)
    show "ct_wire (fst cr2) = ct_wire (fst cr)" "length (snd cr2) = length (snd cr)"
      using d(1,2) cr1 by simp_all
    show "snd cr2 ! j = snd cr ! j" if "j < length ps" "j \<notin> insert i I" for j
      using d(3) that cr1(2) by simp
    show "res_ok (snd cr2 ! j)" "res_member_id (snd cr2 ! j) = rp_member_id (ps ! j)" if "j \<in> insert i I" for j
      using that d(3) [rule_format, OF assms(3,2)] d(4) cr1(2) one(3,4) assms(3,5) by (cases "j = i"; simp)+
    show "ct_nodes (fst cr2) a = ct_nodes (fst cr) a" if "a \<notin> ?a ` insert i I" for a
      using d(5) [rule_format, of a] that cr1(1) by simp
    show "\<exists>n n'. ct_nodes (fst cr) (?a j) = Some n \<and> ct_nodes (fst cr2) (?a j) = Some n' \<and> G n n'"
      if "j \<in> insert i I" for j
    proof (cases "j = i")
      case True
      with d(5) [rule_format, OF away] one(1,2) cr1(1) show ?thesis by simp
    next
      case False
      with that have "j \<in> I" by simp
      with d(6) [rule_format, OF this] apart [OF this] cr1(1) show ?thesis by simp
    qed
  qed
qed

lemma broadcast_in_delivered:
  assumes "\<And>k. fst (ct_wire ct k) = Delivered" "distinct (map rp_address ps)" "distinct sched"
    and "\<And>i. i \<in> set sched \<Longrightarrow> i < length ps \<and> (\<exists>n. ct_nodes ct (rp_address (ps ! i)) = Some n \<and> P n)"
    and step: "\<And>now n. P n \<Longrightarrow> snd (deliver now n msg) = 200 \<and> G n (fst (deliver now n msg))"
    and "length rs = length ps"
  shows "delivered G ps (set sched) (ct, rs) (broadcast_in cluster_post ps msg sched (ct, rs))"
  using assms
proof (induction sched arbitrary: ct rs)
  case Nil
  then show ?case by (simp add: delivered_def)
next
  case (Cons i sched)
  let ?a = "\<lambda>i. rp_address (ps ! i)"
  from Cons.prems(4) [of i] obtain n where i: "i < length ps" "ct_nodes ct (?a i) = Some n" "P n" by auto
  obtain f now where w: "ct_wire ct (ct_sent ct) = (f, now)" by force
  with Cons.prems(1) [of "ct_sent ct"] have wire: "ct_wire ct (ct_sent ct) = (Delivered, now)" by simp
  define n' where "n' = fst (deliver now n msg)"
  define ct1 where "ct1 = ct\<lparr>ct_sent := ct_sent ct + 1, ct_nodes := (ct_nodes ct)(?a i := Some n')\<rparr>"
  define r where "r = \<lparr>res_member_id = rp_member_id (ps ! i), res_ok = True, res_status = 200\<rparr>"
  have st: "snd (deliver now n msg) = 200" and G: "G n n'" using step [OF i(3)] by (simp_all add: n'_def)
  have one: "send_one cluster_post ct (ps ! i) msg = (ct1, r)"
    using st by (cases "deliver now n msg") (simp add: send_one_def cluster_post_def i wire Let_def ct1_def r_def n'_def)
  have fresh: "i \<notin> set sched" "distinct sched" using Cons.prems(3) by simp_all
  have pre: "j < length ps \<and> (\<exists>m. ct_nodes ct1 (?a j) = Some m \<and> P m)" if j: "j \<in> set sched" for j
  proof -
    have "j < length ps" "\<exists>m. ct_nodes ct (?a j) = Some m \<and> P m" using Cons.prems(4) [of j] j by simp_all
    moreover have "?a j \<noteq> ?a i"
      using nth_eq_iff_index_eq [OF Cons.prems(2), of j i] i(1) fresh(1) j \<open>j < length ps\<close> by auto
    ultimately show ?thesis by (simp add: ct1_def)
  qed
  have "delivered G ps (set sched) (ct1, rs[i := r]) (broadcast_in cluster_post ps msg sched (ct1, rs[i := r]))"
  proof (rule Cons.IH)
    show "fst (ct_wire ct1 k) = Delivered" for k by (simp add: Cons.prems(1) ct1_def)
    show "length (rs[i := r]) = length ps" using Cons.prems(6) by simp
  qed (fact Cons.prems(2), fact fresh(2), fact pre, fact step)
  then have "delivered G ps (insert i (set sched)) (ct, rs) (broadcast_in cluster_post ps msg sched (ct1, rs[i := r]))"
    by (rule delivered_step [where n = n and n' = n' and r = r and k = "ct_sent ct + 1"])
      (use fresh pre i G Cons.prems(2,6) in \<open>auto simp: ct1_def r_def\<close>)
  then show ?case using one by simp
qed

definition schedule :: "nat list \<Rightarrow> nat \<Rightarrow> bool" where
  "schedule sched n \<longleftrightarrow> distinct sched \<and> set sched = {..<n}"

lemma delivered_all:
  assumes "delivered G ps {..<length ps} (ct, rs) (ct', rs')" "length rs = length ps"
  shows "\<forall>r\<in>set rs'. res_ok r" "map res_member_id rs' = map rp_member_id ps"
    "\<And>p. p \<in> set ps \<Longrightarrow> \<exists>n n'. ct_nodes ct (rp_address p) = Some n \<and> ct_nodes ct' (rp_address p) = Some n' \<and> G n n'"
    "ct_wire ct' = ct_wire ct"
proof -
  have len0: "length rs' = length rs" and wire: "ct_wire ct' = ct_wire ct"
    and ok: "\<forall>i\<in>{..<length ps}. res_ok (rs' ! i) \<and> res_member_id (rs' ! i) = rp_member_id (ps ! i)"
    and G: "\<forall>i\<in>{..<length ps}. \<exists>n n'. ct_nodes ct (rp_address (ps ! i)) = Some n \<and>
       ct_nodes ct' (rp_address (ps ! i)) = Some n' \<and> G n n'"
    using assms(1) [unfolded delivered_def fst_conv snd_conv] by - (elim conjE, assumption)+
  have len: "length rs' = length ps" using len0 assms(2) by simp
  show "\<forall>r\<in>set rs'. res_ok r" using ok len by (simp add: all_set_conv_all_nth)
  show "map res_member_id rs' = map rp_member_id ps"
    by (rule nth_equalityI) (use ok len in simp_all)
  show "\<exists>n n'. ct_nodes ct (rp_address p) = Some n \<and> ct_nodes ct' (rp_address p) = Some n' \<and> G n n'"
    if "p \<in> set ps" for p
  proof -
    from that obtain i where "i < length ps" "p = ps ! i" by (auto simp: in_set_conv_nth)
    with G show ?thesis by simp
  qed
  show "ct_wire ct' = ct_wire ct" by (fact wire)
qed

lemma broadcast_delivered:
  assumes "\<And>k. fst (ct_wire ct k) = Delivered" "distinct (map rp_address ps)" "schedule sched (length ps)"
    and P: "\<forall>p\<in>set ps. \<exists>n. ct_nodes ct (rp_address p) = Some n \<and> P n"
    and step: "\<forall>now n. P n \<longrightarrow> snd (deliver now n msg) = 200 \<and> G n (fst (deliver now n msg))"
    and res: "broadcast cluster_post sched ps msg ct = (ct', rs)"
  shows "\<forall>r\<in>set rs. res_ok r" "map res_member_id rs = map rp_member_id ps"
    "\<forall>p\<in>set ps. \<exists>n n'. ct_nodes ct (rp_address p) = Some n \<and> ct_nodes ct' (rp_address p) = Some n' \<and> G n n'"
    "ct_wire ct' = ct_wire ct"
proof -
  let ?rs = "replicate (length ps) \<lparr>res_member_id = [], res_ok = False, res_status = 0\<rparr>"
  have sched: "set sched = {..<length ps}" "distinct sched" using assms(3) by (simp_all add: schedule_def)
  have "delivered G ps (set sched) (ct, ?rs) (broadcast_in cluster_post ps msg sched (ct, ?rs))"
    by (rule broadcast_in_delivered [where P = P, OF assms(1,2) sched(2)]) (use sched(1) P step in auto)
  then have *: "delivered G ps {..<length ps} (ct, ?rs) (ct', rs)"
    using res by (simp add: broadcast_def sched(1))
  show "\<forall>r\<in>set rs. res_ok r" "map res_member_id rs = map rp_member_id ps" "ct_wire ct' = ct_wire ct"
    using delivered_all [OF *] by simp_all
  show "\<forall>p\<in>set ps. \<exists>n n'. ct_nodes ct (rp_address p) = Some n \<and> ct_nodes ct' (rp_address p) = Some n' \<and> G n n'"
    using delivered_all(3) [OF *] by simp
qed

lemma rotate_commits:
  assumes "re_key e = Some key" "key \<noteq> []" "re_propose_id e = Some pid" "ps \<noteq> []"
    and "broadcast post (re_propose_sched e (length ps)) ps
      (Propose \<lparr>pr_propose_id = pid, pr_new_key_b64 = std_encode key, pr_propose_ts = re_propose_now e\<rparr>) w = (w1, rs)"
    and ok: "\<forall>r\<in>set rs. res_ok r"
  shows "\<exists>co' res. rotate post e ps (co, w) = ((co', fst (broadcast post (re_commit_sched e (length ps)) ps
      (Commit \<lparr>cr_propose_id = pid, cr_commit_ts = re_commit_now e, cr_grace_duration = co_grace_duration co\<rparr>) w1)), Inr res) \<and>
    rr_committed res \<and> rr_acked_by res = map res_member_id rs \<and>
    kp_current (co_keys co') = key \<and> kp_grace (co_keys co') = Some (kp_current (co_keys co))"
proof -
  have "filter (\<lambda>r. \<not> res_ok r) rs = []" "filter res_ok rs = rs" using ok by (simp_all add: filter_empty_conv)
  then show ?thesis
    using assms(1-5) by (simp add: rotate_def Let_def rotate_key_def coordinator_audit_def)
qed

lemma deliver_propose_idle:
  assumes "mn_store n = None" "new_key p = Inr key"
  shows "snd (deliver now n (Propose p)) = 200 \<and>
    mn_keys (fst (deliver now n (Propose p))) = mn_keys n \<and>
    mn_store (fst (deliver now n (Propose p))) =
      Some \<lparr>pd_propose_id = pr_propose_id p, pd_new_key = key, pd_received_at = now\<rparr>"
  using assms by (simp add: deliver_fst handle_propose_node)
    (simp add: handle_propose_def put_proposal_def Let_def)

lemma deliver_commit_pending:
  assumes "mn_store n = Some pd" "pd_propose_id pd = cr_propose_id c" "pd_new_key pd = key" "key \<noteq> []"
  shows "snd (deliver now n (Commit c)) = 200 \<and> rotated_to key n (fst (deliver now n (Commit c)))"
  using assms by (cases rule: handle_commit_cases [of n c now]) (auto simp: deliver_fst rotated_to_def proposed_def)

section \<open>Properties\<close>

text \<open>A proposal is committed at most once. In any interleaving of proposals, commits, aborts and sweeps at a
  member, the commits answered with 200 under a proposal id are at most as many as the proposals received
  under it, plus one if it was pending before.\<close>

theorem proposal_committed_at_most_once:
  "length (filter (\<lambda>i. member_commits (foldl member_exec n (take i xs)) (xs ! i) k) [0..<length xs])
     \<le> length (filter (\<lambda>x. proposes x k) xs) + (if proposed n k then 1 else 0)"
  using proposals.positions_bounded [of n xs k] by simp

text \<open>C6: A rotation is never half applied by its initiator, and nobody gets a third key. Over any network that
  loses requests and answers and any order of service, with a proposal id that no member holds yet: when
  the rotation does not commit, the initiator and every member keep their keys; when it commits, the
  initiator uses the new key with the replaced one as grace, and every member either did the same or kept
  its keys (its commit was lost).\<close>

theorem rotation_all_or_nothing:
  assumes "rotate cluster_post e ps (co, ct) = ((co', ct'), Inr res)"
    and "re_key e = Some key" "length key = 32" "re_propose_id e = Some pid"
    and "\<And>a n. ct_nodes ct a = Some n \<Longrightarrow> \<not> proposed n pid"
  shows "if rr_committed res
    then kp_current (co_keys co') = key \<and> kp_grace (co_keys co') = Some (kp_current (co_keys co)) \<and>
      all_nodes (\<lambda>n n'. mn_keys n' = mn_keys n \<or> rotated_to key n n') ct ct'
    else co_keys co' = co_keys co \<and> all_nodes (\<lambda>n n'. mn_keys n' = mn_keys n) ct ct'"
proof -
  have refl: "all_nodes (only_proposed pid key) ct ct"
    unfolding all_nodes_def
  proof
    fix a
    show "rel_option (only_proposed pid key) (ct_nodes ct a) (ct_nodes ct a)"
      using assms(5) [of a] by (cases "ct_nodes ct a") (auto simp: only_proposed_def proposed_def)
  qed
  have kept: "mn_keys n' = mn_keys n" if "only_proposed pid key n n'" for n n'
    using that by (simp add: only_proposed_def)
  have proposing: "all_nodes (only_proposed pid key) ct w1"
    if "broadcast cluster_post sched ps
      (Propose \<lparr>pr_propose_id = pid, pr_new_key_b64 = std_encode key, pr_propose_ts = t\<rparr>) ct = (w1, rs)" for w1 rs sched t
    using broadcast_nodes [OF refl, of "Propose \<lparr>pr_propose_id = pid, pr_new_key_b64 = std_encode key, pr_propose_ts = t\<rparr>" sched ps]
      that assms(3) by (simp add: only_proposed_propose new_key_of_encoded key_len_def)
  from assms(1) show ?thesis
  proof (cases rule: rotate_cases)
    case (1 k p)
    have "all_nodes (\<lambda>n n'. mn_keys n' = mn_keys n \<or> rotated_to key n n') ct ct"
      by (rule all_nodes_mono [OF refl]) (simp add: kept)
    with 1 assms(2) rotate_key_D [OF 1(6)] show ?thesis by simp
  next
    case (2 k p w1 rs aps ar asched)
    with assms(2,4) proposing have "all_nodes (only_proposed pid key) ct w1" by simp
    then have "all_nodes (only_proposed pid key) ct ct'"
      unfolding 2 by (rule broadcast_nodes) (rule only_proposed_abort)
    then show ?thesis using 2 all_nodes_mono [OF _ kept] by simp
  next
    case (3 k p w1 rs cr)
    with assms(2,4) proposing have "all_nodes (only_proposed pid key) ct w1" by simp
    then have "all_nodes (maybe_rotated pid key) ct w1"
      by (rule all_nodes_mono) (simp add: maybe_rotated_def)
    then have "all_nodes (maybe_rotated pid key) ct ct'"
      unfolding 3 by (rule broadcast_nodes) (use 3 assms(4) in \<open>simp add: maybe_rotated_commit\<close>)
    then have "all_nodes (\<lambda>n n'. mn_keys n' = mn_keys n \<or> rotated_to key n n') ct ct'"
      by (rule all_nodes_mono) (auto simp: maybe_rotated_def only_proposed_def)
    with 3 assms(2) rotate_key_D [OF 3(9)] show ?thesis by simp
  qed
qed

text \<open>C21: Without losses a rotation reaches everyone. When every message arrives, the consulted peers have distinct
  addresses and no proposal pending, and the key is 32 bytes long, the rotation commits, whatever the
  order of service: every peer acknowledged, and every peer and the initiator end on the new key with the
  key they had before as grace key.\<close>

theorem rotation_reaches_everyone:
  assumes "re_key e = Some key" "length key = 32" "re_propose_id e = Some pid"
    and "\<And>k. fst (ct_wire ct k) = Delivered" "distinct (map rp_address ps)"
    and "\<And>k. schedule (re_propose_sched e k) k" "\<And>k. schedule (re_commit_sched e k) k"
    and "\<And>p. p \<in> set ps \<Longrightarrow> \<exists>n. ct_nodes ct (rp_address p) = Some n \<and> mn_store n = None"
  shows "\<exists>co' ct' res. rotate cluster_post e ps (co, ct) = ((co', ct'), Inr res) \<and> rr_committed res \<and>
    rr_acked_by res = map rp_member_id ps \<and>
    kp_current (co_keys co') = key \<and> kp_grace (co_keys co') = Some (kp_current (co_keys co)) \<and>
    (\<forall>p\<in>set ps. \<exists>n n'. ct_nodes ct (rp_address p) = Some n \<and> ct_nodes ct' (rp_address p) = Some n' \<and> rotated_to key n n')"
proof (cases "ps = []")
  case True
  with assms(1-3) show ?thesis
    by (auto simp: rotate_def Let_def rotate_key_def coordinator_audit_def)
next
  case False
  let ?pmsg = "\<lparr>pr_propose_id = pid, pr_new_key_b64 = std_encode key, pr_propose_ts = re_propose_now e\<rparr>"
  let ?com = "\<lparr>cr_propose_id = pid, cr_commit_ts = re_commit_now e, cr_grace_duration = co_grace_duration co\<rparr>"
  let ?G1 = "\<lambda>n n'. mn_keys n' = mn_keys n \<and> (\<exists>t. mn_store n' = Some \<lparr>pd_propose_id = pid, pd_new_key = key, pd_received_at = t\<rparr>)"
  let ?P2 = "\<lambda>n. \<exists>t. mn_store n = Some \<lparr>pd_propose_id = pid, pd_new_key = key, pd_received_at = t\<rparr>"
  have nk: "new_key ?pmsg = Inr key" using assms(2) by (simp add: new_key_of_encoded key_len_def)
  have ne: "key \<noteq> []" using assms(2) by auto
  obtain ct1 rs where p: "broadcast cluster_post (re_propose_sched e (length ps)) ps (Propose ?pmsg) ct = (ct1, rs)" by force
  have step1: "\<forall>now n. mn_store n = None \<longrightarrow>
      snd (deliver now n (Propose ?pmsg)) = 200 \<and> ?G1 n (fst (deliver now n (Propose ?pmsg)))"
    using deliver_propose_idle [OF _ nk] by simp
  have idle: "\<forall>p\<in>set ps. \<exists>n. ct_nodes ct (rp_address p) = Some n \<and> mn_store n = None" using assms(8) by blast
  note B1 = broadcast_delivered [where P = "\<lambda>n. mn_store n = None" and G = ?G1, OF assms(4,5,6) idle step1 p]
  obtain ct2 rs2 where c: "broadcast cluster_post (re_commit_sched e (length ps)) ps (Commit ?com) ct1 = (ct2, rs2)" by force
  have step2: "\<forall>now n. ?P2 n \<longrightarrow>
      snd (deliver now n (Commit ?com)) = 200 \<and> rotated_to key n (fst (deliver now n (Commit ?com)))"
    using deliver_commit_pending [of _ _ ?com key] ne by auto
  have mid: "\<forall>q\<in>set ps. \<exists>n. ct_nodes ct1 (rp_address q) = Some n \<and> ?P2 n"
    using B1(3) by blast
  have wire1: "fst (ct_wire ct1 k) = Delivered" for k using B1(4) assms(4) by simp
  note B2 = broadcast_delivered [where P = ?P2 and G = "rotated_to key", OF wire1 assms(5,7) mid step2 c]
  have "\<exists>n n'. ct_nodes ct (rp_address q) = Some n \<and> ct_nodes ct2 (rp_address q) = Some n' \<and> rotated_to key n n'"
    if "q \<in> set ps" for q
  proof -
    from bspec [OF B1(3) that] obtain n n1 where 1: "ct_nodes ct (rp_address q) = Some n" "ct_nodes ct1 (rp_address q) = Some n1" "mn_keys n1 = mn_keys n"
      by blast
    from bspec [OF B2(3) that] obtain m n2 where 2: "ct_nodes ct1 (rp_address q) = Some m" "ct_nodes ct2 (rp_address q) = Some n2" "rotated_to key m n2"
      by blast
    have "m = n1" using 1(2) 2(1) by simp
    with 1 2 show ?thesis by (simp add: rotated_to_def)
  qed
  with rotate_commits [OF assms(1) ne assms(3) False p B1(1), of co] c B1(2) show ?thesis by auto
qed

section \<open>A sample rotation\<close>

definition sample_keys :: key_provider where
  "sample_keys = \<lparr>kp_current = ''old'', kp_grace = None, kp_grace_expiry = zero_time\<rparr>"

definition idle_member :: member_node where
  "idle_member = \<lparr>mn_store = None, mn_keys = sample_keys, mn_audit = []\<rparr>"

definition sample_coordinator :: coordinator where
  "sample_coordinator = \<lparr>co_self_id = ''o'', co_keys = sample_keys, co_propose_timeout = propose_timeout,
     co_grace_duration = default_grace_duration, co_audit = []\<rparr>"

definition sample_cluster :: "(nat \<Rightarrow> fate \<times> time) \<Rightarrow> cluster" where
  "sample_cluster wire = \<lparr>ct_nodes = (\<lambda>a. if a = ''a:1'' \<or> a = ''b:1'' then Some idle_member else None),
     ct_wire = wire, ct_sent = 0\<rparr>"

definition sample_peers :: "rotate_peer list" where
  "sample_peers = [\<lparr>rp_member_id = ''a'', rp_address = ''a:1''\<rparr>, \<lparr>rp_member_id = ''b'', rp_address = ''b:1''\<rparr>]"

definition sample_rotate_env :: rotate_env where
  "sample_rotate_env = \<lparr>re_key = Some (replicate 32 CHR ''k''), re_propose_id = Some ''p1'', re_propose_now = 0,
     re_abort_now = 0, re_commit_now = 0, re_rotate_now = 0, re_propose_sched = (\<lambda>n. [0..<n]),
     re_commit_sched = (\<lambda>n. [0..<n]), re_abort_sched = (\<lambda>n. [0..<n])\<rparr>"

definition lose_last_commit :: "nat \<Rightarrow> fate \<times> time" where
  "lose_last_commit k = (if k = 3 then RequestLost else Delivered, 0)"

text \<open>Both peers accept the proposal; the commit to the second one is lost.\<close>

lemma lossy_rotation:
  "\<exists>co' ct' res n. rotate cluster_post sample_rotate_env sample_peers (sample_coordinator, sample_cluster lose_last_commit)
       = ((co', ct'), Inr res) \<and> rr_committed res \<and>
     ct_nodes ct' ''b:1'' = Some n \<and> kp_current (mn_keys n) = ''old''"
proof -
  let ?key = "replicate 32 CHR ''k''"
  let ?pmsg = "\<lparr>pr_propose_id = ''p1'', pr_new_key_b64 = std_encode ?key, pr_propose_ts = 0\<rparr>"
  let ?com = "\<lparr>cr_propose_id = ''p1'', cr_commit_ts = 0, cr_grace_duration = default_grace_duration\<rparr>"
  define n1 where "n1 = fst (deliver 0 idle_member (Propose ?pmsg))"
  define n2 where "n2 = fst (deliver 0 n1 (Commit ?com))"
  have nk: "new_key ?pmsg = Inr ?key" by (rule new_key_of_encoded) (simp add: key_len_def)
  have idle: "mn_store idle_member = None" by (simp add: idle_member_def)
  have d1: "deliver 0 idle_member (Propose ?pmsg) = (n1, 200)"
    using deliver_propose_idle [OF idle nk, of 0] by (simp add: n1_def prod_eq_iff)
  have s1: "mn_store n1 = Some \<lparr>pd_propose_id = ''p1'', pd_new_key = ?key, pd_received_at = 0\<rparr>"
    and k1: "mn_keys n1 = sample_keys"
    using deliver_propose_idle [OF idle nk, of 0] by (simp_all add: n1_def idle_member_def)
  have d2: "deliver 0 n1 (Commit ?com) = (n2, 200)"
    using deliver_commit_pending [OF s1, of ?com ?key 0] by (simp add: n2_def prod_eq_iff)
  have post: "broadcast cluster_post [0, Suc 0] sample_peers (Propose ?pmsg) (sample_cluster lose_last_commit) =
    ((sample_cluster lose_last_commit)\<lparr>ct_sent := 2,
       ct_nodes := (ct_nodes (sample_cluster lose_last_commit))(''a:1'' := Some n1, ''b:1'' := Some n1)\<rparr>,
     [\<lparr>res_member_id = ''a'', res_ok = True, res_status = 200\<rparr>, \<lparr>res_member_id = ''b'', res_ok = True, res_status = 200\<rparr>])"
    by (simp add: broadcast_def send_one_def cluster_post_def sample_peers_def sample_cluster_def lose_last_commit_def
        Let_def d1 numeral_2_eq_2)
  have com: "ct_nodes (fst (broadcast cluster_post [0, Suc 0] sample_peers (Commit ?com)
    ((sample_cluster lose_last_commit)\<lparr>ct_sent := 2,
       ct_nodes := (ct_nodes (sample_cluster lose_last_commit))(''a:1'' := Some n1, ''b:1'' := Some n1)\<rparr>))) ''b:1'' = Some n1"
    by (simp add: broadcast_def send_one_def cluster_post_def sample_peers_def sample_cluster_def lose_last_commit_def
        Let_def d2)
  have env: "re_key sample_rotate_env = Some ?key" "?key \<noteq> []" "re_propose_id sample_rotate_env = Some ''p1''" "sample_peers \<noteq> []"
    "re_propose_sched sample_rotate_env (length sample_peers) = [0, Suc 0]"
    "re_commit_sched sample_rotate_env (length sample_peers) = [0, Suc 0]"
    "re_propose_now sample_rotate_env = 0" "re_commit_now sample_rotate_env = 0"
    "co_grace_duration sample_coordinator = default_grace_duration"
    by (simp_all add: sample_rotate_env_def sample_peers_def sample_coordinator_def upt_rec)
  have k: "kp_current (mn_keys n1) = ''old''" using k1 by (simp add: sample_keys_def)
  have ok: "\<forall>r\<in>set [\<lparr>res_member_id = ''a'', res_ok = True, res_status = 200\<rparr>,
      \<lparr>res_member_id = ''b'', res_ok = True, res_status = 200\<rparr>]. res_ok r" by simp
  show ?thesis
    using rotate_commits [OF env(1-4), unfolded env(5-8), OF post ok, of sample_coordinator, unfolded env(9)] com k
    by (metis (no_types, lifting))
qed

text \<open>Both peers accept and both commits arrive.\<close>

theorem rotation_reaches_everyone_witness:
  "\<exists>co' ct' res. rotate cluster_post sample_rotate_env sample_peers (sample_coordinator, sample_cluster (\<lambda>_. (Delivered, 0)))
       = ((co', ct'), Inr res) \<and> rr_committed res \<and> rr_acked_by res = [''a'', ''b'']"
proof -
  let ?ct = "sample_cluster (\<lambda>_. (Delivered, 0))"
  have 1: "re_key sample_rotate_env = Some (replicate 32 CHR ''k'')" "length (replicate 32 CHR ''k'') = 32"
    "re_propose_id sample_rotate_env = Some ''p1''" by (simp_all add: sample_rotate_env_def)
  have 2: "\<And>k. fst (ct_wire ?ct k) = Delivered" "distinct (map rp_address sample_peers)"
    by (simp_all add: sample_cluster_def sample_peers_def)
  have 3: "\<And>k. schedule (re_propose_sched sample_rotate_env k) k" "\<And>k. schedule (re_commit_sched sample_rotate_env k) k"
    by (auto simp: sample_rotate_env_def schedule_def)
  have 4: "\<And>p. p \<in> set sample_peers \<Longrightarrow> \<exists>n. ct_nodes ?ct (rp_address p) = Some n \<and> mn_store n = None"
    by (auto simp: sample_peers_def sample_cluster_def idle_member_def)
  have acked: "map rp_member_id sample_peers = [''a'', ''b'']" by (simp add: sample_peers_def)
  from rotation_reaches_everyone [OF 1 2 3 4, of sample_coordinator] show ?thesis
    unfolding acked by blast
qed

theorem rotation_all_or_nothing_witness:
  "\<exists>co' ct' res n. rotate cluster_post sample_rotate_env sample_peers (sample_coordinator, sample_cluster lose_last_commit)
       = ((co', ct'), Inr res) \<and> kp_current (co_keys co') = replicate 32 CHR ''k'' \<and>
     ct_nodes ct' ''b:1'' = Some n \<and> kp_current (mn_keys n) = ''old''"
proof -
  obtain co' ct' res n where run: "rotate cluster_post sample_rotate_env sample_peers (sample_coordinator, sample_cluster lose_last_commit)
       = ((co', ct'), Inr res)" "rr_committed res" "ct_nodes ct' ''b:1'' = Some n" "kp_current (mn_keys n) = ''old''"
    using lossy_rotation by blast
  have env: "re_key sample_rotate_env = Some (replicate 32 CHR ''k'')" "length (replicate 32 CHR ''k'') = 32"
    "re_propose_id sample_rotate_env = Some ''p1''" by (simp_all add: sample_rotate_env_def)
  have fresh: "\<And>a n. ct_nodes (sample_cluster lose_last_commit) a = Some n \<Longrightarrow> \<not> proposed n ''p1''"
    by (auto simp: sample_cluster_def idle_member_def proposed_def split: if_splits)
  from rotation_all_or_nothing [OF run(1) env fresh] run show ?thesis by auto
qed

end
