(* ===== verification/Utf8.thy ===== *)
theory Utf8
  imports Prelude
begin

text \<open>
  What the repository uses of Go's UTF-8 handling on strings that are byte sequences: \<open>[]rune(s)\<close>, its
  length and its conversion back, and \<open>strings.TrimSpace\<close>. An invalid byte counts as one rune and is
  rendered as U+FFFD.
\<close>

definition byte :: "char \<Rightarrow> nat" where
  "byte c = of_char c"

definition cont :: "nat \<Rightarrow> nat \<Rightarrow> string \<Rightarrow> bool" where
  "cont lo hi s = (case s of [] \<Rightarrow> False | c # _ \<Rightarrow> lo \<le> byte c \<and> byte c \<le> hi)"

text \<open>The width of the first rune when it is well formed (\<open>utf8.DecodeRuneInString\<close>).\<close>

definition rune_width :: "char \<Rightarrow> string \<Rightarrow> nat option" where
  "rune_width c s =
     (let b = byte c
      in if b < 128 then Some 1
         else if 194 \<le> b \<and> b \<le> 223 then (if cont 128 191 s then Some 2 else None)
         else if 224 \<le> b \<and> b \<le> 239 then
           (if cont (if b = 224 then 160 else 128) (if b = 237 then 159 else 191) s \<and> cont 128 191 (drop 1 s)
            then Some 3 else None)
         else if 240 \<le> b \<and> b \<le> 244 then
           (if cont (if b = 240 then 144 else 128) (if b = 244 then 143 else 191) s \<and> cont 128 191 (drop 1 s)
             \<and> cont 128 191 (drop 2 s) then Some 4 else None)
         else None)"

definition replacement :: string where
  "replacement = [CHR 0xEF, CHR 0xBF, CHR 0xBD]"

text \<open>The runes of a string, each as the bytes it converts back to.\<close>

function runes :: "string \<Rightarrow> string list" where
  "runes [] = []"
| "runes (c # s) =
     (case rune_width c s of
        None \<Rightarrow> replacement # runes s
      | Some w \<Rightarrow> (c # take (w - 1) s) # runes (drop (w - 1) s))"
  by pat_completeness auto
termination by (relation "measure length") auto

definition rune_count :: "string \<Rightarrow> nat" where
  "rune_count s = length (runes s)"

text \<open>\<open>string([]rune(s)[:n])\<close>.\<close>

definition take_runes :: "nat \<Rightarrow> string \<Rightarrow> string" where
  "take_runes n s = concat (take n (runes s))"

text \<open>\<open>unicode.IsSpace\<close> on the bytes of one rune.\<close>

definition space_rune :: "string \<Rightarrow> bool" where
  "space_rune r \<longleftrightarrow> map byte r \<in> {[9], [10], [11], [12], [13], [32], [194, 133], [194, 160], [225, 154, 128],
     [226, 128, 168], [226, 128, 169], [226, 128, 175], [226, 129, 159], [227, 128, 128]} \<or>
     (length r = 3 \<and> map byte (take 2 r) = [226, 128] \<and> 128 \<le> byte (r ! 2) \<and> byte (r ! 2) \<le> 138)"

text \<open>\<open>strings.TrimSpace\<close> cuts whole bytes of the original, so the pieces keep their own bytes.\<close>

function pieces :: "string \<Rightarrow> string list" where
  "pieces [] = []"
| "pieces (c # s) =
     (case rune_width c s of
        None \<Rightarrow> [c] # pieces s
      | Some w \<Rightarrow> (c # take (w - 1) s) # pieces (drop (w - 1) s))"
  by pat_completeness auto
termination by (relation "measure length") auto

definition trim :: "string \<Rightarrow> string" where
  "trim s = concat (rev (dropWhile space_rune (rev (dropWhile space_rune (pieces s)))))"

lemma length_runes: "length (runes s) \<le> length s"
proof (induction s rule: runes.induct)
  case (2 c s)
  then show ?case by (auto split: option.split intro: le_trans)
qed simp

lemma concat_pieces: "concat (pieces s) = s"
  by (induction s rule: pieces.induct) (auto split: option.split)

lemma runes_ascii: "\<forall>c\<in>set s. byte c < 128 \<Longrightarrow> runes s = map (\<lambda>c. [c]) s"
  by (induction s) (simp_all add: rune_width_def)

lemma pieces_ascii: "\<forall>c\<in>set s. byte c < 128 \<Longrightarrow> pieces s = map (\<lambda>c. [c]) s"
  by (induction s) (simp_all add: rune_width_def)

end
