(* ===== verification/Json.thy ===== *)
theory Json
  imports Utf8
begin

text \<open>
  The part of Go's \<open>encoding/json\<close> and \<open>time\<close> that decides bytes the repository hashes: the encoding
  of a string (with the HTML escapes that \<open>json.Marshal\<close> applies), of a list of strings, of an object, and of
  an instant in RFC 3339 with nanoseconds. Instants are rendered in UTC. The lemmas show that a string
  literal can be read back, that an instant is determined by its text, and that the texts of a list and of a
  number end where the next token starts.
\<close>

section \<open>Strings\<close>

definition dquote :: char where "dquote = CHR 0x22"
definition backslash :: char where "backslash = CHR 0x5C"

text \<open>\<open>encoding/json.appendString\<close> on one rune; an invalid byte is written as an escape.\<close>

definition json_rune :: "string \<Rightarrow> string" where
  "json_rune p =
     (case p of
        [c] \<Rightarrow>
          (let b = byte c
           in if b = 34 \<or> b = 92 then [backslash, c]
              else if b = 8 then [backslash, CHR ''b'']
              else if b = 12 then [backslash, CHR ''f'']
              else if b = 10 then [backslash, CHR ''n'']
              else if b = 13 then [backslash, CHR ''r'']
              else if b = 9 then [backslash, CHR ''t'']
              else if b < 32 \<or> b = 60 \<or> b = 62 \<or> b = 38 then backslash # ''u00'' @ hex_byte c
              else if b < 128 then [c]
              else backslash # ''ufffd'')
      | _ \<Rightarrow>
          if map byte p = [226, 128, 168] then backslash # ''u2028''
          else if map byte p = [226, 128, 169] then backslash # ''u2029''
          else p)"

definition json_string :: "string \<Rightarrow> string" where
  "json_string s = dquote # concat (map json_rune (pieces s)) @ [dquote]"

definition json_strings :: "string list \<Rightarrow> string" where
  "json_strings xs = CHR ''['' # join (CHR '','') (map json_string xs) @ '']''"

definition json_member :: "string \<Rightarrow> string \<Rightarrow> string" where
  "json_member k v = dquote # k @ [dquote, CHR '':''] @ v"

definition json_obj :: "string list \<Rightarrow> string" where
  "json_obj ms = CHR 0x7B # join (CHR '','') ms @ [CHR 0x7D]"

section \<open>Instants\<close>

text \<open>Days before January 1 of year \<open>y\<close>, counted from January 1 of year 0 of the Gregorian calendar.\<close>

definition days_before :: "int \<Rightarrow> int" where
  "days_before y = 365 * y + (y + 3) div 4 - (y + 99) div 100 + (y + 399) div 400"

definition year_of :: "int \<Rightarrow> int" where
  "year_of d =
     (let e = 400 * d div 146097
      in if days_before (e + 1) \<le> d then e + 1 else if days_before e \<le> d then e else e - 1)"

definition leap_year :: "int \<Rightarrow> bool" where
  "leap_year y \<longleftrightarrow> y mod 4 = 0 \<and> (y mod 100 \<noteq> 0 \<or> y mod 400 = 0)"

definition month_starts :: "bool \<Rightarrow> int list" where
  "month_starts leap = (if leap then [0, 31, 60, 91, 121, 152, 182, 213, 244, 274, 305, 335]
                        else [0, 31, 59, 90, 120, 151, 181, 212, 243, 273, 304, 334])"

definition month_of :: "bool \<Rightarrow> int \<Rightarrow> nat" where
  "month_of leap n = length (filter (\<lambda>s. s \<le> n) (month_starts leap))"

fun pad :: "nat \<Rightarrow> nat \<Rightarrow> string" where
  "pad 0 n = []"
| "pad (Suc w) n = pad w (n div 10) @ [digit_char (n mod 10)]"

definition pad_int :: "nat \<Rightarrow> int \<Rightarrow> string" where
  "pad_int w i = (let n = nat \<bar>i\<bar> in (if i < 0 then ''-'' else []) @ (if n < 10 ^ w then pad w n else dec_nat n))"

definition trim_zeros :: "string \<Rightarrow> string" where
  "trim_zeros s = rev (dropWhile (\<lambda>c. c = CHR ''0'') (rev s))"

definition fraction :: "int \<Rightarrow> string" where
  "fraction ns = (if ns = 0 then [] else CHR ''.'' # trim_zeros (pad 9 (nat ns)))"

definition epoch_days :: int where "epoch_days = 719528"

text \<open>\<open>t.UTC().Format(time.RFC3339Nano)\<close>.\<close>

definition rfc3339_nano :: "time \<Rightarrow> string" where
  "rfc3339_nano t =
     (let sec = t div second; d = sec div 86400 + epoch_days; sod = sec mod 86400;
          y = year_of d; yday = d - days_before y; leap = leap_year y; m = month_of leap yday
      in pad_int 4 y @ ''-'' @ pad 2 m @ ''-'' @ pad 2 (nat (yday - month_starts leap ! (m - 1) + 1)) @ ''T'' @
         pad 2 (nat (sod div 3600)) @ '':'' @ pad 2 (nat (sod mod 3600 div 60)) @ '':'' @ pad 2 (nat (sod mod 60)) @
         fraction (t mod second) @ ''Z'')"

text \<open>\<open>Time.MarshalJSON\<close> refuses a year outside 0 to 9999.\<close>

definition json_time_ok :: "time \<Rightarrow> bool" where
  "json_time_ok t \<longleftrightarrow> 0 \<le> year_of (t div second div 86400 + epoch_days) \<and> year_of (t div second div 86400 + epoch_days) < 10000"

definition json_time :: "time \<Rightarrow> string" where
  "json_time t = dquote # rfc3339_nano t @ [dquote]"

section \<open>Reading a string back\<close>

definition hex_val :: "char \<Rightarrow> nat" where
  "hex_val c = (if byte c < 58 then byte c - 48 else byte c - 87)"

definition unescape :: "char \<Rightarrow> char" where
  "unescape e = (if e = CHR ''b'' then char_of (8 :: nat) else if e = CHR ''f'' then char_of (12 :: nat)
     else if e = CHR ''n'' then char_of (10 :: nat) else if e = CHR ''r'' then char_of (13 :: nat)
     else if e = CHR ''t'' then char_of (9 :: nat) else e)"

text \<open>The code points the encoder escapes: below 128, the two line separators, and the replacement rune.\<close>

definition unescape4 :: "string \<Rightarrow> string" where
  "unescape4 h =
     (if take 2 h = ''00'' then [char_of (16 * hex_val (h ! 2) + hex_val (h ! 3))]
      else if h = ''2028'' then map char_of [226, 128, 168 :: nat]
      else if h = ''2029'' then map char_of [226, 128, 169 :: nat]
      else replacement)"

function unquote :: "string \<Rightarrow> (string \<times> string) option" where
  "unquote [] = None"
| "unquote (c # s) =
     (if c = dquote then Some ([], s)
      else if c = backslash then
        (case s of
           [] \<Rightarrow> None
         | e # s' \<Rightarrow>
             if e = CHR ''u'' then map_option (apfst ((@) (unescape4 (take 4 s')))) (unquote (drop 4 s'))
             else map_option (apfst ((#) (unescape e))) (unquote s'))
      else map_option (apfst ((#) c)) (unquote s))"
  by pat_completeness auto
termination by (relation "measure length") auto

text \<open>A piece of a valid string is one ASCII byte or several bytes above 127.\<close>

definition piece_ok :: "string \<Rightarrow> bool" where
  "piece_ok p \<longleftrightarrow> (\<exists>c. p = [c] \<and> byte c < 128) \<or> 2 \<le> length p \<and> (\<forall>c\<in>set p. 128 \<le> byte c)"

definition valid_utf8 :: "string \<Rightarrow> bool" where
  "valid_utf8 s \<longleftrightarrow> (\<forall>p\<in>set (pieces s). \<forall>c. p = [c] \<longrightarrow> byte c < 128)"

lemma rune_width_piece:
  assumes "rune_width c s = Some w"
  shows "w = 1 \<and> byte c < 128 \<or> 2 \<le> w \<and> w - 1 \<le> length s \<and> 128 \<le> byte c \<and> (\<forall>d\<in>set (take (w - 1) s). 128 \<le> byte d)"
proof -
  have cont_simps: "\<not> cont lo hi []" "cont lo hi (d # r) \<longleftrightarrow> lo \<le> byte d \<and> byte d \<le> hi" for lo hi d r
    by (simp_all add: cont_def)
  consider "s = []" | a where "s = [a]" | a b where "s = [a, b]" | a b d r where "s = a # b # d # r"
    by (metis list.exhaust)
  then show ?thesis
    using assms unfolding rune_width_def Let_def
    by cases (auto simp: cont_simps split: if_splits)
qed

lemma valid_pieces: "valid_utf8 s \<Longrightarrow> p \<in> set (pieces s) \<Longrightarrow> piece_ok p"
proof -
  have "p \<in> set (pieces s) \<Longrightarrow> \<forall>c. p = [c] \<longrightarrow> byte c < 128 \<Longrightarrow> piece_ok p"
  proof (induction s rule: pieces.induct)
    case (2 c s)
    show ?case
    proof (cases "rune_width c s")
      case None
      with 2 show ?thesis by (auto simp: piece_ok_def)
    next
      case (Some w)
      with 2 rune_width_piece [OF Some] show ?thesis by (auto simp: piece_ok_def)
    qed
  qed simp
  then show "valid_utf8 s \<Longrightarrow> p \<in> set (pieces s) \<Longrightarrow> piece_ok p"
    by (auto simp: valid_utf8_def)
qed

lemma valid_ascii: "\<forall>c\<in>set s. byte c < 128 \<Longrightarrow> valid_utf8 s"
  by (auto simp: valid_utf8_def pieces_ascii)

lemma byte_eq: "byte c = n \<longleftrightarrow> n < 256 \<and> c = char_of n"
  using nat_of_char_less_256 [of c] by (auto simp: byte_def)

lemma unquote_raw: "\<forall>c\<in>set p. 128 \<le> byte c \<Longrightarrow> unquote (p @ r) = map_option (apfst ((@) p)) (unquote r)"
proof (induction p)
  case Nil
  have "apfst (\<lambda>a :: string. a) = (\<lambda>x :: string \<times> string. x)" by (auto simp: apfst_def)
  then show ?case by (simp add: option.map_ident)
next
  case (Cons c p)
  from Cons.prems have "c \<noteq> dquote" "c \<noteq> backslash"
    by (auto simp: byte_def dquote_def backslash_def)
  with Cons show ?case by (cases "unquote r") (auto simp: apfst_def)
qed

lemma hex_val_digit: "d < 16 \<Longrightarrow> hex_val (hex_digit d) = d"
  by (simp add: hex_val_def byte_def of_hex_digit)

lemma unescape4_byte: "unescape4 (''00'' @ hex_byte c) = [c]"
  by (simp add: unescape4_def hex_byte_def hex_val_digit nibbles)

lemma unquote_u: "unquote (backslash # CHR ''u'' # h @ r) = map_option (apfst ((@) (unescape4 h))) (unquote r)"
  if "length h = 4" for h
  using that by (simp add: backslash_def dquote_def)

lemma unquote_esc: "e \<noteq> CHR ''u'' \<Longrightarrow> unquote (backslash # e # r) = map_option (apfst ((#) (unescape e))) (unquote r)"
  by (simp add: backslash_def dquote_def)

lemma unquote_rune:
  assumes "piece_ok p"
  shows "unquote (json_rune p @ r) = map_option (apfst ((@) p)) (unquote r)"
  using assms unfolding piece_ok_def
proof
  assume "2 \<le> length p \<and> (\<forall>c\<in>set p. 128 \<le> byte c)"
  then have raw: "\<forall>c\<in>set p. 128 \<le> byte c" and "2 \<le> length p" by auto
  then have "json_rune p =
     (if map byte p = [226, 128, 168] then backslash # ''u2028''
      else if map byte p = [226, 128, 169] then backslash # ''u2029'' else p)"
    by (cases p; cases "tl p") (auto simp: json_rune_def)
  moreover have "p = map char_of [226, 128, 168 :: nat]" if "map byte p = [226, 128, 168]"
    using arg_cong [OF that, of "map char_of"] by (simp add: byte_def comp_def)
  moreover have "p = map char_of [226, 128, 169 :: nat]" if "map byte p = [226, 128, 169]"
    using arg_cong [OF that, of "map char_of"] by (simp add: byte_def comp_def)
  ultimately show ?thesis
    using unquote_raw [OF raw] unquote_u [of "''2028''" r] unquote_u [of "''2029''" r]
    by (auto simp: unescape4_def)
next
  assume "\<exists>c. p = [c] \<and> byte c < 128"
  then obtain c where c: "p = [c]" "byte c < 128" by blast
  have app: "(@) [x] = (#) x" for x :: char by (rule ext) simp
  have u: "unquote (backslash # CHR ''u'' # CHR ''0'' # CHR ''0'' # hex_byte c @ r) = map_option (apfst ((#) c)) (unquote r)"
    using unquote_u [of "''00'' @ hex_byte c" r] unescape4_byte [of c] app by (simp add: hex_byte_def del: unquote.simps)
  have plain: "unquote (c # r) = map_option (apfst ((#) c)) (unquote r)" if "byte c \<noteq> 34" "byte c \<noteq> 92"
    using that by (auto simp: byte_def dquote_def backslash_def)
  have self: "unquote (backslash # c # r) = map_option (apfst ((#) c)) (unquote r)" if "byte c = 34 \<or> byte c = 92"
  proof -
    have "unescape c = c" "c \<noteq> CHR ''u''" using that by (auto simp: unescape_def byte_def)
    then show ?thesis by (simp add: unquote_esc del: unquote.simps)
  qed
  have esc: "char_of n = c" if "byte c = n" for n
    using that by (auto simp: byte_def)
  show ?thesis
    using c u plain self esc by (auto simp: json_rune_def Let_def unquote_esc unescape_def app simp del: unquote.simps)
qed

lemma unquote_json_string:
  assumes "valid_utf8 s"
  shows "unquote (tl (json_string s) @ r) = Some (s, r)"
proof -
  have "\<forall>p\<in>set ps. piece_ok p \<Longrightarrow> unquote (concat (map json_rune ps) @ dquote # r) = Some (concat ps, r)" for ps
    by (induction ps) (simp_all add: unquote_rune)
  from this [of "pieces s"] valid_pieces [OF assms] show ?thesis
    by (auto simp: json_string_def concat_pieces)
qed

lemma json_string_inj [list_facts]:
  assumes "valid_utf8 s" "valid_utf8 t"
  shows "json_string s @ r = json_string t @ r' \<longleftrightarrow> s = t \<and> r = r'"
proof
  assume *: "json_string s @ r = json_string t @ r'"
  have "tl (json_string s @ r) = tl (json_string s) @ r" "tl (json_string t @ r') = tl (json_string t) @ r'"
    by (simp_all add: json_string_def)
  with * have "unquote (tl (json_string s) @ r) = unquote (tl (json_string t) @ r')" by simp
  then show "s = t \<and> r = r'"
    by (simp add: unquote_json_string assms)
qed simp

text \<open>The text of a list ends where the next token starts.\<close>

lemma json_string_Cons: "json_string s = dquote # tl (json_string s)"
  by (simp add: json_string_def)

lemma json_strings_inj [list_facts]:
  assumes "\<forall>x\<in>set xs. valid_utf8 x" "\<forall>y\<in>set ys. valid_utf8 y"
  shows "json_strings xs @ r = json_strings ys @ r' \<longleftrightarrow> xs = ys \<and> r = r'"
proof -
  have start: "json_string s @ q \<noteq> CHR '']'' # q'" "CHR '']'' # q' \<noteq> json_string s @ q" for s q q'
    by (auto simp: json_string_def dquote_def)
  have *: "join (CHR '','') (map json_string xs) @ CHR '']'' # r = join (CHR '','') (map json_string ys) @ CHR '']'' # r'
      \<longleftrightarrow> xs = ys \<and> r = r'"
    using assms
  proof (induction xs arbitrary: ys)
    case Nil
    then show ?case by (cases ys) (auto simp: join_Cons_cases start)
  next
    case (Cons x xs)
    show ?case
    proof (cases ys)
      case Nil
      then show ?thesis by (auto simp: join_Cons_cases start)
    next
      case (Cons y ys')
      with Cons.prems Cons.IH [of ys'] show ?thesis
        by (auto simp: join_Cons_cases json_string_inj)
    qed
  qed
  then show ?thesis by (simp add: json_strings_def)
qed

section \<open>An instant is determined by its text\<close>

lemma div_bounds: "0 < (k :: int) \<Longrightarrow> k * (x div k) \<le> x \<and> x < k * (x div k) + k"
  by (metis div_mult_mod_eq le_add_same_cancel1 add_strict_left_mono mult.commute pos_mod_bound pos_mod_sign)

lemma days_before_bounds:
  "146097 * y - 1000 \<le> 400 * days_before y \<and> 400 * days_before y \<le> 146097 * y + 1000"
  using div_bounds [of 4 "y + 3"] div_bounds [of 100 "y + 99"] div_bounds [of 400 "y + 399"]
  unfolding days_before_def by simp

lemma year_of_bounds: "days_before (year_of d) \<le> d \<and> d < days_before (year_of d + 1)"
proof -
  define e where "e = 400 * d div 146097"
  have "146097 * e \<le> 400 * d" "400 * d < 146097 * e + 146097"
    using div_bounds [of 146097 "400 * d"] by (simp_all add: e_def)
  then have "days_before (e - 1) \<le> d" "d < days_before (e + 2)"
    using days_before_bounds [of "e - 1"] days_before_bounds [of "e + 2"] by simp_all
  then show ?thesis
    by (auto simp: year_of_def Let_def add.commute simp flip: e_def)
qed

text \<open>The last instant that JSON can write is 9999-12-31T23:59:59.999999999Z.\<close>

definition last_instant :: time where
  "last_instant = 253402300799999999999"

lemma json_time_ok_last: "json_time_ok t \<Longrightarrow> t \<le> last_instant"
proof -
  assume ok: "json_time_ok t"
  define d where "d = t div second div 86400 + epoch_days"
  have "year_of d + 1 \<le> 10000" using ok by (simp add: json_time_ok_def d_def)
  then have "400 * days_before (year_of d + 1) \<le> 400 * 3652425"
    using days_before_bounds [of "year_of d + 1"] by (cases "year_of d + 1 = 10000") (simp_all add: days_before_def)
  then have "d < 3652425" using year_of_bounds [of d] by simp
  then have "t div second div 86400 \<le> 2932896" by (simp add: d_def epoch_days_def)
  then have "t div second < 86400 * 2932897"
    using div_bounds [of 86400 "t div second"] by simp
  then show ?thesis
    using div_bounds [of second t] by (simp add: last_instant_def)
qed

lemma filter_sorted: "sorted xs \<Longrightarrow> filter (\<lambda>s. s \<le> n) xs = takeWhile (\<lambda>s. s \<le> (n :: 'a :: linorder)) xs"
proof (induction xs)
  case (Cons x xs)
  then show ?case by (cases "x \<le> n"; cases xs) (auto simp: filter_empty_conv)
qed simp

lemma month_starts_shape: "sorted (month_starts l)" "length (month_starts l) = 12" "hd (month_starts l) = 0"
  by (auto simp: month_starts_def)

lemma month_starts_gap: "i < 11 \<Longrightarrow> month_starts l ! Suc i - month_starts l ! i < 90"
proof -
  have "\<forall>i<11. month_starts l ! Suc i - month_starts l ! i < 90"
    by (cases l) (simp_all add: month_starts_def All_less_Suc numeral_eq_Suc)
  then show "i < 11 \<Longrightarrow> month_starts l ! Suc i - month_starts l ! i < 90" by blast
qed

lemma month_of_bounds:
  assumes "0 \<le> n"
  shows "1 \<le> month_of l n \<and> month_of l n \<le> 12 \<and> month_starts l ! (month_of l n - 1) \<le> n"
    and "month_of l n < 12 \<Longrightarrow> n < month_starts l ! month_of l n"
proof -
  let ?t = "takeWhile (\<lambda>s. s \<le> n) (month_starts l)"
  have m: "month_of l n = length ?t"
    by (simp add: month_of_def filter_sorted month_starts_shape)
  have "?t \<noteq> []" using assms month_starts_shape [of l] by (cases "month_starts l") auto
  then have "0 < length ?t" by simp
  then have "?t ! (length ?t - 1) \<in> set ?t" by (intro nth_mem) simp
  with \<open>0 < length ?t\<close> show "1 \<le> month_of l n \<and> month_of l n \<le> 12 \<and> month_starts l ! (month_of l n - 1) \<le> n"
    using length_takeWhile_le [of "\<lambda>s. s \<le> n" "month_starts l"] month_starts_shape(2) [of l]
    by (auto simp: m takeWhile_nth Suc_le_eq dest: set_takeWhileD)
  show "month_of l n < 12 \<Longrightarrow> n < month_starts l ! month_of l n"
    using nth_length_takeWhile [of "\<lambda>s. s \<le> n" "month_starts l"] by (auto simp: m month_starts_shape not_le)
qed

lemma length_pad [simp]: "length (pad w n) = w"
  by (induction w n rule: pad.induct) auto

lemma pad_chars: "c \<in> set (pad w n) \<Longrightarrow> 48 \<le> byte c \<and> byte c < 58"
  by (induction w n rule: pad.induct) (auto simp: byte_def of_digit_char)

lemma undec_pad: "n < 10 ^ w \<Longrightarrow> undec (pad w n) = n"
proof (induction w n rule: pad.induct)
  case (2 w n)
  then have "undec (pad w (n div 10)) = n div 10" by (simp add: less_mult_imp_div_less)
  then show ?case by (simp add: undec_def of_digit_char)
qed (simp add: undec_def)

lemma pad_inj: "m < 10 ^ w \<Longrightarrow> n < 10 ^ w \<Longrightarrow> pad w m = pad w n \<longleftrightarrow> m = n"
  by (metis undec_pad)

lemma trim_zeros_inj:
  assumes "length s = length t" "trim_zeros s = trim_zeros t"
  shows "s = t"
proof -
  define z where "z c \<longleftrightarrow> c = CHR ''0''" for c
  have split: "u = trim_zeros u @ replicate (length u - length (trim_zeros u)) (CHR ''0'')" for u
  proof -
    have "rev u = takeWhile z (rev u) @ dropWhile z (rev u)" by simp
    moreover have "takeWhile z (rev u) = replicate (length (takeWhile z (rev u))) (CHR ''0'')"
      by (rule replicate_length_same [symmetric]) (auto simp: z_def dest: set_takeWhileD)
    moreover have "length (takeWhile z (rev u)) = length u - length (dropWhile z (rev u))"
      by (metis add_diff_cancel_right' length_append length_rev takeWhile_dropWhile_id)
    ultimately show ?thesis
      unfolding trim_zeros_def z_def [symmetric] by (metis rev_append rev_replicate rev_rev_ident length_rev)
  qed
  show ?thesis using split [of s] split [of t] assms by simp
qed

lemma fraction_inj:
  assumes "0 \<le> m" "m < second" "0 \<le> n" "n < second" "fraction m @ ''Z'' = fraction n @ ''Z''"
  shows "m = n"
proof -
  have "pad 9 (nat m) = pad 9 (nat n) \<Longrightarrow> m = n"
    using assms by (simp add: pad_inj nat_less_iff)
  with assms(5) show ?thesis
    by (auto simp: fraction_def dest: trim_zeros_inj [rotated] split: if_splits)
qed

lemma year_length: "days_before (y + 1) - days_before y \<le> 367"
proof -
  have "(y + 4) div 4 \<le> (y + 3) div 4 + 1" "(y + 400) div 400 \<le> (y + 399) div 400 + 1"
    using div_bounds [of 4 "y + 3"] div_bounds [of 4 "y + 4"] div_bounds [of 400 "y + 399"] div_bounds [of 400 "y + 400"]
    by simp_all
  moreover have "(y + 99) div 100 \<le> (y + 100) div 100" by (rule zdiv_mono1) simp_all
  ultimately show ?thesis unfolding days_before_def by (simp add: algebra_simps)
qed

definition day_of :: "bool \<Rightarrow> int \<Rightarrow> nat" where
  "day_of l n = nat (n - month_starts l ! (month_of l n - 1) + 1)"

lemma day_of_bounds:
  assumes "0 \<le> n" "n \<le> 367"
  shows "day_of l n < 100"
proof -
  let ?m = "month_of l n"
  have "1 \<le> ?m" "?m \<le> 12" using month_of_bounds(1) [OF assms(1), of l] by auto
  moreover have "n < month_starts l ! (?m - 1) + 90" if "?m < 12"
    using month_of_bounds(2) [OF assms(1) that] month_starts_gap [of "?m - 1" l] that \<open>1 \<le> ?m\<close>
    by (simp add: less_diff_conv2)
  moreover have "n < month_starts l ! (?m - 1) + 90" if "?m = 12"
    using assms(2) that by (cases l) (simp_all add: month_starts_def)
  ultimately have "n < month_starts l ! (?m - 1) + 90" by linarith
  then show ?thesis by (simp add: day_of_def nat_less_iff)
qed

lemma day_of_inj:
  assumes "0 \<le> m" "0 \<le> n" "month_of l m = month_of l n" "day_of l m = day_of l n"
  shows "m = n"
  using month_of_bounds(1) [OF assms(1), of l] month_of_bounds(1) [OF assms(2), of l] assms(3,4)
  by (auto simp: day_of_def nat_eq_iff split: if_splits)

definition clock_text :: "int \<Rightarrow> string" where
  "clock_text sod = pad 2 (nat (sod div 3600)) @ '':'' @ pad 2 (nat (sod mod 3600 div 60)) @ '':'' @ pad 2 (nat (sod mod 60))"

lemma clock_text_inj:
  assumes "0 \<le> a" "a < 86400" "0 \<le> b" "b < 86400"
  shows "clock_text a @ r = clock_text b @ r' \<longleftrightarrow> a = b \<and> r = r'"
proof
  assume "clock_text a @ r = clock_text b @ r'"
  then have pads: "pad 2 (nat (a div 3600)) = pad 2 (nat (b div 3600))" "pad 2 (nat (a mod 3600 div 60)) = pad 2 (nat (b mod 3600 div 60))"
      "pad 2 (nat (a mod 60)) = pad 2 (nat (b mod 60))" and r: "r = r'"
    by (auto simp: clock_text_def append_eq_append_conv)
  have small: "nat (x div 3600) < 10 ^ 2" "nat (x mod 3600 div 60) < 10 ^ 2" "nat (x mod 60) < 10 ^ 2"
    if "x < 86400" for x :: int
    using div_bounds [of 3600 x] div_bounds [of 60 "x mod 3600"] pos_mod_bound [of 3600 x] pos_mod_bound [of 60 x] that
    by simp_all
  note ab = small [OF assms(2)] small [OF assms(4)]
  have "nat (a div 3600) = nat (b div 3600)" "nat (a mod 3600 div 60) = nat (b mod 3600 div 60)" "nat (a mod 60) = nat (b mod 60)"
    using pads pad_inj [OF ab(1) ab(4)] pad_inj [OF ab(2) ab(5)] pad_inj [OF ab(3) ab(6)] by blast+
  moreover have "0 \<le> a div 3600" "0 \<le> b div 3600" using assms(1,3) by (simp_all add: pos_imp_zdiv_nonneg_iff)
  moreover have "0 \<le> x mod 3600 div 60" "0 \<le> x mod 60" for x :: int by (simp_all add: pos_imp_zdiv_nonneg_iff)
  ultimately have "a div 3600 = b div 3600" "a mod 3600 div 60 = b mod 3600 div 60" "a mod 60 = b mod 60"
    by (simp_all only: eq_nat_nat_iff)
  moreover have "x = 3600 * (x div 3600) + (60 * (x mod 3600 div 60) + x mod 60)" for x :: int
    using mult_div_mod_eq [of 3600 x] mult_div_mod_eq [of 60 "x mod 3600"] by (simp add: mod_mod_cancel)
  ultimately have "a = b" by metis
  with r show "a = b \<and> r = r'" by simp
qed simp

lemma rfc3339_nano_text:
  "rfc3339_nano t =
     (let d = t div second div 86400 + epoch_days; y = year_of d; yday = d - days_before y
      in pad_int 4 y @ ''-'' @ pad 2 (month_of (leap_year y) yday) @ ''-'' @ pad 2 (day_of (leap_year y) yday) @ ''T'' @
         clock_text (t div second mod 86400) @ fraction (t mod second) @ ''Z'')"
  by (simp add: rfc3339_nano_def Let_def day_of_def clock_text_def)

lemma rfc3339_nano_inj [list_facts]:
  assumes "json_time_ok t" "json_time_ok u"
  shows "rfc3339_nano t = rfc3339_nano u \<longleftrightarrow> t = u"
proof
  assume eq: "rfc3339_nano t = rfc3339_nano u"
  define d where "d t = t div second div 86400 + epoch_days" for t :: time
  define y where "y t = year_of (d t)" for t
  define n where "n t = d t - days_before (y t)" for t
  have n: "0 \<le> n t" "n t \<le> 367" for t
    using year_of_bounds [of "d t"] year_length [of "y t"] by (auto simp: n_def y_def)
  have y4: "0 \<le> y t" "y t < 10000" "0 \<le> y u" "y u < 10000"
    using assms by (auto simp: json_time_ok_def y_def d_def)
  then have pads: "pad_int 4 (y t) = pad 4 (nat (y t))" "pad_int 4 (y u) = pad 4 (nat (y u))"
    by (auto simp: pad_int_def nat_less_iff)
  have sod: "0 \<le> x mod 86400" "x mod 86400 < 86400" for x :: int by simp_all
  from eq have yy: "pad 4 (nat (y t)) = pad 4 (nat (y u))"
    and mm: "pad 2 (month_of (leap_year (y t)) (n t)) = pad 2 (month_of (leap_year (y u)) (n u))"
    and dd: "pad 2 (day_of (leap_year (y t)) (n t)) = pad 2 (day_of (leap_year (y u)) (n u))"
    and ss: "t div second mod 86400 = u div second mod 86400"
    and ff: "fraction (t mod second) @ ''Z'' = fraction (u mod second) @ ''Z''"
    unfolding rfc3339_nano_text Let_def d_def [symmetric] y_def [symmetric] n_def [symmetric] pads
    by (simp_all add: append_eq_append_conv clock_text_inj [OF sod sod])
  have y: "y t = y u" using yy y4 by (simp add: pad_inj nat_less_iff)
  have small: "month_of l (n x) < 10 ^ 2" "day_of l (n x) < 10 ^ 2" for l x
    using month_of_bounds(1) [OF n(1), of l x] day_of_bounds [OF n, of l x] by auto
  have "n t = n u"
    using mm dd small n by (intro day_of_inj [of _ _ "leap_year (y u)"]) (auto simp: y pad_inj)
  then have "t div second div 86400 = u div second div 86400" using y by (simp add: n_def d_def)
  with ss have "t div second = u div second" by (metis div_mult_mod_eq)
  moreover have "t mod second = u mod second" by (rule fraction_inj [OF _ _ _ _ ff]) simp_all
  ultimately show "t = u" by (metis div_mult_mod_eq)
qed simp

lemma pad_free: "free_of dquote (pad w n)"
  using pad_chars [of dquote w n] by (auto simp: free_of_def byte_def dquote_def)

lemma rfc3339_nano_free: "free_of dquote (rfc3339_nano t)"
proof -
  have "free_of dquote (trim_zeros (pad w n))" for w n
    using pad_free [of w n] by (auto simp: free_of_def trim_zeros_def dest: set_dropWhileD)
  moreover have "free_of dquote (dec_nat n)" for n
    by (rule dec_nat_free) (simp add: dquote_def)
  moreover have "dquote \<noteq> CHR ''-''" "dquote \<noteq> CHR ''T''" "dquote \<noteq> CHR '':''" "dquote \<noteq> CHR ''.''" "dquote \<noteq> CHR ''Z''"
    by (simp_all add: dquote_def)
  ultimately have "free_of dquote (pad_int 4 y)" "free_of dquote (fraction ns)" "free_of dquote (clock_text sod)"
      "free_of dquote ''-''" "free_of dquote ''T''" "free_of dquote ''Z''" for y ns sod
    using pad_free by (simp_all add: pad_int_def fraction_def clock_text_def Let_def)
  then show ?thesis
    by (simp only: rfc3339_nano_text Let_def free_of_append pad_free simp_thms)
qed

lemma json_time_inj [list_facts]:
  assumes "json_time_ok t" "json_time_ok u"
  shows "json_time t @ r = json_time u @ r' \<longleftrightarrow> t = u \<and> r = r'"
  using rfc3339_nano_inj [OF assms] append_sep_inj [OF rfc3339_nano_free rfc3339_nano_free]
  by (auto simp: json_time_def)

lemma json_member_inj [simp]: "json_member k v @ r = json_member k w @ r' \<longleftrightarrow> v @ r = w @ r'"
  by (simp add: json_member_def)

text \<open>An optional member, in front of a rest that cannot be mistaken for it.\<close>

definition opt_member :: "string \<Rightarrow> string \<Rightarrow> string" where
  "opt_member k v = (if v = [] then [] else CHR '','' # json_member k v)"

definition other_key :: "string \<Rightarrow> string \<Rightarrow> bool" where
  "other_key k r \<longleftrightarrow> (\<forall>v r'. r \<noteq> CHR '','' # json_member k v @ r')"

lemma opt_member_inj:
  assumes "other_key k r" "other_key k r'"
  shows "opt_member k v @ r = opt_member k w @ r' \<longleftrightarrow> (v = [] \<and> w = [] \<or> v \<noteq> [] \<and> w \<noteq> []) \<and> v @ r = w @ r'"
  using assms by (auto simp: opt_member_def other_key_def)

section \<open>Evaluation\<close>

definition plain_char :: "char \<Rightarrow> bool" where
  "plain_char c \<longleftrightarrow> 32 \<le> byte c \<and> byte c < 128 \<and> byte c \<notin> {34, 92, 60, 62, 38}"

lemma json_string_plain: "list_all plain_char s \<Longrightarrow> json_string s = dquote # s @ [dquote]"
proof -
  assume plain: "list_all plain_char s"
  then have "pieces s = map (\<lambda>c. [c]) s"
    by (intro pieces_ascii) (auto simp: list_all_iff plain_char_def)
  moreover have "concat (map (\<lambda>c. json_rune [c]) s) = s"
    using plain by (induction s) (auto simp: json_rune_def plain_char_def Let_def)
  ultimately show ?thesis by (simp add: json_string_def comp_def)
qed

lemma pad_numeral: "pad (numeral k) n = pad (pred_numeral k) (n div 10) @ [digit_char (n mod 10)]"
  unfolding numeral_eq_Suc [of k] by (rule pad.simps)

lemma pad_one: "pad 1 n = [digit_char (n mod 10)]"
  using pad.simps(2) [of 0 n] by simp

lemma digit_chars:
  "digit_char 0 = CHR ''0''" "digit_char 1 = CHR ''1''" "digit_char (Suc 0) = CHR ''1''" "digit_char 2 = CHR ''2''"
  "digit_char 3 = CHR ''3''" "digit_char 4 = CHR ''4''" "digit_char 5 = CHR ''5''" "digit_char 6 = CHR ''6''"
  "digit_char 7 = CHR ''7''" "digit_char 8 = CHR ''8''" "digit_char 9 = CHR ''9''"
  by (simp_all add: digit_char_def char_of_def bit_simps)

lemmas pad_eval = pad_numeral pad_one digit_chars

lemma length_rfc3339: "json_time_ok t \<Longrightarrow> length (rfc3339_nano t) \<le> 30"
proof -
  assume "json_time_ok t"
  then have y: "length (pad_int 4 (year_of (t div second div 86400 + epoch_days))) = 4"
    by (simp add: json_time_ok_def pad_int_def nat_less_iff)
  have "length (trim_zeros (pad 9 n)) \<le> length (pad 9 n)" for n
    unfolding trim_zeros_def length_rev by (rule le_trans [OF length_dropWhile_le]) simp
  then have "length (fraction ns) \<le> 10" for ns by (simp add: fraction_def)
  with y show ?thesis by (simp add: rfc3339_nano_text Let_def clock_text_def)
qed

end
