(* ===== verification/MemoryGraph.thy ===== *)
theory MemoryGraph
  imports Gossip Json "HOL-Library.Multiset" "HOL-Library.Option_ord" "HOL-Library.Product_Order"
begin

text \<open>
  \<open>cland/internal/memory/graph.go\<close>: the shared memory graph, its canonical node text, the
  last-writer-wins rule, the merge, the digest, the deterministic ids and the checks of the write path.
  SHA-256 is the parameter \<open>sha\<close>; the JSON text is the one of theory Json. A nil slice and an empty one
  are not distinguished (an empty list is written as \<open>[]\<close>), and instants are in UTC.
\<close>

section \<open>Data\<close>

definition format_version :: int where "format_version = 1"
definition max_nodes :: nat where "max_nodes = 2000"
definition max_edges :: nat where "max_edges = 8000"
definition max_serialized_bytes :: nat where "max_serialized_bytes = 2 * 1024 * 1024"
definition max_title_chars :: nat where "max_title_chars = 200"
definition max_body_bytes :: nat where "max_body_bytes = 8 * 1024"
definition max_tags :: nat where "max_tags = 16"

definition node_types :: "string list" where
  "node_types = [''research_session'', ''finding'', ''decision'', ''fact'', ''skill'', ''event'', ''member'', ''artifact'']"

definition node_statuses :: "string list" where
  "node_statuses = [''proposed'', ''active'', ''superseded'', ''archived'']"

definition provenance_sources :: "string list" where
  "provenance_sources = [''manual'', ''system'', ''scribe'', ''distill'', ''import'']"

definition edge_relations :: "string list" where
  "edge_relations = [''relates'', ''supersedes'', ''derived_from'', ''contributes_to'', ''about_member'', ''caused_by'']"

record provenance =
  pv_author :: member_id
  pv_source :: string
  pv_created_at :: time

record gnode =
  gn_id :: string
  gn_type :: string
  gn_title :: string
  gn_body :: string
  gn_tags :: "string list"
  gn_status :: string
  gn_session_id :: string
  gn_provenance :: provenance
  gn_updated_at :: time
  gn_rev :: u64

record gedge =
  ge_from :: string
  ge_to :: string
  ge_relation :: string
  ge_created_at :: time
  ge_created_by :: member_id

record graph =
  gr_format_version :: int
  gr_nodes :: "gnode list"
  gr_edges :: "gedge list"

definition new_graph :: graph where
  "new_graph = \<lparr>gr_format_version = format_version, gr_nodes = [], gr_edges = []\<rparr>"

section \<open>JSON text\<close>

text \<open>The fields in the order of the declarations; \<open>omitempty\<close> drops an empty body, tag list and session.\<close>

definition canonical_node_bytes :: "gnode \<Rightarrow> bytes" where
  "canonical_node_bytes n = json_obj (
     [json_member ''id'' (json_string (gn_id n)),
      json_member ''type'' (json_string (gn_type n)),
      json_member ''title'' (json_string (gn_title n))] @
     (if gn_body n = [] then [] else [json_member ''body'' (json_string (gn_body n))]) @
     (if gn_tags n = [] then [] else [json_member ''tags'' (json_strings (gn_tags n))]) @
     [json_member ''status'' (json_string (gn_status n))] @
     (if gn_session_id n = [] then [] else [json_member ''session_id'' (json_string (gn_session_id n))]) @
     [json_member ''provenance'' (json_obj
        [json_member ''author_member_id'' (json_string (pv_author (gn_provenance n))),
         json_member ''source'' (json_string (pv_source (gn_provenance n))),
         json_member ''created_at'' (json_time (pv_created_at (gn_provenance n)))]),
      json_member ''updated_at'' (json_time (gn_updated_at n)),
      json_member ''rev'' (dec_nat (unat (gn_rev n)))])"

definition edge_json :: "gedge \<Rightarrow> bytes" where
  "edge_json e = json_obj
     [json_member ''from'' (json_string (ge_from e)),
      json_member ''to'' (json_string (ge_to e)),
      json_member ''relation'' (json_string (ge_relation e)),
      json_member ''created_at'' (json_time (ge_created_at e)),
      json_member ''created_by'' (json_string (ge_created_by e))]"

definition json_list :: "bytes list \<Rightarrow> bytes" where
  "json_list xs = CHR ''['' # join (CHR '','') xs @ '']''"

definition graph_json :: "graph \<Rightarrow> bytes" where
  "graph_json g = json_obj
     [json_member ''format_version'' (dec_int (gr_format_version g)),
      json_member ''nodes'' (json_list (map canonical_node_bytes (gr_nodes g))),
      json_member ''edges'' (json_list (map edge_json (gr_edges g)))]"

definition node_encodable :: "gnode \<Rightarrow> bool" where
  "node_encodable n \<longleftrightarrow> json_time_ok (pv_created_at (gn_provenance n)) \<and> json_time_ok (gn_updated_at n)"

definition edge_encodable :: "gedge \<Rightarrow> bool" where
  "edge_encodable e \<longleftrightarrow> json_time_ok (ge_created_at e)"

text \<open>\<open>json.Marshal(g)\<close>: it fails when an instant is outside the years 0 to 9999.\<close>

definition marshal_graph :: "graph \<Rightarrow> bytes option" where
  "marshal_graph g =
     (if (\<forall>n\<in>set (gr_nodes g). node_encodable n) \<and> (\<forall>e\<in>set (gr_edges g). edge_encodable e)
      then Some (graph_json g) else None)"

section \<open>Merge\<close>

definition node_wins :: "(bytes \<Rightarrow> bytes) \<Rightarrow> gnode \<Rightarrow> gnode \<Rightarrow> bool" where
  "node_wins sha a b =
     (if gn_updated_at a \<noteq> gn_updated_at b then gn_updated_at b < gn_updated_at a
      else if gn_rev a \<noteq> gn_rev b then gn_rev b < gn_rev a
      else hex_encode (sha (canonical_node_bytes b)) < hex_encode (sha (canonical_node_bytes a)))"

definition edge_key :: "gedge \<Rightarrow> string" where
  "edge_key e = ge_from e @ ''|'' @ ge_to e @ ''|'' @ ge_relation e"

definition put_nodes :: "(string \<times> gnode) list \<Rightarrow> gnode list \<Rightarrow> (string \<times> gnode) list" where
  "put_nodes = foldl (\<lambda>m n. AList.update (gn_id n) n m)"

definition win_nodes :: "(bytes \<Rightarrow> bytes) \<Rightarrow> (string \<times> gnode) list \<Rightarrow> gnode list \<Rightarrow> (string \<times> gnode) list" where
  "win_nodes sha = foldl (\<lambda>m n.
     case map_of m (gn_id n) of
       None \<Rightarrow> AList.update (gn_id n) n m
     | Some cur \<Rightarrow> if node_wins sha n cur then AList.update (gn_id n) n m else m)"

definition put_edges :: "(string \<times> gedge) list \<Rightarrow> gedge list \<Rightarrow> (string \<times> gedge) list" where
  "put_edges = foldl (\<lambda>m e. case map_of m (edge_key e) of None \<Rightarrow> AList.update (edge_key e) e m | Some _ \<Rightarrow> m)"

definition nodes_of :: "graph option \<Rightarrow> gnode list" where
  "nodes_of g = (case g of None \<Rightarrow> [] | Some g \<Rightarrow> gr_nodes g)"

definition edges_of :: "graph option \<Rightarrow> gedge list" where
  "edges_of g = (case g of None \<Rightarrow> [] | Some g \<Rightarrow> gr_edges g)"

definition newer_version :: "int \<Rightarrow> graph option \<Rightarrow> int" where
  "newer_version v g = (case g of None \<Rightarrow> v | Some g \<Rightarrow> if gr_format_version g > v then gr_format_version g else v)"

text \<open>\<open>Merge\<close>; \<open>None\<close> is the nil graph. The slices are sorted by keys that occur once.\<close>

definition merge :: "(bytes \<Rightarrow> bytes) \<Rightarrow> graph option \<Rightarrow> graph option \<Rightarrow> graph" where
  "merge sha local remote =
     \<lparr>gr_format_version = newer_version (newer_version format_version local) remote,
      gr_nodes = sort_key gn_id (map snd (win_nodes sha (put_nodes [] (nodes_of local)) (nodes_of remote))),
      gr_edges = sort_key edge_key (map snd (put_edges (put_edges [] (edges_of local)) (edges_of remote)))\<rparr>"

section \<open>Digest and ids\<close>

definition node_line :: "gnode \<Rightarrow> string" where
  "node_line n = ''n|'' @ gn_id n @ ''|'' @ dec_nat (unat (gn_rev n)) @ ''|'' @ rfc3339_nano (gn_updated_at n)"

definition edge_line :: "gedge \<Rightarrow> string" where
  "edge_line e = ''e|'' @ ge_from e @ ''|'' @ ge_to e @ ''|'' @ ge_relation e"

definition digest :: "(bytes \<Rightarrow> bytes) \<Rightarrow> graph option \<Rightarrow> string" where
  "digest sha g =
     (if nodes_of g = [] \<and> edges_of g = [] then hex_encode (sha [])
      else hex_encode (sha (join LF (sort (map node_line (nodes_of g)) @ sort (map edge_line (edges_of g))))))"

definition fold_to_uuid :: "bytes \<Rightarrow> string" where
  "fold_to_uuid b = uuid_of b"

definition deterministic_event_id :: "(bytes \<Rightarrow> bytes) \<Rightarrow> string \<Rightarrow> string \<Rightarrow> string \<Rightarrow> string \<Rightarrow> string" where
  "deterministic_event_id sha clan_id kind subject qualifier =
     fold_to_uuid (take 16 (sha (clan_id @ ''|'' @ kind @ ''|'' @ subject @ ''|'' @ qualifier)))"

section \<open>Checks of the write path\<close>

datatype memory_error =
  BadType | BadStatus | TitleRequired | TitleTooLong | BodyTooLong | TooManyTags | BadSource |
  EdgeEnds | BadRelation | NoOrigin | ErrCap | MintId | SizeCheck | Persist | BadMode | NilGraph

definition validate_node :: "gnode \<Rightarrow> memory_error option" where
  "validate_node n =
     (if gn_type n = [] \<or> gn_type n \<notin> set node_types then Some BadType
      else if gn_status n \<noteq> [] \<and> gn_status n \<notin> set node_statuses then Some BadStatus
      else if trim (gn_title n) = [] then Some TitleRequired
      else if rune_count (gn_title n) > max_title_chars then Some TitleTooLong
      else if length (gn_body n) > max_body_bytes then Some BodyTooLong
      else if length (gn_tags n) > max_tags then Some TooManyTags
      else if pv_source (gn_provenance n) \<noteq> [] \<and> pv_source (gn_provenance n) \<notin> set provenance_sources then Some BadSource
      else None)"

definition validate_edge :: "gedge \<Rightarrow> memory_error option" where
  "validate_edge e =
     (if ge_from e = [] \<or> ge_to e = [] then Some EdgeEnds
      else if ge_relation e \<notin> set edge_relations then Some BadRelation
      else None)"

section \<open>The order of versions\<close>

text \<open>What the winner rule compares: instant, revision, hash. The order is linear, so \<open>sup\<close> is the later one.\<close>

datatype version = Version (ver_at: time) (ver_rev: u64) (ver_hash: string)

definition version_tuple :: "version \<Rightarrow> time \<times> u64 \<times> string" where
  "version_tuple v = (ver_at v, ver_rev v, ver_hash v)"

instantiation version :: linorder
begin

definition less_version :: "version \<Rightarrow> version \<Rightarrow> bool" where
  "a < b \<longleftrightarrow> ver_at a < ver_at b \<or> ver_at a = ver_at b \<and>
     (ver_rev a < ver_rev b \<or> ver_rev a = ver_rev b \<and> ver_hash a < ver_hash b)"

definition less_eq_version :: "version \<Rightarrow> version \<Rightarrow> bool" where
  "a \<le> b \<longleftrightarrow> a < b \<or> a = (b :: version)"

instance
  by standard (auto simp: less_version_def less_eq_version_def not_less_iff_gr_or_eq intro: version.expand)

end

instantiation version :: semilattice_sup
begin

definition sup_version :: "version \<Rightarrow> version \<Rightarrow> version" where
  "sup_version a b = max a b"

instance
  by standard (auto simp: sup_version_def)

end

definition version_of :: "(bytes \<Rightarrow> bytes) \<Rightarrow> gnode \<Rightarrow> version" where
  "version_of sha n = Version (gn_updated_at n) (gn_rev n) (hex_encode (sha (canonical_node_bytes n)))"

lemma node_wins_iff: "node_wins sha a b \<longleftrightarrow> version_of sha b < version_of sha a"
  by (auto simp: node_wins_def version_of_def less_version_def)

section \<open>What a merge contains\<close>

definition node_at :: "gnode list \<Rightarrow> string \<Rightarrow> gnode option" where
  "node_at ns i = find (\<lambda>n. gn_id n = i) ns"

definition later :: "(bytes \<Rightarrow> bytes) \<Rightarrow> gnode option \<Rightarrow> gnode option \<Rightarrow> gnode option" where
  "later sha a b =
     (case (a, b) of
        (None, _) \<Rightarrow> b
      | (_, None) \<Rightarrow> a
      | (Some x, Some y) \<Rightarrow> Some (if node_wins sha y x then y else x))"

definition wf_graph :: "graph \<Rightarrow> bool" where
  "wf_graph g \<longleftrightarrow> distinct (map gn_id (gr_nodes g)) \<and> distinct (map edge_key (gr_edges g))"

lemma node_at_simps [simp]:
  "node_at [] i = None" "node_at (n # ns) i = (if gn_id n = i then Some n else node_at ns i)"
  by (auto simp: node_at_def)

lemma node_at_Some: "node_at ns i = Some n \<Longrightarrow> n \<in> set ns \<and> gn_id n = i"
  by (induction ns) (auto split: if_splits)

lemma node_at_None: "node_at ns i = None \<longleftrightarrow> i \<notin> gn_id ` set ns"
  by (induction ns) auto

lemma node_at_fresh: "gn_id n \<notin> gn_id ` set ns \<Longrightarrow> node_at ns (gn_id n) = None"
  by (simp add: node_at_None)

lemma distinct_map_sort_key [simp]: "distinct (map k (sort_key k xs)) \<longleftrightarrow> distinct (map k xs)"
  by (simp add: distinct_map)

lemma node_at_in: "distinct (map gn_id ns) \<Longrightarrow> n \<in> set ns \<Longrightarrow> node_at ns (gn_id n) = Some n"
  by (induction ns) force+

lemma node_at_cong:
  assumes "distinct (map gn_id ns)" "distinct (map gn_id ms)" "set ns = set ms"
  shows "node_at ns = node_at ms"
proof (rule ext)
  fix i
  show "node_at ns i = node_at ms i"
    using assms by (cases "node_at ns i") (metis node_at_None node_at_in node_at_Some)+
qed

text \<open>The index built by the two node loops: keyed by id, ids listed once.\<close>

definition keyed :: "('a \<Rightarrow> string) \<Rightarrow> (string \<times> 'a) list \<Rightarrow> bool" where
  "keyed k m \<longleftrightarrow> wf_map m \<and> (\<forall>(i, x)\<in>set m. k x = i)"

lemma keyed_Nil [simp]: "keyed k []"
  by (simp add: keyed_def)

lemma keyed_update [simp]: "keyed k m \<Longrightarrow> keyed k (AList.update (k x) x m)"
  using map_all_update [of "\<lambda>i x. k x = i" m "k x" x] by (auto simp: keyed_def map_all_def)

lemma keyed_keys: "keyed k m \<Longrightarrow> map k (map snd m) = map fst m"
  by (auto simp: keyed_def)

lemma keyed_distinct: "keyed k m \<Longrightarrow> distinct (map k (map snd m))"
  unfolding keyed_keys by (simp add: keyed_def wf_map_def)

lemma put_nodes_keyed: "keyed gn_id m \<Longrightarrow> keyed gn_id (put_nodes m ns)"
  unfolding put_nodes_def by (induction ns arbitrary: m) auto

lemma win_nodes_keyed: "keyed gn_id m \<Longrightarrow> keyed gn_id (win_nodes sha m ns)"
  unfolding win_nodes_def by (induction ns arbitrary: m) (auto split: option.split)

lemma put_edges_keyed: "keyed edge_key m \<Longrightarrow> keyed edge_key (put_edges m es)"
  unfolding put_edges_def by (induction es arbitrary: m) (auto split: option.split)

lemma map_of_put_nodes:
  "distinct (map gn_id ns) \<Longrightarrow> map_of (put_nodes m ns) i = (case node_at ns i of None \<Rightarrow> map_of m i | Some n \<Rightarrow> Some n)"
proof (induction ns arbitrary: m)
  case (Cons n ns)
  then show ?case
    by (auto simp: put_nodes_def update_conv' node_at_fresh split: option.split)
qed (simp add: put_nodes_def)

lemma map_of_win_nodes:
  "distinct (map gn_id ns) \<Longrightarrow> map_of (win_nodes sha m ns) i = later sha (map_of m i) (node_at ns i)"
proof (induction ns arbitrary: m)
  case Nil
  then show ?case by (simp add: win_nodes_def later_def split: option.split)
next
  case (Cons n ns)
  let ?m = "case map_of m (gn_id n) of None \<Rightarrow> AList.update (gn_id n) n m
     | Some cur \<Rightarrow> if node_wins sha n cur then AList.update (gn_id n) n m else m"
  have step: "win_nodes sha m (n # ns) = win_nodes sha ?m ns" by (simp add: win_nodes_def)
  have m: "map_of ?m i = later sha (map_of m i) (if gn_id n = i then Some n else None)"
    by (auto simp: later_def update_conv' split: option.split)
  have "node_at ns i = None" if "gn_id n = i" using Cons.prems that by (auto simp: node_at_None)
  then show ?case
    using Cons.IH [of ?m] Cons.prems m unfolding step by (auto simp: later_def split: option.split)
qed

lemma keys_put_edges: "keys (put_edges m es) = keys m \<union> edge_key ` set es"
proof (induction es arbitrary: m)
  case (Cons e es)
  have step: "put_edges m (e # es) = put_edges (case map_of m (edge_key e) of None \<Rightarrow> AList.update (edge_key e) e m | Some _ \<Rightarrow> m) es"
    by (simp add: put_edges_def)
  show ?case
    unfolding step Cons.IH
    by (auto simp: dom_update dom_map_of_conv_image_fst [symmetric] update_conv' split: option.split)
qed (simp add: put_edges_def)

lemma map_of_node_at: "keyed gn_id m \<Longrightarrow> node_at (map snd m) i = map_of m i"
  by (induction m) (auto simp: keyed_def wf_map_def)

lemma merge_wf: "wf_graph (merge sha a b)"
proof -
  have "keyed gn_id (win_nodes sha (put_nodes [] (nodes_of a)) (nodes_of b))"
    by (simp add: win_nodes_keyed put_nodes_keyed)
  moreover have "keyed edge_key (put_edges (put_edges [] (edges_of a)) (edges_of b))"
    by (simp add: put_edges_keyed)
  ultimately show ?thesis
    by (simp add: wf_graph_def merge_def keyed_distinct del: map_map)
qed

lemma merge_nodes:
  assumes "distinct (map gn_id (nodes_of a))" "distinct (map gn_id (nodes_of b))"
  shows "node_at (gr_nodes (merge sha a b)) i = later sha (node_at (nodes_of a) i) (node_at (nodes_of b) i)"
proof -
  let ?m = "win_nodes sha (put_nodes [] (nodes_of a)) (nodes_of b)"
  have k: "keyed gn_id ?m" by (simp add: win_nodes_keyed put_nodes_keyed)
  have "node_at (sort_key gn_id (map snd ?m)) = node_at (map snd ?m)"
    using keyed_distinct [OF k] by (intro node_at_cong) (simp_all del: map_map)
  then show ?thesis
    using assms by (simp add: merge_def map_of_node_at [OF k] map_of_win_nodes map_of_put_nodes split: option.split)
qed

lemma merge_edge_keys:
  "edge_key ` set (gr_edges (merge sha a b)) = edge_key ` set (edges_of a) \<union> edge_key ` set (edges_of b)"
proof -
  let ?m = "put_edges (put_edges [] (edges_of a)) (edges_of b)"
  have "map edge_key (map snd ?m) = map fst ?m"
    by (rule keyed_keys) (simp add: put_edges_keyed)
  then have "edge_key ` snd ` set ?m = keys ?m" by (metis list.set_map)
  then show ?thesis by (simp add: merge_def keys_put_edges)
qed

lemma merge_sorted:
  "sorted (map gn_id (gr_nodes (merge sha a b)))" "sorted (map edge_key (gr_edges (merge sha a b)))"
  by (simp_all add: merge_def)

section \<open>The canonical text determines the node\<close>

definition node_valid :: "gnode \<Rightarrow> bool" where
  "node_valid n \<longleftrightarrow> node_encodable n \<and> valid_utf8 (gn_id n) \<and> valid_utf8 (gn_type n) \<and> valid_utf8 (gn_title n) \<and>
     valid_utf8 (gn_body n) \<and> (\<forall>x\<in>set (gn_tags n). valid_utf8 x) \<and> valid_utf8 (gn_status n) \<and>
     valid_utf8 (gn_session_id n) \<and> valid_utf8 (pv_author (gn_provenance n)) \<and> valid_utf8 (pv_source (gn_provenance n))"

definition tail_text :: "gnode \<Rightarrow> string" where
  "tail_text n = CHR '','' # json_member ''provenance'' (json_obj
        [json_member ''author_member_id'' (json_string (pv_author (gn_provenance n))),
         json_member ''source'' (json_string (pv_source (gn_provenance n))),
         json_member ''created_at'' (json_time (pv_created_at (gn_provenance n)))]) @
     CHR '','' # json_member ''updated_at'' (json_time (gn_updated_at n)) @
     CHR '','' # json_member ''rev'' (dec_nat (unat (gn_rev n))) @ [CHR 0x7D]"

definition status_text :: "gnode \<Rightarrow> string" where
  "status_text n = CHR '','' # json_member ''status'' (json_string (gn_status n)) @
     opt_member ''session_id'' (if gn_session_id n = [] then [] else json_string (gn_session_id n)) @ tail_text n"

definition tags_text :: "gnode \<Rightarrow> string" where
  "tags_text n = opt_member ''tags'' (if gn_tags n = [] then [] else json_strings (gn_tags n)) @ status_text n"

lemma canonical_text:
  "canonical_node_bytes n = CHR 0x7B # json_member ''id'' (json_string (gn_id n)) @
     CHR '','' # json_member ''type'' (json_string (gn_type n)) @
     CHR '','' # json_member ''title'' (json_string (gn_title n)) @
     opt_member ''body'' (if gn_body n = [] then [] else json_string (gn_body n)) @ tags_text n"
  by (auto simp: canonical_node_bytes_def json_obj_def tags_text_def status_text_def tail_text_def opt_member_def
      json_strings_def json_string_def)

lemma json_not_Nil [simp]: "json_string s \<noteq> []" "json_strings xs \<noteq> []"
  by (simp_all add: json_string_def json_strings_def)

lemma other_keys:
  "other_key ''body'' (tags_text n)" "other_key ''tags'' (status_text n)" "other_key ''session_id'' (tail_text n)"
  by (auto simp: other_key_def tags_text_def status_text_def tail_text_def opt_member_def json_member_def)

lemma tail_text_inj:
  assumes "node_valid a" "node_valid b"
  shows "tail_text a @ r = tail_text b @ r' \<longleftrightarrow>
    gn_provenance a = gn_provenance b \<and> gn_updated_at a = gn_updated_at b \<and> gn_rev a = gn_rev b \<and> r = r'"
proof -
  have "free_of (CHR 0x7D) (dec_nat k)" for k by (rule dec_nat_free) simp
  then have "dec_nat j @ CHR 0x7D # r = dec_nat k @ CHR 0x7D # r' \<longleftrightarrow> j = k \<and> r = r'" for j k
    by (simp add: append_sep_inj dec_nat_inj)
  moreover have "unat v = unat w \<longleftrightarrow> v = w" for v w :: u64 by (simp add: word_unat_eq_iff)
  moreover have "valid_utf8 (pv_author (gn_provenance n)) \<and> valid_utf8 (pv_source (gn_provenance n)) \<and>
      json_time_ok (pv_created_at (gn_provenance n)) \<and> json_time_ok (gn_updated_at n)" if "node_valid n" for n
    using that by (simp add: node_valid_def node_encodable_def)
  ultimately show ?thesis
    using assms
    by (auto simp: tail_text_def json_obj_def json_string_inj json_time_inj intro: provenance.equality)
qed

lemma opt_string_inj:
  assumes "valid_utf8 s" "valid_utf8 t" "other_key k r" "other_key k r'"
  shows "opt_member k (if s = [] then [] else json_string s) @ r = opt_member k (if t = [] then [] else json_string t) @ r' \<longleftrightarrow>
    s = t \<and> r = r'"
  using assms by (auto simp: opt_member_inj json_string_inj split: if_splits)

lemma opt_strings_inj:
  assumes "\<forall>x\<in>set xs. valid_utf8 x" "\<forall>y\<in>set ys. valid_utf8 y" "other_key k r" "other_key k r'"
  shows "opt_member k (if xs = [] then [] else json_strings xs) @ r = opt_member k (if ys = [] then [] else json_strings ys) @ r' \<longleftrightarrow>
    xs = ys \<and> r = r'"
  using assms by (auto simp: opt_member_inj json_strings_inj split: if_splits)

lemma canonical_node_inj:
  assumes "node_valid a" "node_valid b" "canonical_node_bytes a = canonical_node_bytes b"
  shows "a = b"
proof -
  have u: "valid_utf8 (gn_id n) \<and> valid_utf8 (gn_type n) \<and> valid_utf8 (gn_title n) \<and> valid_utf8 (gn_body n) \<and>
      (\<forall>x\<in>set (gn_tags n). valid_utf8 x) \<and> valid_utf8 (gn_status n) \<and> valid_utf8 (gn_session_id n)" if "node_valid n" for n
    using that by (simp add: node_valid_def)
  note ua = u [OF assms(1)] and ub = u [OF assms(2)]
  from assms(3) have head: "gn_id a = gn_id b" "gn_type a = gn_type b" "gn_title a = gn_title b"
    and body: "gn_body a = gn_body b" and tags: "tags_text a = tags_text b"
    using ua ub by (simp_all add: canonical_text json_string_inj opt_string_inj other_keys)
  from tags have "gn_tags a = gn_tags b" and status: "status_text a = status_text b"
    using ua ub by (simp_all add: tags_text_def opt_strings_inj other_keys)
  moreover from status have "gn_status a = gn_status b" "gn_session_id a = gn_session_id b" and tail: "tail_text a = tail_text b"
    using ua ub by (simp_all add: status_text_def json_string_inj opt_string_inj other_keys)
  moreover from tail have "gn_provenance a = gn_provenance b" "gn_updated_at a = gn_updated_at b" "gn_rev a = gn_rev b"
    using tail_text_inj [OF assms(1,2), of "[]" "[]"] by simp_all
  ultimately show ?thesis using head body by (intro gnode.equality) simp_all
qed

section \<open>Convergence\<close>

text \<open>The view of a graph that merging joins: the version of each id, and the set of edge keys.\<close>

definition graph_view :: "(bytes \<Rightarrow> bytes) \<Rightarrow> graph \<Rightarrow> (string \<Rightarrow> version option) \<times> string set" where
  "graph_view sha g = (\<lambda>i. map_option (version_of sha) (node_at (gr_nodes g) i), edge_key ` set (gr_edges g))"

lemma version_later: "map_option (version_of sha) (later sha a b) = sup (map_option (version_of sha) a) (map_option (version_of sha) b)"
  by (auto simp: later_def node_wins_iff sup_version_def max_def split: option.split)

lemma graph_view_merge:
  "wf_graph a \<Longrightarrow> wf_graph b \<Longrightarrow> graph_view sha (merge sha (Some a) (Some b)) = sup (graph_view sha a) (graph_view sha b)"
  by (auto simp: graph_view_def wf_graph_def merge_nodes merge_edge_keys version_later nodes_of_def edges_of_def fun_eq_iff sup_prod_def)

interpretation memory_gossip: gossip_merge "\<lambda>a b. merge sha (Some a) (Some b)" "graph_view sha" wf_graph for sha
  by unfold_locales (simp_all add: graph_view_merge merge_wf)

definition sorted_graph :: "graph \<Rightarrow> bool" where
  "sorted_graph g \<longleftrightarrow> wf_graph g \<and> sorted (map gn_id (gr_nodes g)) \<and> sorted (map edge_key (gr_edges g))"

lemma merge_sorted_graph: "sorted_graph (merge sha a b)"
  by (simp add: sorted_graph_def merge_wf merge_sorted)

lemma edge_line_key: "edge_line e = ''e|'' @ edge_key e"
  by (simp add: edge_line_def edge_key_def)

text \<open>The digest is a function of the view.\<close>

lemma node_line_version:
  assumes "version_of sha m = version_of sha n" "gn_id m = gn_id n"
  shows "node_line m = node_line n"
  using assms by (simp add: version_of_def node_line_def)

lemma mset_nodes_by_id:
  assumes "distinct (map gn_id ns)"
  shows "mset (map f ns) = image_mset (\<lambda>i. f (the (node_at ns i))) (mset_set (gn_id ` set ns))"
proof -
  have "mset (map f ns) = mset (map (\<lambda>i. f (the (node_at ns i))) (map gn_id ns))"
    using node_at_in [OF assms] by (intro arg_cong [of _ _ mset]) simp
  also have "\<dots> = image_mset (\<lambda>i. f (the (node_at ns i))) (mset (map gn_id ns))"
    by (simp add: multiset.map_comp comp_def)
  finally show ?thesis using assms by (simp only: mset_set_set [symmetric] set_map)
qed

lemma same_ids: "\<forall>i. map_option f (node_at ns i) = map_option f (node_at ms i) \<Longrightarrow> gn_id ` set ns = gn_id ` set ms"
proof -
  assume *: "\<forall>i. map_option f (node_at ns i) = map_option f (node_at ms i)"
  have "node_at ns i = None \<longleftrightarrow> node_at ms i = None" for i
    using spec [OF *, of i] by auto
  then show ?thesis by (auto simp: node_at_None)
qed

lemma same_lines:
  assumes "distinct (map gn_id ns)" "distinct (map gn_id ms)" "\<forall>i. map_option f (node_at ns i) = map_option f (node_at ms i)"
  shows "mset (map f ns) = mset (map f ms)"
proof -
  have ids: "gn_id ` set ns = gn_id ` set ms" by (rule same_ids [OF assms(3)])
  have "f (the (node_at ns i)) = f (the (node_at ms i))" if "i \<in> gn_id ` set ms" for i
  proof -
    from that ids obtain m n where "node_at ns i = Some m" "node_at ms i = Some n"
      by (metis node_at_None option.exhaust)
    with spec [OF assms(3), of i] show ?thesis by simp
  qed
  then have same: "image_mset (\<lambda>i. f (the (node_at ns i))) (mset_set (gn_id ` set ms)) =
      image_mset (\<lambda>i. f (the (node_at ms i))) (mset_set (gn_id ` set ms))"
    by (intro image_mset_cong) simp
  show ?thesis
    using same mset_nodes_by_id [OF assms(1), of f] mset_nodes_by_id [OF assms(2), of f] ids by (simp only:)
qed

lemma same_edge_lines:
  assumes "distinct (map edge_key es)" "distinct (map edge_key fs)" "edge_key ` set es = edge_key ` set fs"
  shows "mset (map edge_line es) = mset (map edge_line fs)"
proof -
  have "mset (map edge_key es) = mset (map edge_key fs)"
    using assms by (simp add: set_eq_iff_mset_eq_distinct [symmetric] del: mset_map)
  then have "image_mset ((@) ''e|'') (mset (map edge_key es)) = image_mset ((@) ''e|'') (mset (map edge_key fs))"
    by simp
  moreover have "edge_line = (@) ''e|'' \<circ> edge_key" by (rule ext) (simp add: edge_line_key)
  ultimately show ?thesis by (simp only: mset_map multiset.map_comp)
qed

lemma sort_mset_cong: "mset xs = mset ys \<Longrightarrow> sort xs = sort (ys :: string list)"
  by (metis properties_for_sort mset_sort sorted_sort)

lemma digest_cong:
  assumes "wf_graph a" "wf_graph b"
    and "\<forall>i. map_option node_line (node_at (gr_nodes a) i) = map_option node_line (node_at (gr_nodes b) i)"
    and "edge_key ` set (gr_edges a) = edge_key ` set (gr_edges b)"
  shows "digest sha (Some a) = digest sha (Some b)"
proof -
  have n: "mset (map node_line (gr_nodes a)) = mset (map node_line (gr_nodes b))"
    using assms(1-3) by (intro same_lines) (simp_all add: wf_graph_def)
  have e: "mset (map edge_line (gr_edges a)) = mset (map edge_line (gr_edges b))"
    using assms(1,2,4) by (intro same_edge_lines) (simp_all add: wf_graph_def)
  have "gr_nodes a = [] \<longleftrightarrow> gr_nodes b = []" "gr_edges a = [] \<longleftrightarrow> gr_edges b = []"
    using mset_eq_length [OF n] mset_eq_length [OF e] by (simp_all flip: length_0_conv)
  then show ?thesis
    by (simp only: digest_def nodes_of_def edges_of_def option.case sort_mset_cong [OF n] sort_mset_cong [OF e])
qed

lemma view_ids: "graph_view sha a = graph_view sha b \<Longrightarrow> gn_id ` set (gr_nodes a) = gn_id ` set (gr_nodes b)"
  by (intro same_ids [of "version_of sha"]) (simp add: graph_view_def fun_eq_iff)

lemma digest_of_view:
  assumes "wf_graph a" "wf_graph b" "graph_view sha a = graph_view sha b"
  shows "digest sha (Some a) = digest sha (Some b)"
proof (intro digest_cong [OF assms(1,2)] allI)
  fix i
  have v: "map_option (version_of sha) (node_at (gr_nodes a) i) = map_option (version_of sha) (node_at (gr_nodes b) i)"
    using assms(3) by (simp add: graph_view_def fun_eq_iff)
  show "map_option node_line (node_at (gr_nodes a) i) = map_option node_line (node_at (gr_nodes b) i)"
  proof (cases "node_at (gr_nodes a) i"; cases "node_at (gr_nodes b) i")
    fix m n assume mn: "node_at (gr_nodes a) i = Some m" "node_at (gr_nodes b) i = Some n"
    with v have "node_line m = node_line n"
      using node_at_Some [OF mn(1)] node_at_Some [OF mn(2)] by (intro node_line_version [of sha]) simp_all
    with mn show ?thesis by simp
  qed (use v in auto)
qed (use assms(3) in \<open>simp add: graph_view_def\<close>)

text \<open>With a hash that does not collide on the nodes at hand, the view determines the nodes themselves.\<close>

definition all_nodes_of :: "graph list \<Rightarrow> gnode set" where
  "all_nodes_of gs = (\<Union>g\<in>set gs. set (gr_nodes g))"

definition no_collision :: "(bytes \<Rightarrow> bytes) \<Rightarrow> gnode set \<Rightarrow> bool" where
  "no_collision sha ns \<longleftrightarrow> (\<forall>m\<in>ns. \<forall>n\<in>ns. sha (canonical_node_bytes m) = sha (canonical_node_bytes n) \<longrightarrow>
     canonical_node_bytes m = canonical_node_bytes n)"

lemma version_determines_node:
  assumes "no_collision sha ns" "m \<in> ns" "n \<in> ns" "node_valid m" "node_valid n" "version_of sha m = version_of sha n"
  shows "m = n"
  using assms canonical_node_inj [of m n] by (auto simp: no_collision_def version_of_def hex_encode_inj)

lemma update_values: "snd ` set (AList.update i n m) \<subseteq> insert n (snd ` set m)"
  by (induction m) auto

lemma put_nodes_set: "snd ` set (put_nodes m ns) \<subseteq> snd ` set m \<union> set ns"
proof (induction ns arbitrary: m)
  case (Cons n ns)
  have "put_nodes m (n # ns) = put_nodes (AList.update (gn_id n) n m) ns" by (simp add: put_nodes_def)
  then show ?case using Cons [of "AList.update (gn_id n) n m"] update_values [of "gn_id n" n m]
    by (simp only: list.set) blast
qed (simp add: put_nodes_def)

lemma win_nodes_set: "snd ` set (win_nodes sha m ns) \<subseteq> snd ` set m \<union> set ns"
proof (induction ns arbitrary: m)
  case (Cons n ns)
  obtain m' where "win_nodes sha m (n # ns) = win_nodes sha m' ns" "m' = m \<or> m' = AList.update (gn_id n) n m"
    by (auto simp: win_nodes_def split: option.split)
  then show ?case using Cons [of m'] update_values [of "gn_id n" n m]
    by (simp only: list.set) blast
qed (simp add: win_nodes_def)

lemma merge_node_set: "set (gr_nodes (merge sha a b)) \<subseteq> set (nodes_of a) \<union> set (nodes_of b)"
  using win_nodes_set [of sha "put_nodes [] (nodes_of a)" "nodes_of b"] put_nodes_set [of "[]" "nodes_of a"]
  by (auto simp: merge_def)

lemma foldl_merge_nodes:
  "set (gr_nodes (foldl (\<lambda>a b. merge sha (Some a) (Some b)) g gs)) \<subseteq> all_nodes_of (g # gs)"
proof (induction gs arbitrary: g)
  case (Cons h gs)
  from Cons [of "merge sha (Some g) (Some h)"] merge_node_set [of sha "Some g" "Some h"] show ?case
    by (auto simp: all_nodes_of_def nodes_of_def)
qed (simp add: all_nodes_of_def)

definition edge_at :: "gedge list \<Rightarrow> string \<Rightarrow> gedge option" where
  "edge_at es k = find (\<lambda>e. edge_key e = k) es"

lemma edge_at_simps [simp]:
  "edge_at [] k = None" "edge_at (e # es) k = (if edge_key e = k then Some e else edge_at es k)"
  by (auto simp: edge_at_def)

lemma edge_at_in: "distinct (map edge_key es) \<Longrightarrow> e \<in> set es \<Longrightarrow> edge_at es (edge_key e) = Some e"
  by (induction es) force+

lemma edge_at_Some: "edge_at es k = Some e \<Longrightarrow> e \<in> set es \<and> edge_key e = k"
  by (induction es) (auto split: if_splits)

lemma edge_at_None: "edge_at es k = None \<longleftrightarrow> k \<notin> edge_key ` set es"
  by (induction es) auto

lemma edge_at_cong:
  assumes "distinct (map edge_key es)" "distinct (map edge_key fs)" "set es = set fs"
  shows "edge_at es k = edge_at fs k"
  using assms by (cases "edge_at es k") (metis edge_at_None edge_at_in edge_at_Some)+

lemma map_of_put_edges: "map_of (put_edges m es) k = (case map_of m k of Some e \<Rightarrow> Some e | None \<Rightarrow> edge_at es k)"
proof (induction es arbitrary: m)
  case (Cons e es)
  have "put_edges m (e # es) = put_edges (case map_of m (edge_key e) of None \<Rightarrow> AList.update (edge_key e) e m | Some _ \<Rightarrow> m) es"
    by (simp add: put_edges_def)
  then show ?case by (auto simp: Cons.IH update_conv' split: option.split)
qed (simp add: put_edges_def split: option.split)

lemma map_of_edge_at: "keyed edge_key m \<Longrightarrow> edge_at (map snd m) k = map_of m k"
  by (induction m) (auto simp: keyed_def wf_map_def)

lemma merge_edges:
  "edge_at (gr_edges (merge sha a b)) k = (case edge_at (edges_of a) k of Some e \<Rightarrow> Some e | None \<Rightarrow> edge_at (edges_of b) k)"
proof -
  let ?m = "put_edges (put_edges [] (edges_of a)) (edges_of b)"
  have k: "keyed edge_key ?m" by (simp add: put_edges_keyed)
  have "edge_at (sort_key edge_key (map snd ?m)) k = edge_at (map snd ?m) k"
    using keyed_distinct [OF k] by (intro edge_at_cong) (simp_all del: map_map)
  then show ?thesis by (simp add: merge_def map_of_edge_at [OF k] map_of_put_edges split: option.split)
qed

section \<open>Properties\<close>

text \<open>C10: Merge refines a pointwise last-writer-wins map. For graphs that list an id once, the merged graph holds
  under each id the node with the later (updated_at, rev, hash) of the two sides, under each edge key the local
  edge if there is one and else the remote edge, nothing else, sorted by id and by key and with no id or key
  twice.\<close>

theorem merge_refines_lww:
  assumes "distinct (map gn_id (nodes_of local))" "distinct (map gn_id (nodes_of remote))"
  shows "(\<forall>i. node_at (gr_nodes (merge sha local remote)) i = later sha (node_at (nodes_of local) i) (node_at (nodes_of remote) i)) \<and>
    (\<forall>k. edge_at (gr_edges (merge sha local remote)) k =
      (case edge_at (edges_of local) k of Some e \<Rightarrow> Some e | None \<Rightarrow> edge_at (edges_of remote) k)) \<and>
    sorted_graph (merge sha local remote)"
  by (simp add: merge_nodes [OF assms] merge_edges merge_sorted_graph)


section \<open>Samples\<close>

definition sample_node :: "string \<Rightarrow> string \<Rightarrow> time \<Rightarrow> gnode" where
  "sample_node i title t =
     \<lparr>gn_id = i, gn_type = ''fact'', gn_title = title, gn_body = [], gn_tags = [], gn_status = ''active'', gn_session_id = [],
      gn_provenance = \<lparr>pv_author = ''m'', pv_source = ''manual'', pv_created_at = 0\<rparr>, gn_updated_at = t, gn_rev = 1\<rparr>"

definition sample_graph :: "gnode list \<Rightarrow> graph" where
  "sample_graph ns = \<lparr>gr_format_version = 1, gr_nodes = ns, gr_edges = []\<rparr>"

lemma sample_node_valid: "json_time_ok t \<Longrightarrow> valid_utf8 i \<Longrightarrow> valid_utf8 title \<Longrightarrow> node_valid (sample_node i title t)"
  by (simp add: node_valid_def node_encodable_def sample_node_def json_time_ok_def year_of_def days_before_def epoch_days_def)
    (simp add: valid_ascii byte_def)

lemma early_times: "json_time_ok 0" "json_time_ok 1" "json_time_ok 2"
  by (simp_all add: json_time_ok_def year_of_def days_before_def epoch_days_def)


theorem merge_refines_lww_witness:
  "node_at (gr_nodes (merge (\<lambda>x. x) (Some (sample_graph [sample_node ''x'' ''one'' 1])) (Some (sample_graph [sample_node ''x'' ''two'' 2])))) ''x''
     = Some (sample_node ''x'' ''two'' 2)"
  using merge_refines_lww [of "Some (sample_graph [sample_node ''x'' ''one'' 1])" "Some (sample_graph [sample_node ''x'' ''two'' 2])" "\<lambda>x. x"]
  by (simp add: nodes_of_def sample_graph_def later_def node_wins_def sample_node_def)

text \<open>The date of the conformance test: day 161 of 2026 is June 11.\<close>

lemma sample_date:
  "rfc3339_nano 1781172000000000000 = ''2026-06-11T10:00:00Z''"
  "rfc3339_nano 1781172000000000001 = ''2026-06-11T10:00:00.000000001Z''"
proof -
  have date: "year_of 740143 = 2026" "days_before 2026 = 739982" "\<not> leap_year 2026"
    by (simp_all add: year_of_def days_before_def leap_year_def)
  have month: "month_of False 161 = 6" by (simp add: month_of_def month_starts_def)
  have day: "day_of False 161 = 11" by (simp add: day_of_def month month_starts_def)
  have parts: "pad_int 4 2026 = ''2026''" "clock_text 36000 = ''10:00:00''" "fraction 0 = []" "fraction 1 = ''.000000001''"
    by (simp_all add: pad_int_def clock_text_def fraction_def trim_zeros_def pad_eval)
  show "rfc3339_nano 1781172000000000000 = ''2026-06-11T10:00:00Z''"
    "rfc3339_nano 1781172000000000001 = ''2026-06-11T10:00:00.000000001Z''"
    by (simp_all add: rfc3339_nano_text Let_def epoch_days_def date month day parts pad_eval)
qed

text \<open>The text that the repository's conformance test pins byte for byte.\<close>

lemma canonical_node_pinned:
  "canonical_node_bytes
     \<lparr>gn_id = ''9a1f0c2e-0000-4000-8000-000000000001'', gn_type = ''finding'', gn_title = ''TLS pin mismatch on resurrected node'', gn_body = ''details *markdown*'', gn_tags = [''tls'', ''clan''],
      gn_status = ''active'', gn_session_id = ''9a1f0c2e-0000-4000-8000-00000000000s'',
      gn_provenance = \<lparr>pv_author = ''11111111-2222-4333-8444-555555555555'', pv_source = ''manual'', pv_created_at = 1781172000000000000\<rparr>,
      gn_updated_at = 1781172000000000001, gn_rev = 3\<rparr> =
   ''{\"id\":\"9a1f0c2e-0000-4000-8000-000000000001\",\"type\":\"finding\",\"title\":\"TLS pin mismatch on resurrected node\",\"body\":\"details *markdown*\",\"tags\":[\"tls\",\"clan\"],'' @
   ''\"status\":\"active\",\"session_id\":\"9a1f0c2e-0000-4000-8000-00000000000s\",'' @
   ''\"provenance\":{\"author_member_id\":\"11111111-2222-4333-8444-555555555555\",\"source\":\"manual\",\"created_at\":\"2026-06-11T10:00:00Z\"},'' @
   ''\"updated_at\":\"2026-06-11T10:00:00.000000001Z\",\"rev\":3}''"
proof -
  have p: "list_all plain_char s \<Longrightarrow> json_string s = dquote # s @ [dquote]" for s by (rule json_string_plain)
  have rev: "dec_nat 3 = ''3''" by (simp add: dec_nat.simps digit_chars)
  show ?thesis
    by (simp add: canonical_node_bytes_def json_obj_def json_member_def json_strings_def json_time_def sample_date p rev
        plain_char_def byte_def dquote_def)
qed

end
