(* ===== verification/MemoryService.thy ===== *)
theory MemoryService
  imports MemoryGraph ClanState
begin

text \<open>
  \<open>cland/internal/memory/service.go\<close>: the service that owns the working copy of the graph, its cached digest
  and its file, with every operation that changes it. The mutex makes each operation atomic. \<open>now\<close> is the
  clock reading the caller passes, \<open>rand\<close> the sixteen random bytes of a new id (\<open>None\<close> when they cannot be
  read). The file is the part of \<open>state.Store\<close> behind \<open>LoadMemory\<close> and \<open>SaveMemory\<close>, with flags for
  whether the disk can be read and written.
\<close>

section \<open>The file\<close>

record memory_store =
  mm_file :: "graph option"
  mm_readable :: bool
  mm_writable :: bool

definition load_memory :: "memory_store \<Rightarrow> store_error + graph option" where
  "load_memory s = (if mm_readable s then Inr (mm_file s) else Inl ReadFailed)"

definition save_memory :: "memory_store \<Rightarrow> graph option \<Rightarrow> memory_store \<times> store_error option" where
  "save_memory s g =
     (case g of
        None \<Rightarrow> (s, Some NilSave)
      | Some g \<Rightarrow>
          if marshal_graph g \<noteq> None \<and> mm_writable s then (s\<lparr>mm_file := Some g\<rparr>, None) else (s, Some WriteFailed))"

section \<open>The service\<close>

record memory_service =
  ms_store :: memory_store
  ms_self_id :: member_id
  ms_clan_id :: string
  ms_audit :: "audit_event list"
  ms_graph :: graph
  ms_digest :: string
  ms_max_updated :: time

definition max_updated_of :: "time \<Rightarrow> gnode list \<Rightarrow> time" where
  "max_updated_of = foldl (\<lambda>t n. if gn_updated_at n > t then gn_updated_at n else t)"

definition new_memory_service ::
  "(bytes \<Rightarrow> bytes) \<Rightarrow> memory_store option \<Rightarrow> member_id \<Rightarrow> string \<Rightarrow> memory_service option" where
  "new_memory_service sha store self_id clan_id =
     (case store of
        None \<Rightarrow> None
      | Some st \<Rightarrow>
          if self_id = [] then None
          else case load_memory st of
            Inl e \<Rightarrow> None
          | Inr found \<Rightarrow>
              let g = (case found of None \<Rightarrow> new_graph | Some g \<Rightarrow> g)
              in Some \<lparr>ms_store = st, ms_self_id = self_id, ms_clan_id = clan_id, ms_audit = [], ms_graph = g,
                       ms_digest = digest sha (Some g), ms_max_updated = max_updated_of zero_time (gr_nodes g)\<rparr>)"

definition memory_snapshot :: "(bytes \<Rightarrow> bytes) \<Rightarrow> memory_service \<Rightarrow> graph" where
  "memory_snapshot sha s = merge sha (Some (ms_graph s)) None"

definition stamp :: "memory_service \<Rightarrow> time \<Rightarrow> memory_service \<times> time" where
  "stamp s now =
     (let ts = (if now > ms_max_updated s then now else ms_max_updated s + 1)
      in (s\<lparr>ms_max_updated := ts\<rparr>, ts))"

definition check_size :: "memory_service \<Rightarrow> gnode list \<Rightarrow> gedge list \<Rightarrow> memory_error option" where
  "check_size s nodes edges =
     (case marshal_graph \<lparr>gr_format_version = gr_format_version (ms_graph s), gr_nodes = nodes, gr_edges = edges\<rparr> of
        None \<Rightarrow> Some SizeCheck
      | Some b \<Rightarrow> if length b > max_serialized_bytes then Some ErrCap else None)"

definition persist :: "(bytes \<Rightarrow> bytes) \<Rightarrow> memory_service \<Rightarrow> memory_service \<times> memory_error option" where
  "persist sha s =
     (case save_memory (ms_store s) (Some (ms_graph s)) of
        (st, Some e) \<Rightarrow> (s\<lparr>ms_store := st\<rparr>, Some Persist)
      | (st, None) \<Rightarrow> (s\<lparr>ms_store := st, ms_digest := digest sha (Some (ms_graph s))\<rparr>, None))"

definition memory_audit :: "memory_service \<Rightarrow> string \<Rightarrow> string \<Rightarrow> memory_service" where
  "memory_audit s tool actor = s\<lparr>ms_audit := ms_audit s @ [Audit tool ''allow'' actor]\<rparr>"

fun node_index :: "string \<Rightarrow> gnode list \<Rightarrow> nat option" where
  "node_index i [] = None"
| "node_index i (n # ns) = (if gn_id n = i then Some 0 else map_option Suc (node_index i ns))"

text \<open>The end of both branches of a node write: the size check, the new node list, the save and the audit line.\<close>

definition commit_nodes ::
  "(bytes \<Rightarrow> bytes) \<Rightarrow> memory_service \<Rightarrow> member_id \<Rightarrow> gnode list \<Rightarrow> gnode \<Rightarrow> memory_service \<times> (memory_error + gnode)" where
  "commit_nodes sha s origin candidate n =
     (case check_size s candidate (gr_edges (ms_graph s)) of
        Some e \<Rightarrow> (s, Inl e)
      | None \<Rightarrow>
          (case persist sha (s\<lparr>ms_graph := (ms_graph s)\<lparr>gr_nodes := candidate\<rparr>\<rparr>) of
             (s1, Some e) \<Rightarrow> (s1, Inl e)
           | (s1, None) \<Rightarrow> (memory_audit s1 ''memory.node'' origin, Inr n)))"

text \<open>The two branches of \<open>AddOrUpdateNode\<close>, for a node that passed the checks.\<close>

definition create_node ::
  "(bytes \<Rightarrow> bytes) \<Rightarrow> bytes option \<Rightarrow> memory_service \<Rightarrow> member_id \<Rightarrow> gnode \<Rightarrow> time
     \<Rightarrow> memory_service \<times> (memory_error + gnode)" where
  "create_node sha rand s origin n now =
     (if length (gr_nodes (ms_graph s)) \<ge> max_nodes then (s, Inl ErrCap)
      else case (if gn_id n = [] then map_option fold_to_uuid rand else Some (gn_id n)) of
        None \<Rightarrow> (s, Inl MintId)
      | Some i \<Rightarrow>
          let src = (if pv_source (gn_provenance n) = [] then ''manual'' else pv_source (gn_provenance n));
              (s1, ts) = stamp s now;
              n = n\<lparr>gn_id := i, gn_provenance := \<lparr>pv_author = origin, pv_source = src, pv_created_at = now\<rparr>,
                    gn_rev := 1, gn_updated_at := ts\<rparr>
          in commit_nodes sha s1 origin (gr_nodes (ms_graph s1) @ [n]) n)"

definition update_node ::
  "(bytes \<Rightarrow> bytes) \<Rightarrow> memory_service \<Rightarrow> member_id \<Rightarrow> nat \<Rightarrow> gnode \<Rightarrow> time \<Rightarrow> memory_service \<times> (memory_error + gnode)" where
  "update_node sha s origin idx n now =
     (let old = gr_nodes (ms_graph s) ! idx;
          (s1, ts) = stamp s now;
          n = n\<lparr>gn_id := gn_id old, gn_provenance := gn_provenance old, gn_rev := gn_rev old + 1, gn_updated_at := ts\<rparr>
      in commit_nodes sha s1 origin ((gr_nodes (ms_graph s1))[idx := n]) n)"

definition default_status :: "gnode \<Rightarrow> gnode" where
  "default_status n = (if gn_status n = [] then n\<lparr>gn_status := ''active''\<rparr> else n)"

definition add_or_update_node ::
  "(bytes \<Rightarrow> bytes) \<Rightarrow> bytes option \<Rightarrow> memory_service \<Rightarrow> member_id \<Rightarrow> gnode \<Rightarrow> time
     \<Rightarrow> memory_service \<times> (memory_error + gnode)" where
  "add_or_update_node sha rand s origin n now =
     (if origin = [] then (s, Inl NoOrigin)
      else
        let n = default_status n
        in case validate_node n of
          Some e \<Rightarrow> (s, Inl e)
        | None \<Rightarrow>
            (case node_index (gn_id n) (gr_nodes (ms_graph s)) of
               None \<Rightarrow> create_node sha rand s origin n now
             | Some idx \<Rightarrow> update_node sha s origin idx n now))"

definition add_edge ::
  "(bytes \<Rightarrow> bytes) \<Rightarrow> memory_service \<Rightarrow> member_id \<Rightarrow> gedge \<Rightarrow> time \<Rightarrow> memory_service \<times> (memory_error + bool)" where
  "add_edge sha s origin e now =
     (if origin = [] then (s, Inl NoOrigin)
      else case validate_edge e of
        Some er \<Rightarrow> (s, Inl er)
      | None \<Rightarrow>
          if edge_key e \<in> edge_key ` set (gr_edges (ms_graph s)) then (s, Inr False)
          else if length (gr_edges (ms_graph s)) \<ge> max_edges then (s, Inl ErrCap)
          else
            let e = e\<lparr>ge_created_at := now, ge_created_by := origin\<rparr>;
                candidate = gr_edges (ms_graph s) @ [e]
            in case check_size s (gr_nodes (ms_graph s)) candidate of
              Some er \<Rightarrow> (s, Inl er)
            | None \<Rightarrow>
                (case persist sha (s\<lparr>ms_graph := (ms_graph s)\<lparr>gr_edges := candidate\<rparr>\<rparr>) of
                   (s1, Some er) \<Rightarrow> (s1, Inl er)
                 | (s1, None) \<Rightarrow> (memory_audit s1 ''memory.edge'' origin, Inr True)))"

text \<open>The body that \<open>ApplyRemote\<close> and the merge branch of \<open>ImportGraph\<close> share; the answer is (changed, error).\<close>

definition merge_in ::
  "(bytes \<Rightarrow> bytes) \<Rightarrow> memory_service \<Rightarrow> string \<Rightarrow> graph option \<Rightarrow> member_id \<Rightarrow> memory_service \<times> bool \<times> memory_error option" where
  "merge_in sha s tool remote from =
     (let merged = merge sha (Some (ms_graph s)) remote
      in if digest sha (Some merged) = ms_digest s then (s, False, None)
         else
           (case persist sha (s\<lparr>ms_graph := merged, ms_max_updated := max_updated_of (ms_max_updated s) (gr_nodes merged)\<rparr>) of
              (s1, Some e) \<Rightarrow> (s1, True, Some e)
            | (s1, None) \<Rightarrow> (memory_audit s1 tool from, True, None)))"

definition apply_remote ::
  "(bytes \<Rightarrow> bytes) \<Rightarrow> memory_service \<Rightarrow> graph option \<Rightarrow> member_id \<Rightarrow> memory_service \<times> bool \<times> memory_error option" where
  "apply_remote sha s remote from =
     (if remote = None then (s, False, None) else merge_in sha s ''memory.sync'' remote from)"

definition replace_graph ::
  "(bytes \<Rightarrow> bytes) \<Rightarrow> memory_service \<Rightarrow> graph option \<Rightarrow> member_id \<Rightarrow> memory_service \<times> memory_error option" where
  "replace_graph sha s g from =
     (case g of
        None \<Rightarrow> (s, Some NilGraph)
      | Some g \<Rightarrow>
          let g = merge sha (Some g) None
          in case persist sha (s\<lparr>ms_graph := g, ms_max_updated := max_updated_of zero_time (gr_nodes g)\<rparr>) of
               (s1, Some e) \<Rightarrow> (s1, Some e)
             | (s1, None) \<Rightarrow> (memory_audit s1 ''memory.import'' from, None))"

definition import_graph ::
  "(bytes \<Rightarrow> bytes) \<Rightarrow> memory_service \<Rightarrow> graph option \<Rightarrow> string \<Rightarrow> member_id \<Rightarrow> memory_service \<times> bool \<times> memory_error option" where
  "import_graph sha s g mode from =
     (if mode = [] \<or> mode = ''merge'' then merge_in sha s ''memory.import'' g from
      else if mode = ''replace'' then (case replace_graph sha s g from of (s1, e) \<Rightarrow> (s1, True, e))
      else (s, False, Some BadMode))"

definition record_system_event ::
  "(bytes \<Rightarrow> bytes) \<Rightarrow> bytes option \<Rightarrow> memory_service \<Rightarrow> string \<Rightarrow> string \<Rightarrow> string \<Rightarrow> string \<Rightarrow> time
     \<Rightarrow> memory_service \<times> memory_error option" where
  "record_system_event sha rand s kind subject qualifier title now =
     (let n = \<lparr>gn_id = deterministic_event_id sha (ms_clan_id s) kind subject qualifier, gn_type = ''event'', gn_title = title,
              gn_body = [], gn_tags = [], gn_status = ''active'', gn_session_id = [],
              gn_provenance = \<lparr>pv_author = [], pv_source = ''system'', pv_created_at = zero_time\<rparr>,
              gn_updated_at = zero_time, gn_rev = 0\<rparr>
      in case add_or_update_node sha rand s (ms_self_id s) n now of
           (s1, Inl e) \<Rightarrow> (s1, Some e)
         | (s1, Inr _) \<Rightarrow> (s1, None))"

section \<open>Effects with a writable disk\<close>

text \<open>The state after a graph has been saved.\<close>

definition saved :: "(bytes \<Rightarrow> bytes) \<Rightarrow> memory_service \<Rightarrow> graph \<Rightarrow> string \<Rightarrow> string \<Rightarrow> memory_service" where
  "saved sha s g tool actor =
     s\<lparr>ms_store := (ms_store s)\<lparr>mm_file := Some g\<rparr>, ms_audit := ms_audit s @ [Audit tool ''allow'' actor], ms_graph := g,
       ms_digest := digest sha (Some g)\<rparr>"

lemma saved_simps [simp]:
  "ms_graph (saved sha s g tool actor) = g" "ms_digest (saved sha s g tool actor) = digest sha (Some g)"
  "ms_max_updated (saved sha s g tool actor) = ms_max_updated s" "mm_file (ms_store (saved sha s g tool actor)) = Some g"
  "mm_writable (ms_store (saved sha s g tool actor)) = mm_writable (ms_store s)"
  "ms_self_id (saved sha s g tool actor) = ms_self_id s" "ms_clan_id (saved sha s g tool actor) = ms_clan_id s"
  by (simp_all add: saved_def)

lemma persist_saved:
  assumes "mm_writable (ms_store s)" "marshal_graph (ms_graph s) \<noteq> None"
  shows "snd (persist sha s) = None \<and> memory_audit (fst (persist sha s)) tool actor = saved sha s (ms_graph s) tool actor"
  using assms by (auto simp: persist_def save_memory_def memory_audit_def saved_def)

lemma check_size_marshal: "check_size s nodes edges = None \<Longrightarrow>
  marshal_graph \<lparr>gr_format_version = gr_format_version (ms_graph s), gr_nodes = nodes, gr_edges = edges\<rparr> \<noteq> None"
  by (auto simp: check_size_def split: option.splits)

definition with_nodes :: "graph \<Rightarrow> gnode list \<Rightarrow> graph" where "with_nodes g ns = g\<lparr>gr_nodes := ns\<rparr>"
definition with_edges :: "graph \<Rightarrow> gedge list \<Rightarrow> graph" where "with_edges g es = g\<lparr>gr_edges := es\<rparr>"

lemma with_simps [simp]:
  "gr_nodes (with_nodes g ns) = ns" "gr_edges (with_nodes g ns) = gr_edges g" "gr_format_version (with_nodes g ns) = gr_format_version g"
  "gr_edges (with_edges g es) = es" "gr_nodes (with_edges g es) = gr_nodes g" "gr_format_version (with_edges g es) = gr_format_version g"
  by (simp_all add: with_nodes_def with_edges_def)

lemma check_size_nodes: "check_size s ns (gr_edges (ms_graph s)) = None \<Longrightarrow> marshal_graph (with_nodes (ms_graph s) ns) \<noteq> None"
  by (drule check_size_marshal) (cases "ms_graph s", simp add: with_nodes_def)

lemma check_size_edges: "check_size s (gr_nodes (ms_graph s)) es = None \<Longrightarrow> marshal_graph (with_edges (ms_graph s) es) \<noteq> None"
  by (drule check_size_marshal) (cases "ms_graph s", simp add: with_edges_def)

lemma commit_nodes_writable:
  assumes "mm_writable (ms_store s)"
  shows "commit_nodes sha s origin ns n =
    (case check_size s ns (gr_edges (ms_graph s)) of
       Some e \<Rightarrow> (s, Inl e) | None \<Rightarrow> (saved sha s (with_nodes (ms_graph s) ns) ''memory.node'' origin, Inr n))"
proof (cases "check_size s ns (gr_edges (ms_graph s))")
  case None
  let ?s = "s\<lparr>ms_graph := with_nodes (ms_graph s) ns\<rparr>"
  obtain s1 e where p: "persist sha ?s = (s1, e)" by force
  from persist_saved [of ?s sha "''memory.node''" origin] check_size_nodes [OF None] assms p
  have "e = None" "memory_audit s1 ''memory.node'' origin = saved sha s (with_nodes (ms_graph s) ns) ''memory.node'' origin"
    by (auto simp: saved_def)
  with None p show ?thesis by (simp add: commit_nodes_def with_nodes_def)
qed (simp add: commit_nodes_def)

lemma default_status_simps [simp]:
  "gn_provenance (default_status n) = gn_provenance n"
  "gn_id (default_status n) = gn_id n" "gn_session_id (default_status n) = gn_session_id n"
  "gn_status (default_status n) = (if gn_status n = [] then ''active'' else gn_status n)"
  by (simp_all add: default_status_def)

lemma node_index_None: "node_index i ns = None \<longleftrightarrow> i \<notin> gn_id ` set ns"
  by (induction ns) auto

lemma node_index_Some: "node_index i ns = Some k \<Longrightarrow> k < length ns \<and> gn_id (ns ! k) = i"
  by (induction ns arbitrary: k) (auto split: if_splits)

lemma stamp_simps: "stamp s now = (s\<lparr>ms_max_updated := max now (ms_max_updated s + 1)\<rparr>, max now (ms_max_updated s + 1))"
  by (auto simp: stamp_def Let_def max_def)

text \<open>A node write with a writable disk refuses, creates or updates.\<close>

definition same_content :: "gnode \<Rightarrow> gnode \<Rightarrow> bool" where
  "same_content n m \<longleftrightarrow> gn_type m = gn_type n \<and> gn_title m = gn_title n \<and> gn_body m = gn_body n \<and>
     gn_tags m = gn_tags n \<and> gn_status m = gn_status n \<and> gn_session_id m = gn_session_id n"

definition given_source :: "gnode \<Rightarrow> string" where
  "given_source n = (if pv_source (gn_provenance n) = [] then ''manual'' else pv_source (gn_provenance n))"

lemma given_source_default [simp]: "given_source (default_status n) = given_source n"
  by (simp add: given_source_def)

definition created :: "bytes option \<Rightarrow> memory_service \<Rightarrow> member_id \<Rightarrow> time \<Rightarrow> gnode \<Rightarrow> gnode \<Rightarrow> bool" where
  "created rand s origin now n m \<longleftrightarrow>
     pv_author (gn_provenance m) = origin \<and>
     pv_source (gn_provenance m) = given_source n \<and> gn_rev m = 1 \<and> gn_updated_at m = max now (ms_max_updated s + 1) \<and> ms_max_updated s < gn_updated_at m \<and>
     (gn_id n \<noteq> [] \<and> gn_id m = gn_id n \<or> gn_id n = [] \<and> (\<exists>b. rand = Some b \<and> gn_id m = fold_to_uuid b)) \<and>
     length (gr_nodes (ms_graph s)) < max_nodes \<and> same_content n m \<and>
     marshal_graph (with_nodes (ms_graph s) (gr_nodes (ms_graph s) @ [m])) \<noteq> None"

definition updated :: "memory_service \<Rightarrow> nat \<Rightarrow> time \<Rightarrow> gnode \<Rightarrow> gnode \<Rightarrow> bool" where
  "updated s k now n m \<longleftrightarrow>
     gn_id m = gn_id (gr_nodes (ms_graph s) ! k) \<and> gn_provenance m = gn_provenance (gr_nodes (ms_graph s) ! k) \<and>
     gn_rev m = gn_rev (gr_nodes (ms_graph s) ! k) + 1 \<and> gn_updated_at m = max now (ms_max_updated s + 1) \<and> ms_max_updated s < gn_updated_at m \<and>
     same_content n m \<and>
     marshal_graph (with_nodes (ms_graph s) ((gr_nodes (ms_graph s))[k := m])) \<noteq> None"

definition wrote :: "(bytes \<Rightarrow> bytes) \<Rightarrow> memory_service \<Rightarrow> member_id \<Rightarrow> gnode list \<Rightarrow> gnode \<Rightarrow> memory_service" where
  "wrote sha s origin ns m = saved sha (s\<lparr>ms_max_updated := gn_updated_at m\<rparr>) (with_nodes (ms_graph s) ns) ''memory.node'' origin"

definition refused :: "memory_service \<Rightarrow> memory_service \<Rightarrow> bool" where
  "refused s s' \<longleftrightarrow> (\<exists>t\<ge>ms_max_updated s. s' = s\<lparr>ms_max_updated := t\<rparr>)"

lemma refused_refl [simp]: "refused s s"
  unfolding refused_def by (rule exI [of _ "ms_max_updated s"]) simp

lemma commit_stamped:
  assumes "mm_writable (ms_store s)" "gn_updated_at m = ts" "ms_max_updated s < ts"
  shows "commit_nodes sha (s\<lparr>ms_max_updated := ts\<rparr>) origin ns m = (s', r) \<Longrightarrow>
    (\<exists>e. r = Inl e \<and> refused s s') \<or>
    r = Inr m \<and> s' = wrote sha s origin ns m \<and> marshal_graph (with_nodes (ms_graph s) ns) \<noteq> None"
  using assms commit_nodes_writable [of "s\<lparr>ms_max_updated := ts\<rparr>" sha origin ns m]
    check_size_nodes [of "s\<lparr>ms_max_updated := ts\<rparr>" ns]
  by (auto simp: wrote_def refused_def split: option.splits intro: less_imp_le)

lemma create_node_cases:
  assumes "create_node sha rand s origin n now = (s', r)" "mm_writable (ms_store s)"
  shows "(\<exists>e. r = Inl e \<and> refused s s') \<or>
    (\<exists>m. r = Inr m \<and> created rand s origin now n m \<and> s' = wrote sha s origin (gr_nodes (ms_graph s) @ [m]) m)"
proof (cases "max_nodes \<le> length (gr_nodes (ms_graph s)) \<or> (if gn_id n = [] then map_option fold_to_uuid rand else Some (gn_id n)) = None")
  case True
  with assms(1) show ?thesis by (auto simp: create_node_def split: option.splits if_splits)
next
  case False
  then obtain i where i: "(if gn_id n = [] then map_option fold_to_uuid rand else Some (gn_id n)) = Some i" by auto
  let ?ts = "max now (ms_max_updated s + 1)"
  let ?m = "n\<lparr>gn_id := i, gn_provenance := \<lparr>pv_author = origin,
      pv_source = (if pv_source (gn_provenance n) = [] then ''manual'' else pv_source (gn_provenance n)), pv_created_at = now\<rparr>,
      gn_rev := 1, gn_updated_at := ?ts\<rparr>"
  have "commit_nodes sha (s\<lparr>ms_max_updated := ?ts\<rparr>) origin (gr_nodes (ms_graph s) @ [?m]) ?m = (s', r)"
    using assms(1) i False by (simp add: create_node_def stamp_simps Let_def)
  from commit_stamped [OF assms(2) _ _ this] False i show ?thesis
    by (auto simp: created_def same_content_def given_source_def split: if_splits)
qed

lemma update_node_cases:
  assumes "update_node sha s origin k n now = (s', r)" "mm_writable (ms_store s)"
  shows "(\<exists>e. r = Inl e \<and> refused s s') \<or>
    (\<exists>m. r = Inr m \<and> updated s k now n m \<and> s' = wrote sha s origin ((gr_nodes (ms_graph s))[k := m]) m)"
proof -
  let ?ts = "max now (ms_max_updated s + 1)"
  let ?m = "n\<lparr>gn_id := gn_id (gr_nodes (ms_graph s) ! k), gn_provenance := gn_provenance (gr_nodes (ms_graph s) ! k),
      gn_rev := gn_rev (gr_nodes (ms_graph s) ! k) + 1, gn_updated_at := ?ts\<rparr>"
  have "commit_nodes sha (s\<lparr>ms_max_updated := ?ts\<rparr>) origin ((gr_nodes (ms_graph s))[k := ?m]) ?m = (s', r)"
    using assms(1) by (simp add: update_node_def stamp_simps Let_def)
  from commit_stamped [OF assms(2) _ _ this] show ?thesis by (auto simp: updated_def same_content_def)
qed

lemma add_node_cases:
  assumes "add_or_update_node sha rand s origin n now = (s', r)" "mm_writable (ms_store s)"
  obtains
    (refused) e where "r = Inl e" "refused s s'"
  | (created) m where "r = Inr m" "created rand s origin now (default_status n) m" "origin \<noteq> []" "validate_node (default_status n) = None"
      "s' = wrote sha s origin (gr_nodes (ms_graph s) @ [m]) m" "gn_id n \<notin> gn_id ` set (gr_nodes (ms_graph s))"
  | (updated) m k where "r = Inr m" "updated s k now (default_status n) m" "origin \<noteq> []" "validate_node (default_status n) = None"
      "s' = wrote sha s origin ((gr_nodes (ms_graph s))[k := m]) m" "k < length (gr_nodes (ms_graph s))" "gn_id (gr_nodes (ms_graph s) ! k) = gn_id n"
proof -
  consider "\<exists>e. r = Inl e \<and> s' = s" | "origin \<noteq> []" "validate_node (default_status n) = None" "node_index (gn_id n) (gr_nodes (ms_graph s)) = None"
      "create_node sha rand s origin (default_status n) now = (s', r)"
    | k where "origin \<noteq> []" "validate_node (default_status n) = None" "node_index (gn_id n) (gr_nodes (ms_graph s)) = Some k"
      "update_node sha s origin k (default_status n) now = (s', r)"
    using assms(1) by (auto simp: add_or_update_node_def Let_def split: if_splits option.splits)
  then show thesis
  proof cases
    case 1
    then show ?thesis using refused by auto
  next
    case 2
    from create_node_cases [OF 2(4) assms(2)] 2 show ?thesis
      using refused created by (auto simp: node_index_None)
  next
    case 3
    from update_node_cases [OF 3(4) assms(2)] 3 node_index_Some [OF 3(3)] show ?thesis
      using refused updated by auto
  qed
qed

lemma add_edge_cases:
  assumes "add_edge sha s origin e now = (s', r)" "mm_writable (ms_store s)"
  shows "s' = s \<and> r \<noteq> Inr True \<or>
    (\<exists>e'. r = Inr True \<and> e' = e\<lparr>ge_created_at := now, ge_created_by := origin\<rparr> \<and> origin \<noteq> [] \<and> validate_edge e = None \<and>
       edge_key e \<notin> edge_key ` set (gr_edges (ms_graph s)) \<and> length (gr_edges (ms_graph s)) < max_edges \<and>
       s' = saved sha s (with_edges (ms_graph s) (gr_edges (ms_graph s) @ [e'])) ''memory.edge'' origin \<and>
       marshal_graph (with_edges (ms_graph s) (gr_edges (ms_graph s) @ [e'])) \<noteq> None)"
proof -
  let ?e = "e\<lparr>ge_created_at := now, ge_created_by := origin\<rparr>"
  let ?es = "gr_edges (ms_graph s) @ [?e]"
  let ?s = "s\<lparr>ms_graph := with_edges (ms_graph s) ?es\<rparr>"
  show ?thesis
  proof (cases "origin \<noteq> [] \<and> validate_edge e = None \<and> edge_key e \<notin> edge_key ` set (gr_edges (ms_graph s)) \<and>
      length (gr_edges (ms_graph s)) < max_edges \<and> check_size s (gr_nodes (ms_graph s)) ?es = None")
    case False
    with assms(1) show ?thesis by (auto simp: add_edge_def Let_def not_less split: option.splits if_splits)
  next
    case True
    obtain s1 er where p: "persist sha ?s = (s1, er)" by force
    have m: "marshal_graph (with_edges (ms_graph s) ?es) \<noteq> None" using True check_size_edges by blast
    from persist_saved [of ?s sha "''memory.edge''" origin] m assms(2) p
    have "er = None" "memory_audit s1 ''memory.edge'' origin = saved sha s (with_edges (ms_graph s) ?es) ''memory.edge'' origin"
      by (auto simp: saved_def)
    with True p m assms(1) show ?thesis by (auto simp: add_edge_def Let_def with_edges_def)
  qed
qed

lemma merge_in_cases:
  assumes "merge_in sha s tool remote from = (s', changed, err)" "mm_writable (ms_store s)"
    "marshal_graph (merge sha (Some (ms_graph s)) remote) \<noteq> None"
  shows "err = None \<and>
    (\<not> changed \<and> s' = s \<and> digest sha (Some (merge sha (Some (ms_graph s)) remote)) = ms_digest s \<or>
     changed \<and> s' = saved sha (s\<lparr>ms_max_updated := max_updated_of (ms_max_updated s) (gr_nodes (merge sha (Some (ms_graph s)) remote))\<rparr>)
        (merge sha (Some (ms_graph s)) remote) tool from)"
proof -
  let ?g = "merge sha (Some (ms_graph s)) remote"
  let ?s = "s\<lparr>ms_graph := ?g, ms_max_updated := max_updated_of (ms_max_updated s) (gr_nodes ?g)\<rparr>"
  obtain s1 er where p: "persist sha ?s = (s1, er)" by force
  from persist_saved [of ?s sha tool "from"] assms p show ?thesis
    by (auto simp: merge_in_def Let_def saved_def split: if_splits)
qed

lemma replace_cases:
  assumes "replace_graph sha s g from = (s', err)" "mm_writable (ms_store s)" "marshal_graph (merge sha g None) \<noteq> None"
  shows "g = None \<and> s' = s \<or>
    err = None \<and> s' = saved sha (s\<lparr>ms_max_updated := max_updated_of zero_time (gr_nodes (merge sha g None))\<rparr>) (merge sha g None) ''memory.import'' from"
proof (cases g)
  case (Some g0)
  let ?g = "merge sha (Some g0) None"
  let ?s = "s\<lparr>ms_graph := ?g, ms_max_updated := max_updated_of zero_time (gr_nodes ?g)\<rparr>"
  obtain s1 er where p: "persist sha ?s = (s1, er)" by force
  from persist_saved [of ?s sha "''memory.import''" "from"] assms p Some show ?thesis
    by (auto simp: replace_graph_def Let_def saved_def)
qed (use assms in \<open>simp add: replace_graph_def\<close>)

lemma max_updated_of_upper: "t \<le> max_updated_of t ns \<and> (\<forall>n\<in>set ns. gn_updated_at n \<le> max_updated_of t ns)"
proof (induction ns arbitrary: t)
  case (Cons n ns)
  from Cons [of "if gn_updated_at n > t then gn_updated_at n else t"] show ?case
    by (auto simp: max_updated_of_def split: if_splits)
qed (simp add: max_updated_of_def)

section \<open>The invariant\<close>

datatype memory_op =
    WriteNode "bytes option" member_id gnode time
  | WriteEdge member_id gedge time
  | ApplyRemote "graph option" member_id
  | ImportGraph "graph option" string member_id
  | SystemEvent "bytes option" string string string string time

fun memory_exec :: "(bytes \<Rightarrow> bytes) \<Rightarrow> memory_service \<Rightarrow> memory_op \<Rightarrow> memory_service" where
  "memory_exec sha s (WriteNode rand origin n now) = fst (add_or_update_node sha rand s origin n now)"
| "memory_exec sha s (WriteEdge origin e now) = fst (add_edge sha s origin e now)"
| "memory_exec sha s (ApplyRemote g from) = fst (apply_remote sha s g from)"
| "memory_exec sha s (ImportGraph g mode from) = fst (import_graph sha s g mode from)"
| "memory_exec sha s (SystemEvent rand kind subject qualifier title now) =
     fst (record_system_event sha rand s kind subject qualifier title now)"

abbreviation memory_run :: "(bytes \<Rightarrow> bytes) \<Rightarrow> memory_service \<Rightarrow> memory_op list \<Rightarrow> memory_service" where
  "memory_run sha \<equiv> foldl (memory_exec sha)"

text \<open>A run is possible when decoded graphs can be encoded again and a minted id is new.\<close>

definition encodable :: "graph option \<Rightarrow> bool" where
  "encodable g \<longleftrightarrow> (\<forall>n\<in>set (nodes_of g). node_encodable n) \<and> (\<forall>e\<in>set (edges_of g). edge_encodable e)"

fun op_ok :: "memory_service \<Rightarrow> memory_op \<Rightarrow> bool" where
  "op_ok s (WriteNode rand origin n now) \<longleftrightarrow>
     (\<forall>b. gn_id n = [] \<and> rand = Some b \<longrightarrow> fold_to_uuid b \<notin> gn_id ` set (gr_nodes (ms_graph s)))"
| "op_ok s (WriteEdge origin e now) \<longleftrightarrow> True"
| "op_ok s (ApplyRemote g from) \<longleftrightarrow> encodable g"
| "op_ok s (ImportGraph g mode from) \<longleftrightarrow> encodable g"
| "op_ok s (SystemEvent rand kind subject qualifier title now) \<longleftrightarrow> True"

fun run_ok :: "(bytes \<Rightarrow> bytes) \<Rightarrow> memory_service \<Rightarrow> memory_op list \<Rightarrow> bool" where
  "run_ok sha s [] \<longleftrightarrow> True"
| "run_ok sha s (op # ops) \<longleftrightarrow> op_ok s op \<and> run_ok sha (memory_exec sha s op) ops"

definition service_ok :: "(bytes \<Rightarrow> bytes) \<Rightarrow> memory_service \<Rightarrow> bool" where
  "service_ok sha s \<longleftrightarrow>
     mm_writable (ms_store s) \<and> wf_graph (ms_graph s) \<and> encodable (Some (ms_graph s)) \<and>
     (\<forall>n\<in>set (gr_nodes (ms_graph s)). gn_updated_at n \<le> ms_max_updated s) \<and>
     ms_digest s = digest sha (Some (ms_graph s)) \<and>
     (mm_file (ms_store s) = Some (ms_graph s) \<or> mm_file (ms_store s) = None \<and> ms_graph s = new_graph)"

lemma marshal_iff: "marshal_graph g \<noteq> None \<longleftrightarrow> encodable (Some g)"
  by (simp add: marshal_graph_def encodable_def nodes_of_def edges_of_def)

lemma put_edges_set: "snd ` set (put_edges m es) \<subseteq> snd ` set m \<union> set es"
proof (induction es arbitrary: m)
  case (Cons e es)
  obtain m' where "put_edges m (e # es) = put_edges m' es" "m' = m \<or> m' = AList.update (edge_key e) e m"
    by (auto simp: put_edges_def split: option.split)
  moreover have "snd ` set (AList.update (edge_key e) e m) \<subseteq> insert e (snd ` set m)"
    by (induction m) auto
  ultimately show ?case using Cons [of m'] by (simp only: list.set) blast
qed (simp add: put_edges_def)

lemma merge_edge_set: "set (gr_edges (merge sha a b)) \<subseteq> set (edges_of a) \<union> set (edges_of b)"
  using put_edges_set [of "put_edges [] (edges_of a)" "edges_of b"] put_edges_set [of "[]" "edges_of a"]
  by (auto simp: merge_def)

lemma merge_encodable: "encodable a \<Longrightarrow> encodable b \<Longrightarrow> encodable (Some (merge sha a b))"
  using merge_node_set [of sha a b] merge_edge_set [of sha a b]
  by (auto simp: encodable_def nodes_of_def edges_of_def)

lemma service_ok_saved:
  assumes "mm_writable (ms_store s)" "wf_graph g" "marshal_graph g \<noteq> None" "\<forall>n\<in>set (gr_nodes g). gn_updated_at n \<le> ms_max_updated s"
  shows "service_ok sha (saved sha s g tool actor)"
  using assms by (simp add: service_ok_def marshal_iff del: not_None_eq)

lemma refused_ok: "service_ok sha s \<Longrightarrow> refused s s' \<Longrightarrow> service_ok sha s'"
  unfolding refused_def by (elim exE conjE) (auto simp: service_ok_def intro: order_trans)

lemma add_node_ok:
  assumes "service_ok sha s" "op_ok s (WriteNode rand origin n now)"
  shows "service_ok sha (fst (add_or_update_node sha rand s origin n now))"
proof -
  obtain s' r where a: "add_or_update_node sha rand s origin n now = (s', r)" by force
  from assms(1) have w: "mm_writable (ms_store s)" and wf: "wf_graph (ms_graph s)"
    and upd: "\<forall>n\<in>set (gr_nodes (ms_graph s)). gn_updated_at n \<le> ms_max_updated s" by (simp_all add: service_ok_def)
  from a w have "service_ok sha s'"
  proof (cases rule: add_node_cases)
    case (refused e)
    with assms(1) show ?thesis by (simp add: refused_ok)
  next
    case (created m)
    have "gn_id m \<notin> gn_id ` set (gr_nodes (ms_graph s))"
      using created(2,6) assms(2) by (auto simp: created_def)
    with created wf upd w show ?thesis
      unfolding created(5) wrote_def
      by (intro service_ok_saved) (auto simp: created_def wf_graph_def intro: order_trans less_imp_le)
  next
    case (updated m k)
    have ids: "map gn_id ((gr_nodes (ms_graph s))[k := m]) = map gn_id (gr_nodes (ms_graph s))"
      using updated(2,6) by (simp add: updated_def map_update) (metis list_update_id nth_map)
    have "gn_updated_at x \<le> gn_updated_at m" if "x \<in> set ((gr_nodes (ms_graph s))[k := m])" for x
      using that upd updated(2) set_update_subset_insert [of "gr_nodes (ms_graph s)" k m]
      by (force simp: updated_def)
    with updated wf w ids show ?thesis
      unfolding updated(5) wrote_def
      by (intro service_ok_saved) (auto simp: updated_def wf_graph_def)
  qed
  with a show ?thesis by simp
qed

lemma merge_in_ok:
  assumes "service_ok sha s" "encodable remote"
  shows "service_ok sha (fst (merge_in sha s tool remote from))"
proof -
  let ?g = "merge sha (Some (ms_graph s)) remote"
  obtain s' c e where m: "merge_in sha s tool remote from = (s', c, e)" by (cases "merge_in sha s tool remote from")
  have g: "marshal_graph ?g \<noteq> None" unfolding marshal_iff
    using assms by (simp add: service_ok_def merge_encodable)
  have w: "mm_writable (ms_store s)" using assms(1) by (simp add: service_ok_def)
  have "service_ok sha (saved sha (s\<lparr>ms_max_updated := max_updated_of (ms_max_updated s) (gr_nodes ?g)\<rparr>) ?g tool from)"
    using g w merge_wf max_updated_of_upper by (intro service_ok_saved) auto
  with merge_in_cases [OF m w g] assms(1) m show ?thesis by auto
qed

lemma replace_ok:
  assumes "service_ok sha s" "encodable g"
  shows "service_ok sha (fst (replace_graph sha s g from))"
proof -
  let ?g = "merge sha g None"
  obtain s' e where m: "replace_graph sha s g from = (s', e)" by force
  have g: "marshal_graph ?g \<noteq> None" unfolding marshal_iff
    using assms(2) by (intro merge_encodable) (simp_all add: encodable_def nodes_of_def edges_of_def)
  have w: "mm_writable (ms_store s)" using assms(1) by (simp add: service_ok_def)
  have "service_ok sha (saved sha (s\<lparr>ms_max_updated := max_updated_of zero_time (gr_nodes ?g)\<rparr>) ?g ''memory.import'' from)"
    using g w merge_wf max_updated_of_upper by (intro service_ok_saved) auto
  with replace_cases [OF m w g] assms(1) m show ?thesis by auto
qed

lemma add_edge_ok:
  assumes "service_ok sha s"
  shows "service_ok sha (fst (add_edge sha s origin e now))"
proof -
  obtain s' r where a: "add_edge sha s origin e now = (s', r)" by force
  have w: "mm_writable (ms_store s)" using assms by (simp add: service_ok_def)
  let ?g = "with_edges (ms_graph s) (gr_edges (ms_graph s) @ [e\<lparr>ge_created_at := now, ge_created_by := origin\<rparr>])"
  have "service_ok sha (saved sha s ?g ''memory.edge'' origin)"
    if "edge_key e \<notin> edge_key ` set (gr_edges (ms_graph s))" "marshal_graph ?g \<noteq> None"
    using that assms w by (intro service_ok_saved) (auto simp: service_ok_def wf_graph_def edge_key_def)
  with add_edge_cases [OF a w] assms a show ?thesis by auto
qed

lemma system_event_node:
  "fst (record_system_event sha rand s kind subject qualifier title now) =
   fst (add_or_update_node sha rand s (ms_self_id s)
     \<lparr>gn_id = deterministic_event_id sha (ms_clan_id s) kind subject qualifier, gn_type = ''event'', gn_title = title,
      gn_body = [], gn_tags = [], gn_status = ''active'', gn_session_id = [],
      gn_provenance = \<lparr>pv_author = [], pv_source = ''system'', pv_created_at = zero_time\<rparr>,
      gn_updated_at = zero_time, gn_rev = 0\<rparr> now)"
  by (auto simp: record_system_event_def Let_def split: prod.split sum.split)

lemma event_id_not_Nil: "deterministic_event_id sha c k su q \<noteq> []"
  by (simp add: deterministic_event_id_def fold_to_uuid_def uuid_of_def Let_def)

lemma memory_exec_ok:
  assumes "service_ok sha s" "op_ok s op"
  shows "service_ok sha (memory_exec sha s op)"
proof (cases op)
  case (SystemEvent rand kind subject qualifier title now)
  then show ?thesis
    using assms add_node_ok [OF assms(1)] event_id_not_Nil by (simp add: system_event_node)
next
  case (ImportGraph g mode "from")
  with assms show ?thesis
    using merge_in_ok [OF assms(1), of g] replace_ok [OF assms(1), of g "from"]
    by (auto simp: import_graph_def split: prod.split dest: prod_eqI) 
next
  case (ApplyRemote g "from")
  with assms show ?thesis using merge_in_ok [OF assms(1), of g] by (auto simp: apply_remote_def)
qed (use assms add_node_ok add_edge_ok in auto)

lemma memory_run_ok: "service_ok sha s \<Longrightarrow> run_ok sha s ops \<Longrightarrow> service_ok sha (memory_run sha s ops)"
  by (induction ops arbitrary: s) (auto simp: memory_exec_ok)

end
