(* ===== verification/MemoryProps.thy ===== *)
theory MemoryProps
  imports MemoryService
begin

text \<open>
  What the memory service guarantees and what it does not: its invariant, the effect of a node write, the
  fate of a write under gossip, immutable provenance, and two limits of the scheme (a graph that carries the
  last instant JSON can write blocks every later write; edits stamped with the same instant and revision are
  never reconciled).
\<close>

lemma wf_node_at_append:
  "node_at (ns @ [m]) i = (case node_at ns i of None \<Rightarrow> if gn_id m = i then Some m else None | Some n \<Rightarrow> Some n)"
  by (induction ns) auto

lemma node_at_update:
  assumes "k < length ns" "gn_id m = gn_id (ns ! k)" "distinct (map gn_id ns)"
  shows "node_at (ns[k := m]) i = (if i = gn_id m then Some m else node_at ns i)"
  using assms
proof (induction ns arbitrary: k)
  case (Cons n ns)
  then show ?case by (cases k) (auto simp: node_at_None)
qed simp

text \<open>The lookup after a successful write: the written node under its id, the old nodes elsewhere.\<close>

lemma add_node_lookup:
  assumes "service_ok sha s" "op_ok s (WriteNode rand origin n now)" "add_or_update_node sha rand s origin n now = (s', r)"
  shows "(\<exists>e. r = Inl e \<and> refused s s') \<or>
    (\<exists>m. r = Inr m \<and> origin \<noteq> [] \<and> same_content (default_status n) m \<and> (gn_id n \<noteq> [] \<longrightarrow> gn_id m = gn_id n) \<and>
      validate_node (default_status n) = None \<and>
      ms_max_updated s < gn_updated_at m \<and> ms_max_updated s' = gn_updated_at m \<and>
      node_at (gr_nodes (ms_graph s')) = (node_at (gr_nodes (ms_graph s)))(gn_id m \<mapsto> m) \<and>
      gr_edges (ms_graph s') = gr_edges (ms_graph s) \<and>
      (case node_at (gr_nodes (ms_graph s)) (gn_id m) of
         None \<Rightarrow> length (gr_nodes (ms_graph s)) < max_nodes \<and> pv_author (gn_provenance m) = origin \<and> gn_rev m = 1 \<and>
           pv_source (gn_provenance m) = given_source n
       | Some old \<Rightarrow> gn_provenance m = gn_provenance old \<and> gn_rev m = gn_rev old + 1))"
proof -
  have w: "mm_writable (ms_store s)" and wf: "distinct (map gn_id (gr_nodes (ms_graph s)))"
    using assms(1) by (simp_all add: service_ok_def wf_graph_def)
  from assms(3) w show ?thesis
  proof (cases rule: add_node_cases)
    case (refused e)
    then show ?thesis by auto
  next
    case (created m)
    have fresh: "node_at (gr_nodes (ms_graph s)) (gn_id m) = None"
      using created(2,6) assms(2) by (auto simp: created_def node_at_None)
    have "node_at (gr_nodes (ms_graph s')) = (node_at (gr_nodes (ms_graph s)))(gn_id m \<mapsto> m)"
      using fresh by (auto simp: created(5) wrote_def wf_node_at_append fun_eq_iff split: option.split)
    with created fresh show ?thesis by (auto simp: created_def wrote_def)
  next
    case (updated m k)
    have old: "node_at (gr_nodes (ms_graph s)) (gn_id m) = Some (gr_nodes (ms_graph s) ! k)"
      using updated(2,6) node_at_in [OF wf, of "gr_nodes (ms_graph s) ! k"] by (simp add: updated_def)
    have "node_at (gr_nodes (ms_graph s')) = (node_at (gr_nodes (ms_graph s)))(gn_id m \<mapsto> m)"
      using updated(2,6) node_at_update [OF updated(6) _ wf, of m] by (auto simp: updated(5) wrote_def updated_def fun_eq_iff)
    with updated old show ?thesis by (auto simp: updated_def wrote_def)
  qed
qed

text \<open>C9: The memory service keeps its invariant. From a service loaded on a writable disk with an empty or well-formed
  file, after any sequence of node writes, edge writes, gossip merges, imports (merge and replace) and system
  events: no node id and no edge key is listed twice, the cached digest is the digest of the graph, the file holds
  the graph (or was never written and the graph is empty), and no node is newer than the high-water mark.\<close>

theorem memory_service_invariant:
  assumes "new_memory_service sha (Some st) self clan = Some s" "mm_writable st"
    and "case mm_file st of None \<Rightarrow> True | Some g \<Rightarrow> wf_graph g \<and> encodable (Some g)" "run_ok sha s ops"
  shows "let s' = memory_run sha s ops in
    distinct (map gn_id (gr_nodes (ms_graph s'))) \<and> distinct (map edge_key (gr_edges (ms_graph s'))) \<and>
    ms_digest s' = digest sha (Some (ms_graph s')) \<and>
    (mm_file (ms_store s') = Some (ms_graph s') \<or> mm_file (ms_store s') = None \<and> ms_graph s' = new_graph) \<and>
    (\<forall>n\<in>set (gr_nodes (ms_graph s')). gn_updated_at n \<le> ms_max_updated s')"
proof -
  have "service_ok sha s"
    using assms(1-3) max_updated_of_upper
    by (auto simp: new_memory_service_def load_memory_def service_ok_def Let_def wf_graph_def new_graph_def encodable_def
        nodes_of_def edges_of_def split: option.splits if_splits sum.splits)
  from memory_run_ok [OF this assms(4)] show ?thesis by (simp add: service_ok_def wf_graph_def)
qed

text \<open>What one node write does. On a service that satisfies its invariant, a write is refused and leaves the graph,
  the digest and the file alone, or it changes the node of one id only: the stored node has the content of the
  request (status active when none is given), an instant later than every instant in the graph, and, when the id is
  new, revision 1, the authenticated origin as author and the source of the request (manual when none is given), with room
  left under the node cap, else the stored provenance
  and the next revision.\<close>

theorem node_write_effect:
  assumes "service_ok sha s" "op_ok s (WriteNode rand origin n now)" "add_or_update_node sha rand s origin n now = (s', r)"
  shows "case r of
      Inl e \<Rightarrow> ms_graph s' = ms_graph s \<and> ms_digest s' = ms_digest s \<and> ms_store s' = ms_store s
    | Inr m \<Rightarrow>
        node_at (gr_nodes (ms_graph s')) = (node_at (gr_nodes (ms_graph s)))(gn_id m \<mapsto> m) \<and>
        gr_edges (ms_graph s') = gr_edges (ms_graph s) \<and>
        origin \<noteq> [] \<and> validate_node (default_status n) = None \<and> same_content (default_status n) m \<and>
        (\<forall>x\<in>set (gr_nodes (ms_graph s)). gn_updated_at x < gn_updated_at m) \<and>
        (case node_at (gr_nodes (ms_graph s)) (gn_id m) of
           None \<Rightarrow> length (gr_nodes (ms_graph s)) < max_nodes \<and> pv_author (gn_provenance m) = origin \<and> gn_rev m = 1 \<and>
             pv_source (gn_provenance m) = given_source n
         | Some old \<Rightarrow> gn_provenance m = gn_provenance old \<and> gn_rev m = gn_rev old + 1)"
proof -
  have "\<forall>x\<in>set (gr_nodes (ms_graph s)). gn_updated_at x < t" if "ms_max_updated s < t" for t
    using that assms(1) by (fastforce simp: service_ok_def)
  with add_node_lookup [OF assms] show ?thesis by (auto simp: refused_def)
qed

text \<open>A write survives gossip. After a successful node write the written node stays under its id through any number
  of merges with replicas whose version of that node is not newer than what this daemon had seen when it wrote.\<close>

theorem write_survives_gossip:
  assumes "service_ok sha s" "op_ok s (WriteNode rand origin n now)"
    and "add_or_update_node sha rand s origin n now = (s', Inr m)"
    and "\<forall>g\<in>set gs. wf_graph g \<and> (\<forall>x\<in>set (gr_nodes g). gn_id x = gn_id m \<longrightarrow> gn_updated_at x \<le> ms_max_updated s)"
  shows "node_at (gr_nodes (foldl (\<lambda>a b. merge sha (Some a) (Some b)) (ms_graph s') gs)) (gn_id m) = Some m"
proof -
  have "ms_max_updated s < gn_updated_at m" and at: "node_at (gr_nodes (ms_graph s')) (gn_id m) = Some m"
    using add_node_lookup [OF assms(1-3)] by auto
  have "service_ok sha s'" using add_node_ok [OF assms(1,2)] assms(3) by simp
  then have "wf_graph (ms_graph s')" by (simp add: service_ok_def)
  then have "wf_graph g \<Longrightarrow> node_at (gr_nodes g) (gn_id m) = Some m \<Longrightarrow>
      node_at (gr_nodes (foldl (\<lambda>a b. merge sha (Some a) (Some b)) g gs)) (gn_id m) = Some m" for g
    using assms(4)
  proof (induction gs arbitrary: g)
    case (Cons h hs)
    have "\<not> node_wins sha x m" if "node_at (gr_nodes h) (gn_id m) = Some x" for x
      using Cons.prems(4) node_at_Some [OF that] \<open>ms_max_updated s < gn_updated_at m\<close> by (fastforce simp: node_wins_def)
    then have "node_at (gr_nodes (merge sha (Some g) (Some h))) (gn_id m) = Some m"
      using Cons.prems merge_nodes [of "Some g" "Some h" sha "gn_id m"]
      by (auto simp: nodes_of_def wf_graph_def later_def split: option.split)
    with Cons show ?case by (simp add: merge_wf)
  qed simp
  with at \<open>wf_graph (ms_graph s')\<close> show ?thesis by simp
qed

text \<open>Operations that come from this daemon or its authenticated callers, and not from a merged graph.\<close>

fun local_op :: "memory_op \<Rightarrow> bool" where
  "local_op (WriteNode rand origin n now) = True"
| "local_op (WriteEdge origin e now) = True"
| "local_op (SystemEvent rand kind subject qualifier title now) = True"
| "local_op _ = False"

fun op_origin :: "memory_service \<Rightarrow> memory_op \<Rightarrow> member_id" where
  "op_origin s (WriteNode rand origin n now) = origin"
| "op_origin s (SystemEvent rand kind subject qualifier title now) = ms_self_id s"
| "op_origin s _ = []"

definition kept_node :: "gnode \<Rightarrow> gnode \<Rightarrow> bool" where
  "kept_node n n' \<longleftrightarrow> gn_provenance n' = gn_provenance n \<and> gn_updated_at n \<le> gn_updated_at n'"

lemma refused_graph: "refused s s' \<Longrightarrow> ms_graph s' = ms_graph s \<and> ms_self_id s' = ms_self_id s"
  by (auto simp: refused_def)

definition attributed :: "memory_service \<Rightarrow> memory_service \<Rightarrow> string \<Rightarrow> member_id \<Rightarrow> bool" where
  "attributed s s' i origin \<longleftrightarrow>
     (case node_at (gr_nodes (ms_graph s')) i of
        None \<Rightarrow> node_at (gr_nodes (ms_graph s)) i = None
      | Some x' \<Rightarrow> (case node_at (gr_nodes (ms_graph s)) i of None \<Rightarrow> pv_author (gn_provenance x') = origin | Some x \<Rightarrow> kept_node x x'))"

lemma kept_write:
  assumes "service_ok sha s" "op_ok s (WriteNode rand origin n now)"
  shows "attributed s (fst (add_or_update_node sha rand s origin n now)) i origin"
proof -
  obtain s' r where a: "add_or_update_node sha rand s origin n now = (s', r)" by force
  note L = add_node_lookup [OF assms a]
  show ?thesis
  proof (cases r)
    case (Inl e)
    with L a show ?thesis by (auto simp: attributed_def kept_node_def dest: refused_graph split: option.split)
  next
    case (Inr m)
    then have upd: "node_at (gr_nodes (ms_graph s')) = (node_at (gr_nodes (ms_graph s)))(gn_id m \<mapsto> m)" and new: "ms_max_updated s < gn_updated_at m"
      and prov: "case node_at (gr_nodes (ms_graph s)) (gn_id m) of
        None \<Rightarrow> pv_author (gn_provenance m) = origin | Some old \<Rightarrow> gn_provenance m = gn_provenance old"
      using L by (auto split: option.splits)
    have "gn_updated_at x < gn_updated_at m" if "node_at (gr_nodes (ms_graph s)) j = Some x" for x j
      using new node_at_Some [OF that] assms(1) by (fastforce simp: service_ok_def)
    with a upd prov show ?thesis by (auto simp: attributed_def kept_node_def less_imp_le split: option.splits)
  qed
qed

lemma kept_trans: "kept_node x y \<Longrightarrow> kept_node y z \<Longrightarrow> kept_node x z"
  by (auto simp: kept_node_def)

lemma local_op_kept:
  assumes "service_ok sha s" "op_ok s op" "local_op op"
  shows "attributed s (memory_exec sha s op) i (op_origin s op)"
proof (cases op)
  case (WriteNode rand origin n now)
  show ?thesis
    using kept_write [OF assms(1), of rand origin n now i] assms(2) unfolding WriteNode by simp
next
  case (SystemEvent rand kind subject qualifier title now)
  show ?thesis
    using kept_write [OF assms(1), of rand "ms_self_id s" _ now i] event_id_not_Nil unfolding SystemEvent
    by (simp add: system_event_node)
next
  case (WriteEdge origin e now)
  obtain s' r where a: "add_edge sha s origin e now = (s', r)" by force
  have "gr_nodes (ms_graph s') = gr_nodes (ms_graph s)"
    using add_edge_cases [OF a] assms(1) by (auto simp: service_ok_def)
  with a show ?thesis unfolding WriteEdge by (simp add: attributed_def kept_node_def split: option.split)
qed (use assms(3) in auto)

lemma local_op_self:
  assumes "service_ok sha s" "local_op op"
  shows "ms_self_id (memory_exec sha s op) = ms_self_id s"
proof -
  have w: "mm_writable (ms_store s)" using assms(1) by (simp add: service_ok_def)
  have node: "ms_self_id (fst (add_or_update_node sha rand s origin n now)) = ms_self_id s" for rand origin n now
  proof -
    obtain s' r where a: "add_or_update_node sha rand s origin n now = (s', r)" by force
    from a w show ?thesis by (cases rule: add_node_cases) (use a in \<open>auto simp: wrote_def dest: refused_graph\<close>)
  qed
  have edge: "ms_self_id (fst (add_edge sha s origin e now)) = ms_self_id s" for origin e now
  proof -
    obtain s' r where a: "add_edge sha s origin e now = (s', r)" by force
    from add_edge_cases [OF a w] a show ?thesis by auto
  qed
  show ?thesis using assms(2) node edge by (cases op) (auto simp: system_event_node)
qed

lemma local_run_attributed:
  assumes "service_ok sha s" "run_ok sha s ops" "\<forall>op\<in>set ops. local_op op"
  shows "(\<exists>op\<in>set ops. attributed s (memory_run sha s ops) i (op_origin s op)) \<or>
    node_at (gr_nodes (ms_graph (memory_run sha s ops))) i = node_at (gr_nodes (ms_graph s)) i"
  using assms
proof (induction ops arbitrary: s)
  case (Cons op ops)
  let ?s = "memory_exec sha s op"
  have step: "attributed s ?s i (op_origin s op)" using local_op_kept Cons.prems by simp
  have same: "op_origin ?s op' = op_origin s op'" for op'
    using local_op_self [OF Cons.prems(1)] Cons.prems(3) by (cases op') auto
  have "service_ok sha ?s" using memory_exec_ok Cons.prems by simp
  with Cons.IH [of ?s] Cons.prems consider
      op' where "op' \<in> set ops" "attributed ?s (memory_run sha ?s ops) i (op_origin s op')"
    | "node_at (gr_nodes (ms_graph (memory_run sha ?s ops))) i = node_at (gr_nodes (ms_graph ?s)) i"
    unfolding same by auto
  then show ?case
  proof cases
    case (1 op')
    with step have "attributed s (memory_run sha ?s ops) i (op_origin s op') \<or> attributed s (memory_run sha ?s ops) i (op_origin s op)"
      by (auto simp: attributed_def kept_node_def split: option.splits)
    with 1(1) show ?thesis by auto
  next
    case 2
    with step show ?thesis by (auto simp: attributed_def)
  qed
qed simp

text \<open>Provenance is immutable and authors are authenticated. Through any sequence of local operations (node writes,
  edge writes, system events; not merges of received graphs) a node that is in the graph stays there with the
  author, source and creation time it has, and never becomes older; a node that was not there has as author the
  authenticated origin of one of the operations.\<close>

theorem provenance_immutable:
  assumes "service_ok sha s" "run_ok sha s ops" "\<forall>op\<in>set ops. local_op op"
  shows "(\<forall>x. node_at (gr_nodes (ms_graph s)) i = Some x \<longrightarrow>
      (\<exists>x'. node_at (gr_nodes (ms_graph (memory_run sha s ops))) i = Some x' \<and>
        gn_provenance x' = gn_provenance x \<and> gn_updated_at x \<le> gn_updated_at x')) \<and>
    (\<forall>x'. node_at (gr_nodes (ms_graph s)) i = None \<and> node_at (gr_nodes (ms_graph (memory_run sha s ops))) i = Some x' \<longrightarrow>
      (\<exists>op\<in>set ops. pv_author (gn_provenance x') = op_origin s op))"
  using local_run_attributed [OF assms, of i] by (auto simp: attributed_def kept_node_def split: option.splits)

text \<open>A poisoned clock blocks every node write. Once the graph holds a node stamped with the last instant JSON can
  write, which any member can gossip, every later node write on the daemon is refused, whatever its content, and the
  graph, digest and file stay as they are: the next stamp lies in the year 10000 and cannot be encoded.\<close>

theorem poisoned_clock_blocks_writes:
  assumes "service_ok sha s" "x \<in> set (gr_nodes (ms_graph s))" "gn_updated_at x = last_instant"
    and "add_or_update_node sha rand s origin n now = (s', r)"
  shows "(\<exists>e. r = Inl e) \<and> ms_graph s' = ms_graph s \<and> ms_digest s' = ms_digest s \<and> ms_store s' = ms_store s"
proof -
  have w: "mm_writable (ms_store s)" and late: "last_instant \<le> ms_max_updated s"
    using assms(1-3) by (auto simp: service_ok_def)
  have never: "\<not> (marshal_graph (with_nodes (ms_graph s) ns) \<noteq> None)" if "m \<in> set ns" "ms_max_updated s < gn_updated_at m" for m ns
  proof
    assume "marshal_graph (with_nodes (ms_graph s) ns) \<noteq> None"
    then have "encodable (Some (with_nodes (ms_graph s) ns))" by (simp only: marshal_iff)
    with that(1) have "json_time_ok (gn_updated_at m)" by (simp add: encodable_def nodes_of_def node_encodable_def)
    then have "gn_updated_at m \<le> last_instant" by (rule json_time_ok_last)
    with that(2) late show False by linarith
  qed
  from assms(4) w show ?thesis
  proof (cases rule: add_node_cases)
    case (refused e)
    then show ?thesis by (auto simp: refused_def)
  next
    case (created m)
    with never [of m "gr_nodes (ms_graph s) @ [m]"] show ?thesis by (simp add: created_def)
  next
    case (updated m k)
    with never [of m "(gr_nodes (ms_graph s))[k := m]"] show ?thesis
      by (simp add: updated_def set_update_memI)
  qed
qed

lemma update_existing:
  assumes "service_ok sha s" "gn_id n \<in> gn_id ` set (gr_nodes (ms_graph s))" "now \<le> ms_max_updated s"
    and "add_or_update_node sha rand s origin n now = (s', Inr m)"
  shows "\<exists>old. node_at (gr_nodes (ms_graph s)) (gn_id n) = Some old \<and> gn_id m = gn_id n \<and> gn_rev m = gn_rev old + 1 \<and>
    gn_updated_at m = ms_max_updated s + 1 \<and> gn_title m = gn_title n \<and> gn_body m = gn_body n \<and>
    node_at (gr_nodes (ms_graph s')) = (node_at (gr_nodes (ms_graph s)))(gn_id n \<mapsto> m) \<and>
    gr_edges (ms_graph s') = gr_edges (ms_graph s) \<and> ms_digest s' = digest sha (Some (ms_graph s')) \<and> wf_graph (ms_graph s')"
proof -
  have w: "mm_writable (ms_store s)" and wf: "distinct (map gn_id (gr_nodes (ms_graph s)))"
    and we: "distinct (map edge_key (gr_edges (ms_graph s)))"
    using assms(1) by (simp_all add: service_ok_def wf_graph_def)
  from assms(4) w show ?thesis
  proof (cases rule: add_node_cases)
    case (created m)
    with assms(2) show ?thesis by simp
  next
    case (updated m' k)
    then have m: "m' = m" by simp
    have id: "gn_id m = gn_id (gr_nodes (ms_graph s) ! k)" using updated(2) m by (simp add: updated_def)
    have old: "node_at (gr_nodes (ms_graph s)) (gn_id n) = Some (gr_nodes (ms_graph s) ! k)"
      using updated(6,7) node_at_in [OF wf, of "gr_nodes (ms_graph s) ! k"] by simp
    have graph: "ms_graph s' = with_nodes (ms_graph s) ((gr_nodes (ms_graph s))[k := m])" "ms_digest s' = digest sha (Some (ms_graph s'))"
      using updated(5) m by (simp_all add: wrote_def)
    have at: "node_at (gr_nodes (ms_graph s')) = (node_at (gr_nodes (ms_graph s)))(gn_id n \<mapsto> m)"
      using node_at_update [OF updated(6) id wf] id updated(7) by (auto simp: graph fun_eq_iff)
    have "map gn_id ((gr_nodes (ms_graph s))[k := m]) = map gn_id (gr_nodes (ms_graph s))"
      using updated(6) id by (simp add: map_update) (metis list_update_id nth_map)
    then have "wf_graph (ms_graph s')" using wf we by (simp add: graph wf_graph_def)
    with old at graph show ?thesis
      using updated(2,7) m assms(3) id by (auto simp: updated_def same_content_def default_status_def)
  qed simp
qed

text \<open>Edits stamped alike are never reconciled. When two daemons with the same graph and high-water mark each update
  the same node while their clocks are not past that mark, both edits get the same revision and instant, so the two
  digests agree although the contents may differ, and a sync in either direction changes nothing.\<close>

theorem same_stamp_never_reconciled:
  assumes "service_ok sha a" "service_ok sha b" "ms_graph a = ms_graph b" "ms_max_updated a = ms_max_updated b"
    and "gn_id n \<in> gn_id ` set (gr_nodes (ms_graph a))" "gn_id n' = gn_id n"
    and "now \<le> ms_max_updated a" "now' \<le> ms_max_updated b"
    and "add_or_update_node sha rand a oa n now = (a', Inr m)" "add_or_update_node sha rand' b ob n' now' = (b', Inr m')"
  shows "ms_digest a' = ms_digest b' \<and> apply_remote sha a' (Some (ms_graph b')) from = (a', False, None) \<and>
    node_at (gr_nodes (ms_graph a')) (gn_id n) = Some m \<and> node_at (gr_nodes (ms_graph b')) (gn_id n) = Some m' \<and>
    gn_title m = gn_title n \<and> gn_title m' = gn_title n' \<and> gn_body m = gn_body n \<and> gn_body m' = gn_body n'"
proof -
  obtain old where A: "node_at (gr_nodes (ms_graph a)) (gn_id n) = Some old" "gn_id m = gn_id n" "gn_rev m = gn_rev old + 1"
      "gn_updated_at m = ms_max_updated a + 1" "gn_title m = gn_title n" "gn_body m = gn_body n"
      "node_at (gr_nodes (ms_graph a')) = (node_at (gr_nodes (ms_graph a)))(gn_id n \<mapsto> m)"
      "gr_edges (ms_graph a') = gr_edges (ms_graph a)" "ms_digest a' = digest sha (Some (ms_graph a'))" "wf_graph (ms_graph a')"
    using update_existing [OF assms(1,5,7,9)] by blast
  have "gn_id n' \<in> gn_id ` set (gr_nodes (ms_graph b))" using assms(3,5,6) by simp
  from update_existing [OF assms(2) this assms(8,10)] A(1)
  have B: "gn_id m' = gn_id n" "gn_rev m' = gn_rev old + 1" "gn_updated_at m' = ms_max_updated b + 1" "gn_title m' = gn_title n'" "gn_body m' = gn_body n'"
      "node_at (gr_nodes (ms_graph b')) = (node_at (gr_nodes (ms_graph a)))(gn_id n \<mapsto> m')"
      "gr_edges (ms_graph b') = gr_edges (ms_graph a)" "ms_digest b' = digest sha (Some (ms_graph b'))" "wf_graph (ms_graph b')"
    unfolding assms(3) [symmetric] assms(6) by auto
  have line: "node_line m' = node_line m" by (simp add: node_line_def A(2-4) B(1-3) assms(4))
  have "digest sha (Some (ms_graph b')) = digest sha (Some (ms_graph a'))"
    by (rule digest_cong [OF B(9) A(10)]) (simp_all add: A(7,8) B(6,7) line)
  moreover
  let ?g = "merge sha (Some (ms_graph a')) (Some (ms_graph b'))"
  have "digest sha (Some ?g) = digest sha (Some (ms_graph a'))"
  proof (intro digest_cong merge_wf A(10) allI)
    fix i
    show "map_option node_line (node_at (gr_nodes ?g) i) = map_option node_line (node_at (gr_nodes (ms_graph a')) i)"
      using A(10) B(9) merge_nodes [of "Some (ms_graph a')" "Some (ms_graph b')" sha i]
      by (auto simp: wf_graph_def nodes_of_def A(7) B(6) later_def line split: option.split)
  qed (simp add: merge_edge_keys edges_of_def A(8) B(7))
  ultimately show ?thesis
    using A B by (simp add: apply_remote_def merge_in_def)
qed

section \<open>Samples\<close>

text \<open>An empty service, and one node written to it and updated.\<close>

definition idle_service :: "graph \<Rightarrow> memory_service" where
  "idle_service g =
     \<lparr>ms_store = \<lparr>mm_file = Some g, mm_readable = True, mm_writable = True\<rparr>, ms_self_id = ''m'', ms_clan_id = ''c'', ms_audit = [],
      ms_graph = g, ms_digest = digest (\<lambda>x. x) (Some g), ms_max_updated = max_updated_of zero_time (gr_nodes g)\<rparr>"

definition memo :: "string \<Rightarrow> time \<Rightarrow> u64 \<Rightarrow> gnode" where
  "memo body t v =
     \<lparr>gn_id = ''x'', gn_type = ''fact'', gn_title = ''t'', gn_body = body, gn_tags = [], gn_status = ''active'', gn_session_id = [],
      gn_provenance = \<lparr>pv_author = ''m'', pv_source = ''manual'', pv_created_at = 1\<rparr>, gn_updated_at = t, gn_rev = v\<rparr>"

lemma last_time: "json_time_ok last_instant"
  by (simp add: json_time_ok_def last_instant_def epoch_days_def year_of_def days_before_def)

lemma early_time: "0 \<le> t \<Longrightarrow> t < second \<Longrightarrow> json_time_ok t"
  by (simp add: json_time_ok_def epoch_days_def year_of_def days_before_def div_pos_pos_trivial)

lemma memo_fits:
  assumes "0 \<le> t" "t < second" "list_all plain_char body" "length body < 1000" "unat v < 10" "gr_format_version (ms_graph s) = 1"
  shows "check_size s [memo body t v] [] = None"
proof -
  have "length (rfc3339_nano 1) \<le> 30" "length (rfc3339_nano t) \<le> 30"
    using assms(1,2) by (simp_all add: length_rfc3339 early_time)
  moreover have "dec_nat (unat v) = [digit_char (unat v)]" using assms(5) by (simp add: dec_nat.simps)
  moreover have "dec_int 1 = ''1''" by (simp add: dec_int_def dec_nat.simps digit_chars)
  ultimately show ?thesis
    using assms by (simp add: check_size_def marshal_graph_def node_encodable_def early_time memo_def graph_json_def json_list_def
        canonical_node_bytes_def json_obj_def json_member_def json_time_def json_string_plain plain_char_def byte_def max_serialized_bytes_def)
qed

lemma memo_valid: "length body < 1000 \<Longrightarrow> validate_node (memo body t v) = None"
proof -
  assume "length body < 1000"
  moreover have "pieces ''t'' = [''t'']" "runes ''t'' = [''t'']"
    using pieces_ascii [of "''t''"] runes_ascii [of "''t''"] by (simp_all add: byte_def del: pieces.simps runes.simps)
  then have "trim ''t'' = ''t''" "rune_count ''t'' = 1"
    by (simp_all add: trim_def rune_count_def space_rune_def byte_def)
  ultimately show ?thesis
    by (simp add: validate_node_def memo_def node_types_def node_statuses_def provenance_sources_def
        max_title_chars_def max_body_bytes_def max_tags_def)
qed

definition one_memo :: "gnode \<Rightarrow> graph" where
  "one_memo n = \<lparr>gr_format_version = 1, gr_nodes = [n], gr_edges = []\<rparr>"

lemma idle_service_ok:
  assumes "json_time_ok t"
  shows "service_ok (\<lambda>x. x) (idle_service (one_memo (memo body t v)))"
  using assms max_updated_of_upper [of zero_time "[memo body t v]"] early_time [of 1]
  by (simp add: service_ok_def idle_service_def one_memo_def wf_graph_def encodable_def nodes_of_def edges_of_def
      node_encodable_def memo_def)

lemma idle_update:
  assumes "list_all plain_char body" "length body < 1000"
  shows "\<exists>s'. add_or_update_node (\<lambda>x. x) None (idle_service (one_memo (memo ''one'' 1 1))) ''m'' (memo body 0 0) 0 = (s', Inr (memo body 2 2))"
proof -
  let ?s = "idle_service (one_memo (memo ''one'' 1 1))"
  have d: "default_status (memo body 0 0) = memo body 0 0" "gn_id (memo b t v) = ''x''" for b t v
    by (simp_all add: default_status_def memo_def)
  have n: "(memo body 0 0)\<lparr>gn_id := ''x'', gn_provenance := gn_provenance (memo ''one'' 1 1), gn_rev := gn_rev (memo ''one'' 1 1) + 1, gn_updated_at := 2\<rparr>
      = memo body 2 2" by (simp add: memo_def)
  have m: "ms_max_updated ?s = 1" "gr_nodes (ms_graph ?s) = [memo ''one'' 1 1]" "gr_edges (ms_graph ?s) = []" "mm_writable (ms_store ?s)"
      "gr_format_version (ms_graph ?s) = 1"
    by (simp_all add: idle_service_def one_memo_def max_updated_of_def zero_time_def memo_def)
  have c: "check_size (?s\<lparr>ms_max_updated := 2\<rparr>) [memo body 2 2] [] = None"
    using assms by (intro memo_fits) (simp_all add: m)
  show ?thesis
    using c commit_nodes_writable [of "?s\<lparr>ms_max_updated := 2\<rparr>" "\<lambda>x. x" "''m''" "[memo body 2 2]" "memo body 2 2"]
    by (simp add: add_or_update_node_def update_node_def Let_def stamp_simps m d n memo_valid assms(2))
qed

theorem memory_service_invariant_witness:
  "let st = \<lparr>mm_file = None, mm_readable = True, mm_writable = True\<rparr>;
       s = the (new_memory_service (\<lambda>x. x) (Some st) ''m'' ''c'');
       s' = memory_run (\<lambda>x. x) s [WriteNode None ''m'' (memo ''one'' 0 0) 1, SystemEvent None ''k'' ''s'' [] ''t'' 2]
   in ms_digest s' = digest (\<lambda>x. x) (Some (ms_graph s')) \<and> distinct (map gn_id (gr_nodes (ms_graph s')))"
proof -
  let ?st = "\<lparr>mm_file = None, mm_readable = True, mm_writable = True\<rparr> :: memory_store"
  let ?ops = "[WriteNode None ''m'' (memo ''one'' 0 0) 1, SystemEvent None ''k'' ''s'' [] ''t'' 2]"
  obtain s where s: "new_memory_service (\<lambda>x. x) (Some ?st) ''m'' ''c'' = Some s"
    by (simp add: new_memory_service_def load_memory_def)
  have "run_ok (\<lambda>x. x) s ?ops" by simp
  from memory_service_invariant [OF s _ _ this] s show ?thesis by (simp add: Let_def)
qed

theorem node_write_effect_witness:
  "\<exists>s'. add_or_update_node (\<lambda>x. x) None (idle_service (one_memo (memo ''one'' 1 1))) ''m'' (memo ''two'' 0 0) 0 = (s', Inr (memo ''two'' 2 2)) \<and>
    node_at (gr_nodes (ms_graph s')) ''x'' = Some (memo ''two'' 2 2)"
proof -
  obtain s' where s': "add_or_update_node (\<lambda>x. x) None (idle_service (one_memo (memo ''one'' 1 1))) ''m'' (memo ''two'' 0 0) 0 = (s', Inr (memo ''two'' 2 2))"
    using idle_update [of "''two''"] by (auto simp: plain_char_def byte_def)
  have "op_ok (idle_service (one_memo (memo ''one'' 1 1))) (WriteNode None ''m'' (memo ''two'' 0 0) 0)" by simp
  from node_write_effect [OF idle_service_ok [OF early_time] this s'] s' show ?thesis by (simp add: memo_def)
qed

theorem write_survives_gossip_witness:
  "\<exists>s'. add_or_update_node (\<lambda>x. x) None (idle_service (one_memo (memo ''one'' 1 1))) ''m'' (memo ''two'' 0 0) 0 = (s', Inr (memo ''two'' 2 2)) \<and>
    node_at (gr_nodes (merge (\<lambda>x. x) (Some (ms_graph s')) (Some (one_memo (memo ''other'' 1 7))))) ''x'' = Some (memo ''two'' 2 2)"
proof -
  obtain s' where s': "add_or_update_node (\<lambda>x. x) None (idle_service (one_memo (memo ''one'' 1 1))) ''m'' (memo ''two'' 0 0) 0 = (s', Inr (memo ''two'' 2 2))"
    using idle_update [of "''two''"] by (auto simp: plain_char_def byte_def)
  have "op_ok (idle_service (one_memo (memo ''one'' 1 1))) (WriteNode None ''m'' (memo ''two'' 0 0) 0)" by simp
  from write_survives_gossip [OF idle_service_ok [OF early_time] this s', of "[one_memo (memo ''other'' 1 7)]"] s' show ?thesis
    by (simp add: memo_def one_memo_def wf_graph_def idle_service_def max_updated_of_def zero_time_def)
qed

theorem provenance_immutable_witness:
  "\<exists>x'. node_at (gr_nodes (ms_graph (memory_run (\<lambda>x. x) (idle_service (one_memo (memo ''one'' 1 1)))
      [WriteNode None ''eve'' (memo ''two'' 0 0) 5]))) ''x'' = Some x' \<and> pv_author (gn_provenance x') = ''m''"
  using provenance_immutable [of "\<lambda>x. x" "idle_service (one_memo (memo ''one'' 1 1))" "[WriteNode None ''eve'' (memo ''two'' 0 0) 5]" "''x''"]
    idle_service_ok [OF early_time, of 1 "''one''" 1]
  by (auto simp: idle_service_def one_memo_def memo_def)

theorem poisoned_clock_blocks_writes_witness:
  "\<exists>e. snd (add_or_update_node (\<lambda>x. x) None (idle_service (one_memo (memo ''one'' last_instant 1))) ''m'' (memo ''two'' 0 0) 5) = Inl e"
proof -
  let ?s = "idle_service (one_memo (memo ''one'' last_instant 1))"
  obtain s' r where "add_or_update_node (\<lambda>x. x) None ?s ''m'' (memo ''two'' 0 0) 5 = (s', r)" by force
  with poisoned_clock_blocks_writes [OF idle_service_ok [OF last_time], of "memo ''one'' last_instant 1" "''one''" 1 None "''m''" "memo ''two'' 0 0" 5]
  show ?thesis by (simp add: idle_service_def one_memo_def memo_def)
qed

theorem same_stamp_never_reconciled_witness:
  "\<exists>a' b'. add_or_update_node (\<lambda>x. x) None (idle_service (one_memo (memo ''one'' 1 1))) ''m'' (memo ''two'' 0 0) 0 = (a', Inr (memo ''two'' 2 2)) \<and>
    add_or_update_node (\<lambda>x. x) None (idle_service (one_memo (memo ''one'' 1 1))) ''m'' (memo ''three'' 0 0) 0 = (b', Inr (memo ''three'' 2 2)) \<and>
    ms_graph a' \<noteq> ms_graph b' \<and> ms_digest a' = ms_digest b' \<and> apply_remote (\<lambda>x. x) a' (Some (ms_graph b')) ''b'' = (a', False, None)"
proof -
  let ?s = "idle_service (one_memo (memo ''one'' 1 1))"
  obtain a' where a: "add_or_update_node (\<lambda>x. x) None ?s ''m'' (memo ''two'' 0 0) 0 = (a', Inr (memo ''two'' 2 2))"
    using idle_update [of "''two''"] by (auto simp: plain_char_def byte_def)
  obtain b' where b: "add_or_update_node (\<lambda>x. x) None ?s ''m'' (memo ''three'' 0 0) 0 = (b', Inr (memo ''three'' 2 2))"
    using idle_update [of "''three''"] by (auto simp: plain_char_def byte_def)
  have id: "gn_id (memo c t v) = ''x''" "gr_nodes (ms_graph ?s) = [memo ''one'' 1 1]" "ms_max_updated ?s = 1" for c t v
    by (simp_all add: idle_service_def one_memo_def max_updated_of_def zero_time_def memo_def)
  have ok: "service_ok (\<lambda>x. x) ?s" by (rule idle_service_ok [OF early_time]) simp_all
  have H: "ms_digest a' = ms_digest b' \<and> apply_remote (\<lambda>x. x) a' (Some (ms_graph b')) ''b'' = (a', False, None) \<and>
    node_at (gr_nodes (ms_graph a')) (gn_id (memo ''two'' 0 0)) = Some (memo ''two'' 2 2) \<and>
    node_at (gr_nodes (ms_graph b')) (gn_id (memo ''two'' 0 0)) = Some (memo ''three'' 2 2) \<and>
    gn_title (memo ''two'' 2 2) = gn_title (memo ''two'' 0 0) \<and> gn_title (memo ''three'' 2 2) = gn_title (memo ''three'' 0 0) \<and>
    gn_body (memo ''two'' 2 2) = gn_body (memo ''two'' 0 0) \<and> gn_body (memo ''three'' 2 2) = gn_body (memo ''three'' 0 0)"
    by (rule same_stamp_never_reconciled [OF ok ok refl refl _ _ _ _ a b]) (simp_all add: id)
  moreover have "memo ''two'' 2 2 \<noteq> memo ''three'' 2 2" by (simp add: memo_def)
  ultimately have "ms_graph a' \<noteq> ms_graph b'" by auto
  with a b H show ?thesis by blast
qed

end
