(* ===== verification/Blueprint.thy ===== *)
theory Blueprint
  imports MemoryProps
begin

text \<open>
  \<open>cland/internal/memory/blueprint.go\<close> and \<open>handlers.go\<close>: the exported blueprint of a graph with its session
  filter, pseudonyms and checksum, its validation, and the HTTP handlers of the memory. Whether a request comes
  from this machine (\<open>requestFromSelf\<close>) is a parameter; a body that does not decode is \<open>None\<close>.
\<close>

section \<open>Export\<close>

definition blueprint_kind :: string where "blueprint_kind = ''minti-clan-blueprint''"
definition blueprint_format_version :: int where "blueprint_format_version = 1"

record blueprint_stats =
  bs_nodes :: nat
  bs_edges :: nat
  bs_proposed :: nat
  bs_archived :: nat

record blueprint =
  bp_kind :: string
  bp_format_version :: int
  bp_exported_at :: time
  bp_source_clan :: string
  bp_session_filter :: string
  bp_stats :: blueprint_stats
  bp_graph :: "graph option"
  bp_signature :: string
  bp_checksum :: string

datatype blueprint_error =
  NilExport | SessionNotFound | MarshalPanic | NilBlueprint | BadKind | NewerVersion | InvalidVersion | NoGraph | ChecksumMismatch

definition compute_stats :: "graph \<Rightarrow> blueprint_stats" where
  "compute_stats g =
     \<lparr>bs_nodes = length (gr_nodes g), bs_edges = length (gr_edges g),
      bs_proposed = length (filter (\<lambda>n. gn_status n = ''proposed'') (gr_nodes g)),
      bs_archived = length (filter (\<lambda>n. gn_status n = ''archived'') (gr_nodes g))\<rparr>"

definition blueprint_json :: "blueprint \<Rightarrow> bytes" where
  "blueprint_json b = json_obj
     [json_member ''kind'' (json_string (bp_kind b)),
      json_member ''format_version'' (dec_int (bp_format_version b)),
      json_member ''exported_at'' (json_time (bp_exported_at b)),
      json_member ''source_clan'' (json_string (bp_source_clan b)),
      json_member ''session_filter'' (json_string (bp_session_filter b)),
      json_member ''stats'' (json_obj
        [json_member ''nodes'' (dec_nat (bs_nodes (bp_stats b))),
         json_member ''edges'' (dec_nat (bs_edges (bp_stats b))),
         json_member ''proposed'' (dec_nat (bs_proposed (bp_stats b))),
         json_member ''archived'' (dec_nat (bs_archived (bp_stats b)))]),
      json_member ''graph'' (case bp_graph b of None \<Rightarrow> ''null'' | Some g \<Rightarrow> graph_json g),
      json_member ''signature'' (json_string (bp_signature b)),
      json_member ''checksum_sha256'' (json_string (bp_checksum b))]"

text \<open>\<open>BlueprintChecksum\<close>; it panics (\<open>None\<close>) when an instant cannot be encoded.\<close>

definition blueprint_checksum :: "(bytes \<Rightarrow> bytes) \<Rightarrow> blueprint \<Rightarrow> string option" where
  "blueprint_checksum sha b =
     (if json_time_ok (bp_exported_at b) \<and> (case bp_graph b of None \<Rightarrow> True | Some g \<Rightarrow> marshal_graph g \<noteq> None)
      then Some (hex_encode (sha (blueprint_json (b\<lparr>bp_checksum := []\<rparr>)))) else None)"

definition filter_session :: "string \<Rightarrow> graph \<Rightarrow> graph" where
  "filter_session f g =
     (let keep = map gn_id (filter (\<lambda>n. gn_id n = f \<or> gn_session_id n = f) (gr_nodes g)) @
                 map ge_from (filter (\<lambda>e. ge_to e = f \<and> ge_relation e = ''contributes_to'') (gr_edges g))
      in g\<lparr>gr_nodes := filter (\<lambda>n. gn_id n \<in> set keep) (gr_nodes g),
           gr_edges := filter (\<lambda>e. ge_from e \<in> set keep \<and> ge_to e \<in> set keep) (gr_edges g)\<rparr>)"

definition member_ids :: "graph \<Rightarrow> string list" where
  "member_ids g = map gn_id (filter (\<lambda>n. gn_type n = ''member'') (gr_nodes g))"

definition identities :: "graph \<Rightarrow> string list" where
  "identities g = sort (remdups (
     filter (\<lambda>i. i \<noteq> []) (map (\<lambda>n. pv_author (gn_provenance n)) (gr_nodes g)) @
     filter (\<lambda>i. i \<noteq> []) (map ge_created_by (gr_edges g)) @ member_ids g))"

definition pseudonym :: "nat \<Rightarrow> string" where
  "pseudonym i = ''member-'' @ dec_nat (i + 1)"

definition pseudonyms :: "graph \<Rightarrow> string \<Rightarrow> string option" where
  "pseudonyms g = map_of (zip (identities g) (map pseudonym [0..<length (identities g)]))"

definition rename :: "(string \<Rightarrow> string option) \<Rightarrow> string \<Rightarrow> string" where
  "rename m i = (case m i of Some p \<Rightarrow> p | None \<Rightarrow> i)"

text \<open>\<open>mapping[id]\<close> of a member id; the mapping holds them all, so the zero value is never read.\<close>

definition rename_member :: "graph \<Rightarrow> string \<Rightarrow> string" where
  "rename_member g i = (if i \<in> set (member_ids g) then (case pseudonyms g i of Some p \<Rightarrow> p | None \<Rightarrow> []) else i)"

definition strip_authors :: "graph \<Rightarrow> graph" where
  "strip_authors g =
     g\<lparr>gr_nodes := map (\<lambda>n. n\<lparr>gn_provenance := (gn_provenance n)\<lparr>pv_author := rename (pseudonyms g) (pv_author (gn_provenance n))\<rparr>,
                              gn_id := rename_member g (gn_id n)\<rparr>) (gr_nodes g),
       gr_edges := map (\<lambda>e. e\<lparr>ge_created_by := rename (pseudonyms g) (ge_created_by e),
                              ge_from := rename_member g (ge_from e), ge_to := rename_member g (ge_to e)\<rparr>) (gr_edges g)\<rparr>"

definition export_blueprint ::
  "(bytes \<Rightarrow> bytes) \<Rightarrow> graph option \<Rightarrow> string \<Rightarrow> string \<Rightarrow> bool \<Rightarrow> time \<Rightarrow> blueprint_error + blueprint" where
  "export_blueprint sha g clan_id session_filter strip now =
     (case g of
        None \<Rightarrow> Inl NilExport
      | Some g0 \<Rightarrow>
          let g1 = merge sha (Some g0) None
          in if session_filter \<noteq> [] \<and> session_filter \<notin> gn_id ` set (gr_nodes g1) then Inl SessionNotFound
             else
               let g2 = (if session_filter \<noteq> [] then filter_session session_filter g1 else g1);
                   g3 = (if strip then strip_authors g2 else g2);
                   b = \<lparr>bp_kind = blueprint_kind, bp_format_version = blueprint_format_version, bp_exported_at = now,
                        bp_source_clan = ''sha256:'' @ hex_encode (sha clan_id), bp_session_filter = session_filter,
                        bp_stats = compute_stats g3, bp_graph = Some g3, bp_signature = [], bp_checksum = []\<rparr>
               in (case blueprint_checksum sha b of
                     None \<Rightarrow> Inl MarshalPanic
                   | Some c \<Rightarrow> Inr (b\<lparr>bp_checksum := c\<rparr>)))"

definition validate_blueprint :: "(bytes \<Rightarrow> bytes) \<Rightarrow> blueprint option \<Rightarrow> blueprint_error option" where
  "validate_blueprint sha b =
     (case b of
        None \<Rightarrow> Some NilBlueprint
      | Some b \<Rightarrow>
          if bp_kind b \<noteq> blueprint_kind then Some BadKind
          else if bp_format_version b > blueprint_format_version then Some NewerVersion
          else if bp_format_version b < 1 then Some InvalidVersion
          else if bp_graph b = None then Some NoGraph
          else (case blueprint_checksum sha b of
                  None \<Rightarrow> Some MarshalPanic
                | Some c \<Rightarrow> if c \<noteq> bp_checksum b then Some ChecksumMismatch else None))"

definition imported :: "gnode \<Rightarrow> gnode" where
  "imported n = n\<lparr>gn_provenance := (gn_provenance n)\<lparr>pv_source := ''import''\<rparr>\<rparr>"

definition mark_imported :: "(bytes \<Rightarrow> bytes) \<Rightarrow> graph option \<Rightarrow> graph" where
  "mark_imported sha g = (let g1 = merge sha g None in g1\<lparr>gr_nodes := map imported (gr_nodes g1)\<rparr>)"

section \<open>Handlers\<close>

definition status_for :: "memory_error \<Rightarrow> http_status" where
  "status_for e = (if e = ErrCap then 409 else 400)"

definition handle_get :: "memory_service \<Rightarrow> http_status \<times> bytes option" where
  "handle_get s = (case marshal_graph (ms_graph s) of None \<Rightarrow> (500, None) | Some b \<Rightarrow> (200, Some b))"

definition handle_digest :: "memory_service \<Rightarrow> http_status \<times> string" where
  "handle_digest s = (200, ms_digest s)"

definition handle_node ::
  "(bytes \<Rightarrow> bytes) \<Rightarrow> bytes option \<Rightarrow> time \<Rightarrow> memory_service \<Rightarrow> member_id \<Rightarrow> gnode option
     \<Rightarrow> memory_service \<times> http_status \<times> gnode option" where
  "handle_node sha rand now s origin body =
     (case body of
        None \<Rightarrow> (s, 400, None)
      | Some n \<Rightarrow>
          if origin = [] then (s, 401, None)
          else (case add_or_update_node sha rand s origin n now of
                  (s1, Inl e) \<Rightarrow> (s1, status_for e, None)
                | (s1, Inr stored) \<Rightarrow> (s1, 200, Some stored)))"

definition handle_edge ::
  "(bytes \<Rightarrow> bytes) \<Rightarrow> time \<Rightarrow> memory_service \<Rightarrow> member_id \<Rightarrow> gedge option \<Rightarrow> memory_service \<times> http_status \<times> bool option" where
  "handle_edge sha now s origin body =
     (case body of
        None \<Rightarrow> (s, 400, None)
      | Some e \<Rightarrow>
          if origin = [] then (s, 401, None)
          else (case add_edge sha s origin e now of
                  (s1, Inl er) \<Rightarrow> (s1, status_for er, None)
                | (s1, Inr added) \<Rightarrow> (s1, 200, Some added)))"

record import_request =
  ir_blueprint :: "blueprint option"
  ir_mode :: string

definition handle_import ::
  "(bytes \<Rightarrow> bytes) \<Rightarrow> bool \<Rightarrow> memory_service \<Rightarrow> member_id \<Rightarrow> import_request option
     \<Rightarrow> memory_service \<times> http_status \<times> (bool \<times> string) option" where
  "handle_import sha from_self s origin body =
     (case body of
        None \<Rightarrow> (s, 400, None)
      | Some req \<Rightarrow>
          if origin = [] then (s, 401, None)
          else if validate_blueprint sha (ir_blueprint req) \<noteq> None then (s, 400, None)
          else if ir_mode req = ''replace'' \<and> \<not> from_self then (s, 403, None)
          else
            let g = (case ir_blueprint req of None \<Rightarrow> None | Some b \<Rightarrow> bp_graph b)
            in (case import_graph sha s (Some (mark_imported sha g)) (ir_mode req) origin of
                  (s1, changed, Some e) \<Rightarrow> (s1, status_for e, None)
                | (s1, changed, None) \<Rightarrow> (s1, 200, Some (changed, ms_digest s1))))"

section \<open>Export and import\<close>

lemma merge_None: "wf_graph g \<Longrightarrow> node_at (gr_nodes (merge sha (Some g) None)) i = node_at (gr_nodes g) i"
  by (simp add: merge_nodes wf_graph_def nodes_of_def later_def split: option.split)

lemma merge_None_edges: "edge_at (gr_edges (merge sha (Some g) None)) k = edge_at (gr_edges g) k"
  by (simp add: merge_edges edges_of_def split: option.split)

lemma imported_simps [simp]:
  "gn_id (imported n) = gn_id n" "node_encodable (imported n) = node_encodable n"
  by (simp_all add: imported_def node_encodable_def)

lemma node_at_imported: "node_at (map imported ns) i = map_option imported (node_at ns i)"
  by (induction ns) auto

lemma mark_imported_wf: "wf_graph (mark_imported sha g)"
  using merge_wf [of sha g None] by (simp add: mark_imported_def Let_def wf_graph_def comp_def)

lemma mark_imported_nodes:
  "wf_graph g \<Longrightarrow> node_at (gr_nodes (mark_imported sha (Some g))) i = map_option imported (node_at (gr_nodes g) i)"
  by (simp add: mark_imported_def Let_def node_at_imported merge_None)

lemma mark_imported_edges: "edge_at (gr_edges (mark_imported sha (Some g))) k = edge_at (gr_edges g) k"
  by (simp add: mark_imported_def Let_def merge_None_edges)

lemma encodable_None [simp]: "encodable None"
  by (simp add: encodable_def nodes_of_def edges_of_def)

lemma mark_imported_encodable: "encodable g \<Longrightarrow> encodable (Some (mark_imported sha g))"
  using merge_encodable [of g None sha] by (auto simp: mark_imported_def Let_def encodable_def nodes_of_def edges_of_def)

text \<open>C25: A blueprint survives export and import. A blueprint exported without filter and without pseudonyms passes
  validation, and importing it with mode replace on any healthy daemon leaves there exactly the exported nodes,
  id by id, with only the provenance source changed to import, and exactly the exported edges.\<close>

theorem blueprint_round_trip:
  assumes "export_blueprint sha (Some g) clan [] False now = Inr b" "wf_graph g" "service_ok sha s"
    and "import_graph sha s (Some (mark_imported sha (bp_graph b))) ''replace'' from = (s', changed, err)"
  shows "validate_blueprint sha (Some b) = None \<and> changed \<and> err = None \<and>
    (\<forall>i. node_at (gr_nodes (ms_graph s')) i = map_option imported (node_at (gr_nodes g) i)) \<and>
    (\<forall>k. edge_at (gr_edges (ms_graph s')) k = edge_at (gr_edges g) k)"
proof -
  let ?g = "merge sha (Some g) None"
  from assms(1) have valid: "validate_blueprint sha (Some b) = None" and graph: "bp_graph b = Some ?g" and m: "marshal_graph ?g \<noteq> None"
    by (auto simp: export_blueprint_def validate_blueprint_def blueprint_checksum_def blueprint_kind_def blueprint_format_version_def
        Let_def split: if_splits)
  let ?h = "merge sha (Some (mark_imported sha (Some ?g))) None"
  have "encodable (Some ?g)" using m by (simp only: marshal_iff)
  then have "encodable (Some ?h)" using mark_imported_encodable merge_encodable encodable_None by blast
  then have h: "marshal_graph ?h \<noteq> None" by (simp only: marshal_iff)
  obtain s1 e1 where r: "replace_graph sha s (Some (mark_imported sha (Some ?g))) from = (s1, e1)" by force
  have w: "mm_writable (ms_store s)" using assms(3) by (simp add: service_ok_def)
  from replace_cases [OF r w h] have "e1 = None" "ms_graph s1 = ?h" by auto
  moreover have "changed" "err = e1" "s' = s1" using assms(4) r graph by (auto simp: import_graph_def)
  ultimately show ?thesis
    using valid assms(2) by (simp add: merge_None mark_imported_wf mark_imported_nodes merge_wf merge_None_edges mark_imported_edges)
qed

section \<open>What requests from other machines can do\<close>

definition keeps :: "(bytes \<Rightarrow> bytes) \<Rightarrow> memory_service \<Rightarrow> memory_service \<Rightarrow> bool" where
  "keeps sha s s' \<longleftrightarrow>
     (\<forall>i x. node_at (gr_nodes (ms_graph s)) i = Some x \<longrightarrow>
        (\<exists>y. node_at (gr_nodes (ms_graph s')) i = Some y \<and> version_of sha x \<le> version_of sha y)) \<and>
     edge_key ` set (gr_edges (ms_graph s)) \<subseteq> edge_key ` set (gr_edges (ms_graph s'))"

lemma keeps_refl [simp]: "keeps sha s s"
  by (auto simp: keeps_def)

lemma keeps_trans:
  assumes "keeps sha s t" "keeps sha t u"
  shows "keeps sha s u"
proof -
  have "\<exists>z. node_at (gr_nodes (ms_graph u)) i = Some z \<and> version_of sha x \<le> version_of sha z"
    if x: "node_at (gr_nodes (ms_graph s)) i = Some x" for i x
  proof -
    obtain y where y: "node_at (gr_nodes (ms_graph t)) i = Some y" "version_of sha x \<le> version_of sha y"
      using assms(1) x unfolding keeps_def by blast
    obtain z where "node_at (gr_nodes (ms_graph u)) i = Some z" "version_of sha y \<le> version_of sha z"
      using assms(2) y(1) unfolding keeps_def by blast
    with y(2) show ?thesis by (blast intro: order_trans)
  qed
  moreover have "edge_key ` set (gr_edges (ms_graph s)) \<subseteq> edge_key ` set (gr_edges (ms_graph u))"
    using assms unfolding keeps_def by (elim conjE) (rule subset_trans)
  ultimately show ?thesis unfolding keeps_def by blast
qed

lemma win_nodes_grow:
  "map_of m i = Some x \<Longrightarrow> \<exists>y. map_of (win_nodes sha m ns) i = Some y \<and> version_of sha x \<le> version_of sha y"
proof (induction ns arbitrary: m x)
  case (Cons n ns)
  obtain m' where m': "win_nodes sha m (n # ns) = win_nodes sha m' ns"
    "m' = m \<or> m' = AList.update (gn_id n) n m \<and> (\<forall>cur. map_of m (gn_id n) = Some cur \<longrightarrow> node_wins sha n cur)"
    by (auto simp: win_nodes_def split: option.split)
  have "\<exists>x'. map_of m' i = Some x' \<and> version_of sha x \<le> version_of sha x'"
    using m'(2) Cons.prems by (cases "i = gn_id n") (auto simp: update_conv' node_wins_iff intro: less_imp_le)
  then show ?case using Cons.IH m'(1) by (metis order_trans)
qed (simp add: win_nodes_def)

lemma merge_keeps:
  assumes "wf_graph g" "node_at (gr_nodes g) i = Some x"
  shows "\<exists>y. node_at (gr_nodes (merge sha (Some g) b)) i = Some y \<and> version_of sha x \<le> version_of sha y"
proof -
  let ?m = "win_nodes sha (put_nodes [] (nodes_of (Some g))) (nodes_of b)"
  have k: "keyed gn_id ?m" by (simp add: win_nodes_keyed put_nodes_keyed)
  have "node_at (sort_key gn_id (map snd ?m)) = node_at (map snd ?m)"
    using keyed_distinct [OF k] by (intro node_at_cong) (simp_all del: map_map)
  then have "node_at (gr_nodes (merge sha (Some g) b)) i = map_of ?m i"
    by (simp add: merge_def map_of_node_at [OF k])
  moreover have "map_of (put_nodes [] (nodes_of (Some g))) i = Some x"
    using assms by (simp add: wf_graph_def map_of_put_nodes nodes_of_def)
  ultimately show ?thesis using win_nodes_grow by simp
qed

lemma merge_in_keeps:
  assumes "service_ok sha s" "encodable g"
  shows "keeps sha s (fst (merge_in sha s tool g from))"
proof -
  obtain s' c e where m: "merge_in sha s tool g from = (s', c, e)" by (cases "merge_in sha s tool g from")
  have w: "mm_writable (ms_store s)" and wf: "wf_graph (ms_graph s)" and enc: "encodable (Some (ms_graph s))"
    using assms(1) by (simp_all add: service_ok_def)
  have "marshal_graph (merge sha (Some (ms_graph s)) g) \<noteq> None"
    unfolding marshal_iff using enc assms(2) by (rule merge_encodable)
  from merge_in_cases [OF m w this] m show ?thesis
    using merge_keeps [OF wf] by (auto simp: keeps_def merge_edge_keys edges_of_def)
qed

lemma add_node_keeps:
  assumes "service_ok sha s" "op_ok s (WriteNode rand origin n now)"
  shows "keeps sha s (fst (add_or_update_node sha rand s origin n now))"
proof -
  obtain s' r where a: "add_or_update_node sha rand s origin n now = (s', r)" by force
  note L = add_node_lookup [OF assms a]
  show ?thesis
  proof (cases r)
    case (Inl e)
    with L a show ?thesis by (auto simp: keeps_def dest: refused_graph)
  next
    case (Inr m)
    then have upd: "node_at (gr_nodes (ms_graph s')) = (node_at (gr_nodes (ms_graph s)))(gn_id m \<mapsto> m)"
      and new: "ms_max_updated s < gn_updated_at m" and edges: "gr_edges (ms_graph s') = gr_edges (ms_graph s)"
      using L by auto
    have "version_of sha x \<le> version_of sha m" if "node_at (gr_nodes (ms_graph s)) j = Some x" for x j
      using new node_at_Some [OF that] assms(1)
      by (fastforce simp: service_ok_def version_of_def less_eq_version_def less_version_def)
    with a upd edges show ?thesis by (auto simp: keeps_def)
  qed
qed

lemma add_edge_keeps: "service_ok sha s \<Longrightarrow> keeps sha s (fst (add_edge sha s origin e now))"
proof -
  assume "service_ok sha s"
  then have w: "mm_writable (ms_store s)" by (simp add: service_ok_def)
  obtain s' r where a: "add_edge sha s origin e now = (s', r)" by force
  from add_edge_cases [OF a w] a show ?thesis by (auto simp: keeps_def)
qed

text \<open>The requests other members can make of a daemon: the three handlers that write, and a gossip merge.\<close>

datatype memory_request =
    PostNode "bytes option" time member_id "gnode option"
  | PostEdge time member_id "gedge option"
  | PostImport member_id "import_request option"
  | SyncFrom member_id graph

fun request_exec :: "(bytes \<Rightarrow> bytes) \<Rightarrow> memory_service \<Rightarrow> memory_request \<Rightarrow> memory_service" where
  "request_exec sha s (PostNode rand now origin body) = fst (handle_node sha rand now s origin body)"
| "request_exec sha s (PostEdge now origin body) = fst (handle_edge sha now s origin body)"
| "request_exec sha s (PostImport origin body) = fst (handle_import sha False s origin body)"
| "request_exec sha s (SyncFrom from g) = fst (apply_remote sha s (Some g) from)"

fun request_ok :: "memory_service \<Rightarrow> memory_request \<Rightarrow> bool" where
  "request_ok s (PostNode rand now origin body) \<longleftrightarrow> (\<forall>n. body = Some n \<longrightarrow> op_ok s (WriteNode rand origin n now))"
| "request_ok s (PostEdge now origin body) \<longleftrightarrow> True"
| "request_ok s (PostImport origin body) \<longleftrightarrow>
     (\<forall>req b. body = Some req \<and> ir_blueprint req = Some b \<longrightarrow> encodable (bp_graph b))"
| "request_ok s (SyncFrom from g) \<longleftrightarrow> encodable (Some g)"

fun requests_ok :: "(bytes \<Rightarrow> bytes) \<Rightarrow> memory_service \<Rightarrow> memory_request list \<Rightarrow> bool" where
  "requests_ok sha s [] \<longleftrightarrow> True"
| "requests_ok sha s (q # qs) \<longleftrightarrow> request_ok s q \<and> requests_ok sha (request_exec sha s q) qs"

lemma handle_import_remote:
  "fst (handle_import sha False s origin body) = s \<or>
   (\<exists>req b. body = Some req \<and> ir_blueprint req = Some b \<and>
     fst (handle_import sha False s origin body) = fst (merge_in sha s ''memory.import'' (Some (mark_imported sha (bp_graph b))) origin))"
proof (cases body)
  case (Some req)
  let ?g = "case ir_blueprint req of None \<Rightarrow> None | Some b \<Rightarrow> bp_graph b"
  let ?r = "import_graph sha s (Some (mark_imported sha ?g)) (ir_mode req) origin"
  show ?thesis
  proof (cases "origin = [] \<or> validate_blueprint sha (ir_blueprint req) \<noteq> None \<or> ir_mode req = ''replace''")
    case True
    with Some show ?thesis by (auto simp: handle_import_def)
  next
    case False
    then have "fst (handle_import sha False s origin body) = fst ?r"
      using Some by (cases ?r) (auto simp: handle_import_def Let_def split: option.split)
    moreover have "fst ?r = s \<or> fst ?r = fst (merge_in sha s ''memory.import'' (Some (mark_imported sha ?g)) origin)"
      using False by (auto simp: import_graph_def)
    moreover obtain b where "ir_blueprint req = Some b"
      using False by (cases "ir_blueprint req") (auto simp: validate_blueprint_def)
    ultimately show ?thesis using Some by auto
  qed
qed (simp add: handle_import_def)

lemma request_step:
  assumes "service_ok sha s" "request_ok s q"
  shows "service_ok sha (request_exec sha s q) \<and> keeps sha s (request_exec sha s q)"
proof (cases q)
  case (PostNode rand now origin body)
  show ?thesis
  proof (cases body)
    case (Some n)
    have "fst (handle_node sha rand now s origin body) = s \<or> fst (handle_node sha rand now s origin body) = fst (add_or_update_node sha rand s origin n now)"
      using Some by (auto simp: handle_node_def split: prod.split sum.split)
    with add_node_ok [OF assms(1), of rand origin n now] add_node_keeps [OF assms(1), of rand origin n now] assms Some PostNode
    show ?thesis by auto
  qed (use PostNode assms in \<open>simp add: handle_node_def\<close>)
next
  case (PostEdge now origin body)
  have "fst (handle_edge sha now s origin body) = s \<or> (\<exists>e. fst (handle_edge sha now s origin body) = fst (add_edge sha s origin e now))"
  proof (cases body)
    case (Some e)
    have "fst (handle_edge sha now s origin body) = s \<or> fst (handle_edge sha now s origin body) = fst (add_edge sha s origin e now)"
      using Some by (auto simp: handle_edge_def split: prod.split sum.split)
    then show ?thesis by blast
  qed (simp add: handle_edge_def)
  with add_edge_ok [OF assms(1)] add_edge_keeps [OF assms(1)] assms PostEdge show ?thesis by auto
next
  case (PostImport origin body)
  note handle_import_remote [of sha s origin body]
  then show ?thesis
  proof (elim disjE exE conjE)
    fix req b assume b: "body = Some req" "ir_blueprint req = Some b"
        "fst (handle_import sha False s origin body) = fst (merge_in sha s ''memory.import'' (Some (mark_imported sha (bp_graph b))) origin)"
    then have "encodable (Some (mark_imported sha (bp_graph b)))"
      using assms(2) PostImport by (intro mark_imported_encodable) auto
    with b PostImport assms(1) show ?thesis by (simp add: merge_in_ok merge_in_keeps)
  qed (use PostImport assms in simp)
next
  case (SyncFrom "from" g)
  with assms show ?thesis by (simp add: apply_remote_def merge_in_ok merge_in_keeps)
qed

text \<open>Other members cannot delete memory. Whatever requests arrive from other machines (node writes, edge writes,
  imports with any mode, gossip merges, of any content), every node of the graph is still there under its id in
  the same or a later version, and every edge is still there; the destructive import mode is refused to them.\<close>

theorem remote_requests_keep_memory:
  assumes "service_ok sha s" "requests_ok sha s qs"
  shows "let s' = foldl (request_exec sha) s qs in
    (\<forall>i x. node_at (gr_nodes (ms_graph s)) i = Some x \<longrightarrow>
      (\<exists>y. node_at (gr_nodes (ms_graph s')) i = Some y \<and> version_of sha x \<le> version_of sha y)) \<and>
    edge_key ` set (gr_edges (ms_graph s)) \<subseteq> edge_key ` set (gr_edges (ms_graph s'))"
proof -
  have "keeps sha s (foldl (request_exec sha) s qs)"
    using assms
  proof (induction qs arbitrary: s)
    case (Cons q qs)
    with request_step [of sha s q] show ?case by (auto intro: keeps_trans)
  qed simp
  then show ?thesis by (simp add: keeps_def Let_def)
qed

section \<open>Samples\<close>

lemma export_succeeds:
  assumes "encodable (Some g)" "json_time_ok now"
  shows "\<exists>b. export_blueprint sha (Some g) clan [] False now = Inr b"
proof -
  have "marshal_graph (merge sha (Some g) None) \<noteq> None"
    unfolding marshal_iff by (rule merge_encodable [OF assms(1)]) simp
  with assms(2) show ?thesis by (auto simp: export_blueprint_def blueprint_checksum_def Let_def)
qed

theorem blueprint_round_trip_witness:
  "let g = one_memo (memo ''one'' 1 1); s = idle_service (one_memo (memo ''two'' 2 1)) in
   \<exists>b. export_blueprint (\<lambda>x. x) (Some g) ''c'' [] False 1 = Inr b \<and> validate_blueprint (\<lambda>x. x) (Some b) = None \<and>
     node_at (gr_nodes (ms_graph (fst (import_graph (\<lambda>x. x) s (Some (mark_imported (\<lambda>x. x) (bp_graph b))) ''replace'' ''m'')))) ''x''
       = Some (imported (memo ''one'' 1 1))"
proof -
  let ?g = "one_memo (memo ''one'' 1 1)" and ?s = "idle_service (one_memo (memo ''two'' 2 1))"
  have t: "json_time_ok 1" "json_time_ok 2" by (simp_all add: early_time)
  have "encodable (Some ?g)" using t by (simp add: encodable_def one_memo_def nodes_of_def edges_of_def node_encodable_def memo_def)
  then obtain b where b: "export_blueprint (\<lambda>x. x) (Some ?g) ''c'' [] False 1 = Inr b"
    using export_succeeds t by blast
  obtain s' c e where i: "import_graph (\<lambda>x. x) ?s (Some (mark_imported (\<lambda>x. x) (bp_graph b))) ''replace'' ''m'' = (s', c, e)"
    by (cases "import_graph (\<lambda>x. x) ?s (Some (mark_imported (\<lambda>x. x) (bp_graph b))) ''replace'' ''m''")
  have "wf_graph ?g" by (simp add: wf_graph_def one_memo_def)
  from blueprint_round_trip [OF b this idle_service_ok [OF t(2)] i] b i show ?thesis
    by (simp add: Let_def one_memo_def memo_def)
qed

theorem remote_requests_keep_memory_witness:
  "let s = idle_service (one_memo (memo ''one'' 1 1));
       s' = foldl (request_exec (\<lambda>x. x)) s [PostNode None 0 ''eve'' (Some (memo [] 0 0)), PostImport ''eve'' None, SyncFrom ''eve'' new_graph]
   in \<exists>y. node_at (gr_nodes (ms_graph s')) ''x'' = Some y \<and> version_of (\<lambda>x. x) (memo ''one'' 1 1) \<le> version_of (\<lambda>x. x) y"
proof -
  let ?qs = "[PostNode None 0 ''eve'' (Some (memo [] 0 0)), PostImport ''eve'' None, SyncFrom ''eve'' new_graph]"
  have "requests_ok (\<lambda>x. x) (idle_service (one_memo (memo ''one'' 1 1))) ?qs"
    by (simp add: new_graph_def encodable_def nodes_of_def edges_of_def)
  from remote_requests_keep_memory [OF idle_service_ok [OF early_time] this] show ?thesis
    by (auto simp: Let_def idle_service_def one_memo_def memo_def)
qed

end
