(* ===== verification/Sync.thy ===== *)
theory Sync
  imports Blueprint Membership Peers
begin

text \<open>
  The three heartbeat-driven syncers: \<open>memory/sync.go\<close>, \<open>revocations/sync.go\<close> and \<open>rostersync/sync.go\<close>, with
  the two \<open>GET\<close> handlers they fetch from. Each \<open>MaybeSync\<close> is cut at its network fetch into a start and a finish,
  since other requests run while the fetch is under way; \<open>maybe_sync\<close> is one uninterrupted call. What the peer
  answers is the argument of the finish; decoding JSON is a parameter. The in-flight entry that the code inserts
  and deletes again when the peer has no known address is left out of that branch.
\<close>

section \<open>Fetching\<close>

text \<open>The outcome of one request: no answer, or a status with a body that may fail to be read.\<close>

datatype reply = NoReply | Reply http_status "bytes option"

datatype fetch_error = RequestFailed | StatusNotOk http_status | BodyUnread | OverFetchGuard | NotDecoded

definition max_fetch_bytes :: nat where "max_fetch_bytes = 4 * 2 ^ 20"

definition fetch_memory :: "(bytes \<Rightarrow> graph option) \<Rightarrow> reply \<Rightarrow> fetch_error + graph" where
  "fetch_memory decode r =
     (case r of
        NoReply \<Rightarrow> Inl RequestFailed
      | Reply st body \<Rightarrow>
          if st \<noteq> 200 then Inl (StatusNotOk st)
          else case map_option (take (max_fetch_bytes + 1)) body of
            None \<Rightarrow> Inl BodyUnread
          | Some raw \<Rightarrow>
              if length raw > max_fetch_bytes then Inl OverFetchGuard
              else case decode raw of None \<Rightarrow> Inl NotDecoded | Some g \<Rightarrow> Inr g)"

text \<open>The fetch of the revocation and roster syncers reads the body without a limit.\<close>

definition fetch_list :: "(bytes \<Rightarrow> 'a option) \<Rightarrow> reply \<Rightarrow> fetch_error + 'a" where
  "fetch_list decode r =
     (case r of
        NoReply \<Rightarrow> Inl RequestFailed
      | Reply st body \<Rightarrow>
          if st \<noteq> 200 then Inl (StatusNotOk st)
          else case Option.bind body decode of None \<Rightarrow> Inl NotDecoded | Some x \<Rightarrow> Inr x)"

definition lookup_addr :: "registry \<Rightarrow> member_id \<Rightarrow> string" where
  "lookup_addr r i =
     (case find (\<lambda>m. pm_id m = i) (snd (snapshot r)) of None \<Rightarrow> [] | Some m \<Rightarrow> pm_address m)"

section \<open>Memory\<close>

record memory_syncer =
  my_service :: memory_service
  my_inflight :: "member_id set"

definition memory_sync_start ::
  "(member_id \<Rightarrow> string) \<Rightarrow> memory_syncer \<Rightarrow> member_id \<Rightarrow> string \<Rightarrow> memory_syncer \<times> string option" where
  "memory_sync_start lookup s sender their_digest =
     (if their_digest = [] then (s, None)
      else if ms_digest (my_service s) = their_digest then (s, None)
      else if sender \<in> my_inflight s then (s, None)
      else
        let addr = lookup sender
        in if addr = [] then (s, None)
           else (s\<lparr>my_inflight := insert sender (my_inflight s)\<rparr>, Some addr))"

definition memory_sync_finish ::
  "(bytes \<Rightarrow> bytes) \<Rightarrow> (bytes \<Rightarrow> graph option) \<Rightarrow> memory_syncer \<Rightarrow> member_id \<Rightarrow> reply \<Rightarrow> memory_syncer" where
  "memory_sync_finish sha decode s sender r =
     (let s1 = (case fetch_memory decode r of
                  Inl _ \<Rightarrow> s
                | Inr remote \<Rightarrow> s\<lparr>my_service := fst (apply_remote sha (my_service s) (Some remote) sender)\<rparr>)
      in s1\<lparr>my_inflight := my_inflight s1 - {sender}\<rparr>)"

definition memory_maybe_sync ::
  "(bytes \<Rightarrow> bytes) \<Rightarrow> (bytes \<Rightarrow> graph option) \<Rightarrow> (member_id \<Rightarrow> string) \<Rightarrow> (string \<Rightarrow> reply) \<Rightarrow> memory_syncer \<Rightarrow>
     member_id \<Rightarrow> string \<Rightarrow> memory_syncer \<times> bool" where
  "memory_maybe_sync sha decode lookup net s sender their_digest =
     (case memory_sync_start lookup s sender their_digest of
        (s1, None) \<Rightarrow> (s1, False)
      | (s1, Some addr) \<Rightarrow> (memory_sync_finish sha decode s1 sender (net addr), True))"

section \<open>Revocations and roster\<close>

text \<open>
  The two syncers work on the same store and registry as the membership service, and write to the same audit log.
\<close>

record trust_node =
  tn_service :: service
  tn_registry :: registry
  tn_rev_inflight :: "member_id set"
  tn_roster_inflight :: "member_id set"

definition with_store :: "trust_node \<Rightarrow> store \<Rightarrow> trust_node" where
  "with_store n st = n\<lparr>tn_service := (tn_service n)\<lparr>sv_store := st\<rparr>\<rparr>"

definition sync_audit :: "trust_node \<Rightarrow> string \<Rightarrow> trust_node" where
  "sync_audit n tool = n\<lparr>tn_service := log_audit tool ''allow'' ''merged'' (tn_service n)\<rparr>"

text \<open>The start answers the list loaded before the fetch and the address to fetch from.\<close>

definition rev_sync_start ::
  "(bytes \<Rightarrow> bytes) \<Rightarrow> trust_node \<Rightarrow> member_id \<Rightarrow> string \<Rightarrow> trust_node \<times> (revocations \<times> string) option" where
  "rev_sync_start sha n sender their_digest =
     (if their_digest = [] then (n, None)
      else case load_revocations (sv_store (tn_service n)) of
        Inl _ \<Rightarrow> (n, None)
      | Inr local \<Rightarrow>
          if revocations_digest sha (Some local) = their_digest then (n, None)
          else if sender \<in> tn_rev_inflight n then (n, None)
          else
            let addr = lookup_addr (tn_registry n) sender
            in if addr = [] then (n, None)
               else (n\<lparr>tn_rev_inflight := insert sender (tn_rev_inflight n)\<rparr>, Some (local, addr)))"

definition apply_revocations :: "trust_node \<Rightarrow> revocations \<Rightarrow> revocations \<Rightarrow> trust_node" where
  "apply_revocations n local fetched =
     (let merged = revocations_merge (Some local) (Some fetched)
      in if length merged > length local then
           (case save_revocations (sv_store (tn_service n)) (Some merged) of
              (st, Some _) \<Rightarrow> with_store n st
            | (st, None) \<Rightarrow>
                let n1 = with_store n st;
                    n2 = n1\<lparr>tn_registry := set_revocations (tn_registry n1) merged\<rparr>
                in sync_audit n2 ''revocations.sync'')
         else n)"

definition rev_sync_finish ::
  "(bytes \<Rightarrow> revocations option) \<Rightarrow> trust_node \<Rightarrow> member_id \<Rightarrow> revocations \<Rightarrow> reply \<Rightarrow> trust_node" where
  "rev_sync_finish decode n sender local r =
     (let n1 = (case fetch_list decode r of Inl _ \<Rightarrow> n | Inr fetched \<Rightarrow> apply_revocations n local fetched)
      in n1\<lparr>tn_rev_inflight := tn_rev_inflight n1 - {sender}\<rparr>)"

definition rev_maybe_sync ::
  "(bytes \<Rightarrow> bytes) \<Rightarrow> (bytes \<Rightarrow> revocations option) \<Rightarrow> (string \<Rightarrow> reply) \<Rightarrow> trust_node \<Rightarrow> member_id \<Rightarrow> string \<Rightarrow>
     trust_node \<times> bool" where
  "rev_maybe_sync sha decode net n sender their_digest =
     (case rev_sync_start sha n sender their_digest of
        (n1, None) \<Rightarrow> (n1, False)
      | (n1, Some (local, addr)) \<Rightarrow> (rev_sync_finish decode n1 sender local (net addr), True))"

definition handle_revocations :: "store \<Rightarrow> http_status \<times> revocations" where
  "handle_revocations st = (case load_revocations st of Inl _ \<Rightarrow> (500, []) | Inr revs \<Rightarrow> (200, revs))"

definition roster_sync_start ::
  "(bytes \<Rightarrow> bytes) \<Rightarrow> trust_node \<Rightarrow> member_id \<Rightarrow> string \<Rightarrow> trust_node \<times> (clan \<times> string) option" where
  "roster_sync_start sha n sender their_digest =
     (if their_digest = [] then (n, None)
      else case load_clan (sv_store (tn_service n)) of
        Inl _ \<Rightarrow> (n, None)
      | Inr None \<Rightarrow> (n, None)
      | Inr (Some local) \<Rightarrow>
          if roster_digest sha (Some local) = their_digest then (n, None)
          else if sender \<in> tn_roster_inflight n then (n, None)
          else
            let addr = lookup_addr (tn_registry n) sender
            in if addr = [] then (n, None)
               else (n\<lparr>tn_roster_inflight := insert sender (tn_roster_inflight n)\<rparr>, Some (local, addr)))"

definition roster_equal :: "roster_member list \<Rightarrow> roster_member list \<Rightarrow> bool" where
  "roster_equal a b \<longleftrightarrow>
     length a = length b \<and> (\<forall>i<length a. rm_id (a ! i) = rm_id (b ! i) \<and> rm_state (a ! i) = rm_state (b ! i))"

definition apply_roster :: "trust_node \<Rightarrow> clan \<Rightarrow> roster_member list \<Rightarrow> trust_node" where
  "apply_roster n local fetched =
     (let merged = merge_roster_states (cl_roster local) fetched
      in if roster_equal merged (cl_roster local) then n
         else
           (case save_clan (sv_store (tn_service n)) (Some (local\<lparr>cl_roster := merged\<rparr>)) of
              (st, Some _) \<Rightarrow> with_store n st
            | (st, None) \<Rightarrow> sync_audit (with_store n st) ''rostersync''))"

definition roster_sync_finish ::
  "(bytes \<Rightarrow> roster_member list option) \<Rightarrow> trust_node \<Rightarrow> member_id \<Rightarrow> clan \<Rightarrow> reply \<Rightarrow> trust_node" where
  "roster_sync_finish decode n sender local r =
     (let n1 = (case fetch_list decode r of Inl _ \<Rightarrow> n | Inr fetched \<Rightarrow> apply_roster n local fetched)
      in n1\<lparr>tn_roster_inflight := tn_roster_inflight n1 - {sender}\<rparr>)"

definition roster_maybe_sync ::
  "(bytes \<Rightarrow> bytes) \<Rightarrow> (bytes \<Rightarrow> roster_member list option) \<Rightarrow> (string \<Rightarrow> reply) \<Rightarrow> trust_node \<Rightarrow> member_id \<Rightarrow> string \<Rightarrow>
     trust_node \<times> bool" where
  "roster_maybe_sync sha decode net n sender their_digest =
     (case roster_sync_start sha n sender their_digest of
        (n1, None) \<Rightarrow> (n1, False)
      | (n1, Some (local, addr)) \<Rightarrow> (roster_sync_finish decode n1 sender local (net addr), True))"

definition handle_roster :: "store \<Rightarrow> http_status \<times> roster_member list" where
  "handle_roster st =
     (case load_clan st of
        Inl _ \<Rightarrow> (500, [])
      | Inr None \<Rightarrow> (200, [])
      | Inr (Some c) \<Rightarrow> (200, cl_roster c))"

end
