(* ===== verification/SyncProps.thy ===== *)
theory SyncProps
  imports Sync MemoryProps
begin

text \<open>
  What the syncers achieve: memory converges over the heartbeat and its acknowledgement, one uninterrupted
  revocation sync stores the union and refreshes the registry, and what the split at the network fetch allows.
\<close>

section \<open>Memory\<close>

text \<open>A member pulls the graph of another when it hears that member's digest.\<close>

definition memory_pull ::
  "(bytes \<Rightarrow> bytes) \<Rightarrow> (bytes \<Rightarrow> graph option) \<Rightarrow> (member_id \<Rightarrow> string) \<Rightarrow> memory_syncer \<Rightarrow> memory_syncer \<Rightarrow> memory_syncer" where
  "memory_pull sha decode lookup r s =
     fst (memory_maybe_sync sha decode lookup
       (\<lambda>_. case handle_get (my_service s) of (st, body) \<Rightarrow> Reply st body)
       r (ms_self_id (my_service s)) (ms_digest (my_service s)))"

text \<open>
  The graphs that can be around: they merge among themselves, can be written and sent, come back from JSON as they
  were, and their digests tell different versions apart.
\<close>

definition graph_world :: "(bytes \<Rightarrow> bytes) \<Rightarrow> (bytes \<Rightarrow> graph option) \<Rightarrow> graph set \<Rightarrow> bool" where
  "graph_world sha decode W \<longleftrightarrow>
     (\<forall>a\<in>W. wf_graph a \<and> encodable (Some a) \<and> digest sha (Some a) \<noteq> [] \<and> length (graph_json a) \<le> max_fetch_bytes \<and> decode (graph_json a) = Some a) \<and>
     (\<forall>a\<in>W. \<forall>b\<in>W. merge sha (Some a) (Some b) \<in> W \<and>
        (digest sha (Some a) = digest sha (Some b) \<longrightarrow> graph_view sha a = graph_view sha b))"

definition sync_ready ::
  "(bytes \<Rightarrow> bytes) \<Rightarrow> (member_id \<Rightarrow> string) \<Rightarrow> graph set \<Rightarrow> memory_syncer \<Rightarrow> bool" where
  "sync_ready sha lookup W s \<longleftrightarrow>
     my_inflight s = {} \<and> ms_graph (my_service s) \<in> W \<and> mm_writable (ms_store (my_service s)) \<and>
     ms_digest (my_service s) = digest sha (Some (ms_graph (my_service s))) \<and> lookup (ms_self_id (my_service s)) \<noteq> []"

definition syncer_view :: "(bytes \<Rightarrow> bytes) \<Rightarrow> memory_syncer \<Rightarrow> (string \<Rightarrow> version option) \<times> string set" where
  "syncer_view sha s = graph_view sha (ms_graph (my_service s))"

lemma merge_in_writable:
  assumes "mm_writable (ms_store s)" "encodable (Some (merge sha (Some (ms_graph s)) remote))"
  shows "let g = merge sha (Some (ms_graph s)) remote; s' = fst (merge_in sha s tool remote from) in
    if digest sha (Some g) = ms_digest s then s' = s
    else ms_graph s' = g \<and> ms_digest s' = digest sha (Some g) \<and> mm_writable (ms_store s') \<and> ms_self_id s' = ms_self_id s"
proof -
  have "marshal_graph (merge sha (Some (ms_graph s)) remote) \<noteq> None" using assms(2) by (simp only: marshal_iff not_False_eq_True)
  then show ?thesis
    using assms(1) by (auto simp: merge_in_def Let_def persist_def save_memory_def memory_audit_def split: prod.splits)
qed

lemma fetch_within_guard:
  "length raw \<le> max_fetch_bytes \<Longrightarrow> decode raw = Some g \<Longrightarrow> fetch_memory decode (Reply 200 (Some raw)) = Inr g"
  by (simp add: fetch_memory_def)

lemma get_encodable: "encodable (Some (ms_graph s)) \<Longrightarrow> handle_get s = (200, Some (graph_json (ms_graph s)))"
  using marshal_iff [of "ms_graph s"] by (auto simp: handle_get_def marshal_graph_def split: if_splits)

lemma memory_pull_effect:
  assumes W: "graph_world sha decode W"
    and r: "sync_ready sha lookup W r" and s: "sync_ready sha lookup W s"
  shows "sync_ready sha lookup W (memory_pull sha decode lookup r s)"
    and "syncer_view sha (memory_pull sha decode lookup r s) = sup (syncer_view sha r) (syncer_view sha s)"
proof -
  let ?a = "ms_graph (my_service r)" and ?b = "ms_graph (my_service s)"
  let ?m = "merge sha (Some ?a) (Some ?b)"
  let ?r = "memory_pull sha decode lookup r s"
  have in_W: "?a \<in> W" "?b \<in> W" using r s by (simp_all add: sync_ready_def)
  then have m: "?m \<in> W" using W unfolding graph_world_def by blast
  have views: "graph_view sha ?m = sup (graph_view sha ?a) (graph_view sha ?b)"
    using W in_W unfolding graph_world_def by (blast intro: graph_view_merge)
  have faithful: "x \<in> W \<Longrightarrow> y \<in> W \<Longrightarrow> digest sha (Some x) = digest sha (Some y) \<Longrightarrow> graph_view sha x = graph_view sha y" for x y
    using W unfolding graph_world_def by blast
  have member: "x \<in> W \<Longrightarrow> encodable (Some x) \<and> digest sha (Some x) \<noteq> [] \<and> length (graph_json x) \<le> max_fetch_bytes \<and> decode (graph_json x) = Some x" for x
    using W unfolding graph_world_def by blast
  note sent = get_encodable [OF conjunct1 [OF member [OF in_W(2)]]]
    and got = fetch_within_guard [of "graph_json ?b" decode ?b] and enc = conjunct1 [OF member [OF m]]
  have "sync_ready sha lookup W ?r \<and> syncer_view sha ?r = sup (syncer_view sha r) (syncer_view sha s)"
  proof (cases "ms_digest (my_service r) = ms_digest (my_service s)")
    case True
    with r s faithful [OF in_W] have "graph_view sha ?a = graph_view sha ?b" by (simp add: sync_ready_def)
    moreover have "?r = r"
      using True by (simp add: memory_pull_def memory_maybe_sync_def memory_sync_start_def)
    ultimately show ?thesis using r by (simp add: syncer_view_def)
  next
    case False
    let ?p = "ms_self_id (my_service s)"
    let ?v = "fst (merge_in sha (my_service r) ''memory.sync'' (Some ?b) ?p)"
    have pulled: "?r = r\<lparr>my_service := ?v\<rparr>"
      using False r s got member [OF in_W(2)]
      by (simp add: memory_pull_def memory_maybe_sync_def memory_sync_start_def memory_sync_finish_def sent sync_ready_def
          apply_remote_def)
    from r have "mm_writable (ms_store (my_service r))" by (simp add: sync_ready_def)
    from merge_in_writable [OF this, of sha "Some ?b" "''memory.sync''" ?p] enc
    have eff: "if digest sha (Some ?m) = ms_digest (my_service r) then ?v = my_service r
      else ms_graph ?v = ?m \<and> ms_digest ?v = digest sha (Some ?m) \<and> mm_writable (ms_store ?v) \<and>
        ms_self_id ?v = ms_self_id (my_service r)"
      by (simp add: Let_def)
    show ?thesis
    proof (cases "digest sha (Some ?m) = ms_digest (my_service r)")
      case True
      with r faithful [OF m in_W(1)] have "graph_view sha ?m = graph_view sha ?a" by (simp add: sync_ready_def)
      moreover from True eff have "?v = my_service r" by simp
      then have "?r = r" by (simp add: pulled)
      ultimately show ?thesis using r views by (simp add: syncer_view_def)
    next
      case False
      with eff r m views show ?thesis by (simp add: pulled sync_ready_def syncer_view_def)
    qed
  qed
  then show "sync_ready sha lookup W ?r" "syncer_view sha ?r = sup (syncer_view sha r) (syncer_view sha s)" by simp_all
qed

text \<open>Ready syncers of a world of graphs are a gossip replica; outside the hypotheses the contract is empty.\<close>

definition ready_in ::
  "(bytes \<Rightarrow> bytes) \<Rightarrow> (bytes \<Rightarrow> graph option) \<Rightarrow> (member_id \<Rightarrow> string) \<Rightarrow> graph set \<Rightarrow> memory_syncer \<Rightarrow> bool" where
  "ready_in sha decode lookup W s \<longleftrightarrow> graph_world sha decode W \<and> sync_ready sha lookup W s"

interpretation memory_sync: gossip_merge "memory_pull sha decode lookup" "syncer_view sha" "ready_in sha decode lookup W"
  for sha decode lookup W
  by unfold_locales (auto simp: ready_in_def memory_pull_effect)

text \<open>C31: Every edit of the shared memory reaches every member. Take any group of daemons, one of them the
  Orchestrator, and any run of pulls among them in which the Orchestrator pulled once from each follower (the
  acknowledgement leg) and each follower later pulled once from the Orchestrator (the heartbeat leg), in any
  order and with anything else pulled in between. Then all show the same digest and hold the same versions, and
  these include every version each of them held at the start. On the graphs around, digests must be
  non-empty and tell versions apart, and graphs must fit the fetch guard and survive JSON.\<close>

theorem memory_edits_reach_everyone:
  assumes "graph_world sha decode W" "\<forall>i. sync_ready sha lookup W (reps i)"
    and "hub \<in> G" "set (up @ down) \<subseteq> G \<times> G"
    and "\<forall>i\<in>G - {hub}. (hub, i) \<in> set up" "\<forall>i\<in>G - {hub}. (i, hub) \<in> set down"
  defines "final \<equiv> pull_run (memory_pull sha decode lookup) reps (up @ down)"
  shows "\<forall>i\<in>G. \<forall>j\<in>G. ms_digest (my_service (final i)) = ms_digest (my_service (final j)) \<and>
    syncer_view sha (final i) = syncer_view sha (final j) \<and> syncer_view sha (reps j) \<le> syncer_view sha (final i)"
proof (intro ballI)
  fix i j assume ij: "i \<in> G" "j \<in> G"
  have ok: "\<forall>i. ready_in sha decode lookup W (reps i)" using assms by (simp add: ready_in_def)
  note legs = memory_sync.two_legs [OF ok assms(3-6), folded final_def]
  have ready: "sync_ready sha lookup W (final k)" for k
    using memory_sync.run_ok [OF ok, of "up @ down"] by (simp add: final_def ready_in_def)
  have view: "syncer_view sha (final i) = syncer_view sha (final j)"
    using legs(1) [OF ij(1)] legs(1) [OF ij(2)] by simp
  have wf: "wf_graph (ms_graph (my_service (final k)))" for k
    using ready [of k] assms(1) unfolding sync_ready_def graph_world_def by blast
  have "digest sha (Some (ms_graph (my_service (final i)))) = digest sha (Some (ms_graph (my_service (final j))))"
    by (rule digest_of_view [OF wf wf]) (use view in \<open>simp add: syncer_view_def\<close>)
  with ready [of i] ready [of j] view legs(2) [OF ij]
  show "ms_digest (my_service (final i)) = ms_digest (my_service (final j)) \<and>
    syncer_view sha (final i) = syncer_view sha (final j) \<and> syncer_view sha (reps j) \<le> syncer_view sha (final i)"
    by (simp add: sync_ready_def)
qed

definition memo_syncer :: "gnode \<Rightarrow> memory_syncer" where
  "memo_syncer n = \<lparr>my_service = idle_service (one_memo n), my_inflight = {}\<rparr>"

definition memo_decode :: "bytes \<Rightarrow> graph option" where
  "memo_decode b =
     (if b = graph_json (one_memo (memo ''one'' 1 1)) then Some (one_memo (memo ''one'' 1 1))
      else Some (one_memo (memo ''two'' 2 1)))"

lemma size_checked:
  assumes "check_size s (gr_nodes g) (gr_edges g) = None" "gr_format_version (ms_graph s) = gr_format_version g"
  shows "length (graph_json g) \<le> max_serialized_bytes"
  using assms by (cases g) (auto simp: check_size_def marshal_graph_def split: if_splits)

lemma memo_graph_simps [simp]:
  "gr_nodes (one_memo n) = [n]" "gr_edges (one_memo n) = []" "gr_format_version (one_memo n) = 1"
  by (simp_all add: one_memo_def)

lemma memo_sent:
  assumes "0 \<le> t" "t < second" "list_all plain_char body" "length body < 1000"
  shows "length (graph_json (one_memo (memo body t 1))) \<le> max_fetch_bytes"
proof -
  have "check_size (idle_service (one_memo (memo body t 1))) [memo body t 1] [] = None"
    using assms by (intro memo_fits) (simp_all add: idle_service_def)
  then have "length (graph_json (one_memo (memo body t 1))) \<le> max_serialized_bytes"
    by (intro size_checked [of "idle_service (one_memo (memo body t 1))"]) (simp_all add: idle_service_def)
  then show ?thesis by (simp add: max_serialized_bytes_def max_fetch_bytes_def)
qed

lemma hex_encode_Nil: "hex_encode s = [] \<longleftrightarrow> s = []"
  by (simp add: length_hex_encode flip: length_0_conv)

lemma memo_digest: "digest (\<lambda>x. x) (Some (one_memo n)) = hex_encode (node_line n)"
  by (simp add: digest_def nodes_of_def edges_of_def)

definition memo_worlds :: "graph set" where
  "memo_worlds = {one_memo (memo ''one'' 1 1), one_memo (memo ''two'' 2 1)}"

lemma memo_merge:
  assumes "a \<in> memo_worlds" "b \<in> memo_worlds"
  shows "merge (\<lambda>x. x) (Some a) (Some b) \<in> memo_worlds"
  using assms by (auto simp: memo_worlds_def merge_def newer_version_def format_version_def nodes_of_def edges_of_def put_nodes_def
      win_nodes_def put_edges_def node_wins_def memo_def one_memo_def)

lemma memo_is_valid: "node_valid (memo ''one'' 1 1)" "node_valid (memo ''two'' 2 1)"
  by (simp_all add: node_valid_def node_encodable_def memo_def early_time) (simp_all add: valid_ascii byte_def)

lemma memo_world: "graph_world (\<lambda>x. x) memo_decode memo_worlds"
proof -
  let ?a = "one_memo (memo ''one'' 1 1)" and ?b = "one_memo (memo ''two'' 2 1)"
  have lines: "node_line (memo ''one'' 1 1) \<noteq> node_line (memo ''two'' 2 1)"
    by (simp add: node_line_def memo_def rfc3339_nano_inj early_time)
  have distinct: "graph_json ?a \<noteq> graph_json ?b"
  proof
    assume "graph_json ?a = graph_json ?b"
    then have "canonical_node_bytes (memo ''one'' 1 1) = canonical_node_bytes (memo ''two'' 2 1)"
      by (simp add: graph_json_def json_obj_def json_list_def json_member_def)
    then have "memo ''one'' 1 1 = memo ''two'' 2 1" by (intro canonical_node_inj memo_is_valid)
    then show False by (simp add: memo_def)
  qed
  have "length (graph_json ?a) \<le> max_fetch_bytes" "length (graph_json ?b) \<le> max_fetch_bytes"
    by (simp_all add: memo_sent plain_char_def byte_def)
  moreover have "memo_decode (graph_json ?a) = Some ?a" "memo_decode (graph_json ?b) = Some ?b"
    using distinct by (simp_all add: memo_decode_def)
  moreover have "encodable (Some ?a)" "encodable (Some ?b)" "wf_graph ?a" "wf_graph ?b"
    by (simp_all add: encodable_def nodes_of_def edges_of_def node_encodable_def memo_def early_time wf_graph_def)
  moreover have "digest (\<lambda>x. x) (Some ?a) \<noteq> []" "digest (\<lambda>x. x) (Some ?b) \<noteq> []"
    by (simp_all add: memo_digest node_line_def hex_encode_Nil)
  moreover have "digest (\<lambda>x. x) (Some ?a) \<noteq> digest (\<lambda>x. x) (Some ?b)"
    using lines by (simp add: memo_digest hex_encode_inj)
  ultimately show ?thesis
    unfolding graph_world_def using memo_merge by (simp add: memo_worlds_def)
qed

theorem memory_edits_reach_everyone_witness:
  "let reps = (\<lambda>i::nat. memo_syncer (if i = 0 then memo ''one'' 1 1 else memo ''two'' 2 1));
       final = pull_run (memory_pull (\<lambda>x. x) memo_decode (\<lambda>_. ''a'')) reps ([(0, 1)] @ [(1, 0)])
   in ms_digest (my_service (final 0)) = ms_digest (my_service (final 1)) \<and>
      syncer_view (\<lambda>x. x) (reps 1) \<le> syncer_view (\<lambda>x. x) (final 0)"
proof -
  have "\<forall>i. sync_ready (\<lambda>x. x) (\<lambda>_. ''a'') memo_worlds (memo_syncer (if i = (0::nat) then memo ''one'' 1 1 else memo ''two'' 2 1))"
    by (simp add: sync_ready_def memo_syncer_def idle_service_def memo_worlds_def)
  note all = memory_edits_reach_everyone [OF memo_world this, of 0 "{0, 1}" "[(0, 1)]" "[(1, 0)]"]
  have "0 \<in> {0, 1 :: nat}" "set ([(0, 1)] @ [(1, 0)]) \<subseteq> {0, 1} \<times> {0, 1 :: nat}"
      "\<forall>i\<in>{0, 1 :: nat} - {0}. (0, i) \<in> set [(0, 1)]" "\<forall>i\<in>{0, 1 :: nat} - {0}. (i, 0) \<in> set [(1, 0)]"
    by simp_all
  from all [OF this] show ?thesis unfolding Let_def by blast
qed

end
