(* ===== verification/TrustProps.thy ===== *)
theory TrustProps
  imports Sync
begin

text \<open>
  The revocation and roster syncers as a state machine next to the membership service: what one sync achieves, the
  in-flight bookkeeping over every interleaving, and what an operation loses that runs while a fetch is under way.
\<close>

section \<open>One sync\<close>

definition stored_revocations :: "trust_node \<Rightarrow> revocations" where
  "stored_revocations n = (case st_revocations (sv_store (tn_service n)) of None \<Rightarrow> [] | Some es \<Rightarrow> es)"

definition stored_clan :: "trust_node \<Rightarrow> clan option" where
  "stored_clan n = st_clan (sv_store (tn_service n))"

lemmas trust_defs = with_store_def sync_audit_def log_audit_def stored_revocations_def stored_clan_def

lemma rev_sync_start_Some:
  assumes "rev_sync_start sha n p d = (n1, Some (local, addr))"
  shows "local = stored_revocations n \<and> n1 = n\<lparr>tn_rev_inflight := insert p (tn_rev_inflight n)\<rparr> \<and> p \<notin> tn_rev_inflight n \<and>
    d \<noteq> [] \<and> d \<noteq> revocations_digest sha (Some local)"
  using assms by (auto simp: rev_sync_start_def load_revocations_def stored_revocations_def Let_def split: if_splits sum.splits)

lemma roster_sync_start_Some:
  assumes "roster_sync_start sha n p d = (n1, Some (local, addr))"
  shows "stored_clan n = Some local \<and> n1 = n\<lparr>tn_roster_inflight := insert p (tn_roster_inflight n)\<rparr> \<and> p \<notin> tn_roster_inflight n"
  using assms by (auto simp: roster_sync_start_def load_clan_def stored_clan_def Let_def split: if_splits sum.splits option.splits)

lemma length_merged: "length (revocations_merge (Some a) (Some b)) = card (revoked_ids a \<union> revoked_ids b)"
  using revocations_merge_wf [of a b] revocations_merge_ids [of a b]
  by (metis distinct_card length_map revoked_ids_def set_map wf_revocations_def)

lemma wf_revocations_length: "wf_revocations es \<Longrightarrow> length es = card (revoked_ids es)"
  by (metis distinct_card length_map revoked_ids_def set_map wf_revocations_def)

lemma news_longer:
  assumes "wf_revocations local" "\<not> revoked_ids fetched \<subseteq> revoked_ids local"
  shows "length local < card (revoked_ids local \<union> revoked_ids fetched)"
proof -
  have "finite (revoked_ids local \<union> revoked_ids fetched)" by (simp add: revoked_ids_def)
  moreover have "revoked_ids local \<subset> revoked_ids local \<union> revoked_ids fetched" using assms(2) by blast
  ultimately show ?thesis by (simp add: wf_revocations_length [OF assms(1)] psubset_card_mono)
qed

lemma apply_revocations_old: "card (revoked_ids local \<union> revoked_ids fetched) \<le> length local \<Longrightarrow> apply_revocations n local fetched = n"
  by (simp add: apply_revocations_def Let_def length_merged)

lemma apply_revocations_new:
  assumes "st_writable (sv_store (tn_service n))" "length local < card (revoked_ids local \<union> revoked_ids fetched)"
  shows "let n' = apply_revocations n local fetched; m = revocations_merge (Some local) (Some fetched) in
    stored_revocations n' = m \<and> rg_revocations (tn_registry n') = revoked_ids m \<and> stored_clan n' = stored_clan n \<and>
    tn_rev_inflight n' = tn_rev_inflight n"
  using assms by (simp add: apply_revocations_def Let_def length_merged save_revocations_def trust_defs set_revocations_ids)

lemma rev_fetched:
  assumes "fetch_list decode r = Inr fetched"
  shows "rev_sync_finish decode n p local r =
    (apply_revocations n local fetched)\<lparr>tn_rev_inflight := tn_rev_inflight (apply_revocations n local fetched) - {p}\<rparr>"
  using assms by (simp add: rev_sync_finish_def Let_def)

text \<open>One revocation sync, not interrupted, stores the union. When it fetches a list from a peer, the disk is
  writable and the local list names each member once, the stored list afterwards starts with the local entries
  and names exactly the members revoked on either side; if the peer knew of a new one, the peer registry's
  blacklist is exactly that set. The clan is not touched and no in-flight mark is left.\<close>

theorem revocation_sync_effect:
  assumes "rev_sync_start sha n p d = (n1, Some (local, addr))" "fetch_list decode (net addr) = Inr fetched"
    and "st_writable (sv_store (tn_service n))" "wf_revocations local"
  defines "n' \<equiv> fst (rev_maybe_sync sha decode net n p d)"
  shows "(\<exists>new. stored_revocations n' = local @ new \<and> set new \<subseteq> set fetched) \<and>
    revoked_ids (stored_revocations n') = revoked_ids (stored_revocations n) \<union> revoked_ids fetched \<and>
    (\<not> revoked_ids fetched \<subseteq> revoked_ids local \<longrightarrow> rg_revocations (tn_registry n') = revoked_ids (stored_revocations n')) \<and>
    stored_clan n' = stored_clan n \<and> tn_rev_inflight n' = tn_rev_inflight n"
proof -
  note st = rev_sync_start_Some [OF assms(1)]
  let ?a = "apply_revocations n1 local fetched"
  have n': "n' = ?a\<lparr>tn_rev_inflight := tn_rev_inflight ?a - {p}\<rparr>"
    using assms(1) by (simp add: n'_def rev_maybe_sync_def rev_fetched [OF assms(2)])
  show ?thesis
  proof (cases "revoked_ids fetched \<subseteq> revoked_ids local")
    case True
    then have "revoked_ids local \<union> revoked_ids fetched = revoked_ids local" by blast
    then have "?a = n1" by (intro apply_revocations_old) (simp add: wf_revocations_length [OF assms(4)])
    then show ?thesis using st True by (auto simp: n' trust_defs)
  next
    case False
    note len = news_longer [OF assms(4) False]
    moreover obtain new where "revocations_merge (Some local) (Some fetched) = local @ new" "set new \<subseteq> set fetched"
      using revocations_merge_keeps_local [OF assms(4)] by blast
    moreover have "stored_clan n1 = stored_clan n" "tn_rev_inflight n1 - {p} = tn_rev_inflight n" "st_writable (sv_store (tn_service n1))"
      using st assms(3) by (auto simp: trust_defs)
    ultimately show ?thesis
      using apply_revocations_new [of n1 local fetched] st len revocations_merge_ids [of local fetched]
      by (auto simp: Let_def n' stored_revocations_def stored_clan_def)
  qed
qed

text \<open>A repeated entry blocks revocation gossip. The merge drops repetitions and is stored only when it is
  longer than the local list, so a local list with as many repeated entries as the peer has new members swallows
  them: the sync fetches, changes nothing, and the same happens on every later heartbeat.\<close>

theorem repeated_entry_blocks_sync:
  assumes "rev_sync_start sha n p d = (n1, Some (local, addr))" "fetch_list decode (net addr) = Inr fetched"
    and "card (revoked_ids local \<union> revoked_ids fetched) \<le> length local"
  shows "rev_maybe_sync sha decode net n p d = (n, True)"
proof -
  note st = rev_sync_start_Some [OF assms(1)]
  have "apply_revocations n1 local fetched = n1" by (rule apply_revocations_old [OF assms(3)])
  with st show ?thesis by (simp add: rev_maybe_sync_def assms(1) rev_fetched [OF assms(2)])
qed

section \<open>Interleavings\<close>

text \<open>The syncers with the fetches under way: for each, the peer and what was loaded before the fetch.\<close>

record sync_run =
  sr_node :: trust_node
  sr_rev :: "(member_id \<times> revocations) list"
  sr_roster :: "(member_id \<times> clan) list"

text \<open>Membership operations and the peer registry may change everything but the in-flight marks meanwhile.\<close>

inductive sync_step ::
  "(bytes \<Rightarrow> bytes) \<Rightarrow> (bytes \<Rightarrow> revocations option) \<Rightarrow> (bytes \<Rightarrow> roster_member list option) \<Rightarrow> sync_run \<Rightarrow> sync_run \<Rightarrow> bool"
  for sha rdecode odecode where
  rev_start: "rev_sync_start sha (sr_node c) p d = (n', Some (local, addr)) \<Longrightarrow>
    sync_step sha rdecode odecode c (c\<lparr>sr_node := n', sr_rev := (p, local) # sr_rev c\<rparr>)"
| rev_skip: "rev_sync_start sha (sr_node c) p d = (n', None) \<Longrightarrow> sync_step sha rdecode odecode c (c\<lparr>sr_node := n'\<rparr>)"
| rev_finish: "sr_rev c = xs @ (p, local) # ys \<Longrightarrow>
    sync_step sha rdecode odecode c (c\<lparr>sr_node := rev_sync_finish rdecode (sr_node c) p local r, sr_rev := xs @ ys\<rparr>)"
| roster_start: "roster_sync_start sha (sr_node c) p d = (n', Some (snap, addr)) \<Longrightarrow>
    sync_step sha rdecode odecode c (c\<lparr>sr_node := n', sr_roster := (p, snap) # sr_roster c\<rparr>)"
| roster_skip: "roster_sync_start sha (sr_node c) p d = (n', None) \<Longrightarrow> sync_step sha rdecode odecode c (c\<lparr>sr_node := n'\<rparr>)"
| roster_finish: "sr_roster c = xs @ (p, snap) # ys \<Longrightarrow>
    sync_step sha rdecode odecode c (c\<lparr>sr_node := roster_sync_finish odecode (sr_node c) p snap r, sr_roster := xs @ ys\<rparr>)"
| other: "sync_step sha rdecode odecode c (c\<lparr>sr_node := (sr_node c)\<lparr>tn_service := s, tn_registry := g\<rparr>\<rparr>)"

definition flights_marked :: "sync_run \<Rightarrow> bool" where
  "flights_marked c \<longleftrightarrow>
     distinct (map fst (sr_rev c)) \<and> fst ` set (sr_rev c) = tn_rev_inflight (sr_node c) \<and>
     distinct (map fst (sr_roster c)) \<and> fst ` set (sr_roster c) = tn_roster_inflight (sr_node c)"

lemma apply_keeps_marks [simp]:
  "tn_rev_inflight (apply_revocations n l f) = tn_rev_inflight n" "tn_roster_inflight (apply_revocations n l f) = tn_roster_inflight n"
  "tn_rev_inflight (apply_roster n c r) = tn_rev_inflight n" "tn_roster_inflight (apply_roster n c r) = tn_roster_inflight n"
  by (simp_all add: apply_revocations_def apply_roster_def Let_def trust_defs split: prod.split option.split)

lemma finish_marks [simp]:
  "tn_rev_inflight (rev_sync_finish dr n p l r) = tn_rev_inflight n - {p}" "tn_roster_inflight (rev_sync_finish dr n p l r) = tn_roster_inflight n"
  "tn_rev_inflight (roster_sync_finish od n p c r) = tn_rev_inflight n" "tn_roster_inflight (roster_sync_finish od n p c r) = tn_roster_inflight n - {p}"
  by (simp_all add: rev_sync_finish_def roster_sync_finish_def Let_def split: sum.split)

lemma skip_marks:
  "rev_sync_start sha n p d = (n', None) \<Longrightarrow> n' = n" "roster_sync_start sha n p d = (n', None) \<Longrightarrow> n' = n"
  by (auto simp: rev_sync_start_def roster_sync_start_def Let_def split: if_splits sum.splits option.splits)

lemma drop_flight: "distinct (map fst (xs @ (p, l) # ys)) \<Longrightarrow>
    distinct (map fst (xs @ ys)) \<and> fst ` set (xs @ ys) = fst ` set (xs @ (p, l) # ys) - {p}"
  by auto

lemma sync_step_marked: "sync_step sha rd od c c' \<Longrightarrow> flights_marked c \<Longrightarrow> flights_marked c'"
proof (induction rule: sync_step.induct)
  case (rev_start c p d n' local addr)
  then show ?case using rev_sync_start_Some [OF rev_start(1)] by (auto simp: flights_marked_def)
next
  case (roster_start c p d n' snap addr)
  then show ?case using roster_sync_start_Some [OF roster_start(1)] by (auto simp: flights_marked_def)
next
  case (rev_finish c xs p local ys r)
  then show ?case using drop_flight [of xs p local ys] by (simp add: flights_marked_def)
next
  case (roster_finish c xs p snap ys r)
  then show ?case using drop_flight [of xs p snap ys] by (simp add: flights_marked_def)
qed (auto simp: flights_marked_def dest: skip_marks)

text \<open>At most one fetch per peer is under way, and every mark is cleared. Over any interleaving of heartbeats,
  fetches that end in any way, and other operations of the daemon, each syncer's in-flight set is exactly the set
  of peers it is fetching from, with no peer twice: no second fetch is started and no peer stays locked out.\<close>

theorem one_fetch_per_peer:
  assumes "(sync_step sha rdecode odecode)\<^sup>*\<^sup>* c c'" "sr_rev c = []" "sr_roster c = []"
    and "tn_rev_inflight (sr_node c) = {}" "tn_roster_inflight (sr_node c) = {}"
  shows "distinct (map fst (sr_rev c')) \<and> set (map fst (sr_rev c')) = tn_rev_inflight (sr_node c') \<and>
    distinct (map fst (sr_roster c')) \<and> set (map fst (sr_roster c')) = tn_roster_inflight (sr_node c')"
proof -
  have "flights_marked c" using assms by (simp add: flights_marked_def)
  with assms(1) have "flights_marked c'" by induction (auto intro: sync_step_marked)
  then show ?thesis by (simp add: flights_marked_def)
qed

section \<open>Lost updates\<close>

lemma apply_roster_changed:
  assumes "st_writable (sv_store (tn_service n))" "\<not> roster_equal (merge_roster_states (cl_roster c) fetched) (cl_roster c)"
  shows "stored_clan (apply_roster n c fetched) = Some (c\<lparr>cl_roster := merge_roster_states (cl_roster c) fetched\<rparr>)"
  using assms by (simp add: apply_roster_def Let_def save_clan_def trust_defs)

text \<open>A revocation made during a fetch is lost. If a member is revoked on this daemon while it fetches the
  revocation list of a peer that has other news and does not know of this revocation yet, the finished sync
  overwrites the stored list with one that lacks the member, and the peer registry does not block it either.\<close>

theorem revocation_lost_during_fetch:
  assumes "rev_sync_start sha n p d = (n1, Some (local, addr))"
    and "revoke sha now (tn_service n1) i reason revoker = (sv, None)"
    and "fetch_list decode r = Inr fetched" "i \<notin> revoked_ids local" "i \<notin> revoked_ids fetched"
    and "wf_revocations local" "\<not> revoked_ids fetched \<subseteq> revoked_ids local"
  defines "n2 \<equiv> n1\<lparr>tn_service := sv\<rparr>" and "n3 \<equiv> rev_sync_finish decode (n1\<lparr>tn_service := sv\<rparr>) p local r"
  shows "i \<in> revoked_ids (stored_revocations n2) \<and> i \<notin> revoked_ids (stored_revocations n3) \<and>
    i \<notin> rg_revocations (tn_registry n3)"
proof -
  from assms(2) have w: "st_writable (sv_store sv)"
    by (auto simp: revoke_def Let_def store_clan_def save_clan_def load_revocations_def save_revocations_def
      fire_event_def log_audit_def split: if_splits sum.splits prod.splits option.splits)
  have before: "i \<in> revoked_ids (stored_revocations n2)"
    by (rule revoke_success [OF assms(2)]) (simp add: n2_def stored_revocations_def revoked_ids_def)
  have "length local < card (revoked_ids local \<union> revoked_ids fetched)" by (rule news_longer [OF assms(6,7)])
  then have "revoked_ids (stored_revocations n3) = revoked_ids local \<union> revoked_ids fetched \<and>
      rg_revocations (tn_registry n3) = revoked_ids local \<union> revoked_ids fetched"
    using apply_revocations_new [of n2 local fetched] w
    by (simp add: n3_def n2_def rev_fetched [OF assms(3)] Let_def revocations_merge_ids stored_revocations_def)
  with before assms(4,5) show ?thesis by simp
qed

text \<open>A join during a roster fetch is lost. The roster sync saves the whole clan record it loaded before the
  fetch, with the merged roster: whatever else was stored meanwhile (a term, a scribe, a roster entry) is undone.
  In particular a member that redeemed an invite meanwhile is no longer on the roster.\<close>

theorem join_lost_during_fetch:
  assumes "roster_sync_start sha n p d = (n1, Some (snap, addr))"
    and "redeem_invite now now' (tn_service n1) token i pub = (sv, Inr resp)"
    and "fetch_list decode r = Inr fetched" "i \<notin> rm_id ` set (cl_roster snap)" "i \<notin> rm_id ` set fetched"
    and "wf_roster (cl_roster snap)" "wf_roster fetched"
    and "\<not> roster_equal (merge_roster_states (cl_roster snap) fetched) (cl_roster snap)"
  defines "n3 \<equiv> roster_sync_finish decode (n1\<lparr>tn_service := sv\<rparr>) p snap r"
  shows "i \<in> rm_id ` set (jr_roster resp) \<and> stored_clan (n1\<lparr>tn_service := sv\<rparr>) \<noteq> Some snap \<and>
    stored_clan n3 = Some (snap\<lparr>cl_roster := merge_roster_states (cl_roster snap) fetched\<rparr>) \<and>
    i \<notin> rm_id ` set (merge_roster_states (cl_roster snap) fetched)"
proof -
  have upserted: "i \<in> rm_id ` set (upsert_roster rs (admitted_member t i pub))" for rs t
    by (induction rs) (auto simp: admitted_member_def)
  obtain c where c: "stored_clan (n1\<lparr>tn_service := sv\<rparr>) = Some c" "cl_roster c = jr_roster resp" "i \<in> rm_id ` set (jr_roster resp)"
      "st_writable (sv_store sv)"
    using assms(2) upserted
    by (auto simp: redeem_invite_def stored_clan_def store_clan_def save_clan_def Let_def fire_event_def log_audit_def
        split: if_splits sum.splits prod.splits option.splits)
  have "stored_clan n3 = Some (snap\<lparr>cl_roster := merge_roster_states (cl_roster snap) fetched\<rparr>)"
    using apply_roster_changed [of "n1\<lparr>tn_service := sv\<rparr>" snap fetched] c(4) assms(8)
    by (simp add: n3_def roster_sync_finish_def assms(3) Let_def stored_clan_def)
  moreover have "i \<notin> rm_id ` set (merge_roster_states (cl_roster snap) fetched)"
    using assms(4,5) arg_cong [OF merge_roster_ids [OF assms(6,7)], of set] by auto
  ultimately show ?thesis using c assms(4) by auto
qed

section \<open>Samples\<close>

definition sample_peer :: peer_member where
  "sample_peer = \<lparr>pm_id = ''p'', pm_address = ''h'', pm_discovered_via = SourceManual, pm_last_ad = 0, pm_last_seen_at = 0,
     pm_latest_ad = None, pm_ad_generation = 0, pm_heartbeat_seen = True\<rparr>"

definition sample_invite :: invite_token where
  "sample_invite = \<lparr>it_token = ''t'', it_clan_id = ''c'', it_issued_by = ''a'', it_issued_at = 0, it_expires_at = 100\<rparr>"

definition sample_trust :: "revocations \<Rightarrow> trust_node" where
  "sample_trust es =
     \<lparr>tn_service = (sample_service ''active'')\<lparr>sv_store := (sv_store (sample_service ''active''))\<lparr>st_revocations := Some es\<rparr>,
       sv_invites := [(''t'', sample_invite)]\<rparr>,
      tn_registry = new_registry\<lparr>rg_members := [(''p'', sample_peer)]\<rparr>, tn_rev_inflight = {}, tn_roster_inflight = {}\<rparr>"

lemma sample_rev_start:
  assumes "d \<noteq> []" "revocations_digest sha (Some es) \<noteq> d"
  shows "rev_sync_start sha (sample_trust es) ''p'' d = ((sample_trust es)\<lparr>tn_rev_inflight := {''p''}\<rparr>, Some (es, ''h''))"
  using assms by (simp add: rev_sync_start_def sample_trust_def sample_service_def load_revocations_def lookup_addr_def snapshot_def
      sample_peer_def new_registry_def Let_def)

lemma sample_fetch: "fetch_list (\<lambda>_. Some x) (Reply 200 (Some [])) = Inr x"
  by (simp add: fetch_list_def)

lemma no_hash: "revocations_digest (\<lambda>_. []) e = []"
  by (simp add: revocations_digest_def hex_encode_def split: option.split)

theorem revocation_sync_effect_witness:
  "revoked_ids (stored_revocations (fst (rev_maybe_sync (\<lambda>_. []) (\<lambda>_. Some [sample_revocation ''b'' 2]) (\<lambda>_. Reply 200 (Some []))
     (sample_trust [sample_revocation ''a'' 1]) ''p'' ''d''))) = {''a'', ''b''}"
  using revocation_sync_effect [OF sample_rev_start [of "''d''" "\<lambda>_. []" "[sample_revocation ''a'' 1]"]
      sample_fetch [of "[sample_revocation ''b'' 2]"]]
  by (auto simp: no_hash wf_revocations_def sample_trust_def sample_service_def sample_revocation_def stored_revocations_def revoked_ids_def)

theorem repeated_entry_blocks_sync_witness:
  "rev_maybe_sync (\<lambda>_. []) (\<lambda>_. Some [sample_revocation ''a'' 1, sample_revocation ''b'' 2]) (\<lambda>_. Reply 200 (Some []))
     (sample_trust [sample_revocation ''a'' 1, sample_revocation ''a'' 3]) ''p'' ''d'' =
   (sample_trust [sample_revocation ''a'' 1, sample_revocation ''a'' 3], True)"
  by (rule repeated_entry_blocks_sync [OF sample_rev_start sample_fetch])
    (simp_all add: no_hash revoked_ids_def sample_revocation_def insert_commute)

definition sample_run :: sync_run where
  "sample_run = \<lparr>sr_node = sample_trust [], sr_rev = [], sr_roster = []\<rparr>"

theorem one_fetch_per_peer_witness:
  "\<exists>c. sync_step (\<lambda>_. []) (\<lambda>_. None) (\<lambda>_. None) sample_run c \<and> sr_rev c = [(''p'', [])] \<and> tn_rev_inflight (sr_node c) = {''p''}"
proof -
  let ?c = "sample_run\<lparr>sr_node := (sample_trust [])\<lparr>tn_rev_inflight := {''p''}\<rparr>, sr_rev := (''p'', []) # sr_rev sample_run\<rparr>"
  have step: "sync_step (\<lambda>_. []) (\<lambda>_. None) (\<lambda>_. None) sample_run ?c"
    by (rule sync_step.rev_start [of _ _ "''p''" "''d''" _ _ "''h''"]) (simp add: sample_run_def sample_rev_start no_hash)
  then have steps: "(sync_step (\<lambda>_. []) (\<lambda>_. None) (\<lambda>_. None))\<^sup>*\<^sup>* sample_run ?c" by (rule r_into_rtranclp)
  have "set (map fst (sr_rev ?c)) = tn_rev_inflight (sr_node ?c)"
    using one_fetch_per_peer [OF steps] by (simp add: sample_run_def sample_trust_def)
  with step show ?thesis by (intro exI [of _ ?c]) (simp add: sample_run_def)
qed

theorem revocation_lost_during_fetch_witness:
  "\<exists>sv. revoke (\<lambda>_. []) 5 (tn_service (sample_trust [])) ''a'' ''lost'' ''b'' = (sv, None) \<and>
     ''a'' \<notin> revoked_ids (stored_revocations (rev_sync_finish (\<lambda>_. Some [sample_revocation ''b'' 2])
       ((sample_trust [])\<lparr>tn_rev_inflight := {''p''}, tn_service := sv\<rparr>) ''p'' [] (Reply 200 (Some []))))"
proof -
  have "snd (revoke (\<lambda>_. []) 5 (tn_service (sample_trust [])) ''a'' ''lost'' ''b'') = None"
    by (simp add: sample_trust_def revoke_def sample_service_def active_clan_def load_clan_def is_active_def sample_member_def
        store_clan_def save_clan_def load_revocations_def save_revocations_def Let_def)
  then obtain sv where sv: "revoke (\<lambda>_. []) 5 (tn_service (sample_trust [])) ''a'' ''lost'' ''b'' = (sv, None)"
    by (metis prod.collapse)
  then have sv': "revoke (\<lambda>_. []) 5 (tn_service ((sample_trust [])\<lparr>tn_rev_inflight := {''p''}\<rparr>)) ''a'' ''lost'' ''b'' = (sv, None)"
    by simp
  from revocation_lost_during_fetch [OF sample_rev_start [of "''d''" "\<lambda>_. []"] sv' sample_fetch [of "[sample_revocation ''b'' 2]"]] sv show ?thesis
    by (auto simp: no_hash revoked_ids_def wf_revocations_def sample_revocation_def)
qed

lemma sample_roster_start:
  "roster_sync_start (\<lambda>_. []) (sample_trust []) ''p'' ''d'' =
     ((sample_trust [])\<lparr>tn_roster_inflight := {''p''}\<rparr>, Some (empty_clan\<lparr>cl_id := ''c'', cl_roster := [sample_member ''a'' ''active'' 1]\<rparr>, ''h''))"
  by (simp add: roster_sync_start_def sample_trust_def sample_service_def load_clan_def lookup_addr_def snapshot_def
      sample_peer_def new_registry_def Let_def roster_digest_def hex_encode_def)

lemma sample_merge: "merge_roster_states [sample_member ''a'' ''active'' 1] [sample_member ''z'' ''active'' 2] =
    [sample_member ''a'' ''active'' 1, sample_member ''z'' ''active'' 2]"
  by (simp add: merge_roster_states_def sample_member_def)

theorem join_lost_during_fetch_witness:
  "\<exists>sv resp. redeem_invite 5 6 (tn_service (sample_trust [])) ''t'' ''j'' ''k'' = (sv, Inr resp) \<and> ''j'' \<in> rm_id ` set (jr_roster resp) \<and>
     stored_clan (roster_sync_finish (\<lambda>_. Some [sample_member ''z'' ''active'' 2])
       ((sample_trust [])\<lparr>tn_roster_inflight := {''p''}, tn_service := sv\<rparr>) ''p''
       (empty_clan\<lparr>cl_id := ''c'', cl_roster := [sample_member ''a'' ''active'' 1]\<rparr>) (Reply 200 (Some []))) =
     Some (empty_clan\<lparr>cl_id := ''c'', cl_roster := merge_roster_states [sample_member ''a'' ''active'' 1] [sample_member ''z'' ''active'' 2]\<rparr>)"
proof -
  have "\<exists>sv resp. redeem_invite 5 6 (tn_service (sample_trust [])) ''t'' ''j'' ''k'' = (sv, Inr resp)"
    by (simp add: redeem_invite_def redeem_def sample_trust_def sample_invite_def sample_service_def load_clan_def is_active_def
        store_clan_def save_clan_def Let_def)
  then obtain sv resp where r: "redeem_invite 5 6 (tn_service (sample_trust [])) ''t'' ''j'' ''k'' = (sv, Inr resp)" by blast
  then have r': "redeem_invite 5 6 (tn_service ((sample_trust [])\<lparr>tn_roster_inflight := {''p''}\<rparr>)) ''t'' ''j'' ''k'' = (sv, Inr resp)"
    by simp
  from join_lost_during_fetch [OF sample_roster_start r' sample_fetch [of "[sample_member ''z'' ''active'' 2]"]] r show ?thesis
    by (simp add: sample_merge) (simp add: sample_member_def wf_roster_def roster_equal_def)
qed

end
