(* ===== verification/Paths.thy ===== *)
theory Paths
  imports Prelude
begin

text \<open>
  The lexical path functions of Go's \<open>path/filepath\<close> on Unix that the repository uses: \<open>Clean\<close>,
  \<open>Join\<close>, \<open>Dir\<close> and the prefix test its jails are built on (\<open>hasPrefix\<close> of
  \<open>mcp-servers/internal/permission\<close>, \<open>underHome\<close> of \<open>mcp-fs\<close>), read as lists of components.
\<close>

abbreviation slash :: char where "slash \<equiv> CHR ''/''"

section \<open>Splitting\<close>

fun split_on :: "char \<Rightarrow> string \<Rightarrow> string list" where
  "split_on c [] = [[]]"
| "split_on c (x # s) =
     (if x = c then [] # split_on c s else (case split_on c s of y # ys \<Rightarrow> (x # y) # ys | [] \<Rightarrow> [[x]]))"

lemma split_on_not_Nil [simp]: "split_on c s \<noteq> []"
  by (induction s) (auto split: list.split)

lemma split_on_free: "x \<in> set (split_on c s) \<Longrightarrow> free_of c x"
  by (induction s arbitrary: x) (auto split: list.splits if_splits)

lemma split_on_word: "free_of c x \<Longrightarrow> split_on c x = [x]"
  by (induction x) auto

lemma split_on_append: "free_of c x \<Longrightarrow> split_on c (x @ c # s) = x # split_on c s"
  by (induction x) auto

lemma split_on_join: "\<forall>x\<in>set xs. free_of c x \<Longrightarrow> xs \<noteq> [] \<Longrightarrow> split_on c (join c xs) = xs"
proof (induction xs)
  case (Cons x xs)
  then show ?case by (cases "xs = []") (simp_all add: join_Cons_cases split_on_word split_on_append)
qed simp

lemma split_on_append_sep: "split_on c (s @ c # t) = split_on c s @ split_on c t"
  by (induction s) (auto split: list.split)

section \<open>Clean\<close>

definition clean_step :: "bool \<Rightarrow> string list \<Rightarrow> string \<Rightarrow> string list" where
  "clean_step rooted acc e =
     (if e = [] \<or> e = ''.'' then acc
      else if e = ''..'' then
        (if acc \<noteq> [] \<and> last acc \<noteq> ''..'' then butlast acc else if rooted then acc else acc @ [''..''])
      else acc @ [e])"

definition rooted :: "string \<Rightarrow> bool" where
  "rooted p \<longleftrightarrow> p \<noteq> [] \<and> hd p = slash"

definition parts :: "string \<Rightarrow> string list" where
  "parts p = foldl (clean_step (rooted p)) [] (split_on slash p)"

definition of_parts :: "bool \<Rightarrow> string list \<Rightarrow> string" where
  "of_parts r ps = (if r then slash # join slash ps else if ps = [] then ''.'' else join slash ps)"

definition clean :: "string \<Rightarrow> string" where
  "clean p = of_parts (rooted p) (parts p)"

definition path_join :: "string \<Rightarrow> string \<Rightarrow> string" where
  "path_join a b = (if a = [] then (if b = [] then [] else clean b) else clean (a @ slash # b))"

definition path_dir :: "string \<Rightarrow> string" where
  "path_dir p = clean (rev (dropWhile (\<lambda>c. c \<noteq> slash) (rev p)))"

text \<open>\<open>hasPrefix\<close> and \<open>underHome\<close>: both sides are cleaned first.\<close>

definition under :: "string \<Rightarrow> string \<Rightarrow> bool" where
  "under path prefix =
     (let p = clean path; q = clean prefix in p = q \<or> take (length q + 1) p = q @ [slash])"

section \<open>Cleaned components\<close>

definition plain :: "string \<Rightarrow> bool" where
  "plain e \<longleftrightarrow> e \<noteq> [] \<and> e \<noteq> ''.'' \<and> e \<noteq> ''..'' \<and> free_of slash e"

text \<open>A cleaned list: parent steps only in front, and only in a relative path.\<close>

definition clean_list :: "bool \<Rightarrow> string list \<Rightarrow> bool" where
  "clean_list r ps \<longleftrightarrow> (\<exists>k xs. ps = replicate k ''..'' @ xs \<and> (\<forall>x\<in>set xs. plain x) \<and> (r \<longrightarrow> k = 0))"

lemma clean_list_step:
  assumes "clean_list r ps" "free_of slash e"
  shows "clean_list r (clean_step r ps e)"
proof -
  from assms(1) obtain k xs where ps: "ps = replicate k ''..'' @ xs" "\<forall>x\<in>set xs. plain x" "r \<longrightarrow> k = 0"
    unfolding clean_list_def by blast
  consider "e = [] \<or> e = ''.''" | "e = ''..''" "xs = []" | "e = ''..''" "xs \<noteq> []" | "plain e"
    using assms(2) by (auto simp: plain_def)
  then show ?thesis
  proof cases
    case 1
    with assms(1) show ?thesis by (auto simp: clean_step_def)
  next
    case 2
    have "clean_step r ps e = (if r then [] else replicate (Suc k) ''..'')"
      using ps 2 by (auto simp: clean_step_def replicate_append_same)
    then show ?thesis using 2 unfolding clean_list_def by (metis append_Nil2 empty_iff empty_set replicate_0)
  next
    case 3
    then have "last xs \<noteq> ''..''" using ps(2) last_in_set plain_def by metis
    with 3 ps have "clean_step r ps e = replicate k ''..'' @ butlast xs"
      by (simp add: clean_step_def butlast_append)
    moreover have "\<forall>x\<in>set (butlast xs). plain x" using ps(2) by (auto dest: in_set_butlastD)
    ultimately show ?thesis using ps(3) unfolding clean_list_def by blast
  next
    case 4
    then have "clean_step r ps e = replicate k ''..'' @ (xs @ [e])" using ps by (simp add: clean_step_def plain_def)
    then show ?thesis using ps 4 unfolding clean_list_def by (intro exI [of _ k] exI [of _ "xs @ [e]"]) auto
  qed
qed

lemma clean_list_foldl:
  "clean_list r ps \<Longrightarrow> \<forall>e\<in>set es. free_of slash e \<Longrightarrow> clean_list r (foldl (clean_step r) ps es)"
  by (induction es arbitrary: ps) (simp_all add: clean_list_step)

lemma clean_list_Nil: "clean_list r []"
proof -
  have "[] = replicate 0 ''..'' @ [] \<and> (\<forall>x\<in>set []. plain x) \<and> (r \<longrightarrow> 0 = (0::nat))" by simp
  then show ?thesis unfolding clean_list_def by blast
qed

lemma clean_list_parts: "clean_list (rooted p) (parts p)"
proof -
  have "\<forall>e\<in>set (split_on slash p). free_of slash e" using split_on_free by fast
  with clean_list_Nil show ?thesis unfolding parts_def by (rule clean_list_foldl)
qed

lemma clean_list_no_slash: "clean_list r ps \<Longrightarrow> e \<in> set ps \<Longrightarrow> free_of slash e \<and> e \<noteq> []"
proof -
  assume "clean_list r ps" and e: "e \<in> set ps"
  then obtain k xs where ps: "ps = replicate k ''..'' @ xs" "\<forall>x\<in>set xs. plain x"
    unfolding clean_list_def by blast
  from e have "e = ''..'' \<or> e \<in> set xs" unfolding ps(1) set_append by (auto split: if_splits)
  then show "free_of slash e \<and> e \<noteq> []"
  proof
    assume "e = ''..''"
    then show ?thesis by simp
  next
    assume "e \<in> set xs"
    with ps(2) have "plain e" by blast
    then show ?thesis by (simp add: plain_def)
  qed
qed

lemma clean_step_plain: "plain e \<Longrightarrow> clean_step r ps e = ps @ [e]"
  by (simp add: clean_step_def plain_def)

lemma foldl_plain: "\<forall>e\<in>set es. plain e \<Longrightarrow> foldl (clean_step r) ps es = ps @ es"
  by (induction es arbitrary: ps) (simp_all add: clean_step_plain)

lemma foldl_dotdots: "foldl (clean_step False) (replicate j ''..'') (replicate k ''..'') = replicate (j + k) ''..''"
proof (induction k arbitrary: j)
  case (Suc k)
  have "clean_step False (replicate j ''..'') ''..'' = replicate (Suc j) ''..''"
    by (auto simp: clean_step_def replicate_append_same)
  with Suc [of "Suc j"] show ?case by simp
qed simp

lemma foldl_clean_list:
  assumes "clean_list r ps"
  shows "foldl (clean_step r) [] ps = ps"
proof -
  from assms obtain k xs where ps: "ps = replicate k ''..'' @ xs" "\<forall>x\<in>set xs. plain x" "r \<longrightarrow> k = 0"
    unfolding clean_list_def by blast
  have "foldl (clean_step r) [] (replicate k ''..'') = replicate k ''..''"
    using foldl_dotdots [of 0 k] ps(3) by (cases r) auto
  with ps foldl_plain [OF ps(2)] show ?thesis by simp
qed

lemma rooted_of_parts: "clean_list r ps \<Longrightarrow> rooted (of_parts r ps) = r"
proof (cases "r \<or> ps = []")
  case True
  then show ?thesis by (auto simp: of_parts_def rooted_def)
next
  case False
  assume c: "clean_list r ps"
  from False obtain e es where ps: "ps = e # es" by (cases ps) auto
  with clean_list_no_slash [OF c, of e] have "free_of slash e" "e \<noteq> []" by simp_all
  with False ps show ?thesis by (cases e) (auto simp: of_parts_def rooted_def join_Cons_cases)
qed

lemma parts_of_parts:
  assumes "clean_list r ps"
  shows "parts (of_parts r ps) = ps"
proof (cases "ps = []")
  case True
  then show ?thesis by (simp add: of_parts_def parts_def rooted_def clean_step_def)
next
  case False
  have split: "split_on slash (join slash ps) = ps"
    by (rule split_on_join) (use clean_list_no_slash [OF assms] False in auto)
  show ?thesis
  proof (cases r)
    case True
    then have "split_on slash (of_parts r ps) = [] # ps"
      using split by (simp add: of_parts_def)
    with rooted_of_parts [OF assms] foldl_clean_list [OF assms] show ?thesis
      by (simp add: parts_def clean_step_def)
  next
    case r: False
    then have "split_on slash (of_parts r ps) = ps" using split False by (simp add: of_parts_def)
    with rooted_of_parts [OF assms] foldl_clean_list [OF assms] show ?thesis by (simp add: parts_def)
  qed
qed

lemma clean_idem [simp]: "clean (clean p) = clean p"
  unfolding clean_def by (simp add: rooted_of_parts parts_of_parts clean_list_parts)

lemma of_parts_inj:
  assumes "clean_list r ps" "clean_list r' ps'"
  shows "of_parts r ps = of_parts r' ps' \<longleftrightarrow> r = r' \<and> ps = ps'"
proof
  assume eq: "of_parts r ps = of_parts r' ps'"
  have "r = r'" using rooted_of_parts [OF assms(1)] rooted_of_parts [OF assms(2)] eq by simp
  moreover have "ps = ps'" using parts_of_parts [OF assms(1)] parts_of_parts [OF assms(2)] eq by simp
  ultimately show "r = r' \<and> ps = ps'" ..
qed simp

lemma of_parts_not_Nil: "clean_list r ps \<Longrightarrow> of_parts r ps \<noteq> []"
  using clean_list_no_slash [of r ps "hd ps"] by (cases ps) (auto simp: of_parts_def join_Cons_cases)

section \<open>The prefix test\<close>

lemma join_append:
  "xs \<noteq> [] \<Longrightarrow> ys \<noteq> [] \<Longrightarrow> join c (xs @ ys) = join c xs @ c # join c ys"
  by (induction xs) (auto simp: join_Cons_cases)

lemma prefix_join:
  assumes "\<forall>x\<in>set xs. free_of c x" "\<forall>y\<in>set ys. free_of c y" "xs \<noteq> []"
    and "join c ys = join c xs @ c # t"
  shows "\<exists>zs. zs \<noteq> [] \<and> ys = xs @ zs"
proof -
  have ne: "ys \<noteq> []" using assms(4) by auto
  have "ys = split_on c (join c ys)" using split_on_join assms(2) ne by metis
  also have "\<dots> = split_on c (join c xs) @ split_on c t" by (simp add: assms(4) split_on_append_sep)
  also have "\<dots> = xs @ split_on c t" using split_on_join [OF assms(1,3)] by simp
  finally show ?thesis by (intro exI [of _ "split_on c t"]) simp
qed

text \<open>
  A path is under a prefix other than the root and the current directory exactly when both are rooted or
  both relative and the cleaned components of the prefix begin those of the path: no sibling that merely
  starts with the same letters, and no way out through parent steps.
\<close>

lemma under_components:
  assumes "parts q \<noteq> []"
  shows "under p q \<longleftrightarrow> rooted p = rooted q \<and> (\<exists>zs. parts p = parts q @ zs)"
proof -
  let ?P = "parts p" and ?Q = "parts q"
  have P: "clean_list (rooted p) ?P" and Q: "clean_list (rooted q) ?Q" by (rule clean_list_parts)+
  have free: "\<forall>x\<in>set ?P. free_of slash x" "\<forall>x\<in>set ?Q. free_of slash x"
    using clean_list_no_slash [OF P] clean_list_no_slash [OF Q] by blast+
  have eq: "clean p = clean q \<longleftrightarrow> rooted p = rooted q \<and> ?P = ?Q"
    unfolding clean_def by (rule of_parts_inj [OF P Q])
  have "take (length (clean q) + 1) (clean p) = clean q @ [slash] \<longleftrightarrow> (\<exists>t. clean p = clean q @ slash # t)"
  proof
    assume "take (length (clean q) + 1) (clean p) = clean q @ [slash]"
    then have "clean p = (clean q @ [slash]) @ drop (length (clean q) + 1) (clean p)"
      by (metis append_take_drop_id)
    then show "\<exists>t. clean p = clean q @ slash # t" by auto
  qed auto
  also have "\<dots> \<longleftrightarrow> rooted p = rooted q \<and> (\<exists>zs. zs \<noteq> [] \<and> ?P = ?Q @ zs)"
  proof
    assume "\<exists>t. clean p = clean q @ slash # t"
    then obtain t where t: "clean p = clean q @ slash # t" ..
    have nq: "clean q \<noteq> []" unfolding clean_def by (rule of_parts_not_Nil [OF Q])
    with t have "hd (clean p) = hd (clean q)" "clean p \<noteq> []" by auto
    then have r: "rooted p = rooted q"
      using nq rooted_of_parts [OF P] rooted_of_parts [OF Q] by (simp add: clean_def rooted_def)
    moreover have "?P \<noteq> []"
    proof
      assume "?P = []"
      then have "length (clean p) = 1" by (simp add: clean_def of_parts_def)
      with arg_cong [OF t, of length] nq show False by simp
    qed
    ultimately have "join slash ?P = join slash ?Q @ slash # t"
      using t assms by (auto simp: clean_def of_parts_def split: if_splits)
    from prefix_join [OF free(2,1) assms this] r
    show "rooted p = rooted q \<and> (\<exists>zs. zs \<noteq> [] \<and> ?P = ?Q @ zs)" by simp
  next
    assume "rooted p = rooted q \<and> (\<exists>zs. zs \<noteq> [] \<and> ?P = ?Q @ zs)"
    then obtain zs where "rooted p = rooted q" "zs \<noteq> []" "?P = ?Q @ zs" by blast
    then show "\<exists>t. clean p = clean q @ slash # t"
      using assms by (simp add: clean_def of_parts_def join_append)
  qed
  finally show ?thesis using eq unfolding under_def Let_def by auto
qed

end
