(* ===== verification/Scribe.thy ===== *)
theory Scribe
  imports MemoryService Paths "HOL-Library.Sublist"
begin

text \<open>
  \<open>cland/internal/memory/scribe.go\<close>: the scribe's distillation pass. It gathers new activity from files and the
  graph, prompts a model and writes what it proposes. The files of one tick, the model's answer, the JSON decoders,
  the quoting verb \<open>%q\<close> and the random bytes of new ids are parameters; the parser that hunts for an array in the
  answer, the gate on each proposal and the writes are the code's. Logs are left out.
\<close>

section \<open>Constants and data\<close>

definition default_scribe_interval :: duration where "default_scribe_interval = 120 * second"
definition max_proposals_per_pass :: nat where "max_proposals_per_pass = 5"
definition pending_proposal_budget :: nat where "pending_proposal_budget = 200"
definition max_activity_bytes :: nat where "max_activity_bytes = 6 * 1024"

record proposal =
  pp_type :: string
  pp_title :: string
  pp_body :: string
  pp_session_id :: string
  pp_tags :: "string list"

definition proposal_types :: "string list" where
  "proposal_types = [''fact'', ''finding'', ''decision'', ''skill'']"

section \<open>Parsing the model's answer\<close>

text \<open>
  \<open>strings.ToLower\<close> as far as its callers look at ASCII letters: the two non-ASCII runes with an ASCII lower case
  (the Kelvin sign and the dotted capital I) are mapped, other non-ASCII runes are left as they are.
\<close>

definition lower_piece :: "string \<Rightarrow> string" where
  "lower_piece r =
     (if map byte r = [226, 132, 170] then ''k''
      else if map byte r = [196, 176] then ''i''
      else to_lower r)"

definition lower :: "string \<Rightarrow> string" where
  "lower s = concat (map lower_piece (pieces s))"

text \<open>\<open>strings.Index\<close>.\<close>

fun index_of :: "string \<Rightarrow> string \<Rightarrow> nat option" where
  "index_of p [] = (if p = [] then Some 0 else None)"
| "index_of p (c # s) = (if prefix p (c # s) then Some 0 else map_option Suc (index_of p s))"

text \<open>\<open>validProposal\<close>: the normalized entry, or \<open>None\<close> when it is refused.\<close>

definition valid_proposal :: "proposal \<Rightarrow> proposal option" where
  "valid_proposal p =
     (let p = p\<lparr>pp_type := trim (lower (pp_type p)), pp_title := trim (pp_title p)\<rparr>
      in if pp_type p \<notin> set proposal_types \<or> pp_title p = [] then None
         else
           let p = (if rune_count (pp_title p) > max_title_chars then p\<lparr>pp_title := take_runes max_title_chars (pp_title p)\<rparr> else p);
               p = (if length (pp_body p) > 2048 then p\<lparr>pp_body := take 2048 (pp_body p)\<rparr> else p);
               p = (if length (pp_tags p) > max_tags then p\<lparr>pp_tags := take max_tags (pp_tags p)\<rparr> else p)
           in Some p)"

fun keep_valid :: "proposal list \<Rightarrow> proposal list \<Rightarrow> proposal list" where
  "keep_valid out [] = out"
| "keep_valid out (p # cand) =
     (case valid_proposal p of
        None \<Rightarrow> keep_valid out cand
      | Some q \<Rightarrow>
          let out = out @ [q]
          in if length out = max_proposals_per_pass then out else keep_valid out cand)"

text \<open>
  The scan of \<open>ParseProposals\<close>, from position \<open>pos\<close>: \<open>decode\<close> reads one JSON value at the start of a text as a list
  of proposals. The result of a loop that ends is \<open>Some\<close> of the slice (\<open>None\<close> for nil).
\<close>

partial_function (option) scan_from ::
  "(string \<Rightarrow> proposal list option) \<Rightarrow> string \<Rightarrow> nat \<Rightarrow> proposal list option option" where
  "scan_from decode raw pos =
     (case index_of ''['' (drop pos raw) of
        None \<Rightarrow> Some None
      | Some idx \<Rightarrow>
          (case decode (drop (pos + idx) raw) of
             Some cand \<Rightarrow> Some (Some (keep_valid [] cand))
           | None \<Rightarrow>
               if pos + idx + 1 \<ge> length raw then Some None
               else scan_from decode raw (pos + idx + 1)))"

declare scan_from.simps [code]

definition strip_think :: "string \<Rightarrow> string" where
  "strip_think raw =
     (case index_of ''</think>'' raw of None \<Rightarrow> raw | Some i \<Rightarrow> drop (i + length ''</think>'') raw)"

definition parse_proposals :: "(string \<Rightarrow> proposal list option) \<Rightarrow> string \<Rightarrow> proposal list option option" where
  "parse_proposals decode raw = scan_from decode (strip_think raw) 0"

section \<open>Gathering activity\<close>

record scribe =
  sc_self_id :: member_id
  sc_clan_id :: string
  sc_runtime_base :: string
  sc_chat_dir :: string
  sc_audit_path :: string
  sc_offsets :: "string \<rightharpoonup> nat"
  sc_findings_mark :: time
  sc_seeded :: bool

text \<open>
  The files as one tick finds them: the directory listing (name, is it a directory), the size of a file when it is
  looked up, and its content when it is then opened and read (\<open>None\<close> for an error).
\<close>

record files =
  fi_list :: "string \<Rightarrow> (string \<times> bool) list option"
  fi_size :: "string \<Rightarrow> nat option"
  fi_content :: "string \<Rightarrow> bytes option"

definition tail_file :: "files \<Rightarrow> scribe \<Rightarrow> string \<Rightarrow> scribe \<times> string" where
  "tail_file f s path =
     (case fi_size f path of
        None \<Rightarrow> (s, [])
      | Some len \<Rightarrow>
          (case sc_offsets s path of
             None \<Rightarrow> (s\<lparr>sc_offsets := (sc_offsets s)(path \<mapsto> len)\<rparr>, [])
           | Some mark \<Rightarrow>
               if len < mark then (s\<lparr>sc_offsets := (sc_offsets s)(path \<mapsto> len)\<rparr>, [])
               else if len = mark then (s, [])
               else case fi_content f path of
                 None \<Rightarrow> (s, [])
               | Some content \<Rightarrow>
                   let chunk = take max_activity_bytes (drop mark content)
                   in (s\<lparr>sc_offsets := (sc_offsets s)(path \<mapsto> mark + length chunk)\<rparr>, chunk)))"

definition chat_names :: "files \<Rightarrow> string \<Rightarrow> string list" where
  "chat_names f dir =
     (case fi_list f dir of
        None \<Rightarrow> []
      | Some es \<Rightarrow> sort (map fst (filter (\<lambda>(name, is_dir). \<not> is_dir \<and> suffix ''.jsonl'' name) es)))"

fun tail_chats :: "files \<Rightarrow> scribe \<Rightarrow> string list \<Rightarrow> scribe \<times> string \<times> bool" where
  "tail_chats f s [] = (s, [], False)"
| "tail_chats f s (name # names) =
     (case tail_file f s (path_join (sc_chat_dir s) name) of
        (s1, chunk) \<Rightarrow>
          (case tail_chats f s1 names of
             (s2, text, fresh) \<Rightarrow>
               if chunk \<noteq> [] then (s2, ''--- chat '' @ name @ '' ---'' @ [LF] @ chunk @ [LF] @ text, True)
               else (s2, text, fresh)))"

definition open_sessions :: "graph \<Rightarrow> (string \<rightharpoonup> string)" where
  "open_sessions g =
     foldl (\<lambda>m n. m(gn_id n \<mapsto> gn_title n)) Map.empty
       (filter (\<lambda>n. gn_type n = ''research_session'' \<and> gn_status n = ''active'') (gr_nodes g))"

definition fresh_findings :: "time \<Rightarrow> graph \<Rightarrow> gnode list" where
  "fresh_findings mark g =
     filter (\<lambda>n. gn_session_id n \<noteq> [] \<and> gn_status n = ''active'' \<and> open_sessions g (gn_session_id n) \<noteq> None \<and>
       pv_source (gn_provenance n) \<noteq> ''scribe'' \<and> mark < gn_updated_at n) (gr_nodes g)"

definition short_id8 :: "string \<Rightarrow> string" where
  "short_id8 i = (if length i > 8 then take 8 i else i)"

definition finding_text :: "(string \<Rightarrow> string) \<Rightarrow> graph \<Rightarrow> gnode \<Rightarrow> string" where
  "finding_text quote g n =
     ''--- research [session '' @ short_id8 (gn_session_id n) @ '' '' @
     quote (case open_sessions g (gn_session_id n) of None \<Rightarrow> [] | Some t \<Rightarrow> t) @ ''] ---'' @ [LF] @
     gn_type n @ '': '' @ gn_title n @ [LF] @ gn_body n @ [LF]"

definition gather ::
  "(string \<Rightarrow> string) \<Rightarrow> files \<Rightarrow> graph \<Rightarrow> time \<Rightarrow> scribe \<Rightarrow> scribe \<times> string \<times> bool" where
  "gather quote f snap now s =
     (case (if sc_chat_dir s \<noteq> [] then tail_chats f s (chat_names f (sc_chat_dir s)) else (s, [], False)) of
        (s1, chats, fresh1) \<Rightarrow>
          (case (if sc_audit_path s1 \<noteq> [] then tail_file f s1 (sc_audit_path s1) else (s1, [])) of
             (s2, chunk) \<Rightarrow>
               let log = (if chunk \<noteq> [] then ''--- clan activity (audit) ---'' @ [LF] @ chunk @ [LF] else []);
                   found = fresh_findings (sc_findings_mark s2) snap;
                   s3 = s2\<lparr>sc_findings_mark := now\<rparr>;
                   out = chats @ log @ concat (map (finding_text quote snap) found)
               in (s3, if length out > max_activity_bytes then drop (length out - max_activity_bytes) out else out,
                   fresh1 \<or> chunk \<noteq> [] \<or> found \<noteq> [])))"

section \<open>Distilling\<close>

datatype completion = NoCompletion | Completion http_status "bytes option"

datatype distill_error = RuntimeFailed | RuntimeStatus http_status | BadCompletion | NoChoices | NoEnd

definition scribe_prompt :: "string \<Rightarrow> string" where
  "scribe_prompt activity =
     ''You are the Clan Scribe '' @ [CHR 0xE2, CHR 0x80, CHR 0x94] @ '' the archivist of a small research collective of machines. '' @
     ''Below is recent Clan activity. Propose AT MOST '' @ dec_nat max_proposals_per_pass @
     '' durable memories worth keeping forever. Prefer hard-won facts, decisions, findings, and skills; '' @
     ''skip chit-chat, status noise, and anything ephemeral.'' @ [LF, LF] @
     ''STRICT OUTPUT FORMAT '' @ [CHR 0xE2, CHR 0x80, CHR 0x94] @ '' a single JSON array, no prose before or after:'' @ [LF] @
     ''[{\"type\":\"fact|finding|decision|skill\",\"title\":\"<=120 chars\",\"body\":\"<=500 chars\",\"session_id\":\"<research session id this belongs to, or empty>\",\"tags\":[\"lowercase\",\"short\"]}]'' @
     [LF] @ ''If nothing is durable, output [].'' @ [LF, LF] @ ''=== ACTIVITY ==='' @ [LF] @ activity"

definition completion_body :: "string \<Rightarrow> string \<Rightarrow> bytes" where
  "completion_body model activity = json_obj
     [json_member ''max_tokens'' ''1200'',
      json_member ''messages'' (''['' @ json_obj
        [json_member ''content'' (json_string (scribe_prompt activity)), json_member ''role'' (json_string ''user'')] @ '']''),
      json_member ''model'' (json_string model),
      json_member ''stream'' ''false'',
      json_member ''temperature'' ''0.2'']"

definition trim_right_slash :: "string \<Rightarrow> string" where
  "trim_right_slash s = rev (dropWhile (\<lambda>c. c = slash) (rev s))"

definition distill ::
  "(string \<Rightarrow> bytes \<Rightarrow> completion) \<Rightarrow> (bytes \<Rightarrow> string list option) \<Rightarrow> (string \<Rightarrow> proposal list option) \<Rightarrow>
     scribe \<Rightarrow> string \<Rightarrow> string \<Rightarrow> distill_error + proposal list option" where
  "distill post choices decode s model activity =
     (case post (trim_right_slash (sc_runtime_base s) @ ''/v1/chat/completions'') (completion_body model activity) of
        NoCompletion \<Rightarrow> Inl RuntimeFailed
      | Completion st None \<Rightarrow> Inl RuntimeFailed
      | Completion st (Some body) \<Rightarrow>
          let raw = take (2 ^ 20) body
          in if st \<noteq> 200 then Inl (RuntimeStatus st)
             else case choices raw of
               None \<Rightarrow> Inl BadCompletion
             | Some [] \<Rightarrow> Inl NoChoices
             | Some (c # _) \<Rightarrow> (case parse_proposals decode c of None \<Rightarrow> Inl NoEnd | Some ps \<Rightarrow> Inr ps))"

section \<open>Writing\<close>

definition open_ids :: "graph \<Rightarrow> string set" where
  "open_ids g = gn_id ` set (filter (\<lambda>n. gn_type n = ''research_session'' \<and> gn_status n = ''active'') (gr_nodes g))"

definition summary_title :: "string \<Rightarrow> bool" where
  "summary_title t = prefix ''session summary'' (lower t)"

definition proposal_node :: "(bytes \<Rightarrow> bytes) \<Rightarrow> scribe \<Rightarrow> string set \<Rightarrow> proposal \<Rightarrow> gnode" where
  "proposal_node sha s opened p =
     (let session = (if pp_session_id p \<noteq> [] \<and> pp_session_id p \<notin> opened then [] else pp_session_id p)
      in \<lparr>gn_id = (if session \<noteq> [] \<and> summary_title (pp_title p)
                   then deterministic_event_id sha (sc_clan_id s) ''session_summary'' session [] else []),
          gn_type = pp_type p, gn_title = pp_title p, gn_body = pp_body p, gn_tags = pp_tags p, gn_status = ''proposed'',
          gn_session_id = session, gn_provenance = \<lparr>pv_author = [], pv_source = ''scribe'', pv_created_at = zero_time\<rparr>,
          gn_updated_at = zero_time, gn_rev = 0\<rparr>)"

definition write_one ::
  "(bytes \<Rightarrow> bytes) \<Rightarrow> scribe \<Rightarrow> string set \<Rightarrow> time \<Rightarrow> memory_service \<times> nat \<Rightarrow> bytes option \<times> proposal \<Rightarrow> memory_service \<times> nat" where
  "write_one sha s opened now mw rp =
     (case mw of (m, landed) \<Rightarrow> case rp of (rand, p) \<Rightarrow>
        (case add_or_update_node sha rand m (sc_self_id s) (proposal_node sha s opened p) now of
           (m1, Inl _) \<Rightarrow> (m1, landed)
         | (m1, Inr stored) \<Rightarrow>
             ((if gn_session_id stored \<noteq> []
               then fst (add_edge sha m1 (sc_self_id s)
                 \<lparr>ge_from = gn_id stored, ge_to = gn_session_id stored, ge_relation = ''contributes_to'',
                  ge_created_at = zero_time, ge_created_by = []\<rparr> now)
               else m1), landed + 1)))"

definition write_proposals ::
  "(bytes \<Rightarrow> bytes) \<Rightarrow> (nat \<Rightarrow> bytes option) \<Rightarrow> scribe \<Rightarrow> memory_service \<Rightarrow> proposal list \<Rightarrow> time \<Rightarrow> memory_service \<times> nat" where
  "write_proposals sha rands s m ps now =
     (if length ps = 0 then (m, 0)
      else foldl (write_one sha s (open_ids (memory_snapshot sha m)) now) (m, 0) (zip (map rands [0..<length ps]) ps))"

definition pending_proposals :: "(bytes \<Rightarrow> bytes) \<Rightarrow> scribe \<Rightarrow> memory_service \<Rightarrow> nat" where
  "pending_proposals sha s m =
     length (filter (\<lambda>n. gn_status n = ''proposed'' \<and> pv_source (gn_provenance n) = ''scribe'' \<and>
       pv_author (gn_provenance n) = sc_self_id s) (gr_nodes (memory_snapshot sha m)))"

section \<open>One tick\<close>

text \<open>What a tick reads from outside: the files, the clock, the role, the model picked and the model's answer.\<close>

record scribe_env =
  en_files :: files
  en_now :: time
  en_is_scribe :: bool
  en_model :: string
  en_post :: "string \<Rightarrow> bytes \<Rightarrow> completion"
  en_rands :: "nat \<Rightarrow> bytes option"

definition scribe_tick ::
  "(bytes \<Rightarrow> bytes) \<Rightarrow> (string \<Rightarrow> string) \<Rightarrow> (bytes \<Rightarrow> string list option) \<Rightarrow> (string \<Rightarrow> proposal list option) \<Rightarrow>
     scribe_env \<Rightarrow> scribe \<times> memory_service \<Rightarrow> scribe \<times> memory_service" where
  "scribe_tick sha quote choices decode v sm =
     (case sm of (s, m) \<Rightarrow>
        let now = en_now v;
            collect = gather quote (en_files v) (memory_snapshot sha m) now s
        in if \<not> sc_seeded s then ((fst collect)\<lparr>sc_seeded := True\<rparr>, m)
           else if \<not> en_is_scribe v then (fst collect, m)
           else if pending_proposals sha s m > pending_proposal_budget then (fst collect, m)
           else
             (case collect of
                (s1, activity, fresh) \<Rightarrow>
                  if \<not> fresh then (s1, m)
                  else if en_model v = [] then (s1, m)
                  else
                    (case distill (en_post v) choices decode s1 (en_model v) activity of
                       Inl _ \<Rightarrow> (s1, m)
                     | Inr ps \<Rightarrow>
                         (case write_proposals sha (en_rands v) s1 m (case ps of None \<Rightarrow> [] | Some ps \<Rightarrow> ps) now of
                            (m1, landed) \<Rightarrow>
                              if landed > 0
                              then (s1, m1\<lparr>ms_audit := ms_audit m1 @ [Audit ''memory.scribe'' ''allow'' ''distilled'']\<rparr>)
                              else (s1, m1)))))"

section \<open>Picking the model\<close>

text \<open>\<open>strconv.ParseFloat\<close> on digits and dots: \<open>Dec m k\<close> is m / 10^k, exact where the code has the nearest 64-bit float.\<close>

datatype decimal = Dec int nat

fun dec_less :: "decimal \<Rightarrow> decimal \<Rightarrow> bool" where
  "dec_less (Dec a k) (Dec b l) \<longleftrightarrow> a * 10 ^ l < b * 10 ^ k"

abbreviation (input) no_hint :: decimal where "no_hint \<equiv> Dec (- 1) 0"
abbreviation (input) dec_zero :: decimal where "dec_zero \<equiv> Dec 0 0"

definition digit_value :: "string \<Rightarrow> int" where
  "digit_value ds = foldl (\<lambda>v c. 10 * v + int (byte c - 48)) 0 ds"

definition parse_float :: "string \<Rightarrow> decimal option" where
  "parse_float s =
     (case split_on (CHR ''.'') s of
        [a] \<Rightarrow> if a = [] then None else Some (Dec (digit_value a) 0)
      | [a, b] \<Rightarrow> if a = [] \<and> b = [] then None else Some (Dec (digit_value (a @ b)) (length b))
      | _ \<Rightarrow> None)"

definition number_char :: "char \<Rightarrow> bool" where
  "number_char c \<longleftrightarrow> c = CHR ''.'' \<or> 48 \<le> byte c \<and> byte c \<le> 57"

text \<open>The loop of \<open>paramHint\<close>: \<open>seen\<close> is the part before the current position, last character first.\<close>

fun hint_from :: "string \<Rightarrow> string \<Rightarrow> decimal" where
  "hint_from seen [] = no_hint"
| "hint_from seen (c # s) =
     (if c \<noteq> CHR ''b'' then hint_from (c # seen) s
      else
        let digits = rev (takeWhile number_char seen)
        in if digits = [] then hint_from (c # seen) s
           else case parse_float digits of Some v \<Rightarrow> v | None \<Rightarrow> hint_from (c # seen) s)"

definition param_hint :: "string \<Rightarrow> decimal" where
  "param_hint tag = hint_from [] (lower tag)"

text \<open>\<open>forced\<close> is the value of the environment variable that overrides the choice.\<close>

definition pick_smaller :: "string \<times> decimal \<Rightarrow> string \<Rightarrow> string \<times> decimal" where
  "pick_smaller b m =
     (case b of (best, best_size) \<Rightarrow>
        let hint = param_hint m
        in if best = [] \<or> (\<not> dec_less hint dec_zero \<and> (dec_less best_size dec_zero \<or> dec_less hint best_size)) then
             (if best = [] \<or> \<not> dec_less hint dec_zero then (m, hint) else (best, best_size))
           else (best, best_size))"

definition smallest_resident_model :: "string \<Rightarrow> string list \<Rightarrow> string" where
  "smallest_resident_model forced models = (if forced \<noteq> [] then forced else fst (foldl pick_smaller ([], no_hint) models))"

end
