(* ===== verification/ScribeProps.thy ===== *)
theory ScribeProps
  imports Scribe MemoryProps
begin

text \<open>
  What the scribe guarantees: its parser always returns, with few and well-formed entries; it only writes proposals,
  and only in its role and within its budget; file tails neither skip nor repeat bytes.
\<close>

section \<open>The parser\<close>

lemma cont_take: "0 < k \<Longrightarrow> s \<noteq> [] \<Longrightarrow> cont lo hi (take k s @ t) = cont lo hi s"
  by (cases s; cases k) (auto simp: cont_def)

lemma cont_not_Nil: "cont lo hi s \<Longrightarrow> s \<noteq> []"
  by (auto simp: cont_def)

lemma cont_nth: "cont lo hi (drop j s) \<longleftrightarrow> j < length s \<and> lo \<le> byte (s ! j) \<and> byte (s ! j) \<le> hi"
  by (cases "j < length s") (auto simp: cont_def Cons_nth_drop_Suc [symmetric])

lemma cont_0: "cont lo hi s \<longleftrightarrow> s \<noteq> [] \<and> lo \<le> byte (s ! 0) \<and> byte (s ! 0) \<le> hi"
  using cont_nth [of lo hi 0 s] by simp

text \<open>A well-formed rune is read back whatever follows it.\<close>

lemma rune_width_prefix:
  assumes "rune_width c s = Some w"
  shows "rune_width c (take (w - 1) s @ t) = Some w \<and> w - 1 \<le> length s \<and> 0 < w"
proof -
  let ?b = "byte c"
  have two: "cont lo hi (take k s @ t) = cont lo hi s" if "0 < k" "cont lo hi s" for lo hi k
    using that by (simp add: cont_take cont_not_Nil)
  have nth: "cont lo hi (drop j (take k s @ t))" if "j < k" "cont lo hi (drop j s)" for lo hi j k
    using that unfolding cont_nth by (auto simp: nth_append)
  consider "?b < 128" | "194 \<le> ?b" "?b \<le> 223" | "224 \<le> ?b" "?b \<le> 239" | "240 \<le> ?b" "?b \<le> 244"
    using assms by (fastforce simp: rune_width_def Let_def split: if_splits)
  then show ?thesis
  proof cases
    case 1
    with assms show ?thesis by (simp add: rune_width_def)
  next
    case 2
    with assms have "cont 128 191 s" "w = 2" by (simp_all add: rune_width_def split: if_splits)
    with 2 show ?thesis by (cases s) (simp_all add: rune_width_def cont_def)
  next
    case 3
    with assms have c: "cont (if ?b = 224 then 160 else 128) (if ?b = 237 then 159 else 191) s" "cont 128 191 (drop 1 s)" and w: "w = 3"
      by (simp_all add: rune_width_def Let_def split: if_split_asm)
    with two [OF _ c(1), of 2] nth [of 1 2 128 191] have "rune_width c (take 2 s @ t) = Some 3"
      using 3 by (simp add: rune_width_def Let_def)
    with c w show ?thesis by (simp add: cont_nth)
  next
    case 4
    with assms have c: "cont (if ?b = 240 then 144 else 128) (if ?b = 244 then 143 else 191) s" "cont 128 191 (drop 1 s)" "cont 128 191 (drop 2 s)"
        and w: "w = 4"
      by (simp_all add: rune_width_def Let_def split: if_split_asm)
    with two [OF _ c(1), of 3] nth [of 1 3 128 191] nth [of 2 3 128 191] have "rune_width c (take 3 s @ t) = Some 4"
      using 4 by (simp add: rune_width_def Let_def)
    with c w show ?thesis by (simp add: cont_nth)
  qed
qed

lemma runes_piece: "rune_width c s = Some w \<Longrightarrow> runes ((c # take (w - 1) s) @ t) = (c # take (w - 1) s) # runes t"
  using rune_width_prefix [of c s w t] by simp

lemma runes_replacement: "runes (replacement @ t) = replacement # runes t"
proof -
  have "rune_width (CHR 0xEF) [CHR 0xBF, CHR 0xBD] = Some 3" by (simp add: rune_width_def byte_def cont_def)
  from runes_piece [OF this, of t] show ?thesis by (simp add: replacement_def eval_nat_numeral)
qed

lemma runes_take: "runes (take_runes n s) = take n (runes s)"
  unfolding take_runes_def
proof (induction s arbitrary: n rule: runes.induct)
  case (2 c s)
  show ?case
  proof (cases n)
    case (Suc m)
    then show ?thesis
      using 2 runes_piece [of c s] by (cases "rune_width c s") (simp_all add: runes_replacement)
  qed simp
qed simp

lemma take_runes_Nil: "take_runes n s = [] \<longleftrightarrow> n = 0 \<or> s = []"
  using arg_cong [OF runes_take [of n s], of length]
  by (cases s; cases n) (auto simp: take_runes_def replacement_def split: option.splits)

definition proposal_ok :: "proposal \<Rightarrow> bool" where
  "proposal_ok p \<longleftrightarrow> pp_type p \<in> set proposal_types \<and> pp_title p \<noteq> [] \<and> rune_count (pp_title p) \<le> max_title_chars \<and>
     length (pp_body p) \<le> 2048 \<and> length (pp_tags p) \<le> max_tags"

lemma valid_proposal_ok: "valid_proposal p = Some q \<Longrightarrow> proposal_ok q"
  by (auto simp: valid_proposal_def proposal_ok_def Let_def rune_count_def runes_take take_runes_Nil max_title_chars_def
      split: if_splits)

lemma keep_valid_ok:
  "list_all proposal_ok out \<Longrightarrow> length out < max_proposals_per_pass \<Longrightarrow>
     list_all proposal_ok (keep_valid out cand) \<and> length (keep_valid out cand) \<le> max_proposals_per_pass"
proof (induction out cand rule: keep_valid.induct)
  case (2 out p cand)
  then show ?case by (auto simp: Let_def valid_proposal_ok split: option.split)
qed simp

text \<open>The loop ends: each round starts further to the right.\<close>

lemma scan_from_returns: "\<exists>r. scan_from decode raw pos = Some r \<and>
    (case r of None \<Rightarrow> True | Some ps \<Rightarrow> list_all proposal_ok ps \<and> length ps \<le> max_proposals_per_pass)"
proof (induction "length raw - pos" arbitrary: pos rule: less_induct)
  case less
  show ?case
  proof (cases "index_of ''['' (drop pos raw)")
    case None
    then show ?thesis by (simp add: scan_from.simps)
  next
    case (Some idx)
    note found = Some
    show ?thesis
    proof (cases "decode (drop (pos + idx) raw)")
      case (Some cand)
      then show ?thesis
        using found keep_valid_ok [of "[]" cand]
        by (simp add: scan_from.simps [of decode raw pos] max_proposals_per_pass_def)
    next
      case None
      then show ?thesis
        using found less [of "pos + idx + 1"]
        by (cases "length raw \<le> pos + idx + 1") (simp_all add: scan_from.simps [of decode raw pos])
    qed
  qed
qed

text \<open>The proposal parser always returns. Whatever text the model produced and whatever the JSON decoder makes of its
  parts, the scan for an array ends, and what it returns is nothing or at most five proposals, each of a type a
  model may propose (fact, finding, decision, skill), with a non-empty title of at most 200 characters, a body of at
  most 2048 bytes and at most 16 tags.\<close>

theorem parse_proposals_returns:
  "\<exists>r. parse_proposals decode raw = Some r \<and>
     (case r of None \<Rightarrow> True
      | Some ps \<Rightarrow> length ps \<le> 5 \<and>
          list_all (\<lambda>p. pp_type p \<in> {''fact'', ''finding'', ''decision'', ''skill''} \<and> pp_title p \<noteq> [] \<and>
            rune_count (pp_title p) \<le> 200 \<and> length (pp_body p) \<le> 2048 \<and> length (pp_tags p) \<le> 16) ps)"
  using scan_from_returns [of decode "strip_think raw" 0]
  unfolding parse_proposals_def proposal_ok_def [abs_def] max_title_chars_def max_tags_def max_proposals_per_pass_def proposal_types_def
  by (auto split: option.splits)

section \<open>File tails\<close>

definition one_file :: "string \<Rightarrow> bytes \<Rightarrow> files" where
  "one_file path c =
     \<lparr>fi_list = (\<lambda>_. None), fi_size = (\<lambda>p. if p = path then Some (length c) else None),
      fi_content = (\<lambda>p. if p = path then Some c else None)\<rparr>"

fun tail_all :: "string \<Rightarrow> scribe \<Rightarrow> bytes list \<Rightarrow> scribe \<times> bytes" where
  "tail_all path s [] = (s, [])"
| "tail_all path s (c # cs) =
     (case tail_file (one_file path c) s path of
        (s1, chunk) \<Rightarrow> (case tail_all path s1 cs of (s2, chunks) \<Rightarrow> (s2, chunk @ chunks)))"

lemma tail_once:
  assumes "sc_offsets s path = Some mark" "mark \<le> length c"
  shows "let chunk = take max_activity_bytes (drop mark c) in
    tail_file (one_file path c) s path = (s\<lparr>sc_offsets := (sc_offsets s)(path \<mapsto> mark + length chunk)\<rparr>, chunk)"
  using assms by (auto simp: tail_file_def one_file_def Let_def fun_upd_idem)

lemma take_capped: "take (min (length c - m) k) (drop m c) = take k (drop m c)"
  by (cases "length c - m \<le> k") (simp_all add: min_def)

lemma take_drop_add: "take a (drop m c) @ take b (drop (m + a) c) = take (a + b) (drop m c)"
  by (simp add: take_add ac_simps)

text \<open>File tails neither skip nor repeat bytes. Reading a growing file once per tick (the file at each tick starts
  with what it held before), the chunks put together are the file's bytes between the mark at the start and the mark
  at the end, however the reads are capped.\<close>

theorem tails_are_contiguous:
  assumes "sc_offsets s path = Some mark" "mark \<le> length (hd (cs @ [last_content]))"
    and "sorted_wrt prefix (cs @ [last_content])"
    and "tail_all path s (cs @ [last_content]) = (s', chunks)"
  shows "\<exists>mark'. sc_offsets s' path = Some mark' \<and> mark \<le> mark' \<and> mark' \<le> length last_content \<and>
    chunks = take (mark' - mark) (drop mark last_content)"
  using assms
proof (induction cs arbitrary: s mark chunks)
  case Nil
  then show ?case using tail_once [of s path mark last_content] by (auto simp: Let_def take_capped)
next
  case (Cons c cs)
  define k where "k = length (take max_activity_bytes (drop mark c))"
  let ?s = "s\<lparr>sc_offsets := (sc_offsets s)(path \<mapsto> mark + k)\<rparr>"
  from Cons.prems tail_once [of s path mark c]
  obtain rest where rest: "tail_all path ?s (cs @ [last_content]) = (s', rest)" "chunks = take max_activity_bytes (drop mark c) @ rest"
    by (auto simp: Let_def k_def split: prod.splits)
  have le: "mark + k \<le> length c" using Cons.prems(2) by (simp add: k_def)
  have next_c: "prefix c (hd (cs @ [last_content]))" and last_c: "prefix c last_content"
    using Cons.prems(3) by (cases cs; simp)+
  have "mark + k \<le> length (hd (cs @ [last_content]))"
    using le next_c by (auto simp: prefix_def)
  from Cons.IH [OF _ this _ rest(1)] Cons.prems(3) obtain mark' where m: "sc_offsets s' path = Some mark'" "mark + k \<le> mark'"
      "mark' \<le> length last_content" "rest = take (mark' - (mark + k)) (drop (mark + k) last_content)"
    by auto
  have "take max_activity_bytes (drop mark c) = take k (drop mark last_content)"
    using last_c Cons.prems(2) by (auto simp: k_def prefix_def take_capped)
  then have "chunks = take (mark' - mark) (drop mark last_content)"
    using m(2,4) take_drop_add [of k mark last_content "mark' - (mark + k)"] by (simp add: rest(2))
  with m show ?case by (intro exI [of _ mark']) simp
qed

section \<open>Writes\<close>

text \<open>What changes under the scribe's hands: nodes it wrote are proposals; edges it added say where they belong.\<close>

definition summary_ids :: "(bytes \<Rightarrow> bytes) \<Rightarrow> string \<Rightarrow> string set" where
  "summary_ids sha clan = range (\<lambda>session. deterministic_event_id sha clan ''session_summary'' session [])"

definition proposed_here :: "member_id \<Rightarrow> string set \<Rightarrow> (string \<Rightarrow> gnode option) \<Rightarrow> (string \<Rightarrow> gnode option) \<Rightarrow> string \<Rightarrow> bool" where
  "proposed_here self sums old new i \<longleftrightarrow>
     (case new i of
        None \<Rightarrow> False
      | Some n \<Rightarrow> gn_status n = ''proposed'' \<and> gn_type n \<in> set proposal_types \<and>
          (case old i of
             None \<Rightarrow> pv_author (gn_provenance n) = self \<and> pv_source (gn_provenance n) = ''scribe''
           | Some m \<Rightarrow> gn_provenance n = gn_provenance m \<and> i \<in> sums))"

definition only_proposed :: "member_id \<Rightarrow> string set \<Rightarrow> graph \<Rightarrow> graph \<Rightarrow> bool" where
  "only_proposed self sums g g' \<longleftrightarrow>
     (\<forall>i. node_at (gr_nodes g') i = node_at (gr_nodes g) i \<or> proposed_here self sums (node_at (gr_nodes g)) (node_at (gr_nodes g')) i) \<and>
     (\<exists>new. gr_edges g' = gr_edges g @ new \<and> list_all (\<lambda>e. ge_relation e = ''contributes_to'' \<and> ge_created_by e = self) new)"

lemma only_proposed_refl [simp]: "only_proposed self sums g g"
  by (simp add: only_proposed_def)

text \<open>Minted ids are new: none is in use when it is minted.\<close>

fun fresh_ids :: "string set \<Rightarrow> bytes option list \<Rightarrow> bool" where
  "fresh_ids used [] \<longleftrightarrow> True"
| "fresh_ids used (r # rs) \<longleftrightarrow>
     (case r of None \<Rightarrow> fresh_ids used rs
      | Some b \<Rightarrow> fold_to_uuid b \<notin> used \<and> fresh_ids (insert (fold_to_uuid b) used) rs)"

definition ids_of :: "memory_service \<Rightarrow> string set" where
  "ids_of m = gn_id ` set (gr_nodes (ms_graph m))"

lemma ids_of_None: "node_at (gr_nodes (ms_graph m)) i = None \<longleftrightarrow> i \<notin> ids_of m"
  by (simp add: ids_of_def node_at_None)

lemma proposal_node_simps:
  "default_status (proposal_node sha s opened p) = proposal_node sha s opened p"
  "gn_status (proposal_node sha s opened p) = ''proposed''" "gn_type (proposal_node sha s opened p) = pp_type p"
  "given_source (proposal_node sha s opened p) = ''scribe''"
  "gn_id (proposal_node sha s opened p) = [] \<or> gn_id (proposal_node sha s opened p) \<in> summary_ids sha (sc_clan_id s)"
  by (auto simp: proposal_node_def Let_def default_status_def given_source_def summary_ids_def)

lemma written_id:
  assumes "add_or_update_node sha rand m origin n now = (m', Inr x)" "mm_writable (ms_store m)" "[] \<notin> ids_of m"
  shows "if gn_id n = [] then \<exists>b. rand = Some b \<and> gn_id x = fold_to_uuid b else gn_id x = gn_id n"
  using assms(1,2)
proof (cases rule: add_node_cases)
  case (created y)
  then show ?thesis by (auto simp: created_def)
next
  case (updated y k)
  then have "gn_id n \<in> ids_of m" by (metis ids_of_def imageI nth_mem)
  with updated assms(3) show ?thesis by (auto simp: updated_def)
qed simp

lemma uuid_not_Nil: "fold_to_uuid b \<noteq> []"
  by (simp add: fold_to_uuid_def uuid_of_def Let_def)

lemma summary_id_not_Nil: "[] \<notin> summary_ids sha clan"
proof
  assume "[] \<in> summary_ids sha clan"
  then obtain session where "[] = deterministic_event_id sha clan ''session_summary'' session []"
    unfolding summary_ids_def by (rule rangeE)
  with event_id_not_Nil show False by (rule notE [OF _ sym])
qed

text \<open>One proposal, written or refused.\<close>

lemma write_node_effect:
  assumes "service_ok sha m" "\<forall>b. rand = Some b \<longrightarrow> fold_to_uuid b \<notin> ids_of m"
    and "add_or_update_node sha rand m (sc_self_id s) (proposal_node sha s opened p) now = (m', r)"
    and "pp_type p \<in> set proposal_types" "[] \<notin> ids_of m"
  shows "service_ok sha m' \<and>
    (case r of
       Inl _ \<Rightarrow> ms_graph m' = ms_graph m
     | Inr n \<Rightarrow>
         gr_edges (ms_graph m') = gr_edges (ms_graph m) \<and>
         node_at (gr_nodes (ms_graph m')) = (node_at (gr_nodes (ms_graph m)))(gn_id n \<mapsto> n) \<and>
         gn_status n = ''proposed'' \<and> gn_type n \<in> set proposal_types \<and>
         (gn_id n \<in> summary_ids sha (sc_clan_id s) \<or> gn_id n \<notin> ids_of m \<and> (\<exists>b. rand = Some b \<and> gn_id n = fold_to_uuid b)) \<and>
         (case node_at (gr_nodes (ms_graph m)) (gn_id n) of
            None \<Rightarrow> pv_author (gn_provenance n) = sc_self_id s \<and> pv_source (gn_provenance n) = ''scribe''
          | Some old \<Rightarrow> gn_provenance n = gn_provenance old))"
proof -
  let ?n = "proposal_node sha s opened p"
  have ok: "op_ok m (WriteNode rand (sc_self_id s) ?n now)" using assms(2) by (auto simp: ids_of_def)
  have w: "mm_writable (ms_store m)" using assms(1) by (simp add: service_ok_def)
  have "service_ok sha m'" using add_node_ok [OF assms(1) ok] assms(3) by simp
  moreover from add_node_lookup [OF assms(1) ok assms(3)] show ?thesis
  proof (elim disjE exE conjE)
    fix e assume "r = Inl e" "refused m m'"
    with \<open>service_ok sha m'\<close> show ?thesis by (auto dest: refused_graph)
  next
    fix n
    assume n: "r = Inr n" "same_content (default_status ?n) n"
      "node_at (gr_nodes (ms_graph m')) = (node_at (gr_nodes (ms_graph m)))(gn_id n \<mapsto> n)"
      "gr_edges (ms_graph m') = gr_edges (ms_graph m)"
      "case node_at (gr_nodes (ms_graph m)) (gn_id n) of
         None \<Rightarrow> length (gr_nodes (ms_graph m)) < max_nodes \<and> pv_author (gn_provenance n) = sc_self_id s \<and> gn_rev n = 1 \<and>
           pv_source (gn_provenance n) = given_source ?n
       | Some old \<Rightarrow> gn_provenance n = gn_provenance old \<and> gn_rev n = gn_rev old + 1"
    have "gn_id n \<in> summary_ids sha (sc_clan_id s) \<or> gn_id n \<notin> ids_of m \<and> (\<exists>b. rand = Some b \<and> gn_id n = fold_to_uuid b)"
      using written_id [OF assms(3) [unfolded n(1)] w assms(5)] assms(2) proposal_node_simps(5) [of sha s opened p]
      by (auto split: if_splits)
    moreover have "gn_status n = ''proposed''" "gn_type n \<in> set proposal_types"
      using n(2) assms(4) by (simp_all add: same_content_def proposal_node_simps)
    ultimately show ?thesis
      using n \<open>service_ok sha m'\<close> by (auto simp: proposal_node_simps split: option.splits)
  qed
qed

text \<open>The invariant along the proposals of one pass, and how far each may move it.\<close>

definition pass_inv :: "(bytes \<Rightarrow> bytes) \<Rightarrow> scribe \<Rightarrow> graph \<Rightarrow> string set \<Rightarrow> memory_service \<Rightarrow> bool" where
  "pass_inv sha s g used m \<longleftrightarrow>
     service_ok sha m \<and> ids_of m \<subseteq> used \<and> summary_ids sha (sc_clan_id s) \<subseteq> used \<and> [] \<notin> ids_of m \<and>
     only_proposed (sc_self_id s) (summary_ids sha (sc_clan_id s)) g (ms_graph m)"

lemma proposed_step:
  assumes "\<forall>i. o1 i = o0 i \<or> proposed_here self sums o0 o1 i"
    and "gn_status n = ''proposed''" "gn_type n \<in> set proposal_types" "k = gn_id n"
    and "case o1 k of None \<Rightarrow> pv_author (gn_provenance n) = self \<and> pv_source (gn_provenance n) = ''scribe''
      | Some old \<Rightarrow> gn_provenance n = gn_provenance old"
    and "k \<in> sums \<or> o1 k = None"
  shows "\<forall>i. (o1(k \<mapsto> n)) i = o0 i \<or> proposed_here self sums o0 (o1(k \<mapsto> n)) i"
proof
  fix i
  show "(o1(k \<mapsto> n)) i = o0 i \<or> proposed_here self sums o0 (o1(k \<mapsto> n)) i"
    using spec [OF assms(1), of i] assms(2-6)
    by (cases "i = k") (auto simp: proposed_here_def split: option.splits)
qed

lemma add_edge_effect:
  assumes "service_ok sha m" "add_edge sha m self e now = (m', r)" "ge_relation e = ''contributes_to''"
  shows "service_ok sha m' \<and> gr_nodes (ms_graph m') = gr_nodes (ms_graph m) \<and>
    (\<exists>new. gr_edges (ms_graph m') = gr_edges (ms_graph m) @ new \<and>
      list_all (\<lambda>e. ge_relation e = ''contributes_to'' \<and> ge_created_by e = self) new)"
proof -
  have w: "mm_writable (ms_store m)" using assms(1) by (simp add: service_ok_def)
  have "service_ok sha m'" using add_edge_ok [OF assms(1), of self e now] assms(2) by simp
  with add_edge_cases [OF assms(2) w] assms(3) show ?thesis by auto
qed

lemma only_proposed_edges:
  "only_proposed self sums g g' \<Longrightarrow> gr_nodes g'' = gr_nodes g' \<Longrightarrow>
     \<exists>new. gr_edges g'' = gr_edges g' @ new \<and> list_all (\<lambda>e. ge_relation e = ''contributes_to'' \<and> ge_created_by e = self) new \<Longrightarrow>
     only_proposed self sums g g''"
  by (auto simp: only_proposed_def)

lemma write_one_inv:
  assumes "pass_inv sha s g used m" "fresh_ids used (rand # rands)" "pp_type p \<in> set proposal_types"
    and "write_one sha s opened now (m, k) (rand, p) = (m', k')"
  shows "\<exists>used'. pass_inv sha s g used' m' \<and> fresh_ids used' rands \<and>
    (ms_graph m' = ms_graph m \<and> k' = k \<or> (\<exists>i n. node_at (gr_nodes (ms_graph m')) = (node_at (gr_nodes (ms_graph m)))(i \<mapsto> n) \<and> k' = k + 1))"
proof -
  let ?sums = "summary_ids sha (sc_clan_id s)"
  from assms(1) have inv: "service_ok sha m" "ids_of m \<subseteq> used" "?sums \<subseteq> used" "[] \<notin> ids_of m" "only_proposed (sc_self_id s) ?sums g (ms_graph m)"
    by (simp_all add: pass_inv_def)
  have fresh: "\<forall>b. rand = Some b \<longrightarrow> fold_to_uuid b \<notin> ids_of m" using assms(2) inv(2) by auto
  obtain m1 r where a: "add_or_update_node sha rand m (sc_self_id s) (proposal_node sha s opened p) now = (m1, r)" by force
  note E = write_node_effect [OF inv(1) fresh a assms(3) inv(4)]
  let ?used = "case rand of None \<Rightarrow> used | Some b \<Rightarrow> insert (fold_to_uuid b) used"
  have rest: "fresh_ids ?used rands" "?sums \<subseteq> ?used" "used \<subseteq> ?used" using assms(2) inv(3) by (auto split: option.splits)
  show ?thesis
  proof (cases r)
    case (Inl e)
    with E inv rest assms(4) a show ?thesis
      by (intro exI [of _ ?used]) (auto simp: write_one_def pass_inv_def ids_of_def)
  next
    case (Inr n)
    from E Inr have at: "node_at (gr_nodes (ms_graph m1)) = (node_at (gr_nodes (ms_graph m)))(gn_id n \<mapsto> n)"
      and id: "gn_id n \<in> ?sums \<or> gn_id n \<notin> ids_of m \<and> (\<exists>b. rand = Some b \<and> gn_id n = fold_to_uuid b)"
      and ok: "service_ok sha m1" and edges: "gr_edges (ms_graph m1) = gr_edges (ms_graph m)"
      by auto
    have "\<forall>i. ((node_at (gr_nodes (ms_graph m)))(gn_id n \<mapsto> n)) i = node_at (gr_nodes g) i \<or>
        proposed_here (sc_self_id s) ?sums (node_at (gr_nodes g)) ((node_at (gr_nodes (ms_graph m)))(gn_id n \<mapsto> n)) i"
      using E Inr id inv(5) by (intro proposed_step) (auto simp: only_proposed_def ids_of_None)
    with inv(5) have op: "only_proposed (sc_self_id s) ?sums g (ms_graph m1)"
      by (simp add: only_proposed_def at edges)
    have ids: "ids_of m1 \<subseteq> insert (gn_id n) (ids_of m)"
    proof
      fix i assume "i \<in> ids_of m1"
      then have "node_at (gr_nodes (ms_graph m1)) i \<noteq> None" by (simp add: ids_of_None)
      then show "i \<in> insert (gn_id n) (ids_of m)" by (cases "i = gn_id n") (simp_all add: at ids_of_None)
    qed
    have "gn_id n \<in> ?used" "gn_id n \<noteq> []"
      using id rest(2) uuid_not_Nil summary_id_not_Nil by (auto split: option.splits)
    with ids inv(2,4) rest(3) have used: "ids_of m1 \<subseteq> ?used" "[] \<notin> ids_of m1" by (blast, metis insertE subsetD)
    show ?thesis
    proof (cases "gn_session_id n = []")
      case True
      with assms(4) a Inr have "m' = m1" "k' = k + 1" by (simp_all add: write_one_def)
      with op ok used rest at show ?thesis by (intro exI [of _ ?used]) (auto simp: pass_inv_def)
    next
      case False
      let ?e = "\<lparr>ge_from = gn_id n, ge_to = gn_session_id n, ge_relation = ''contributes_to'', ge_created_at = zero_time, ge_created_by = []\<rparr>"
      obtain r2 where b: "add_edge sha m1 (sc_self_id s) ?e now = (m', r2)" and k: "k' = k + 1"
        using assms(4) a Inr False by (cases "add_edge sha m1 (sc_self_id s) ?e now") (simp add: write_one_def)
      from add_edge_effect [OF ok b] have e: "service_ok sha m'" "gr_nodes (ms_graph m') = gr_nodes (ms_graph m1)"
        "\<exists>new. gr_edges (ms_graph m') = gr_edges (ms_graph m1) @ new \<and>
          list_all (\<lambda>e. ge_relation e = ''contributes_to'' \<and> ge_created_by e = sc_self_id s) new" by simp_all
      from only_proposed_edges [OF op e(2,3)] e(1,2) used rest at k show ?thesis
        by (intro exI [of _ ?used]) (auto simp: pass_inv_def ids_of_def)
    qed
  qed
qed

section \<open>Counting proposals\<close>

definition mine_ids :: "member_id \<Rightarrow> memory_service \<Rightarrow> string set" where
  "mine_ids self m = {i. \<exists>n. node_at (gr_nodes (ms_graph m)) i = Some n \<and> gn_status n = ''proposed'' \<and>
     pv_source (gn_provenance n) = ''scribe'' \<and> pv_author (gn_provenance n) = self}"

lemma mine_finite: "finite (mine_ids self m)"
proof -
  have "mine_ids self m \<subseteq> ids_of m" using ids_of_None [of m] by (auto simp: mine_ids_def) (metis option.distinct(1))
  then show ?thesis by (rule finite_subset) (simp add: ids_of_def)
qed

lemma mine_step:
  assumes "node_at (gr_nodes (ms_graph m')) = (node_at (gr_nodes (ms_graph m)))(i \<mapsto> n)"
  shows "card (mine_ids self m') \<le> card (mine_ids self m) + 1"
proof -
  have "mine_ids self m' \<subseteq> insert i (mine_ids self m)" by (auto simp: mine_ids_def assms)
  then have "card (mine_ids self m') \<le> card (insert i (mine_ids self m))" by (rule card_mono [rotated]) (simp add: mine_finite)
  also have "\<dots> \<le> card (mine_ids self m) + 1" by (simp add: card_insert_le_m1 mine_finite card_insert_if)
  finally show ?thesis .
qed

lemma length_filter_ids: "distinct (map gn_id ns) \<Longrightarrow> length (filter P ns) = card {i. \<exists>n. node_at ns i = Some n \<and> P n}"
proof -
  assume d: "distinct (map gn_id ns)"
  have "{i. \<exists>n. node_at ns i = Some n \<and> P n} = gn_id ` set (filter P ns)"
    using node_at_in [OF d] by (auto dest: node_at_Some)
  moreover have "distinct (map gn_id (filter P ns))" using d by (rule distinct_map_filter)
  ultimately show ?thesis by (metis distinct_card length_map set_map)
qed

lemma pending_card:
  assumes "wf_graph (ms_graph m)"
  shows "pending_proposals sha s m = card (mine_ids (sc_self_id s) m)"
proof -
  have d: "distinct (map gn_id (gr_nodes (memory_snapshot sha m)))"
    using merge_wf [of sha "Some (ms_graph m)" None] by (simp add: memory_snapshot_def wf_graph_def)
  have "node_at (gr_nodes (memory_snapshot sha m)) i = node_at (gr_nodes (ms_graph m)) i" for i
    using assms merge_nodes [of "Some (ms_graph m)" None sha i]
    by (simp add: memory_snapshot_def wf_graph_def nodes_of_def later_def split: option.split)
  with length_filter_ids [OF d] show ?thesis by (simp add: pending_proposals_def mine_ids_def)
qed

section \<open>One pass\<close>

lemma pass_effect:
  assumes "pass_inv sha s g used m" "fresh_ids used (map fst rps)" "\<forall>rp\<in>set rps. pp_type (snd rp) \<in> set proposal_types"
    and "foldl (write_one sha s opened now) (m, k) rps = (m', k')"
  shows "service_ok sha m' \<and> only_proposed (sc_self_id s) (summary_ids sha (sc_clan_id s)) g (ms_graph m') \<and>
    card (mine_ids (sc_self_id s) m') \<le> card (mine_ids (sc_self_id s) m) + length rps"
  using assms
proof (induction rps arbitrary: used m k)
  case Nil
  then show ?case by (simp add: pass_inv_def)
next
  case (Cons rp rps)
  obtain rand p where rp: "rp = (rand, p)" by force
  obtain m1 k1 where one: "write_one sha s opened now (m, k) (rand, p) = (m1, k1)" by force
  have "fresh_ids used (rand # map fst rps)" "pp_type p \<in> set proposal_types"
    using Cons.prems(2,3) rp by simp_all
  from write_one_inv [OF Cons.prems(1) this one] obtain used' where
    u: "pass_inv sha s g used' m1" "fresh_ids used' (map fst rps)"
      "ms_graph m1 = ms_graph m \<or> (\<exists>i n. node_at (gr_nodes (ms_graph m1)) = (node_at (gr_nodes (ms_graph m)))(i \<mapsto> n))"
    by blast
  have "card (mine_ids (sc_self_id s) m1) \<le> card (mine_ids (sc_self_id s) m) + 1"
    using u(3) mine_step by (auto simp: mine_ids_def)
  with Cons.IH [OF u(1,2)] Cons.prems(3,4) rp one show ?case by fastforce
qed

lemma fresh_ids_prefix: "fresh_ids used (xs @ ys) \<Longrightarrow> fresh_ids used xs"
  by (induction xs arbitrary: used) (auto split: option.splits)

lemma tail_file_keeps: "tail_file f s path = (s', chunk) \<Longrightarrow> sc_self_id s' = sc_self_id s \<and> sc_clan_id s' = sc_clan_id s \<and> sc_seeded s' = sc_seeded s"
  by (auto simp: tail_file_def Let_def split: option.splits if_splits)

lemma tail_chats_keeps: "tail_chats f s names = (s', r) \<Longrightarrow> sc_self_id s' = sc_self_id s \<and> sc_clan_id s' = sc_clan_id s \<and> sc_seeded s' = sc_seeded s"
  by (induction names arbitrary: s r) (auto dest!: tail_file_keeps split: prod.splits if_splits)

lemma gather_keeps: "gather quote f snap now s = (s', r) \<Longrightarrow> sc_self_id s' = sc_self_id s \<and> sc_clan_id s' = sc_clan_id s"
  by (auto simp: gather_def Let_def dest!: tail_file_keeps tail_chats_keeps split: prod.splits if_splits)

lemma distill_ok:
  assumes "distill post choices decode s model activity = Inr (Some ps)"
  shows "length ps \<le> max_proposals_per_pass \<and> (\<forall>p\<in>set ps. pp_type p \<in> set proposal_types)"
proof -
  from assms obtain c where "parse_proposals decode c = Some (Some ps)"
    by (auto simp: distill_def Let_def split: completion.splits option.splits list.splits if_splits)
  with scan_from_returns [of decode "strip_think c" 0] show ?thesis
    by (auto simp: parse_proposals_def list_all_iff proposal_ok_def)
qed

text \<open>The two ways a tick can go: it leaves the graph alone, or it writes the proposals of one answer.\<close>

lemma scribe_tick_cases:
  assumes "scribe_tick sha quote choices decode v (s, m) = (s', m')"
  obtains (idle) "m' = m" "sc_self_id s' = sc_self_id s"
  | (pass) s1 ps landed m1 where "sc_seeded s" "en_is_scribe v" "pending_proposals sha s m \<le> pending_proposal_budget"
      "sc_self_id s1 = sc_self_id s" "sc_clan_id s1 = sc_clan_id s" "s' = s1"
      "length ps \<le> max_proposals_per_pass" "\<forall>p\<in>set ps. pp_type p \<in> set proposal_types"
      "write_proposals sha (en_rands v) s1 m ps (en_now v) = (m1, landed)" "ms_graph m' = ms_graph m1"
proof -
  obtain s1 activity fresh where c: "gather quote (en_files v) (memory_snapshot sha m) (en_now v) s = (s1, activity, fresh)"
    by (metis prod.exhaust)
  note keeps = gather_keeps [OF c]
  show thesis
  proof (cases "sc_seeded s \<and> en_is_scribe v \<and> pending_proposals sha s m \<le> pending_proposal_budget \<and> fresh \<and> en_model v \<noteq> []")
    case False
    with assms c keeps show ?thesis by (intro idle) (auto simp: scribe_tick_def Let_def not_less split: if_splits)
  next
    case True
    show ?thesis
    proof (cases "distill (en_post v) choices decode s1 (en_model v) activity")
      case (Inl e)
      with assms c keeps True show ?thesis by (intro idle) (auto simp: scribe_tick_def Let_def)
    next
      case (Inr r)
      define ps where "ps = (case r of None \<Rightarrow> [] | Some ps \<Rightarrow> ps)"
      have ps: "length ps \<le> max_proposals_per_pass" "\<forall>p\<in>set ps. pp_type p \<in> set proposal_types"
        using distill_ok Inr by (auto simp: ps_def split: option.split)
      obtain m1 landed where w: "write_proposals sha (en_rands v) s1 m ps (en_now v) = (m1, landed)" by force
      with assms c True Inr have "s' = s1" "ms_graph m' = ms_graph m1"
        by (auto simp: scribe_tick_def Let_def ps_def split: if_splits)
      with True keeps ps w show ?thesis by (intro pass) auto
    qed
  qed
qed

lemma tick_effect:
  assumes "service_ok sha m" "[] \<notin> ids_of m"
    and "fresh_ids (ids_of m \<union> summary_ids sha (sc_clan_id s)) (map (en_rands v) [0..<max_proposals_per_pass])"
    and "scribe_tick sha quote choices decode v (s, m) = (s', m')"
  shows "only_proposed (sc_self_id s) (summary_ids sha (sc_clan_id s)) (ms_graph m) (ms_graph m') \<and>
    wf_graph (ms_graph m') \<and> sc_self_id s' = sc_self_id s \<and>
    (m' = m \<or> sc_seeded s \<and> en_is_scribe v \<and> pending_proposals sha s m \<le> pending_proposal_budget \<and>
      card (mine_ids (sc_self_id s) m') \<le> card (mine_ids (sc_self_id s) m) + max_proposals_per_pass)"
  using assms(4)
proof (cases rule: scribe_tick_cases)
  case idle
  with assms(1) show ?thesis by (simp add: service_ok_def)
next
  case (pass s1 ps landed m1)
  let ?used = "ids_of m \<union> summary_ids sha (sc_clan_id s)"
  let ?rps = "zip (map (en_rands v) [0..<length ps]) ps"
  have "[0..<max_proposals_per_pass] = [0..<length ps] @ [length ps..<max_proposals_per_pass]"
    using pass(7) by (metis le_add_diff_inverse upt_add_eq_append zero_le)
  with assms(3) have fresh: "fresh_ids ?used (map fst ?rps)" using fresh_ids_prefix by (metis length_map length_upt map_append map_fst_zip minus_nat.diff_0)
  have inv: "pass_inv sha s1 (ms_graph m) ?used m"
    using assms(1,2) pass(4,5) by (simp add: pass_inv_def)
  have types: "\<forall>rp\<in>set ?rps. pp_type (snd rp) \<in> set proposal_types" using pass(8) by (auto dest: set_zip_rightD)
  have "service_ok sha m1 \<and> only_proposed (sc_self_id s) (summary_ids sha (sc_clan_id s)) (ms_graph m) (ms_graph m1) \<and>
      card (mine_ids (sc_self_id s) m1) \<le> card (mine_ids (sc_self_id s) m) + length ps"
  proof (cases "ps = []")
    case True
    with pass(9) assms(1) show ?thesis by (simp add: write_proposals_def)
  next
    case False
    with pass(9) have "foldl (write_one sha s1 (open_ids (memory_snapshot sha m)) (en_now v)) (m, 0) ?rps = (m1, landed)"
      by (simp add: write_proposals_def)
    from pass_effect [OF inv fresh types this] pass(4,5) show ?thesis by simp
  qed
  with pass show ?thesis by (auto simp: service_ok_def mine_ids_def)
qed


text \<open>The scribe keeps its budget. A tick leaves at most 205 unreviewed proposals of this daemon, or no more than there
  were before it.\<close>

theorem scribe_budget:
  assumes "service_ok sha m" "[] \<notin> ids_of m"
    and "fresh_ids (ids_of m \<union> summary_ids sha (sc_clan_id s)) (map (en_rands v) [0..<max_proposals_per_pass])"
    and "scribe_tick sha quote choices decode v (s, m) = (s', m')"
  shows "pending_proposals sha s' m' \<le> max (pending_proposals sha s m) 205"
proof -
  from assms(1) have wf: "wf_graph (ms_graph m)" by (simp add: service_ok_def)
  from tick_effect [OF assms] pending_card [of m' sha s'] pending_card [OF wf, of sha s] show ?thesis
    by (auto simp: pending_proposal_budget_def max_proposals_per_pass_def)
qed

section \<open>Samples\<close>

definition sample_scribe :: scribe where
  "sample_scribe = \<lparr>sc_self_id = ''m'', sc_clan_id = ''c'', sc_runtime_base = ''h'', sc_chat_dir = [], sc_audit_path = ''a'',
     sc_offsets = [''a'' \<mapsto> 0], sc_findings_mark = 0, sc_seeded = True\<rparr>"

definition sample_proposal :: proposal where
  "sample_proposal = \<lparr>pp_type = ''fact'', pp_title = ''t'', pp_body = [], pp_session_id = [], pp_tags = []\<rparr>"

definition sample_env :: scribe_env where
  "sample_env = \<lparr>en_files = one_file ''a'' ''log'', en_now = 5, en_is_scribe = True, en_model = ''tiny:1b'',
     en_post = (\<lambda>_ _. Completion 200 (Some [])), en_rands = (\<lambda>k. if k = 0 then Some ''0123456789abcdef'' else None)\<rparr>"

abbreviation sample_tick :: "scribe \<times> memory_service" where
  "sample_tick \<equiv> scribe_tick (\<lambda>x. x) (\<lambda>s. s) (\<lambda>_. Some [''[]'']) (\<lambda>_. Some [sample_proposal]) sample_env
     (sample_scribe, idle_service (one_memo (memo ''one'' 1 1)))"

lemma sample_summaries: "summary_ids (\<lambda>x. x) ''c'' = {uuid_of ''c|session_summar''}"
  by (auto simp: summary_ids_def deterministic_event_id_def fold_to_uuid_def)

lemma hd_uuid: "b \<noteq> [] \<Longrightarrow> hd (uuid_of b) = hd (hex_encode (take 1 b))"
  by (cases b) (simp_all add: uuid_of_def Let_def hex_encode_def hex_byte_def)

lemma sample_fresh:
  "fresh_ids (ids_of (idle_service (one_memo (memo ''one'' 1 1))) \<union> summary_ids (\<lambda>x. x) (sc_clan_id sample_scribe))
     (map (en_rands sample_env) [0..<max_proposals_per_pass])"
proof -
  have "[0..<max_proposals_per_pass] = [0, 1, 2, 3, 4]" by (simp add: max_proposals_per_pass_def upt_rec)
  moreover have "fold_to_uuid ''0123456789abcdef'' \<noteq> uuid_of ''c|session_summar''"
    using hd_uuid [of "''0123456789abcdef''"] hd_uuid [of "''c|session_summar''"]
    by (auto simp: fold_to_uuid_def hex_encode_def hex_byte_def hex_digit_def)
  moreover have "fold_to_uuid ''0123456789abcdef'' \<noteq> ''x''"
    by (simp add: fold_to_uuid_def uuid_of_def Let_def hex_encode_def hex_byte_def)
  ultimately show ?thesis
    by (simp add: sample_env_def ids_of_def idle_service_def sample_scribe_def sample_summaries) (simp add: memo_def one_memo_def)
qed

lemma sample_ids: "[] \<notin> ids_of (idle_service (one_memo (memo ''one'' 1 1)))"
  by (simp add: ids_of_def idle_service_def one_memo_def memo_def)


theorem scribe_budget_witness:
  "pending_proposals (\<lambda>x. x) (fst sample_tick) (snd sample_tick) \<le> 205"
proof -
  have "mine_ids ''m'' (idle_service (one_memo (memo ''one'' 1 1))) = {}"
    by (auto simp: mine_ids_def idle_service_def one_memo_def memo_def split: if_splits)
  moreover have "wf_graph (one_memo (memo ''one'' 1 1))" by (simp add: wf_graph_def one_memo_def)
  ultimately have "pending_proposals (\<lambda>x. x) sample_scribe (idle_service (one_memo (memo ''one'' 1 1))) = 0"
    by (subst pending_card) (simp_all add: idle_service_def sample_scribe_def)
  then show ?thesis
    using scribe_budget [OF idle_service_ok [OF early_time] sample_ids sample_fresh, of "\<lambda>s. s" "\<lambda>_. Some [''[]'']"
        "\<lambda>_. Some [sample_proposal]" "fst sample_tick" "snd sample_tick"] by simp
qed

theorem tails_are_contiguous_witness:
  "\<exists>mark'. sc_offsets (fst (tail_all ''a'' sample_scribe [''ab'', ''abcd''])) ''a'' = Some mark' \<and>
     snd (tail_all ''a'' sample_scribe [''ab'', ''abcd'']) = take mark' ''abcd''"
  using tails_are_contiguous [of sample_scribe "''a''" 0 "[''ab'']" "''abcd''" "fst (tail_all ''a'' sample_scribe [''ab'', ''abcd''])"
      "snd (tail_all ''a'' sample_scribe [''ab'', ''abcd''])"]
  by (auto simp: sample_scribe_def)

end
