(* ===== verification/McpPolicy.thy ===== *)
theory McpPolicy
  imports Paths Utf8
begin

text \<open>
  The gate in front of every MCP tool: \<open>mcp-servers/internal/policy/policy.go\<close> (the policy and its overlay),
  \<open>internal/permission/permission.go\<close> (the decision for one call) and the wrapper of
  \<open>internal/mcpserve/mcpserve.go\<close> that asks for it, runs the handler and writes the audit line. The user's home
  directory is the parameter \<open>home\<close> (\<open>None\<close> when it is unknown), decoding YAML over a policy a parameter of the
  load. Arguments are the JSON object of the call.
\<close>

section \<open>The policy\<close>

record fs_policy =
  fs_allow :: "string list"
  fs_deny :: "string list"
  fs_deny_tools :: "string list"

record shell_policy =
  sh_mode :: string
  sh_allowlist :: "string list"
  sh_deny_tools :: "string list"

record recon_policy =
  re_allow_remote_origin :: bool
  re_require_local_user_present :: bool
  re_allow_raw_socket :: bool
  re_deny_tools :: "string list"

record pkg_policy =
  pk_require_sudo :: bool
  pk_deny_tools :: "string list"

record http_policy =
  ht_max_body_bytes :: int
  ht_deny_tools :: "string list"

record policy =
  po_fs :: fs_policy
  po_shell :: shell_policy
  po_recon :: recon_policy
  po_pkg :: pkg_policy
  po_http :: http_policy
  po_wiki_deny_tools :: "string list"
  po_search_deny_tools :: "string list"

definition default_policy :: policy where
  "default_policy =
     \<lparr>po_fs = \<lparr>fs_allow = [''~''], fs_deny = [''~/.ssh'', ''~/.aws'', ''~/.minti/audit.jsonl''], fs_deny_tools = []\<rparr>,
      po_shell = \<lparr>sh_mode = ''prompt'', sh_allowlist = [], sh_deny_tools = []\<rparr>,
      po_recon = \<lparr>re_allow_remote_origin = False, re_require_local_user_present = True, re_allow_raw_socket = False, re_deny_tools = []\<rparr>,
      po_pkg = \<lparr>pk_require_sudo = True, pk_deny_tools = []\<rparr>,
      po_http = \<lparr>ht_max_body_bytes = 2 ^ 20, ht_deny_tools = []\<rparr>,
      po_wiki_deny_tools = [], po_search_deny_tools = []\<rparr>"

text \<open>A policy file: absent, unreadable, or a text that is decoded over the policy so far.\<close>

datatype policy_file = NoFile | OpenFails | PolicyText bytes

definition overlay :: "(bytes \<Rightarrow> policy \<Rightarrow> policy option) \<Rightarrow> (string \<Rightarrow> policy_file) \<Rightarrow> policy \<Rightarrow> string \<Rightarrow> policy option" where
  "overlay yaml file p path =
     (if path = [] then Some p
      else case file path of NoFile \<Rightarrow> Some p | OpenFails \<Rightarrow> None | PolicyText b \<Rightarrow> yaml b p)"

definition load_from ::
  "(bytes \<Rightarrow> policy \<Rightarrow> policy option) \<Rightarrow> (string \<Rightarrow> policy_file) \<Rightarrow> string \<Rightarrow> string \<Rightarrow> policy option" where
  "load_from yaml file system_path user_path =
     (case overlay yaml file default_policy system_path of
        None \<Rightarrow> None
      | Some p \<Rightarrow> overlay yaml file p user_path)"

definition system_path :: string where "system_path = ''/etc/minti/policy.yaml''"

definition user_path :: "string option \<Rightarrow> string option" where
  "user_path home = map_option (\<lambda>h. path_join (path_join h ''.minti'') ''policy.yaml'') home"

definition load_policy ::
  "(bytes \<Rightarrow> policy \<Rightarrow> policy option) \<Rightarrow> (string \<Rightarrow> policy_file) \<Rightarrow> string option \<Rightarrow> policy option" where
  "load_policy yaml file home =
     (case user_path home of None \<Rightarrow> None | Some u \<Rightarrow> load_from yaml file system_path u)"

section \<open>The decision\<close>

datatype decision = Allow | Deny string

text \<open>\<open>args[k].(string)\<close> and \<open>args[k].(bool)\<close>: the zero value when the entry is absent or of another type.\<close>

definition string_arg :: "json_object \<Rightarrow> string \<Rightarrow> string" where
  "string_arg args k = (case map_of args k of Some (JStr s) \<Rightarrow> s | _ \<Rightarrow> [])"

definition bool_arg :: "json_object \<Rightarrow> string \<Rightarrow> bool" where
  "bool_arg args k = (case map_of args k of Some (JBool b) \<Rightarrow> b | _ \<Rightarrow> False)"

definition expand_home :: "string option \<Rightarrow> string \<Rightarrow> string" where
  "expand_home home p =
     (if take 2 p = ''~/'' \<or> p = ''~'' then
        (case home of None \<Rightarrow> p | Some h \<Rightarrow> if p = ''~'' then h else path_join h (drop 2 p))
      else p)"

definition first_word :: "string \<Rightarrow> string" where
  "first_word s = takeWhile (\<lambda>c. c \<noteq> CHR '' '' \<and> c \<noteq> CHR 0x09) (trim s)"

definition quoted :: "string \<Rightarrow> string" where
  "quoted s = CHR 0x27 # s @ [CHR 0x27]"

definition tool_denied :: "string \<Rightarrow> string \<Rightarrow> decision" where
  "tool_denied server tool = Deny (''tool '' @ quoted tool @ '' is on '' @ server @ ''.deny_tools'')"

definition check_fs :: "string option \<Rightarrow> fs_policy \<Rightarrow> string \<Rightarrow> json_object \<Rightarrow> decision" where
  "check_fs home p tool args =
     (if tool \<in> set (fs_deny_tools p) then tool_denied ''fs'' tool
      else
        let path = string_arg args ''path''
        in if path = [] then Allow
           else
             let abs_path = expand_home home path
             in if \<exists>d\<in>set (fs_deny p). under abs_path (expand_home home d) then Deny (''fs path '' @ quoted path @ '' is on fs.deny'')
                else if length (fs_allow p) = 0 then Allow
                else if \<exists>a\<in>set (fs_allow p). under abs_path (expand_home home a) then Allow
                else Deny (''fs path '' @ quoted path @ '' not under any fs.allow prefix''))"

definition check_shell :: "shell_policy \<Rightarrow> string \<Rightarrow> json_object \<Rightarrow> decision" where
  "check_shell p tool args =
     (if tool \<in> set (sh_deny_tools p) then tool_denied ''shell'' tool
      else
        let name = first_word (string_arg args ''command'')
        in if sh_mode p = ''deny'' then Deny ''shell.mode=deny''
           else if sh_mode p = ''allowlist'' then
             (if name \<in> set (sh_allowlist p) then Allow else Deny (''shell command '' @ quoted name @ '' not on shell.allowlist''))
           else if sh_mode p = ''prompt'' \<or> sh_mode p = [] then Allow
           else Deny (''shell.mode '' @ quoted (sh_mode p) @ '' is unknown''))"

definition check_recon :: "recon_policy \<Rightarrow> string \<Rightarrow> json_object \<Rightarrow> decision" where
  "check_recon p tool args =
     (if tool \<in> set (re_deny_tools p) then tool_denied ''recon'' tool
      else if tool = ''nmap_scan'' \<and> bool_arg args ''raw_socket'' \<and> \<not> re_allow_raw_socket p
      then Deny ''nmap raw-socket scan requires recon.allow_raw_socket=true''
      else Allow)"

definition check_pkg :: "pkg_policy \<Rightarrow> string \<Rightarrow> decision" where
  "check_pkg p tool = (if tool \<in> set (pk_deny_tools p) then tool_denied ''pkg'' tool else Allow)"

definition check_http :: "http_policy \<Rightarrow> string \<Rightarrow> decision" where
  "check_http p tool = (if tool \<in> set (ht_deny_tools p) then tool_denied ''http'' tool else Allow)"

definition check_wiki :: "string list \<Rightarrow> string \<Rightarrow> decision" where
  "check_wiki deny_tools tool = (if tool \<in> set deny_tools then tool_denied ''wiki'' tool else Allow)"

definition check_search :: "string list \<Rightarrow> string \<Rightarrow> decision" where
  "check_search deny_tools tool = (if tool \<in> set deny_tools then tool_denied ''search'' tool else Allow)"

definition check_call :: "string option \<Rightarrow> policy option \<Rightarrow> string \<Rightarrow> string \<Rightarrow> json_object \<Rightarrow> decision" where
  "check_call home p server tool args =
     (let p = (case p of None \<Rightarrow> default_policy | Some p \<Rightarrow> p)
      in if server = ''minti-mcp-fs'' then check_fs home (po_fs p) tool args
         else if server = ''minti-mcp-shell'' then check_shell (po_shell p) tool args
         else if server = ''minti-mcp-recon'' then check_recon (po_recon p) tool args
         else if server = ''minti-mcp-pkg'' then check_pkg (po_pkg p) tool
         else if server = ''minti-mcp-http'' then check_http (po_http p) tool
         else if server = ''minti-mcp-wiki'' then check_wiki (po_wiki_deny_tools p) tool
         else if server = ''minti-mcp-search'' then check_search (po_search_deny_tools p) tool
         else Allow)"

section \<open>The wrapper\<close>

text \<open>
  A server: its name, its policy and its audit lines; \<open>'w\<close> is the world the handler acts on. The answer carries a
  text for a refusal or a failure. The lines record server and tool, the decision, and the reason.
\<close>

record mcp_server =
  mv_name :: string
  mv_policy :: "policy option"
  mv_log :: "audit_event list"

datatype 'o tool_result = ToolError string | ToolOutput 'o

definition call_tool ::
  "string option \<Rightarrow> string \<Rightarrow> ('w \<Rightarrow> 'w \<times> (string + 'o)) \<Rightarrow> json_object \<Rightarrow> mcp_server \<times> 'w \<Rightarrow> (mcp_server \<times> 'w) \<times> 'o tool_result" where
  "call_tool home tool handler args sw =
     (case sw of (s, w) \<Rightarrow>
        (case check_call home (mv_policy s) (mv_name s) tool args of
           Deny reason \<Rightarrow>
             ((s\<lparr>mv_log := mv_log s @ [Audit tool ''deny'' reason]\<rparr>, w), ToolError (''policy denied: '' @ reason))
         | Allow \<Rightarrow>
             (case handler w of
                (w1, Inl e) \<Rightarrow> ((s\<lparr>mv_log := mv_log s @ [Audit tool ''allow'' []]\<rparr>, w1), ToolError e)
              | (w1, Inr out) \<Rightarrow> ((s\<lparr>mv_log := mv_log s @ [Audit tool ''allow'' []]\<rparr>, w1), ToolOutput out))))"

section \<open>Properties\<close>

lemmas check_defs = check_call_def check_fs_def check_shell_def check_recon_def check_pkg_def check_http_def check_wiki_def
  check_search_def

definition deny_tools_of :: "policy \<Rightarrow> string \<Rightarrow> string list" where
  "deny_tools_of p server =
     (if server = ''minti-mcp-fs'' then fs_deny_tools (po_fs p)
      else if server = ''minti-mcp-shell'' then sh_deny_tools (po_shell p)
      else if server = ''minti-mcp-recon'' then re_deny_tools (po_recon p)
      else if server = ''minti-mcp-pkg'' then pk_deny_tools (po_pkg p)
      else if server = ''minti-mcp-http'' then ht_deny_tools (po_http p)
      else if server = ''minti-mcp-wiki'' then po_wiki_deny_tools p
      else if server = ''minti-mcp-search'' then po_search_deny_tools p else [])"

lemma deny_each:
  "tool \<in> set (fs_deny_tools f) \<Longrightarrow> check_fs home f tool args = tool_denied ''fs'' tool"
  "tool \<in> set (sh_deny_tools sh) \<Longrightarrow> check_shell sh tool args = tool_denied ''shell'' tool"
  "tool \<in> set (re_deny_tools re) \<Longrightarrow> check_recon re tool args = tool_denied ''recon'' tool"
  "tool \<in> set (pk_deny_tools pk) \<Longrightarrow> check_pkg pk tool = tool_denied ''pkg'' tool"
  "tool \<in> set (ht_deny_tools ht) \<Longrightarrow> check_http ht tool = tool_denied ''http'' tool"
  "tool \<in> set ds \<Longrightarrow> check_wiki ds tool = tool_denied ''wiki'' tool" "tool \<in> set ds \<Longrightarrow> check_search ds tool = tool_denied ''search'' tool"
  by (simp_all add: check_defs)

lemma deny_tools_deny: "tool \<in> set (deny_tools_of p server) \<Longrightarrow> \<exists>r. check_call home (Some p) server tool args = Deny r"
  unfolding deny_tools_of_def check_call_def Let_def option.case
  by (simp only: split: if_split_asm) (simp_all only: if_True if_False deny_each tool_denied_def refl empty_iff list.set, auto)

text \<open>C34: A denied tool never runs and every call is logged once. Whatever a handler does, a call of a tool that the
  loaded policy lists under deny_tools of its server leaves the world as it was and answers an error; every call
  appends exactly one audit line with its tool, which says deny exactly when the handler was not run.\<close>

theorem denied_tool_never_runs:
  assumes "call_tool home tool handler args (s, w) = ((s', w'), r)"
  shows "(\<exists>d reason. mv_log s' = mv_log s @ [Audit tool d reason] \<and>
      (d = ''deny'' \<and> w' = w \<and> r = ToolError (''policy denied: '' @ reason) \<or> d = ''allow'' \<and> w' = fst (handler w))) \<and>
    (case mv_policy s of None \<Rightarrow> True
     | Some p \<Rightarrow> tool \<notin> set (deny_tools_of p (mv_name s)) \<or>
         w' = w \<and> (\<exists>reason. mv_log s' = mv_log s @ [Audit tool ''deny'' reason]))"
proof (cases "check_call home (mv_policy s) (mv_name s) tool args")
  case Allow
  with assms deny_tools_deny [of tool _ "mv_name s" home args] show ?thesis
    by (fastforce simp: call_tool_def split: option.split prod.splits sum.splits)
next
  case (Deny reason)
  with assms show ?thesis by (auto simp: call_tool_def split: option.split)
qed

theorem denied_tool_never_runs_witness:
  "\<exists>reason. fst (call_tool None ''exec'' (\<lambda>w. (w + 1, Inr ())) []
      (\<lparr>mv_name = ''minti-mcp-shell'', mv_policy = Some (default_policy\<lparr>po_shell := (po_shell default_policy)\<lparr>sh_deny_tools := [''exec'']\<rparr>\<rparr>), mv_log = []\<rparr>, 0 :: nat)) =
    (\<lparr>mv_name = ''minti-mcp-shell'', mv_policy = Some (default_policy\<lparr>po_shell := (po_shell default_policy)\<lparr>sh_deny_tools := [''exec'']\<rparr>\<rparr>),
      mv_log = [Audit ''exec'' ''deny'' reason]\<rparr>, 0)"
proof -
  let ?s = "\<lparr>mv_name = ''minti-mcp-shell'', mv_policy = Some (default_policy\<lparr>po_shell := (po_shell default_policy)\<lparr>sh_deny_tools := [''exec'']\<rparr>\<rparr>), mv_log = []\<rparr>"
  obtain s' w' r where c: "call_tool None ''exec'' (\<lambda>w. (w + 1, Inr ())) [] (?s, 0 :: nat) = ((s', w'), r)" by (metis prod.exhaust)
  then have "mv_name s' = mv_name ?s" "mv_policy s' = mv_policy ?s"
    by (auto simp: call_tool_def split: decision.splits)
  with denied_tool_never_runs [OF c] c show ?thesis
    by (cases s') (auto simp: deny_tools_of_def)
qed

text \<open>What the filesystem policy decides. For a call with a path on a daemon whose tool is not denied, the call is
  refused exactly when the path lies below a deny entry, or below no allow entry while there are some. Below means
  that the cleaned components of the expanded entry begin those of the expanded path: no sibling that starts with the
  same letters is caught, and no detour through parent steps escapes. Entries that clean to the root or to the
  current directory are left out.\<close>

theorem fs_decision_by_components:
  assumes "tool \<notin> set (fs_deny_tools p)" "string_arg args ''path'' = path" "path \<noteq> []"
    and "\<forall>e\<in>set (fs_deny p) \<union> set (fs_allow p). parts (expand_home home e) \<noteq> []"
  defines "below \<equiv> \<lambda>e. rooted (expand_home home path) = rooted (expand_home home e) \<and>
    (\<exists>zs. parts (expand_home home path) = parts (expand_home home e) @ zs)"
  shows "(\<exists>r. check_fs home p tool args = Deny r) \<longleftrightarrow>
    (\<exists>d\<in>set (fs_deny p). below d) \<or> fs_allow p \<noteq> [] \<and> \<not> (\<exists>a\<in>set (fs_allow p). below a)"
proof -
  have "under (expand_home home path) (expand_home home e) \<longleftrightarrow> below e" if "e \<in> set (fs_deny p) \<union> set (fs_allow p)" for e
    using under_components assms(4) that by (simp add: below_def)
  then have "(\<exists>d\<in>set (fs_deny p). under (expand_home home path) (expand_home home d)) \<longleftrightarrow> (\<exists>d\<in>set (fs_deny p). below d)"
    "(\<exists>a\<in>set (fs_allow p). under (expand_home home path) (expand_home home a)) \<longleftrightarrow> (\<exists>a\<in>set (fs_allow p). below a)"
    by blast+
  then show ?thesis using assms(1-3) by (simp add: check_fs_def Let_def)
qed

theorem fs_decision_by_components_witness:
  "\<exists>r. check_fs (Some ''/home/u'') (po_fs default_policy) ''read_text'' [(''path'', JStr ''~/x/../.ssh/id'')] = Deny r"
proof -
  have e: "expand_home (Some ''/home/u'') ''~/x/../.ssh/id'' = ''/home/u/.ssh/id''" "expand_home (Some ''/home/u'') ''~/.ssh'' = ''/home/u/.ssh''"
      "expand_home (Some ''/home/u'') ''~/.aws'' = ''/home/u/.aws''" "expand_home (Some ''/home/u'') ''~'' = ''/home/u''"
      "expand_home (Some ''/home/u'') ''~/.minti/audit.jsonl'' = ''/home/u/.minti/audit.jsonl''"
    by code_simp+
  have c: "parts ''/home/u/.ssh/id'' = [''home'', ''u'', ''.ssh'', ''id'']" "parts ''/home/u/.ssh'' = [''home'', ''u'', ''.ssh'']"
      "parts ''/home/u/.aws'' = [''home'', ''u'', ''.aws'']" "parts ''/home/u'' = [''home'', ''u'']"
      "parts ''/home/u/.minti/audit.jsonl'' = [''home'', ''u'', ''.minti'', ''audit.jsonl'']"
    by code_simp+
  show ?thesis
    by (subst fs_decision_by_components [of "''read_text''" _ _ "''~/x/../.ssh/id''"])
      (auto simp: default_policy_def string_arg_def e c rooted_def)
qed

text \<open>The shell allowlist looks at the first word only. With a first word on the allowlist any rest passes, also one
  that starts other commands; the whole text then goes to the shell.\<close>

theorem shell_allowlist_first_word_only:
  assumes "sh_mode p = ''allowlist''" "tool \<notin> set (sh_deny_tools p)" "name \<in> set (sh_allowlist p)"
    and "name \<noteq> []" "\<forall>c\<in>set name. byte c < 128 \<and> \<not> space_rune [c]" "string_arg args ''command'' = name @ '' '' @ rest"
    and "\<forall>c\<in>set rest. byte c < 128" "rest \<noteq> []" "\<not> space_rune [last rest]"
  shows "check_shell p tool args = Allow"
proof -
  let ?cmd = "name @ '' '' @ rest"
  have ascii: "\<forall>c\<in>set ?cmd. byte c < 128" using assms(5,7) by (auto simp: byte_def)
  have p: "pieces ?cmd = map (\<lambda>c. [c]) ?cmd" by (rule pieces_ascii [OF ascii])
  obtain n ns where n: "name = n # ns" using assms(4) by (cases name) auto
  obtain ms m where m: "rest = ms @ [m]" using assms(8) by (cases rest rule: rev_cases) auto
  have "\<not> space_rune [n]" using assms(5) n by simp
  moreover have "\<not> space_rune [m]" using assms(9) m by simp
  ultimately have "trim ?cmd = ?cmd"
    unfolding trim_def p by (simp add: n m)
  moreover have "takeWhile (\<lambda>c. c \<noteq> CHR '' '' \<and> c \<noteq> CHR 0x09) ?cmd = name"
  proof -
    have "\<forall>c\<in>set name. c \<noteq> CHR '' '' \<and> c \<noteq> CHR 0x09"
      using assms(5) by (auto simp: space_rune_def byte_def)
    then show ?thesis by (simp add: takeWhile_append2)
  qed
  ultimately have "first_word ?cmd = name" by (simp only: first_word_def)
  with assms(1-3,6) show ?thesis by (simp add: check_shell_def)
qed

theorem shell_allowlist_first_word_only_witness:
  "check_shell \<lparr>sh_mode = ''allowlist'', sh_allowlist = [''ls''], sh_deny_tools = []\<rparr> ''exec'' [(''command'', JStr ''ls ; rm -rf ~'')] = Allow"
  by (rule shell_allowlist_first_word_only [of _ _ "''ls''" _ "''; rm -rf ~''"])
    (auto simp: string_arg_def byte_def space_rune_def)

end
