(* ===== verification/McpFs.thy ===== *)
theory McpFs
  imports McpPolicy Json
begin

text \<open>
  \<open>mcp-servers/cmd/mcp-fs/main.go\<close>: the filesystem tools and the home jail in front of them. The filesystem is a map from
  the components of a location to a directory, a file or a symbolic link; \<open>walk\<close> is name resolution as
  \<open>filepath.EvalSymlinks\<close> and the kernel do it, with a bound on the links followed. \<open>home\<close> is the home directory
  (\<open>None\<close> when unknown), \<open>cwd\<close> the working directory. Permissions, devices and concurrent changes are left out.
\<close>

section \<open>The filesystem\<close>

datatype fs_entry = Dir | File bytes | Link string

type_synonym fs = "string list \<Rightarrow> fs_entry option"

text \<open>
  Resolve the components \<open>cs\<close> from the link-free location \<open>pos\<close>, following at most \<open>n\<close> links: the link-free location
  reached, or \<open>None\<close> when a component is missing, a file is used as a directory, or there are too many links.
\<close>

function walk :: "fs \<Rightarrow> nat \<Rightarrow> string list \<Rightarrow> string list \<Rightarrow> string list option" where
  "walk fs n pos [] = Some pos"
| "walk fs n pos (c # cs) =
     (if c = [] \<or> c = ''.'' then walk fs n pos cs
      else if c = ''..'' then walk fs n (butlast pos) cs
      else case fs (pos @ [c]) of
        None \<Rightarrow> None
      | Some Dir \<Rightarrow> walk fs n (pos @ [c]) cs
      | Some (File b) \<Rightarrow> if cs = [] then Some (pos @ [c]) else None
      | Some (Link t) \<Rightarrow>
          (case n of
             0 \<Rightarrow> None
           | Suc m \<Rightarrow> walk fs m (if rooted t then [] else pos) (split_on slash t @ cs)))"
  by pat_completeness auto
termination by (relation "measures [\<lambda>(fs, n, pos, cs). n, \<lambda>(fs, n, pos, cs). length cs]") auto

definition max_links :: nat where "max_links = 255"

text \<open>\<open>filepath.EvalSymlinks\<close> on an absolute path.\<close>

definition eval_symlinks :: "fs \<Rightarrow> string \<Rightarrow> string option" where
  "eval_symlinks fs p = map_option (of_parts True) (walk fs max_links [] (split_on slash p))"

section \<open>The jail\<close>

definition abs_path :: "string \<Rightarrow> string \<Rightarrow> string" where
  "abs_path cwd p = (if rooted p then clean p else path_join cwd p)"

definition safe_path :: "fs \<Rightarrow> string option \<Rightarrow> string \<Rightarrow> string \<Rightarrow> string option" where
  "safe_path fs home cwd p =
     (if p = [] then None
      else case home of
        None \<Rightarrow> None
      | Some h \<Rightarrow>
          (case eval_symlinks fs (abs_path cwd (expand_home home p)) of
             None \<Rightarrow> None
           | Some resolved \<Rightarrow> if \<not> under resolved h then None else Some resolved))"

text \<open>The loop of \<open>resolveExistingAncestor\<close>; it ends at the root or at the current directory, which are their own parents.\<close>

partial_function (option) existing_ancestor :: "fs \<Rightarrow> string \<Rightarrow> string option option" where
  "existing_ancestor fs cur =
     (if cur \<noteq> [] \<and> cur \<noteq> path_dir cur then
        (case eval_symlinks fs cur of Some r \<Rightarrow> Some (Some r) | None \<Rightarrow> existing_ancestor fs (path_dir cur))
      else Some None)"

declare existing_ancestor.simps [code]

definition safe_path_for_write :: "fs \<Rightarrow> string option \<Rightarrow> string \<Rightarrow> string \<Rightarrow> string option" where
  "safe_path_for_write fs home cwd p =
     (if p = [] then None
      else case home of
        None \<Rightarrow> None
      | Some h \<Rightarrow>
          let target = abs_path cwd (expand_home home p);
              parent = path_dir target
          in (case (case eval_symlinks fs parent of
                      Some r \<Rightarrow> Some r
                    | None \<Rightarrow> Option.bind (existing_ancestor fs parent) (\<lambda>r. r)) of
                None \<Rightarrow> None
              | Some resolved_parent \<Rightarrow> if \<not> under resolved_parent h then None else Some target))"

section \<open>What the kernel does with a path\<close>

definition kernel_links :: nat where "kernel_links = 40"

definition lookup :: "fs \<Rightarrow> string list \<Rightarrow> fs_entry option" where
  "lookup fs loc = (if loc = [] then Some Dir else fs loc)"

text \<open>Where an open that may create a file ends up: the last component may be missing, also behind links.\<close>

function locate :: "fs \<Rightarrow> nat \<Rightarrow> string list \<Rightarrow> string list \<Rightarrow> string list option" where
  "locate fs n pos [] = Some pos"
| "locate fs n pos (c # cs) =
     (if c = [] \<or> c = ''.'' then locate fs n pos cs
      else if c = ''..'' then locate fs n (butlast pos) cs
      else case fs (pos @ [c]) of
        None \<Rightarrow> if cs = [] then Some (pos @ [c]) else None
      | Some Dir \<Rightarrow> locate fs n (pos @ [c]) cs
      | Some (File b) \<Rightarrow> if cs = [] then Some (pos @ [c]) else None
      | Some (Link t) \<Rightarrow>
          (case n of
             0 \<Rightarrow> None
           | Suc m \<Rightarrow> locate fs m (if rooted t then [] else pos) (split_on slash t @ cs)))"
  by pat_completeness auto
termination by (relation "measures [\<lambda>(fs, n, pos, cs). n, \<lambda>(fs, n, pos, cs). length cs]") auto

text \<open>
  \<open>os.MkdirAll\<close> of a cleaned absolute path, its components deepest first: nothing to do when the path is a directory,
  otherwise its parent and then the directory itself.
\<close>

fun mkdir_all :: "fs \<Rightarrow> string list \<Rightarrow> fs \<times> bool" where
  "mkdir_all fs [] = (fs, True)"
| "mkdir_all fs (c # up) =
     (case walk fs kernel_links [] (rev (c # up)) of
        Some l \<Rightarrow> (fs, lookup fs l = Some Dir)
      | None \<Rightarrow>
          (case mkdir_all fs up of
             (fs1, False) \<Rightarrow> (fs1, False)
           | (fs1, True) \<Rightarrow>
               (case walk fs1 kernel_links [] (rev up) of
                  None \<Rightarrow> (fs1, False)
                | Some l \<Rightarrow>
                    if lookup fs1 l \<noteq> Some Dir then (fs1, False)
                    else if fs1 (l @ [c]) = None then (fs1(l @ [c] \<mapsto> Dir), True)
                    else (fs1, fs1 (l @ [c]) = Some Dir))))"

section \<open>The tools\<close>

datatype fs_error = PathRefused | OpenFailed | IsDirectory | EndOfFile | MkdirFailed | WriteRefused | ReadDirFailed | BadPattern

definition default_max_bytes :: int where "default_max_bytes = 2 ^ 20"

record read_out =
  ro_content :: bytes
  ro_bytes :: nat
  ro_truncated :: bool

text \<open>One \<open>Read\<close> of a file gives as many bytes as are there, up to the buffer; on an empty file it is an error.\<close>

definition read_text :: "fs \<Rightarrow> string option \<Rightarrow> string \<Rightarrow> string \<Rightarrow> int \<Rightarrow> fs_error + read_out" where
  "read_text fs home cwd path max_bytes =
     (case safe_path fs home cwd path of
        None \<Rightarrow> Inl PathRefused
      | Some resolved \<Rightarrow>
          let limit = (if max_bytes \<le> 0 then default_max_bytes else max_bytes)
          in (case walk fs kernel_links [] (split_on slash resolved) of
                None \<Rightarrow> Inl OpenFailed
              | Some loc \<Rightarrow>
                  (case lookup fs loc of
                     Some (File b) \<Rightarrow>
                       let buf = take (nat limit) b
                       in if length buf = 0 then Inl EndOfFile
                          else Inr \<lparr>ro_content = buf, ro_bytes = length buf, ro_truncated = length b > length buf\<rparr>
                   | Some Dir \<Rightarrow> Inl IsDirectory
                   | _ \<Rightarrow> Inl OpenFailed)))"

definition write_text ::
  "fs \<Rightarrow> string option \<Rightarrow> string \<Rightarrow> string \<Rightarrow> bytes \<Rightarrow> bool \<Rightarrow> fs \<times> (fs_error + nat)" where
  "write_text fs home cwd path content create_dirs =
     (case safe_path_for_write fs home cwd path of
        None \<Rightarrow> (fs, Inl PathRefused)
      | Some resolved \<Rightarrow>
          (case (if create_dirs then mkdir_all fs (rev (parts (path_dir resolved))) else (fs, True)) of
             (fs1, False) \<Rightarrow> (fs1, Inl MkdirFailed)
           | (fs1, True) \<Rightarrow>
               (case locate fs1 kernel_links [] (split_on slash resolved) of
                  None \<Rightarrow> (fs1, Inl WriteRefused)
                | Some loc \<Rightarrow>
                    if lookup fs1 loc = Some Dir then (fs1, Inl WriteRefused)
                    else (fs1(loc \<mapsto> File content), Inr (length content)))))"

record dir_entry =
  de_name :: string
  de_is_dir :: bool
  de_size :: nat
  de_modified :: time

record list_entry =
  le_name :: string
  le_is_dir :: bool
  le_size :: nat
  le_modified :: string

text \<open>\<open>read_dir\<close> is what \<open>os.ReadDir\<close> gives; an entry whose \<open>Info\<close> fails is \<open>None\<close>. Names in a directory are distinct.\<close>

definition list_dir ::
  "fs \<Rightarrow> string option \<Rightarrow> string \<Rightarrow> (string \<Rightarrow> dir_entry option list option) \<Rightarrow> string \<Rightarrow> fs_error + list_entry list" where
  "list_dir fs home cwd read_dir path =
     (case safe_path fs home cwd path of
        None \<Rightarrow> Inl PathRefused
      | Some resolved \<Rightarrow>
          (case read_dir resolved of
             None \<Rightarrow> Inl ReadDirFailed
           | Some es \<Rightarrow>
               Inr (sort_key le_name (map (\<lambda>e. \<lparr>le_name = de_name e, le_is_dir = de_is_dir e, le_size = de_size e,
                 le_modified = rfc3339_nano (de_modified e div second * second)\<rparr>) (map the (filter (\<lambda>e. e \<noteq> None) es))))))"

fun glob_collect :: "(string \<Rightarrow> bool) \<Rightarrow> nat \<Rightarrow> nat \<Rightarrow> string list \<Rightarrow> string list \<Rightarrow> string list \<times> bool" where
  "glob_collect safe found cap out [] = (out, False)"
| "glob_collect safe found cap out (m # ms) =
     (if \<not> safe m then glob_collect safe found cap out ms
      else
        let out = out @ [m]
        in if length out \<ge> cap then (out, found > length out) else glob_collect safe found cap out ms)"

text \<open>\<open>glob_matches\<close> is \<open>filepath.Glob\<close>.\<close>

definition glob ::
  "fs \<Rightarrow> string option \<Rightarrow> string \<Rightarrow> (string \<Rightarrow> string list option) \<Rightarrow> string \<Rightarrow> int \<Rightarrow> fs_error + string list \<times> bool" where
  "glob fs home cwd glob_matches pattern max_results =
     (case glob_matches (expand_home home pattern) of
        None \<Rightarrow> Inl BadPattern
      | Some ms \<Rightarrow>
          let cap = (if max_results \<le> 0 \<or> max_results > 1000 then 1000 else nat max_results)
          in Inr (glob_collect (\<lambda>m. safe_path fs home cwd m \<noteq> None) (length ms) cap [] ms))"

end
