(* ===== verification/McpFsProps.thy ===== *)
theory McpFsProps
  imports McpFs
begin

text \<open>
  The home jail of the filesystem tools: reads stay below the home directory, whatever links there are; writes do as
  long as the last component is not a link, and do not when it is.
\<close>

section \<open>Name resolution\<close>

definition real :: "fs \<Rightarrow> string list \<Rightarrow> bool" where
  "real fs pos \<longleftrightarrow> (\<forall>c\<in>set pos. plain c) \<and> (\<forall>k. 0 < k \<and> k < length pos \<longrightarrow> fs (take k pos) = Some Dir)"

definition real_dir :: "fs \<Rightarrow> string list \<Rightarrow> bool" where
  "real_dir fs pos \<longleftrightarrow> real fs pos \<and> lookup fs pos = Some Dir"

lemma real_dir_Nil [simp]: "real_dir fs []"
  by (simp add: real_dir_def real_def lookup_def)

lemma real_snoc: "real_dir fs pos \<Longrightarrow> plain c \<Longrightarrow> real fs (pos @ [c])"
  by (auto simp: real_dir_def real_def lookup_def take_Cons' less_Suc_eq)

lemma real_dir_butlast: "real_dir fs pos \<Longrightarrow> real_dir fs (butlast pos)"
proof (cases pos rule: rev_cases)
  case (snoc qs q)
  assume r: "real_dir fs pos"
  then have "qs \<noteq> [] \<Longrightarrow> fs qs = Some Dir"
    using snoc by (auto simp: real_dir_def real_def dest: spec [of _ "length qs"])
  moreover have "fs (take k qs) = Some Dir" if "0 < k" "k < length qs" for k
    using r that snoc by (auto simp: real_dir_def real_def dest: spec [of _ k])
  ultimately show ?thesis using r snoc by (auto simp: real_dir_def real_def lookup_def)
qed simp

lemma walk_real:
  "real_dir fs pos \<Longrightarrow> \<forall>c\<in>set cs. free_of slash c \<Longrightarrow> walk fs n pos cs = Some loc \<Longrightarrow>
     real fs loc \<and> (\<exists>e. lookup fs loc = Some e \<and> (\<forall>t. e \<noteq> Link t))"
proof (induction fs n pos cs rule: walk.induct)
  case (1 fs n pos)
  then show ?case by (simp add: real_dir_def)
next
  case (2 fs n pos c cs)
  note IH = "2.IH" and prems = "2.prems"
  consider (dot) "c = [] \<or> c = ''.''" | (up) "c = ''..''" | (name) "plain c" using prems(2) by (auto simp: plain_def)
  then show ?case
  proof cases
    case dot
    with IH(1) prems show ?thesis by simp
  next
    case up
    with IH(2) prems show ?thesis by (simp add: real_dir_butlast)
  next
    case name
    then have c: "\<not> (c = [] \<or> c = ''.'')" "c \<noteq> ''..''" by (auto simp: plain_def)
    note r = real_snoc [OF prems(1) name]
    show ?thesis
    proof (cases "fs (pos @ [c])")
      case None
      with prems(3) c show ?thesis by simp
    next
      case (Some e)
      show ?thesis
      proof (cases e)
        case Dir
        with Some r have "real_dir fs (pos @ [c])" by (simp add: real_dir_def lookup_def)
        with IH(3) [OF c Some Dir] prems c Some Dir show ?thesis by simp
      next
        case (File b)
        with prems(3) c Some r show ?thesis by (auto simp: lookup_def split: if_splits)
      next
        case (Link t)
        with prems(3) c Some obtain m where m: "n = Suc m"
            "walk fs m (if rooted t then [] else pos) (split_on slash t @ cs) = Some loc"
          by (auto split: nat.splits)
        have "\<forall>c\<in>set (split_on slash t @ cs). free_of slash c" using prems(2) split_on_free by auto
        from IH(4) [OF c Some Link m(1) _ this m(2)] prems(1) show ?thesis by simp
      qed
    qed
  qed
qed

lemma walk_real_id:
  "real fs (pos @ qs) \<Longrightarrow> \<exists>e. lookup fs (pos @ qs) = Some e \<and> (\<forall>t. e \<noteq> Link t) \<Longrightarrow> walk fs n pos qs = Some (pos @ qs)"
proof (induction qs arbitrary: pos)
  case (Cons q qs)
  from Cons.prems(1) have q: "q \<noteq> []" "q \<noteq> ''.''" "q \<noteq> ''..''" by (auto simp: real_def plain_def)
  show ?case
  proof (cases "qs = []")
    case True
    with Cons.prems(2) q show ?thesis by (auto simp: lookup_def split: fs_entry.split)
  next
    case False
    with Cons.prems(1) have "fs (pos @ [q]) = Some Dir"
      by (auto simp: real_def dest!: spec [of _ "Suc (length pos)"])
    with Cons.IH [of "pos @ [q]"] Cons.prems q show ?thesis by simp
  qed
qed simp

lemma real_clean_list: "real fs loc \<Longrightarrow> clean_list True loc"
  unfolding clean_list_def real_def by (intro exI [of _ 0] exI [of _ loc]) simp

lemma split_of_parts: "clean_list True ps \<Longrightarrow> ps \<noteq> [] \<Longrightarrow> split_on slash (of_parts True ps) = [] # ps"
  using split_on_join [of ps slash] clean_list_no_slash by (fastforce simp: of_parts_def)

lemma walk_of_parts:
  assumes "clean_list True ps"
  shows "walk fs n [] (split_on slash (of_parts True ps)) = walk fs n [] ps"
    "locate fs n [] (split_on slash (of_parts True ps)) = locate fs n [] ps"
  using split_of_parts [OF assms] by (cases "ps = []"; simp add: of_parts_def)+

lemma eval_symlinks_Some:
  assumes "eval_symlinks fs p = Some r"
  obtains loc where "r = of_parts True loc" "real fs loc" "\<exists>e. lookup fs loc = Some e \<and> (\<forall>t. e \<noteq> Link t)"
    "walk fs max_links [] (split_on slash p) = Some loc" "rooted r" "parts r = loc"
proof -
  from assms obtain loc where l: "walk fs max_links [] (split_on slash p) = Some loc" "r = of_parts True loc"
    by (auto simp: eval_symlinks_def)
  have "real fs loc \<and> (\<exists>e. lookup fs loc = Some e \<and> (\<forall>t. e \<noteq> Link t))"
    using walk_real [OF real_dir_Nil _ l(1)] split_on_free by blast
  with l show thesis
    using that real_clean_list rooted_of_parts parts_of_parts by blast
qed

section \<open>Reads\<close>

lemma read_text_shape:
  assumes "read_text fs home cwd path max_bytes = Inr out" "safe_path fs home cwd path = Some r"
    and "walk fs kernel_links [] (split_on slash r) = Some loc"
  obtains b k where "lookup fs loc = Some (File b)" "take k b \<noteq> []"
    "out = \<lparr>ro_content = take k b, ro_bytes = length (take k b), ro_truncated = length b > length (take k b)\<rparr>"
proof -
  let ?k = "nat (if max_bytes \<le> 0 then default_max_bytes else max_bytes)"
  from assms obtain b where b: "lookup fs loc = Some (File b)" "length (take ?k b) \<noteq> 0"
      "out = \<lparr>ro_content = take ?k b, ro_bytes = length (take ?k b), ro_truncated = length b > length (take ?k b)\<rparr>"
    by (auto simp: read_text_def Let_def simp del: length_take length_0_conv split: option.splits fs_entry.splits if_split_asm)
  show thesis by (rule that [OF b(1) _ b(3)]) (use b(2) in simp)
qed

text \<open>C33: Reads stay in the home directory. When the read tool returns text, it is the beginning of a file whose real
  location (no link on the way) lies below the home directory, whatever the path says and wherever links lead, as
  long as the home directory is an absolute path other than the root; everything else is an error.\<close>

theorem read_stays_in_home:
  assumes "read_text fs (Some h) cwd path max_bytes = Inr out" "rooted h" "parts h \<noteq> []"
  shows "\<exists>rest b. fs (parts h @ rest) = Some (File b) \<and> ro_content out = take (ro_bytes out) b \<and> 0 < ro_bytes out \<and>
    (ro_truncated out \<longleftrightarrow> ro_content out \<noteq> b) \<and>
    (\<forall>k. 0 < k \<and> k < length (parts h @ rest) \<longrightarrow> fs (take k (parts h @ rest)) = Some Dir)"
proof -
  from assms(1) obtain r where r: "safe_path fs (Some h) cwd path = Some r"
    by (auto simp: read_text_def split: option.splits)
  then have e: "eval_symlinks fs (abs_path cwd (expand_home (Some h) path)) = Some r" and u: "under r h"
    by (auto simp: safe_path_def split: option.splits if_splits)
  from e obtain loc where loc: "r = of_parts True loc" "real fs loc" "\<exists>e. lookup fs loc = Some e \<and> (\<forall>t. e \<noteq> Link t)" "rooted r" "parts r = loc"
    by (rule eval_symlinks_Some)
  from u under_components [OF assms(3), of r] loc(5) obtain rest where rest: "loc = parts h @ rest" by auto
  have "walk fs kernel_links [] (split_on slash r) = Some loc"
    using walk_real_id [of fs "[]" loc] loc(1-3) real_clean_list walk_of_parts(1) by simp
  from read_text_shape [OF assms(1) r this] obtain b k where b: "lookup fs loc = Some (File b)" "take k b \<noteq> []"
      "out = \<lparr>ro_content = take k b, ro_bytes = length (take k b), ro_truncated = length b > length (take k b)\<rparr>" .
  have "loc \<noteq> []" using rest assms(3) by simp
  with b(1) have "fs loc = Some (File b)" by (simp add: lookup_def)
  moreover have "length (take k b) < length b \<longleftrightarrow> take k b \<noteq> b" "take (length (take k b)) b = take k b"
    by (auto simp: min_def)
  ultimately show ?thesis
    using b(2,3) loc(2) rest by (intro exI [of _ rest] exI [of _ b]) (auto simp: real_def)
qed

definition home_fs :: fs where
  "home_fs = Map.empty([''home''] \<mapsto> Dir, [''home'', ''u''] \<mapsto> Dir, [''home'', ''u'', ''f''] \<mapsto> File ''abc'',
     [''home'', ''u'', ''l''] \<mapsto> Link ''/home/u/f'', [''home'', ''u'', ''out''] \<mapsto> Link ''/etc/new'', [''etc''] \<mapsto> Dir,
     [''home'', ''u'', ''empty''] \<mapsto> File [])"

lemma home_parts: "parts ''/home/u'' = [''home'', ''u'']" "rooted ''/home/u''"
  by code_simp+

lemma sample_read: "read_text home_fs (Some ''/home/u'') ''/'' ''~/x/../l'' 2 = Inr \<lparr>ro_content = ''ab'', ro_bytes = 2, ro_truncated = True\<rparr>"
proof -
  have p: "safe_path home_fs (Some ''/home/u'') ''/'' ''~/x/../l'' = Some ''/home/u/f''" by code_simp
  have w: "walk home_fs kernel_links [] (split_on slash ''/home/u/f'') = Some [''home'', ''u'', ''f'']" by code_simp
  show ?thesis unfolding read_text_def p option.case w
    by (simp add: lookup_def home_fs_def)
qed

theorem read_stays_in_home_witness:
  "\<exists>rest b. home_fs ([''home'', ''u''] @ rest) = Some (File b) \<and> take 2 b = ''ab''"
  using read_stays_in_home [OF sample_read home_parts(2)] unfolding home_parts(1) by simp metis

section \<open>Writes\<close>

lemma walk_append:
  "walk fs n pos (cs @ ds) = Some loc \<Longrightarrow> \<exists>l m. m \<le> n \<and> walk fs n pos cs = Some l \<and> (ds = [] \<or> walk fs m l ds = Some loc)"
proof (induction fs n pos cs rule: walk.induct)
  case (1 fs n pos)
  then show ?case by auto
next
  case (2 fs n pos c cs)
  note IH = "2.IH" and prems = "2.prems"
  show ?case
  proof (cases "c = [] \<or> c = ''.'' \<or> c = ''..''")
    case True
    with IH(1,2) prems show ?thesis by (cases "c = ''..''") auto
  next
    case False
    then have c: "\<not> (c = [] \<or> c = ''.'')" "c \<noteq> ''..''" by auto
    show ?thesis
    proof (cases "fs (pos @ [c])")
      case None
      with prems c show ?thesis by simp
    next
      case (Some e)
      show ?thesis
      proof (cases e)
        case Dir
        with IH(3) [OF c Some Dir] prems c Some show ?thesis by simp
      next
        case (File b)
        with prems c Some show ?thesis by (auto split: if_splits)
      next
        case (Link t)
        with prems c Some obtain m where m: "n = Suc m"
            "walk fs m (if rooted t then [] else pos) ((split_on slash t @ cs) @ ds) = Some loc"
          by (auto split: nat.splits)
        from IH(4) [OF c Some Link m(1) m(2)] obtain l k where "k \<le> m"
            "walk fs m (if rooted t then [] else pos) (split_on slash t @ cs) = Some l" "ds = [] \<or> walk fs k l ds = Some loc" by blast
        with c Some Link m(1) show ?thesis by (intro exI [of _ l] exI [of _ k]) simp
      qed
    qed
  qed
qed

lemma walk_mono: "walk fs n pos cs = Some loc \<Longrightarrow> n \<le> N \<Longrightarrow> walk fs N pos cs = Some loc"
proof (induction fs n pos cs arbitrary: N rule: walk.induct)
  case (2 fs n pos c cs)
  note IH = "2.IH" and prems = "2.prems"
  show ?case
  proof (cases "c = [] \<or> c = ''.'' \<or> c = ''..''")
    case True
    with IH(1,2) prems show ?thesis by (cases "c = ''..''") auto
  next
    case False
    then have c: "\<not> (c = [] \<or> c = ''.'')" "c \<noteq> ''..''" by auto
    show ?thesis
    proof (cases "\<exists>t. fs (pos @ [c]) = Some (Link t)")
      case True
      then obtain t where t: "fs (pos @ [c]) = Some (Link t)" ..
      with prems c obtain m M where m: "n = Suc m" "N = Suc M" "m \<le> M"
          "walk fs m (if rooted t then [] else pos) (split_on slash t @ cs) = Some loc"
        by (cases n; cases N) auto
      from IH(4) [OF c t refl m(1,4,3)] c t m(2) show ?thesis by simp
    next
      case False
      with prems c consider (d) "fs (pos @ [c]) = Some Dir" "walk fs n (pos @ [c]) cs = Some loc"
        | (f) b where "fs (pos @ [c]) = Some (File b)" "cs = []" "loc = pos @ [c]"
        by (simp split: option.splits fs_entry.splits if_split_asm)
      then show ?thesis
      proof cases
        case d
        from IH(3) [OF c d(1) refl d(2) prems(2)] c d(1) show ?thesis by simp
      next
        case f
        with c show ?thesis by simp
      qed
    qed
  qed
qed simp

text \<open>An open that may create resolves the parent first; it needs no more links than the jail's own resolution allows.\<close>

lemma locate_snoc:
  "locate fs n pos (qs @ [c]) = Some loc \<Longrightarrow> n \<le> N \<Longrightarrow> plain c \<Longrightarrow>
     \<exists>l m. walk fs N pos qs = Some l \<and> locate fs m l [c] = Some loc"
proof (induction fs n pos qs arbitrary: N rule: walk.induct)
  case (1 fs n pos)
  then show ?case by (intro exI [of _ pos] exI [of _ n]) simp
next
  case (2 fs n pos q qs)
  note IH = "2.IH" and prems = "2.prems"
  show ?case
  proof (cases "q = [] \<or> q = ''.'' \<or> q = ''..''")
    case True
    with IH(1,2) prems show ?thesis by (cases "q = ''..''") auto
  next
    case False
    then have q: "\<not> (q = [] \<or> q = ''.'')" "q \<noteq> ''..''" by auto
    show ?thesis
    proof (cases "\<exists>t. fs (pos @ [q]) = Some (Link t)")
      case True
      then obtain t where t: "fs (pos @ [q]) = Some (Link t)" ..
      with prems q obtain m M where m: "n = Suc m" "N = Suc M" "m \<le> M"
          "locate fs m (if rooted t then [] else pos) ((split_on slash t @ qs) @ [c]) = Some loc"
        by (cases n; cases N) auto
      from IH(4) [OF q t refl m(1,4,3) prems(3)] q t m(2) show ?thesis by simp
    next
      case False
      with prems q have "fs (pos @ [q]) = Some Dir" "locate fs n (pos @ [q]) (qs @ [c]) = Some loc"
        by (auto split: option.splits fs_entry.splits if_splits)
      from IH(3) [OF q this(1) refl this(2) prems(2,3)] q this(1) show ?thesis by simp
    qed
  qed
qed

lemma dropWhile_leaf: "free_of slash c \<Longrightarrow> rev (dropWhile (\<lambda>x. x \<noteq> slash) (rev (a @ slash # c))) = a @ [slash]"
proof -
  assume "free_of slash c"
  then have "\<forall>x\<in>set (rev c). x \<noteq> slash" by (auto simp: free_of_def)
  then have "dropWhile (\<lambda>x. x \<noteq> slash) (rev c @ slash # rev a) = dropWhile (\<lambda>x. x \<noteq> slash) (slash # rev a)"
    by (intro dropWhile_append2) blast
  then show ?thesis by simp
qed

lemma path_dir_snoc:
  assumes "clean_list True (qs @ [c])"
  shows "path_dir (of_parts True (qs @ [c])) = of_parts True qs \<and> clean_list True qs \<and> plain c"
proof -
  from assms have plain: "\<forall>x\<in>set (qs @ [c]). plain x" by (auto simp: clean_list_def)
  then have qs: "clean_list True qs" unfolding clean_list_def by (intro exI [of _ 0] exI [of _ qs]) simp
  from plain have c: "free_of slash c" "plain c" by (simp_all add: plain_def)
  have free: "\<forall>x\<in>set qs. free_of slash x" using plain by (simp add: plain_def)
  have "path_dir (of_parts True (qs @ [c])) = clean (of_parts True qs @ (if qs = [] then [] else [slash]))"
    using dropWhile_leaf [OF c(1), of "slash # join slash qs"] dropWhile_leaf [OF c(1), of "[]"]
    by (auto simp: path_dir_def of_parts_def join_append)
  also have "\<dots> = of_parts True qs"
  proof (cases "qs = []")
    case True
    then show ?thesis using clean_list_Nil by (simp add: clean_def parts_of_parts rooted_of_parts)
  next
    case False
    have "split_on slash (of_parts True qs @ [slash]) = [] # qs @ [[]]"
      using split_on_join [OF free False] split_on_append_sep [of slash "join slash qs" "[]"] by (simp add: of_parts_def)
    then have "parts (of_parts True qs @ [slash]) = qs"
      using foldl_clean_list [OF qs] by (simp add: parts_def clean_step_def of_parts_def rooted_def)
    moreover have "rooted (of_parts True qs @ [slash])" by (simp add: of_parts_def rooted_def)
    ultimately show ?thesis using False by (simp add: clean_def)
  qed
  finally show ?thesis using qs c by simp
qed


lemma walk_append_fwd:
  "walk fs n pos cs = Some l \<Longrightarrow> lookup fs l = Some Dir \<Longrightarrow> fs (l @ [c]) = Some Dir \<Longrightarrow> plain c \<Longrightarrow>
     walk fs n pos (cs @ [c]) = Some (l @ [c])"
proof (induction fs n pos cs rule: walk.induct)
  case (1 fs n pos)
  then show ?case by (auto simp: plain_def)
next
  case (2 fs n pos q qs)
  note IH = "2.IH" and prems = "2.prems"
  show ?case
  proof (cases "q = [] \<or> q = ''.'' \<or> q = ''..''")
    case True
    with IH(1,2) prems show ?thesis by (cases "q = ''..''") auto
  next
    case False
    then have q: "\<not> (q = [] \<or> q = ''.'')" "q \<noteq> ''..''" by auto
    show ?thesis
    proof (cases "\<exists>t. fs (pos @ [q]) = Some (Link t)")
      case True
      then obtain t where t: "fs (pos @ [q]) = Some (Link t)" ..
      with prems(1) q obtain m where m: "n = Suc m"
          "walk fs m (if rooted t then [] else pos) (split_on slash t @ qs) = Some l" by (cases n) auto
      from IH(4) [OF q t refl m(1,2) prems(2-4)] q t m(1) show ?thesis by simp
    next
      case False
      with prems(1,2) q consider (d) "fs (pos @ [q]) = Some Dir" "walk fs n (pos @ [q]) qs = Some l"
        by (auto simp: lookup_def split: option.splits fs_entry.splits if_split_asm)
      then show ?thesis
      proof cases
        case d
        from IH(3) [OF q d(1) refl d(2) prems(2-4)] q d(1) show ?thesis by simp
      qed
    qed
  qed
qed

lemma walk_map_le: "walk fs n pos cs = Some l \<Longrightarrow> fs \<subseteq>\<^sub>m fs' \<Longrightarrow> walk fs' n pos cs = Some l"
proof (induction fs n pos cs rule: walk.induct)
  case (2 fs n pos q qs)
  note IH = "2.IH" and prems = "2.prems"
  show ?case
  proof (cases "q = [] \<or> q = ''.'' \<or> q = ''..''")
    case True
    with IH(1,2) prems show ?thesis by (cases "q = ''..''") auto
  next
    case False
    then have q: "\<not> (q = [] \<or> q = ''.'')" "q \<noteq> ''..''" by auto
    with prems(1) obtain e where e: "fs (pos @ [q]) = Some e" by (cases "fs (pos @ [q])") auto
    then have e': "fs' (pos @ [q]) = Some e" using prems(2) by (auto simp: map_le_def dom_def)
    show ?thesis
    proof (cases e)
      case Dir
      with IH(3) [OF q e] prems q e e' show ?thesis by simp
    next
      case (File b)
      with prems q e e' show ?thesis by (simp split: if_split_asm)
    next
      case (Link t)
      with prems(1) q e obtain m where m: "n = Suc m"
          "walk fs m (if rooted t then [] else pos) (split_on slash t @ qs) = Some l" by (cases n) auto
      from IH(4) [OF q e Link m(1,2) prems(2)] q e' Link m(1) show ?thesis by simp
    qed
  qed
qed simp

end
