(* ===== verification/McpWriteProps.thy ===== *)
theory McpWriteProps
  imports McpFsProps "HOL-Library.Sublist"
begin

text \<open>
  Writes through the home jail: what \<open>write_text\<close> changes lies below the home directory as long as the last component
  of the target is not a link; when it is, the write follows it.
\<close>

section \<open>Making directories\<close>

text \<open>What \<open>mkdir_all\<close> changes lies below the first component that did not resolve.\<close>

definition grows :: "fs \<Rightarrow> string list \<Rightarrow> fs \<Rightarrow> bool \<Rightarrow> bool" where
  "grows fs qs fs1 ok \<longleftrightarrow>
     (\<exists>qs1 q qs2 l. qs = qs1 @ q # qs2 \<and> walk fs kernel_links [] qs1 = Some l \<and> fs (l @ [q]) = None \<and>
        (\<forall>loc. fs1 loc \<noteq> fs loc \<longrightarrow> prefix (l @ [q]) loc) \<and>
        (ok \<longrightarrow> walk fs1 kernel_links [] qs = Some (l @ q # qs2)))"

lemma grows_snoc:
  assumes "grows fs qs fs0 True" "walk fs0 kernel_links [] qs = Some l"
    and "\<forall>loc. fs1 loc \<noteq> fs0 loc \<longrightarrow> loc = l @ [c]" "ok \<longrightarrow> walk fs1 kernel_links [] (qs @ [c]) = Some (l @ [c])"
  shows "grows fs (qs @ [c]) fs1 ok"
proof -
  from assms(1) obtain qs1 q qs2 k where g: "qs = qs1 @ q # qs2" "walk fs kernel_links [] qs1 = Some k" "fs (k @ [q]) = None"
      "\<forall>loc. fs0 loc \<noteq> fs loc \<longrightarrow> prefix (k @ [q]) loc" "walk fs0 kernel_links [] qs = Some (k @ q # qs2)"
    unfolding grows_def by auto
  with assms(2) have l: "l = k @ q # qs2" by simp
  have "prefix (k @ [q]) loc" if "fs1 loc \<noteq> fs loc" for loc
  proof (cases "fs0 loc = fs loc")
    case True
    with that assms(3) l have "loc = (k @ [q]) @ qs2 @ [c]" by auto
    then show ?thesis by (simp only: prefix_def) blast
  qed (use g(4) in blast)
  moreover have "qs @ [c] = qs1 @ q # (qs2 @ [c])" "ok \<longrightarrow> walk fs1 kernel_links [] (qs @ [c]) = Some (k @ q # (qs2 @ [c]))"
    using assms(4) g(1) l by simp_all
  ultimately show ?thesis unfolding grows_def using g(2,3) by blast
qed

lemma grows_first:
  assumes "walk fs kernel_links [] qs = Some l" "fs (l @ [c]) = None"
    and "\<forall>loc. fs1 loc \<noteq> fs loc \<longrightarrow> loc = l @ [c]" "ok \<longrightarrow> walk fs1 kernel_links [] (qs @ [c]) = Some (l @ [c])"
  shows "grows fs (qs @ [c]) fs1 ok"
  unfolding grows_def using assms by (intro exI [of _ qs] exI [of _ c] exI [of _ "[]"] exI [of _ l]) auto

lemma mkdir_all_effect:
  "mkdir_all fs (rev qs) = (fs1, ok) \<Longrightarrow> \<forall>q\<in>set qs. plain q \<Longrightarrow>
     fs \<subseteq>\<^sub>m fs1 \<and>
     (ok \<longrightarrow> (\<exists>l. walk fs1 kernel_links [] qs = Some l \<and> lookup fs1 l = Some Dir)) \<and>
     (fs1 = fs \<and> (ok \<longrightarrow> walk fs kernel_links [] qs \<noteq> None) \<or>
      walk fs kernel_links [] qs = None \<and> grows fs qs fs1 ok)"
proof (induction qs arbitrary: fs1 ok rule: rev_induct)
  case Nil
  then show ?case by (simp add: lookup_def)
next
  case (snoc c qs)
  have c: "plain c" and qs: "\<forall>q\<in>set qs. plain q" using snoc.prems(2) by auto
  show ?case
  proof (cases "walk fs kernel_links [] (qs @ [c])")
    case (Some l)
    with snoc.prems(1) show ?thesis by auto
  next
    case None
    obtain fs0 ok0 where r: "mkdir_all fs (rev qs) = (fs0, ok0)" by (cases "mkdir_all fs (rev qs)")
    note IH = snoc.IH [OF r qs]
    have grow_no: "grows fs (qs @ [c]) fs0 False" if "grows fs qs fs0 b" for b
      using that unfolding grows_def by (metis append.assoc append_Cons)
    show ?thesis
    proof (cases ok0)
      case False
      with snoc.prems(1) None r have "fs1 = fs0" "\<not> ok" by auto
      with IH None grow_no show ?thesis by auto
    next
      case True
      with IH obtain l where l: "walk fs0 kernel_links [] qs = Some l" "lookup fs0 l = Some Dir" by blast
      show ?thesis
      proof (cases "fs0 (l @ [c]) = None")
        case new: True
        have res: "fs1 = fs0(l @ [c] \<mapsto> Dir)" "ok" using snoc.prems(1) None r True l new by auto
        have le: "fs0 \<subseteq>\<^sub>m fs1" using new res by (auto simp: map_le_def)
        have w: "walk fs1 kernel_links [] (qs @ [c]) = Some (l @ [c])"
          by (rule walk_append_fwd [OF walk_map_le [OF l(1) le] _ _ c]) (use l(2) res in \<open>auto simp: lookup_def\<close>)
        have d: "\<forall>loc. fs1 loc \<noteq> fs0 loc \<longrightarrow> loc = l @ [c]" using res by simp
        have "grows fs (qs @ [c]) fs1 ok"
        proof (cases "fs0 = fs")
          case True
          from grows_first [of fs qs l c fs1 ok] l(1) new d w True show ?thesis by simp
        next
          case False
          with IH True have "grows fs qs fs0 True" by simp
          from grows_snoc [OF this l(1) d] w show ?thesis by simp
        qed
        moreover have "fs \<subseteq>\<^sub>m fs1" using IH le map_le_trans by blast
        moreover have "lookup fs1 (l @ [c]) = Some Dir" using res by (simp add: lookup_def)
        ultimately show ?thesis using None w res(2) by blast
      next
        case old: False
        with snoc.prems(1) None r True l have res: "fs1 = fs0" "ok = (fs0 (l @ [c]) = Some Dir)" by auto
        have w: "walk fs0 kernel_links [] (qs @ [c]) = Some (l @ [c])" if "fs0 (l @ [c]) = Some Dir"
          by (rule walk_append_fwd [OF l(1,2) that c])
        show ?thesis
        proof (cases "fs0 = fs")
          case True
          with w None res show ?thesis by auto
        next
          case False
          with IH True have "grows fs qs fs0 True" by simp
          from grows_snoc [OF this l(1)] res w have "grows fs (qs @ [c]) fs1 ok" by simp
          moreover have "lookup fs1 (l @ [c]) = Some Dir" if ok using that res by (simp add: lookup_def)
          moreover have "walk fs1 kernel_links [] (qs @ [c]) = Some (l @ [c])" if ok using that res w by simp
          moreover have "fs \<subseteq>\<^sub>m fs1" using IH res by simp
          ultimately show ?thesis using None by blast
        qed
      qed
    qed
  qed
qed

section \<open>The ancestor that resolves\<close>

text \<open>Whichever way a prefix resolves, the first missing component is the same.\<close>

lemma walk_unique: "walk fs n pos cs = Some l \<Longrightarrow> walk fs m pos cs = Some k \<Longrightarrow> l = k"
  using walk_mono [of fs n pos cs l "max n m"] walk_mono [of fs m pos cs k "max n m"] by simp

lemma walk_missing:
  assumes "walk fs n [] qs1 = Some l" "fs (l @ [q]) = None" "plain q"
  shows "walk fs m [] (qs1 @ q # qs2) = None"
proof (rule ccontr)
  assume "walk fs m [] (qs1 @ q # qs2) \<noteq> None"
  then obtain r where "walk fs m [] ((qs1 @ [q]) @ qs2) = Some r" by auto
  then obtain r' where "walk fs m [] (qs1 @ [q]) = Some r'" using walk_append by blast
  then obtain k j where "walk fs m [] qs1 = Some k" "walk fs j k [q] = Some r'" using walk_append by blast
  moreover from this(1) assms(1) have "k = l" by (blast dest: walk_unique)
  ultimately show False using assms by (auto simp: plain_def)
qed

lemma first_missing:
  assumes "qs1 @ q # qs2 = as @ a # bs" "walk fs n [] qs1 = Some l" "fs (l @ [q]) = None" "plain q" "n \<le> m"
    and "walk fs m [] as = Some k" "walk fs m [] (as @ [a]) = None"
  shows "k = l"
proof -
  from assms(1) consider "qs1 = as" | (longer) us where "as = qs1 @ q # us" | (shorter) us where "qs1 = as @ a # us"
    by (auto simp: append_eq_append_conv2 Cons_eq_append_conv append_eq_Cons_conv)
  then show ?thesis
  proof cases
    case 1
    with assms(2,6) show ?thesis by (blast dest: walk_unique)
  next
    case longer
    with walk_missing [OF assms(2,3,4)] assms(6) show ?thesis by simp
  next
    case shorter
    have "walk fs m [] ((as @ [a]) @ us) = Some l" using walk_mono [OF assms(2,5)] shorter by simp
    with assms(7) show ?thesis using walk_append by fastforce
  qed
qed

lemma eval_of_parts:
  "clean_list True qs \<Longrightarrow> eval_symlinks fs (of_parts True qs) = map_option (of_parts True) (walk fs max_links [] qs)"
  by (simp add: eval_symlinks_def walk_of_parts)

lemma existing_ancestor_root: "existing_ancestor fs (of_parts True []) = Some None"
proof -
  have "path_dir (of_parts True []) = of_parts True []" by code_simp
  then show ?thesis by (subst existing_ancestor.simps) simp
qed

lemma existing_ancestor_snoc:
  assumes "clean_list True (qs @ [c])"
  shows "existing_ancestor fs (of_parts True (qs @ [c])) =
    (case walk fs max_links [] (qs @ [c]) of Some l \<Rightarrow> Some (Some (of_parts True l)) | None \<Rightarrow> existing_ancestor fs (of_parts True qs))"
proof -
  have "of_parts True (qs @ [c]) \<noteq> of_parts True qs"
    using path_dir_snoc [OF assms] of_parts_inj [of True "qs @ [c]" True qs] assms by auto
  moreover have "of_parts True (qs @ [c]) \<noteq> []" using of_parts_not_Nil [OF assms] .
  ultimately show ?thesis
    using path_dir_snoc [OF assms]
    by (subst existing_ancestor.simps) (auto simp: eval_of_parts [OF assms] split: option.splits)
qed

text \<open>The search for an ancestor ends, with the deepest one that resolves.\<close>

lemma existing_ancestor_ends:
  "clean_list True qs \<Longrightarrow> \<exists>r. existing_ancestor fs (of_parts True qs) = Some r"
proof (induction qs rule: rev_induct)
  case Nil
  then show ?case by (simp add: existing_ancestor_root)
next
  case (snoc c qs)
  then show ?case using path_dir_snoc [of qs c] by (simp add: existing_ancestor_snoc split: option.split)
qed

lemma existing_ancestor_deepest:
  "existing_ancestor fs (of_parts True qs) = Some (Some r) \<Longrightarrow> clean_list True qs \<Longrightarrow> walk fs max_links [] qs = None \<Longrightarrow>
     \<exists>as a bs l. qs = as @ a # bs \<and> walk fs max_links [] as = Some l \<and> r = of_parts True l \<and> walk fs max_links [] (as @ [a]) = None"
proof (induction qs rule: rev_induct)
  case Nil
  then show ?case by simp
next
  case (snoc c qs)
  have cl: "clean_list True qs" using path_dir_snoc snoc.prems(2) by blast
  from snoc.prems have e: "existing_ancestor fs (of_parts True qs) = Some (Some r)" by (simp add: existing_ancestor_snoc)
  show ?case
  proof (cases "walk fs max_links [] qs")
    case None
    from snoc.IH [OF e cl None] obtain as a bs l where "qs = as @ a # bs" "walk fs max_links [] as = Some l"
        "r = of_parts True l" "walk fs max_links [] (as @ [a]) = None" by blast
    then show ?thesis by (intro exI [of _ as] exI [of _ a] exI [of _ "bs @ [c]"] exI [of _ l]) simp
  next
    case (Some l)
    have "qs \<noteq> []" using e by (cases qs) (auto simp: existing_ancestor_root)
    then obtain ps p where "qs = ps @ [p]" by (cases qs rule: rev_cases) auto
    with e Some cl have "r = of_parts True l" by (simp add: existing_ancestor_snoc)
    with Some snoc.prems(3) show ?thesis
      by (intro exI [of _ qs] exI [of _ c] exI [of _ "[]"] exI [of _ l]) simp
  qed
qed


section \<open>Writes\<close>

lemma mkdir_all_dirs: "mkdir_all fs up = (fs1, ok) \<Longrightarrow> fs1 loc \<noteq> fs loc \<Longrightarrow> fs1 loc = Some Dir"
  by (induction fs up arbitrary: fs1 ok rule: mkdir_all.induct)
    (auto split: option.splits prod.splits bool.splits if_split_asm)

definition tree :: "fs \<Rightarrow> bool" where
  "tree fs \<longleftrightarrow> (\<forall>pos c. fs (pos @ [c]) \<noteq> None \<longrightarrow> lookup fs pos = Some Dir)"

lemma tree_missing: "tree fs \<Longrightarrow> fs (k @ [q]) = None \<Longrightarrow> fs (k @ q # us) = None"
proof (induction us rule: rev_induct)
  case (snoc u us)
  then have "lookup fs (k @ q # us) \<noteq> Some Dir" by (simp add: lookup_def)
  with snoc.prems(1) show ?case unfolding tree_def by (metis append.assoc append_Cons)
qed simp

lemma abs_path_parts: "rooted cwd \<Longrightarrow> \<exists>ps. clean_list True ps \<and> abs_path cwd p = of_parts True ps"
proof -
  assume "rooted cwd"
  then have r: "rooted (cwd @ slash # p)" "cwd \<noteq> []" by (auto simp: rooted_def)
  show ?thesis
  proof (cases "rooted p")
    case True
    with clean_list_parts [of p] show ?thesis by (auto simp: abs_path_def clean_def)
  next
    case False
    with r clean_list_parts [of "cwd @ slash # p"] show ?thesis by (auto simp: abs_path_def path_join_def clean_def)
  qed
qed

text \<open>The parent of the target resolves below the home directory, or its deepest ancestor that resolves does.\<close>

definition parent_ok :: "fs \<Rightarrow> string list \<Rightarrow> string list \<Rightarrow> bool" where
  "parent_ok fs hs qs \<longleftrightarrow>
     (\<exists>zs. walk fs max_links [] qs = Some (hs @ zs)) \<or>
     walk fs max_links [] qs = None \<and>
     (\<exists>as a bs zs. qs = as @ a # bs \<and> walk fs max_links [] as = Some (hs @ zs) \<and> walk fs max_links [] (as @ [a]) = None)"

lemma under_walk:
  assumes "walk fs max_links [] qs = Some l" "under (of_parts True l) h" "parts h \<noteq> []" "clean_list True qs"
  shows "\<exists>zs. l = parts h @ zs"
proof -
  have "eval_symlinks fs (of_parts True qs) = Some (of_parts True l)" using assms(1,4) by (simp add: eval_of_parts)
  then obtain loc where "of_parts True l = of_parts True loc" "real fs loc" "parts (of_parts True l) = loc"
      "walk fs max_links [] (split_on slash (of_parts True qs)) = Some loc"
    by (rule eval_symlinks_Some)
  with assms show ?thesis by (simp add: under_components walk_of_parts)
qed

lemma safe_path_for_write_parent:
  assumes "safe_path_for_write fs (Some h) cwd p = Some target" "parts h \<noteq> []" "rooted cwd"
  obtains qs c where "target = of_parts True (qs @ [c])" "target = abs_path cwd (expand_home (Some h) p)"
    "clean_list True (qs @ [c])" "parent_ok fs (parts h) qs"
proof -
  let ?t = "abs_path cwd (expand_home (Some h) p)"
  from abs_path_parts [OF assms(3)] obtain ps where ps: "clean_list True ps" "?t = of_parts True ps" by blast
  from assms(1) obtain r where t: "target = ?t" and u: "under r h"
    and r: "(case eval_symlinks fs (path_dir ?t) of Some r \<Rightarrow> Some r
      | None \<Rightarrow> Option.bind (existing_ancestor fs (path_dir ?t)) (\<lambda>r. r)) = Some r"
    by (auto simp: safe_path_for_write_def Let_def split: if_split_asm option.splits)
  have "ps \<noteq> []"
  proof
    assume "ps = []"
    moreover have "path_dir (of_parts True []) = of_parts True []" by code_simp
    ultimately have "r = of_parts True []"
      using r ps(2) clean_list_Nil by (simp add: eval_of_parts)
    then show False using under_walk [of fs "[]" "[]" h] u assms(2) clean_list_Nil by simp
  qed
  then obtain qs c where qc: "ps = qs @ [c]" by (cases ps rule: rev_cases) auto
  with ps path_dir_snoc have d: "path_dir ?t = of_parts True qs" and cl: "clean_list True qs" by auto
  have "parent_ok fs (parts h) qs"
  proof (cases "walk fs max_links [] qs")
    case None
    then have "existing_ancestor fs (of_parts True qs) = Some (Some r)"
      using r d cl by (simp add: eval_of_parts bind_eq_Some_conv)
    from existing_ancestor_deepest [OF this cl None] obtain as a bs l where l: "qs = as @ a # bs"
        "walk fs max_links [] as = Some l" "r = of_parts True l" "walk fs max_links [] (as @ [a]) = None" by blast
    have "clean_list True as" using cl l(1) by (auto simp: clean_list_def)
    with under_walk [OF l(2) _ assms(2)] u l(3) obtain zs where "l = parts h @ zs" by auto
    with l None show ?thesis unfolding parent_ok_def by blast
  next
    case (Some l)
    then have "r = of_parts True l" using r d cl by (simp add: eval_of_parts)
    with under_walk [OF Some _ assms(2) cl] u Some show ?thesis unfolding parent_ok_def by auto
  qed
  with that ps qc t show thesis by simp
qed

lemma mkdir_all_below:
  assumes "mkdir_all fs (rev qs) = (fs1, ok)" "parent_ok fs hs qs" "\<forall>q\<in>set qs. plain q"
  shows "fs1 = fs \<or> (\<exists>zs. (\<forall>loc. fs1 loc \<noteq> fs loc \<longrightarrow> prefix (hs @ zs) loc) \<and> fs (hs @ zs) = None \<and> zs \<noteq> [] \<and>
    (ok \<longrightarrow> (\<exists>us. walk fs1 kernel_links [] qs = Some (hs @ zs @ us))))"
proof (rule disjCI)
  assume "\<not> (\<exists>zs. (\<forall>loc. fs1 loc \<noteq> fs loc \<longrightarrow> prefix (hs @ zs) loc) \<and> fs (hs @ zs) = None \<and> zs \<noteq> [] \<and>
    (ok \<longrightarrow> (\<exists>us. walk fs1 kernel_links [] qs = Some (hs @ zs @ us))))" (is "\<not> ?below")
  moreover have ?below if "grows fs qs fs1 ok"
  proof -
    from that obtain qs1 q qs2 l where g: "qs = qs1 @ q # qs2" "walk fs kernel_links [] qs1 = Some l" "fs (l @ [q]) = None"
        "\<forall>loc. fs1 loc \<noteq> fs loc \<longrightarrow> prefix (l @ [q]) loc" "ok \<longrightarrow> walk fs1 kernel_links [] qs = Some (l @ q # qs2)"
      unfolding grows_def by blast
    have q: "plain q" using g(1) assms(3) by simp
    have "walk fs max_links [] qs = None" using walk_missing [OF g(2,3) q] g(1) by simp
    with assms(2) obtain as a bs zs where e: "qs = as @ a # bs" "walk fs max_links [] as = Some (hs @ zs)"
        "walk fs max_links [] (as @ [a]) = None" unfolding parent_ok_def by auto
    have "hs @ zs = l"
      using first_missing [of qs1 q qs2 as a bs fs kernel_links l max_links "hs @ zs"] g e q
      by (simp add: kernel_links_def max_links_def)
    with g show ?thesis by (intro exI [of _ "zs @ [q]"]) auto
  qed
  ultimately show "fs1 = fs" using mkdir_all_effect [OF assms(1,3)] by blast
qed


lemma write_lands_below:
  assumes "locate fs1 kernel_links [] (qs @ [c]) = Some loc" "plain c" "tree fs" "parent_ok fs hs qs"
    and "\<forall>l t. walk fs max_links [] qs = Some l \<longrightarrow> fs (l @ [c]) \<noteq> Some (Link t)"
    and "\<forall>loc. fs1 loc \<noteq> fs loc \<longrightarrow> fs1 loc = Some Dir"
    and "fs1 = fs \<or> (\<exists>zs us. fs (hs @ zs) = None \<and> zs \<noteq> [] \<and> walk fs1 kernel_links [] qs = Some (hs @ zs @ us))"
  shows "\<exists>zs. loc = hs @ zs"
proof -
  from locate_snoc [OF assms(1) _ assms(2), of max_links]
  obtain l n where l: "walk fs1 max_links [] qs = Some l" "locate fs1 n l [c] = Some loc"
    by (auto simp: kernel_links_def max_links_def)
  have "(\<exists>zs. l = hs @ zs) \<and> (\<forall>t. fs1 (l @ [c]) \<noteq> Some (Link t))"
  proof (cases "fs1 = fs")
    case True
    with l(1) assms(4,5) show ?thesis unfolding parent_ok_def by auto
  next
    case False
    with assms(7) obtain zs us where z: "fs (hs @ zs) = None" "zs \<noteq> []" "walk fs1 kernel_links [] qs = Some (hs @ zs @ us)"
      by blast
    with l(1) have l': "l = hs @ zs @ us" by (blast dest: walk_unique)
    obtain ys y where y: "zs = ys @ [y]" using z(2) by (cases zs rule: rev_cases) auto
    have "fs (l @ [c]) = None" using tree_missing [OF assms(3), of "hs @ ys" y "us @ [c]"] z(1) y l' by simp
    with assms(6) [rule_format, of "l @ [c]"] have "fs1 (l @ [c]) \<noteq> Some (Link t)" for t
      by (cases "fs1 (l @ [c]) = fs (l @ [c])") simp_all
    with l' show ?thesis by auto
  qed
  moreover from this assms(2) l(2) have "loc = l @ [c]" by (auto simp: plain_def split: option.splits fs_entry.splits)
  ultimately show ?thesis by auto
qed

text \<open>C27: Writes stay in the home directory. Whatever the write tool changes, the directories it makes and the file it
  writes, lies below the home directory, as long as the last component of the target is not a link there; a write
  that succeeds puts exactly the given content in one place below it. (The home directory is absolute and not the
  root, the working directory is absolute, and whatever exists lies in a directory.)\<close>

theorem write_stays_in_home:
  assumes "write_text fs (Some h) cwd path content mk = (fs', res)" "parts h \<noteq> []" "rooted cwd" "tree fs"
    and "ts = parts (abs_path cwd (expand_home (Some h) path))"
    and "\<forall>l t. walk fs max_links [] (butlast ts) = Some l \<longrightarrow> fs (l @ [List.last ts]) \<noteq> Some (Link t)"
  shows "(\<forall>loc. fs' loc \<noteq> fs loc \<longrightarrow> (\<exists>zs. loc = parts h @ zs)) \<and>
    (\<forall>n. res = Inr n \<longrightarrow> n = length content \<and> (\<exists>zs. fs' (parts h @ zs) = Some (File content)))"
proof (cases "safe_path_for_write fs (Some h) cwd path")
  case None
  with assms(1) show ?thesis by (auto simp: write_text_def)
next
  case (Some target)
  from safe_path_for_write_parent [OF Some assms(2,3)] obtain qs c where t: "target = of_parts True (qs @ [c])"
      "target = abs_path cwd (expand_home (Some h) path)" "clean_list True (qs @ [c])" "parent_ok fs (parts h) qs" .
  from t assms(5) parts_of_parts have ts: "ts = qs @ [c]" by metis
  from path_dir_snoc [OF t(3)] t(1) have d: "path_dir target = of_parts True qs" and cl: "clean_list True qs" and c: "plain c" by auto
  have plain: "\<forall>q\<in>set qs. plain q" using cl by (auto simp: clean_list_def)
  obtain fs1 ok where m: "(if mk then mkdir_all fs (rev qs) else (fs, True)) = (fs1, ok)" by fastforce
  have below: "fs1 = fs \<or> (\<exists>zs. (\<forall>loc. fs1 loc \<noteq> fs loc \<longrightarrow> prefix (parts h @ zs) loc) \<and> fs (parts h @ zs) = None \<and> zs \<noteq> [] \<and>
    (ok \<longrightarrow> (\<exists>us. walk fs1 kernel_links [] qs = Some (parts h @ zs @ us))))"
    using m mkdir_all_below [OF _ t(4) plain] by (cases mk) auto
  then have made: "\<forall>loc. fs1 loc \<noteq> fs loc \<longrightarrow> (\<exists>zs. loc = parts h @ zs)" by (auto simp: prefix_def)
  have m': "(if mk then mkdir_all fs (rev (parts (path_dir target))) else (fs, True)) = (fs1, ok)"
    using m parts_of_parts [OF cl] d by (cases mk) simp_all
  have k: "locate fs1 kernel_links [] (split_on slash target) = locate fs1 kernel_links [] (qs @ [c])"
    by (simp only: t(1) walk_of_parts(2) [OF t(3)])
  from assms(1) have res:
    "(fs', res) = (if \<not> ok then (fs1, Inl MkdirFailed) else
       case locate fs1 kernel_links [] (qs @ [c]) of
         None \<Rightarrow> (fs1, Inl WriteRefused)
       | Some loc \<Rightarrow> if lookup fs1 loc = Some Dir then (fs1, Inl WriteRefused)
           else (fs1(loc \<mapsto> File content), Inr (length content)))"
    unfolding write_text_def Some option.case m' by (cases ok) (simp_all add: k)
  have dirs: "\<forall>loc. fs1 loc \<noteq> fs loc \<longrightarrow> fs1 loc = Some Dir"
    using m mkdir_all_dirs [of fs "rev qs" fs1 ok] by (auto split: if_splits)
  have land: "\<exists>zs. loc = parts h @ zs" if ok "locate fs1 kernel_links [] (qs @ [c]) = Some loc" for loc
    by (rule write_lands_below [OF that(2) c assms(4) t(4) _ dirs]) (use assms(6) ts below that(1) in \<open>auto 0 3\<close>)
  show ?thesis
  proof (cases "ok \<and> (\<exists>loc. locate fs1 kernel_links [] (qs @ [c]) = Some loc \<and> lookup fs1 loc \<noteq> Some Dir)")
    case True
    then obtain loc where loc: ok "locate fs1 kernel_links [] (qs @ [c]) = Some loc" "lookup fs1 loc \<noteq> Some Dir" by blast
    with res have r: "fs' = fs1(loc \<mapsto> File content)" "res = Inr (length content)" by auto
    from land [OF loc(1,2)] obtain zs where "loc = parts h @ zs" ..
    with r made show ?thesis by auto
  next
    case False
    with res have "fs' = fs1 \<and> (\<exists>e. res = Inl e)" by (auto split: if_splits option.splits)
    with made show ?thesis by auto
  qed
qed


definition new_fs :: fs where
  "new_fs = Map.empty([''h''] \<mapsto> Dir)"

lemma tree_new_fs: "tree new_fs"
  by (auto simp: tree_def new_fs_def lookup_def split: if_splits)

lemma sample_write: "write_text new_fs (Some ''/h'') ''/'' ''~/d/f'' ''x'' True =
  (new_fs([''h'', ''d''] \<mapsto> Dir, [''h'', ''d'', ''f''] \<mapsto> File ''x''), Inr 1)"
proof -
  have p: "safe_path_for_write new_fs (Some ''/h'') ''/'' ''~/d/f'' = Some ''/h/d/f''" by code_simp
  have d: "rev (parts (path_dir ''/h/d/f'')) = [''d'', ''h'']" by code_simp
  have m: "mkdir_all new_fs [''d'', ''h''] = (new_fs([''h'', ''d''] \<mapsto> Dir), True)"
    by (simp add: new_fs_def lookup_def)
  have s: "split_on slash ''/h/d/f'' = [[], ''h'', ''d'', ''f'']" by code_simp
  have l: "locate (new_fs([''h'', ''d''] \<mapsto> Dir)) kernel_links [] [[], ''h'', ''d'', ''f''] = Some [''h'', ''d'', ''f'']"
    by (simp add: new_fs_def)
  show ?thesis unfolding write_text_def p option.case d m s by (simp add: m l lookup_def new_fs_def)
qed

theorem write_stays_in_home_witness:
  "\<exists>zs. (new_fs([''h'', ''d''] \<mapsto> Dir, [''h'', ''d'', ''f''] \<mapsto> File ''x'')) ([''h''] @ zs) = Some (File ''x'')"
proof -
  have h: "parts ''/h'' = [''h'']" by code_simp
  have t: "parts (abs_path ''/'' (expand_home (Some ''/h'') ''~/d/f'')) = [''h'', ''d'', ''f'']" by code_simp
  have w: "walk new_fs max_links [] [''h'', ''d''] = None" by (simp add: new_fs_def)
  show ?thesis
    using write_stays_in_home [OF sample_write _ _ tree_new_fs t [symmetric]] w unfolding h by (simp add: rooted_def)
qed

text \<open>The jail does not look at the last component: when it is a link in a directory of the home, the write follows
  the link and replaces the file the link names, wherever that is, and reports success.\<close>

theorem write_escapes_through_link:
  assumes "fs (hs @ [c]) = Some (Link t)" "rooted t" "locate fs (kernel_links - 1) [] (split_on slash t) = Some loc"
    and "lookup fs loc \<noteq> Some Dir" "real_dir fs hs" "plain c" "home = of_parts True hs" "hs \<noteq> []"
  shows "write_text fs (Some home) cwd (of_parts True (hs @ [c])) content False = (fs(loc \<mapsto> File content), Inr (length content))"
proof -
  let ?t = "of_parts True (hs @ [c])"
  have cl: "clean_list True (hs @ [c])" using real_clean_list real_snoc assms(5,6) by blast
  from path_dir_snoc [OF cl] have d: "path_dir ?t = of_parts True hs" "clean_list True hs" by auto
  have target: "abs_path cwd (expand_home (Some home) ?t) = ?t" (is "?l = _")
  proof -
    have r: "rooted ?t" using rooted_of_parts [OF cl] by simp
    then have "expand_home (Some home) ?t = ?t" by (cases ?t) (auto simp: expand_home_def rooted_def)
    with r show ?thesis using parts_of_parts [OF cl] by (simp add: abs_path_def clean_def)
  qed
  have w: "walk fs n [] hs = Some hs" for n
    using walk_real_id [of fs "[]" hs n] assms(5) by (auto simp: real_dir_def)
  have "under (of_parts True hs) home" by (simp add: under_def assms(7))
  then have "safe_path_for_write fs (Some home) cwd ?t = Some ?t"
    using of_parts_not_Nil [OF cl] by (simp add: safe_path_for_write_def target d eval_of_parts w)
  moreover have "locate fs kernel_links [] (hs @ [c]) = Some loc"
  proof -
    have "locate fs n pos (qs @ [c]) = locate fs n (pos @ qs) [c]" if "real_dir fs (pos @ qs)" for n pos qs
      using that
    proof (induction qs arbitrary: pos)
      case (Cons q qs)
      have "fs (pos @ [q]) = Some Dir" "plain q"
        using Cons.prems by (cases "qs = []"; auto simp: real_dir_def real_def lookup_def dest: spec [of _ "Suc (length pos)"])+
      with Cons.IH [of "pos @ [q]"] Cons.prems show ?case by (simp add: plain_def)
    qed simp
    from this [of "[]" hs] assms show ?thesis by (simp add: plain_def kernel_links_def)
  qed
  ultimately show ?thesis
    using assms(4) by (simp add: write_text_def walk_of_parts(2) [OF cl])
qed

theorem write_escapes_through_link_witness:
  "write_text home_fs (Some ''/home/u'') ''/'' ''/home/u/out'' ''x'' False = (home_fs([''etc'', ''new''] \<mapsto> File ''x''), Inr 1)"
proof -
  have l: "locate home_fs (kernel_links - 1) [] (split_on slash ''/etc/new'') = Some [''etc'', ''new'']" by code_simp
  have d: "real_dir home_fs [''home'', ''u'']"
    by (auto simp: real_dir_def real_def plain_def home_fs_def lookup_def take_Cons' free_of_def)
  have "of_parts True [''home'', ''u''] = ''/home/u''" "of_parts True ([''home'', ''u''] @ [''out'']) = ''/home/u/out''" by code_simp+
  with write_escapes_through_link [of home_fs "[''home'', ''u'']" "''out''", OF _ _ l _ d] show ?thesis
    by (simp add: home_fs_def rooted_def lookup_def plain_def free_of_def)
qed

text \<open>An empty file cannot be read: the tool reports the end of the file as a failure.\<close>

theorem empty_file_unreadable:
  "safe_path fs home cwd path = Some r \<Longrightarrow> walk fs kernel_links [] (split_on slash r) = Some loc \<Longrightarrow>
     lookup fs loc = Some (File []) \<Longrightarrow> read_text fs home cwd path max_bytes = Inl EndOfFile"
  by (simp add: read_text_def)

theorem empty_file_unreadable_witness: "read_text home_fs (Some ''/home/u'') ''/'' ''~/empty'' 0 = Inl EndOfFile"
proof -
  have "safe_path home_fs (Some ''/home/u'') ''/'' ''~/empty'' = Some ''/home/u/empty''"
    "walk home_fs kernel_links [] (split_on slash ''/home/u/empty'') = Some [''home'', ''u'', ''empty'']" by code_simp+
  then show ?thesis by (rule empty_file_unreadable) (simp add: home_fs_def lookup_def)
qed

end
