(* ===== verification/ToolExec.thy ===== *)
theory ToolExec
  imports Transport Paths
begin

text \<open>
  Tool execution on behalf of another member (\<open>cland/internal/toolexec\<close>): the signed execution token
  (\<open>token.go\<close>), the replay cache (\<open>replay.go\<close>), the rate limit per origin (\<open>ratelimit.go\<close>),
  the resolution of a tool name to a server binary and the call of the tool (\<open>executor.go\<close>, on Unix), and
  the endpoint that puts them in order (\<open>handlers.go\<close>). SHA-256, HMAC, the JSON decoding of the
  arguments and the MCP session with the spawned server are parameters.
\<close>

section \<open>Tokens\<close>

record token =
  tk_request_id :: string
  tk_origin_member :: string
  tk_target_member :: string
  tk_tool :: string
  tk_args_hash :: string
  tk_approved_at :: int
  tk_exp :: int
  tk_sig :: string

datatype token_error =
    ErrSigMismatch | ErrArgsHashMismatch | ErrWrongTarget | ErrExpired | ErrApprovedInFuture | ErrReplay
  | ErrMalformedToken

definition clock_skew_tolerance :: duration where "clock_skew_tolerance = 60 * second"
definition default_max_token_lifetime :: duration where "default_max_token_lifetime = 10 * minute"

definition token_fields :: "token \<Rightarrow> string list" where
  "token_fields t =
     [tk_request_id t, tk_origin_member t, tk_target_member t, tk_tool t, tk_args_hash t,
      dec_int (tk_approved_at t), dec_int (tk_exp t)]"

definition token_canonical :: "token \<Rightarrow> string" where
  "token_canonical t = join LF (token_fields t)"

definition sign :: "(bytes \<Rightarrow> bytes \<Rightarrow> bytes) \<Rightarrow> bytes \<Rightarrow> token \<Rightarrow> token" where
  "sign hmac key t = t\<lparr>tk_sig := hex_encode (hmac key (token_canonical t))\<rparr>"

fun match_key :: "(bytes \<Rightarrow> bytes \<Rightarrow> bytes) \<Rightarrow> string \<Rightarrow> bytes \<Rightarrow> bytes list \<Rightarrow> bool" where
  "match_key hmac can provided [] = False"
| "match_key hmac can provided (k # ks) =
     (if length k = 0 then match_key hmac can provided ks
      else if hmac k can = provided then True else match_key hmac can provided ks)"

definition verify_hmac :: "(bytes \<Rightarrow> bytes \<Rightarrow> bytes) \<Rightarrow> token \<Rightarrow> bytes list \<Rightarrow> token_error option" where
  "verify_hmac hmac t ks =
     (if tk_sig t = [] then Some ErrSigMismatch
      else case hex_decode (to_lower (tk_sig t)) of
        None \<Rightarrow> Some ErrMalformedToken
      | Some provided \<Rightarrow>
          if match_key hmac (token_canonical t) provided ks then None else Some ErrSigMismatch)"

definition unix_milli :: "int \<Rightarrow> time" where
  "unix_milli ms = ms * 1000000"

definition verify_claims :: "token \<Rightarrow> member_id \<Rightarrow> time \<Rightarrow> duration \<Rightarrow> token_error option" where
  "verify_claims t self_id now max_lifetime =
     (if tk_target_member t \<noteq> self_id then Some ErrWrongTarget
      else if \<not> now < unix_milli (tk_exp t) then Some ErrExpired
      else if time_sub (unix_milli (tk_approved_at t)) now > clock_skew_tolerance then Some ErrApprovedInFuture
      else if max_lifetime > 0 \<and> time_sub (unix_milli (tk_exp t)) (unix_milli (tk_approved_at t)) > max_lifetime
      then Some ErrMalformedToken else None)"

definition hash_args :: "(bytes \<Rightarrow> bytes) \<Rightarrow> bytes \<Rightarrow> string" where
  "hash_args sha raw = hex_encode (sha raw)"

section \<open>The rate limiter\<close>

text \<open>A missing bucket and one without stamps behave alike; both are the empty list.\<close>

record rate_limiter =
  lim_stamps :: "string \<Rightarrow> time list"
  lim_max_burst :: nat
  lim_window :: duration

definition new_rate_limiter :: "int \<Rightarrow> duration \<Rightarrow> rate_limiter" where
  "new_rate_limiter max_burst window =
     \<lparr>lim_stamps = (\<lambda>_. []), lim_max_burst = nat (if max_burst \<le> 0 then 10 else max_burst),
      lim_window = (if window \<le> 0 then 60 * second else window)\<rparr>"

definition allow_origin :: "time \<Rightarrow> rate_limiter \<Rightarrow> string \<Rightarrow> rate_limiter \<times> bool" where
  "allow_origin now l origin =
     (if origin = [] then (l, True)
      else let kept = prune (lim_window l) now (lim_stamps l origin)
           in if length kept \<ge> lim_max_burst l
              then (l\<lparr>lim_stamps := (lim_stamps l)(origin := kept)\<rparr>, False)
              else (l\<lparr>lim_stamps := (lim_stamps l)(origin := kept @ [now])\<rparr>, True))"

definition count_in_window :: "time \<Rightarrow> rate_limiter \<Rightarrow> string \<Rightarrow> nat" where
  "count_in_window now l origin = in_window (lim_window l) now (lim_stamps l origin)"

section \<open>The replay cache\<close>

record replay_cache =
  rc_entries :: "(string \<times> time) list"
  rc_max_size :: nat
  rc_ttl :: duration
  rc_overflow :: nat

definition new_replay_cache :: "int \<Rightarrow> duration \<Rightarrow> replay_cache" where
  "new_replay_cache max_size ttl =
     \<lparr>rc_entries = [], rc_max_size = nat (if max_size \<le> 0 then 100000 else max_size),
      rc_ttl = (if ttl \<le> 0 then 15 * minute else ttl), rc_overflow = 0\<rparr>"

definition check_request_id :: "replay_cache \<Rightarrow> string \<Rightarrow> time \<Rightarrow> replay_cache \<times> bool" where
  "check_request_id c rid now =
     (if (case map_of (rc_entries c) rid of Some x \<Rightarrow> now < x | None \<Rightarrow> False) then (c, False)
      else let live = (if length (rc_entries c) \<ge> rc_max_size c
                       then filter (\<lambda>(_, x). now < x) (rc_entries c) else rc_entries c)
           in if length live \<ge> rc_max_size c
              then (c\<lparr>rc_entries := live, rc_overflow := rc_overflow c + 1\<rparr>, False)
              else (c\<lparr>rc_entries := AList.update rid (now + rc_ttl c) live\<rparr>, True))"

definition overflow_count :: "replay_cache \<Rightarrow> nat" where
  "overflow_count c = rc_overflow c"

section \<open>The executor\<close>

datatype exec_error = UnknownNamespace | EmptyBinariesDir | SpawnFailed | ListToolsFailed | ToolNotFound | CallFailed

definition resolve_server_binary :: "string \<Rightarrow> string \<Rightarrow> exec_error + string \<times> string" where
  "resolve_server_binary dir namespace =
     (if namespace = [] then Inl UnknownNamespace
      else let server = ''minti-'' @ namespace
           in if dir = [] then Inl EmptyBinariesDir else Inr (server, path_join dir server))"

definition resolve_binary :: "string \<Rightarrow> string \<Rightarrow> exec_error + string \<times> string \<times> string" where
  "resolve_binary dir wire_tool =
     (if CHR ''.'' \<notin> set wire_tool then Inl UnknownNamespace
      else let namespace = takeWhile (\<lambda>c. c \<noteq> CHR ''.'') wire_tool;
               tool = tl (dropWhile (\<lambda>c. c \<noteq> CHR ''.'') wire_tool)
           in if namespace = [] \<or> tool = [] then Inl UnknownNamespace
              else case resolve_server_binary dir namespace of
                     Inl e \<Rightarrow> Inl e
                   | Inr (server, path) \<Rightarrow> Inr (server, tool, path))"

text \<open>
  The MCP session with the spawned server: connecting to the binary, listing its tools, and calling one. A result block is text or something else kept as JSON bytes.
\<close>

datatype mcp_content = McpText string | McpOther bytes

record call_result =
  ca_is_error :: bool
  ca_content :: "mcp_content list"
  ca_meta :: json_object

record tool_schema =
  ts_name :: string
  ts_description :: string
  ts_schema :: bytes

record 'w mcp =
  mcp_connect :: "'w \<Rightarrow> string \<Rightarrow> 'w \<times> bool"
  mcp_list :: "'w \<Rightarrow> string \<Rightarrow> 'w \<times> tool_schema list option"
  mcp_call :: "'w \<Rightarrow> string \<Rightarrow> string \<Rightarrow> json_object option \<Rightarrow> 'w \<times> call_result option"

record result_content =
  rco_type :: string
  rco_text :: string
  rco_json :: bytes

record exec_result =
  xr_is_error :: bool
  xr_content :: "result_content list"
  xr_meta :: json_object

fun convert_content :: "mcp_content \<Rightarrow> result_content" where
  "convert_content (McpText s) = \<lparr>rco_type = ''text'', rco_text = s, rco_json = []\<rparr>"
| "convert_content (McpOther b) = \<lparr>rco_type = ''other'', rco_text = [], rco_json = b\<rparr>"

definition execute ::
  "'w mcp \<Rightarrow> string \<Rightarrow> 'w \<Rightarrow> string \<Rightarrow> json_object option \<Rightarrow> 'w \<times> (exec_error + exec_result) \<times> string \<times> string" where
  "execute m dir w wire_tool args =
     (case resolve_binary dir wire_tool of
        Inl e \<Rightarrow> (w, Inl e, [], [])
      | Inr (server, tool, path) \<Rightarrow>
          (case mcp_connect m w path of
             (w1, False) \<Rightarrow> (w1, Inl SpawnFailed, server, tool)
           | (w1, True) \<Rightarrow>
               (case mcp_list m w1 path of
                  (w2, None) \<Rightarrow> (w2, Inl ListToolsFailed, server, tool)
                | (w2, Some tools) \<Rightarrow>
                    if tool \<notin> set (map ts_name tools) then (w2, Inl ToolNotFound, server, tool)
                    else (case mcp_call m w2 path tool args of
                            (w3, None) \<Rightarrow> (w3, Inl CallFailed, server, tool)
                          | (w3, Some r) \<Rightarrow>
                              (w3, Inr \<lparr>xr_is_error = ca_is_error r, xr_content = map convert_content (ca_content r),
                                        xr_meta = ca_meta r\<rparr>, server, tool)))))"

definition list_tools :: "'w mcp \<Rightarrow> string \<Rightarrow> 'w \<Rightarrow> string \<Rightarrow> 'w \<times> (exec_error + tool_schema list)" where
  "list_tools m dir w namespace =
     (case resolve_server_binary dir namespace of
        Inl e \<Rightarrow> (w, Inl e)
      | Inr (server, path) \<Rightarrow>
          (case mcp_connect m w path of
             (w1, False) \<Rightarrow> (w1, Inl SpawnFailed)
           | (w1, True) \<Rightarrow>
               (case mcp_list m w1 path of
                  (w2, None) \<Rightarrow> (w2, Inl ListToolsFailed)
                | (w2, Some tools) \<Rightarrow> (w2, Inr tools))))"

section \<open>The endpoint\<close>

record execute_request =
  ex_token :: token
  ex_args :: bytes

record tool_handler =
  th_self_id :: member_id
  th_keys :: key_provider
  th_replay :: replay_cache
  th_limiter :: "rate_limiter option"
  th_audit :: "audit_event list"
  th_max_lifetime :: duration

definition new_handler ::
  "member_id \<Rightarrow> key_provider \<Rightarrow> replay_cache option \<Rightarrow> rate_limiter option \<Rightarrow> duration \<Rightarrow> tool_handler option" where
  "new_handler self_id ks replay limiter max_lifetime =
     (if self_id = [] then None
      else Some \<lparr>th_self_id = self_id, th_keys = ks,
        th_replay = (case replay of None \<Rightarrow> new_replay_cache 0 0 | Some c \<Rightarrow> c), th_limiter = limiter, th_audit = [],
        th_max_lifetime = (if max_lifetime \<le> 0 then default_max_token_lifetime else max_lifetime)\<rparr>)"

text \<open>The clock as the handler reads it: for the grace key, for the claims and the replay cache, for the limiter.\<close>

record tool_env =
  tv_grace_now :: time
  tv_now :: time
  tv_limit_now :: time

definition deny :: "tool_handler \<Rightarrow> string \<Rightarrow> tool_handler" where
  "deny h reason = h\<lparr>th_audit := th_audit h @ [Audit ''toolexec.execute'' ''deny'' reason]\<rparr>"

text \<open>Steps 1 to 4b of the handler: the status and reason of a refusal, or \<open>None\<close>.\<close>

definition admit ::
  "(bytes \<Rightarrow> bytes) \<Rightarrow> (bytes \<Rightarrow> bytes \<Rightarrow> bytes) \<Rightarrow> tool_env \<Rightarrow> tool_handler \<Rightarrow> execute_request
     \<Rightarrow> tool_handler \<times> (http_status \<times> string) option" where
  "admit sha hmac v h req =
     (let t = ex_token req
      in if hash_args sha (ex_args req) \<noteq> tk_args_hash t then (h, Some (401, ''args_hash_mismatch''))
         else
           let grace_key = (case grace (tv_grace_now v) (th_keys h) of None \<Rightarrow> [] | Some g \<Rightarrow> g)
           in if verify_hmac hmac t [kp_current (th_keys h), grace_key] \<noteq> None then (h, Some (401, ''hmac_mismatch''))
              else case verify_claims t (th_self_id h) (tv_now v) (th_max_lifetime h) of
                Some ErrWrongTarget \<Rightarrow> (h, Some (403, ''wrong_target''))
              | Some ErrExpired \<Rightarrow> (h, Some (401, ''expired''))
              | Some ErrApprovedInFuture \<Rightarrow> (h, Some (401, ''approved_in_future''))
              | Some _ \<Rightarrow> (h, Some (401, ''malformed_token''))
              | None \<Rightarrow>
                  (case check_request_id (th_replay h) (tk_request_id t) (tv_now v) of
                     (c, False) \<Rightarrow> (h\<lparr>th_replay := c\<rparr>, Some (401, ''replay''))
                   | (c, True) \<Rightarrow>
                       (case th_limiter h of
                          None \<Rightarrow> (h\<lparr>th_replay := c\<rparr>, None)
                        | Some l \<Rightarrow>
                            (case allow_origin (tv_limit_now v) l (tk_origin_member t) of
                               (l', ok) \<Rightarrow>
                                 (h\<lparr>th_replay := c, th_limiter := Some l'\<rparr>,
                                  if ok then None else Some (429, ''rate_limited''))))))"

text \<open>
  The whole handler. A body that does not decode is \<open>None\<close>; \<open>parse_args\<close> decodes the raw arguments
  into a JSON object (\<open>Some None\<close> for JSON null), \<open>None\<close> when they are not one.
\<close>

definition handle_execute ::
  "(bytes \<Rightarrow> bytes) \<Rightarrow> (bytes \<Rightarrow> bytes \<Rightarrow> bytes) \<Rightarrow> (bytes \<Rightarrow> json_object option option) \<Rightarrow> 'w mcp \<Rightarrow> string
     \<Rightarrow> tool_env \<Rightarrow> tool_handler \<times> 'w \<Rightarrow> execute_request option
     \<Rightarrow> (tool_handler \<times> 'w) \<times> http_status \<times> (string \<times> string \<times> exec_result) option" where
  "handle_execute sha hmac parse_args m dir v hw req =
     (case hw of (h, w) \<Rightarrow>
        case req of
          None \<Rightarrow> ((deny h ''decode'', w), 400, None)
        | Some rq \<Rightarrow>
            (case admit sha hmac v h rq of
               (h1, Some (st, reason)) \<Rightarrow> ((deny h1 reason, w), st, None)
             | (h1, None) \<Rightarrow>
                 (case (if length (ex_args rq) > 0 then parse_args (ex_args rq) else Some None) of
                    None \<Rightarrow> ((deny h1 ''args_not_object'', w), 400, None)
                  | Some args \<Rightarrow>
                      (case execute m dir w (tk_tool (ex_token rq)) args of
                         (w1, Inl e, server, tool) \<Rightarrow>
                           ((h1\<lparr>th_audit := th_audit h1 @ [Audit tool ''deny'' ''execute_failed'']\<rparr>, w1), 502, None)
                       | (w1, Inr res, server, tool) \<Rightarrow>
                           ((h1\<lparr>th_audit := th_audit h1 @ [Audit tool ''allow'' ''ok'']\<rparr>, w1), 200,
                            Some (server, tool, res))))))"

section \<open>What admission establishes\<close>

lemma match_key_iff: "match_key hmac can provided ks \<longleftrightarrow> (\<exists>k\<in>set ks. k \<noteq> [] \<and> hmac k can = provided)"
  by (induction ks) auto

lemma verify_hmac_iff:
  "verify_hmac hmac t ks = None \<longleftrightarrow>
     tk_sig t \<noteq> [] \<and> (\<exists>k\<in>set ks. k \<noteq> [] \<and> hex_decode (to_lower (tk_sig t)) = Some (hmac k (token_canonical t)))"
  by (auto simp: verify_hmac_def match_key_iff split: option.splits)

lemma verify_claims_iff:
  assumes "0 < max_lifetime" "max_lifetime < max_duration"
  shows "verify_claims t self_id now max_lifetime = None \<longleftrightarrow>
    tk_target_member t = self_id \<and> now < unix_milli (tk_exp t) \<and>
    unix_milli (tk_approved_at t) - now \<le> 60 * second \<and>
    unix_milli (tk_exp t) - unix_milli (tk_approved_at t) \<le> max_lifetime"
proof -
  have 1: "clock_skew_tolerance < time_sub (unix_milli (tk_approved_at t)) now \<longleftrightarrow> 60 * second < unix_milli (tk_approved_at t) - now"
    by (simp add: clock_skew_tolerance_def time_facts max_duration_def min_duration_def)
  have 2: "max_lifetime < time_sub (unix_milli (tk_exp t)) (unix_milli (tk_approved_at t)) \<longleftrightarrow>
      max_lifetime < unix_milli (tk_exp t) - unix_milli (tk_approved_at t)"
    using assms by (simp add: time_facts max_duration_def min_duration_def)
  show ?thesis using assms(1) unfolding verify_claims_def 1 2 by (auto simp: not_less)
qed

text \<open>The cases of admission: refused before the replay cache, refused by it, refused by the limiter, admitted.\<close>

definition token_ok :: "(bytes \<Rightarrow> bytes) \<Rightarrow> (bytes \<Rightarrow> bytes \<Rightarrow> bytes) \<Rightarrow> tool_env \<Rightarrow> tool_handler \<Rightarrow> execute_request \<Rightarrow> bool" where
  "token_ok sha hmac v h req \<longleftrightarrow>
     hash_args sha (ex_args req) = tk_args_hash (ex_token req) \<and>
     verify_hmac hmac (ex_token req) [kp_current (th_keys h), (case grace (tv_grace_now v) (th_keys h) of None \<Rightarrow> [] | Some g \<Rightarrow> g)] = None \<and>
     verify_claims (ex_token req) (th_self_id h) (tv_now v) (th_max_lifetime h) = None"

lemma admit_cases:
  obtains (invalid) e where "\<not> token_ok sha hmac v h req" "admit sha hmac v h req = (h, Some e)" "fst e \<noteq> 429"
  | (replayed) c where "token_ok sha hmac v h req"
      "check_request_id (th_replay h) (tk_request_id (ex_token req)) (tv_now v) = (c, False)"
      "admit sha hmac v h req = (h\<lparr>th_replay := c\<rparr>, Some (401, ''replay''))"
  | (unlimited) c where "token_ok sha hmac v h req"
      "check_request_id (th_replay h) (tk_request_id (ex_token req)) (tv_now v) = (c, True)"
      "th_limiter h = None" "admit sha hmac v h req = (h\<lparr>th_replay := c\<rparr>, None)"
  | (limited) c l l' ok where "token_ok sha hmac v h req"
      "check_request_id (th_replay h) (tk_request_id (ex_token req)) (tv_now v) = (c, True)"
      "th_limiter h = Some l" "allow_origin (tv_limit_now v) l (tk_origin_member (ex_token req)) = (l', ok)"
      "admit sha hmac v h req =
         (h\<lparr>th_replay := c, th_limiter := Some l'\<rparr>, if ok then None else Some (429, ''rate_limited''))"
proof (cases "token_ok sha hmac v h req")
  case False
  have "\<exists>e. admit sha hmac v h req = (h, Some e) \<and> fst e \<noteq> 429"
  proof (cases "hash_args sha (ex_args req) = tk_args_hash (ex_token req) \<and>
     verify_hmac hmac (ex_token req) [kp_current (th_keys h), (case grace (tv_grace_now v) (th_keys h) of None \<Rightarrow> [] | Some g \<Rightarrow> g)] = None")
    case True
    with False obtain err where err: "verify_claims (ex_token req) (th_self_id h) (tv_now v) (th_max_lifetime h) = Some err"
      by (auto simp: token_ok_def)
    with True show ?thesis by (cases err) (simp_all add: admit_def Let_def)
  next
    case bad: False
    then show ?thesis by (cases "hash_args sha (ex_args req) = tk_args_hash (ex_token req)") (auto simp: admit_def Let_def)
  qed
  with False invalid show thesis by blast
next
  case True
  obtain c fresh where c: "check_request_id (th_replay h) (tk_request_id (ex_token req)) (tv_now v) = (c, fresh)" by force
  show thesis
  proof (cases fresh)
    case False
    with True c show thesis by (intro replayed) (simp_all add: token_ok_def admit_def Let_def)
  next
    case fresh: True
    show thesis
    proof (cases "th_limiter h")
      case None
      with True c fresh show thesis by (intro unlimited) (simp_all add: token_ok_def admit_def Let_def)
    next
      case (Some l)
      obtain l' ok where "allow_origin (tv_limit_now v) l (tk_origin_member (ex_token req)) = (l', ok)" by force
      with True c fresh Some show thesis by (intro limited) (simp_all add: token_ok_def admit_def Let_def)
    qed
  qed
qed

section \<open>Runs\<close>

datatype tool_op = TExecute tool_env execute_request | TRotate time bytes duration | TDropGrace

definition tool_exec ::
  "(bytes \<Rightarrow> bytes) \<Rightarrow> (bytes \<Rightarrow> bytes \<Rightarrow> bytes) \<Rightarrow> (bytes \<Rightarrow> json_object option option) \<Rightarrow> 'w mcp \<Rightarrow> string
     \<Rightarrow> tool_handler \<times> 'w \<Rightarrow> tool_op \<Rightarrow> tool_handler \<times> 'w" where
  "tool_exec sha hmac pa m dir hw x =
     (case x of
        TExecute v rq \<Rightarrow> fst (handle_execute sha hmac pa m dir v hw (Some rq))
      | TRotate now key d \<Rightarrow>
          (case rotate_key now (th_keys (fst hw)) key d of
             None \<Rightarrow> hw | Some ks \<Rightarrow> ((fst hw)\<lparr>th_keys := ks\<rparr>, snd hw))
      | TDropGrace \<Rightarrow> ((fst hw)\<lparr>th_keys := drop_grace (th_keys (fst hw))\<rparr>, snd hw))"

text \<open>The admitted requests of a run, with the clock readings of their admission.\<close>

fun admitted ::
  "(bytes \<Rightarrow> bytes) \<Rightarrow> (bytes \<Rightarrow> bytes \<Rightarrow> bytes) \<Rightarrow> (bytes \<Rightarrow> json_object option option) \<Rightarrow> 'w mcp \<Rightarrow> string
     \<Rightarrow> tool_handler \<times> 'w \<Rightarrow> tool_op list \<Rightarrow> (tool_env \<times> token) list" where
  "admitted sha hmac pa m dir hw [] = []"
| "admitted sha hmac pa m dir hw (x # xs) =
     (case x of
        TExecute v rq \<Rightarrow> (if snd (admit sha hmac v (fst hw) rq) = None then [(v, ex_token rq)] else [])
      | _ \<Rightarrow> []) @ admitted sha hmac pa m dir (tool_exec sha hmac pa m dir hw x) xs"

fun execute_times :: "(tool_env \<Rightarrow> time) \<Rightarrow> tool_op list \<Rightarrow> time list" where
  "execute_times clock [] = []"
| "execute_times clock (TExecute v rq # xs) = clock v # execute_times clock xs"
| "execute_times clock (_ # xs) = execute_times clock xs"

lemma handle_execute_frame [simp]:
  "th_replay (fst (fst (handle_execute sha hmac pa m dir v (h, w) (Some rq)))) = th_replay (fst (admit sha hmac v h rq))"
  "th_limiter (fst (fst (handle_execute sha hmac pa m dir v (h, w) (Some rq)))) = th_limiter (fst (admit sha hmac v h rq))"
  "th_max_lifetime (fst (fst (handle_execute sha hmac pa m dir v (h, w) (Some rq)))) = th_max_lifetime (fst (admit sha hmac v h rq))"
  by (simp_all add: handle_execute_def deny_def split: prod.split option.split sum.split)

lemma check_request_id_frame [simp]:
  "rc_ttl (fst (check_request_id c rid now)) = rc_ttl c" "rc_max_size (fst (check_request_id c rid now)) = rc_max_size c"
  by (simp_all add: check_request_id_def Let_def)

lemma admit_frame:
  "th_max_lifetime (fst (admit sha hmac v h rq)) = th_max_lifetime h"
  "rc_ttl (th_replay (fst (admit sha hmac v h rq))) = rc_ttl (th_replay h)"
  by (cases rule: admit_cases [of sha hmac v h rq];
      use check_request_id_frame [of "th_replay h" "tk_request_id (ex_token rq)" "tv_now v"] in force)+

lemma tool_exec_frame:
  "th_max_lifetime (fst (tool_exec sha hmac pa m dir hw x)) = th_max_lifetime (fst hw)"
  "rc_ttl (th_replay (fst (tool_exec sha hmac pa m dir hw x))) = rc_ttl (th_replay (fst hw))"
  by (cases hw; cases x; simp add: tool_exec_def admit_frame split: option.split)+

section \<open>Replay\<close>

text \<open>
  For every admitted token, the cache holds its request id until the TTL after the admission has passed.
\<close>

definition remembers :: "replay_cache \<Rightarrow> (time \<times> token) list \<Rightarrow> time \<Rightarrow> bool" where
  "remembers c log now \<longleftrightarrow> (\<forall>(t, tok)\<in>set log. t + rc_ttl c \<le> now \<or>
     (\<exists>x. map_of (rc_entries c) (tk_request_id tok) = Some x \<and> t + rc_ttl c \<le> x))"

lemma remembers_later: "remembers c log now \<Longrightarrow> now \<le> later \<Longrightarrow> remembers c log later"
  unfolding remembers_def by fastforce

lemma check_request_id_cases:
  assumes "wf_map (rc_entries c)"
  obtains (seen) x where "map_of (rc_entries c) rid = Some x" "now < x" "check_request_id c rid now = (c, False)"
  | (full) live where "wf_map live" "length live \<le> length (rc_entries c)" "\<And>k x. map_of (rc_entries c) k = Some x \<Longrightarrow> now < x \<Longrightarrow> map_of live k = Some x"
      "check_request_id c rid now = (c\<lparr>rc_entries := live, rc_overflow := rc_overflow c + 1\<rparr>, False)"
  | (stored) live where "wf_map live" "\<And>k x. map_of (rc_entries c) k = Some x \<Longrightarrow> now < x \<Longrightarrow> map_of live k = Some x"
      "\<And>x. map_of (rc_entries c) rid = Some x \<Longrightarrow> x \<le> now" "length live < rc_max_size c"
      "check_request_id c rid now = (c\<lparr>rc_entries := AList.update rid (now + rc_ttl c) live\<rparr>, True)"
proof (cases "\<exists>x. map_of (rc_entries c) rid = Some x \<and> now < x")
  case True
  then obtain x where "map_of (rc_entries c) rid = Some x" "now < x" by blast
  then show thesis by (intro seen [of x]) (simp_all add: check_request_id_def)
next
  case False
  define live where "live = (if length (rc_entries c) \<ge> rc_max_size c
    then filter (\<lambda>(_, x). now < x) (rc_entries c) else rc_entries c)"
  have wf: "wf_map live" using assms by (auto simp: live_def intro: wf_map_filter)
  have keep: "map_of live k = Some x" if "map_of (rc_entries c) k = Some x" "now < x" for k x
    using that map_of_filter_wf [OF assms, of "\<lambda>_ x. now < x" k] by (simp add: live_def)
  have le: "length live \<le> length (rc_entries c)" by (simp add: live_def)
  have old: "\<not> (case map_of (rc_entries c) rid of Some x \<Rightarrow> now < x | None \<Rightarrow> False)" using False by (auto split: option.splits)
  show thesis
  proof (cases "rc_max_size c \<le> length live")
    case True
    then have "check_request_id c rid now = (c\<lparr>rc_entries := live, rc_overflow := rc_overflow c + 1\<rparr>, False)"
      using old unfolding check_request_id_def live_def Let_def by simp
    then show thesis by (intro full [of live] wf le keep)
  next
    case small: False
    then have "check_request_id c rid now = (c\<lparr>rc_entries := AList.update rid (now + rc_ttl c) live\<rparr>, True)"
      using old unfolding check_request_id_def live_def Let_def by simp
    then show thesis by (intro stored [of live] wf keep) (use False small in \<open>auto simp: not_less not_le\<close>)
  qed
qed

lemma check_request_id_stored:
  "check_request_id c rid now = (c', True) \<Longrightarrow> map_of (rc_entries c') rid = Some (now + rc_ttl c)"
  by (auto simp: check_request_id_def Let_def update_conv' split: if_splits)

lemma check_request_id_wf: "wf_map (rc_entries c) \<Longrightarrow> wf_map (rc_entries (fst (check_request_id c rid now)))"
  by (cases rule: check_request_id_cases [where rid = rid and now = now, of c]) (auto intro: wf_map_update)

lemma check_request_id_bounded:
  assumes "wf_map (rc_entries c)" "length (rc_entries c) \<le> rc_max_size c"
  shows "length (rc_entries (fst (check_request_id c rid now))) \<le> rc_max_size c"
  using assms(1)
proof (cases rule: check_request_id_cases [where rid = rid and now = now])
  case (full live)
  then show ?thesis using assms(2) by simp
next
  case (stored live)
  then show ?thesis by (simp add: length_update_new split: if_splits)
qed (use assms in simp)

lemma check_request_id_remembers:
  assumes "wf_map (rc_entries c)" "remembers c log seen" "seen \<le> now"
  shows "remembers (fst (check_request_id c (tk_request_id tok) now))
      (if snd (check_request_id c (tk_request_id tok) now) then log @ [(now, tok)] else log) now \<and>
    (snd (check_request_id c (tk_request_id tok) now) \<longrightarrow>
      (\<forall>(t, tok')\<in>set log. tk_request_id tok' = tk_request_id tok \<longrightarrow> t + rc_ttl c \<le> now))"
proof -
  note old = remembers_later [OF assms(2,3)]
  have kept: "remembers c' log now"
    if "rc_ttl c' = rc_ttl c" "\<And>k x. map_of (rc_entries c) k = Some x \<Longrightarrow> now < x \<Longrightarrow>
        \<exists>y. map_of (rc_entries c') k = Some y \<and> x \<le> y" for c'
    unfolding remembers_def
  proof
    fix e assume "e \<in> set log"
    obtain t tok' where e: "e = (t, tok')" by force
    from \<open>e \<in> set log\<close> old e consider "t + rc_ttl c \<le> now"
      | x where "map_of (rc_entries c) (tk_request_id tok') = Some x" "t + rc_ttl c \<le> x"
      unfolding remembers_def by auto
    then show "case e of (t, tok) \<Rightarrow> t + rc_ttl c' \<le> now \<or>
      (\<exists>x. map_of (rc_entries c') (tk_request_id tok) = Some x \<and> t + rc_ttl c' \<le> x)"
    proof cases
      case 1
      then show ?thesis by (simp add: e that(1))
    next
      case 2
      show ?thesis
      proof (cases "now < x")
        case True
        from that(2) [OF 2(1) this] 2(2) show ?thesis by (auto simp: e that(1) intro: order_trans)
      next
        case False
        with 2(2) show ?thesis by (simp add: e that(1))
      qed
    qed
  qed
  from assms(1) show ?thesis
  proof (cases rule: check_request_id_cases [where rid = "tk_request_id tok" and now = now])
    case (seen x)
    then show ?thesis using old by simp
  next
    case (full live)
    then show ?thesis using kept [of "c\<lparr>rc_entries := live, rc_overflow := rc_overflow c + 1\<rparr>"] by auto
  next
    case (stored live)
    let ?c = "c\<lparr>rc_entries := AList.update (tk_request_id tok) (now + rc_ttl c) live\<rparr>"
    have "remembers ?c log now"
    proof (rule kept)
      fix k x
      assume *: "map_of (rc_entries c) k = Some x" "now < x"
      then have "k \<noteq> tk_request_id tok" using stored(3) by force
      with stored(2) [OF *] show "\<exists>y. map_of (rc_entries ?c) k = Some y \<and> x \<le> y" by (simp add: update_conv')
    qed simp
    then have "remembers ?c (log @ [(now, tok)]) now" by (auto simp: remembers_def update_conv')
    moreover have "t + rc_ttl c \<le> now" if "(t, tok') \<in> set log" "tk_request_id tok' = tk_request_id tok" for t tok'
    proof -
      from that old consider "t + rc_ttl c \<le> now"
        | x where "map_of (rc_entries c) (tk_request_id tok) = Some x" "t + rc_ttl c \<le> x"
        unfolding remembers_def by auto
      then show ?thesis
      proof cases
        case 2
        with stored(3) [OF 2(1)] show ?thesis by simp
      qed
    qed
    ultimately show ?thesis using stored(5) by auto
  qed
qed

lemma admitted_distinct_from:
  assumes "wf_map (rc_entries (th_replay (fst hw)))" "remembers (th_replay (fst hw)) log seen"
    and "sorted (seen # execute_times tv_now xs)"
    and life: "0 < th_max_lifetime (fst hw)" "th_max_lifetime (fst hw) + 60 * second \<le> rc_ttl (th_replay (fst hw))"
      "th_max_lifetime (fst hw) < max_duration"
    and valid: "\<forall>(t, tok)\<in>set log. unix_milli (tk_exp tok) \<le> t + rc_ttl (th_replay (fst hw))"
    and dist: "distinct (map snd log)"
  shows "distinct (map snd log @ map snd (admitted sha hmac pa m dir hw xs))"
  using assms
proof (induction xs arbitrary: hw log seen)
  case Nil
  then show ?case by simp
next
  case (Cons x xs)
  let ?hw = "tool_exec sha hmac pa m dir hw x"
  obtain h w where hw: "hw = (h, w)" by force
  show ?case
  proof (cases x)
    case (TExecute v rq)
    let ?c = "th_replay h" and ?tok = "ex_token rq"
    let ?chk = "check_request_id ?c (tk_request_id ?tok) (tv_now v)"
    from Cons.prems(3) TExecute have s: "seen \<le> tv_now v" "sorted (tv_now v # execute_times tv_now xs)" by auto
    have wf: "wf_map (rc_entries ?c)" and rem: "remembers ?c log seen" using Cons.prems(1,2) hw by simp_all
    note step = check_request_id_remembers [OF wf rem s(1), of ?tok]
    have replay: "th_replay (fst ?hw) = th_replay (fst (admit sha hmac v h rq))"
      using TExecute hw by (simp add: tool_exec_def)
    have adm: "admitted sha hmac pa m dir hw (x # xs) =
        (if snd (admit sha hmac v h rq) = None then [(v, ?tok)] else []) @ admitted sha hmac pa m dir ?hw xs"
      using TExecute hw by simp
    have life': "0 < th_max_lifetime (fst ?hw)" "th_max_lifetime (fst ?hw) + 60 * second \<le> rc_ttl (th_replay (fst ?hw))"
      "th_max_lifetime (fst ?hw) < max_duration" "rc_ttl (th_replay (fst ?hw)) = rc_ttl ?c"
      using Cons.prems(4-6) hw tool_exec_frame [of sha hmac pa m dir hw x] by simp_all
    have IH: "distinct (map snd log' @ map snd (admitted sha hmac pa m dir ?hw xs))"
      if "wf_map (rc_entries (th_replay (fst ?hw)))" "remembers (th_replay (fst ?hw)) log' (tv_now v)"
        "\<forall>(t, tok)\<in>set log'. unix_milli (tk_exp tok) \<le> t + rc_ttl ?c" "distinct (map snd log')" for log'
      by (rule Cons.IH [OF that(1,2) s(2) life'(1-3)]) (use that(3,4) life'(4) in simp_all)
    have valid: "\<forall>(t, tok)\<in>set log. unix_milli (tk_exp tok) \<le> t + rc_ttl ?c" using Cons.prems(7) hw by simp
    have later: "remembers ?c log (tv_now v)" by (rule remembers_later [OF rem s(1)])
    have admits: "?thesis" if ok: "token_ok sha hmac v h rq" "snd ?chk" and th: "th_replay (fst ?hw) = fst ?chk"
      and none: "snd (admit sha hmac v h rq) = None \<or> snd (admit sha hmac v h rq) = Some (429, ''rate_limited'')"
    proof -
      have claims: "tv_now v < unix_milli (tk_exp ?tok)" "unix_milli (tk_exp ?tok) \<le> tv_now v + rc_ttl ?c"
        using ok(1) verify_claims_iff [of "th_max_lifetime h" ?tok "th_self_id h" "tv_now v"] Cons.prems(4-6) hw
        by (auto simp: token_ok_def)
      have "?tok \<notin> snd ` set log"
      proof
        assume "?tok \<in> snd ` set log"
        then obtain t where t: "(t, ?tok) \<in> set log" by auto
        with step ok(2) have "t + rc_ttl ?c \<le> tv_now v" by auto
        moreover have "unix_milli (tk_exp ?tok) \<le> t + rc_ttl ?c" using valid t by auto
        ultimately show False using claims(1) by simp
      qed
      then have d: "distinct (map snd (log @ [(tv_now v, ?tok)]))" using Cons.prems(8) by auto
      have "distinct (map snd (log @ [(tv_now v, ?tok)]) @ map snd (admitted sha hmac pa m dir ?hw xs))"
        by (rule IH) (use th wf step ok(2) valid claims(2) d in \<open>auto intro: check_request_id_wf\<close>)
      then show ?thesis unfolding adm by auto
    qed
    show ?thesis
    proof (cases rule: admit_cases [of sha hmac v h rq])
      case (invalid e)
      then have "distinct (map snd log @ map snd (admitted sha hmac pa m dir ?hw xs))"
        by (intro IH) (use wf later valid Cons.prems(8) replay in simp_all)
      then show ?thesis unfolding adm using invalid by simp
    next
      case (replayed c)
      then have "distinct (map snd log @ map snd (admitted sha hmac pa m dir ?hw xs))"
        by (intro IH) (use wf step valid Cons.prems(8) replay check_request_id_wf [OF wf, of "tk_request_id ?tok" "tv_now v"] in simp_all)
      then show ?thesis unfolding adm using replayed by simp
    next
      case (unlimited c)
      show ?thesis by (rule admits) (use unlimited replay in simp_all)
    next
      case (limited c l l' ok)
      show ?thesis by (rule admits) (use limited replay in simp_all)
    qed
  next
    case (TRotate now key d)
    then have "th_replay (fst ?hw) = th_replay h" "th_max_lifetime (fst ?hw) = th_max_lifetime h"
      "admitted sha hmac pa m dir hw (x # xs) = admitted sha hmac pa m dir ?hw xs"
      using hw by (simp_all add: tool_exec_def split: option.split)
    with Cons.IH [of ?hw log seen] Cons.prems TRotate hw show ?thesis by simp
  next
    case TDropGrace
    then have "th_replay (fst ?hw) = th_replay h" "th_max_lifetime (fst ?hw) = th_max_lifetime h"
      "admitted sha hmac pa m dir hw (x # xs) = admitted sha hmac pa m dir ?hw xs"
      using hw by (simp_all add: tool_exec_def)
    with Cons.IH [of ?hw log seen] Cons.prems TDropGrace hw show ?thesis by simp
  qed
qed

section \<open>The rate limit\<close>

definition origin_allow :: "time \<Rightarrow> (string \<Rightarrow> time list) \<Rightarrow> string \<Rightarrow> (string \<Rightarrow> time list) \<times> bool" where
  "origin_allow now f k = map_prod lim_stamps id (allow_origin now ((new_rate_limiter 0 0)\<lparr>lim_stamps := f\<rparr>) k)"

interpretation origin_limiter: window_limiter origin_allow "\<lambda>f k. f k" 10 "60 * second" "\<lambda>k. k \<noteq> []"
  by unfold_locales (auto simp: origin_allow_def allow_origin_def new_rate_limiter_def Let_def)

text \<open>The calls of the limiter in a run, and the admissions of one origin.\<close>

fun limiter_calls ::
  "(bytes \<Rightarrow> bytes) \<Rightarrow> (bytes \<Rightarrow> bytes \<Rightarrow> bytes) \<Rightarrow> (bytes \<Rightarrow> json_object option option) \<Rightarrow> 'w mcp \<Rightarrow> string
     \<Rightarrow> tool_handler \<times> 'w \<Rightarrow> tool_op list \<Rightarrow> (time \<times> string) list" where
  "limiter_calls sha hmac pa m dir hw [] = []"
| "limiter_calls sha hmac pa m dir hw (x # xs) =
     (case x of
        TExecute v rq \<Rightarrow>
          (if snd (admit sha hmac v (fst hw) rq) \<in> {None, Some (429, ''rate_limited'')}
           then [(tv_limit_now v, tk_origin_member (ex_token rq))] else [])
      | _ \<Rightarrow> []) @ limiter_calls sha hmac pa m dir (tool_exec sha hmac pa m dir hw x) xs"

definition admissions_of :: "string \<Rightarrow> (tool_env \<times> token) list \<Rightarrow> time list" where
  "admissions_of k log = map (\<lambda>(v, tok). tv_limit_now v) (filter (\<lambda>(v, tok). tk_origin_member tok = k) log)"

definition default_limiter :: "rate_limiter \<Rightarrow> bool" where
  "default_limiter l \<longleftrightarrow> l = (new_rate_limiter 0 0)\<lparr>lim_stamps := lim_stamps l\<rparr>"

lemma allow_origin_default:
  assumes "default_limiter l"
  shows "lim_stamps (fst (allow_origin now l k)) = fst (origin_allow now (lim_stamps l) k)"
    "snd (allow_origin now l k) = snd (origin_allow now (lim_stamps l) k)"
    "default_limiter (fst (allow_origin now l k))"
proof -
  obtain f where l: "l = (new_rate_limiter 0 0)\<lparr>lim_stamps := f\<rparr>" using assms unfolding default_limiter_def by blast
  show "lim_stamps (fst (allow_origin now l k)) = fst (origin_allow now (lim_stamps l) k)"
    "snd (allow_origin now l k) = snd (origin_allow now (lim_stamps l) k)"
    "default_limiter (fst (allow_origin now l k))"
    by (auto simp: l origin_allow_def default_limiter_def allow_origin_def new_rate_limiter_def Let_def)
qed

lemma admissions_limited:
  assumes "th_limiter (fst hw) = Some l" "default_limiter l"
  shows "admissions_of k (admitted sha hmac pa m dir hw xs) =
    origin_limiter.grants_of k (lim_stamps l) (limiter_calls sha hmac pa m dir hw xs)"
  using assms
proof (induction xs arbitrary: hw l)
  case Nil
  then show ?case by (simp add: admissions_of_def origin_limiter.grants_of_def)
next
  case (Cons x xs)
  let ?hw = "tool_exec sha hmac pa m dir hw x"
  obtain h w where hw: "hw = (h, w)" by force
  show ?case
  proof (cases x)
    case (TExecute v rq)
    have lim: "th_limiter (fst ?hw) = th_limiter (fst (admit sha hmac v h rq))"
      using TExecute hw by (simp add: tool_exec_def)
    show ?thesis
    proof (cases rule: admit_cases [of sha hmac v h rq])
      case (invalid e)
      then have "snd (admit sha hmac v h rq) \<notin> {None, Some (429, ''rate_limited'')}" by auto
      with invalid Cons.IH [of ?hw l] Cons.prems TExecute hw lim show ?thesis by (simp add: admissions_of_def)
    next
      case (replayed c)
      with Cons.IH [of ?hw l] Cons.prems TExecute hw lim show ?thesis by (simp add: admissions_of_def)
    next
      case (unlimited c)
      with Cons.prems hw show ?thesis by simp
    next
      case (limited c l1 l' ok)
      with Cons.prems hw have l1: "l1 = l" by simp
      note da = allow_origin_default [OF Cons.prems(2), of "tv_limit_now v" "tk_origin_member (ex_token rq)"]
      from limited l1 da have "lim_stamps l' = fst (origin_allow (tv_limit_now v) (lim_stamps l) (tk_origin_member (ex_token rq)))"
        "ok = snd (origin_allow (tv_limit_now v) (lim_stamps l) (tk_origin_member (ex_token rq)))" "default_limiter l'"
        by simp_all
      with Cons.IH [of ?hw l'] limited TExecute hw lim show ?thesis
        by (auto simp: admissions_of_def origin_limiter.grants_of_Cons)
    qed
  next
    case (TRotate now key d)
    then have "th_limiter (fst ?hw) = th_limiter h" using hw by (simp add: tool_exec_def split: option.split)
    with Cons.IH [of ?hw l] Cons.prems TRotate hw show ?thesis by simp
  next
    case TDropGrace
    then have "th_limiter (fst ?hw) = th_limiter h" using hw by (simp add: tool_exec_def)
    with Cons.IH [of ?hw l] Cons.prems TDropGrace hw show ?thesis by simp
  qed
qed

lemma limiter_calls_times:
  "t \<in> set (map fst (limiter_calls sha hmac pa m dir hw xs)) \<Longrightarrow> t \<in> set (execute_times tv_limit_now xs)"
proof (induction xs arbitrary: hw)
  case (Cons x xs)
  let ?rest = "limiter_calls sha hmac pa m dir (tool_exec sha hmac pa m dir hw x) xs"
  show ?case
  proof (cases x)
    case (TExecute v rq)
    with Cons.prems have "t = tv_limit_now v \<or> t \<in> set (map fst ?rest)"
      by (simp only: limiter_calls.simps tool_op.case map_append set_append Un_iff split: if_splits) auto
    then show ?thesis
    proof
      assume "t \<in> set (map fst ?rest)"
      from Cons.IH [OF this] TExecute show ?thesis by simp
    qed (use TExecute in simp)
  qed (use Cons in auto)
qed simp

lemma limiter_calls_sorted:
  "sorted (execute_times tv_limit_now xs) \<Longrightarrow> sorted (map fst (limiter_calls sha hmac pa m dir hw xs))"
proof (induction xs arbitrary: hw)
  case (Cons x xs)
  let ?rest = "limiter_calls sha hmac pa m dir (tool_exec sha hmac pa m dir hw x) xs"
  show ?case
  proof (cases x)
    case (TExecute v rq)
    with Cons.prems have "sorted (execute_times tv_limit_now xs)" "\<forall>t\<in>set (execute_times tv_limit_now xs). tv_limit_now v \<le> t"
      by simp_all
    moreover have "sorted (map fst ?rest)" by (rule Cons.IH) fact
    moreover have "\<forall>t\<in>set (map fst ?rest). tv_limit_now v \<le> t"
      using calculation(2) limiter_calls_times by blast
    ultimately show ?thesis using TExecute by simp
  qed (use Cons in auto)
qed simp

section \<open>Properties\<close>

text \<open>C8: No execution token is admitted twice. In any run of the endpoint on a clock that does not go back, with
  key rotations in between, starting from an empty replay cache whose TTL covers the longest token lifetime
  and the clock skew, and whatever the cache's size, the admitted tokens are pairwise different: a
  captured token never runs its tool a second time.\<close>

theorem token_admitted_once:
  assumes "rc_entries (th_replay h) = []" "0 < th_max_lifetime h" "th_max_lifetime h < max_duration"
    and "th_max_lifetime h + 60 * second \<le> rc_ttl (th_replay h)" "sorted (execute_times tv_now xs)"
  shows "distinct (map snd (admitted sha hmac pa m dir (h, w) xs))"
proof -
  obtain seen where "sorted (seen # execute_times tv_now xs)"
    using assms(5) by (cases "execute_times tv_now xs") auto
  moreover have "wf_map (rc_entries (th_replay h))" "remembers (th_replay h) [] seen"
    using assms(1) by (simp_all add: remembers_def)
  ultimately show ?thesis
    using admitted_distinct_from [of "(h, w)" "[]" seen xs sha hmac pa m dir] assms(2-4) by simp
qed

text \<open>C20: What an admitted request proves. An admitted request carries arguments whose hash is the signed one, a
  MAC over the token under the current or the still valid grace key, this daemon as target, an expiry in
  the future, an approval at most 60 seconds ahead, and a lifetime within the cap; its id is in the replay
  cache afterwards.\<close>

theorem admitted_token_is_valid:
  assumes "admit sha hmac v h rq = (h', None)" "wf_map (rc_entries (th_replay h))"
    and "0 < th_max_lifetime h" "th_max_lifetime h < max_duration"
  shows "let t = ex_token rq in
    tk_args_hash t = hash_args sha (ex_args rq) \<and>
    (\<exists>key. (key = kp_current (th_keys h) \<or> grace (tv_grace_now v) (th_keys h) = Some key) \<and> key \<noteq> [] \<and>
      hex_decode (to_lower (tk_sig t)) = Some (hmac key (token_canonical t))) \<and>
    tk_target_member t = th_self_id h \<and> tv_now v < unix_milli (tk_exp t) \<and>
    unix_milli (tk_approved_at t) \<le> tv_now v + 60 * second \<and>
    unix_milli (tk_exp t) \<le> unix_milli (tk_approved_at t) + th_max_lifetime h \<and>
    map_of (rc_entries (th_replay h')) (tk_request_id t) = Some (tv_now v + rc_ttl (th_replay h))"
proof -
  let ?t = "ex_token rq"
  have ok: "token_ok sha hmac v h rq"
    and chk: "check_request_id (th_replay h) (tk_request_id ?t) (tv_now v) = (th_replay h', True)"
    using assms(1) by (cases rule: admit_cases [of sha hmac v h rq]; auto split: if_splits)+
  note stored = check_request_id_stored [OF chk]
  from ok verify_claims_iff [OF assms(3,4), of ?t "th_self_id h" "tv_now v"] stored show ?thesis
    unfolding token_ok_def verify_hmac_iff Let_def by (auto split: option.splits)
qed

text \<open>The rate limit bounds what one origin can have executed. With the limiter the daemon installs, starting
  empty, in any run with a limiter clock that does not go back, at most 10 requests of one (claimed, non-empty)
  origin are admitted in any 60 seconds, however many valid tokens are presented.\<close>

theorem tool_rate_bounded:
  assumes "th_limiter h = Some (new_rate_limiter 0 0)" "sorted (execute_times tv_limit_now xs)" "k \<noteq> []"
  shows "hits (60 * second) t (admissions_of k (admitted sha hmac pa m dir (h, w) xs)) \<le> 10"
proof -
  have "default_limiter (new_rate_limiter 0 0)" by (simp add: default_limiter_def new_rate_limiter_def)
  with assms(1) have "admissions_of k (admitted sha hmac pa m dir (h, w) xs) =
      origin_limiter.grants_of k (lim_stamps (new_rate_limiter 0 0)) (limiter_calls sha hmac pa m dir (h, w) xs)"
    by (intro admissions_limited) simp_all
  with origin_limiter.grants_bounded [OF assms(3) _ limiter_calls_sorted [OF assms(2), of sha hmac pa m dir "(h, w)"],
    of "lim_stamps (new_rate_limiter 0 0)" t] show ?thesis
    by (simp add: new_rate_limiter_def)
qed

text \<open>An honest token is admitted. A token signed with the current clan key for this daemon, over the hash of
  the arguments sent with it, not expired, approved in the past and not living too long, with a request id
  the cache does not hold and room in the cache and in the origin's rate, is admitted.\<close>

theorem honest_token_admitted:
  assumes "ex_token rq = sign hmac (kp_current (th_keys h)) t" "kp_current (th_keys h) \<noteq> []"
    and "hmac (kp_current (th_keys h)) (token_canonical t) \<noteq> []"
    and "tk_args_hash t = hash_args sha (ex_args rq)" "tk_target_member t = th_self_id h"
    and "tv_now v < unix_milli (tk_exp t)" "unix_milli (tk_approved_at t) \<le> tv_now v"
    and "unix_milli (tk_exp t) \<le> unix_milli (tk_approved_at t) + th_max_lifetime h"
    and "0 < th_max_lifetime h" "th_max_lifetime h < max_duration"
    and "map_of (rc_entries (th_replay h)) (tk_request_id t) = None"
    and "length (rc_entries (th_replay h)) < rc_max_size (th_replay h)"
    and "\<forall>l. th_limiter h = Some l \<longrightarrow> count_in_window (tv_limit_now v) l (tk_origin_member t) < lim_max_burst l"
  shows "snd (admit sha hmac v h rq) = None"
proof -
  have can: "token_canonical (ex_token rq) = token_canonical t"
    unfolding assms(1) by (simp add: sign_def token_canonical_def token_fields_def)
  have sig: "tk_sig (ex_token rq) = hex_encode (hmac (kp_current (th_keys h)) (token_canonical t))"
    unfolding assms(1) by (simp add: sign_def)
  have "hex_encode x \<noteq> []" if "x \<noteq> []" for x using that by (cases x) (simp_all add: hex_encode_def hex_byte_def)
  with assms(3) sig have ne: "tk_sig (ex_token rq) \<noteq> []" by simp
  have fields: "tk_request_id (ex_token rq) = tk_request_id t" "tk_origin_member (ex_token rq) = tk_origin_member t"
    "tk_target_member (ex_token rq) = tk_target_member t" "tk_args_hash (ex_token rq) = tk_args_hash t"
    "tk_approved_at (ex_token rq) = tk_approved_at t" "tk_exp (ex_token rq) = tk_exp t"
    unfolding assms(1) by (simp_all add: sign_def)
  have "token_ok sha hmac v h rq"
    unfolding token_ok_def verify_hmac_iff verify_claims_iff [OF assms(9,10)] fields can
    using ne sig assms(2,4-8) by simp
  moreover have "snd (check_request_id (th_replay h) (tk_request_id (ex_token rq)) (tv_now v))"
    using assms(11,12) fields by (simp add: check_request_id_def)
  moreover have "snd (allow_origin (tv_limit_now v) l (tk_origin_member (ex_token rq)))" if "th_limiter h = Some l" for l
    using assms(13) that fields by (simp add: allow_origin_def count_in_window_def in_window_def Let_def)
  ultimately show ?thesis by (cases rule: admit_cases [of sha hmac v h rq]) auto
qed

text \<open>The signed text determines the token. If no field of a token contains a line feed, a token with the same
  signed text has the same fields, so a MAC cannot be moved to another request, origin, target, tool, set
  of arguments or lifetime.\<close>

theorem token_text_injective:
  assumes "\<forall>f\<in>set (token_fields t). free_of LF f" "token_canonical t = token_canonical t'"
  shows "t\<lparr>tk_sig := []\<rparr> = t'\<lparr>tk_sig := []\<rparr>"
proof -
  have "count_list (join LF xs) LF + 1 = sum_list (map (\<lambda>x. count_list x LF + 1) xs)" if "xs \<noteq> []" for xs
    using that by (induction xs) (auto simp: join_Cons_cases)
  from this [of "token_fields t"] this [of "token_fields t'"]
  have "sum_list (map (\<lambda>x. count_list x LF + 1) (token_fields t)) = sum_list (map (\<lambda>x. count_list x LF + 1) (token_fields t'))"
    using assms(2) unfolding token_canonical_def [symmetric] by (simp add: token_fields_def)
  moreover have "sum_list (map (\<lambda>x. count_list x LF + 1) (token_fields t)) = 7"
    using assms(1) by (simp add: token_fields_def free_of_def count_list_0_iff)
  ultimately have "\<forall>f\<in>set (token_fields t'). free_of LF f"
    by (simp add: token_fields_def free_of_def count_list_0_iff [symmetric])
  with assms have "token_fields t = token_fields t'"
    using join_inj [of "token_fields t" LF "token_fields t'"] by (simp add: token_canonical_def token_fields_def)
  then show ?thesis by (simp add: token_fields_def dec_int_inj)
qed

text \<open>The binary stays in the binaries directory. Whatever tool name a token carries, the path that is spawned
  for it lies strictly below the configured directory: the namespace ends at the first dot of the name,
  so it cannot contain a parent step.\<close>

theorem spawned_binary_in_dir:
  assumes "resolve_binary dir wire_tool = Inr (server, tool, path)" "parts dir \<noteq> []"
  shows "under path dir \<and> clean path \<noteq> clean dir"
proof -
  let ?ns = "takeWhile (\<lambda>c. c \<noteq> CHR ''.'') wire_tool"
  have path: "path = clean (dir @ slash # ''minti-'' @ ?ns)" and ne: "dir \<noteq> []"
    using assms(1) by (auto simp: resolve_binary_def resolve_server_binary_def path_join_def Let_def split: if_splits sum.splits)
  have nodot: "CHR ''.'' \<notin> set (''minti-'' @ ?ns)" by (auto dest: set_takeWhileD)
  have comps: "foldl (clean_step r) ps es = ps @ filter (\<lambda>e. e \<noteq> []) es"
    if "\<forall>e\<in>set es. CHR ''.'' \<notin> set e" for r ps es
    using that by (induction es arbitrary: ps) (auto simp: clean_step_def)
  have sub: "\<forall>e\<in>set (split_on slash s). set e \<subseteq> set s" for s
    by (induction s) (auto split: list.splits if_splits)
  have r: "rooted (dir @ slash # ''minti-'' @ ?ns) = rooted dir" using ne by (simp add: rooted_def)
  have "parts (dir @ slash # ''minti-'' @ ?ns) =
      parts dir @ filter (\<lambda>e. e \<noteq> []) (split_on slash (''minti-'' @ ?ns))"
    unfolding parts_def r split_on_append_sep foldl_append
    by (rule comps) (use sub [of "''minti-'' @ ?ns"] nodot in blast)
  moreover have "filter (\<lambda>e. e \<noteq> []) (split_on slash (''minti-'' @ ?ns)) \<noteq> []"
    by (auto split: list.split simp: filter_empty_conv)
  ultimately obtain zs where zs: "parts path = parts dir @ zs" "zs \<noteq> []"
    unfolding path clean_def by (metis clean_list_parts parts_of_parts)
  have rp: "rooted path = rooted dir"
    unfolding path clean_def using rooted_of_parts [OF clean_list_parts] r by metis
  have "under path dir" using under_components [OF assms(2)] zs rp by blast
  moreover have "clean path \<noteq> clean dir"
    using of_parts_inj [OF clean_list_parts clean_list_parts, of path dir] zs by (simp add: clean_def)
  ultimately show ?thesis ..
qed

section \<open>Witnesses\<close>

definition sample_token :: token where
  "sample_token = sign (\<lambda>k t. k @ t) ''key''
     \<lparr>tk_request_id = ''r1'', tk_origin_member = ''o'', tk_target_member = ''self'', tk_tool = ''mcp-fs.read_text'',
      tk_args_hash = hash_args rev ''{}'', tk_approved_at = 1000, tk_exp = 61000, tk_sig = []\<rparr>"

definition sample_execution :: execute_request where
  "sample_execution = \<lparr>ex_token = sample_token, ex_args = ''{}''\<rparr>"

definition sample_handler :: tool_handler where
  "sample_handler = \<lparr>th_self_id = ''self'', th_keys = \<lparr>kp_current = ''key'', kp_grace = None, kp_grace_expiry = zero_time\<rparr>,
     th_replay = new_replay_cache 0 0, th_limiter = Some (new_rate_limiter 0 0), th_audit = [],
     th_max_lifetime = default_max_token_lifetime\<rparr>"

definition sample_clock :: "time \<Rightarrow> tool_env" where
  "sample_clock t = \<lparr>tv_grace_now = t, tv_now = t, tv_limit_now = t\<rparr>"

definition no_tools :: "unit mcp" where
  "no_tools = \<lparr>mcp_connect = (\<lambda>w _. (w, False)), mcp_list = (\<lambda>w _. (w, None)), mcp_call = (\<lambda>w _ _ _. (w, None))\<rparr>"

lemma hex_encode_Cons_not_Nil: "hex_encode (c # s) \<noteq> []"
  by (simp add: hex_encode_def hex_byte_def)

lemma sample_admitted:
  "snd (admit rev (\<lambda>k t. k @ t) (sample_clock (2 * second)) sample_handler sample_execution) = None"
  by (simp add: sample_execution_def sample_token_def sample_handler_def sample_clock_def sign_def token_canonical_def
      token_fields_def unix_milli_def default_max_token_lifetime_def max_duration_def min_duration_def new_replay_cache_def
      new_rate_limiter_def prune_def admit_def verify_hmac_def verify_claims_def clock_skew_tolerance_def
      time_sub_def check_request_id_def allow_origin_def grace_def join_Cons_cases hex_encode_Cons_not_Nil Let_def)

theorem honest_token_admitted_witness:
  "snd (admit rev (\<lambda>k t. k @ t) (sample_clock (2 * second)) sample_handler sample_execution) = None"
  by (rule honest_token_admitted [where t = "sample_token\<lparr>tk_sig := []\<rparr>"])
    (simp_all add: sample_execution_def sample_token_def sample_handler_def sample_clock_def sign_def token_canonical_def
      token_fields_def unix_milli_def default_max_token_lifetime_def max_duration_def new_replay_cache_def
      new_rate_limiter_def count_in_window_def in_window_def prune_def)

theorem token_admitted_once_witness:
  "distinct (map snd (admitted rev (\<lambda>k t. k @ t) (\<lambda>_. None) no_tools ''/opt'' (sample_handler, ())
     [TExecute (sample_clock (2 * second)) sample_execution, TExecute (sample_clock (3 * second)) sample_execution]))"
  by (rule token_admitted_once)
    (simp_all add: sample_handler_def sample_clock_def new_replay_cache_def default_max_token_lifetime_def max_duration_def)

theorem admitted_token_is_valid_witness:
  "\<exists>h'. admit rev (\<lambda>k t. k @ t) (sample_clock (2 * second)) sample_handler sample_execution = (h', None) \<and>
     map_of (rc_entries (th_replay h')) ''r1'' = Some (2 * second + 15 * minute)"
proof -
  have "snd (admit rev (\<lambda>k t. k @ t) (sample_clock (2 * second)) sample_handler sample_execution) = None"
    by (rule sample_admitted)
  then obtain h' where h': "admit rev (\<lambda>k t. k @ t) (sample_clock (2 * second)) sample_handler sample_execution = (h', None)"
    by (metis prod.collapse)
  have "wf_map (rc_entries (th_replay sample_handler))" "0 < th_max_lifetime sample_handler"
    "th_max_lifetime sample_handler < max_duration"
    by (simp_all add: sample_handler_def new_replay_cache_def default_max_token_lifetime_def max_duration_def)
  from admitted_token_is_valid [OF h' this] h' show ?thesis
    by (simp add: Let_def sample_execution_def sample_token_def sign_def sample_clock_def sample_handler_def new_replay_cache_def)
qed

theorem tool_rate_bounded_witness:
  "hits (60 * second) (3 * second) (admissions_of ''o'' (admitted rev (\<lambda>k t. k @ t) (\<lambda>_. None) no_tools ''/opt'' (sample_handler, ())
     [TExecute (sample_clock (2 * second)) sample_execution, TExecute (sample_clock (3 * second)) sample_execution])) \<le> 10"
  by (rule tool_rate_bounded) (simp_all add: sample_handler_def sample_clock_def)

theorem token_text_injective_witness:
  "sample_token\<lparr>tk_sig := []\<rparr> = (sample_token\<lparr>tk_sig := ''0''\<rparr>)\<lparr>tk_sig := []\<rparr>"
proof (rule token_text_injective)
  have "free_of LF (hash_args rev ''{}'')" unfolding hash_args_def by (rule hex_encode_free) simp
  moreover have "free_of LF (dec_int i)" for i by (rule dec_int_free) simp
  ultimately show "\<forall>f\<in>set (token_fields sample_token). free_of LF f"
    by (simp add: token_fields_def sample_token_def sign_def)
qed (simp add: token_canonical_def token_fields_def)

theorem spawned_binary_in_dir_witness:
  "resolve_binary ''/opt/mcp'' ''mcp-fs/../../bin.sh'' = Inr (''minti-mcp-fs/'', ''./../bin.sh'', ''/opt/mcp/minti-mcp-fs'') \<and>
   under ''/opt/mcp/minti-mcp-fs'' ''/opt/mcp''"
proof -
  have r: "resolve_binary ''/opt/mcp'' ''mcp-fs/../../bin.sh'' = Inr (''minti-mcp-fs/'', ''./../bin.sh'', ''/opt/mcp/minti-mcp-fs'')"
    by code_simp
  have "parts ''/opt/mcp'' \<noteq> []" by code_simp
  with spawned_binary_in_dir [OF r] r show ?thesis by blast
qed

end
