(* ===== verification/Agent.thy ===== *)
theory Agent
  imports ToolExec
begin

text \<open>
  \<open>cland/internal/agent\<close>: the registry that classifies the tools, the catalog offered to the model and the loop that
  runs the model's tool calls. The model, the approver and the executor act on a world \<open>'w\<close>; JSON parsing of the
  arguments and the quoting verb \<open>%q\<close> are parameters. What the loop emits is collected in order; a failed emit is
  only logged by the code.
\<close>

section \<open>Registry\<close>

datatype tool_class = ClassRead | ClassChange

definition class_text :: "tool_class \<Rightarrow> string" where
  "class_text c = (case c of ClassRead \<Rightarrow> ''read'' | ClassChange \<Rightarrow> ''change'')"

definition read_tools :: "string list" where
  "read_tools =
     [''mcp-fs.read_text'', ''mcp-fs.list_dir'', ''mcp-fs.glob'', ''mcp-http.fetch_url'', ''mcp-http.head_url'',
      ''mcp-recon.dig_lookup'', ''mcp-recon.http_probe'', ''mcp-recon.whois'', ''mcp-recon.nmap_scan'',
      ''mcp-wiki.wiki_get'', ''mcp-wiki.wiki_search'', ''mcp-pkg.search'', ''mcp-search.web_search'']"

definition change_tools :: "string list" where
  "change_tools = [''mcp-fs.write_text'', ''mcp-shell.exec'', ''mcp-pkg.install'']"

definition classify :: "string \<Rightarrow> tool_class" where
  "classify wire = (if wire \<in> set read_tools then ClassRead else ClassChange)"

definition requires_approval :: "string \<Rightarrow> bool" where
  "requires_approval wire \<longleftrightarrow> classify wire = ClassChange"

definition known_tool :: "string \<Rightarrow> bool" where
  "known_tool wire \<longleftrightarrow> wire \<in> set read_tools \<or> wire \<in> set change_tools"

section \<open>Catalog\<close>

definition known_namespaces :: "string list" where
  "known_namespaces = [''mcp-fs'', ''mcp-http'', ''mcp-pkg'', ''mcp-recon'', ''mcp-search'', ''mcp-shell'', ''mcp-wiki'']"

record tool_def =
  td_name :: string
  td_description :: string
  td_schema :: bytes

record catalog =
  ct_tools :: "tool_def list"
  ct_wire :: "string \<rightharpoonup> string"

definition wire_name :: "string \<Rightarrow> string \<Rightarrow> string" where
  "wire_name ns tool = ns @ CHR ''.'' # tool"

text \<open>\<open>None\<close> when a tool name is already taken.\<close>

fun add_schemas :: "(string \<Rightarrow> bool) option \<Rightarrow> string \<Rightarrow> catalog \<Rightarrow> tool_schema list \<Rightarrow> catalog option" where
  "add_schemas keep ns c [] = Some c"
| "add_schemas keep ns c (s # ss) =
     (let wire = wire_name ns (ts_name s)
      in if (case keep of None \<Rightarrow> False | Some f \<Rightarrow> \<not> f wire) then add_schemas keep ns c ss
         else if ct_wire c (ts_name s) \<noteq> None then None
         else add_schemas keep ns
           (c\<lparr>ct_wire := (ct_wire c)(ts_name s \<mapsto> wire),
              ct_tools := ct_tools c @ [\<lparr>td_name = ts_name s, td_description = ts_description s, td_schema = ts_schema s\<rparr>]\<rparr>) ss)"

fun build_from ::
  "('w \<Rightarrow> string \<Rightarrow> 'w \<times> (exec_error + tool_schema list)) \<Rightarrow> (string \<Rightarrow> bool) option \<Rightarrow> 'w \<Rightarrow> catalog \<Rightarrow> string list \<Rightarrow>
     'w \<times> catalog option" where
  "build_from lister keep w c [] = (w, Some c)"
| "build_from lister keep w c (ns # nss) =
     (case lister w ns of
        (w1, Inl _) \<Rightarrow> build_from lister keep w1 c nss
      | (w1, Inr schemas) \<Rightarrow>
          (case add_schemas keep ns c schemas of
             None \<Rightarrow> (w1, None)
           | Some c1 \<Rightarrow> build_from lister keep w1 c1 nss))"

definition build_catalog ::
  "('w \<Rightarrow> string \<Rightarrow> 'w \<times> (exec_error + tool_schema list)) \<Rightarrow> (string \<Rightarrow> bool) option \<Rightarrow> 'w \<Rightarrow> 'w \<times> catalog option" where
  "build_catalog lister keep w = build_from lister keep w \<lparr>ct_tools = [], ct_wire = Map.empty\<rparr> known_namespaces"

section \<open>Data of the loop\<close>

record tool_call =
  tcl_id :: string
  tcl_name :: string
  tcl_input :: bytes

record tool_reply =
  tr_use_id :: string
  tr_content :: string
  tr_is_error :: bool

record turn =
  tu_role :: string
  tu_text :: string
  tu_calls :: "tool_call list"
  tu_results :: "tool_reply list"

record model_reply =
  mr_text :: string
  mr_calls :: "tool_call list"

datatype approval = DecisionDeny | DecisionApprove

record approval_request =
  ar_call_id :: string
  ar_tool :: string
  ar_class :: tool_class
  ar_input :: bytes

datatype event_type =
    EventText | EventToolCall | EventApprovalRequired | EventToolRunning | EventToolResult | EventFinal | EventError

record agent_event =
  ev_type :: event_type
  ev_req_id :: string
  ev_text :: string
  ev_call_id :: string
  ev_tool :: string
  ev_class :: string
  ev_input :: bytes
  ev_result :: string
  ev_is_error :: bool

definition blank_event :: "event_type \<Rightarrow> agent_event" where
  "blank_event t =
     \<lparr>ev_type = t, ev_req_id = [], ev_text = [], ev_call_id = [], ev_tool = [], ev_class = [], ev_input = [],
      ev_result = [], ev_is_error = False\<rparr>"

record 'w agent_loop =
  lo_call :: "'w \<Rightarrow> string \<Rightarrow> turn list \<Rightarrow> tool_def list \<Rightarrow> 'w \<times> (string + model_reply)"
  lo_exec :: "'w \<Rightarrow> string \<Rightarrow> json_object option \<Rightarrow> 'w \<times> (string + exec_result)"
  lo_approve :: "('w \<Rightarrow> approval_request \<Rightarrow> 'w \<times> approval \<times> string option) option"
  lo_parse :: "bytes \<Rightarrow> string + json_object option"
  lo_quote :: "string \<Rightarrow> string"
  lo_catalog :: catalog
  lo_system :: string
  lo_max_iters :: int

text \<open>The daemon's executor is the one of the tool endpoint; \<open>text_of\<close> is the text of its errors.\<close>

definition local_exec ::
  "(exec_error \<Rightarrow> string) \<Rightarrow> 'w mcp \<Rightarrow> string \<Rightarrow> 'w \<Rightarrow> string \<Rightarrow> json_object option \<Rightarrow> 'w \<times> (string + exec_result)" where
  "local_exec text_of m dir w wire args =
     (case execute m dir w wire args of
        (w1, Inl e, _) \<Rightarrow> (w1, Inl (text_of e))
      | (w1, Inr r, _) \<Rightarrow> (w1, Inr r))"

section \<open>One call\<close>

definition newline :: char where "newline = char_of (10 :: nat)"

definition max_result_chars :: nat where "max_result_chars = 16 * 1024"

definition flatten_block :: "result_content \<Rightarrow> string" where
  "flatten_block c = (if rco_type c = ''text'' then rco_text c else rco_json c) @ [newline]"

definition flatten_result :: "exec_result \<Rightarrow> string \<times> bool" where
  "flatten_result r =
     (let s = rev (dropWhile (\<lambda>c. c = newline) (rev (concat (map flatten_block (xr_content r)))))
      in if length s > max_result_chars then (take max_result_chars s, True) else (s, False))"

definition result_event :: "tool_call \<Rightarrow> string \<Rightarrow> bool \<Rightarrow> string \<Rightarrow> agent_event" where
  "result_event tc tool is_error text =
     (blank_event EventToolResult)\<lparr>ev_call_id := tcl_id tc, ev_tool := tool, ev_is_error := is_error, ev_result := text\<rparr>"

definition class_event :: "event_type \<Rightarrow> tool_call \<Rightarrow> string \<Rightarrow> agent_event" where
  "class_event t tc wire =
     (blank_event t)\<lparr>ev_call_id := tcl_id tc, ev_tool := wire, ev_class := class_text (classify wire), ev_input := tcl_input tc\<rparr>"

definition fail_call ::
  "string \<Rightarrow> string \<Rightarrow> string \<Rightarrow> tool_call \<Rightarrow> 'w \<times> agent_event list \<Rightarrow> ('w \<times> agent_event list) \<times> tool_reply" where
  "fail_call pre tool msg tc s =
     ((fst s, snd s @ [result_event tc tool True msg]),
      \<lparr>tr_use_id = tcl_id tc, tr_content = pre @ msg, tr_is_error = True\<rparr>)"

definition no_approver_msg :: string where
  "no_approver_msg = ''tool requires approval but this session has no approver (read-only mode)''"

text \<open>The gate in front of a change tool: how a refusal is told to the model, or \<open>None\<close> when the call may run.\<close>

definition gate ::
  "'w agent_loop \<Rightarrow> string \<Rightarrow> tool_call \<Rightarrow> 'w \<times> agent_event list \<Rightarrow> ('w \<times> agent_event list) \<times> (string \<times> string) option" where
  "gate l wire tc s =
     (if classify wire \<noteq> ClassChange then (s, None)
      else case lo_approve l of
        None \<Rightarrow> (s, Some (''ERROR: '', no_approver_msg))
      | Some ask \<Rightarrow>
          (case ask (fst s) \<lparr>ar_call_id = tcl_id tc, ar_tool = wire, ar_class = classify wire, ar_input = tcl_input tc\<rparr> of
             (w1, dec, err) \<Rightarrow>
               ((w1, snd s @ [class_event EventApprovalRequired tc wire]),
                if err \<noteq> None \<or> dec \<noteq> DecisionApprove then
                  Some (''DENIED: '', case err of None \<Rightarrow> ''denied by user'' | Some e \<Rightarrow> ''approval failed: '' @ e)
                else None)))"

text \<open>A call that may run: its arguments are parsed and the executor is asked.\<close>

definition parse_input :: "'w agent_loop \<Rightarrow> bytes \<Rightarrow> string + json_object option" where
  "parse_input l inp = (if length inp > 0 then lo_parse l inp else Inr None)"

definition truncated_note :: string where
  "truncated_note = newline # ''[...result truncated...]''"

definition run_admitted :: "'w agent_loop \<Rightarrow> string \<Rightarrow> tool_call \<Rightarrow> 'w \<times> agent_event list \<Rightarrow> ('w \<times> agent_event list) \<times> tool_reply" where
  "run_admitted l wire tc s =
     (let es = snd s @ [(blank_event EventToolRunning)\<lparr>ev_call_id := tcl_id tc, ev_tool := wire\<rparr>]
      in (case parse_input l (tcl_input tc) of
            Inl e \<Rightarrow> fail_call ''ERROR: '' wire (''invalid tool arguments: '' @ e) tc (fst s, es)
          | Inr args \<Rightarrow>
              (case lo_exec l (fst s) wire args of
                 (w1, Inl e) \<Rightarrow> fail_call ''ERROR: '' wire (''tool execution failed: '' @ e) tc (w1, es)
               | (w1, Inr res) \<Rightarrow>
                   (case flatten_result res of
                      (text, truncated) \<Rightarrow>
                        ((w1, es @ [result_event tc wire (xr_is_error res) text]),
                         \<lparr>tr_use_id = tcl_id tc, tr_content = (if truncated then text @ truncated_note else text),
                          tr_is_error = xr_is_error res\<rparr>)))))"

definition run_tool_call ::
  "'w agent_loop \<Rightarrow> 'w \<times> agent_event list \<Rightarrow> tool_call \<Rightarrow> ('w \<times> agent_event list) \<times> tool_reply" where
  "run_tool_call l s tc =
     (case ct_wire (lo_catalog l) (tcl_name tc) of
        None \<Rightarrow> fail_call ''ERROR: '' (tcl_name tc) (''unknown tool '' @ lo_quote l (tcl_name tc)) tc s
      | Some wire \<Rightarrow>
          (case gate l wire tc (fst s, snd s @ [class_event EventToolCall tc wire]) of
             (s1, Some (pre, msg)) \<Rightarrow> fail_call pre wire msg tc s1
           | (s1, None) \<Rightarrow> run_admitted l wire tc s1))"

section \<open>The loop\<close>

definition default_max_iters :: nat where "default_max_iters = 8"

fun run_calls ::
  "'w agent_loop \<Rightarrow> 'w \<times> agent_event list \<Rightarrow> tool_call list \<Rightarrow> ('w \<times> agent_event list) \<times> tool_reply list" where
  "run_calls l s [] = (s, [])"
| "run_calls l s (tc # tcs) =
     (case run_tool_call l s tc of
        (s1, r) \<Rightarrow> (case run_calls l s1 tcs of (s2, rs) \<Rightarrow> (s2, r # rs)))"

definition max_iters :: "'w agent_loop \<Rightarrow> nat" where
  "max_iters l = (if lo_max_iters l \<le> 0 then default_max_iters else nat (lo_max_iters l))"

definition error_event :: "string \<Rightarrow> agent_event" where
  "error_event msg = (blank_event EventError)\<lparr>ev_text := msg\<rparr>"

definition assistant_turn :: "model_reply \<Rightarrow> turn" where
  "assistant_turn r = \<lparr>tu_role = ''assistant'', tu_text = mr_text r, tu_calls = mr_calls r, tu_results = []\<rparr>"

definition user_turn :: "string \<Rightarrow> tool_reply list \<Rightarrow> turn" where
  "user_turn text results = \<lparr>tu_role = ''user'', tu_text = text, tu_calls = [], tu_results = results\<rparr>"

text \<open>The rounds that are left; the answer is the loop's error, if any.\<close>

fun run_rounds ::
  "'w agent_loop \<Rightarrow> nat \<Rightarrow> 'w \<times> agent_event list \<Rightarrow> turn list \<Rightarrow> ('w \<times> agent_event list) \<times> string option" where
  "run_rounds l 0 (w, es) tr =
     ((w, es @ [error_event (''reached iteration cap ('' @ dec_nat (max_iters l) @ '' rounds) without a final answer'')]),
      Some (''agent: iteration cap '' @ dec_nat (max_iters l) @ '' reached''))"
| "run_rounds l (Suc n) (w, es) tr =
     (case lo_call l w (lo_system l) tr (ct_tools (lo_catalog l)) of
        (w1, Inl e) \<Rightarrow> ((w1, es @ [error_event (''model call failed: '' @ e)]), Some (''agent: model call failed: '' @ e))
      | (w1, Inr reply) \<Rightarrow>
          if length (mr_calls reply) = 0 then ((w1, es @ [(blank_event EventFinal)\<lparr>ev_text := mr_text reply\<rparr>]), None)
          else
            (case run_calls l
                    (w1, if mr_text reply \<noteq> [] then es @ [(blank_event EventText)\<lparr>ev_text := mr_text reply\<rparr>] else es)
                    (mr_calls reply) of
               (s2, results) \<Rightarrow> run_rounds l n s2 (tr @ [assistant_turn reply, user_turn [] results])))"

definition run_agent :: "'w agent_loop \<Rightarrow> 'w \<Rightarrow> string \<Rightarrow> ('w \<times> agent_event list) \<times> string option" where
  "run_agent l w prompt = run_rounds l (max_iters l) (w, []) [user_turn prompt []]"

end
