(* ===== verification/AgentService.thy ===== *)
theory AgentService
  imports Agent
begin

text \<open>
  \<open>cland/internal/agent/approvals.go\<close> and \<open>cland/cmd/minti-cland/agent_daemon.go\<close>, \<open>agent.go\<close>: the approver whose
  decisions arrive on another request, the two endpoints of the daemon, the audit trail, and the caller that puts a
  transcript into the messages format and reads the model's answer. JSON text between two structures of the code is
  taken as a faithful copy of their fields.
\<close>

section \<open>The approver\<close>

text \<open>
  A channel holds at most one decision; \<open>ap_pending\<close> is the code's map from call ids to channels. \<open>Resolve\<close> looks the
  channel up under the lock and sends outside of it, so the two are separate steps.
\<close>

record channel_approver =
  ap_pending :: "string \<rightharpoonup> nat"
  ap_channels :: "approval option list"
  ap_timeout :: duration

definition default_approval_timeout :: duration where "default_approval_timeout = 120 * second"

definition new_channel_approver :: "duration \<Rightarrow> channel_approver" where
  "new_channel_approver timeout =
     \<lparr>ap_pending = Map.empty, ap_channels = [], ap_timeout = (if timeout \<le> 0 then default_approval_timeout else timeout)\<rparr>"

datatype approval_error = ErrApprovalTimeout | ErrCancelled | ErrNoPendingApproval

definition await_begin :: "channel_approver \<Rightarrow> string \<Rightarrow> channel_approver \<times> nat" where
  "await_begin a call =
     (let ch = length (ap_channels a)
      in (a\<lparr>ap_channels := ap_channels a @ [None], ap_pending := (ap_pending a)(call \<mapsto> ch)\<rparr>, ch))"

text \<open>How the select of \<open>Await\<close> ends; a decision can be received only when one is in the channel.\<close>

datatype await_end = Received approval | TimedOut | Cancelled

definition await_ready :: "channel_approver \<Rightarrow> nat \<Rightarrow> await_end \<Rightarrow> bool" where
  "await_ready a ch e = (case e of Received d \<Rightarrow> ch < length (ap_channels a) \<and> ap_channels a ! ch = Some d | _ \<Rightarrow> True)"

definition await_result :: "await_end \<Rightarrow> approval \<times> approval_error option" where
  "await_result e =
     (case e of Received d \<Rightarrow> (d, None)
      | TimedOut \<Rightarrow> (DecisionDeny, Some ErrApprovalTimeout)
      | Cancelled \<Rightarrow> (DecisionDeny, Some ErrCancelled))"

definition await_finish :: "channel_approver \<Rightarrow> string \<Rightarrow> nat \<Rightarrow> await_end \<Rightarrow> channel_approver \<times> approval \<times> approval_error option" where
  "await_finish a call ch e =
     (let a1 = (case e of Received _ \<Rightarrow> a\<lparr>ap_channels := (ap_channels a)[ch := None]\<rparr> | _ \<Rightarrow> a)
      in (a1\<lparr>ap_pending := (ap_pending a1)(call := None)\<rparr>, await_result e))"

definition resolve_lookup :: "channel_approver \<Rightarrow> string \<Rightarrow> nat option" where
  "resolve_lookup a call = ap_pending a call"

definition resolve_send :: "channel_approver \<Rightarrow> nat \<Rightarrow> approval \<Rightarrow> channel_approver" where
  "resolve_send a ch d =
     (if ch < length (ap_channels a) \<and> ap_channels a ! ch = None then a\<lparr>ap_channels := (ap_channels a)[ch := Some d]\<rparr> else a)"

definition resolve :: "channel_approver \<Rightarrow> string \<Rightarrow> approval \<Rightarrow> channel_approver \<times> approval_error option" where
  "resolve a call d =
     (case resolve_lookup a call of
        None \<Rightarrow> (a, Some ErrNoPendingApproval)
      | Some ch \<Rightarrow> (resolve_send a ch d, None))"

section \<open>The endpoints\<close>

text \<open>\<open>as_approvers\<close> are the approvers made so far, \<open>as_pending\<close> the code's map from request ids to them.\<close>

record agent_service =
  as_default_model :: string
  as_pending :: "string \<rightharpoonup> nat"
  as_approvers :: "channel_approver list"
  as_seq :: u64

record chat_request =
  cq_message :: string
  cq_model :: string
  cq_read_only :: bool

definition request_id :: "u64 \<Rightarrow> string" where
  "request_id n = CHR ''a'' # dec_nat (unat n)"

text \<open>What a chat request that is let in runs with: its id, its model and its approver.\<close>

record chat_session =
  ch_req_id :: string
  ch_model :: string
  ch_approver :: "nat option"

definition handle_chat_start ::
  "agent_service \<Rightarrow> chat_request option \<Rightarrow> bool \<Rightarrow> catalog option \<Rightarrow> agent_service \<times> (http_status + chat_session)" where
  "handle_chat_start s body can_stream cat =
     (case body of
        None \<Rightarrow> (s, Inl 400)
      | Some q \<Rightarrow>
          if cq_message q = [] then (s, Inl 400)
          else if \<not> can_stream then (s, Inl 500)
          else if cat = None then (s, Inl 502)
          else
            let model = (if cq_model q = [] then as_default_model s else cq_model q);
                s1 = s\<lparr>as_seq := as_seq s + 1\<rparr>;
                req = request_id (as_seq s1)
            in if cq_read_only q then (s1, Inr \<lparr>ch_req_id = req, ch_model = model, ch_approver = None\<rparr>)
               else
                 let ca = length (as_approvers s1)
                 in (s1\<lparr>as_approvers := as_approvers s1 @ [new_channel_approver 0], as_pending := (as_pending s1)(req \<mapsto> ca)\<rparr>,
                     Inr \<lparr>ch_req_id = req, ch_model = model, ch_approver = Some ca\<rparr>))"

definition handle_chat_end :: "agent_service \<Rightarrow> chat_session \<Rightarrow> agent_service" where
  "handle_chat_end s c =
     (if ch_approver c = None then s else s\<lparr>as_pending := (as_pending s)(ch_req_id c := None)\<rparr>)"

record approve_request =
  aq_req_id :: string
  aq_call_id :: string
  aq_approve :: bool

definition handle_approve :: "agent_service \<Rightarrow> approve_request option \<Rightarrow> agent_service \<times> http_status" where
  "handle_approve s body =
     (case body of
        None \<Rightarrow> (s, 400)
      | Some q \<Rightarrow>
          if aq_req_id q = [] \<or> aq_call_id q = [] then (s, 400)
          else case as_pending s (aq_req_id q) of
            None \<Rightarrow> (s, 404)
          | Some ca \<Rightarrow>
              (case resolve (as_approvers s ! ca) (aq_call_id q) (if aq_approve q then DecisionApprove else DecisionDeny) of
                 (_, Some _) \<Rightarrow> (s, 409)
               | (a, None) \<Rightarrow> (s\<lparr>as_approvers := (as_approvers s)[ca := a]\<rparr>, 200)))"

section \<open>The audit trail\<close>

definition audit_of :: "agent_event \<Rightarrow> audit_event list" where
  "audit_of e =
     (case ev_type e of
        EventToolCall \<Rightarrow> [Audit (''agent:'' @ ev_tool e) ''request'' ''agent_tool_call'']
      | EventApprovalRequired \<Rightarrow> [Audit (''agent:'' @ ev_tool e) ''prompt'' ''approval_required'']
      | EventToolResult \<Rightarrow> [Audit (''agent:'' @ ev_tool e) (if ev_is_error e then ''deny'' else ''allow'') ''agent_tool_result'']
      | _ \<Rightarrow> [])"

definition stream_emit :: "string \<Rightarrow> agent_event list \<times> audit_event list \<Rightarrow> agent_event \<Rightarrow> agent_event list \<times> audit_event list" where
  "stream_emit req s e = (fst s @ [e\<lparr>ev_req_id := req\<rparr>], snd s @ audit_of e)"

section \<open>The model caller\<close>

text \<open>The content of a message: a string, blocks, or JSON null.\<close>

datatype block = TextBlock string | ToolUse string string bytes | ToolResult string string

datatype message_content = TextContent string | BlockContent "block list" | NullContent

type_synonym wire_message = "string \<times> message_content"

definition call_block :: "tool_call \<Rightarrow> block" where
  "call_block tc = ToolUse (tcl_id tc) (tcl_name tc) (if length (tcl_input tc) = 0 then [CHR 0x7B, CHR 0x7D] else tcl_input tc)"

definition turn_message :: "turn \<Rightarrow> wire_message" where
  "turn_message t =
     (if tu_role t = ''assistant'' then
        (let blocks = (if tu_text t \<noteq> [] then [TextBlock (tu_text t)] else []) @ map call_block (tu_calls t)
         in (''assistant'', if blocks = [] then NullContent else BlockContent blocks))
      else if length (tu_results t) > 0 then
        (''user'', BlockContent (map (\<lambda>r. ToolResult (tr_use_id r) (tr_content r)) (tu_results t)))
      else (''user'', TextContent (tu_text t)))"

record model_request =
  mq_model :: string
  mq_system :: string
  mq_messages :: "wire_message list"
  mq_tools :: "tool_def list"
  mq_max_tokens :: int
  mq_stream :: bool

definition model_request :: "string \<Rightarrow> string \<Rightarrow> turn list \<Rightarrow> tool_def list \<Rightarrow> model_request" where
  "model_request model system tr tools =
     \<lparr>mq_model = model, mq_system = system, mq_messages = map turn_message tr, mq_tools = tools, mq_max_tokens = 4096,
      mq_stream = False\<rparr>"

text \<open>
  The answer: content blocks and an error message, if any. A block that is neither text nor a tool use, or that does
  not decode, is \<open>None\<close>.
\<close>

datatype model_answer = Unreachable string | BadStatus http_status bytes | Undecoded string | Answer "block option list" "string option"

definition add_block :: "model_reply \<Rightarrow> block option \<Rightarrow> model_reply" where
  "add_block r b =
     (case b of
        Some (TextBlock t) \<Rightarrow> r\<lparr>mr_text := mr_text r @ t\<rparr>
      | Some (ToolUse i n inp) \<Rightarrow> r\<lparr>mr_calls := mr_calls r @ [\<lparr>tcl_id = i, tcl_name = n, tcl_input = inp\<rparr>]\<rparr>
      | _ \<Rightarrow> r)"

definition read_answer :: "(bytes \<Rightarrow> string) \<Rightarrow> model_answer \<Rightarrow> string + model_reply" where
  "read_answer trim a =
     (case a of
        Unreachable e \<Rightarrow> Inl (''call runtime: '' @ e)
      | BadStatus st raw \<Rightarrow> Inl (''model call failed ('' @ dec_nat st @ ''): '' @ trim raw)
      | Undecoded e \<Rightarrow> Inl (''decode model response: '' @ e)
      | Answer blocks err \<Rightarrow>
          (case err of Some e \<Rightarrow> Inl e | None \<Rightarrow> Inr (foldl add_block \<lparr>mr_text = [], mr_calls = []\<rparr> blocks)))"

definition call_model ::
  "(bytes \<Rightarrow> string) \<Rightarrow> ('w \<Rightarrow> model_request \<Rightarrow> 'w \<times> model_answer) \<Rightarrow> string \<Rightarrow> 'w \<Rightarrow> string \<Rightarrow> turn list \<Rightarrow> tool_def list \<Rightarrow>
     'w \<times> (string + model_reply)" where
  "call_model trim post model w system tr tools =
     (case post w (model_request model system tr tools) of (w1, a) \<Rightarrow> (w1, read_answer trim a))"

end
