(* ===== verification/AgentProps.thy ===== *)
theory AgentProps
  imports AgentService
begin

text \<open>
  What the agent loop guarantees: change tools run only after an approval of exactly that call, every run ends with one
  closing event, the model sees an answer to each of its calls; the catalog routes a name to the server that offered
  it; a decision reaches only the prompt that was open when it was looked up.
\<close>

section \<open>A loop that keeps a log\<close>

datatype action = is_called: Called "turn list" | Asked approval_request approval "string option" | Ran string "json_object option"

text \<open>The loop with its world extended by a log of what it asks the model, the approver and the executor.\<close>

definition logged :: "'w agent_loop \<Rightarrow> ('w \<times> action list) agent_loop" where
  "logged l =
     \<lparr>lo_call = (\<lambda>(w, log) sys tr tools. case lo_call l w sys tr tools of (w1, r) \<Rightarrow> ((w1, log @ [Called tr]), r)),
      lo_exec = (\<lambda>(w, log) wire args. case lo_exec l w wire args of (w1, r) \<Rightarrow> ((w1, log @ [Ran wire args]), r)),
      lo_approve = map_option (\<lambda>ask (w, log) req. case ask w req of (w1, d, e) \<Rightarrow> ((w1, log @ [Asked req d e]), d, e)) (lo_approve l),
      lo_parse = lo_parse l, lo_quote = lo_quote l, lo_catalog = lo_catalog l, lo_system = lo_system l,
      lo_max_iters = lo_max_iters l\<rparr>"

lemma logged_simps [simp]:
  "lo_parse (logged l) = lo_parse l" "lo_quote (logged l) = lo_quote l" "lo_catalog (logged l) = lo_catalog l"
  "lo_system (logged l) = lo_system l" "max_iters (logged l) = max_iters l"
  "parse_input (logged l) = parse_input l"
  "lo_call (logged l) (w, log) sys tr tools = (case lo_call l w sys tr tools of (w1, r) \<Rightarrow> ((w1, log @ [Called tr]), r))"
  "lo_exec (logged l) (w, log) wire args = (case lo_exec l w wire args of (w1, r) \<Rightarrow> ((w1, log @ [Ran wire args]), r))"
  by (simp_all add: logged_def max_iters_def parse_input_def fun_eq_iff split: prod.split)

text \<open>The two runs agree, and what is logged is a run of steps of a given kind.\<close>

definition agrees :: "(('w \<times> action list) \<times> 'e) \<times> 'r \<Rightarrow> ('w \<times> 'e) \<times> 'r \<Rightarrow> action list \<Rightarrow> action list \<Rightarrow> bool" where
  "agrees big small log added \<longleftrightarrow> big = (((fst (fst small), log @ added), snd (fst small)), snd small)"

text \<open>The logs one call can leave: nothing, a question, or a run after whatever the gate asks for.\<close>

definition shown_args :: "'w agent_loop \<Rightarrow> bytes \<Rightarrow> json_object option \<Rightarrow> bool" where
  "shown_args l inp args \<longleftrightarrow> parse_input l inp = Inr args"

definition call_log :: "'w agent_loop \<Rightarrow> action list \<Rightarrow> bool" where
  "call_log l log \<longleftrightarrow>
     log = [] \<or> (\<exists>req d e. log = [Asked req d e]) \<or>
     (\<exists>bare wire args. ct_wire (lo_catalog l) bare = Some wire \<and>
        (log = [Ran wire args] \<and> classify wire = ClassRead \<or>
         (\<exists>req. log = [Asked req DecisionApprove None, Ran wire args] \<and> ar_tool req = wire \<and> shown_args l (ar_input req) args)))"

lemma fail_call_agrees:
  "agrees (fail_call pre tool msg tc ((w, log), es)) (fail_call pre tool msg tc (w, es)) log []"
  by (simp add: fail_call_def agrees_def)

lemma gate_agrees:
  obtains (pass) es1 where "gate l wire tc (w, es) = ((w, es1), None)" "gate (logged l) wire tc ((w, log), es) = (((w, log), es1), None)"
      "classify wire = ClassRead"
  | (stop) w1 es1 r added where "gate l wire tc (w, es) = ((w1, es1), Some r)"
      "gate (logged l) wire tc ((w, log), es) = (((w1, log @ added), es1), Some r)" "added = [] \<or> (\<exists>req d e. added = [Asked req d e])"
  | (approved) w1 es1 req where "gate l wire tc (w, es) = ((w1, es1), None)"
      "gate (logged l) wire tc ((w, log), es) = (((w1, log @ [Asked req DecisionApprove None]), es1), None)"
      "ar_tool req = wire" "ar_input req = tcl_input tc"
proof (cases "classify wire")
  case ClassRead
  then show thesis using pass by (simp add: gate_def)
next
  case ClassChange
  let ?req = "\<lparr>ar_call_id = tcl_id tc, ar_tool = wire, ar_class = ClassChange, ar_input = tcl_input tc\<rparr>"
  show thesis
  proof (cases "lo_approve l")
    case None
    then have "lo_approve (logged l) = None" by (simp add: logged_def)
    with None ClassChange show thesis using stop [of w es _ "[]"] by (simp add: gate_def)
  next
    case (Some ask)
    obtain w1 d e where a: "ask w ?req = (w1, d, e)" by (cases "ask w ?req") auto
    have la: "lo_approve (logged l) = Some (\<lambda>(w, log) req. case ask w req of (w1, d, e) \<Rightarrow> ((w1, log @ [Asked req d e]), d, e))"
      using Some by (simp add: logged_def)
    show thesis
    proof (cases "e \<noteq> None \<or> d \<noteq> DecisionApprove")
      case True
      with Some ClassChange a la show thesis using stop [of w1 _ _ "[Asked ?req d e]"] by (simp add: gate_def)
    next
      case False
      with Some ClassChange a la show thesis using approved [of w1 _ ?req] by (simp add: gate_def)
    qed
  qed
qed

lemma run_admitted_agrees:
  "\<exists>added. agrees (run_admitted (logged l) wire tc ((w, log), es)) (run_admitted l wire tc (w, es)) log added \<and>
     (added = [] \<or> (\<exists>args. shown_args l (tcl_input tc) args \<and> added = [Ran wire args]))"
proof (cases "parse_input l (tcl_input tc)")
  case (Inl e)
  then show ?thesis by (intro exI [of _ "[]"]) (simp add: run_admitted_def agrees_def fail_call_def Let_def)
next
  case (Inr args)
  then have "shown_args l (tcl_input tc) args" by (simp add: shown_args_def)
  moreover obtain w1 r where "lo_exec l w wire args = (w1, r)" by (cases "lo_exec l w wire args")
  ultimately show ?thesis
    using Inr by (intro exI [of _ "[Ran wire args]"])
      (simp add: run_admitted_def agrees_def fail_call_def Let_def split: sum.split prod.split)
qed

lemma run_tool_call_agrees:
  "\<exists>added. agrees (run_tool_call (logged l) ((w, log), es) tc) (run_tool_call l (w, es) tc) log added \<and> call_log l added"
proof (cases "ct_wire (lo_catalog l) (tcl_name tc)")
  case None
  then show ?thesis
    by (intro exI [of _ "[]"]) (simp add: run_tool_call_def fail_call_def agrees_def call_log_def)
next
  case (Some wire)
  let ?es = "es @ [class_event EventToolCall tc wire]"
  show ?thesis
  proof (cases rule: gate_agrees [of l wire tc w ?es log])
    case (pass es1)
    obtain added where a: "agrees (run_admitted (logged l) wire tc ((w, log), es1)) (run_admitted l wire tc (w, es1)) log added"
        "added = [] \<or> (\<exists>args. shown_args l (tcl_input tc) args \<and> added = [Ran wire args])"
      using run_admitted_agrees [of l wire tc w log es1] by auto
    then have "call_log l added" using Some pass(3) by (auto simp: call_log_def)
    with a(1) Some pass(1,2) show ?thesis by (intro exI [of _ added]) (simp add: run_tool_call_def)
  next
    case (stop w1 es1 r added)
    have "call_log l added" using stop(3) unfolding call_log_def by blast
    with Some stop(1,2) show ?thesis
      by (intro exI [of _ added]) (simp add: run_tool_call_def fail_call_def agrees_def split: prod.split)
  next
    case (approved w1 es1 req)
    let ?ask = "Asked req DecisionApprove None"
    obtain added where a: "agrees (run_admitted (logged l) wire tc ((w1, log @ [?ask]), es1)) (run_admitted l wire tc (w1, es1)) (log @ [?ask]) added"
        "added = [] \<or> (\<exists>args. shown_args l (tcl_input tc) args \<and> added = [Ran wire args])"
      using run_admitted_agrees [of l wire tc w1 "log @ [?ask]" es1] by auto
    then have "call_log l (?ask # added)" using Some approved(3,4) by (auto simp: call_log_def)
    with a(1) Some approved(1,2) show ?thesis by (intro exI [of _ "?ask # added"]) (simp add: run_tool_call_def agrees_def)
  qed
qed

section \<open>Whole runs\<close>

lemma agrees_obtain: "agrees big small log added \<Longrightarrow> \<exists>w es r. small = ((w, es), r) \<and> big = (((w, log @ added), es), r)"
  by (cases small; cases "fst small") (simp add: agrees_def)

lemma run_calls_agrees:
  "\<exists>bursts. agrees (run_calls (logged l) ((w, log), es) tcs) (run_calls l (w, es) tcs) log (concat bursts) \<and>
     (\<forall>b\<in>set bursts. call_log l b)"
proof (induction tcs arbitrary: w log es)
  case Nil
  then show ?case by (intro exI [of _ "[]"]) (simp add: agrees_def)
next
  case (Cons tc tcs)
  from run_tool_call_agrees [of l w log es tc]
  obtain b where b: "agrees (run_tool_call (logged l) ((w, log), es) tc) (run_tool_call l (w, es) tc) log b" "call_log l b" by auto
  then obtain w1 es1 r where r: "run_tool_call l (w, es) tc = ((w1, es1), r)"
      "run_tool_call (logged l) ((w, log), es) tc = (((w1, log @ b), es1), r)"
    by (blast dest: agrees_obtain)
  obtain bs where bs: "agrees (run_calls (logged l) ((w1, log @ b), es1) tcs) (run_calls l (w1, es1) tcs) (log @ b) (concat bs)"
      "\<forall>b\<in>set bs. call_log l b" using Cons.IH [of w1 "log @ b" es1] by auto
  then show ?case using r b(2)
    by (intro exI [of _ "b # bs"]) (auto simp: agrees_def split: prod.split)
qed

text \<open>The log of the rounds: for each a call of the model, and then what its tool calls leave.\<close>

definition round_log :: "'w agent_loop \<Rightarrow> action list \<Rightarrow> bool" where
  "round_log l log \<longleftrightarrow> (\<exists>tr bursts. log = Called tr # concat bursts \<and> (\<forall>b\<in>set bursts. call_log l b))"

lemma run_rounds_agrees:
  "\<exists>rounds. agrees (run_rounds (logged l) n ((w, log), es) tr) (run_rounds l n (w, es) tr) log (concat rounds) \<and>
     length rounds \<le> n \<and> (\<forall>b\<in>set rounds. round_log l b)"
proof (induction n arbitrary: w log es tr)
  case 0
  then show ?case by (intro exI [of _ "[]"]) (simp add: agrees_def)
next
  case (Suc n)
  obtain w1 a where a: "lo_call l w (lo_system l) tr (ct_tools (lo_catalog l)) = (w1, a)" by fastforce
  have one: "round_log l [Called tr]" unfolding round_log_def by (intro exI [of _ tr] exI [of _ "[]"]) simp
  show ?case
  proof (cases a)
    case (Inl e)
    with a one show ?thesis by (intro exI [of _ "[[Called tr]]"]) (simp add: agrees_def)
  next
    case (Inr reply)
    show ?thesis
    proof (cases "mr_calls reply = []")
      case True
      with a Inr one show ?thesis by (intro exI [of _ "[[Called tr]]"]) (simp add: agrees_def)
    next
      case False
      let ?es = "if mr_text reply \<noteq> [] then es @ [(blank_event EventText)\<lparr>ev_text := mr_text reply\<rparr>] else es"
      obtain bs where bs: "agrees (run_calls (logged l) ((w1, log @ [Called tr]), ?es) (mr_calls reply)) (run_calls l (w1, ?es) (mr_calls reply)) (log @ [Called tr]) (concat bs)"
          "\<forall>b\<in>set bs. call_log l b" using run_calls_agrees [of l w1 "log @ [Called tr]" ?es "mr_calls reply"] by auto
      then obtain w2 es2 rs where r: "run_calls l (w1, ?es) (mr_calls reply) = ((w2, es2), rs)"
          "run_calls (logged l) ((w1, log @ [Called tr]), ?es) (mr_calls reply) = (((w2, log @ Called tr # concat bs), es2), rs)"
        by (fastforce dest: agrees_obtain)
      let ?tr = "tr @ [assistant_turn reply, user_turn [] rs]"
      obtain rounds where rounds: "agrees (run_rounds (logged l) n ((w2, log @ Called tr # concat bs), es2) ?tr) (run_rounds l n (w2, es2) ?tr)
            (log @ Called tr # concat bs) (concat rounds)" "length rounds \<le> n" "\<forall>b\<in>set rounds. round_log l b"
        using Suc.IH [of w2 "log @ Called tr # concat bs" es2 ?tr] by auto
      have "round_log l (Called tr # concat bs)" unfolding round_log_def using bs(2) by blast
      moreover have "run_rounds l (Suc n) (w, es) tr = run_rounds l n (w2, es2) ?tr"
        using a Inr False r(1) by simp
      moreover have "run_rounds (logged l) (Suc n) ((w, log), es) tr = run_rounds (logged l) n ((w2, log @ Called tr # concat bs), es2) ?tr"
        using a Inr False r(2) by simp
      ultimately show ?thesis using rounds
        by (intro exI [of _ "(Called tr # concat bs) # rounds"]) (simp add: agrees_def)
    qed
  qed
qed


section \<open>Approval\<close>

text \<open>Whatever ran is in the catalog, and what changes the system was asked for and approved just before.\<close>

definition approved_runs :: "'w agent_loop \<Rightarrow> action list \<Rightarrow> bool" where
  "approved_runs l log \<longleftrightarrow>
     (\<forall>before wire args after. log = before @ Ran wire args # after \<longrightarrow>
        (\<exists>bare. ct_wire (lo_catalog l) bare = Some wire) \<and>
        (classify wire = ClassChange \<longrightarrow>
          (\<exists>earlier req. before = earlier @ [Asked req DecisionApprove None] \<and> ar_tool req = wire \<and>
             parse_input l (ar_input req) = Inr args)))"

lemma approved_runs_append: "approved_runs l xs \<Longrightarrow> approved_runs l ys \<Longrightarrow> approved_runs l (xs @ ys)"
  unfolding approved_runs_def
proof (intro allI impI)
  fix before wire args after
  assume xs: "\<forall>before wire args after. xs = before @ Ran wire args # after \<longrightarrow>
        (\<exists>bare. ct_wire (lo_catalog l) bare = Some wire) \<and>
        (classify wire = ClassChange \<longrightarrow>
          (\<exists>earlier req. before = earlier @ [Asked req DecisionApprove None] \<and> ar_tool req = wire \<and>
             parse_input l (ar_input req) = Inr args))"
    and ys: "\<forall>before wire args after. ys = before @ Ran wire args # after \<longrightarrow>
        (\<exists>bare. ct_wire (lo_catalog l) bare = Some wire) \<and>
        (classify wire = ClassChange \<longrightarrow>
          (\<exists>earlier req. before = earlier @ [Asked req DecisionApprove None] \<and> ar_tool req = wire \<and>
             parse_input l (ar_input req) = Inr args))"
    and eq: "xs @ ys = before @ Ran wire args # after"
  from eq consider us where "xs = before @ Ran wire args # us" | us where "before = xs @ us" "ys = us @ Ran wire args # after"
    by (auto simp: append_eq_append_conv2 append_eq_Cons_conv Cons_eq_append_conv)
  then show "(\<exists>bare. ct_wire (lo_catalog l) bare = Some wire) \<and>
        (classify wire = ClassChange \<longrightarrow>
          (\<exists>earlier req. before = earlier @ [Asked req DecisionApprove None] \<and> ar_tool req = wire \<and>
             parse_input l (ar_input req) = Inr args))"
  proof cases
    case 1
    with xs show ?thesis by blast
  next
    case 2
    with ys show ?thesis by (metis append.assoc)
  qed
qed

lemma approved_runs_concat: "\<forall>b\<in>set bs. approved_runs l b \<Longrightarrow> approved_runs l (concat bs)"
  by (induction bs) (simp add: approved_runs_def, simp add: approved_runs_append)

lemma approved_runs_called: "approved_runs l [Called tr]"
  by (simp add: approved_runs_def append_eq_Cons_conv Cons_eq_append_conv)

lemma approved_runs_call: "call_log l b \<Longrightarrow> approved_runs l b"
  by (auto simp: call_log_def approved_runs_def shown_args_def append_eq_Cons_conv Cons_eq_append_conv)

lemma approved_runs_round: "round_log l b \<Longrightarrow> approved_runs l b"
  using approved_runs_append [OF approved_runs_called approved_runs_concat] approved_runs_call
  by (fastforce simp: round_log_def)

lemma logged_run:
  assumes "run_agent (logged l) (w, []) prompt = (((w', log), es), r)"
  shows "run_agent l w prompt = ((w', es), r)" "approved_runs l log"
    "\<exists>rounds. log = concat rounds \<and> length rounds \<le> max_iters l \<and> (\<forall>b\<in>set rounds. round_log l b)"
proof -
  obtain rounds where "agrees (run_rounds (logged l) (max_iters l) ((w, []), []) [user_turn prompt []])
      (run_rounds l (max_iters l) (w, []) [user_turn prompt []]) [] (concat rounds)"
    and rounds: "length rounds \<le> max_iters l" "\<forall>b\<in>set rounds. round_log l b"
    using run_rounds_agrees [of l "max_iters l" w "[]" "[]" "[user_turn prompt []]"] by auto
  with assms have "run_agent l w prompt = ((w', es), r) \<and> log = concat rounds"
    by (auto simp: run_agent_def agrees_def)
  with rounds show "run_agent l w prompt = ((w', es), r)" "approved_runs l log"
    "\<exists>rounds. log = concat rounds \<and> length rounds \<le> max_iters l \<and> (\<forall>b\<in>set rounds. round_log l b)"
    using approved_runs_concat approved_runs_round by blast+
qed

text \<open>C11: No system-changing tool runs without an approval of exactly that call. Whatever the model asks for, in any run
  of the loop each tool that runs is in the catalog, and when it is not on the allowlist of read tools, the very last
  thing before it was a question to the approver for that tool and those arguments, answered with an approval. The
  log does not change the run.\<close>

theorem change_tool_needs_approval:
  assumes "run_agent (logged l) (w, []) prompt = (((w', log), es), r)" "log = before @ Ran wire args # after"
  shows "run_agent l w prompt = ((w', es), r) \<and> (\<exists>bare. ct_wire (lo_catalog l) bare = Some wire) \<and>
    (wire \<notin> set read_tools \<longrightarrow>
      (\<exists>earlier req. before = earlier @ [Asked req DecisionApprove None] \<and> ar_tool req = wire \<and>
         parse_input l (ar_input req) = Inr args))"
proof -
  have "classify wire = ClassChange" if "wire \<notin> set read_tools" using that by (simp add: classify_def)
  with logged_run [OF assms(1)] assms(2) show ?thesis unfolding approved_runs_def by blast
qed


section \<open>Ends and answers\<close>

definition quiet :: "agent_event \<Rightarrow> bool" where
  "quiet e \<longleftrightarrow> ev_type e \<noteq> EventFinal \<and> ev_type e \<noteq> EventError"

definition extends_quietly :: "agent_event list \<Rightarrow> agent_event list \<Rightarrow> bool" where
  "extends_quietly es es' \<longleftrightarrow> (\<exists>added. es' = es @ added \<and> (\<forall>e\<in>set added. quiet e))"

lemma extends_refl [simp]: "extends_quietly es es"
  by (simp add: extends_quietly_def)

lemma extends_snoc: "extends_quietly es es' \<Longrightarrow> quiet e \<Longrightarrow> extends_quietly es (es' @ [e])"
  by (auto simp: extends_quietly_def)

lemma extends_here [simp]: "extends_quietly es (es @ xs) \<longleftrightarrow> (\<forall>e\<in>set xs. quiet e)"
  by (auto simp: extends_quietly_def)

lemma extends_more: "extends_quietly es es' \<Longrightarrow> \<forall>e\<in>set xs. quiet e \<Longrightarrow> extends_quietly es (es' @ xs)"
  by (auto simp: extends_quietly_def)

lemma extends_trans: "extends_quietly es es' \<Longrightarrow> extends_quietly es' es'' \<Longrightarrow> extends_quietly es es''"
  by (auto simp: extends_quietly_def)

lemma quiet_events [simp]:
  "quiet (result_event tc tool b text)" "t \<notin> {EventFinal, EventError} \<Longrightarrow> quiet (class_event t tc wire)"
  "quiet ((blank_event EventToolRunning)\<lparr>ev_call_id := i, ev_tool := wire\<rparr>)" "quiet ((blank_event EventText)\<lparr>ev_text := t'\<rparr>)"
  by (auto simp: quiet_def result_event_def class_event_def blank_event_def)

definition good_answer :: "tool_call \<Rightarrow> agent_event list \<Rightarrow> ('w \<times> agent_event list) \<times> tool_reply \<Rightarrow> bool" where
  "good_answer tc es x \<longleftrightarrow> extends_quietly es (snd (fst x)) \<and> tr_use_id (snd x) = tcl_id tc"

lemma fail_call_good: "extends_quietly es (snd s) \<Longrightarrow> good_answer tc es (fail_call pre tool msg tc s)"
  by (simp add: good_answer_def fail_call_def extends_snoc)

lemma run_admitted_good: "extends_quietly es (snd s) \<Longrightarrow> good_answer tc es (run_admitted l wire tc s)"
  by (auto simp: run_admitted_def Let_def extends_more good_answer_def fail_call_def split: sum.split prod.split)

lemma run_tool_call_good: "good_answer tc (snd s) (run_tool_call l s tc)"
proof (cases "ct_wire (lo_catalog l) (tcl_name tc)")
  case None
  then show ?thesis by (simp add: run_tool_call_def fail_call_good)
next
  case (Some wire)
  let ?s = "(fst s, snd s @ [class_event EventToolCall tc wire])"
  obtain s1 o1 where g: "gate l wire tc ?s = (s1, o1)" by fastforce
  have "extends_quietly (snd s) (snd s1)"
    using g by (auto simp: gate_def extends_snoc split: if_splits option.splits prod.splits)
  with g Some show ?thesis
    by (cases o1) (auto simp: run_tool_call_def fail_call_good run_admitted_good)
qed

lemma run_calls_good:
  "run_calls l s tcs = (s', rs) \<Longrightarrow> extends_quietly (snd s) (snd s') \<and> map tr_use_id rs = map tcl_id tcs"
proof (induction tcs arbitrary: s s' rs)
  case (Cons tc tcs)
  obtain s1 r where r: "run_tool_call l s tc = (s1, r)" by fastforce
  with run_tool_call_good [of tc s l] have "extends_quietly (snd s) (snd s1)" "tr_use_id r = tcl_id tc"
    by (simp_all add: good_answer_def)
  moreover obtain s2 rs2 where r2: "run_calls l s1 tcs = (s2, rs2)" by fastforce
  moreover note Cons.IH [OF r2]
  ultimately show ?case using Cons.prems r extends_trans by fastforce
qed simp

lemma run_rounds_end:
  "run_rounds l n (w, es) tr = ((w', es'), r) \<Longrightarrow>
     \<exists>mid e. es' = mid @ [e] \<and> extends_quietly es mid \<and> ev_type e = (if r = None then EventFinal else EventError)"
proof (induction n arbitrary: w es tr)
  case 0
  then show ?case by (intro exI [of _ es]) (auto simp: error_event_def blank_event_def)
next
  case (Suc n)
  obtain w1 a where a: "lo_call l w (lo_system l) tr (ct_tools (lo_catalog l)) = (w1, a)" by fastforce
  show ?case
  proof (cases a)
    case (Inl e)
    with a Suc.prems show ?thesis by (intro exI [of _ es]) (auto simp: error_event_def blank_event_def)
  next
    case (Inr reply)
    show ?thesis
    proof (cases "mr_calls reply = []")
      case True
      with a Inr Suc.prems show ?thesis by (intro exI [of _ es]) (auto simp: blank_event_def)
    next
      case False
      let ?es = "if mr_text reply \<noteq> [] then es @ [(blank_event EventText)\<lparr>ev_text := mr_text reply\<rparr>] else es"
      obtain w2 es2 rs where r: "run_calls l (w1, ?es) (mr_calls reply) = ((w2, es2), rs)" by (metis prod.exhaust)
      have "run_rounds l n (w2, es2) (tr @ [assistant_turn reply, user_turn [] rs]) = ((w', es'), r)"
        using Suc.prems a Inr False r by simp
      from Suc.IH [OF this] obtain mid e where m: "es' = mid @ [e]" "extends_quietly es2 mid"
          "ev_type e = (if r = None then EventFinal else EventError)" by blast
      have "extends_quietly es ?es" by (simp add: extends_snoc)
      then have "extends_quietly es mid" using run_calls_good [OF r] m(2) extends_trans by (metis snd_conv)
      with m show ?thesis by blast
    qed
  qed
qed

lemma called_count:
  "call_log l b \<Longrightarrow> filter is_called b = []"
  by (auto simp: call_log_def)

lemma round_called: "round_log l b \<Longrightarrow> length (filter is_called b) = 1"
proof -
  assume "round_log l b"
  then obtain tr bs where b: "b = Called tr # concat bs" "\<forall>b\<in>set bs. call_log l b" unfolding round_log_def by blast
  from b(2) have "filter is_called (concat bs) = []"
    by (induction bs) (auto dest: called_count)
  with b(1) show ?thesis by simp
qed

text \<open>C22: Every run ends. The loop asks the model at most as often as its cap says (8 times by default) and closes the
  stream with exactly one event: the final answer when it succeeds, an error when it fails.\<close>

theorem agent_run_ends:
  assumes "run_agent (logged l) (w, []) prompt = (((w', log), es), r)"
  shows "length (filter is_called log) \<le> max_iters l \<and>
    (\<exists>mid e. es = mid @ [e] \<and> (\<forall>x\<in>set mid. ev_type x \<noteq> EventFinal \<and> ev_type x \<noteq> EventError) \<and>
       ev_type e = (if r = None then EventFinal else EventError))"
proof
  from logged_run(3) [OF assms] obtain rounds where r: "log = concat rounds" "length rounds \<le> max_iters l"
      "\<forall>b\<in>set rounds. round_log l b" by blast
  from r(3) have "length (filter is_called (concat rounds)) = length rounds"
    by (induction rounds) (auto dest: round_called)
  with r show "length (filter is_called log) \<le> max_iters l" by simp
  have "run_rounds l (max_iters l) (w, []) [user_turn prompt []] = ((w', es), r)"
    using logged_run(1) [OF assms] by (simp add: run_agent_def)
  from run_rounds_end [OF this] show "\<exists>mid e. es = mid @ [e] \<and>
      (\<forall>x\<in>set mid. ev_type x \<noteq> EventFinal \<and> ev_type x \<noteq> EventError) \<and> ev_type e = (if r = None then EventFinal else EventError)"
    by (fastforce simp: extends_quietly_def quiet_def)
qed

text \<open>A transcript: the prompt, and then pairs of an assistant turn with calls and a user turn with one result for each.\<close>

fun answered :: "turn list \<Rightarrow> bool" where
  "answered [] \<longleftrightarrow> True"
| "answered [a] \<longleftrightarrow> False"
| "answered (a # u # ts) \<longleftrightarrow>
     (\<exists>reply results. a = assistant_turn reply \<and> mr_calls reply \<noteq> [] \<and> u = user_turn [] results \<and>
        map tr_use_id results = map tcl_id (mr_calls reply)) \<and> answered ts"

lemma answered_append: "answered ts \<Longrightarrow> answered us \<Longrightarrow> answered (ts @ us)"
  by (induction ts rule: answered.induct) auto

lemma run_rounds_transcripts:
  "run_rounds (logged l) n ((w, log), es) tr = (((w', log'), es'), r) \<Longrightarrow> tr = user_turn prompt [] # ts \<Longrightarrow> answered ts \<Longrightarrow>
     Called t \<in> set log' \<Longrightarrow> Called t \<in> set log \<or> (\<exists>ts'. t = user_turn prompt [] # ts' \<and> answered ts')"
proof (induction n arbitrary: w log es tr ts)
  case 0
  then show ?case by simp
next
  case (Suc n)
  obtain w1 a where a: "lo_call l w (lo_system l) tr (ct_tools (lo_catalog l)) = (w1, a)" by fastforce
  show ?case
  proof (cases a)
    case (Inl e)
    with a Suc.prems show ?thesis by auto
  next
    case (Inr reply)
    show ?thesis
    proof (cases "mr_calls reply = []")
      case True
      with a Inr Suc.prems show ?thesis by auto
    next
      case False
      let ?es = "if mr_text reply \<noteq> [] then es @ [(blank_event EventText)\<lparr>ev_text := mr_text reply\<rparr>] else es"
      obtain w2 log2 es2 rs where r: "run_calls (logged l) ((w1, log @ [Called tr]), ?es) (mr_calls reply) = (((w2, log2), es2), rs)"
        by (metis prod.exhaust)
      from run_calls_agrees [of l w1 "log @ [Called tr]" ?es "mr_calls reply"] r
      obtain bs where bs: "log2 = log @ [Called tr] @ concat bs" "\<forall>b\<in>set bs. call_log l b" by (auto simp: agrees_def)
      have "Called t \<notin> set (concat bs)" using bs(2) called_count by (fastforce simp: filter_empty_conv)
      with bs(1) have old: "Called t \<in> set log2 \<Longrightarrow> Called t \<in> set log \<or> t = tr" by auto
      let ?ts = "ts @ [assistant_turn reply, user_turn [] rs]"
      have "run_rounds (logged l) n ((w2, log2), es2) (user_turn prompt [] # ?ts) = (((w', log'), es'), r)"
        using Suc.prems(1,2) a Inr False r by simp
      moreover have "answered ?ts"
        using run_calls_good [OF r] False by (intro answered_append [OF Suc.prems(3)]) auto
      ultimately show ?thesis using Suc.IH [of w2 log2 es2 _ ?ts] Suc.prems(2-4) old by blast
    qed
  qed
qed

text \<open>The model sees an answer to each of its calls. Every transcript handed to it is the prompt followed by pairs of
  its own turn with tool calls and a turn with exactly one result per call, in the same order and with the same ids.\<close>

theorem every_call_is_answered:
  assumes "run_agent (logged l) (w, []) prompt = (((w', log), es), r)" "Called t \<in> set log"
  shows "\<exists>ts. t = user_turn prompt [] # ts \<and> answered ts"
  using run_rounds_transcripts [of l "max_iters l" w "[]" "[]" "[user_turn prompt []]" w' log es r prompt "[]" t] assms
  by (simp add: run_agent_def)


section \<open>A run\<close>

definition exec_call :: tool_call where
  "exec_call = \<lparr>tcl_id = ''exec_0'', tcl_name = ''exec'', tcl_input = ''x''\<rparr>"

definition sample_loop :: "nat agent_loop" where
  "sample_loop =
     \<lparr>lo_call = (\<lambda>w sys tr tools. (w + 1, Inr (if w = 0 then \<lparr>mr_text = [], mr_calls = [exec_call]\<rparr> else \<lparr>mr_text = ''ok'', mr_calls = []\<rparr>))),
      lo_exec = (\<lambda>w wire args. (w, Inl ''no'')), lo_approve = Some (\<lambda>w req. (w, DecisionApprove, None)),
      lo_parse = (\<lambda>b. Inr None), lo_quote = (\<lambda>s. s),
      lo_catalog = \<lparr>ct_tools = [], ct_wire = [''exec'' \<mapsto> ''mcp-shell.exec'']\<rparr>, lo_system = [], lo_max_iters = 2\<rparr>"

definition sample_request :: approval_request where
  "sample_request = \<lparr>ar_call_id = ''exec_0'', ar_tool = ''mcp-shell.exec'', ar_class = ClassChange, ar_input = ''x''\<rparr>"

definition sample_result :: tool_reply where
  "sample_result = \<lparr>tr_use_id = ''exec_0'', tr_content = ''ERROR: tool execution failed: no'', tr_is_error = True\<rparr>"

lemma sample_log:
  "\<exists>es. run_agent (logged sample_loop) (0, []) ''p'' =
     (((2, [Called [user_turn ''p'' []], Asked sample_request DecisionApprove None] @ Ran ''mcp-shell.exec'' None #
        [Called [user_turn ''p'' [], assistant_turn \<lparr>mr_text = [], mr_calls = [exec_call]\<rparr>, user_turn [] [sample_result]]]), es), None)"
  by (intro exI) code_simp


theorem change_tool_needs_approval_witness:
  "\<exists>earlier req. [Called [user_turn ''p'' []], Asked sample_request DecisionApprove None] = earlier @ [Asked req DecisionApprove None] \<and>
     ar_tool req = ''mcp-shell.exec'' \<and> parse_input sample_loop (ar_input req) = Inr None"
proof -
  from sample_log obtain es where run: "run_agent (logged sample_loop) (0, []) ''p'' =
     (((2, [Called [user_turn ''p'' []], Asked sample_request DecisionApprove None] @ Ran ''mcp-shell.exec'' None #
        [Called [user_turn ''p'' [], assistant_turn \<lparr>mr_text = [], mr_calls = [exec_call]\<rparr>, user_turn [] [sample_result]]]), es), None)" ..
  have "''mcp-shell.exec'' \<notin> set read_tools" by (simp add: read_tools_def)
  with change_tool_needs_approval [OF run refl] show ?thesis by blast
qed

theorem agent_run_ends_witness:
  "\<exists>es. snd (run_agent (logged sample_loop) (0, []) ''p'') = None \<and> snd (fst (run_agent (logged sample_loop) (0, []) ''p'')) = es \<and>
     (\<exists>mid e. es = mid @ [e] \<and> ev_type e = EventFinal)"
proof -
  from sample_log obtain log es where run: "run_agent (logged sample_loop) (0, []) ''p'' = (((2, log), es), None)" by blast
  from agent_run_ends [OF run] run show ?thesis by auto
qed

theorem every_call_is_answered_witness:
  "answered [assistant_turn \<lparr>mr_text = [], mr_calls = [exec_call]\<rparr>, user_turn [] [sample_result]]"
proof -
  let ?t = "[user_turn ''p'' [], assistant_turn \<lparr>mr_text = [], mr_calls = [exec_call]\<rparr>, user_turn [] [sample_result]]"
  from sample_log obtain es where run: "run_agent (logged sample_loop) (0, []) ''p'' =
     (((2, [Called [user_turn ''p'' []], Asked sample_request DecisionApprove None] @ Ran ''mcp-shell.exec'' None # [Called ?t]), es), None)" ..
  have "Called ?t \<in> set ([Called [user_turn ''p'' []], Asked sample_request DecisionApprove None] @ Ran ''mcp-shell.exec'' None # [Called ?t])"
    by simp
  from every_call_is_answered [OF run this] show ?thesis by blast
qed

end
