(* ===== verification/ApprovalProps.thy ===== *)
theory ApprovalProps
  imports AgentProps
begin

text \<open>
  The catalog routes a bare tool name to the server that offered it; a decision of the approver belongs to the prompt
  that was open when its request was looked up, but not to the tool call its sender saw.
\<close>

section \<open>The catalog\<close>

definition catalog_ok :: "(string \<Rightarrow> bool) option \<Rightarrow> string set \<Rightarrow> catalog \<Rightarrow> bool" where
  "catalog_ok keep nss c \<longleftrightarrow>
     (\<forall>bare wire. ct_wire c bare = Some wire \<longrightarrow>
        (\<exists>ns\<in>nss. wire = wire_name ns bare) \<and> (\<forall>f. keep = Some f \<longrightarrow> f wire)) \<and>
     dom (ct_wire c) = set (map td_name (ct_tools c)) \<and> distinct (map td_name (ct_tools c))"

lemma add_schemas_ok: "add_schemas keep ns c ss = Some c' \<Longrightarrow> catalog_ok keep nss c \<Longrightarrow> ns \<in> nss \<Longrightarrow> catalog_ok keep nss c'"
proof (induction ss arbitrary: c)
  case (Cons s ss)
  show ?case
  proof (cases "case keep of None \<Rightarrow> False | Some f \<Rightarrow> \<not> f (wire_name ns (ts_name s))")
    case True
    with Cons show ?thesis by (simp add: Let_def)
  next
    case False
    let ?c = "c\<lparr>ct_wire := (ct_wire c)(ts_name s \<mapsto> wire_name ns (ts_name s)),
      ct_tools := ct_tools c @ [\<lparr>td_name = ts_name s, td_description = ts_description s, td_schema = ts_schema s\<rparr>]\<rparr>"
    have new: "ts_name s \<notin> dom (ct_wire c)" and c': "add_schemas keep ns ?c ss = Some c'"
      using Cons.prems(1) False by (auto simp: Let_def split: if_split_asm)
    have "\<forall>f. keep = Some f \<longrightarrow> f (wire_name ns (ts_name s))" using False by auto
    with Cons.prems(2,3) new have "catalog_ok keep nss ?c" unfolding catalog_ok_def by auto
    with Cons.IH [OF c'] Cons.prems(3) show ?thesis by blast
  qed
qed simp

lemma build_from_ok: "build_from lister keep w c ns = (w', Some c') \<Longrightarrow> catalog_ok keep nss c \<Longrightarrow> set ns \<subseteq> nss \<Longrightarrow> catalog_ok keep nss c'"
proof (induction ns arbitrary: w c)
  case (Cons n ns)
  then show ?case
    using add_schemas_ok [of keep n c _ _ nss] by (force split: prod.splits sum.splits option.splits)
qed simp

lemma namespace_word: "ns \<in> set known_namespaces \<Longrightarrow> CHR ''.'' \<notin> set ns \<and> ns \<noteq> []"
  by (auto simp: known_namespaces_def)

lemma wire_resolves:
  assumes "ns \<in> set known_namespaces" "bare \<noteq> []" "dir \<noteq> []"
  shows "resolve_binary dir (wire_name ns bare) = Inr (''minti-'' @ ns, bare, path_join dir (''minti-'' @ ns))"
proof -
  note ns = namespace_word [OF assms(1)]
  have "takeWhile (\<lambda>c. c \<noteq> CHR ''.'') (ns @ CHR ''.'' # bare) = ns" "dropWhile (\<lambda>c. c \<noteq> CHR ''.'') (ns @ CHR ''.'' # bare) = CHR ''.'' # bare"
    using ns by (subst takeWhile_append2, auto, subst dropWhile_append2, auto)
  with ns assms show ?thesis by (simp add: resolve_binary_def resolve_server_binary_def wire_name_def Let_def)
qed


definition two_servers :: "unit \<Rightarrow> string \<Rightarrow> unit \<times> (exec_error + tool_schema list)" where
  "two_servers u ns =
     (u, if ns = ''mcp-fs'' then Inr [\<lparr>ts_name = ''glob'', ts_description = [], ts_schema = []\<rparr>]
         else if ns = ''mcp-shell'' then Inr [\<lparr>ts_name = ''exec'', ts_description = [], ts_schema = []\<rparr>]
         else Inl SpawnFailed)"

lemma two_servers_catalog:
  "build_catalog two_servers None () = ((), Some \<lparr>ct_tools = [\<lparr>td_name = ''glob'', td_description = [], td_schema = []\<rparr>,
     \<lparr>td_name = ''exec'', td_description = [], td_schema = []\<rparr>], ct_wire = [''glob'' \<mapsto> ''mcp-fs.glob'', ''exec'' \<mapsto> ''mcp-shell.exec'']\<rparr>)"
  by (simp add: build_catalog_def known_namespaces_def two_servers_def wire_name_def)


section \<open>The approver\<close>

text \<open>
  One request: the loop waits for at most one call at a time, requests that resolve a call come at any time. The
  history records each prompt, each lookup and each decision, with the channel it concerns.
\<close>

datatype approver_action = Prompted nat string | LookedUp nat string approval | Decided nat string approval "approval_error option"

record approver_run =
  rn_approver :: channel_approver
  rn_waiting :: "(string \<times> nat) option"
  rn_inflight :: "(nat \<times> approval) list"
  rn_log :: "approver_action list"

inductive approver_step :: "approver_run \<Rightarrow> approver_run \<Rightarrow> bool" where
  prompt: "rn_waiting r = None \<Longrightarrow> await_begin (rn_approver r) c = (a, ch) \<Longrightarrow>
    approver_step r (r\<lparr>rn_approver := a, rn_waiting := Some (c, ch), rn_log := rn_log r @ [Prompted ch c]\<rparr>)"
| look: "resolve_lookup (rn_approver r) c = Some ch \<Longrightarrow>
    approver_step r (r\<lparr>rn_inflight := rn_inflight r @ [(ch, d)], rn_log := rn_log r @ [LookedUp ch c d]\<rparr>)"
| send: "rn_inflight r = xs @ (ch, d) # ys \<Longrightarrow>
    approver_step r (r\<lparr>rn_approver := resolve_send (rn_approver r) ch d, rn_inflight := xs @ ys\<rparr>)"
| finish: "rn_waiting r = Some (c, ch) \<Longrightarrow> await_ready (rn_approver r) ch e \<Longrightarrow> await_finish (rn_approver r) c ch e = (a, d, err) \<Longrightarrow>
    approver_step r (r\<lparr>rn_approver := a, rn_waiting := None, rn_log := rn_log r @ [Decided ch c d err]\<rparr>)"

inductive_cases approver_step_cases: "approver_step r r'"

text \<open>A decision for channel \<open>ch\<close> was looked up after the prompt it was opened for.\<close>

definition asked_for :: "approver_action list \<Rightarrow> nat \<Rightarrow> approval \<Rightarrow> bool" where
  "asked_for log ch d \<longleftrightarrow> (\<exists>xs c ys zs. log = xs @ Prompted ch c # ys @ LookedUp ch c d # zs)"

lemma asked_for_append: "asked_for log ch d \<Longrightarrow> asked_for (log @ added) ch d"
  unfolding asked_for_def by (metis append.assoc append_Cons)

text \<open>Every approval in the history was looked up for its own prompt before.\<close>

definition decisions_ok :: "approver_action list \<Rightarrow> bool" where
  "decisions_ok log \<longleftrightarrow>
     (\<forall>xs ch c ys. log = xs @ Decided ch c DecisionApprove None # ys \<longrightarrow>
        (\<exists>as bs zs. xs = as @ Prompted ch c # bs @ LookedUp ch c DecisionApprove # zs))"

lemma decisions_ok_snoc:
  "decisions_ok log \<Longrightarrow> \<forall>ch c. a = Decided ch c DecisionApprove None \<longrightarrow>
     (\<exists>as bs zs. log = as @ Prompted ch c # bs @ LookedUp ch c DecisionApprove # zs) \<Longrightarrow> decisions_ok (log @ [a])"
  unfolding decisions_ok_def
proof (intro allI impI)
  fix xs ch c ys
  assume old: "\<forall>xs ch c ys. log = xs @ Decided ch c DecisionApprove None # ys \<longrightarrow>
        (\<exists>as bs zs. xs = as @ Prompted ch c # bs @ LookedUp ch c DecisionApprove # zs)"
    and new: "\<forall>ch c. a = Decided ch c DecisionApprove None \<longrightarrow>
        (\<exists>as bs zs. log = as @ Prompted ch c # bs @ LookedUp ch c DecisionApprove # zs)"
    and eq: "log @ [a] = xs @ Decided ch c DecisionApprove None # ys"
  show "\<exists>as bs zs. xs = as @ Prompted ch c # bs @ LookedUp ch c DecisionApprove # zs"
  proof (cases ys rule: rev_cases)
    case Nil
    with eq new show ?thesis by simp
  next
    case (snoc ys' y)
    with eq have "log = xs @ Decided ch c DecisionApprove None # ys'" by simp
    with old show ?thesis by blast
  qed
qed

definition prompts_ok :: "approver_run \<Rightarrow> bool" where
  "prompts_ok r \<longleftrightarrow>
     (\<forall>ch c. Prompted ch c \<in> set (rn_log r) \<longrightarrow> ch < length (ap_channels (rn_approver r))) \<and>
     (\<forall>ch c c'. Prompted ch c \<in> set (rn_log r) \<and> Prompted ch c' \<in> set (rn_log r) \<longrightarrow> c = c') \<and>
     (\<forall>c ch. ap_pending (rn_approver r) c = Some ch \<longrightarrow> Prompted ch c \<in> set (rn_log r)) \<and>
     (\<forall>c ch. rn_waiting r = Some (c, ch) \<longrightarrow> Prompted ch c \<in> set (rn_log r))"

definition sends_ok :: "approver_run \<Rightarrow> bool" where
  "sends_ok r \<longleftrightarrow>
     (\<forall>ch d. (ch, d) \<in> set (rn_inflight r) \<longrightarrow> asked_for (rn_log r) ch d) \<and>
     (\<forall>ch d. ch < length (ap_channels (rn_approver r)) \<and> ap_channels (rn_approver r) ! ch = Some d \<longrightarrow> asked_for (rn_log r) ch d)"

lemmas approver_defs = prompts_ok_def sends_ok_def await_begin_def await_finish_def await_ready_def await_result_def
  resolve_lookup_def resolve_send_def

lemma prompts_step: "approver_step r r' \<Longrightarrow> prompts_ok r \<Longrightarrow> prompts_ok r'"
proof (induction rule: approver_step.induct)
  case (prompt r c a ch)
  then have "ch = length (ap_channels (rn_approver r))" "ap_channels a = ap_channels (rn_approver r) @ [None]"
    "ap_pending a = (ap_pending (rn_approver r))(c \<mapsto> ch)" by (auto simp: await_begin_def Let_def)
  with prompt show ?case unfolding prompts_ok_def by (fastforce split: if_splits)
next
  case (look r c ch d)
  then show ?case by (simp add: prompts_ok_def)
next
  case (send r xs ch d ys)
  then show ?case by (simp add: prompts_ok_def resolve_send_def)
next
  case (finish r c ch e a d err)
  then have "length (ap_channels a) = length (ap_channels (rn_approver r))" "ap_pending a \<subseteq>\<^sub>m ap_pending (rn_approver r)"
    by (auto simp: await_finish_def Let_def map_le_def split: await_end.splits if_splits)
  then show ?case using finish(4) unfolding prompts_ok_def map_le_def by (auto simp: dom_def)
qed

lemma asked_for_snoc: "Prompted ch c \<in> set log \<Longrightarrow> asked_for (log @ [LookedUp ch c d]) ch d"
proof -
  assume "Prompted ch c \<in> set log"
  then obtain ys zs where "log = ys @ Prompted ch c # zs" by (auto simp: in_set_conv_decomp)
  then show ?thesis unfolding asked_for_def
    by (intro exI [of _ ys] exI [of _ c] exI [of _ zs] exI [of _ "[]"]) simp
qed

lemma sends_step: "approver_step r r' \<Longrightarrow> prompts_ok r \<Longrightarrow> sends_ok r \<Longrightarrow> sends_ok r'"
proof (induction rule: approver_step.induct)
  case (prompt r c a ch)
  then have "ap_channels a = ap_channels (rn_approver r) @ [None]" by (auto simp: await_begin_def Let_def)
  with prompt show ?case unfolding sends_ok_def by (auto simp: asked_for_append nth_append)
next
  case (look r c ch d)
  then have "Prompted ch c \<in> set (rn_log r)" by (simp add: prompts_ok_def resolve_lookup_def)
  with look asked_for_snoc show ?case unfolding sends_ok_def by (auto simp: asked_for_append)
next
  case (send r xs ch d ys)
  then show ?case unfolding sends_ok_def by (auto simp: resolve_send_def nth_list_update)
next
  case (finish r c ch e a d err)
  then have "ap_channels a = ap_channels (rn_approver r) \<or> ap_channels a = (ap_channels (rn_approver r))[ch := None]"
    by (auto simp: await_finish_def Let_def split: await_end.splits)
  moreover have "asked_for (rn_log r) k f"
    if "k < length (ap_channels a)" "ap_channels a ! k = Some f" for k f
    using that finish(5) calculation by (cases "k = ch") (auto simp: sends_ok_def)
  ultimately show ?case using finish(5) unfolding sends_ok_def by (auto simp: asked_for_append)
qed

lemma decisions_step: "approver_step r r' \<Longrightarrow> prompts_ok r \<Longrightarrow> sends_ok r \<Longrightarrow> decisions_ok (rn_log r) \<Longrightarrow> decisions_ok (rn_log r')"
proof (induction rule: approver_step.induct)
  case (finish r c ch e a d err)
  have "\<exists>as bs zs. rn_log r = as @ Prompted ch c # bs @ LookedUp ch c DecisionApprove # zs" if "d = DecisionApprove" "err = None"
  proof -
    from that finish(2,3) have "ch < length (ap_channels (rn_approver r))" "ap_channels (rn_approver r) ! ch = Some DecisionApprove"
      by (auto simp: await_finish_def await_result_def await_ready_def Let_def split: await_end.splits)
    with finish(5) have "asked_for (rn_log r) ch DecisionApprove" by (simp add: sends_ok_def)
    then obtain xs c' ys zs where l: "rn_log r = xs @ Prompted ch c' # ys @ LookedUp ch c' DecisionApprove # zs"
      unfolding asked_for_def by blast
    moreover have "c' = c" using finish(1,4) l unfolding prompts_ok_def by (metis in_set_conv_decomp)
    ultimately show ?thesis by blast
  qed
  then show ?case using decisions_ok_snoc [OF finish(6), of "Decided ch c d err"] by simp
qed (auto intro: decisions_ok_snoc)

text \<open>An approval counts for the prompt it was sent to. Over any interleaving of prompts, timeouts and requests that
  resolve calls, whenever a wait ends with an approval, a request that approves this call id was looked up after this
  very prompt was opened: a decision sent before the prompt, or for another call id, never lets it through.\<close>

theorem approval_follows_prompt:
  assumes "approver_step\<^sup>*\<^sup>* r r'" "rn_approver r = new_channel_approver timeout" "rn_waiting r = None" "rn_inflight r = []" "rn_log r = []"
    and "rn_log r' = xs @ Decided ch c DecisionApprove None # ys"
  shows "\<exists>as bs zs. xs = as @ Prompted ch c # bs @ LookedUp ch c DecisionApprove # zs"
proof -
  have "prompts_ok r \<and> sends_ok r \<and> decisions_ok (rn_log r)"
    using assms(2-5) by (simp add: prompts_ok_def sends_ok_def decisions_ok_def new_channel_approver_def)
  with assms(1) have "prompts_ok r' \<and> sends_ok r' \<and> decisions_ok (rn_log r')"
    by induction (auto dest: prompts_step sends_step decisions_step)
  with assms(6) show ?thesis unfolding decisions_ok_def by blast
qed


definition fresh_run :: approver_run where
  "fresh_run = \<lparr>rn_approver = new_channel_approver 0, rn_waiting = None, rn_inflight = [], rn_log = []\<rparr>"

lemma sample_approval:
  "\<exists>r'. approver_step\<^sup>*\<^sup>* fresh_run r' \<and>
     rn_log r' = [Prompted 0 ''c'', LookedUp 0 ''c'' DecisionApprove] @ Decided 0 ''c'' DecisionApprove None # []"
proof -
  let ?a1 = "fst (await_begin (new_channel_approver 0) ''c'')"
  let ?r1 = "\<lparr>rn_approver = ?a1, rn_waiting = Some (''c'', 0), rn_inflight = [], rn_log = [Prompted 0 ''c'']\<rparr>"
  let ?r2 = "?r1\<lparr>rn_inflight := [(0, DecisionApprove)], rn_log := [Prompted 0 ''c'', LookedUp 0 ''c'' DecisionApprove]\<rparr>"
  let ?r3 = "?r2\<lparr>rn_approver := resolve_send ?a1 0 DecisionApprove, rn_inflight := []\<rparr>"
  let ?r4 = "?r3\<lparr>rn_approver := fst (await_finish (resolve_send ?a1 0 DecisionApprove) ''c'' 0 (Received DecisionApprove)), rn_waiting := None,
    rn_log := [Prompted 0 ''c'', LookedUp 0 ''c'' DecisionApprove, Decided 0 ''c'' DecisionApprove None]\<rparr>"
  have "approver_step fresh_run ?r1"
    using prompt [of fresh_run "''c''" ?a1 0] by (simp add: fresh_run_def await_begin_def new_channel_approver_def)
  moreover have "approver_step ?r1 ?r2"
    using look [of ?r1 "''c''" 0 DecisionApprove] by (simp add: resolve_lookup_def await_begin_def new_channel_approver_def)
  moreover have "approver_step ?r2 ?r3"
    using send [of ?r2 "[]" 0 DecisionApprove "[]"] by simp
  moreover have "approver_step ?r3 ?r4"
    using finish [of ?r3 "''c''" 0 "Received DecisionApprove"]
    by (simp add: approver_defs new_channel_approver_def)
  ultimately have "approver_step\<^sup>*\<^sup>* fresh_run ?r4" by (meson converse_rtranclp_into_rtranclp rtranclp.rtrancl_refl)
  then show ?thesis by (intro exI [of _ ?r4]) simp
qed

theorem approval_follows_prompt_witness:
  "\<exists>as bs zs. [Prompted 0 ''c'', LookedUp 0 ''c'' DecisionApprove] = as @ Prompted 0 ''c'' # bs @ LookedUp 0 ''c'' DecisionApprove # zs"
proof -
  from sample_approval obtain r' where r: "approver_step\<^sup>*\<^sup>* fresh_run r'"
    "rn_log r' = [Prompted 0 ''c'', LookedUp 0 ''c'' DecisionApprove] @ Decided 0 ''c'' DecisionApprove None # []" by blast
  from approval_follows_prompt [OF r(1) _ _ _ _ r(2)] show ?thesis by (simp add: fresh_run_def)
qed

end
