(* ===== verification/Runtime.thy ===== *)
theory Runtime
  imports AgentService
begin

text \<open>
  \<open>runtime-adapter\<close>: the Ollama backend (\<open>backend/ollama.go\<close>), the choice of a default model (\<open>server/server.go\<close>), the
  OpenAI, Ollama and Anthropic front ends (\<open>server/chat.go\<close>, \<open>server/messages.go\<close>) and their streams. A JSON body is
  the value the decoder gives; floating-point settings are kept as their JSON text, the duration of an answer is left
  out. A stream to a client that goes away is one with room for so many events.
\<close>

section \<open>Backend data\<close>

record backend_call =
  bc_id :: string
  bc_name :: string
  bc_input :: bytes

record backend_message =
  bm_role :: string
  bm_content :: string
  bm_calls :: "backend_call list"
  bm_call_id :: string

record backend_request =
  br_model :: string
  br_messages :: "backend_message list"
  br_tools :: "tool_def list"
  br_temperature :: "string option"
  br_top_p :: "string option"
  br_max_tokens :: "int option"
  br_stream :: bool

record chat_response =
  cr_model :: string
  cr_content :: string
  cr_calls :: "backend_call list"
  cr_prompt_tokens :: int
  cr_completion_tokens :: int
  cr_finish_reason :: string

record stream_chunk =
  sk_delta :: string
  sk_calls :: "backend_call list"
  sk_done :: bool
  sk_finish_reason :: string
  sk_prompt_tokens :: int
  sk_completion_tokens :: int

section \<open>Ollama\<close>

record ollama_call =
  oc_name :: string
  oc_arguments :: bytes

record ollama_message =
  om_role :: string
  om_content :: string
  om_calls :: "ollama_call list"

record ollama_request =
  oq_model :: string
  oq_messages :: "ollama_message list"
  oq_tools :: "tool_def list"
  oq_stream :: bool
  oq_options :: "(string \<times> string) list option"

record ollama_response =
  or_model :: string
  or_message :: ollama_message
  or_done :: bool
  or_done_reason :: string
  or_prompt_count :: int
  or_eval_count :: int

definition to_ollama_messages :: "backend_message list \<Rightarrow> ollama_message list" where
  "to_ollama_messages ms =
     map (\<lambda>m. \<lparr>om_role = bm_role m, om_content = bm_content m,
       om_calls = map (\<lambda>c. \<lparr>oc_name = bc_name c, oc_arguments = bc_input c\<rparr>) (bm_calls m)\<rparr>) ms"

definition from_ollama_calls :: "ollama_call list \<Rightarrow> backend_call list" where
  "from_ollama_calls cs =
     map (\<lambda>(i, c). \<lparr>bc_id = oc_name c @ CHR ''_'' # dec_nat i, bc_name = oc_name c, bc_input = oc_arguments c\<rparr>)
       (zip [0..<length cs] cs)"

definition build_options :: "backend_request \<Rightarrow> (string \<times> string) list option" where
  "build_options r =
     (let opts = (case br_temperature r of None \<Rightarrow> [] | Some t \<Rightarrow> [(''temperature'', t)])
        @ (case br_top_p r of None \<Rightarrow> [] | Some t \<Rightarrow> [(''top_p'', t)])
        @ (case br_max_tokens r of None \<Rightarrow> [] | Some n \<Rightarrow> [(''num_predict'', dec_int n)])
      in if length opts = 0 then None else Some opts)"

definition ollama_request :: "backend_request \<Rightarrow> bool \<Rightarrow> ollama_request" where
  "ollama_request r streaming =
     \<lparr>oq_model = br_model r, oq_messages = to_ollama_messages (br_messages r), oq_tools = br_tools r, oq_stream = streaming,
      oq_options = build_options r\<rparr>"

text \<open>The outcome of a non-streaming call to Ollama.\<close>

datatype ollama_outcome = CallFails string | CallStatus http_status bytes | CallUndecoded string | CallAnswer ollama_response

datatype backend_error = BackendError string | BackendCancelled string | BackendDeadline string | NotImplemented string

definition chat :: "(ollama_request \<Rightarrow> ollama_outcome) \<Rightarrow> backend_request \<Rightarrow> backend_error + chat_response" where
  "chat post r =
     (case post (ollama_request r False) of
        CallFails e \<Rightarrow> Inl (BackendError (''ollama chat call failed: '' @ e))
      | CallStatus st raw \<Rightarrow> Inl (BackendError (''ollama returned '' @ dec_nat st @ '': '' @ raw))
      | CallUndecoded e \<Rightarrow> Inl (BackendError e)
      | CallAnswer o' \<Rightarrow>
          let calls = om_calls (or_message o')
          in Inr \<lparr>cr_model = or_model o', cr_content = om_content (or_message o'),
               cr_calls = (if length calls > 0 then from_ollama_calls calls else []),
               cr_prompt_tokens = or_prompt_count o', cr_completion_tokens = or_eval_count o',
               cr_finish_reason = (if length calls > 0 then ''tool_use'' else or_done_reason o')\<rparr>)"

definition chunk_of :: "ollama_response \<Rightarrow> stream_chunk" where
  "chunk_of o' =
     (if or_done o' then
        let calls = om_calls (or_message o')
        in \<lparr>sk_delta = om_content (or_message o'), sk_calls = (if length calls > 0 then from_ollama_calls calls else []),
            sk_done = True, sk_finish_reason = (if length calls > 0 then ''tool_use'' else or_done_reason o'),
            sk_prompt_tokens = or_prompt_count o', sk_completion_tokens = or_eval_count o'\<rparr>
      else
        \<lparr>sk_delta = om_content (or_message o'), sk_calls = [], sk_done = False, sk_finish_reason = [], sk_prompt_tokens = 0,
         sk_completion_tokens = 0\<rparr>)"

text \<open>
  A streaming call: its lines, each empty, broken or decoded, and how the scanner ends. \<open>put\<close> and \<open>close\<close> are the
  writer's; they answer whether they succeeded.
\<close>

datatype ollama_line = EmptyLine | BrokenLine string | Line ollama_response

datatype ollama_stream = StreamFails string | StreamStatus http_status bytes | StreamLines "ollama_line list" "string option"

datatype scan = ScanDone | ScanBroken string | ScanMore

fun scan_lines :: "('a \<Rightarrow> stream_chunk \<Rightarrow> 'a \<times> string option) \<Rightarrow> 'a \<Rightarrow> ollama_line list \<Rightarrow> 'a \<times> scan" where
  "scan_lines put a [] = (a, ScanMore)"
| "scan_lines put a (EmptyLine # ls) = scan_lines put a ls"
| "scan_lines put a (BrokenLine e # ls) = (a, ScanBroken (''decode ollama stream chunk: '' @ e))"
| "scan_lines put a (Line o' # ls) =
     (case put a (chunk_of o') of
        (a1, Some e) \<Rightarrow> (a1, ScanBroken e)
      | (a1, None) \<Rightarrow> if or_done o' then (a1, ScanDone) else scan_lines put a1 ls)"

text \<open>The scanner's own error shows only when the lines ran out.\<close>

definition chat_stream ::
  "(ollama_request \<Rightarrow> ollama_stream) \<Rightarrow> ('a \<Rightarrow> stream_chunk \<Rightarrow> 'a \<times> string option) \<Rightarrow> ('a \<Rightarrow> 'a \<times> string option) \<Rightarrow>
     backend_request \<Rightarrow> 'a \<Rightarrow> 'a \<times> string option" where
  "chat_stream post put close r a =
     (case post (ollama_request r True) of
        StreamFails e \<Rightarrow> (a, Some (''ollama stream call failed: '' @ e))
      | StreamStatus st raw \<Rightarrow> (a, Some (''ollama returned '' @ dec_nat st @ '': '' @ raw))
      | StreamLines ls scan_err \<Rightarrow>
          (case scan_lines put a ls of
             (a1, ScanBroken e) \<Rightarrow> (a1, Some e)
           | (a1, ScanDone) \<Rightarrow> close a1
           | (a1, ScanMore) \<Rightarrow> (case scan_err of Some e \<Rightarrow> (a1, Some e) | None \<Rightarrow> close a1)))"

section \<open>The default model\<close>

definition default_model_preference :: "string list" where
  "default_model_preference = [''hermes3:8b'', ''mistral:7b'']"

text \<open>\<open>models\<close> are the names the backend reports, or the error of asking for them; an empty answer is an error in the callers.\<close>

definition resolve_model :: "string \<Rightarrow> string + string list \<Rightarrow> string + string" where
  "resolve_model requested models =
     (if requested \<noteq> [] then Inr requested
      else case models of
        Inl e \<Rightarrow> Inl (''model not specified and could not list backend models: '' @ e)
      | Inr ms \<Rightarrow>
          if length ms = 0 then Inr []
          else case find (\<lambda>p. p \<in> set ms) default_model_preference of Some p \<Rightarrow> Inr p | None \<Rightarrow> Inr (hd ms))"

section \<open>The Anthropic front end\<close>

text \<open>
  The content of a message as the decoders see it: absent, a string, blocks, or something they refuse. An unknown block
  carries its type as \<open>%q\<close> writes it, a broken one the text of its error.
\<close>

datatype raw_block = GoodBlock block | UnknownBlock string | BadBlock string

datatype raw_content = NoContent | StringContent string | BlockList "raw_block list" | BadContent string | OtherContent

text \<open>What the loop's messages are on this side.\<close>

definition received :: "message_content \<Rightarrow> raw_content" where
  "received c =
     (case c of TextContent s \<Rightarrow> StringContent s | BlockContent bs \<Rightarrow> BlockList (map GoodBlock bs) | NullContent \<Rightarrow> OtherContent)"

record block_parts =
  bp_texts :: "string list"
  bp_calls :: "backend_call list"
  bp_results :: "backend_message list"

fun read_blocks :: "nat \<Rightarrow> block_parts \<Rightarrow> raw_block list \<Rightarrow> string + block_parts" where
  "read_blocks i p [] = Inr p"
| "read_blocks i p (GoodBlock b # bs) =
     read_blocks (Suc i)
       (case b of
          TextBlock t \<Rightarrow> p\<lparr>bp_texts := bp_texts p @ [t]\<rparr>
        | ToolUse k n inp \<Rightarrow> p\<lparr>bp_calls := bp_calls p @ [\<lparr>bc_id = k, bc_name = n, bc_input = inp\<rparr>]\<rparr>
        | ToolResult k c \<Rightarrow>
            p\<lparr>bp_results := bp_results p @ [\<lparr>bm_role = ''tool'', bm_content = c, bm_calls = [], bm_call_id = k\<rparr>]\<rparr>) bs"
| "read_blocks i p (UnknownBlock t # bs) =
     Inl (''content_block['' @ dec_nat i @ ''] type '' @ t @ '' not supported (M3.5 supports text/tool_use/tool_result)'')"
| "read_blocks i p (BadBlock e # bs) = Inl (''content_block['' @ dec_nat i @ '']'' @ e)"

definition message_to_internal :: "string \<times> raw_content \<Rightarrow> string + backend_message list" where
  "message_to_internal m =
     (case m of (role, content) \<Rightarrow>
        (case content of
           NoContent \<Rightarrow> Inr [\<lparr>bm_role = role, bm_content = [], bm_calls = [], bm_call_id = []\<rparr>]
         | StringContent s \<Rightarrow> Inr [\<lparr>bm_role = role, bm_content = s, bm_calls = [], bm_call_id = []\<rparr>]
         | BadContent e \<Rightarrow> Inl e
         | OtherContent \<Rightarrow> Inl ''content must be a string or array of content blocks''
         | BlockList bs \<Rightarrow>
             (case read_blocks 0 \<lparr>bp_texts = [], bp_calls = [], bp_results = []\<rparr> bs of
                Inl e \<Rightarrow> Inl e
              | Inr p \<Rightarrow>
                  if length (bp_results p) > 0 then Inr (bp_results p)
                  else Inr [\<lparr>bm_role = role, bm_content = join newline (bp_texts p), bm_calls = bp_calls p, bm_call_id = []\<rparr>])))"

fun messages_to_internal :: "nat \<Rightarrow> (string \<times> raw_content) list \<Rightarrow> string + backend_message list" where
  "messages_to_internal i [] = Inr []"
| "messages_to_internal i (m # ms) =
     (case message_to_internal m of
        Inl e \<Rightarrow> Inl (''messages['' @ dec_nat i @ '']: '' @ e)
      | Inr xs \<Rightarrow> (case messages_to_internal (Suc i) ms of Inl e \<Rightarrow> Inl e | Inr ys \<Rightarrow> Inr (xs @ ys)))"

record messages_request =
  mg_model :: string
  mg_messages :: "(string \<times> raw_content) list"
  mg_system :: string
  mg_tools :: "tool_def list"
  mg_max_tokens :: "int option"
  mg_temperature :: "string option"
  mg_top_p :: "string option"
  mg_stream :: bool

text \<open>A missing input is written as \<open>null\<close>.\<close>

definition raw_json :: "bytes \<Rightarrow> bytes" where
  "raw_json b = (if b = [] then ''null'' else b)"

definition build_content :: "chat_response \<Rightarrow> block list" where
  "build_content r =
     (let out = (if cr_content r \<noteq> [] then [TextBlock (cr_content r)] else [])
        @ map (\<lambda>c. ToolUse (bc_id c) (bc_name c) (raw_json (bc_input c))) (cr_calls r)
      in if length out = 0 then [TextBlock []] else out)"

definition stop_reason :: "string \<Rightarrow> string" where
  "stop_reason internal =
     (if internal = [] \<or> internal = ''stop'' then ''end_turn''
      else if internal = ''length'' then ''max_tokens''
      else if internal = ''stop_sequence'' then ''stop_sequence''
      else ''end_turn'')"

record messages_response =
  mp_id :: string
  mp_content :: "block list"
  mp_model :: string
  mp_stop_reason :: string
  mp_input_tokens :: int
  mp_output_tokens :: int

definition backend_status :: "backend_error \<Rightarrow> http_status" where
  "backend_status e = (case e of BackendCancelled _ \<Rightarrow> 499 | BackendDeadline _ \<Rightarrow> 504 | _ \<Rightarrow> 502)"

text \<open>A decoded request becomes a refusal or the request to the backend.\<close>

definition anthropic_request :: "string + string list \<Rightarrow> messages_request option \<Rightarrow> http_status + backend_request" where
  "anthropic_request models body =
     (case body of
        None \<Rightarrow> Inl 400
      | Some q \<Rightarrow>
          if length (mg_messages q) = 0 then Inl 400
          else case resolve_model (mg_model q) models of
            Inl _ \<Rightarrow> Inl 502
          | Inr model \<Rightarrow>
              if model = [] then Inl 400
              else case messages_to_internal 0 (mg_messages q) of
                Inl _ \<Rightarrow> Inl 400
              | Inr ms \<Rightarrow>
                  Inr \<lparr>br_model = model,
                    br_messages = (if mg_system q \<noteq> [] then [\<lparr>bm_role = ''system'', bm_content = mg_system q, bm_calls = [], bm_call_id = []\<rparr>] else []) @ ms,
                    br_tools = mg_tools q, br_temperature = mg_temperature q, br_top_p = mg_top_p q, br_max_tokens = mg_max_tokens q,
                    br_stream = mg_stream q\<rparr>)"

definition anthropic_answer :: "string \<Rightarrow> backend_error + chat_response \<Rightarrow> http_status + messages_response" where
  "anthropic_answer msg_id r =
     (case r of
        Inl e \<Rightarrow> Inl (backend_status e)
      | Inr resp \<Rightarrow>
          Inr \<lparr>mp_id = msg_id, mp_content = build_content resp, mp_model = cr_model resp,
            mp_stop_reason = stop_reason (cr_finish_reason resp), mp_input_tokens = cr_prompt_tokens resp,
            mp_output_tokens = cr_completion_tokens resp\<rparr>)"

end
