(* ===== verification/RuntimeStream.thy ===== *)
theory RuntimeStream
  imports Runtime
begin

text \<open>
  The streams of the runtime adapter: the writers that turn backend chunks into server-sent events or lines, and the
  three streaming handlers. \<open>room\<close> is the number of events the client still takes (\<open>None\<close> when it stays); a write
  beyond it fails.
\<close>

definition takes :: "nat option \<Rightarrow> bool" where
  "takes room \<longleftrightarrow> room \<noteq> Some 0"

definition less_room :: "nat option \<Rightarrow> nat option" where
  "less_room room = map_option (\<lambda>n. n - 1) room"

definition write_failed :: string where "write_failed = ''write failed''"

section \<open>Anthropic\<close>

datatype block_kind = TextKind | ToolKind string string

datatype block_delta = TextDelta string | InputDelta string

datatype sse_event =
    MessageStart string string
  | BlockStart nat block_kind
  | BlockDelta nat block_delta
  | BlockStop nat
  | MessageDelta string int
  | MessageStop
  | StreamError string

record anthropic_writer =
  aw_msg_id :: string
  aw_model :: string
  aw_started :: bool
  aw_finished :: bool
  aw_out_toks :: int
  aw_sent :: "sse_event list"
  aw_room :: "nat option"

definition send_event :: "anthropic_writer \<Rightarrow> sse_event \<Rightarrow> anthropic_writer \<times> string option" where
  "send_event w e =
     (if takes (aw_room w) then (w\<lparr>aw_sent := aw_sent w @ [e], aw_room := less_room (aw_room w)\<rparr>, None)
      else (w, Some write_failed))"

text \<open>Events sent one after the other; the first failure ends it.\<close>

fun send_all :: "anthropic_writer \<Rightarrow> sse_event list \<Rightarrow> anthropic_writer \<times> string option" where
  "send_all w [] = (w, None)"
| "send_all w (e # es) =
     (case send_event w e of
        (w1, Some err) \<Rightarrow> (w1, Some err)
      | (w1, None) \<Rightarrow> send_all w1 es)"

definition ensure_started :: "anthropic_writer \<Rightarrow> anthropic_writer \<times> string option" where
  "ensure_started w =
     (if aw_started w then (w, None)
      else send_all (w\<lparr>aw_started := True\<rparr>) [MessageStart (aw_msg_id w) (aw_model w), BlockStart 0 TextKind])"

definition approx_tokens :: "string \<Rightarrow> int" where
  "approx_tokens s = (if s = [] then 0 else let n = length s div 4 in if n = 0 then 1 else int n)"

definition tool_events :: "(bytes \<Rightarrow> string) \<Rightarrow> nat \<times> backend_call \<Rightarrow> sse_event list" where
  "tool_events compact ic =
     (let idx = 1 + fst ic
      in [BlockStart idx (ToolKind (bc_id (snd ic)) (bc_name (snd ic))),
          BlockDelta idx (InputDelta (compact (raw_json (bc_input (snd ic))))), BlockStop idx])"

definition close_stream :: "(bytes \<Rightarrow> string) \<Rightarrow> anthropic_writer \<Rightarrow> stream_chunk \<Rightarrow> anthropic_writer \<times> string option" where
  "close_stream compact w c =
     (if aw_finished w then (w, None)
      else
        let out = (if sk_completion_tokens c = 0 then aw_out_toks w else sk_completion_tokens c)
        in send_all (w\<lparr>aw_finished := True\<rparr>)
             (concat (map (tool_events compact) (zip [0..<length (sk_calls c)] (sk_calls c)))
              @ [BlockStop 0, MessageDelta (stop_reason (sk_finish_reason c)) out, MessageStop]))"

definition write_chunk :: "(bytes \<Rightarrow> string) \<Rightarrow> anthropic_writer \<Rightarrow> stream_chunk \<Rightarrow> anthropic_writer \<times> string option" where
  "write_chunk compact w c =
     (case ensure_started w of
        (w1, Some e) \<Rightarrow> (w1, Some e)
      | (w1, None) \<Rightarrow>
          (case (if sk_delta c \<noteq> [] then
                   (case send_event w1 (BlockDelta 0 (TextDelta (sk_delta c))) of
                      (w2, Some e) \<Rightarrow> (w2, Some e)
                    | (w2, None) \<Rightarrow> (w2\<lparr>aw_out_toks := aw_out_toks w2 + approx_tokens (sk_delta c)\<rparr>, None))
                 else (w1, None)) of
             (w2, Some e) \<Rightarrow> (w2, Some e)
           | (w2, None) \<Rightarrow> if sk_done c then close_stream compact w2 c else (w2, None)))"

definition final_chunk :: stream_chunk where
  "final_chunk =
     \<lparr>sk_delta = [], sk_calls = [], sk_done = True, sk_finish_reason = ''stop'', sk_prompt_tokens = 0, sk_completion_tokens = 0\<rparr>"

definition close_writer :: "(bytes \<Rightarrow> string) \<Rightarrow> anthropic_writer \<Rightarrow> anthropic_writer \<times> string option" where
  "close_writer compact w =
     (if aw_finished w then (w, None)
      else case ensure_started w of
        (w1, Some e) \<Rightarrow> (w1, Some e)
      | (w1, None) \<Rightarrow> close_stream compact w1 final_chunk)"

definition stream_messages ::
  "(bytes \<Rightarrow> string) \<Rightarrow> (ollama_request \<Rightarrow> ollama_stream) \<Rightarrow> string \<Rightarrow> nat option \<Rightarrow> backend_request \<Rightarrow> anthropic_writer" where
  "stream_messages compact post msg_id room r =
     (let sw = \<lparr>aw_msg_id = msg_id, aw_model = br_model r, aw_started = False, aw_finished = False, aw_out_toks = 0,
                aw_sent = [], aw_room = room\<rparr>;
          w1 = (case chat_stream post (write_chunk compact) (close_writer compact) r sw of
                  (w, Some e) \<Rightarrow> fst (send_event w (StreamError e))
                | (w, None) \<Rightarrow> w)
      in if \<not> aw_finished w1 then fst (close_writer compact w1) else w1)"

section \<open>OpenAI\<close>

datatype openai_event = ChatChunk string string "string option" | ChatError string | ChatDone

record openai_writer =
  ow_role_sent :: bool
  ow_finished :: bool
  ow_sent :: "openai_event list"
  ow_room :: "nat option"

definition default_if_empty :: "string \<Rightarrow> string \<Rightarrow> string" where
  "default_if_empty s d = (if s = [] then d else s)"

definition send_openai :: "openai_writer \<Rightarrow> openai_event \<Rightarrow> openai_writer \<times> string option" where
  "send_openai w e =
     (if takes (ow_room w) then (w\<lparr>ow_sent := ow_sent w @ [e], ow_room := less_room (ow_room w)\<rparr>, None)
      else (w, Some write_failed))"

definition write_openai :: "openai_writer \<Rightarrow> stream_chunk \<Rightarrow> openai_writer \<times> string option" where
  "write_openai w c =
     (let role = (if ow_role_sent w then [] else ''assistant'');
          reason = (if sk_done c then Some (default_if_empty (sk_finish_reason c) ''stop'') else None);
          w1 = w\<lparr>ow_role_sent := True, ow_finished := ow_finished w \<or> sk_done c\<rparr>
      in send_openai w1 (ChatChunk role (sk_delta c) reason))"

definition close_openai :: "openai_writer \<Rightarrow> openai_writer \<times> string option" where
  "close_openai w = send_openai w ChatDone"

definition stream_openai :: "(ollama_request \<Rightarrow> ollama_stream) \<Rightarrow> nat option \<Rightarrow> backend_request \<Rightarrow> openai_writer" where
  "stream_openai post room r =
     (let sw = \<lparr>ow_role_sent = False, ow_finished = False, ow_sent = [], ow_room = room\<rparr>;
          w1 = (case chat_stream post write_openai close_openai r sw of
                  (w, Some e) \<Rightarrow> fst (send_openai w (ChatError e))
                | (w, None) \<Rightarrow> w)
      in if \<not> ow_finished w1 then fst (close_openai w1) else w1)"

record openai_request =
  oa_model :: string
  oa_messages :: "backend_message list"
  oa_temperature :: "string option"
  oa_top_p :: "string option"
  oa_max_tokens :: "int option"
  oa_stream :: bool

record openai_response =
  op_id :: string
  op_model :: string
  op_content :: string
  op_finish_reason :: string
  op_prompt_tokens :: int
  op_completion_tokens :: int
  op_total_tokens :: int

definition openai_request :: "string + string list \<Rightarrow> openai_request option \<Rightarrow> http_status + backend_request" where
  "openai_request models body =
     (case body of
        None \<Rightarrow> Inl 400
      | Some q \<Rightarrow>
          if length (oa_messages q) = 0 then Inl 400
          else case resolve_model (oa_model q) models of
            Inl _ \<Rightarrow> Inl 502
          | Inr model \<Rightarrow>
              if model = [] then Inl 400
              else Inr \<lparr>br_model = model, br_messages = oa_messages q, br_tools = [], br_temperature = oa_temperature q,
                br_top_p = oa_top_p q, br_max_tokens = oa_max_tokens q, br_stream = oa_stream q\<rparr>)"

definition openai_status :: "backend_error \<Rightarrow> http_status" where
  "openai_status e =
     (case e of NotImplemented _ \<Rightarrow> 501 | BackendCancelled _ \<Rightarrow> 499 | BackendDeadline _ \<Rightarrow> 504 | BackendError _ \<Rightarrow> 502)"

definition openai_answer :: "string \<Rightarrow> backend_error + chat_response \<Rightarrow> http_status + openai_response" where
  "openai_answer completion_id r =
     (case r of
        Inl e \<Rightarrow> Inl (openai_status e)
      | Inr resp \<Rightarrow>
          Inr \<lparr>op_id = completion_id, op_model = cr_model resp, op_content = cr_content resp,
            op_finish_reason = default_if_empty (cr_finish_reason resp) ''stop'', op_prompt_tokens = cr_prompt_tokens resp,
            op_completion_tokens = cr_completion_tokens resp,
            op_total_tokens = cr_prompt_tokens resp + cr_completion_tokens resp\<rparr>)"

section \<open>Ollama\<close>

datatype ollama_out = OllamaLine string bool string int int

record ollama_writer =
  lw_sent :: "ollama_out list"
  lw_room :: "nat option"

definition write_ollama :: "ollama_writer \<Rightarrow> stream_chunk \<Rightarrow> ollama_writer \<times> string option" where
  "write_ollama w c =
     (if takes (lw_room w) then
        (w\<lparr>lw_sent := lw_sent w @
             [if sk_done c then OllamaLine (sk_delta c) True (default_if_empty (sk_finish_reason c) ''stop'') (sk_prompt_tokens c) (sk_completion_tokens c)
              else OllamaLine (sk_delta c) False [] 0 0], lw_room := less_room (lw_room w)\<rparr>, None)
      else (w, Some write_failed))"

definition stream_ollama :: "(ollama_request \<Rightarrow> ollama_stream) \<Rightarrow> nat option \<Rightarrow> backend_request \<Rightarrow> ollama_writer" where
  "stream_ollama post room r = fst (chat_stream post write_ollama (\<lambda>w. (w, None)) r \<lparr>lw_sent = [], lw_room = room\<rparr>)"


text \<open>A number of a JSON body: its text and what \<open>int(n)\<close> makes of it.\<close>

record json_number =
  jn_text :: string
  jn_int :: int

record ollama_chat_request =
  lq_model :: string
  lq_messages :: "backend_message list"
  lq_stream :: "bool option"
  lq_numbers :: "string \<rightharpoonup> json_number"

definition ollama_chat :: "ollama_chat_request option \<Rightarrow> http_status + backend_request" where
  "ollama_chat body =
     (case body of
        None \<Rightarrow> Inl 400
      | Some q \<Rightarrow>
          if lq_model q = [] \<or> length (lq_messages q) = 0 then Inl 400
          else Inr \<lparr>br_model = lq_model q, br_messages = lq_messages q, br_tools = [],
            br_temperature = map_option jn_text (lq_numbers q ''temperature''), br_top_p = map_option jn_text (lq_numbers q ''top_p''),
            br_max_tokens = map_option jn_int (lq_numbers q ''num_predict''),
            br_stream = (case lq_stream q of None \<Rightarrow> True | Some b \<Rightarrow> b)\<rparr>)"

definition ollama_answer :: "backend_error + chat_response \<Rightarrow> http_status + string \<times> ollama_out" where
  "ollama_answer r =
     (case r of
        Inl e \<Rightarrow> Inl (openai_status e)
      | Inr resp \<Rightarrow>
          Inr (cr_model resp, OllamaLine (cr_content resp) True (default_if_empty (cr_finish_reason resp) ''stop'')
            (cr_prompt_tokens resp) (cr_completion_tokens resp)))"

section \<open>The handlers\<close>

datatype ('a, 'b) served = Refused http_status | Answered 'a | Streamed 'b

text \<open>
  \<open>call\<close> and \<open>stream\<close> are the two endpoints of Ollama; \<open>can_stream\<close> says whether the connection can be flushed.
\<close>

definition handle_anthropic ::
  "(bytes \<Rightarrow> string) \<Rightarrow> (ollama_request \<Rightarrow> ollama_outcome) \<Rightarrow> (ollama_request \<Rightarrow> ollama_stream) \<Rightarrow> string \<Rightarrow> string + string list \<Rightarrow>
     bool \<Rightarrow> nat option \<Rightarrow> messages_request option \<Rightarrow> (messages_response, sse_event list) served" where
  "handle_anthropic compact call stream msg_id models can_stream room body =
     (case anthropic_request models body of
        Inl st \<Rightarrow> Refused st
      | Inr r \<Rightarrow>
          if br_stream r then
            (if \<not> can_stream then Refused 500 else Streamed (aw_sent (stream_messages compact stream msg_id room r)))
          else case anthropic_answer msg_id (chat call r) of Inl st \<Rightarrow> Refused st | Inr a \<Rightarrow> Answered a)"

definition handle_openai ::
  "(ollama_request \<Rightarrow> ollama_outcome) \<Rightarrow> (ollama_request \<Rightarrow> ollama_stream) \<Rightarrow> string \<Rightarrow> string + string list \<Rightarrow> bool \<Rightarrow>
     nat option \<Rightarrow> openai_request option \<Rightarrow> (openai_response, openai_event list) served" where
  "handle_openai call stream completion_id models can_stream room body =
     (case openai_request models body of
        Inl st \<Rightarrow> Refused st
      | Inr r \<Rightarrow>
          if br_stream r then
            (if \<not> can_stream then Refused 500 else Streamed (ow_sent (stream_openai stream room r)))
          else case openai_answer completion_id (chat call r) of Inl st \<Rightarrow> Refused st | Inr a \<Rightarrow> Answered a)"

definition handle_ollama ::
  "(ollama_request \<Rightarrow> ollama_outcome) \<Rightarrow> (ollama_request \<Rightarrow> ollama_stream) \<Rightarrow> bool \<Rightarrow> nat option \<Rightarrow>
     ollama_chat_request option \<Rightarrow> (string \<times> ollama_out, ollama_out list) served" where
  "handle_ollama call stream can_stream room body =
     (case ollama_chat body of
        Inl st \<Rightarrow> Refused st
      | Inr r \<Rightarrow>
          if br_stream r then
            (if \<not> can_stream then Refused 500 else Streamed (lw_sent (stream_ollama stream room r)))
          else case ollama_answer (chat call r) of Inl st \<Rightarrow> Refused st | Inr a \<Rightarrow> Answered a)"

end
