(* ===== verification/RuntimeProps.thy ===== *)
theory RuntimeProps
  imports RuntimeStream AgentProps
begin

text \<open>
  The runtime adapter between the agent loop and the model: what the loop says arrives, what the model answers comes
  back; the streams keep to their protocol; the ids the adapter invents repeat from round to round.
\<close>

section \<open>The agent loop through the adapter\<close>

text \<open>The messages of the backend that stand for one turn of the transcript.\<close>

definition call_of :: "tool_call \<Rightarrow> backend_call" where
  "call_of tc = \<lparr>bc_id = tcl_id tc, bc_name = tcl_name tc, bc_input = (if tcl_input tc = [] then [CHR 0x7B, CHR 0x7D] else tcl_input tc)\<rparr>"

definition internal_of :: "turn \<Rightarrow> backend_message list" where
  "internal_of t =
     (if tu_role t = ''assistant'' then
        [\<lparr>bm_role = ''assistant'', bm_content = tu_text t, bm_calls = map call_of (tu_calls t), bm_call_id = []\<rparr>]
      else if tu_results t \<noteq> [] then
        map (\<lambda>r. \<lparr>bm_role = ''tool'', bm_content = tr_content r, bm_calls = [], bm_call_id = tr_use_id r\<rparr>) (tu_results t)
      else [\<lparr>bm_role = ''user'', bm_content = tu_text t, bm_calls = [], bm_call_id = []\<rparr>])"

lemma read_call_blocks:
  "read_blocks i p (map GoodBlock (map call_block tcs)) = Inr (p\<lparr>bp_calls := bp_calls p @ map call_of tcs\<rparr>)"
  by (induction tcs arbitrary: i p) (simp_all add: call_block_def call_of_def)

lemma read_result_blocks:
  "read_blocks i p (map GoodBlock (map (\<lambda>r. ToolResult (tr_use_id r) (tr_content r)) rs)) =
     Inr (p\<lparr>bp_results := bp_results p @ map (\<lambda>r. \<lparr>bm_role = ''tool'', bm_content = tr_content r, bm_calls = [], bm_call_id = tr_use_id r\<rparr>) rs\<rparr>)"
  by (induction rs arbitrary: i p) simp_all

definition wire :: "turn \<Rightarrow> string \<times> raw_content" where
  "wire t = (fst (turn_message t), received (snd (turn_message t)))"

lemma wire_user: "message_to_internal (wire (user_turn text [])) = Inr (internal_of (user_turn text []))"
  by (simp add: wire_def turn_message_def user_turn_def received_def message_to_internal_def internal_of_def)

lemma wire_results: "rs \<noteq> [] \<Longrightarrow> message_to_internal (wire (user_turn text rs)) = Inr (internal_of (user_turn text rs))"
  using read_result_blocks [of 0 _ rs]
  by (simp add: wire_def turn_message_def user_turn_def received_def message_to_internal_def internal_of_def del: map_map)

lemma wire_assistant:
  assumes "mr_calls reply \<noteq> []"
  shows "message_to_internal (wire (assistant_turn reply)) = Inr (internal_of (assistant_turn reply))"
  using assms read_call_blocks [of _ _ "mr_calls reply"]
  by (cases "mr_text reply = []")
    (simp_all add: wire_def turn_message_def assistant_turn_def received_def message_to_internal_def internal_of_def Let_def
      del: map_map)

lemma internal_Cons:
  "message_to_internal m = Inr xs \<Longrightarrow> messages_to_internal (Suc i) ms = Inr ys \<Longrightarrow> messages_to_internal i (m # ms) = Inr (xs @ ys)"
  by simp

lemma answered_internal: "answered ts \<Longrightarrow> messages_to_internal i (map wire ts) = Inr (concat (map internal_of ts))"
proof (induction ts arbitrary: i rule: answered.induct)
  case (3 a u ts)
  then obtain reply results where r: "a = assistant_turn reply" "mr_calls reply \<noteq> []" "u = user_turn [] results"
      "map tr_use_id results = map tcl_id (mr_calls reply)" by auto
  then have "results \<noteq> []" by auto
  with r 3 wire_assistant [OF r(2)] wire_results [of results "[]"] show ?case by simp
qed simp_all

text \<open>The adapter's non-streaming endpoint as the loop's HTTP client sees it.\<close>

definition through_runtime ::
  "(backend_request \<Rightarrow> backend_error + chat_response) \<Rightarrow> string \<Rightarrow> string + string list \<Rightarrow> 'w \<Rightarrow> model_request \<Rightarrow> 'w \<times> model_answer" where
  "through_runtime backend msg_id models w q =
     (w, case anthropic_request models (Some \<lparr>mg_model = mq_model q,
            mg_messages = map (\<lambda>m. (fst m, received (snd m))) (mq_messages q), mg_system = mq_system q, mg_tools = mq_tools q,
            mg_max_tokens = Some (mq_max_tokens q), mg_temperature = None, mg_top_p = None, mg_stream = mq_stream q\<rparr>) of
           Inl st \<Rightarrow> BadStatus st []
         | Inr r \<Rightarrow>
             (case anthropic_answer msg_id (backend r) of
                Inl st \<Rightarrow> BadStatus st []
              | Inr a \<Rightarrow> Answer (map Some (mp_content a)) None))"

lemma add_call_blocks:
  "foldl add_block r (map (\<lambda>c. Some (ToolUse (bc_id c) (bc_name c) (raw_json (bc_input c)))) cs) =
     r\<lparr>mr_calls := mr_calls r @ map (\<lambda>c. \<lparr>tcl_id = bc_id c, tcl_name = bc_name c, tcl_input = raw_json (bc_input c)\<rparr>) cs\<rparr>"
  by (induction cs arbitrary: r) (simp_all add: add_block_def)

lemma read_content:
  "foldl add_block \<lparr>mr_text = [], mr_calls = []\<rparr> (map Some (build_content resp)) =
     \<lparr>mr_text = cr_content resp, mr_calls = map (\<lambda>c. \<lparr>tcl_id = bc_id c, tcl_name = bc_name c, tcl_input = raw_json (bc_input c)\<rparr>) (cr_calls resp)\<rparr>"
  using add_call_blocks [of _ "cr_calls resp"] by (auto simp: build_content_def Let_def add_block_def comp_def)



section \<open>Call ids\<close>

lemma from_ollama_nth: "i < length cs \<Longrightarrow> from_ollama_calls cs ! i =
    \<lparr>bc_id = oc_name (cs ! i) @ CHR ''_'' # dec_nat i, bc_name = oc_name (cs ! i), bc_input = oc_arguments (cs ! i)\<rparr>"
  by (simp add: from_ollama_calls_def)

text \<open>An approval can hit a call its sender never saw. The ids the adapter gives to tool calls are the tool's name and
  the position in the answer, so when two answers of the model call the same tool at the same position the ids are
  equal; when a second approval for the first call arrives after that call was let through (the button pressed twice)
  and the second call is waiting, it is accepted and lets the second call through, whatever its arguments.\<close>

theorem repeated_approval_hits_next_call:
  assumes "i < length cs" "i < length cs'" "oc_name (cs ! i) = oc_name (cs' ! i)"
    and "c = bc_id (from_ollama_calls cs ! i)" "c' = bc_id (from_ollama_calls cs' ! i)"
    and "await_begin a c = (a1, ch)" "resolve a1 c DecisionApprove = (a2, e)"
    and "await_finish a2 c ch (Received DecisionApprove) = (a3, d)" "await_begin a3 c' = (a4, ch')"
    and "resolve a4 c DecisionApprove = (a5, e')"
  shows "e = None \<and> await_ready a2 ch (Received DecisionApprove) \<and> ch' \<noteq> ch \<and> e' = None \<and>
    await_ready a5 ch' (Received DecisionApprove)"
proof -
  have same: "c' = c" using assms(1-5) by (simp add: from_ollama_nth)
  from assms(6) have a1: "ap_pending a1 c = Some ch" "ch = length (ap_channels a)" "ap_channels a1 = ap_channels a @ [None]"
    by (auto simp: await_begin_def Let_def)
  with assms(7) have a2: "e = None" "a2 = a1\<lparr>ap_channels := ap_channels a @ [Some DecisionApprove]\<rparr>"
    by (auto simp: resolve_def resolve_lookup_def resolve_send_def)
  with assms(8) a1 have a3: "ap_channels a3 = ap_channels a @ [None]" by (auto simp: await_finish_def Let_def)
  with assms(9) same have a4: "ap_pending a4 c = Some ch'" "ch' = length (ap_channels a) + 1" "ap_channels a4 = ap_channels a @ [None, None]"
    by (auto simp: await_begin_def Let_def)
  with assms(10) have a5: "e' = None" "ap_channels a5 = ap_channels a @ [None, Some DecisionApprove]"
    by (auto simp: resolve_def resolve_lookup_def resolve_send_def nth_append list_update_append)
  show ?thesis using a1 a2 a4 a5 by (simp add: await_ready_def nth_append)
qed

theorem repeated_approval_hits_next_call_witness:
  "\<exists>a1 a2 a3 a4 a5 e'. await_begin (new_channel_approver 0) ''exec_0'' = (a1, 0) \<and> resolve a1 ''exec_0'' DecisionApprove = (a2, None) \<and>
     await_finish a2 ''exec_0'' 0 (Received DecisionApprove) = (a3, DecisionApprove, None) \<and> await_begin a3 ''exec_0'' = (a4, 1) \<and>
     resolve a4 ''exec_0'' DecisionApprove = (a5, e') \<and> e' = None \<and> await_ready a5 1 (Received DecisionApprove)"
proof -
  let ?cs = "[\<lparr>oc_name = ''exec'', oc_arguments = ''ls''\<rparr>]" and ?cs' = "[\<lparr>oc_name = ''exec'', oc_arguments = ''rm''\<rparr>]"
  let ?a = "new_channel_approver 0"
  obtain a1 ch where a1: "await_begin ?a ''exec_0'' = (a1, ch)" by fastforce
  obtain a2 e where a2: "resolve a1 ''exec_0'' DecisionApprove = (a2, e)" by fastforce
  obtain a3 d where a3: "await_finish a2 ''exec_0'' ch (Received DecisionApprove) = (a3, d)" by (cases "await_finish a2 ''exec_0'' ch (Received DecisionApprove)") auto
  obtain a4 ch' where a4: "await_begin a3 ''exec_0'' = (a4, ch')" by fastforce
  obtain a5 e' where a5: "resolve a4 ''exec_0'' DecisionApprove = (a5, e')" by fastforce
  have id: "''exec_0'' = bc_id (from_ollama_calls ?cs ! 0)" "''exec_0'' = bc_id (from_ollama_calls ?cs' ! 0)" by code_simp+
  have "e = None \<and> await_ready a2 ch (Received DecisionApprove) \<and> ch' \<noteq> ch \<and> e' = None \<and> await_ready a5 ch' (Received DecisionApprove)"
    by (rule repeated_approval_hits_next_call [OF _ _ _ id a1 a2 a3 a4 a5]) simp_all
  moreover have "ch = 0" "d = (DecisionApprove, None)" "ch' = 1"
    using a1 a2 a3 a4
    by (auto simp: await_begin_def await_finish_def await_result_def resolve_def resolve_lookup_def resolve_send_def
      new_channel_approver_def Let_def)
  ultimately show ?thesis using a1 a2 a3 a4 a5 by blast
qed



section \<open>The Anthropic stream\<close>

text \<open>
  The protocol: the start of the message, blocks that are opened once, written while open and closed, the message delta
  when none is open, and the end. Error events may come anywhere before the end.
\<close>

datatype sse_state = Before | Within "nat set" "nat set" | Closing | After

fun sse_next :: "sse_state \<Rightarrow> sse_event \<Rightarrow> sse_state option" where
  "sse_next Before (MessageStart i m) = Some (Within {} {})"
| "sse_next (Within opened used) (BlockStart i k) =
     (if i \<in> used then None else Some (Within (insert i opened) (insert i used)))"
| "sse_next (Within opened used) (BlockDelta i d) = (if i \<in> opened then Some (Within opened used) else None)"
| "sse_next (Within opened used) (BlockStop i) = (if i \<in> opened then Some (Within (opened - {i}) used) else None)"
| "sse_next (Within opened used) (MessageDelta r n) = (if opened = {} then Some Closing else None)"
| "sse_next Closing MessageStop = Some After"
| "sse_next After e = None"
| "sse_next s (StreamError t) = Some s"
| "sse_next s e = None"

fun sse_run :: "sse_state \<Rightarrow> sse_event list \<Rightarrow> sse_state option" where
  "sse_run s [] = Some s"
| "sse_run s (e # es) = Option.bind (sse_next s e) (\<lambda>s'. sse_run s' es)"

lemma sse_run_append: "sse_run s (es @ fs) = Option.bind (sse_run s es) (\<lambda>s'. sse_run s' fs)"
  by (induction es arbitrary: s) (auto split: bind_split)

lemma sse_run_take: "sse_run s es \<noteq> None \<Longrightarrow> sse_run s (take k es) \<noteq> None"
proof -
  assume "sse_run s es \<noteq> None"
  then have "sse_run s (take k es @ drop k es) \<noteq> None" by simp
  then show ?thesis unfolding sse_run_append by (auto split: bind_split_asm)
qed

text \<open>What a writer has sent is the protocol so far, whole unless the client has gone.\<close>

definition at_state :: "anthropic_writer \<Rightarrow> sse_state \<Rightarrow> bool" where
  "at_state w s \<longleftrightarrow> sse_run Before (aw_sent w) = Some s \<or> aw_room w = Some 0 \<and> sse_run Before (aw_sent w) \<noteq> None"

definition stage :: "anthropic_writer \<Rightarrow> sse_state" where
  "stage w = (if aw_finished w then After else if aw_started w then Within {0} {0} else Before)"

lemma send_event_at:
  "send_event w e = (w', err) \<Longrightarrow> at_state w s \<Longrightarrow> sse_next s e = Some s' \<Longrightarrow>
     at_state w' s' \<and> aw_started w' = aw_started w \<and> aw_finished w' = aw_finished w \<and> (err \<noteq> None \<longrightarrow> aw_room w' = Some 0)"
  by (auto simp: send_event_def at_state_def takes_def sse_run_append less_room_def split: if_splits)

lemma at_gone: "at_state w s \<Longrightarrow> aw_room w = Some 0 \<Longrightarrow> at_state w s'"
  by (auto simp: at_state_def)

lemma send_all_at:
  "send_all w es = (w', err) \<Longrightarrow> at_state w s \<Longrightarrow> sse_run s es = Some s' \<Longrightarrow>
     at_state w' s' \<and> aw_started w' = aw_started w \<and> aw_finished w' = aw_finished w \<and> (err \<noteq> None \<longrightarrow> aw_room w' = Some 0)"
proof (induction es arbitrary: w s)
  case (Cons e es)
  obtain w1 err1 where e: "send_event w e = (w1, err1)" by fastforce
  from Cons.prems(3) obtain s1 where s1: "sse_next s e = Some s1" "sse_run s1 es = Some s'" by (auto split: bind_split_asm)
  note one = send_event_at [OF e Cons.prems(2) s1(1)]
  show ?case
  proof (cases err1)
    case None
    with Cons.IH [of w1 s1] Cons.prems(1) e one s1(2) show ?thesis by auto
  next
    case (Some x)
    with Cons.prems(1) e one show ?thesis by (auto intro: at_gone)
  qed
qed simp

lemma ensure_started_at:
  "ensure_started w = (w', err) \<Longrightarrow> at_state w (stage w) \<Longrightarrow> \<not> aw_finished w \<Longrightarrow>
     at_state w' (stage w') \<and> aw_started w' \<and> \<not> aw_finished w' \<and> (err \<noteq> None \<longrightarrow> aw_room w' = Some 0)"
  using send_all_at [of "w\<lparr>aw_started := True\<rparr>" "[MessageStart (aw_msg_id w) (aw_model w), BlockStart 0 TextKind]" w' err Before "Within {0} {0}"]
  by (auto simp: ensure_started_def stage_def at_state_def split: if_splits)

lemma tool_events_run:
  "sse_run (Within {0} {0..n}) (concat (map (tool_events compact) (zip [n..<n + length cs] cs))) = Some (Within {0} {0..n + length cs})"
proof (induction cs arbitrary: n)
  case (Cons c cs)
  have "insert (Suc n) {0..n} = {0..Suc n}" by auto
  moreover have "[n..<n + length (c # cs)] = n # [Suc n..<Suc n + length cs]" by (simp add: upt_conv_Cons del: upt_Suc)
  ultimately show ?case using Cons [of "Suc n"] by (simp add: tool_events_def Let_def del: upt_Suc)
qed simp

lemma closing_run:
  "sse_run (Within {0} {0}) (concat (map (tool_events compact) (zip [0..<length cs] cs)) @ [BlockStop 0, MessageDelta r n, MessageStop]) = Some After"
  using tool_events_run [of 0 compact cs] by (simp add: sse_run_append)

lemma close_stream_at:
  "close_stream compact w c = (w', err) \<Longrightarrow> at_state w (stage w) \<Longrightarrow> aw_started w \<Longrightarrow> \<not> aw_finished w \<Longrightarrow>
     at_state w' (stage w') \<and> aw_finished w' \<and> (err \<noteq> None \<longrightarrow> aw_room w' = Some 0)"
  using send_all_at [of "w\<lparr>aw_finished := True\<rparr>" _ w' err "Within {0} {0}" After] closing_run
  by (auto simp: close_stream_def stage_def at_state_def Let_def)

lemma write_chunk_at:
  assumes "write_chunk compact w c = (w', err)" "at_state w (stage w)" "\<not> aw_finished w"
  shows "at_state w' (stage w') \<and> (aw_finished w' \<longrightarrow> sk_done c \<or> err \<noteq> None) \<and> (err = None \<and> sk_done c \<longrightarrow> aw_finished w') \<and>
    (err \<noteq> None \<longrightarrow> aw_room w' = Some 0)"
proof -
  obtain w1 e1 where s: "ensure_started w = (w1, e1)" by fastforce
  note st = ensure_started_at [OF s assms(2,3)]
  show ?thesis
  proof (cases e1)
    case (Some x)
    with assms(1) s st show ?thesis by (auto simp: write_chunk_def)
  next
    case None
    obtain w2 e2 where d: "(if sk_delta c \<noteq> [] then
           (case send_event w1 (BlockDelta 0 (TextDelta (sk_delta c))) of
              (w2, Some e) \<Rightarrow> (w2, Some e)
            | (w2, None) \<Rightarrow> (w2\<lparr>aw_out_toks := aw_out_toks w2 + approx_tokens (sk_delta c)\<rparr>, None))
         else (w1, None)) = (w2, e2)" by fastforce
    have w2: "at_state w2 (stage w2) \<and> aw_started w2 \<and> \<not> aw_finished w2 \<and> (e2 \<noteq> None \<longrightarrow> aw_room w2 = Some 0)"
      using d st send_event_at [of w1 "BlockDelta 0 (TextDelta (sk_delta c))" _ _ "Within {0} {0}" "Within {0} {0}"]
      by (auto simp: stage_def at_state_def split: if_splits prod.splits option.splits)
    from assms(1) s None d have "(w', err) = (case e2 of Some e \<Rightarrow> (w2, Some e)
        | None \<Rightarrow> if sk_done c then close_stream compact w2 c else (w2, None))"
      by (simp add: write_chunk_def split: option.splits)
    with w2 close_stream_at [of compact w2 c w' err] show ?thesis by (auto split: option.splits if_splits)
  qed
qed

lemma close_writer_at:
  assumes "close_writer compact w = (w', err)" "at_state w (stage w)"
  shows "at_state w' (stage w') \<and> (aw_finished w' \<or> aw_room w' = Some 0) \<and> (err \<noteq> None \<longrightarrow> aw_room w' = Some 0)"
proof (cases "aw_finished w")
  case True
  with assms show ?thesis by (simp add: close_writer_def)
next
  case False
  obtain w1 e1 where s: "ensure_started w = (w1, e1)" by fastforce
  note st = ensure_started_at [OF s assms(2) False]
  from assms(1) False s st close_stream_at [of compact w1 final_chunk w' err] show ?thesis
    by (cases e1) (auto simp: close_writer_def)
qed

lemma scan_lines_at:
  "scan_lines (write_chunk compact) w ls = (w', r) \<Longrightarrow> at_state w (stage w) \<Longrightarrow> \<not> aw_finished w \<Longrightarrow>
     at_state w' (stage w') \<and> (r = ScanMore \<longrightarrow> \<not> aw_finished w') \<and>
     (\<forall>t. r = ScanBroken t \<and> aw_finished w' \<longrightarrow> aw_room w' = Some 0)"
proof (induction ls arbitrary: w)
  case (Cons x ls)
  show ?case
  proof (cases x)
    case (Line o')
    obtain w1 e where e: "write_chunk compact w (chunk_of o') = (w1, e)" by fastforce
    have d: "sk_done (chunk_of o') = or_done o'" by (simp add: chunk_of_def Let_def)
    note wc = write_chunk_at [OF e Cons.prems(2,3), unfolded d]
    show ?thesis
    proof (cases "e = None \<and> \<not> or_done o'")
      case True
      with Cons.prems(1) Line e have "scan_lines (write_chunk compact) w1 ls = (w', r)" by simp
      with Cons.IH wc True show ?thesis by blast
    next
      case False
      with Cons.prems(1) Line e have "w' = w1" "r \<noteq> ScanMore" "\<forall>t. r = ScanBroken t \<longrightarrow> e \<noteq> None"
        by (auto split: option.splits if_splits)
      with wc show ?thesis by blast
    qed
  qed (use Cons in auto)
qed simp


lemma chat_stream_at:
  assumes "chat_stream post (write_chunk compact) (close_writer compact) r w = (w', err)" "at_state w (stage w)" "\<not> aw_finished w"
  shows "at_state w' (stage w') \<and> (err \<noteq> None \<and> aw_finished w' \<longrightarrow> aw_room w' = Some 0)"
proof (cases "post (ollama_request r True)")
  case (StreamLines ls scan_err)
  obtain w1 sc where s: "scan_lines (write_chunk compact) w ls = (w1, sc)" by fastforce
  note sl = scan_lines_at [OF s assms(2,3)]
  show ?thesis
  proof (cases sc)
    case ScanDone
    with assms(1) StreamLines s have "close_writer compact w1 = (w', err)" by (simp add: chat_stream_def)
    with sl show ?thesis using close_writer_at by blast
  next
    case (ScanBroken t)
    with assms(1) StreamLines s sl show ?thesis by (simp add: chat_stream_def)
  next
    case ScanMore
    with assms(1) StreamLines s sl close_writer_at [of compact w1 w' err] show ?thesis
      by (cases scan_err) (auto simp: chat_stream_def)
  qed
qed (use assms in \<open>simp_all add: chat_stream_def\<close>)

lemma stream_error_at:
  assumes "send_event w (StreamError t) = (w', err)" "at_state w (stage w)" "aw_finished w \<longrightarrow> aw_room w = Some 0"
  shows "at_state w' (stage w')"
proof (cases "aw_finished w")
  case True
  with assms show ?thesis by (auto simp: send_event_def takes_def)
next
  case False
  with send_event_at [OF assms(1,2), of "stage w"] show ?thesis by (auto simp: stage_def)
qed

text \<open>A client that stays keeps staying.\<close>

lemma room_send_event: "aw_room w = None \<Longrightarrow> aw_room (fst (send_event w e)) = None"
  by (simp add: send_event_def less_room_def)

lemma room_send_all: "aw_room w = None \<Longrightarrow> aw_room (fst (send_all w es)) = None"
proof (induction es arbitrary: w)
  case (Cons e es)
  obtain w1 err where e: "send_event w e = (w1, err)" by fastforce
  have "aw_room w1 = None" using room_send_event [OF Cons.prems, of e] e by simp
  with Cons.IH e show ?case by (cases err) auto
qed simp

lemma room_started: "aw_room w = None \<Longrightarrow> aw_room (fst (ensure_started w)) = None"
  by (simp only: ensure_started_def split: if_split) (simp add: room_send_all del: send_all.simps)

lemma room_close_stream: "aw_room w = None \<Longrightarrow> aw_room (fst (close_stream compact w c)) = None"
  by (simp add: close_stream_def Let_def room_send_all del: send_all.simps)

lemma room_close: "aw_room w = None \<Longrightarrow> aw_room (fst (close_writer compact w)) = None"
  using room_started [of w] room_close_stream
  by (cases "ensure_started w"; cases "snd (ensure_started w)") (auto simp: close_writer_def)

lemma room_chunk:
  assumes "aw_room w = None"
  shows "aw_room (fst (write_chunk compact w c)) = None"
proof -
  obtain w1 e1 where s: "ensure_started w = (w1, e1)" by fastforce
  obtain w2 e2 where d: "send_event w1 (BlockDelta 0 (TextDelta (sk_delta c))) = (w2, e2)" by fastforce
  have "aw_room w1 = None" "aw_room w1 = None \<Longrightarrow> aw_room w2 = None"
    using room_started [OF assms] s room_send_event [of w1] d by (metis fst_conv)+
  then show ?thesis using s d room_close_stream by (cases e1; cases e2) (auto simp: write_chunk_def)
qed

lemma room_scan: "aw_room w = None \<Longrightarrow> aw_room (fst (scan_lines (write_chunk compact) w ls)) = None"
proof (induction ls arbitrary: w)
  case (Cons x ls)
  show ?case
  proof (cases x)
    case (Line o')
    obtain w1 e where e: "write_chunk compact w (chunk_of o') = (w1, e)" by fastforce
    have "aw_room w1 = None" using room_chunk [OF Cons.prems, of compact "chunk_of o'"] e by simp
    with Cons.IH Line e show ?thesis by (cases e) auto
  qed (use Cons in auto)
qed simp

lemma room_chat:
  assumes "aw_room w = None"
  shows "aw_room (fst (chat_stream post (write_chunk compact) (close_writer compact) r w)) = None"
proof (cases "post (ollama_request r True)")
  case (StreamLines ls scan_err)
  obtain w1 sc where s: "scan_lines (write_chunk compact) w ls = (w1, sc)" by fastforce
  have "aw_room w1 = None" using room_scan [OF assms, of compact ls] s by simp
  with StreamLines s room_close show ?thesis by (cases sc; cases scan_err) (auto simp: chat_stream_def)
qed (use assms in \<open>simp_all add: chat_stream_def\<close>)



section \<open>The OpenAI stream\<close>

text \<open>How a stream of Ollama ends by itself: with its last chunk, with a broken line, or by running out.\<close>

fun scan_end :: "ollama_line list \<Rightarrow> scan" where
  "scan_end [] = ScanMore"
| "scan_end (EmptyLine # ls) = scan_end ls"
| "scan_end (BrokenLine e # ls) = ScanBroken (''decode ollama stream chunk: '' @ e)"
| "scan_end (Line o' # ls) = (if or_done o' then ScanDone else scan_end ls)"

definition done_marks :: "openai_writer \<Rightarrow> nat" where
  "done_marks w = length (filter (\<lambda>e. e = ChatDone) (ow_sent w))"

definition staying :: "openai_writer \<Rightarrow> bool" where
  "staying w \<longleftrightarrow> ow_room w = None"

lemma send_openai_staying:
  "staying w \<Longrightarrow> send_openai w e = (w\<lparr>ow_sent := ow_sent w @ [e]\<rparr>, None)"
  by (simp add: send_openai_def staying_def takes_def less_room_def)

lemma write_openai_staying:
  assumes "staying w"
  shows "\<exists>w'. write_openai w c = (w', None) \<and> staying w' \<and> done_marks w' = done_marks w \<and> ow_finished w' = (ow_finished w \<or> sk_done c)"
proof -
  have "staying (w\<lparr>ow_role_sent := True, ow_finished := ow_finished w \<or> sk_done c\<rparr>)" using assms by (simp add: staying_def)
  then show ?thesis using assms
    by (simp add: write_openai_def send_openai_staying Let_def done_marks_def staying_def)
qed

lemma scan_openai:
  "staying w \<Longrightarrow> \<exists>w'. scan_lines write_openai w ls = (w', scan_end ls) \<and> staying w' \<and> done_marks w' = done_marks w \<and>
     ow_finished w' = (ow_finished w \<or> scan_end ls = ScanDone)"
proof (induction ls arbitrary: w)
  case (Cons x ls)
  show ?case
  proof (cases x)
    case (Line o')
    obtain w1 where w1: "write_openai w (chunk_of o') = (w1, None)" "staying w1" "done_marks w1 = done_marks w"
        "ow_finished w1 = (ow_finished w \<or> sk_done (chunk_of o'))" using write_openai_staying [OF Cons.prems] by blast
    have "sk_done (chunk_of o') = or_done o'" by (simp add: chunk_of_def Let_def)
    with w1 Line Cons.IH [OF w1(2)] show ?thesis by auto
  qed (use Cons in auto)
qed simp

lemma close_openai_staying:
  "staying w \<Longrightarrow> close_openai w = (w\<lparr>ow_sent := ow_sent w @ [ChatDone]\<rparr>, None)"
  by (simp add: close_openai_def send_openai_staying)

lemma done_marks_snoc [simp]:
  "done_marks (w\<lparr>ow_sent := ow_sent w @ es\<rparr>) = done_marks w + length (filter (\<lambda>e. e = ChatDone) es)"
  "staying (w\<lparr>ow_sent := es\<rparr>) = staying w"
  by (simp_all add: done_marks_def staying_def)

text \<open>The OpenAI stream is closed once, except when it is cut off. To a client that stays the adapter sends the closing
  mark exactly once when Ollama finishes the answer or anything fails; when the lines run out before the last chunk,
  without an error, the mark is sent twice.\<close>

theorem openai_stream_closing:
  "done_marks (stream_openai post None r) =
     (case post (ollama_request r True) of
        StreamLines ls None \<Rightarrow> if scan_end ls = ScanMore then 2 else 1
      | _ \<Rightarrow> 1)"
proof -
  let ?w = "\<lparr>ow_role_sent = False, ow_finished = False, ow_sent = [], ow_room = None\<rparr>"
  have w: "staying ?w" "done_marks ?w = 0" by (simp_all add: staying_def done_marks_def)
  show ?thesis
  proof (cases "post (ollama_request r True)")
    case (StreamLines ls scan_err)
    from scan_openai [OF w(1), of ls] obtain w1 where w1: "scan_lines write_openai ?w ls = (w1, scan_end ls)" "staying w1"
        "done_marks w1 = 0" "ow_finished w1 = (scan_end ls = ScanDone)" using w(2) by auto
    with StreamLines show ?thesis
      by (cases "scan_end ls"; cases scan_err)
        (simp_all add: stream_openai_def chat_stream_def close_openai_staying send_openai_staying Let_def)
  qed (simp_all add: stream_openai_def chat_stream_def close_openai_def send_openai_def takes_def less_room_def done_marks_def Let_def)
qed


definition sample_stream :: "ollama_request \<Rightarrow> ollama_stream" where
  "sample_stream q =
     StreamLines [Line \<lparr>or_model = ''m'', or_message = \<lparr>om_role = ''assistant'', om_content = ''hi'',
         om_calls = [\<lparr>oc_name = ''exec'', oc_arguments = []\<rparr>]\<rparr>, or_done = True, or_done_reason = ''stop'',
       or_prompt_count = 1, or_eval_count = 1\<rparr>] None"

definition sample_chat :: backend_request where
  "sample_chat =
     \<lparr>br_model = ''m'', br_messages = [], br_tools = [], br_temperature = None, br_top_p = None, br_max_tokens = None,
      br_stream = True\<rparr>"


end
