(* ===== verification/RuntimeInfo.thy ===== *)
theory RuntimeInfo
  imports Runtime
begin

text \<open>
  What the runtime adapter tells about itself and how the daemon learns it: the health and the models of Ollama
  (\<open>runtime-adapter/internal/backend/ollama.go\<close>), the endpoints that report them (\<open>server/server.go\<close>) and the daemon's
  caching client (\<open>cland/internal/probe/runtime_client.go\<close>). A probe asks Ollama twice; the two replies are parameters.
\<close>

section \<open>Capabilities of the backend\<close>

record model_info =
  mi_name :: string
  mi_size :: int
  mi_resident :: bool

record capabilities =
  cp_kind :: string
  cp_healthy :: bool
  cp_models :: "model_info list"
  cp_stream :: bool
  cp_vendor :: string

text \<open>A reply to \<open>GET /api/tags\<close>: none, or a status with a body that decodes to names and sizes or does not.\<close>

datatype tags_reply = NoTags string | Tags http_status "string + (string \<times> int) list"

definition ollama_health :: "tags_reply \<Rightarrow> string option" where
  "ollama_health reply =
     (case reply of
        NoTags e \<Rightarrow> Some (''ollama unreachable: '' @ e)
      | Tags st _ \<Rightarrow> if st \<noteq> 200 then Some (''ollama health returned '' @ dec_nat st) else None)"

definition ollama_capabilities :: "tags_reply \<Rightarrow> tags_reply \<Rightarrow> capabilities \<times> string option" where
  "ollama_capabilities health_reply reply =
     (let caps = \<lparr>cp_kind = ''ollama'', cp_healthy = False, cp_models = [], cp_stream = True, cp_vendor = []\<rparr>
      in if ollama_health health_reply \<noteq> None then (caps, None)
         else
           let healthy = caps\<lparr>cp_healthy := True\<rparr>
           in case reply of
                NoTags e \<Rightarrow> (healthy, Some e)
              | Tags _ (Inl e) \<Rightarrow> (healthy, Some e)
              | Tags _ (Inr ms) \<Rightarrow>
                  (healthy\<lparr>cp_models := map (\<lambda>(n, sz). \<lparr>mi_name = n, mi_size = sz, mi_resident = True\<rparr>) ms\<rparr>, None))"

section \<open>The endpoints that report them\<close>

definition handle_health :: "tags_reply \<Rightarrow> http_status" where
  "handle_health reply = (if ollama_health reply \<noteq> None then 503 else 200)"

definition handle_version :: "(string \<times> string) list" where
  "handle_version = [(''runtime'', ''minti-runtime''), (''version'', ''0.1.0-M3'')]"

definition handle_capabilities :: "tags_reply \<Rightarrow> tags_reply \<Rightarrow> http_status + capabilities" where
  "handle_capabilities health_reply reply =
     (case ollama_capabilities health_reply reply of (_, Some _) \<Rightarrow> Inl 503 | (caps, None) \<Rightarrow> Inr caps)"

definition handle_ollama_tags :: "tags_reply \<Rightarrow> tags_reply \<Rightarrow> http_status + (string \<times> int) list" where
  "handle_ollama_tags health_reply reply =
     (case ollama_capabilities health_reply reply of
        (_, Some _) \<Rightarrow> Inl 503
      | (caps, None) \<Rightarrow> Inr (map (\<lambda>m. (mi_name m, mi_size m)) (cp_models caps)))"

record model_entry =
  me_id :: string
  me_created :: int
  me_owned_by :: string

definition handle_openai_models :: "int \<Rightarrow> tags_reply \<Rightarrow> tags_reply \<Rightarrow> http_status + model_entry list" where
  "handle_openai_models now health_reply reply =
     (case ollama_capabilities health_reply reply of
        (_, Some _) \<Rightarrow> Inl 503
      | (caps, None) \<Rightarrow> Inr (map (\<lambda>m. \<lparr>me_id = mi_name m, me_created = now, me_owned_by = cp_kind caps\<rparr>) (cp_models caps)))"

section \<open>The daemon's client\<close>

definition resident_models :: "capabilities option \<Rightarrow> string list" where
  "resident_models c = (case c of None \<Rightarrow> [] | Some caps \<Rightarrow> map mi_name (filter mi_resident (cp_models caps)))"

definition remote_apis :: "capabilities option \<Rightarrow> string list" where
  "remote_apis c = (case c of None \<Rightarrow> [] | Some caps \<Rightarrow> if cp_vendor caps = [] then [] else [cp_vendor caps])"

record runtime_client =
  rc_ttl :: duration
  rc_cached :: "(capabilities \<times> time) option"

definition new_runtime_client :: "duration \<Rightarrow> runtime_client" where
  "new_runtime_client ttl = \<lparr>rc_ttl = (if ttl \<le> 0 then 30 * second else ttl), rc_cached = None\<rparr>"

text \<open>What a call to the adapter's endpoint brings: an error (also for a status other than 200), or the capabilities.\<close>

definition last_with_err :: "runtime_client \<Rightarrow> string \<Rightarrow> capabilities option \<times> string option" where
  "last_with_err c e = (case rc_cached c of Some (caps, _) \<Rightarrow> (Some caps, Some e) | None \<Rightarrow> (None, Some e))"

definition runtime_reply :: "http_status + capabilities \<Rightarrow> string + capabilities" where
  "runtime_reply r = (case r of Inl st \<Rightarrow> Inl (''runtime: status '' @ dec_nat st) | Inr caps \<Rightarrow> Inr caps)"

text \<open>\<open>now\<close> is read first, \<open>done_at\<close> when the answer has been decoded.\<close>

definition runtime_get ::
  "time \<Rightarrow> time \<Rightarrow> string + capabilities \<Rightarrow> runtime_client \<Rightarrow> runtime_client \<times> capabilities option \<times> string option" where
  "runtime_get now done_at reply c =
     (let fetch = (case reply of
          Inl e \<Rightarrow> (c, last_with_err c e)
        | Inr caps \<Rightarrow> (c\<lparr>rc_cached := Some (caps, done_at)\<rparr>, Some caps, None))
      in case rc_cached c of
           Some (caps, at') \<Rightarrow> if time_sub now at' < rc_ttl c then (c, Some caps, None) else fetch
         | None \<Rightarrow> fetch)"

end
