(* ===== verification/Advertise.thy ===== *)
theory Advertise
  imports Http RuntimeInfo Transport Peers
begin

text \<open>
  The scores (\<open>cland/internal/scores/rubric.go\<close>) and the capability advertisement
  (\<open>cland/internal/advertise/advertise.go\<close>). The system score is a parameter (floating-point arithmetic), as is the YAML
  decoder; the hardware sample is carried as decoded JSON. A JSON object is a list of its fields, whose order means
  nothing.
\<close>

section \<open>The rubric\<close>

record rubric_entry =
  re_backend :: string
  re_score :: int

datatype file_text = FileMissing | FileUnreadable string | FileText bytes

fun check_entries :: "nat \<Rightarrow> rubric_entry list \<Rightarrow> string option" where
  "check_entries i [] = None"
| "check_entries i (e # es) =
     (if re_backend e = [] then Some (''scores: entry '' @ dec_nat i @ '' has empty backend'')
      else if re_score e < 0 \<or> re_score e > 100 then Some (''scores: entry '' @ re_backend e @ '' out of range [0,100]'')
      else check_entries (Suc i) es)"

definition load_rubric :: "(bytes \<Rightarrow> string + rubric_entry list) \<Rightarrow> file_text \<Rightarrow> string + rubric_entry list" where
  "load_rubric yaml file =
     (case file of
        FileMissing \<Rightarrow> Inr []
      | FileUnreadable e \<Rightarrow> Inl (''scores: read: '' @ e)
      | FileText data \<Rightarrow>
          (case yaml data of
             Inl e \<Rightarrow> Inl (''scores: parse: '' @ e)
           | Inr es \<Rightarrow> (case check_entries 0 es of Some e \<Rightarrow> Inl e | None \<Rightarrow> Inr es)))"

definition vendor_of :: "string \<Rightarrow> string" where
  "vendor_of s = (case index_byte s CHR '':'' of Some i \<Rightarrow> take i s | None \<Rightarrow> s)"

text \<open>The two prefixes exclude each other, so the order in which the map is ranged over does not matter.\<close>

definition backend_available :: "string \<Rightarrow> string set \<Rightarrow> string set \<Rightarrow> bool" where
  "backend_available backend resident remote =
     (if starts_with backend ''local:'' then drop (length ''local:'') backend \<in> resident
      else if starts_with backend ''remote-api:'' then vendor_of (drop (length ''remote-api:'') backend) \<in> remote
      else False)"

fun best_score :: "int \<Rightarrow> rubric_entry list \<Rightarrow> string set \<Rightarrow> string set \<Rightarrow> int" where
  "best_score best [] resident remote = best"
| "best_score best (e # es) resident remote =
     best_score
       (if \<not> backend_available (re_backend e) resident remote then best
        else if re_score e > best then re_score e else best) es resident remote"

definition reasoning_score :: "rubric_entry list \<Rightarrow> string list \<Rightarrow> string list \<Rightarrow> int" where
  "reasoning_score rubric resident remote = best_score 0 rubric (set resident) (set remote)"

section \<open>Recent failures\<close>

definition failure_window :: duration where "failure_window = 5 * minute"

definition record_failure :: "time \<Rightarrow> time list \<Rightarrow> time list" where
  "record_failure t ts = prune failure_window t ts @ [t]"

definition count_failures :: "time \<Rightarrow> time list \<Rightarrow> time list \<times> nat" where
  "count_failures now ts = (let kept = prune failure_window now ts in (kept, length kept))"

section \<open>The advertised backends\<close>

text \<open>\<open>advertise.go\<close> has its own reading of a backend: it walks to the first colon with an index.\<close>

fun vendor_end :: "nat \<Rightarrow> string \<Rightarrow> nat" where
  "vendor_end i [] = i"
| "vendor_end i (c # s) = (if c = CHR '':'' then i else vendor_end (Suc i) s)"

definition advertised_available :: "string \<Rightarrow> string set \<Rightarrow> string set \<Rightarrow> bool" where
  "advertised_available backend resident remote =
     (if length backend \<ge> length ''local:'' \<and> take (length ''local:'') backend = ''local:''
      then drop (length ''local:'') backend \<in> resident
      else if length backend \<ge> length ''remote-api:'' \<and> take (length ''remote-api:'') backend = ''remote-api:''
      then let rest = drop (length ''remote-api:'') backend in take (vendor_end 0 rest) rest \<in> remote
      else False)"

definition backends_from_scores :: "rubric_entry list \<Rightarrow> string list \<Rightarrow> string list \<Rightarrow> rubric_entry list" where
  "backends_from_scores rubric resident remote =
     filter (\<lambda>e. advertised_available (re_backend e) (set resident) (set remote)) rubric"

definition backend_json :: "rubric_entry \<Rightarrow> json" where
  "backend_json e =
     JObj [(''backend'', JStr (re_backend e)), (''reasoning_score'', JNum (re_score e)), (''available'', JBool True)]"

section \<open>The service\<close>

record adv_service =
  av_clan_id :: string
  av_member_id :: member_id
  av_lan_address :: string
  av_rubric :: "rubric_entry list"
  av_failures :: "time list"
  av_runtime :: runtime_client
  av_bump_rate :: duration
  av_generation :: u64
  av_last_bump :: int
  av_queued :: bool

text \<open>
  The surroundings of one broadcast: the hardware sample, the system score, the clock, the answer of the adapter, the
  environment variables \<open>MINTI_CLAND_FORCE_HEALTHY\<close> (set to 1) and \<open>MINTI_CLAND_FORCE_SCORE\<close>, the pins and the operating
  system.
\<close>

record adv_context =
  ac_hardware :: json_object
  ac_system_score :: "json_object \<Rightarrow> nat \<Rightarrow> int"
  ac_now :: time
  ac_done_at :: time
  ac_runtime :: "string + capabilities"
  ac_force_healthy :: bool
  ac_force_score :: string
  ac_pins :: "(bool \<times> bool) option"
  ac_os :: string

text \<open>The score and whether the node counts as healthy by order.\<close>

definition forced :: "adv_context \<Rightarrow> int \<Rightarrow> int \<times> bool" where
  "forced ac score =
     (let score1 = (if ac_force_healthy ac \<and> score = 0 then 50 else score)
      in case (if ac_force_score ac \<noteq> [] then parse_int64 (ac_force_score ac) else None) of
           Some n \<Rightarrow> (n, True)
         | None \<Rightarrow> (score1, ac_force_healthy ac))"

definition build_payload :: "adv_context \<Rightarrow> u64 \<Rightarrow> adv_service \<Rightarrow> adv_service \<times> advertisement" where
  "build_payload ac gen s =
     (case runtime_get (ac_now ac) (ac_done_at ac) (ac_runtime ac) (av_runtime s) of
        (client, caps, _) \<Rightarrow>
          let resident = resident_models caps; remote = remote_apis caps;
              (kept, failed) = count_failures (ac_now ac) (av_failures s);
              (score, force) = forced ac (reasoning_score (av_rubric s) resident remote);
              healthy = (case caps of None \<Rightarrow> False | Some c \<Rightarrow> cp_healthy c);
              (pin_orch, pin_scribe) = (case ac_pins ac of None \<Rightarrow> (False, False) | Some p \<Rightarrow> p)
          in (s\<lparr>av_runtime := client, av_failures := kept\<rparr>,
              \<lparr>ad_member_id = av_member_id s, ad_clan_id = av_clan_id s, ad_term = 0, ad_generation = gen, ad_os = ac_os ac,
               ad_lan_address = av_lan_address s, ad_hardware = ac_hardware ac, ad_reasoning_score = score,
               ad_system_score = ac_system_score ac (ac_hardware ac) failed,
               ad_capabilities =
                 [(''reasoning'', JObj [(''enabled'', JBool (score > 0 \<or> force)),
                    (''backends'', JArr (map backend_json (backends_from_scores (av_rubric s) resident remote)))]),
                  (''inference'', JObj [(''enabled'', JBool (healthy \<or> force)), (''models_resident'', JArr (map JStr resident))]),
                  (''vision-gen'', JObj [(''enabled'', JBool False)]), (''embeddings'', JObj [(''enabled'', JBool False)]),
                  (''tools'', JObj [(''enabled'', JBool False)]), (''storage'', JObj [(''enabled'', JBool False)])],
               ad_load = JNum 0, ad_pinned_orchestrator = pin_orch, ad_scribe_capable = (healthy \<and> length resident > 0) \<or> force,
               ad_pinned_scribe = pin_scribe\<rparr>))"

text \<open>The addresses a broadcast goes to: those of the members other than this one, and of the candidates.\<close>

definition broadcast_addresses :: "member_id \<Rightarrow> registry \<Rightarrow> string set" where
  "broadcast_addresses self r =
     (case snapshot r of (candidates, members) \<Rightarrow>
        set (map pm_address (filter (\<lambda>m. \<not> (pm_id m = self \<or> pm_address m = [])) members)) \<union>
        set (map cd_address (filter (\<lambda>c. cd_address c \<noteq> []) candidates)))"

text \<open>
  One request: the network \<open>post\<close> answers a status, or \<open>None\<close> when the call fails; \<open>at'\<close> is the time a failure is recorded.
\<close>

definition advertise_one ::
  "('w \<Rightarrow> string \<Rightarrow> advertisement \<Rightarrow> 'w \<times> http_status option) \<Rightarrow> advertisement \<Rightarrow> string \<times> time \<Rightarrow> 'w \<times> time list \<Rightarrow> 'w \<times> time list" where
  "advertise_one post ad target x =
     (case post (fst x) (fst target) ad of
        (w1, None) \<Rightarrow> (w1, record_failure (snd target) (snd x))
      | (w1, Some st) \<Rightarrow>
          (w1, if st \<ge> 500 \<or> st = 401 then record_failure (snd target) (snd x) else snd x))"

text \<open>
  A broadcast, its requests served in the order \<open>sched\<close> of its addresses.
\<close>

definition advertise ::
  "('w \<Rightarrow> string \<Rightarrow> advertisement \<Rightarrow> 'w \<times> http_status option) \<Rightarrow> adv_context \<Rightarrow> (string \<times> time) list \<Rightarrow> adv_service \<Rightarrow> 'w \<Rightarrow>
     adv_service \<times> 'w" where
  "advertise post ac sched s w =
     (let gen = av_generation s + 1;
          (s1, ad) = build_payload ac gen (s\<lparr>av_generation := gen\<rparr>);
          (w1, failures) = fold (advertise_one post ad) sched (w, av_failures s1)
      in (s1\<lparr>av_failures := failures\<rparr>, w1))"

definition valid_schedule :: "member_id \<Rightarrow> registry \<Rightarrow> (string \<times> time) list \<Rightarrow> bool" where
  "valid_schedule self r sched \<longleftrightarrow> distinct (map fst sched) \<and> set (map fst sched) = broadcast_addresses self r"

definition bump :: "int \<Rightarrow> adv_service \<Rightarrow> adv_service" where
  "bump now s =
     (if av_last_bump s > 0 \<and> now - av_last_bump s < av_bump_rate s then s
      else s\<lparr>av_last_bump := now, av_queued := True\<rparr>)"

definition start_service :: "adv_service \<Rightarrow> adv_service" where
  "start_service s = s\<lparr>av_queued := False, av_bump_rate := (if av_bump_rate s \<le> 0 then second else av_bump_rate s)\<rparr>"

text \<open>
  What moves the loop after its start: its timer, or a bump that was queued; and bumps come from outside.
\<close>

datatype adv_event = Timer adv_context "(string \<times> time) list" | TakeBump adv_context "(string \<times> time) list" | Bumped int

definition adv_step ::
  "('w \<Rightarrow> string \<Rightarrow> advertisement \<Rightarrow> 'w \<times> http_status option) \<Rightarrow> adv_event \<Rightarrow> adv_service \<times> 'w \<Rightarrow> adv_service \<times> 'w" where
  "adv_step post e sw =
     (case e of
        Timer ac sched \<Rightarrow> advertise post ac sched (fst sw) (snd sw)
      | TakeBump ac sched \<Rightarrow>
          if av_queued (fst sw) then advertise post ac sched ((fst sw)\<lparr>av_queued := False\<rparr>) (snd sw) else sw
      | Bumped now \<Rightarrow> (bump now (fst sw), snd sw))"

end
