(* ===== verification/AdvertiseProps.thy ===== *)
theory AdvertiseProps
  imports Advertise
begin

text \<open>
  What an advertisement says and what becomes of it at the peers: the score and the backends agree, a broadcast refreshes
  every peer it reaches, and what a restart of the sender or of its runtime adapter does to that.
\<close>

section \<open>Scores and backends\<close>

lemma vendor_end_index: "vendor_end i s = i + (case index_byte s CHR '':'' of Some k \<Rightarrow> k | None \<Rightarrow> length s)"
  by (induction s arbitrary: i) (auto split: option.split)

lemma advertised_available_eq: "advertised_available = backend_available"
  by (intro ext) (simp add: advertised_available_def backend_available_def starts_with_def vendor_of_def Let_def vendor_end_index
      split: option.split)

lemma best_score_fold:
  "best_score b es resident remote =
     Max (insert b (re_score ` set (filter (\<lambda>e. backend_available (re_backend e) resident remote) es)))"
proof (induction es arbitrary: b)
  case (Cons e es)
  let ?A = "re_score ` set (filter (\<lambda>e. backend_available (re_backend e) resident remote) es)"
  have "Max (insert (if re_score e > b then re_score e else b) ?A) = Max (insert b (insert (re_score e) ?A))"
    by (cases "?A = {}") (auto simp: Max_insert max_def simp del: set_filter)
  then show ?case by (simp add: Cons.IH)
qed simp

lemma check_entries_range:
  "check_entries i es = None \<Longrightarrow> e \<in> set es \<Longrightarrow> re_backend e \<noteq> [] \<and> 0 \<le> re_score e \<and> re_score e \<le> 100"
  by (induction es arbitrary: i) (auto split: if_splits)

lemma load_rubric_range:
  "load_rubric yaml file = Inr es \<Longrightarrow> e \<in> set es \<Longrightarrow> 0 \<le> re_score e \<and> re_score e \<le> 100"
  by (auto simp: load_rubric_def split: file_text.splits sum.splits option.splits dest: check_entries_range)

lemma Max_in_range: "finite A \<Longrightarrow> (\<And>x. x \<in> A \<Longrightarrow> lo \<le> x \<and> x \<le> hi) \<Longrightarrow> A \<noteq> {} \<Longrightarrow> lo \<le> Max A \<and> Max A \<le> (hi :: int)"
  using Max_in [of A] by auto

lemma reasoning_score_eq:
  "reasoning_score rubric resident remote = Max (insert 0 (re_score ` set (backends_from_scores rubric resident remote)))"
  by (simp add: reasoning_score_def best_score_fold backends_from_scores_def advertised_available_eq)

text \<open>The advertised score is that of the best advertised backend. Without the environment overrides the score in an
  advertisement is the largest one of the backends it lists, 0 if it lists none, between 0 and 100 for every rubric that
  loads, and reasoning is marked as enabled exactly if the score is positive. The list and the score are computed by two
  different readings of the backend names.\<close>

theorem advertised_score_is_best_backend:
  assumes "load_rubric yaml file = Inr (av_rubric s)" "build_payload ac gen s = (s', ad)"
    and "\<not> ac_force_healthy ac" "ac_force_score ac = []"
  shows "\<exists>backends. ad_reasoning_score ad = Max (insert 0 (re_score ` set backends)) \<and>
    map_of (ad_capabilities ad) ''reasoning'' =
      Some (JObj [(''enabled'', JBool (ad_reasoning_score ad > 0)), (''backends'', JArr (map backend_json backends))]) \<and>
    set backends \<subseteq> set (av_rubric s) \<and> 0 \<le> ad_reasoning_score ad \<and> ad_reasoning_score ad \<le> 100"
proof -
  obtain client caps err where c: "runtime_get (ac_now ac) (ac_done_at ac) (ac_runtime ac) (av_runtime s) = (client, caps, err)"
    by (metis prod_cases3)
  let ?bs = "backends_from_scores (av_rubric s) (resident_models caps) (remote_apis caps)"
  have score: "ad_reasoning_score ad = Max (insert 0 (re_score ` set ?bs))"
    and caps: "map_of (ad_capabilities ad) ''reasoning'' =
      Some (JObj [(''enabled'', JBool (ad_reasoning_score ad > 0)), (''backends'', JArr (map backend_json ?bs))])"
    using assms(2-4) c
    by (auto simp: build_payload_def Let_def forced_def count_failures_def reasoning_score_eq case_prod_beta)
  have "set ?bs \<subseteq> set (av_rubric s)" by (auto simp: backends_from_scores_def)
  moreover have "0 \<le> Max (insert 0 (re_score ` set ?bs)) \<and> Max (insert 0 (re_score ` set ?bs)) \<le> 100"
    by (rule Max_in_range) (use load_rubric_range [OF assms(1)] calculation in auto)
  ultimately show ?thesis using score caps by auto
qed


section \<open>Delivery\<close>

text \<open>
  The peers as a network: the registry behind each address, and how many advertisements have been handled so far; the
  \<open>k\<close>-th is handled at \<open>clock k\<close>.
\<close>

record peer_net =
  pn_regs :: "string \<rightharpoonup> registry"
  pn_count :: nat

definition deliver ::
  "(nat \<Rightarrow> time) \<Rightarrow> string \<Rightarrow> peer_net \<Rightarrow> string \<Rightarrow> advertisement \<Rightarrow> peer_net \<times> http_status option" where
  "deliver clock remote net addr ad =
     (case pn_regs net addr of
        None \<Rightarrow> (net, None)
      | Some r \<Rightarrow>
          (case handle_advertise None (clock (pn_count net)) r () (Some ad) remote of
             (r1, _, st) \<Rightarrow> (net\<lparr>pn_regs := (pn_regs net)(addr \<mapsto> r1), pn_count := Suc (pn_count net)\<rparr>, Some st)))"

abbreviation after_ad :: "time \<Rightarrow> registry \<Rightarrow> advertisement \<Rightarrow> string \<Rightarrow> registry" where
  "after_ad now r ad remote \<equiv> fst (bind_member now r (Some ad) remote)"

lemma handle_advertise_fst: "fst (handle_advertise promote now r w (Some ad) remote) = after_ad now r ad remote"
  by (auto simp: handle_advertise_def split: prod.splits option.splits peers_error.splits)

lemma deliver_unknown: "pn_regs net addr = None \<Longrightarrow> deliver clock remote net addr ad = (net, None)"
  by (simp add: deliver_def)

lemma deliver_known:
  "pn_regs net addr = Some r \<Longrightarrow> fst (deliver clock remote net addr ad) =
     net\<lparr>pn_regs := (pn_regs net)(addr \<mapsto> after_ad (clock (pn_count net)) r ad remote), pn_count := Suc (pn_count net)\<rparr>"
  using handle_advertise_fst [of None "clock (pn_count net)" r "()" ad remote] by (auto simp: deliver_def split: prod.splits)

lemma advertise_one_fst: "fst (advertise_one post ad target x) = fst (post (fst x) (fst target) ad)"
  by (auto simp: advertise_one_def split: prod.splits option.splits)

abbreviation deliver_all ::
  "(nat \<Rightarrow> time) \<Rightarrow> string \<Rightarrow> advertisement \<Rightarrow> (string \<times> time) list \<Rightarrow> peer_net \<times> time list \<Rightarrow> peer_net \<times> time list" where
  "deliver_all clock remote ad sched x \<equiv> fold (advertise_one (deliver clock remote) ad) sched x"

lemma deliver_other:
  "addr \<noteq> a \<Longrightarrow> pn_regs (fst (deliver clock remote net a ad)) addr = pn_regs net addr"
  by (cases "pn_regs net a") (auto simp: deliver_unknown deliver_known)

lemma deliver_count: "pn_count (fst (deliver clock remote net a ad)) \<le> Suc (pn_count net)" "pn_count net \<le> pn_count (fst (deliver clock remote net a ad))"
  by (cases "pn_regs net a"; simp add: deliver_unknown deliver_known)+

lemma deliver_all_other:
  "addr \<notin> set (map fst sched) \<Longrightarrow> pn_regs (fst (deliver_all clock remote ad sched x)) addr = pn_regs (fst x) addr"
  by (induction sched arbitrary: x) (auto simp: advertise_one_fst deliver_other)

lemma deliver_all_reaches:
  assumes "distinct (map fst sched)" "addr \<in> set (map fst sched)" "pn_regs (fst x) addr = Some r"
  shows "\<exists>k. pn_count (fst x) \<le> k \<and> k < pn_count (fst x) + length sched \<and>
    pn_regs (fst (deliver_all clock remote ad sched x)) addr = Some (after_ad (clock k) r ad remote)"
  using assms
proof (induction sched arbitrary: x)
  case (Cons t sched)
  show ?case
  proof (cases "fst t = addr")
    case True
    with Cons.prems show ?thesis
      by (intro exI [of _ "pn_count (fst x)"]) (simp add: deliver_all_other advertise_one_fst deliver_known)
  next
    case False
    let ?x = "advertise_one (deliver clock remote) ad t x"
    have "pn_regs (fst ?x) addr = Some r" using Cons.prems(3) False by (simp add: advertise_one_fst deliver_other)
    from Cons.IH [OF _ _ this] Cons.prems False obtain k where
      "pn_count (fst ?x) \<le> k" "k < pn_count (fst ?x) + length sched"
      "pn_regs (fst (deliver_all clock remote ad sched ?x)) addr = Some (after_ad (clock k) r ad remote)" by auto
    then show ?thesis
      using deliver_count [where clock = clock and remote = remote and net = "fst x" and a = "fst t" and ad = ad] by (intro exI [of _ k]) (auto simp: advertise_one_fst)
  qed
qed simp

text \<open>A predicate on one registry that every advertisement of a broadcast keeps.\<close>

lemma deliver_all_keeps:
  assumes "\<And>now r. P r \<Longrightarrow> P (after_ad now r ad remote)" "pn_regs (fst x) addr = Some r" "P r"
  shows "\<exists>r1. pn_regs (fst (deliver_all clock remote ad sched x)) addr = Some r1 \<and> P r1"
  using assms(2,3)
proof (induction sched arbitrary: x r)
  case (Cons t sched)
  obtain r1 where "pn_regs (fst (advertise_one (deliver clock remote) ad t x)) addr = Some r1" "P r1"
    using Cons.prems assms(1) by (cases "fst t = addr") (auto simp: advertise_one_fst deliver_known deliver_other)
  from Cons.IH [OF this] show ?case by simp
qed simp

lemma map_of_put_member: "map_of (rg_members (put_member r i m)) j = (if j = i then Some m else map_of (rg_members r) j)"
  by (simp add: put_member_def update_conv')

text \<open>What an accepted advertisement leaves behind.\<close>

definition shows_ad :: "registry \<Rightarrow> advertisement \<Rightarrow> time \<Rightarrow> bool" where
  "shows_ad r ad now \<longleftrightarrow>
     (\<exists>m. map_of (rg_members r) (ad_member_id ad) = Some m \<and> pm_latest_ad m = Some ad \<and> pm_last_ad m = now \<and>
        (ad_lan_address ad \<noteq> [] \<longrightarrow> pm_address m = ad_lan_address ad))"

definition takes_ad :: "registry \<Rightarrow> member_id \<Rightarrow> u64 \<Rightarrow> bool" where
  "takes_ad r i gen \<longleftrightarrow>
     i \<noteq> [] \<and> i \<notin> rg_revocations r \<and>
     (case map_of (rg_members r) i of None \<Rightarrow> total_locked r < rg_max_entries r | Some m \<Rightarrow> pm_ad_generation m \<le> gen)"

lemma accepted_ad:
  "takes_ad r (ad_member_id ad) (ad_generation ad) \<Longrightarrow> shows_ad (after_ad now r ad remote) ad now"
  by (auto simp: takes_ad_def shows_ad_def bind_member_def stale_ad_def map_of_put_member refreshed_member_def new_member_def
      bind_addr_def Let_def not_le split: option.splits)

lemma build_payload_fields:
  "build_payload ac gen s = (s', ad) \<Longrightarrow> ad_member_id ad = av_member_id s \<and> ad_generation ad = gen \<and>
     ad_lan_address ad = av_lan_address s \<and> av_member_id s' = av_member_id s \<and> av_generation s' = av_generation s"
  by (auto simp: build_payload_def Let_def case_prod_beta)

lemma advertise_eq:
  "advertise post ac sched s w =
     (let (s1, ad) = build_payload ac (av_generation s + 1) (s\<lparr>av_generation := av_generation s + 1\<rparr>);
          x = fold (advertise_one post ad) sched (w, av_failures s1)
      in (s1\<lparr>av_failures := snd x\<rparr>, fst x))"
  by (simp add: advertise_def Let_def case_prod_beta)

text \<open>C18: A broadcast refreshes every peer. A daemon that broadcasts to the addresses of its registry, in any order,
  leaves at each of those peers that has not revoked it, has room for it and has seen no later advertisement of it, its
  new advertisement as the latest one, dated by that peer's clock, with its listening address.\<close>

theorem broadcast_refreshes_peers:
  assumes "advertise (deliver clock remote) ac sched s net = (s', net')" "valid_schedule (av_member_id s) own sched"
    and "addr \<in> broadcast_addresses (av_member_id s) own" "pn_regs net addr = Some r"
    and "takes_ad r (av_member_id s) (av_generation s + 1)"
  shows "av_generation s' = av_generation s + 1 \<and>
    (\<exists>ad k r'. ad = snd (build_payload ac (av_generation s + 1) s) \<and> k < length sched \<and> pn_regs net' addr = Some r' \<and>
       ad_generation ad = av_generation s' \<and> shows_ad r' ad (clock (pn_count net + k)))"
proof -
  obtain s1 ad where b: "build_payload ac (av_generation s + 1) (s\<lparr>av_generation := av_generation s + 1\<rparr>) = (s1, ad)"
    by fastforce
  note f = build_payload_fields [OF b]
  have same: "snd (build_payload ac (av_generation s + 1) s) = ad"
    using b by (auto simp: build_payload_def Let_def case_prod_beta)
  let ?x = "deliver_all clock remote ad sched (net, av_failures s1)"
  have e: "s' = s1\<lparr>av_failures := snd ?x\<rparr>" "net' = fst ?x" using assms(1) b by (auto simp: advertise_eq Let_def)
  obtain k where k: "pn_count net \<le> k" "k < pn_count net + length sched"
      "pn_regs net' addr = Some (after_ad (clock k) r ad remote)"
    using deliver_all_reaches [of sched addr "(net, av_failures s1)" r clock remote ad] assms(2-4) e(2) by (auto simp: valid_schedule_def)
  have "shows_ad (after_ad (clock k) r ad remote) ad (clock k)" using assms(5) f by (intro accepted_ad) simp
  with k f e same show ?thesis by (intro conjI exI [of _ ad] exI [of _ "k - pn_count net"]) auto
qed


section \<open>After a restart\<close>

definition keeps_entry :: "member_id \<Rightarrow> peer_member \<Rightarrow> registry \<Rightarrow> bool" where
  "keeps_entry i m r \<longleftrightarrow>
     (\<exists>m1. map_of (rg_members r) i = Some m1 \<and> pm_latest_ad m1 = pm_latest_ad m \<and> pm_last_ad m1 = pm_last_ad m \<and>
        pm_ad_generation m1 = pm_ad_generation m)"

lemma stale_ad_keeps:
  "0 < ad_generation ad \<Longrightarrow> ad_generation ad < pm_ad_generation m \<Longrightarrow> ad_member_id ad = i \<Longrightarrow> keeps_entry i m r \<Longrightarrow>
     keeps_entry i m (after_ad now r ad remote)"
  by (auto simp: keeps_entry_def bind_member_def stale_ad_def map_of_put_member)

text \<open>How often a sequence of events broadcasts at most.\<close>

fun broadcasts :: "adv_event list \<Rightarrow> nat" where
  "broadcasts [] = 0"
| "broadcasts (Bumped t # es) = broadcasts es"
| "broadcasts (e # es) = Suc (broadcasts es)"

lemma advertise_keeps:
  assumes "advertise (deliver clock remote) ac sched s net = (s', net')" "pn_regs net addr = Some r"
    and "keeps_entry (av_member_id s) m r" "av_generation s = of_nat n" "Suc n < unat (pm_ad_generation m)"
  shows "av_generation s' = of_nat (Suc n) \<and> av_member_id s' = av_member_id s \<and>
    (\<exists>r'. pn_regs net' addr = Some r' \<and> keeps_entry (av_member_id s) m r')"
proof -
  obtain s1 ad where b: "build_payload ac (av_generation s + 1) (s\<lparr>av_generation := av_generation s + 1\<rparr>) = (s1, ad)"
    by fastforce
  note f = build_payload_fields [OF b]
  let ?x = "deliver_all clock remote ad sched (net, av_failures s1)"
  have e: "s' = s1\<lparr>av_failures := snd ?x\<rparr>" "net' = fst ?x" using assms(1) b by (auto simp: advertise_eq Let_def)
  have "unat (pm_ad_generation m) < 2 ^ 64" using unsigned_less [of "pm_ad_generation m"] by simp
  with assms(5) have "take_bit 64 (Suc n) = Suc n" by (intro take_bit_nat_eq_self) simp
  moreover have "ad_generation ad = of_nat (Suc n)" using f assms(4) by (simp add: add.commute)
  ultimately have n: "unat (ad_generation ad) = Suc n" by (simp add: unsigned_of_nat del: of_nat_Suc)
  have gen: "0 < ad_generation ad" "ad_generation ad < pm_ad_generation m"
    using n assms(5) by (simp_all add: word_less_nat_alt)
  have "\<exists>r'. pn_regs net' addr = Some r' \<and> keeps_entry (av_member_id s) m r'"
    unfolding e(2)
    by (rule deliver_all_keeps [where P = "keeps_entry (av_member_id s) m"], rule stale_ad_keeps [OF gen]) (use assms(2,3) f in auto)
  with f e assms(4) show ?thesis by (simp add: add.commute)
qed

lemma adv_run_keeps:
  assumes "fold (adv_step (deliver clock remote)) events (s, net) = (s', net')" "pn_regs net addr = Some r"
    and "keeps_entry (av_member_id s) m r" "av_generation s = of_nat n" "n + broadcasts events < unat (pm_ad_generation m)"
  shows "\<exists>r'. pn_regs net' addr = Some r' \<and> keeps_entry (av_member_id s) m r'"
  using assms
proof (induction events arbitrary: s net r n)
  case (Cons e es)
  obtain s1 net1 where one: "adv_step (deliver clock remote) e (s, net) = (s1, net1)" by fastforce
  have rest: "fold (adv_step (deliver clock remote)) es (s1, net1) = (s', net')" using Cons.prems(1) one by simp
  have quiet: ?case if "s1 = s\<lparr>av_last_bump := b, av_queued := q\<rparr>" "net1 = net" for b q
    using Cons.IH [OF rest, of r n] Cons.prems(2-5) that by (cases e) auto
  have loud: ?case if "advertise (deliver clock remote) ac sched (s\<lparr>av_queued := q\<rparr>) net = (s1, net1)"
      "broadcasts (e # es) = Suc (broadcasts es)" for ac sched q
  proof -
    have "av_generation s1 = of_nat (Suc n) \<and> av_member_id s1 = av_member_id s \<and>
        (\<exists>r'. pn_regs net1 addr = Some r' \<and> keeps_entry (av_member_id s) m r')"
      using advertise_keeps [OF that(1) Cons.prems(2), of m n] Cons.prems(3-5) that(2) by auto
    then show ?thesis using Cons.IH [OF rest, of _ "Suc n"] Cons.prems(5) that(2) by auto
  qed
  show ?case
  proof (cases e)
    case (Timer ac sched)
    with one have "advertise (deliver clock remote) ac sched (s\<lparr>av_queued := av_queued s\<rparr>) net = (s1, net1)" by (simp add: adv_step_def)
    with Timer show ?thesis by (intro loud [of ac sched "av_queued s"]) simp_all
  next
    case (TakeBump ac sched)
    show ?thesis
    proof (cases "av_queued s")
      case True
      with TakeBump one show ?thesis by (intro loud [of ac sched False]) (simp_all add: adv_step_def)
    next
      case False
      with TakeBump one show ?thesis by (intro quiet [where b = "av_last_bump s" and q = "av_queued s"]) (simp_all add: adv_step_def)
    qed
  next
    case (Bumped t)
    with one show ?thesis
      by (intro quiet [where b = "av_last_bump s1" and q = "av_queued s1"]) (auto simp: adv_step_def bump_def split: if_splits)
  qed
qed auto

text \<open>C39: A restarted node is ignored for as long as it ran before. The generation of advertisements starts at 1 with every
  start of the daemon, and a peer drops advertisements of a lower generation than the last one it took. So as long as the
  restarted daemon has broadcast fewer times than that generation says, its peers keep its old advertisement, whatever
  the new ones say, and 90 seconds after that one they count it as stale.\<close>

theorem restarted_node_is_ignored:
  assumes "fold (adv_step (deliver clock remote)) events (s, net) = (s', net')" "av_generation s = 0"
    and "pn_regs net addr = Some r" "map_of (rg_members r) (av_member_id s) = Some m"
    and "broadcasts events < unat (pm_ad_generation m)"
  shows "\<exists>r' m'. pn_regs net' addr = Some r' \<and> map_of (rg_members r') (av_member_id s) = Some m' \<and>
    pm_latest_ad m' = pm_latest_ad m \<and> pm_last_ad m' = pm_last_ad m \<and>
    (\<forall>now. time_sub now (pm_last_ad m) \<ge> ad_fresh_window \<longrightarrow> \<not> ad_fresh m' now)"
proof -
  have "keeps_entry (av_member_id s) m r" using assms(4) by (simp add: keeps_entry_def)
  from adv_run_keeps [OF assms(1,3) this, of 0] assms(2,5) show ?thesis
    by (auto simp: keeps_entry_def ad_fresh_def)
qed


section \<open>When the runtime is down\<close>

lemma no_backends: "reasoning_score rubric [] [] = 0"
  by (auto simp: reasoning_score_eq backends_from_scores_def advertised_available_def)

text \<open>Two outages. When Ollama is down the adapter still answers, and the next advertisement drops the score to 0 and the
  scribe flag. When the adapter itself is down the daemon goes on with the answer it has, however old: the cache does not
  change, and score and scribe flag are those of the last answer, in this and in every later advertisement.\<close>

theorem outage_of_the_runtime:
  assumes "rc_cached (av_runtime s) = Some (old, t)" "time_sub (ac_now ac) t \<ge> rc_ttl (av_runtime s)"
    and "build_payload ac gen s = (s', ad)" "\<not> ac_force_healthy ac" "ac_force_score ac = []"
  shows "(ac_runtime ac = runtime_reply (handle_capabilities (NoTags e) reply) \<longrightarrow>
      \<not> ad_scribe_capable ad \<and> ad_reasoning_score ad = 0) \<and>
    (ac_runtime ac = Inl e' \<longrightarrow> av_runtime s' = av_runtime s \<and>
      ad_scribe_capable ad = (cp_healthy old \<and> resident_models (Some old) \<noteq> []) \<and>
      ad_reasoning_score ad = reasoning_score (av_rubric s) (resident_models (Some old)) (remote_apis (Some old)))"
proof -
  have down: "runtime_reply (handle_capabilities (NoTags e) reply) =
      Inr \<lparr>cp_kind = ''ollama'', cp_healthy = False, cp_models = [], cp_stream = True, cp_vendor = []\<rparr>"
    by (simp add: runtime_reply_def handle_capabilities_def ollama_capabilities_def ollama_health_def Let_def)
  show ?thesis
    using assms
    by (auto simp: build_payload_def runtime_get_def last_with_err_def forced_def count_failures_def down no_backends
        resident_models_def remote_apis_def Let_def case_prod_beta)
qed

section \<open>Samples\<close>

definition sample_service :: adv_service where
  "sample_service =
     \<lparr>av_clan_id = ''c'', av_member_id = ''a'', av_lan_address = ''a:7'', av_rubric = [\<lparr>re_backend = ''local:m'', re_score = 40\<rparr>],
      av_failures = [], av_runtime = new_runtime_client 0, av_bump_rate = second, av_generation = 0, av_last_bump = 0, av_queued = False\<rparr>"

definition sample_caps :: capabilities where
  "sample_caps =
     \<lparr>cp_kind = ''ollama'', cp_healthy = True, cp_models = [\<lparr>mi_name = ''m'', mi_size = 1, mi_resident = True\<rparr>], cp_stream = True, cp_vendor = []\<rparr>"

definition sample_context :: "string + capabilities \<Rightarrow> adv_context" where
  "sample_context reply =
     \<lparr>ac_hardware = [], ac_system_score = (\<lambda>_ _. 10), ac_now = minute, ac_done_at = minute, ac_runtime = reply,
      ac_force_healthy = False, ac_force_score = [], ac_pins = None, ac_os = ''linux''\<rparr>"

theorem advertised_score_is_best_backend_witness:
  "\<exists>backends. ad_reasoning_score (snd (build_payload (sample_context (Inr sample_caps)) 1 sample_service)) =
       Max (insert 0 (re_score ` set backends)) \<and> set backends \<subseteq> set (av_rubric sample_service)"
  using advertised_score_is_best_backend [of "\<lambda>_. Inr (av_rubric sample_service)" "FileText []" sample_service
      "sample_context (Inr sample_caps)" 1 "fst (build_payload (sample_context (Inr sample_caps)) 1 sample_service)"
      "snd (build_payload (sample_context (Inr sample_caps)) 1 sample_service)"]
  by (auto simp: load_rubric_def sample_service_def sample_context_def)

definition sample_net :: peer_net where
  "sample_net = \<lparr>pn_regs = [''b:7'' \<mapsto> sample_registry], pn_count = 0\<rparr>"

definition sample_own :: registry where
  "sample_own = fst (upsert_candidate 0 new_registry ''b:7'' SourceManual)"

lemma sample_registry_a:
  "map_of (rg_members sample_registry) ''a'' = Some (new_member 1 new_registry (sample_ad ''a'' 5) [])"
  by (simp add: sample_registry_def bind_member_def new_registry_def sample_ad_def total_locked_def
      default_max_entries_def put_member_def)

lemma sample_registry_unrevoked: "rg_revocations sample_registry = {}"
  by (simp add: sample_registry_def bind_member_def new_registry_def sample_ad_def total_locked_def
      default_max_entries_def put_member_def)

lemma sample_own_addresses: "broadcast_addresses ''a'' sample_own = {''b:7''}"
  by (simp add: sample_own_def upsert_candidate_def new_registry_def total_locked_def default_max_entries_def
      broadcast_addresses_def snapshot_def del: set_filter)

theorem broadcast_refreshes_peers_witness:
  "\<exists>r'. pn_regs (snd (advertise (deliver (\<lambda>k. minute) ''a:9'') (sample_context (Inr sample_caps)) [(''b:7'', minute)]
       (sample_service\<lparr>av_generation := 4\<rparr>) sample_net)) ''b:7'' = Some r' \<and> (\<exists>ad. ad_generation ad = 5 \<and> shows_ad r' ad minute)"
proof -
  let ?s = "sample_service\<lparr>av_generation := 4\<rparr>"
  obtain s' net' where a: "advertise (deliver (\<lambda>k. minute) ''a:9'') (sample_context (Inr sample_caps)) [(''b:7'', minute)] ?s sample_net = (s', net')"
    by fastforce
  have "takes_ad sample_registry ''a'' 5"
    by (simp add: takes_ad_def sample_registry_a sample_registry_unrevoked new_member_def Let_def sample_ad_def)
  moreover have "av_member_id ?s = ''a''" "av_generation ?s + 1 = 5" "pn_regs sample_net ''b:7'' = Some sample_registry"
    by (simp_all add: sample_service_def sample_net_def)
  ultimately have "\<exists>r'. pn_regs net' ''b:7'' = Some r' \<and> (\<exists>ad. ad_generation ad = 5 \<and> shows_ad r' ad minute)"
    using broadcast_refreshes_peers [OF a, of sample_own "''b:7''" sample_registry]
    by (auto simp: valid_schedule_def sample_own_addresses)
  then show ?thesis by (simp add: a)
qed

theorem restarted_node_is_ignored_witness:
  "\<exists>r' m'. pn_regs (snd (fold (adv_step (deliver (\<lambda>k. minute) ''a:9''))
       [Timer (sample_context (Inr sample_caps)) [(''b:7'', minute)], Bumped 7,
        TakeBump (sample_context (Inr sample_caps)) [(''b:7'', minute)]] (sample_service, sample_net))) ''b:7'' = Some r' \<and>
     map_of (rg_members r') ''a'' = Some m' \<and> pm_latest_ad m' = Some (sample_ad ''a'' 5)"
proof -
  let ?es = "[Timer (sample_context (Inr sample_caps)) [(''b:7'', minute)], Bumped 7,
        TakeBump (sample_context (Inr sample_caps)) [(''b:7'', minute)]]"
  obtain s' net' where a: "fold (adv_step (deliver (\<lambda>k. minute) ''a:9'')) ?es (sample_service, sample_net) = (s', net')"
    by fastforce
  have "av_generation sample_service = 0" "av_member_id sample_service = ''a''" "pn_regs sample_net ''b:7'' = Some sample_registry"
    "broadcasts ?es < unat (pm_ad_generation (new_member 1 new_registry (sample_ad ''a'' 5) []))"
    by (simp_all add: sample_service_def sample_net_def new_member_def Let_def sample_ad_def)
  with restarted_node_is_ignored [OF a, of "''b:7''" sample_registry "new_member 1 new_registry (sample_ad ''a'' 5) []"] sample_registry_a
  show ?thesis unfolding a by (auto simp: new_member_def Let_def)
qed

theorem outage_of_the_runtime_witness:
  "ad_scribe_capable (snd (build_payload (sample_context (Inl ''refused'')) 2
     (sample_service\<lparr>av_runtime := \<lparr>rc_ttl = second, rc_cached = Some (sample_caps, 0)\<rparr>\<rparr>)))"
proof -
  let ?s = "sample_service\<lparr>av_runtime := \<lparr>rc_ttl = second, rc_cached = Some (sample_caps, 0)\<rparr>\<rparr>"
  let ?p = "build_payload (sample_context (Inl ''refused'')) 2 ?s"
  have "ad_scribe_capable (snd ?p) = (cp_healthy sample_caps \<and> resident_models (Some sample_caps) \<noteq> [])"
    using outage_of_the_runtime [of ?s sample_caps 0 "sample_context (Inl ''refused'')" 2 "fst ?p" "snd ?p" _ _ "''refused''"]
    by (simp add: sample_context_def time_facts max_duration_def min_duration_def)
  then show ?thesis by (simp add: sample_caps_def resident_models_def)
qed

end
