(* ===== verification/Router.thy ===== *)
theory Router
  imports Http Transport Peers ElectionState
begin

text \<open>
  The stamping client (\<open>cland/internal/transport/client.go\<close>) and the router of reasoning requests
  (\<open>cland/internal/router/router.go\<close>). TLS and the certificate pin, the network below the client, the local runtime and
  the check of a URL are parameters; timeouts appear as failing calls.
\<close>

section \<open>The stamping client\<close>

text \<open>A request on its way out: a body that cannot be read is \<open>None\<close>.\<close>

record out_request =
  ou_method :: string
  ou_host :: string
  ou_path :: string
  ou_headers :: headers
  ou_body :: "bytes option"

record transport_client =
  tc_member :: member_id
  tc_keys :: key_provider
  tc_pin :: string
  tc_timeout :: duration

definition new_client :: "member_id \<Rightarrow> key_provider option \<Rightarrow> string \<Rightarrow> duration \<Rightarrow> transport_client option" where
  "new_client member provider pin timeout =
     (if member = [] then None
      else case provider of
        None \<Rightarrow> None
      | Some kp \<Rightarrow>
          if pin = [] then None
          else Some \<lparr>tc_member = member, tc_keys = kp, tc_pin = pin, tc_timeout = (if timeout \<le> 0 then 30 * second else timeout)\<rparr>)"

definition new_nonce :: "bytes option \<Rightarrow> string option" where
  "new_nonce random = map_option hex_encode random"

text \<open>\<open>Client.Do\<close> up to the call of the underlying client; \<open>random\<close> are the 16 bytes drawn, or \<open>None\<close> when drawing fails.\<close>

definition client_do ::
  "(bytes \<Rightarrow> bytes) \<Rightarrow> (bytes \<Rightarrow> bytes \<Rightarrow> bytes) \<Rightarrow> time \<Rightarrow> bytes option \<Rightarrow> transport_client \<Rightarrow> out_request \<Rightarrow> string + out_request" where
  "client_do sha hmac now random c req =
     (case ou_body req of
        None \<Rightarrow> Inl ''transport.Client: read body''
      | Some body \<Rightarrow>
          (case new_nonce random of
             None \<Rightarrow> Inl ''transport.Client: nonce''
           | Some nonce \<Rightarrow>
               let ts = now div 1000000;
                   mac = compute_mac sha hmac (kp_current (tc_keys c)) (ou_method req) (ou_path req) body ts nonce;
                   h1 = header_set (ou_headers req) ''X-Minti-Member'' (tc_member c);
                   h2 = header_set h1 ''X-Minti-Timestamp'' (dec_int ts);
                   h3 = header_set h2 ''X-Minti-Nonce'' nonce;
                   h4 = header_set h3 ''X-Minti-HMAC'' mac
               in Inr (req\<lparr>ou_headers := h4\<rparr>)))"

text \<open>What the middleware of the receiving daemon reads from it.\<close>

definition arriving :: "out_request \<Rightarrow> request" where
  "arriving req =
     \<lparr>rq_method = ou_method req, rq_path = ou_path req, rq_body = ou_body req,
      rq_member = header_get (ou_headers req) ''X-Minti-Member'', rq_timestamp = header_get (ou_headers req) ''X-Minti-Timestamp'',
      rq_nonce = header_get (ou_headers req) ''X-Minti-Nonce'', rq_mac = header_get (ou_headers req) ''X-Minti-HMAC''\<rparr>"

section \<open>Forwarding headers\<close>

definition hop_by_hop_names :: "string list" where
  "hop_by_hop_names =
     [''Connection'', ''Keep-Alive'', ''Proxy-Authenticate'', ''Proxy-Authorization'', ''Te'', ''Trailer'', ''Transfer-Encoding'',
      ''Upgrade'', ''Host'']"

definition is_hop_by_hop :: "string \<Rightarrow> bool" where
  "is_hop_by_hop name \<longleftrightarrow> canonical_key name \<in> set hop_by_hop_names"

definition minti_auth_names :: "string list" where
  "minti_auth_names = [''X-Minti-Member'', ''X-Minti-Timestamp'', ''X-Minti-Nonce'', ''X-Minti-Hmac'']"

definition is_minti_auth :: "string \<Rightarrow> bool" where
  "is_minti_auth name \<longleftrightarrow> canonical_key name \<in> set minti_auth_names"

definition copy_forwardable_headers :: "headers \<Rightarrow> headers \<Rightarrow> headers" where
  "copy_forwardable_headers dst src =
     foldl (\<lambda>d (k, vs). if is_hop_by_hop k then d else if is_minti_auth k then d else foldl (header_add k) d vs) dst src"

section \<open>The router\<close>

text \<open>
  A response arrives in chunks, as the copy loop reads them; \<open>room\<close> is the number of chunks the client still takes
  (\<open>None\<close> when it stays).
\<close>

record response =
  rs_status :: http_status
  rs_headers :: headers
  rs_chunks :: "bytes list"

definition stream_response :: "nat option \<Rightarrow> response \<Rightarrow> response" where
  "stream_response room resp =
     \<lparr>rs_status = rs_status resp,
      rs_headers = foldl (\<lambda>d (k, vs). if is_hop_by_hop k then d else foldl (header_add k) d vs) [] (rs_headers resp),
      rs_chunks = (case room of None \<Rightarrow> rs_chunks resp | Some n \<Rightarrow> take n (rs_chunks resp))\<rparr>"

record router =
  ro_self_id :: member_id
  ro_clan_id :: string
  ro_runtime_url :: string
  ro_proxy_timeout :: duration
  ro_requests :: u64
  ro_self_routes :: u64
  ro_peer_proxies :: u64
  ro_rejects :: u64
  ro_audit :: "audit_event list"

text \<open>The options whose absence is an error are flags here: the election state, the registry and the peer client.\<close>

definition new_router :: "member_id \<Rightarrow> string \<Rightarrow> bool \<Rightarrow> bool \<Rightarrow> string \<Rightarrow> bool \<Rightarrow> duration \<Rightarrow> router option" where
  "new_router self_id clan_id has_election has_registry runtime_url has_client timeout =
     (if self_id = [] \<or> clan_id = [] then None
      else if \<not> has_election then None
      else if \<not> has_registry then None
      else if \<not> has_client then None
      else Some \<lparr>ro_self_id = self_id, ro_clan_id = clan_id,
        ro_runtime_url = (if runtime_url = [] then ''http://127.0.0.1:7780'' else runtime_url),
        ro_proxy_timeout = (if timeout \<le> 0 then 30 * minute else timeout),
        ro_requests = 0, ro_self_routes = 0, ro_peer_proxies = 0, ro_rejects = 0, ro_audit = []\<rparr>)"

definition router_patterns :: "(string \<times> string) list" where
  "router_patterns = [(''POST'', ''/v1/chat/completions''), (''POST'', ''/v1/messages''), (''POST'', ''/api/chat'')]"

record inbound =
  in_method :: string
  in_path :: string
  in_headers :: headers
  in_body :: bytes

definition find_peer_addr :: "registry \<Rightarrow> member_id \<Rightarrow> string" where
  "find_peer_addr r i =
     (case find (\<lambda>m. pm_id m = i) (snd (snapshot r)) of None \<Rightarrow> [] | Some m \<Rightarrow> pm_address m)"

definition error_response :: "http_status \<Rightarrow> headers \<Rightarrow> response" where
  "error_response st h = \<lparr>rs_status = st, rs_headers = h, rs_chunks = []\<rparr>"

text \<open>
  A call of an upstream acts on the router as well as on the rest \<open>w\<close>: the request can come back to this daemon before
  the call returns. \<open>url_ok\<close> says whether a request for this host and path can be built.
\<close>

type_synonym 'w upstream = "router \<times> 'w \<Rightarrow> out_request \<Rightarrow> (router \<times> 'w) \<times> (string + response)"

definition upstream_request :: "string \<Rightarrow> inbound \<Rightarrow> out_request" where
  "upstream_request host req =
     \<lparr>ou_method = in_method req, ou_host = host, ou_path = in_path req,
      ou_headers = copy_forwardable_headers [] (in_headers req), ou_body = Some (in_body req)\<rparr>"

definition add_audit :: "audit_event \<Rightarrow> router \<times> 'w \<Rightarrow> router \<times> 'w" where
  "add_audit e rw = ((fst rw)\<lparr>ro_audit := ro_audit (fst rw) @ [e]\<rparr>, snd rw)"

definition proxy ::
  "(string \<Rightarrow> string \<Rightarrow> bool) \<Rightarrow> nat option \<Rightarrow> 'w upstream \<Rightarrow> string \<Rightarrow> string \<Rightarrow> string \<Rightarrow> inbound \<Rightarrow> router \<times> 'w \<Rightarrow> (router \<times> 'w) \<times> response" where
  "proxy url_ok room call host tool failure req rw =
     (if \<not> url_ok host (in_path req) then (rw, error_response 500 [])
      else case call rw (upstream_request host req) of
        (rw1, Inl e) \<Rightarrow> (add_audit (Audit tool ''deny'' failure) rw1, error_response 502 [])
      | (rw1, Inr resp) \<Rightarrow> (add_audit (Audit tool ''allow'' []) rw1, stream_response room resp))"

definition proxy_local ::
  "(string \<Rightarrow> string \<Rightarrow> bool) \<Rightarrow> nat option \<Rightarrow> 'w upstream \<Rightarrow> inbound \<Rightarrow> router \<times> 'w \<Rightarrow> (router \<times> 'w) \<times> response" where
  "proxy_local url_ok room call req rw =
     proxy url_ok room call (ro_runtime_url (fst rw)) ''router.self_route'' ''local_runtime_unreachable'' req rw"

definition proxy_peer ::
  "(string \<Rightarrow> string \<Rightarrow> bool) \<Rightarrow> nat option \<Rightarrow> 'w upstream \<Rightarrow> string \<Rightarrow> inbound \<Rightarrow> router \<times> 'w \<Rightarrow> (router \<times> 'w) \<times> response" where
  "proxy_peer url_ok room call addr req rw =
     proxy url_ok room call (''https://'' @ addr) ''router.peer_proxy'' ''peer_unreachable'' req rw"

definition handle_reasoning ::
  "(string \<Rightarrow> string \<Rightarrow> bool) \<Rightarrow> nat option \<Rightarrow> 'w upstream \<Rightarrow> 'w upstream \<Rightarrow> election_state \<Rightarrow> registry \<Rightarrow> inbound \<Rightarrow> router \<times> 'w \<Rightarrow>
     (router \<times> 'w) \<times> response" where
  "handle_reasoning url_ok room local peer es reg req rw =
     (let r1 = (fst rw)\<lparr>ro_requests := ro_requests (fst rw) + 1\<rparr>
      in if es_orchestrator es = [] then ((r1, snd rw), error_response 503 [])
         else if es_orchestrator es = ro_self_id r1 then
           proxy_local url_ok room local req (r1\<lparr>ro_self_routes := ro_self_routes r1 + 1\<rparr>, snd rw)
         else
           let addr = find_peer_addr reg (es_orchestrator es)
           in if addr = [] then
                ((r1\<lparr>ro_rejects := ro_rejects r1 + 1\<rparr>, snd rw),
                 error_response 503 [(''X-Minti-Expected-Orchestrator'', [es_orchestrator es])])
              else proxy_peer url_ok room peer addr req (r1\<lparr>ro_peer_proxies := ro_peer_proxies r1 + 1\<rparr>, snd rw))"


section \<open>A clan of daemons\<close>

text \<open>
  The daemons by address: their view of the election, their registry, their runtime, and the router as the state that
  changes. A request that reaches another daemon is handled there before the call returns; the stamps on it are left out,
  they are checked on arrival and never forwarded. \<open>n\<close> bounds how many daemons a request enters before the first caller's
  timeout ends all calls that are still open: a call that would enter one more fails.
\<close>

record daemons =
  dn_election :: "string \<Rightarrow> election_state"
  dn_registry :: "string \<Rightarrow> registry"
  dn_runtime :: "string \<Rightarrow> out_request \<Rightarrow> string + response"

definition inbound_of :: "out_request \<Rightarrow> inbound" where
  "inbound_of out =
     \<lparr>in_method = ou_method out, in_path = ou_path out, in_headers = ou_headers out,
      in_body = (case ou_body out of None \<Rightarrow> [] | Some b \<Rightarrow> b)\<rparr>"

primrec serve :: "nat \<Rightarrow> daemons \<Rightarrow> string \<Rightarrow> inbound \<Rightarrow> (string \<Rightarrow> router) \<Rightarrow> (string \<Rightarrow> router) \<times> response option" where
  "serve 0 d a req cl = (cl, None)"
| "serve (Suc n) d a req cl =
     (case handle_reasoning (\<lambda>_ _. True) None
         (\<lambda>rw out. (rw, dn_runtime d a out))
         (\<lambda>rw out.
            case serve n d (drop (length ''https://'') (ou_host out)) (inbound_of out) ((snd rw)(a := fst rw)) of
              (cl1, answer) \<Rightarrow> ((cl1 a, cl1), case answer of None \<Rightarrow> Inl ''timeout'' | Some resp \<Rightarrow> Inr resp))
         (dn_election d a) (dn_registry d a) req (cl a, cl) of
        (rw, resp) \<Rightarrow> ((snd rw)(a := fst rw), Some resp))"

end
