(* ===== verification/RouterProps.thy ===== *)
theory RouterProps
  imports Router
begin

text \<open>
  What the router forwards and how often: forwarded requests carry none of the caller's credentials and are accepted by
  the next daemon as the proxy's own, and over a clan of daemons a request ends at the Orchestrator when the views agree,
  and nowhere when two daemons each take the other for it.
\<close>

section \<open>Headers\<close>

definition wf_headers :: "headers \<Rightarrow> bool" where
  "wf_headers h \<longleftrightarrow> distinct (map fst h) \<and> (\<forall>k\<in>fst ` set h. canonical_key k = k)"

lemma header_values_Cons:
  "header_values ((k, vs) # h) j = (if canonical_key j = k then vs else header_values h j)"
  by (simp add: header_values_def)

lemma header_values_absent: "canonical_key j \<notin> fst ` set h \<Longrightarrow> header_values h j = []"
  by (simp add: header_values_def map_of_eq_None_iff [symmetric])

lemma header_values_add:
  "header_values (header_add k h v) j = header_values h j @ (if canonical_key j = canonical_key k then [v] else [])"
  by (simp add: header_values_def header_add_def update_conv')

lemma header_values_adds:
  "header_values (foldl (header_add k) h vs) j = header_values h j @ (if canonical_key j = canonical_key k then vs else [])"
  by (induction vs arbitrary: h) (simp_all add: header_values_add)

lemma header_values_set:
  "header_values (header_set h k v) j = (if canonical_key j = canonical_key k then [v] else header_values h j)"
  by (simp add: header_values_def header_set_def update_conv')

lemma same_canonical: "canonical_key j = canonical_key k \<Longrightarrow> is_hop_by_hop j = is_hop_by_hop k \<and> is_minti_auth j = is_minti_auth k"
  by (simp add: is_hop_by_hop_def is_minti_auth_def)

lemma copied_headers:
  assumes "wf_headers src"
  shows "header_values (copy_forwardable_headers dst src) j =
    header_values dst j @ (if is_hop_by_hop j \<or> is_minti_auth j then [] else header_values src j)"
  using assms
proof (induction src arbitrary: dst)
  case Nil
  then show ?case by (simp add: copy_forwardable_headers_def header_values_def)
next
  case (Cons e src)
  obtain k vs where e: "e = (k, vs)" by fastforce
  have wf: "wf_headers src" "canonical_key k = k" "k \<notin> fst ` set src" using Cons.prems e by (auto simp: wf_headers_def)
  let ?d = "if is_hop_by_hop k then dst else if is_minti_auth k then dst else foldl (header_add k) dst vs"
  have "copy_forwardable_headers dst (e # src) = copy_forwardable_headers ?d src" by (simp add: copy_forwardable_headers_def e)
  then show ?case
    using Cons.IH [OF wf(1), of ?d] wf same_canonical [of j k] header_values_absent [of j src]
    by (cases "canonical_key j = k") (auto simp: e header_values_Cons header_values_adds)
qed

lemma stamp_names [simp]:
  "canonical_key ''X-Minti-Member'' = ''X-Minti-Member''" "canonical_key ''X-Minti-Timestamp'' = ''X-Minti-Timestamp''"
  "canonical_key ''X-Minti-Nonce'' = ''X-Minti-Nonce''" "canonical_key ''X-Minti-HMAC'' = ''X-Minti-Hmac''"
  by code_simp+

section \<open>The stamp\<close>

lemma digits_dec_nat: "list_all is_digit (dec_nat n)"
proof (induction n rule: dec_nat.induct)
  case (1 n)
  then show ?case by (cases "n < 10") (auto simp: dec_nat.simps [of n] is_digit_def digit_char_def of_char_of)
qed

lemma dec_nat_not_empty: "dec_nat n \<noteq> []"
  by (simp add: dec_nat.simps [of n])

lemma parse_dec: "0 \<le> t \<Longrightarrow> t < 2 ^ 63 \<Longrightarrow> parse_int64 (dec_int t) = Some t"
proof -
  assume t: "0 \<le> t" "t < 2 ^ 63"
  obtain c ds where d: "dec_nat (nat t) = c # ds" using dec_nat_not_empty by (metis neq_Nil_conv)
  have "is_digit c" using digits_dec_nat [of "nat t"] d by simp
  then have "c \<noteq> CHR ''-''" "c \<noteq> CHR ''+''" by (auto simp: is_digit_def)
  moreover have "undec (c # ds) = nat t" using undec_dec_nat [of "nat t"] d by simp
  moreover have "list_all is_digit (c # ds)" using digits_dec_nat [of "nat t"] d by simp
  ultimately show ?thesis using t d by (simp add: parse_int64_def dec_int_def)
qed

lemma stamped:
  assumes "client_do sha hmac t (Some random) c req = Inr out"
  shows "\<exists>body. ou_body req = Some body \<and> ou_body out = Some body \<and> ou_method out = ou_method req \<and> ou_path out = ou_path req \<and>
    arriving out = \<lparr>rq_method = ou_method req, rq_path = ou_path req, rq_body = Some body, rq_member = tc_member c,
      rq_timestamp = dec_int (t div 1000000), rq_nonce = hex_encode random,
      rq_mac = compute_mac sha hmac (kp_current (tc_keys c)) (ou_method req) (ou_path req) body (t div 1000000) (hex_encode random)\<rparr> \<and>
    (\<forall>k. \<not> is_minti_auth k \<longrightarrow> header_values (ou_headers out) k = header_values (ou_headers req) k)"
proof -
  obtain body where body: "ou_body req = Some body" using assms by (cases "ou_body req") (auto simp: client_do_def)
  have auth: "is_minti_auth k \<longleftrightarrow> canonical_key k = ''X-Minti-Member'' \<or> canonical_key k = ''X-Minti-Timestamp'' \<or>
      canonical_key k = ''X-Minti-Nonce'' \<or> canonical_key k = ''X-Minti-Hmac''" for k
    by (simp add: is_minti_auth_def minti_auth_names_def)
  show ?thesis
    using assms unfolding client_do_def body new_nonce_def Let_def option.simps
    by (auto simp: arriving_def header_get_def header_values_set body auth)
qed

text \<open>C16: A forwarded request is the proxy's own. Whatever headers the caller sent, the upstream request has the caller's
  method, path, body and other end-to-end headers but none of the four authentication headers; and after the client has
  stamped it, the next daemon, with the same clan key as its current or grace key and a clock within 59 seconds, accepts
  it under the proxy's id.\<close>

theorem forwarded_request_is_resigned:
  assumes "wf_headers (in_headers req)" "client_do sha hmac t (Some random) c (upstream_request host req) = Inr out"
    and "kp_current (tc_keys c) = kp_current (tr_keys s) \<or> grace now (tr_keys s) = Some (kp_current (tc_keys c))"
    and "0 \<le> t" "t < 2 ^ 63" "\<bar>now - t\<bar> \<le> 59 * second"
    and "length (in_body req) \<le> max_body" "tc_member c \<noteq> []" "random \<noteq> []" "\<forall>k x. hmac k x \<noteq> []"
    and "hex_encode random \<notin> fst ` set (nc_members (tr_nonces s) (tc_member c))"
  shows "snd (auth_middleware sha hmac now s (arriving out)) = Inr (tc_member c) \<and>
    ou_method out = in_method req \<and> ou_path out = in_path req \<and> ou_body out = Some (in_body req) \<and>
    (\<forall>k. header_values (ou_headers (upstream_request host req)) k =
      (if is_hop_by_hop k \<or> is_minti_auth k then [] else header_values (in_headers req) k)) \<and>
    (\<forall>k. \<not> is_minti_auth k \<longrightarrow> header_values (ou_headers out) k =
      (if is_hop_by_hop k then [] else header_values (in_headers req) k))"
proof -
  have up: "header_values (ou_headers (upstream_request host req)) k =
      (if is_hop_by_hop k \<or> is_minti_auth k then [] else header_values (in_headers req) k)" for k
    using copied_headers [OF assms(1), of "[]" k] by (simp add: upstream_request_def header_values_def)
  have st: "ou_method out = in_method req" "ou_path out = in_path req" "ou_body out = Some (in_body req)"
      "arriving out = \<lparr>rq_method = in_method req, rq_path = in_path req, rq_body = Some (in_body req), rq_member = tc_member c,
        rq_timestamp = dec_int (t div 1000000), rq_nonce = hex_encode random,
        rq_mac = compute_mac sha hmac (kp_current (tc_keys c)) (in_method req) (in_path req) (in_body req) (t div 1000000) (hex_encode random)\<rparr>"
      "\<forall>k. \<not> is_minti_auth k \<longrightarrow> header_values (ou_headers out) k = header_values (ou_headers (upstream_request host req)) k"
    using stamped [OF assms(2)] by (auto simp: upstream_request_def)
  have hex: "hex_encode x \<noteq> []" if "x \<noteq> []" for x using that by (cases x) (simp_all add: hex_encode_def hex_byte_def)
  have ts: "parse_int64 (dec_int (t div 1000000)) = Some (t div 1000000)" using assms(4,5) by (intro parse_dec) auto
  have "snd (auth_middleware sha hmac now s (arriving out)) = Inr (rq_member (arriving out))"
  proof (rule auth_accepts [where body = "in_body req" and millis = "t div 1000000" and key = "kp_current (tc_keys c)"])
    show "rq_timestamp (arriving out) \<noteq> []" using dec_nat_not_empty by (simp add: st(4) dec_int_def)
    show "\<bar>now - t div 1000000 * 1000000\<bar> \<le> 60 * second" using assms(6) by linarith
    have "hex_encode random \<notin> set (map fst (dropWhile P (nc_members (tr_nonces s) (tc_member c))))" for P
      unfolding set_map using assms(11) set_dropWhileD [of _ P] by blast
    then show "snd (check_and_store now (tr_nonces s) (rq_member (arriving out)) (rq_nonce (arriving out)))"
      by (simp add: st(4) check_and_store_def Let_def)
  qed (use assms st(4) ts hex in \<open>auto simp: compute_mac_def mac_ok_def\<close>)
  then show ?thesis using st up by simp
qed


section \<open>Where a request ends\<close>

text \<open>The daemon at \<open>a\<close> takes the member \<open>i\<close>, found at \<open>b\<close>, for the Orchestrator.\<close>

definition points_to :: "daemons \<Rightarrow> (string \<Rightarrow> router) \<Rightarrow> string \<Rightarrow> string \<Rightarrow> bool" where
  "points_to d cl a b \<longleftrightarrow>
     es_orchestrator (dn_election d a) = ro_self_id (cl b) \<and> ro_self_id (cl b) \<noteq> [] \<and> ro_self_id (cl b) \<noteq> ro_self_id (cl a) \<and>
     find_peer_addr (dn_registry d a) (ro_self_id (cl b)) = b \<and> b \<noteq> []"

lemma serve_forwards:
  assumes "points_to d cl a b"
  shows "\<exists>r1. ro_self_id r1 = ro_self_id (cl a) \<and> ro_requests r1 = ro_requests (cl a) + 1 \<and>
    serve (Suc n) d a req cl =
      (case serve n d b (inbound_of (upstream_request (''https://'' @ b) req)) (cl(a := r1)) of
         (cl1, None) \<Rightarrow> (cl1(a := fst (add_audit (Audit ''router.peer_proxy'' ''deny'' ''peer_unreachable'') (cl1 a, cl1))), Some (error_response 502 []))
       | (cl1, Some resp) \<Rightarrow> (cl1(a := fst (add_audit (Audit ''router.peer_proxy'' ''allow'' []) (cl1 a, cl1))), Some (stream_response None resp)))"
proof -
  let ?r1 = "(cl a)\<lparr>ro_requests := ro_requests (cl a) + 1, ro_peer_proxies := ro_peer_proxies (cl a) + 1\<rparr>"
  have "ou_host (upstream_request (''https://'' @ b) req) = ''https://'' @ b" by (simp add: upstream_request_def)
  then show ?thesis
    using assms
    by (intro exI [of _ ?r1])
      (auto simp: points_to_def handle_reasoning_def proxy_peer_def proxy_def add_audit_def Let_def split: prod.split option.split)
qed

lemma serve_at_home:
  assumes "es_orchestrator (dn_election d a) = ro_self_id (cl a)" "ro_self_id (cl a) \<noteq> []"
    and "dn_runtime d a (upstream_request (ro_runtime_url (cl a)) req) = Inr resp"
  shows "\<exists>r1. serve (Suc n) d a req cl = (cl(a := r1), Some (stream_response None resp)) \<and> ro_self_id r1 = ro_self_id (cl a)"
  by (rule exI [of _ "(cl a)\<lparr>ro_requests := ro_requests (cl a) + 1, ro_self_routes := ro_self_routes (cl a) + 1,
      ro_audit := ro_audit (cl a) @ [Audit ''router.self_route'' ''allow'' []]\<rparr>"])
    (use assms in \<open>simp add: handle_reasoning_def proxy_local_def proxy_def add_audit_def Let_def\<close>)

lemma stream_response_keeps [simp]:
  "rs_status (stream_response None resp) = rs_status resp" "rs_chunks (stream_response None resp) = rs_chunks resp"
  by (simp_all add: stream_response_def)


lemma serve_bounces:
  assumes "points_to d cl a b" "points_to d cl b a" "a \<noteq> b" "serve n d a req cl = (cl', answer)"
  shows "ro_self_id (cl' a) = ro_self_id (cl a) \<and> ro_self_id (cl' b) = ro_self_id (cl b) \<and>
    ro_requests (cl' a) + ro_requests (cl' b) = ro_requests (cl a) + ro_requests (cl b) + of_nat n \<and>
    (\<forall>resp. answer = Some resp \<longrightarrow> rs_status resp = 502) \<and> (n > 0 \<longrightarrow> answer \<noteq> None)"
  using assms
proof (induction n arbitrary: a b req cl cl' answer)
  case (Suc n)
  obtain r1 where r1: "ro_self_id r1 = ro_self_id (cl a)" "ro_requests r1 = ro_requests (cl a) + 1"
    "serve (Suc n) d a req cl =
      (case serve n d b (inbound_of (upstream_request (''https://'' @ b) req)) (cl(a := r1)) of
         (cl1, None) \<Rightarrow> (cl1(a := fst (add_audit (Audit ''router.peer_proxy'' ''deny'' ''peer_unreachable'') (cl1 a, cl1))), Some (error_response 502 []))
       | (cl1, Some resp) \<Rightarrow> (cl1(a := fst (add_audit (Audit ''router.peer_proxy'' ''allow'' []) (cl1 a, cl1))), Some (stream_response None resp)))"
    using serve_forwards [OF Suc.prems(1)] by blast
  obtain cl1 answer1 where s: "serve n d b (inbound_of (upstream_request (''https://'' @ b) req)) (cl(a := r1)) = (cl1, answer1)"
    by fastforce
  have "points_to d (cl(a := r1)) b a" "points_to d (cl(a := r1)) a b"
    using Suc.prems(1-3) r1(1) by (auto simp: points_to_def)
  from Suc.IH [OF this _ s] Suc.prems(3) have
    "ro_self_id (cl1 b) = ro_self_id (cl b) \<and> ro_self_id (cl1 a) = ro_self_id r1 \<and>
     ro_requests (cl1 b) + ro_requests (cl1 a) = ro_requests (cl b) + ro_requests r1 + of_nat n \<and>
     (\<forall>resp. answer1 = Some resp \<longrightarrow> rs_status resp = 502) \<and> (n > 0 \<longrightarrow> answer1 \<noteq> None)" by auto
  with Suc.prems(3,4) r1 s show ?case
    by (cases answer1) (auto simp: add_audit_def error_response_def algebra_simps)
qed simp

text \<open>C40: A request between two daemons that take each other for the Orchestrator goes back and forth until a timeout. No
  header counts the hops: however many times the request may enter a daemon before the first caller gives up, it does
  enter one of the two that many times, and the answer in the end is 502.\<close>

theorem disagreeing_daemons_bounce_requests:
  assumes "points_to d cl a b" "points_to d cl b a" "a \<noteq> b" "n > 0" "serve n d a req cl = (cl', answer)"
  shows "ro_requests (cl' a) + ro_requests (cl' b) = ro_requests (cl a) + ro_requests (cl b) + of_nat n \<and>
    (\<exists>resp. answer = Some resp \<and> rs_status resp = 502)"
  using serve_bounces [OF assms(1-3,5)] assms(4) by auto


section \<open>Samples\<close>

definition sample_inbound :: inbound where
  "sample_inbound =
     \<lparr>in_method = ''POST'', in_path = ''/v1/messages'', in_headers = [(''Accept'', [''x'']), (''X-Minti-Member'', [''m''])], in_body = ''hi''\<rparr>"

definition sample_client :: transport_client where
  "sample_client = \<lparr>tc_member = ''a'', tc_keys = \<lparr>kp_current = ''key'', kp_grace = None, kp_grace_expiry = zero_time\<rparr>, tc_pin = ''p'', tc_timeout = second\<rparr>"

theorem forwarded_request_is_resigned_witness:
  "\<exists>out. client_do rev (\<lambda>k t. k @ t @ ''.'') second (Some ''r'') sample_client (upstream_request ''https://b'' sample_inbound) = Inr out \<and>
     snd (auth_middleware rev (\<lambda>k t. k @ t @ ''.'') second sample_server (arriving out)) = Inr ''a'' \<and>
     header_values (ou_headers out) ''accept'' = [''x'']"
proof -
  obtain out where out: "client_do rev (\<lambda>k t. k @ t @ ''.'') second (Some ''r'') sample_client (upstream_request ''https://b'' sample_inbound) = Inr out"
    by (simp add: client_do_def upstream_request_def new_nonce_def Let_def)
  have names: "wf_headers (in_headers sample_inbound)" "\<not> is_hop_by_hop ''accept''" "\<not> is_minti_auth ''accept''"
    "header_values (in_headers sample_inbound) ''accept'' = [''x'']" by code_simp+
  have *: "snd (auth_middleware rev (\<lambda>k t. k @ t @ ''.'') second sample_server (arriving out)) = Inr (tc_member sample_client) \<and>
      ou_method out = in_method sample_inbound \<and> ou_path out = in_path sample_inbound \<and> ou_body out = Some (in_body sample_inbound) \<and>
      (\<forall>k. header_values (ou_headers (upstream_request ''https://b'' sample_inbound)) k =
        (if is_hop_by_hop k \<or> is_minti_auth k then [] else header_values (in_headers sample_inbound) k)) \<and>
      (\<forall>k. \<not> is_minti_auth k \<longrightarrow> header_values (ou_headers out) k =
        (if is_hop_by_hop k then [] else header_values (in_headers sample_inbound) k))"
    by (rule forwarded_request_is_resigned [OF names(1) out])
      (simp_all add: sample_client_def sample_server_def new_nonce_cache_def sample_inbound_def max_body_def)
  then show ?thesis using out names by (auto simp: sample_client_def)
qed

definition sample_router :: "member_id \<Rightarrow> router" where
  "sample_router i = the (new_router i ''c'' True True [] True 0)"

definition sample_view :: "member_id \<Rightarrow> election_state" where
  "sample_view orch =
     \<lparr>es_self_id = ''x'', es_started_at = 0, es_term = 1, es_orchestrator = orch, es_lease_expires = 0, es_scribe = [],
      es_history = [], es_history_cap = 5\<rparr>"

definition sample_daemons :: "member_id \<Rightarrow> daemons" where
  "sample_daemons orch_b =
     \<lparr>dn_election = (\<lambda>a. sample_view (if a = ''A'' then ''b'' else orch_b)),
      dn_registry = (\<lambda>a. new_registry\<lparr>rg_members :=
        [(''n'', \<lparr>pm_id = (if a = ''A'' then ''b'' else ''a''), pm_address = (if a = ''A'' then ''B'' else ''A''),
           pm_discovered_via = SourceMDNS, pm_last_ad = 0, pm_last_seen_at = 0, pm_latest_ad = None, pm_ad_generation = 0,
           pm_heartbeat_seen = False\<rparr>)]\<rparr>),
      dn_runtime = (\<lambda>a out. Inr \<lparr>rs_status = 200, rs_headers = [], rs_chunks = [''answer'']\<rparr>)\<rparr>"

definition sample_routers :: "string \<Rightarrow> router" where
  "sample_routers a = sample_router (if a = ''A'' then ''a'' else ''b'')"

lemma sample_points: "points_to (sample_daemons o1) sample_routers ''A'' ''B''" "points_to (sample_daemons ''a'') sample_routers ''B'' ''A''"
  by (simp_all add: points_to_def sample_daemons_def sample_routers_def sample_router_def new_router_def sample_view_def
      find_peer_addr_def snapshot_def)


theorem disagreeing_daemons_bounce_requests_witness:
  "\<exists>resp. snd (serve 5 (sample_daemons ''a'') ''A'' sample_inbound sample_routers) = Some resp \<and> rs_status resp = 502"
proof -
  obtain cl' answer where s: "serve 5 (sample_daemons ''a'') ''A'' sample_inbound sample_routers = (cl', answer)" by fastforce
  from disagreeing_daemons_bounce_requests [OF sample_points(1) sample_points(2) _ _ s] show ?thesis by (simp add: s)
qed

end
