(* ===== verification/Regex.thy ===== *)
theory Regex
  imports Prelude
begin

text \<open>
  The regular expressions of the MCP servers, as \<open>regexp\<close> reads them: of all matches the leftmost one, and of those the one
  a backtracking search finds first. The matcher lists the matches at a position in that order. Texts are taken as ASCII,
  where a byte is a character. No expression used matches the empty text.
\<close>

section \<open>Matching\<close>

text \<open>A position is what lies before it, reversed, and what lies after it. \<open>Star True\<close> is greedy, \<open>Star False\<close> is lazy.\<close>

datatype re =
    Cls "char \<Rightarrow> bool" | Eps | Cat re re | Alt re re | Star bool re | Grp re | WordB | Begin | End

type_synonym position = "string \<times> string"

definition word_char :: "char \<Rightarrow> bool" where
  "word_char c \<longleftrightarrow>
     (let n = of_char c :: nat in 48 \<le> n \<and> n \<le> 57 \<or> 65 \<le> n \<and> n \<le> 90 \<or> 97 \<le> n \<and> n \<le> 122 \<or> n = 95)"

definition word_at :: "string \<Rightarrow> bool" where
  "word_at s = (case s of [] \<Rightarrow> False | c # _ \<Rightarrow> word_char c)"

function matches_at :: "re \<Rightarrow> position \<Rightarrow> (position \<times> string list) list" where
  "matches_at (Cls p) x = (case snd x of [] \<Rightarrow> [] | c # r \<Rightarrow> if p c then [((c # fst x, r), [])] else [])"
| "matches_at Eps x = [(x, [])]"
| "matches_at (Cat a b) x = concat (map (\<lambda>(y, g). map (\<lambda>(z, h). (z, g @ h)) (matches_at b y)) (matches_at a x))"
| "matches_at (Alt a b) x = matches_at a x @ matches_at b x"
| "matches_at (Star greedy a) x =
     (let again = concat (map (\<lambda>(y, g). if length (snd y) < length (snd x)
            then map (\<lambda>(z, h). (z, g @ h)) (matches_at (Star greedy a) y) else []) (matches_at a x))
      in if greedy then again @ [(x, [])] else (x, []) # again)"
| "matches_at (Grp a) x = map (\<lambda>(y, g). (y, rev (take (length (fst y) - length (fst x)) (fst y)) # g)) (matches_at a x)"
| "matches_at WordB x = (if word_at (fst x) \<noteq> word_at (snd x) then [(x, [])] else [])"
| "matches_at Begin x = (if fst x = [] then [(x, [])] else [])"
| "matches_at End x = (if snd x = [] then [(x, [])] else [])"
  by pat_completeness auto

termination
  by (relation "measures [\<lambda>(r, x). size r, \<lambda>(r, x). length (snd x)]") auto

definition plus :: "re \<Rightarrow> re" where "plus a = Cat a (Star True a)"

fun at_most :: "nat \<Rightarrow> re \<Rightarrow> re" where
  "at_most 0 a = Eps"
| "at_most (Suc n) a = Alt (Cat a (at_most n a)) Eps"

definition lit :: "string \<Rightarrow> re" where
  "lit s = foldr (\<lambda>c r. Cat (Cls (\<lambda>d. d = c)) r) s Eps"

text \<open>The flag \<open>i\<close>: letters of either case.\<close>

definition lit_nocase :: "string \<Rightarrow> re" where
  "lit_nocase s = foldr (\<lambda>c r. Cat (Cls (\<lambda>d. lower_char d = lower_char c)) r) s Eps"

section \<open>Searching and replacing\<close>

fun find_match :: "re \<Rightarrow> string \<Rightarrow> string \<Rightarrow> (position \<times> string list) option" where
  "find_match r pre [] = (case matches_at r (pre, []) of [] \<Rightarrow> None | m # _ \<Rightarrow> Some m)"
| "find_match r pre (c # s) = (case matches_at r (pre, c # s) of [] \<Rightarrow> find_match r (c # pre) s | m # _ \<Rightarrow> Some m)"

definition match_string :: "re \<Rightarrow> string \<Rightarrow> bool" where
  "match_string r s \<longleftrightarrow> find_match r [] s \<noteq> None"

text \<open>\<open>FindStringSubmatch\<close>: the groups of the first match.\<close>

definition find_submatch :: "re \<Rightarrow> string \<Rightarrow> string list option" where
  "find_submatch r s = map_option snd (find_match r [] s)"

function replace_from :: "re \<Rightarrow> string \<Rightarrow> string \<Rightarrow> string \<Rightarrow> string" where
  "replace_from r repl pre [] = []"
| "replace_from r repl pre (c # s) =
     (case matches_at r (pre, c # s) of
        [] \<Rightarrow> c # replace_from r repl (c # pre) s
      | m # _ \<Rightarrow>
          if length (snd (fst m)) < length (c # s) then repl @ replace_from r repl (fst (fst m)) (snd (fst m))
          else c # replace_from r repl (c # pre) s)"
  by pat_completeness auto

termination
  by (relation "measure (\<lambda>(r, repl, pre, s). length s)") auto

definition replace_all :: "re \<Rightarrow> string \<Rightarrow> string \<Rightarrow> string" where
  "replace_all r repl s = replace_from r repl [] s"

function find_all_from :: "re \<Rightarrow> string \<Rightarrow> string \<Rightarrow> string list list" where
  "find_all_from r pre [] = []"
| "find_all_from r pre (c # s) =
     (case matches_at r (pre, c # s) of
        [] \<Rightarrow> find_all_from r (c # pre) s
      | m # _ \<Rightarrow>
          if length (snd (fst m)) < length (c # s) then snd m # find_all_from r (fst (fst m)) (snd (fst m))
          else find_all_from r (c # pre) s)"
  by pat_completeness auto

termination
  by (relation "measure (\<lambda>(r, pre, s). length s)") auto

definition find_all :: "re \<Rightarrow> string \<Rightarrow> string list list" where
  "find_all r s = find_all_from r [] s"

section \<open>Classes repeated\<close>

lemma star_class:
  "matches_at (Star True (Cls p)) (pre, []) = [((pre, []), [])]"
  "matches_at (Star True (Cls p)) (pre, c # s) =
     (if p c then matches_at (Star True (Cls p)) (c # pre, s) else []) @ [((pre, c # s), [])]"
  by (simp_all add: Let_def case_prod_beta)

lemmas matches_star = matches_at.simps(5)

declare matches_star [simp del]

lemma star_class_then:
  "matches_at (Cat (Star True (Cls p)) b) (pre, []) = matches_at b (pre, [])"
  "matches_at (Cat (Star True (Cls p)) b) (pre, c # s) =
     (if p c then matches_at (Cat (Star True (Cls p)) b) (c # pre, s) else []) @ matches_at b (pre, c # s)"
  by (simp_all add: star_class case_prod_beta)

lemmas matches_cat = matches_at.simps(3)

declare matches_cat [simp del]

lemma class_then: "matches_at (Cat (Cls p) b) (pre, s) = (case s of [] \<Rightarrow> [] | c # r \<Rightarrow> if p c then matches_at b (c # pre, r) else [])"
  by (simp add: matches_cat case_prod_beta split: list.split)

text \<open>A greedy run of a class up to the first character outside it, and up to the end.\<close>

lemma class_until:
  "matches_at (Cat (Star True (Cls p)) (Cls (\<lambda>c. \<not> p c))) (pre, s) =
     (case dropWhile p s of [] \<Rightarrow> [] | c # r \<Rightarrow> [((c # rev (takeWhile p s) @ pre, r), [])])"
proof (induction s arbitrary: pre)
  case (Cons c s)
  then show ?case by (cases "dropWhile p s") (simp_all add: star_class_then del: dropWhile_eq_Nil_conv)
qed (simp add: star_class_then)

lemma delimited:
  "matches_at (Cat (Cls q) (Cat (Cls p) (Cat (Star True (Cls p)) (Cls (\<lambda>c. \<not> p c))))) (pre, c # s) =
     (if q c \<and> s \<noteq> [] \<and> p (hd s) \<and> \<not> (\<forall>d\<in>set s. p d)
      then [((hd (dropWhile p s) # rev (takeWhile p s) @ c # pre, tl (dropWhile p s)), [])] else [])"
proof (cases s)
  case (Cons d t)
  then show ?thesis
    by (cases "dropWhile p t") (auto simp: class_then class_until simp del: dropWhile_eq_Nil_conv simp flip: dropWhile_eq_Nil_conv)
qed (simp add: class_then)

lemma class_to_end:
  "matches_at (Cat (Star True (Cls p)) End) (pre, s) = (if list_all p s then [((rev s @ pre, []), [])] else [])"
proof (induction s arbitrary: pre)
  case (Cons c s)
  then show ?case by (simp add: star_class_then)
qed (simp add: star_class_then)

lemma Begin_after: "find_match (Cat Begin a) (b # pre) s = None"
  by (induction s arbitrary: b pre) (simp_all add: matches_cat)

lemma whole_match: "match_string (Cat Begin a) s \<longleftrightarrow> matches_at a ([], s) \<noteq> []"
proof (cases s)
  case Nil
  then show ?thesis
    by (cases "matches_at a ([], [])") (simp_all add: match_string_def matches_cat case_prod_beta)
next
  case (Cons c r)
  then show ?thesis
    by (cases "matches_at a ([], c # r)") (simp_all add: match_string_def Begin_after matches_cat case_prod_beta)
qed

text \<open>\<open>^[q][p]*$\<close>, and \<open>^[p]+$\<close> as a case of it.\<close>

lemma match_class_plus:
  "match_string (Cat Begin (Cat (Cls q) (Cat (Star True (Cls p)) End))) s \<longleftrightarrow> (\<exists>c r. s = c # r \<and> q c \<and> list_all p r)"
  by (cases s) (simp_all add: whole_match class_then class_to_end)

end
