(* ===== verification/McpTools.thy ===== *)
theory McpTools
  imports McpPolicy Regex Http
begin

text \<open>
  The tools of the MCP servers that start processes and make HTTP requests: \<open>mcp-servers/cmd/mcp-recon\<close>, \<open>mcp-pkg\<close>,
  \<open>mcp-shell\<close> and \<open>mcp-http\<close>, with \<open>internal/proc/proc.go\<close>. Processes and the network act on a world \<open>'w\<close> and are parameters.
  Error texts are kept as kinds.
\<close>

section \<open>Processes\<close>

datatype tool_error = InvalidInput string | PolicyRequired | CommandFailed string | CommandExited string int | TimedOut string | RequestFailed string

text \<open>How a command ends: by itself, with an exit status other than 0, or with an error of its start.\<close>

datatype run_end = RanOk | ExitError int | StartError string

record command_result =
  co_stdout :: string
  co_stderr :: string
  co_end :: run_end
  co_deadline :: bool

definition proc_run :: "command_result \<Rightarrow> string \<times> string \<times> int \<times> string option" where
  "proc_run c =
     (case co_end c of
        RanOk \<Rightarrow> (co_stdout c, co_stderr c, 0, None)
      | ExitError code \<Rightarrow> (co_stdout c, co_stderr c, code, None)
      | StartError e \<Rightarrow> (co_stdout c, co_stderr c, 0, Some e))"

text \<open>A runner of commands: binary, arguments and time limit; \<open>co_deadline\<close> says whether the limit was reached.\<close>

type_synonym 'w runner = "'w \<Rightarrow> string \<Rightarrow> string list \<Rightarrow> duration \<Rightarrow> 'w \<times> command_result"

section \<open>Reconnaissance\<close>

definition alnum :: "char \<Rightarrow> bool" where
  "alnum c \<longleftrightarrow> (let n = of_char c :: nat in 48 \<le> n \<and> n \<le> 57 \<or> 65 \<le> n \<and> n \<le> 90 \<or> 97 \<le> n \<and> n \<le> 122)"

definition target_char :: "char \<Rightarrow> bool" where
  "target_char c \<longleftrightarrow> alnum c \<or> c \<in> {CHR ''.'', CHR ''_'', CHR '':'', CHR ''-'', CHR ''/''}"

definition target_re :: re where
  "target_re = Cat Begin (Cat (Cls target_char) (Cat (Star True (Cls target_char)) End))"

definition dns_char :: "char \<Rightarrow> bool" where
  "dns_char c \<longleftrightarrow> alnum c \<or> c \<in> {CHR ''.'', CHR ''_'', CHR ''-''}"

definition dns_re :: re where
  "dns_re = Cat Begin (Cat (Cls dns_char) (Cat (Star True (Cls dns_char)) End))"

definition upper_letter :: "char \<Rightarrow> bool" where
  "upper_letter c \<longleftrightarrow> 65 \<le> (of_char c :: nat) \<and> (of_char c :: nat) \<le> 90"

definition qtype_re :: re where
  "qtype_re = Cat Begin (Cat (Cls upper_letter) (Cat (at_most 9 (Cls upper_letter)) End))"

definition run_recon :: "'w runner \<Rightarrow> string \<Rightarrow> string list \<Rightarrow> duration \<Rightarrow> 'w \<Rightarrow> 'w \<times> (string \<times> tool_error option)" where
  "run_recon run bin args limit w =
     (case run w bin args limit of
        (w1, c) \<Rightarrow>
          (case proc_run c of
             (out, err, code, failure) \<Rightarrow>
               (w1, out,
                if co_deadline c then Some (TimedOut bin)
                else if failure \<noteq> None \<and> code = 0 then Some (CommandFailed (bin @ '': '' @ the failure))
                else if code \<noteq> 0 then Some (CommandExited bin code) else None)))"

text \<open>A tool answers the command line it ran, the output, and an error if there was one.\<close>

definition nmap_args :: "bool \<Rightarrow> string \<Rightarrow> string list" where
  "nmap_args raw target =
     (let args = [''-sV'', ''-T3'', ''--top-ports'', ''1000'']
      in (if raw then ''-sS'' # tl args else args) @ [target])"

definition nmap_scan ::
  "'w runner \<Rightarrow> recon_policy \<Rightarrow> string \<Rightarrow> bool \<Rightarrow> 'w \<Rightarrow> 'w \<times> (tool_error + string list \<times> string \<times> tool_error option)" where
  "nmap_scan run p target raw w =
     (if \<not> match_string target_re target then (w, Inl (InvalidInput target))
      else if raw \<and> \<not> re_allow_raw_socket p then (w, Inl PolicyRequired)
      else case run_recon run ''nmap'' (nmap_args raw target) (5 * minute) w of
        (w1, out, err) \<Rightarrow> (w1, Inr (''nmap'' # nmap_args raw target, out, err)))"

definition whois_lookup :: "'w runner \<Rightarrow> string \<Rightarrow> 'w \<Rightarrow> 'w \<times> (tool_error + string \<times> tool_error option)" where
  "whois_lookup run domain w =
     (if \<not> match_string dns_re domain then (w, Inl (InvalidInput domain))
      else case run_recon run ''whois'' [domain] (30 * second) w of (w1, out, err) \<Rightarrow> (w1, Inr (out, err)))"

definition dig_lookup ::
  "'w runner \<Rightarrow> string \<Rightarrow> string \<Rightarrow> 'w \<Rightarrow> 'w \<times> (tool_error + string list \<times> string \<times> tool_error option)" where
  "dig_lookup run name type w =
     (if \<not> match_string dns_re name then (w, Inl (InvalidInput name))
      else
        let qtype = (if to_upper type = [] then ''A'' else to_upper type)
        in if \<not> match_string qtype_re qtype then (w, Inl (InvalidInput type))
           else
             let args = [''+short'', name, qtype]
             in case run_recon run ''dig'' args (15 * second) w of (w1, out, err) \<Rightarrow> (w1, Inr (''dig'' # args, out, err)))"

section \<open>Packages\<close>

definition pkg_char :: "char \<Rightarrow> bool" where
  "pkg_char c \<longleftrightarrow> alnum c \<or> c \<in> {CHR ''+'', CHR ''.'', CHR ''-''}"

definition pkg_name_re :: re where
  "pkg_name_re = Cat Begin (Cat (Cls alnum) (Cat (Star True (Cls pkg_char)) End))"

record search_match =
  sm_name :: string
  sm_summary :: string

text \<open>\<open>strings.Split\<close> at a character, and \<open>strings.Index\<close>.\<close>

fun split_at :: "char \<Rightarrow> string \<Rightarrow> string \<Rightarrow> string list" where
  "split_at b w [] = [w]"
| "split_at b w (c # s) = (if c = b then w # split_at b [] s else split_at b (w @ [c]) s)"

fun index_of :: "string \<Rightarrow> string \<Rightarrow> nat option" where
  "index_of [] p = (if p = [] then Some 0 else None)"
| "index_of (c # s) p = (if starts_with (c # s) p then Some 0 else map_option Suc (index_of s p))"

definition parse_line :: "string \<Rightarrow> search_match list" where
  "parse_line raw =
     (let line = trim raw
      in if line = [] then []
         else case index_of line '' - '' of
           None \<Rightarrow> [\<lparr>sm_name = line, sm_summary = []\<rparr>]
         | Some i \<Rightarrow> [\<lparr>sm_name = take i line, sm_summary = drop (i + 3) line\<rparr>])"

definition parse_search :: "string \<Rightarrow> search_match list" where
  "parse_search raw = concat (map parse_line (split_at LF [] raw))"

definition search_packages :: "'w runner \<Rightarrow> string \<Rightarrow> 'w \<Rightarrow> 'w \<times> (tool_error + search_match list)" where
  "search_packages run query w =
     (if \<not> match_string pkg_name_re query then (w, Inl (InvalidInput query))
      else case run w ''apt-cache'' [''search'', query] (30 * second) of
        (w1, c) \<Rightarrow>
          (case proc_run c of
             (out, err, code, failure) \<Rightarrow>
               (w1, if failure \<noteq> None \<and> code = 0 then Inl (CommandFailed (''apt-cache: '' @ the failure))
                    else if code \<noteq> 0 then Inl (CommandExited ''apt-cache'' code)
                    else Inr (parse_search out))))"

text \<open>The answer of an install: whether it was done, the output, and an error.\<close>

definition install_args :: "string \<Rightarrow> string list" where
  "install_args p = [''-n'', ''apt-get'', ''install'', ''-y'', p]"

definition install_package :: "'w runner \<Rightarrow> string \<Rightarrow> 'w \<Rightarrow> 'w \<times> (tool_error + bool \<times> string \<times> tool_error option)" where
  "install_package run p w =
     (if \<not> match_string pkg_name_re p then (w, Inl (InvalidInput p))
      else case run w ''sudo'' (install_args p) (5 * minute) of
        (w1, c) \<Rightarrow>
          (case proc_run c of
             (out, err, code, failure) \<Rightarrow>
               let text' = trim (out @ [LF] @ err)
               in (w1, if failure \<noteq> None \<and> code = 0 then Inr (False, text', Some (CommandFailed (''sudo apt-get: '' @ the failure)))
                       else if code \<noteq> 0 then Inr (False, text', Some (CommandExited ''apt-get install'' code))
                       else Inr (True, text', None))))"

section \<open>The shell\<close>

definition default_timeout_sec :: int where "default_timeout_sec = 30"
definition max_timeout_sec :: int where "max_timeout_sec = 600"

record exec_out =
  eo_stdout :: string
  eo_stderr :: string
  eo_exit_code :: int
  eo_timed_out :: bool

definition exec_timeout :: "int \<Rightarrow> int" where
  "exec_timeout requested =
     (let t = (if requested \<le> 0 then default_timeout_sec else requested)
      in if t > max_timeout_sec then max_timeout_sec else t)"

definition exec_shell :: "'w runner \<Rightarrow> string \<Rightarrow> int \<Rightarrow> 'w \<Rightarrow> 'w \<times> (tool_error + exec_out \<times> tool_error option)" where
  "exec_shell run command timeout w =
     (if command = [] then (w, Inl (InvalidInput ''command is required''))
      else case run w ''/bin/sh'' [''-c'', command] (exec_timeout timeout * second) of
        (w1, c) \<Rightarrow>
          (case proc_run c of
             (out, err, code, failure) \<Rightarrow>
               let answer = \<lparr>eo_stdout = out, eo_stderr = err, eo_exit_code = code, eo_timed_out = False\<rparr>
               in (w1, if co_deadline c then Inr (answer\<lparr>eo_timed_out := True\<rparr>, None)
                       else if failure \<noteq> None \<and> code = 0 then Inr (answer, map_option CommandFailed failure)
                       else Inr (answer, None))))"

section \<open>HTTP\<close>

text \<open>
  A reply with its body up to where it breaks off, if it does. An error of a reader behind \<open>LimitReader\<close> shows when the body
  is shorter than the limit.
\<close>

record http_reply =
  hy_status :: http_status
  hy_headers :: headers
  hy_length :: int
  hy_body :: bytes
  hy_broken :: "string option"

type_synonym 'w http_client = "'w \<Rightarrow> string \<Rightarrow> string \<Rightarrow> 'w \<times> (string + http_reply)"

definition read_limited :: "int \<Rightarrow> http_reply \<Rightarrow> string + bytes" where
  "read_limited limit r =
     (if int (length (hy_body r)) < limit then
        (case hy_broken r of Some e \<Rightarrow> Inl e | None \<Rightarrow> Inr (hy_body r))
      else Inr (take (nat limit) (hy_body r)))"

definition http_url :: "string \<Rightarrow> bool" where
  "http_url url \<longleftrightarrow> starts_with url ''http://'' \<or> starts_with url ''https://''"

record fetch_out =
  fo_status :: http_status
  fo_content_type :: string
  fo_body :: bytes
  fo_bytes :: int
  fo_truncated :: bool

definition policy_max_body :: "http_policy \<Rightarrow> int" where
  "policy_max_body p = (if ht_max_body_bytes p \<le> 0 then 1048576 else ht_max_body_bytes p)"

definition fetch_url :: "'w http_client \<Rightarrow> int \<Rightarrow> string \<Rightarrow> int \<Rightarrow> 'w \<Rightarrow> 'w \<times> (tool_error + fetch_out)" where
  "fetch_url http policy_max url max_bytes w =
     (if \<not> http_url url then (w, Inl (InvalidInput url))
      else
        let limit = (if max_bytes \<le> 0 \<or> max_bytes > policy_max then policy_max else max_bytes)
        in case http w ''GET'' url of
             (w1, Inl e) \<Rightarrow> (w1, Inl (RequestFailed e))
           | (w1, Inr r) \<Rightarrow>
               (case read_limited (limit + 1) r of
                  Inl e \<Rightarrow> (w1, Inl (RequestFailed e))
                | Inr buf \<Rightarrow>
                    let truncated = int (length buf) > limit;
                        kept = (if truncated then take (nat limit) buf else buf)
                    in (w1, Inr \<lparr>fo_status = hy_status r, fo_content_type = header_get (hy_headers r) ''Content-Type'', fo_body = kept,
                          fo_bytes = int (length kept), fo_truncated = truncated\<rparr>)))"

record head_out =
  ho_status :: http_status
  ho_server :: string
  ho_length :: "int option"
  ho_headers :: "(string \<times> string) list"

definition first_values :: "headers \<Rightarrow> (string \<times> string) list" where
  "first_values h = concat (map (\<lambda>(k, vs). case vs of [] \<Rightarrow> [] | v # _ \<Rightarrow> [(k, v)]) h)"

text \<open>\<open>http_probe\<close> of the recon server does not report the length.\<close>

definition head_request :: "'w http_client \<Rightarrow> bool \<Rightarrow> string \<Rightarrow> 'w \<Rightarrow> 'w \<times> (tool_error + head_out)" where
  "head_request http with_length url w =
     (if \<not> http_url url then (w, Inl (InvalidInput url))
      else case http w ''HEAD'' url of
        (w1, Inl e) \<Rightarrow> (w1, Inl (RequestFailed e))
      | (w1, Inr r) \<Rightarrow>
          (w1, Inr \<lparr>ho_status = hy_status r, ho_server = header_get (hy_headers r) ''Server'',
            ho_length = (if with_length then Some (hy_length r) else None), ho_headers = first_values (hy_headers r)\<rparr>))"

definition head_url :: "'w http_client \<Rightarrow> string \<Rightarrow> 'w \<Rightarrow> 'w \<times> (tool_error + head_out)" where
  "head_url http = head_request http True"

definition http_probe :: "'w http_client \<Rightarrow> string \<Rightarrow> 'w \<Rightarrow> 'w \<times> (tool_error + head_out)" where
  "http_probe http = head_request http False"

end
