(* ===== verification/McpWeb.thy ===== *)
theory McpWeb
  imports McpTools Bip39
begin

text \<open>
  The web search and the offline encyclopedia: \<open>mcp-servers/cmd/mcp-search\<close> and \<open>mcp-wiki\<close>. The HTTP client is a
  parameter, as are the YAML and XML decoders and \<open>uddg\<close>, which reads that field of a URL's query (empty when the URL does
  not parse or has no such field). Texts are ASCII.
\<close>

section \<open>HTML\<close>

definition dquote :: char where "dquote = CHR 0x22"

definition seq :: "re list \<Rightarrow> re" where "seq rs = foldr Cat rs Eps"

definition any_char :: re where "any_char = Cls (\<lambda>_. True)"
definition but :: "char \<Rightarrow> re" where "but b = Cls (\<lambda>c. c \<noteq> b)"

definition result_link_re :: re where
  "result_link_re =
     seq [lit_nocase ''<a'', plus (but CHR ''>''), lit_nocase (''class='' @ [dquote]), Star True (but dquote), lit_nocase ''result__a'',
       Star True (but dquote), lit [dquote], Star True (but CHR ''>''), lit_nocase (''href='' @ [dquote]), Grp (Star True (but dquote)),
       lit [dquote], Star True (but CHR ''>''), lit ''>'', Grp (Star False any_char), lit_nocase ''</a>'']"

definition result_snippet_re :: re where
  "result_snippet_re =
     seq [lit_nocase ''<a'', plus (but CHR ''>''), lit_nocase (''class='' @ [dquote]), Star True (but dquote), lit_nocase ''result__snippet'',
       Star True (but dquote), lit [dquote], Star True (but CHR ''>''), lit ''>'', Grp (Star False any_char), lit_nocase ''</a>'']"

definition not_gt :: "char \<Rightarrow> bool" where "not_gt c \<longleftrightarrow> c \<noteq> CHR ''>''"

definition tag_re :: re where
  "tag_re = Cat (Cls (\<lambda>c. c = CHR ''<'')) (Cat (Cls not_gt) (Cat (Star True (Cls not_gt)) (Cls (\<lambda>c. \<not> not_gt c))))"

definition script_re :: re where
  "script_re =
     seq [lit ''<'', Grp (Alt (lit ''script'') (lit ''style'')), WordB, Star True (but CHR ''>''), lit ''>'', Star False any_char,
       lit ''</'', Grp (Alt (lit ''script'') (lit ''style'')), lit ''>'']"

definition title_re :: re where
  "title_re =
     seq [lit_nocase ''<title'', Star True (but CHR ''>''), lit ''>'', Grp (Cat any_char (Star False any_char)), lit_nocase ''</title>'']"

definition html_result_re :: re where
  "html_result_re =
     seq [lit ''<a'', plus (but CHR ''>''), lit (''href='' @ [dquote]), Grp (plus (but dquote)), lit [dquote], Star True (but CHR ''>''),
       lit ''>'', Grp (Cat (but CHR ''<'') (at_most 199 (but CHR ''<''))), lit ''</a>'']"

definition blank :: re where "blank = Cls (\<lambda>c. c = CHR '' '' \<or> c = CHR 0x09)"
definition blank_lines_re :: re where "blank_lines_re = seq [lit [LF, LF], plus (lit [LF])]"

text \<open>\<open>strings.NewReplacer\<close>: at each place the first pair that fits.\<close>

function replace_pairs :: "(string \<times> string) list \<Rightarrow> string \<Rightarrow> string" where
  "replace_pairs ps [] = []"
| "replace_pairs ps (c # s) =
     (case find (\<lambda>p. fst p \<noteq> [] \<and> starts_with (c # s) (fst p)) ps of
        None \<Rightarrow> c # replace_pairs ps s
      | Some p \<Rightarrow> snd p @ replace_pairs ps (drop (length (fst p) - 1) s))"
  by pat_completeness auto

termination
  by (relation "measure (\<lambda>(ps, s). length s)") auto

definition search_entities :: "(string \<times> string) list" where
  "search_entities =
     [(''&amp;'', ''&''), (''&lt;'', ''<''), (''&gt;'', ''>''), (''&quot;'', [dquote]), (''&#39;'', [CHR 0x27]), (''&#x27;'', [CHR 0x27]),
      (''&apos;'', [CHR 0x27]), (''&nbsp;'', '' '')]"

definition wiki_entities :: "(string \<times> string) list" where
  "wiki_entities =
     [(''&nbsp;'', '' ''), (''&amp;'', ''&''), (''&lt;'', ''<''), (''&gt;'', ''>''), (''&quot;'', [dquote]), (''&#39;'', [CHR 0x27]),
      (''&apos;'', [CHR 0x27])]"

definition html_unescape :: "string \<Rightarrow> string" where "html_unescape = replace_pairs search_entities"

definition clean_text :: "string \<Rightarrow> string" where
  "clean_text s = trim (join CHR '' '' (fields (html_unescape (replace_all tag_re [] s))))"

definition strip_tags :: "string \<Rightarrow> string" where
  "strip_tags s = replace_pairs wiki_entities (replace_all tag_re [] (replace_all script_re [] s))"

definition extract_title :: "string \<Rightarrow> string" where
  "extract_title html =
     (case find_submatch title_re html of Some (g # _) \<Rightarrow> trim (strip_tags g) | _ \<Rightarrow> [])"

definition collapse_whitespace :: "string \<Rightarrow> string" where
  "collapse_whitespace s = trim (replace_all blank_lines_re [LF, LF] (replace_all (plus blank) '' '' s))"

section \<open>URLs\<close>

definition hex_upper :: "nat \<Rightarrow> char" where
  "hex_upper d = (if d < 10 then char_of (48 + d) else char_of (55 + d))"

definition escape_char :: "char \<Rightarrow> string" where
  "escape_char c =
     (if alnum c \<or> c \<in> {CHR ''-'', CHR ''_'', CHR ''.'', CHR ''~''} then [c]
      else if c = CHR '' '' then ''+''
      else let n = of_char c :: nat in [CHR ''%'', hex_upper (n div 16), hex_upper (n mod 16)])"

definition query_escape :: "string \<Rightarrow> string" where
  "query_escape s = concat (map escape_char s)"

definition unwrap_url :: "(string \<Rightarrow> string) \<Rightarrow> string \<Rightarrow> string" where
  "unwrap_url uddg raw =
     (let href = html_unescape (trim raw)
      in if href = [] then []
         else
           let target = (if starts_with href ''//'' then ''https:'' @ href else href)
           in if uddg target \<noteq> [] then uddg target
              else if http_url href then href
              else if starts_with href ''//'' then ''https:'' @ href else [])"

section \<open>The web search\<close>

record hit =
  hi_title :: string
  hi_url :: string
  hi_snippet :: string

fun collect_hits :: "(string \<Rightarrow> string) \<Rightarrow> nat \<Rightarrow> string list list \<Rightarrow> string set \<Rightarrow> hit list \<Rightarrow> string list list \<Rightarrow> hit list" where
  "collect_hits uddg limit snips seen out [] = out"
| "collect_hits uddg limit snips seen out (m # ms) =
     (let target = unwrap_url uddg (m ! 0);
          title = clean_text (m ! 1);
          rest = (case snips of [] \<Rightarrow> [] | _ # r \<Rightarrow> r)
      in if target = [] \<or> title = [] \<or> target \<in> seen then collect_hits uddg limit rest seen out ms
         else
           let out1 = out @ [\<lparr>hi_title = title, hi_url = target,
                 hi_snippet = (case snips of [] \<Rightarrow> [] | s # _ \<Rightarrow> clean_text (s ! 0))\<rparr>]
           in if length out1 \<ge> limit then out1 else collect_hits uddg limit rest (insert target seen) out1 ms)"

definition parse_results :: "(string \<Rightarrow> string) \<Rightarrow> string \<Rightarrow> nat \<Rightarrow> hit list" where
  "parse_results uddg html limit =
     collect_hits uddg limit (find_all result_snippet_re html) {} [] (find_all result_link_re html)"

definition search_limit :: "int \<Rightarrow> int \<Rightarrow> int \<Rightarrow> int" where
  "search_limit default_limit max_limit requested =
     (let l = (if requested \<le> 0 then default_limit else requested) in if l > max_limit then max_limit else l)"

definition search_endpoint :: "string \<Rightarrow> string \<Rightarrow> string" where
  "search_endpoint base q = base @ (if contains base ''?'' then ''&q='' else ''?q='') @ query_escape q"

definition search_max_body :: int where "search_max_body = 2 * 1048576"

text \<open>The answer: the query with its hits, and an error if there were none.\<close>

definition web_search ::
  "'w http_client \<Rightarrow> (string \<Rightarrow> string) \<Rightarrow> string \<Rightarrow> string \<Rightarrow> int \<Rightarrow> 'w \<Rightarrow> 'w \<times> (tool_error + string \<times> hit list)" where
  "web_search http uddg base query limit w =
     (let q = trim query
      in if q = [] then (w, Inl (InvalidInput ''query is required''))
         else case http w ''GET'' (search_endpoint base q) of
           (w1, Inl e) \<Rightarrow> (w1, Inl (RequestFailed e))
         | (w1, Inr r) \<Rightarrow>
             if hy_status r \<noteq> 200 then (w1, Inl (RequestFailed ''duckduckgo returned an error''))
             else case read_limited search_max_body r of
               Inl e \<Rightarrow> (w1, Inl (RequestFailed e))
             | Inr body \<Rightarrow>
                 let hits = parse_results uddg body (nat (search_limit 8 25 limit))
                 in (w1, if hits = [] then Inl (RequestFailed ''no results parsed'') else Inr (q, hits)))"

section \<open>The encyclopedia\<close>

definition wiki_default_base :: string where "wiki_default_base = ''http://127.0.0.1:8888''"

datatype conf_file = ConfMissing | ConfUnreadable string | ConfText bytes

definition load_base_url :: "(bytes \<Rightarrow> string + string) \<Rightarrow> string \<Rightarrow> conf_file \<Rightarrow> string + string" where
  "load_base_url yaml env file =
     (if env \<noteq> [] then Inr env
      else case file of
        ConfMissing \<Rightarrow> Inr wiki_default_base
      | ConfUnreadable e \<Rightarrow> Inl (''read: '' @ e)
      | ConfText b \<Rightarrow>
          (case yaml b of
             Inl e \<Rightarrow> Inl (''parse: '' @ e)
           | Inr url \<Rightarrow> if url = [] then Inr wiki_default_base else Inr (rev (dropWhile (\<lambda>c. c = CHR ''/'') (rev url)))))"

record opds_link =
  ol_href :: string
  ol_rel :: string
  ol_type :: string

record opds_entry =
  oe_title :: string
  oe_summary :: string
  oe_links :: "opds_link list"

definition entry_url :: "opds_link list \<Rightarrow> string" where
  "entry_url ls =
     (let url = (case find (\<lambda>l. ol_type l = ''text/html'' \<or> ol_rel l = ''alternate'') ls of None \<Rightarrow> [] | Some l \<Rightarrow> ol_href l)
      in if url = [] \<and> length ls > 0 then ol_href (hd ls) else url)"

definition entry_hits :: "opds_entry list \<Rightarrow> hit list" where
  "entry_hits es =
     filter (\<lambda>h. hi_title h \<noteq> [])
       (map (\<lambda>e. \<lparr>hi_title = trim (oe_title e), hi_url = entry_url (oe_links e), hi_snippet = trim (strip_tags (oe_summary e))\<rparr>) es)"

fun collect_links :: "nat \<Rightarrow> string set \<Rightarrow> hit list \<Rightarrow> string list list \<Rightarrow> hit list" where
  "collect_links limit seen out [] = out"
| "collect_links limit seen out (m # ms) =
     (let href = trim (m ! 0);
          title = trim (strip_tags (m ! 1))
      in if title = [] \<or> starts_with href ''#'' \<or> starts_with href ''?'' then collect_links limit seen out ms
         else if contains href ''/skin/'' \<or> contains href ''/search'' then collect_links limit seen out ms
         else if href \<in> seen then collect_links limit seen out ms
         else
           let out1 = out @ [\<lparr>hi_title = title, hi_url = href, hi_snippet = []\<rparr>]
           in if length out1 \<ge> limit then out1 else collect_links limit (insert href seen) out1 ms)"

definition scrape_results :: "string \<Rightarrow> nat \<Rightarrow> hit list" where
  "scrape_results body limit = collect_links limit {} [] (find_all html_result_re body)"

definition wiki_endpoint :: "string \<Rightarrow> string \<Rightarrow> int \<Rightarrow> string" where
  "wiki_endpoint base q limit = base @ ''/search?pattern='' @ query_escape q @ ''&pageLength='' @ dec_int limit"

definition wiki_search ::
  "'w http_client \<Rightarrow> (bytes \<Rightarrow> string + opds_entry list) \<Rightarrow> string \<Rightarrow> string \<Rightarrow> int \<Rightarrow> 'w \<Rightarrow> 'w \<times> (tool_error + string \<times> hit list)" where
  "wiki_search http feed base query requested w =
     (let q = trim query
      in if q = [] then (w, Inl (InvalidInput ''query is required''))
         else
           let limit = search_limit 10 50 requested
           in case http w ''GET'' (wiki_endpoint base q limit) of
                (w1, Inl e) \<Rightarrow> (w1, Inl (RequestFailed e))
              | (w1, Inr r) \<Rightarrow>
                  if hy_status r \<noteq> 200 then (w1, Inl (RequestFailed ''kiwix-serve returned an error''))
                  else case read_limited (4 * 1048576) r of
                    Inl e \<Rightarrow> (w1, Inl (RequestFailed e))
                  | Inr body \<Rightarrow>
                      let ct = header_get (hy_headers r) ''Content-Type''
                      in if contains ct ''xml'' \<or> contains ct ''atom'' then
                           (case feed body of Inl e \<Rightarrow> (w1, Inl (RequestFailed e)) | Inr es \<Rightarrow> (w1, Inr (q, entry_hits es)))
                         else (w1, Inr (q, scrape_results body (nat limit))))"

record article =
  al_url :: string
  al_title :: string
  al_text :: string

definition article_path :: "string \<Rightarrow> string" where
  "article_path path =
     (let p = trim path
      in if starts_with p ''/viewer#'' then ''/content/'' @ drop (length ''/viewer#'') p else p)"

definition wiki_max_body :: int where "wiki_max_body = 1048576"

definition wiki_get :: "'w http_client \<Rightarrow> string \<Rightarrow> string \<Rightarrow> 'w \<Rightarrow> 'w \<times> (tool_error + article)" where
  "wiki_get http base path w =
     (if trim path = [] then (w, Inl (InvalidInput ''path is required''))
      else
        let p = article_path path
        in if \<not> http_url p \<and> \<not> starts_with p ''/'' then (w, Inl (InvalidInput p))
           else
             let full = (if starts_with p ''/'' then base @ p else p)
             in case http w ''GET'' full of
                  (w1, Inl e) \<Rightarrow> (w1, Inl (RequestFailed e))
                | (w1, Inr r) \<Rightarrow>
                    if hy_status r \<noteq> 200 then (w1, Inl (RequestFailed ''kiwix-serve returned an error''))
                    else case read_limited wiki_max_body r of
                      Inl e \<Rightarrow> (w1, Inl (RequestFailed e))
                    | Inr body \<Rightarrow>
                        (w1, Inr \<lparr>al_url = full, al_title = extract_title body, al_text = collapse_whitespace (strip_tags body)\<rparr>))"

end
