(* ===== verification/McpToolProps.thy ===== *)
theory McpToolProps
  imports McpWeb
begin

text \<open>
  What the MCP tools run and fetch: the command lines behind the input checks, the bounds of a fetch and of a search, the
  stripping of tags, and two ways around the policy.
\<close>

section \<open>Recorded effects\<close>

text \<open>Runners and clients that record what they are asked and answer anything.\<close>

definition recording :: "(string \<Rightarrow> string list \<Rightarrow> command_result) \<Rightarrow> (string \<times> string list) list runner" where
  "recording answer w bin args limit = (w @ [(bin, args)], answer bin args)"

definition requesting :: "(string \<Rightarrow> string \<Rightarrow> string + http_reply) \<Rightarrow> (string \<times> string) list http_client" where
  "requesting answer w verb url = (w @ [(verb, url)], answer verb url)"

lemma recorded_recon: "fst (run_recon (recording answer) bin args limit w) = w @ [(bin, args)]"
  by (simp add: run_recon_def recording_def case_prod_beta)

lemma match_pkg: "match_string pkg_name_re s \<longleftrightarrow> (\<exists>c r. s = c # r \<and> alnum c \<and> list_all pkg_char r)"
  by (simp add: pkg_name_re_def match_class_plus)

lemma match_target: "match_string target_re s \<longleftrightarrow> s \<noteq> [] \<and> list_all target_char s"
  by (cases s) (simp_all add: target_re_def match_class_plus)

lemma match_dns: "match_string dns_re s \<longleftrightarrow> s \<noteq> [] \<and> list_all dns_char s"
  by (cases s) (simp_all add: dns_re_def match_class_plus)

text \<open>C37: A package name is never an option and never a shell text. Whatever name or query the model gives, the package tools
  run nothing, or one command with a fixed argument list in which the name is the last argument, starts with a letter or
  digit and has no space, quote or other character of a shell.\<close>

theorem package_name_is_no_option:
  assumes "install_package (recording answer) p [] = (log, r)" "search_packages (recording answer) q [] = (log', r')"
  shows "(log = [] \<and> r = Inl (InvalidInput p) \<or>
      log = [(''sudo'', [''-n'', ''apt-get'', ''install'', ''-y'', p])] \<and> (\<exists>c n. p = c # n \<and> alnum c \<and> list_all pkg_char n)) \<and>
    (log' = [] \<and> r' = Inl (InvalidInput q) \<or>
      log' = [(''apt-cache'', [''search'', q])] \<and> (\<exists>c n. q = c # n \<and> alnum c \<and> list_all pkg_char n))"
  using assms
  by (auto simp: install_package_def search_packages_def recording_def install_args_def match_pkg Let_def split: if_splits prod.splits)

theorem package_name_is_no_option_witness:
  "fst (install_package (recording (\<lambda>_ _. \<lparr>co_stdout = [], co_stderr = [], co_end = RanOk, co_deadline = False\<rparr>)) ''-y'' []) = []"
proof -
  let ?run = "recording (\<lambda>_ _. \<lparr>co_stdout = [], co_stderr = [], co_end = RanOk, co_deadline = False\<rparr>)"
  obtain log r where i: "install_package ?run ''-y'' [] = (log, r)" by fastforce
  obtain log' r' where s: "search_packages ?run ''vim'' [] = (log', r')" by fastforce
  from package_name_is_no_option [OF i s] show ?thesis by (auto simp: i alnum_def)
qed

section \<open>Around the policy\<close>

lemma target_text: "list_all target_char s \<Longrightarrow> match_string target_re (CHR ''-'' # s)"
  by (simp add: match_target target_char_def)

text \<open>The target of a scan can be an option. A policy that forbids raw sockets lets every call pass that does not ask for
  them by the flag, and the target may start with a hyphen: with the target \<open>-sS\<close> nmap runs with the option for a raw-socket
  scan, and likewise with any other option made of letters, digits and the characters of a path.\<close>

theorem scan_target_can_be_an_option:
  assumes "mv_name s = ''minti-mcp-recon''" "mv_policy s = Some p" "\<not> re_allow_raw_socket (po_recon p)"
    and "''nmap_scan'' \<notin> set (re_deny_tools (po_recon p))" "list_all target_char option"
    and "call_tool home ''nmap_scan''
      (\<lambda>w. case nmap_scan (recording answer) (po_recon p) (CHR ''-'' # option) False w of
         (w1, Inl e) \<Rightarrow> (w1, Inl ''error'') | (w1, Inr out) \<Rightarrow> (w1, Inr out))
      [(''target'', JStr (CHR ''-'' # option))] (s, []) = ((s', log), result)"
  shows "log = [(''nmap'', [''-sV'', ''-T3'', ''--top-ports'', ''1000'', CHR ''-'' # option])]"
proof -
  let ?args = "[''-sV'', ''-T3'', ''--top-ports'', ''1000'', CHR ''-'' # option]"
  obtain out err where "run_recon (recording answer) ''nmap'' ?args (5 * minute) [] = ([(''nmap'', ?args)], out, err)"
    using recorded_recon [of answer "''nmap''" ?args "5 * minute" "[]"] by (metis append_Nil prod.collapse)
  then have "nmap_scan (recording answer) (po_recon p) (CHR ''-'' # option) False [] = ([(''nmap'', ?args)], Inr (''nmap'' # ?args, out, err))"
    by (simp add: nmap_scan_def nmap_args_def target_text [OF assms(5)])
  moreover have "check_call home (Some p) ''minti-mcp-recon'' ''nmap_scan'' [(''target'', JStr (CHR ''-'' # option))] = Allow"
    using assms(3,4) by (simp add: check_call_def check_recon_def bool_arg_def Let_def)
  ultimately show ?thesis using assms(1,2,6) by (simp add: call_tool_def)
qed

text \<open>The encyclopedia fetches any page. With a policy that denies all HTTP tools, \<open>wiki_get\<close> with the address of any
  server as its path requests that address.\<close>

theorem wiki_get_reaches_any_host:
  assumes "mv_name s = ''minti-mcp-wiki''" "mv_policy s = Some p" "''wiki_get'' \<notin> set (po_wiki_deny_tools p)"
    and "trim url = url" "http_url url" "{''fetch_url'', ''head_url''} \<subseteq> set (ht_deny_tools (po_http p))"
    and "call_tool home ''wiki_get''
      (\<lambda>w. case wiki_get (requesting answer) base url w of (w1, Inl e) \<Rightarrow> (w1, Inl ''error'') | (w1, Inr out) \<Rightarrow> (w1, Inr out))
      [(''path'', JStr url)] (s, []) = ((s', log), result)"
  shows "log = [(''GET'', url)] \<and> check_call home (Some p) ''minti-mcp-http'' ''fetch_url'' args \<noteq> Allow"
proof -
  have head: "\<exists>r. url = CHR ''h'' # r" using assms(5) by (cases url) (auto simp: http_url_def starts_with_def)
  then have path: "article_path url = url" "\<not> starts_with url ''/''" "url \<noteq> []"
    using assms(4) by (auto simp: article_path_def starts_with_def)
  have "fst (wiki_get (requesting answer) base url []) = [(''GET'', url)]"
    by (simp add: wiki_get_def assms(4,5) path Let_def requesting_def split: sum.split)
  moreover have "check_call home (Some p) ''minti-mcp-wiki'' ''wiki_get'' [(''path'', JStr url)] = Allow"
    using assms(3) by (simp add: check_call_def check_wiki_def Let_def)
  ultimately have "log = [(''GET'', url)]"
    using assms(1,2,7) by (auto simp: call_tool_def split: prod.splits sum.splits)
  then show ?thesis using assms(6) by (simp add: check_call_def check_http_def tool_denied_def Let_def)
qed

section \<open>Tags\<close>

text \<open>The tag expression as a scanner.\<close>

function drop_tags :: "string \<Rightarrow> string" where
  "drop_tags [] = []"
| "drop_tags (c # s) =
     (if c = CHR ''<'' \<and> s \<noteq> [] \<and> not_gt (hd s) \<and> \<not> (\<forall>d\<in>set s. not_gt d)
      then drop_tags (tl (dropWhile not_gt s)) else c # drop_tags s)"
  by pat_completeness auto

termination
  by (relation "measure length") (auto simp: less_Suc_eq_le intro: order_trans [OF diff_le_self length_dropWhile_le])

fun tag_free :: "string \<Rightarrow> bool" where
  "tag_free [] = True"
| "tag_free (c # s) = ((c = CHR ''<'' \<longrightarrow> s = [] \<or> \<not> not_gt (hd s) \<or> (\<forall>d\<in>set s. not_gt d)) \<and> tag_free s)"

lemma tag_match:
  "matches_at tag_re (pre, c # s) =
     (if c = CHR ''<'' \<and> s \<noteq> [] \<and> not_gt (hd s) \<and> \<not> (\<forall>d\<in>set s. not_gt d)
      then [((hd (dropWhile not_gt s) # rev (takeWhile not_gt s) @ c # pre, tl (dropWhile not_gt s)), [])] else [])"
  unfolding tag_re_def by (rule delimited)

lemma shorter_tail: "length (tl (dropWhile P s)) < Suc (length s)"
  using length_dropWhile_le [of P s] by simp

lemma replace_tags: "replace_from tag_re [] pre s = drop_tags s"
proof (induction s arbitrary: pre rule: drop_tags.induct)
  case (2 c s)
  let ?tag = "c = CHR ''<'' \<and> s \<noteq> [] \<and> not_gt (hd s) \<and> \<not> (\<forall>d\<in>set s. not_gt d)"
  show ?case
  proof (cases ?tag)
    case True
    with 2(1) [OF True] show ?thesis using shorter_tail [of not_gt s] unfolding replace_from.simps(2) tag_match drop_tags.simps(2) by simp
  next
    case False
    with 2(2) [OF False] show ?thesis unfolding replace_from.simps(2) tag_match drop_tags.simps(2) by (simp only: if_False list.case)
  qed
qed simp

lemma set_drop_tags: "set (drop_tags s) \<subseteq> set s"
proof (induction s rule: drop_tags.induct)
  case (2 c s)
  have tail: "set (tl (dropWhile not_gt s)) \<subseteq> set s"
  proof
    fix x
    assume "x \<in> set (tl (dropWhile not_gt s))"
    then have "x \<in> set (dropWhile not_gt s)" by (cases "dropWhile not_gt s") simp_all
    then show "x \<in> set s" by (rule set_dropWhileD)
  qed
  show ?case
  proof (cases "c = CHR ''<'' \<and> s \<noteq> [] \<and> not_gt (hd s) \<and> \<not> (\<forall>d\<in>set s. not_gt d)")
    case True
    from 2(1) [OF True] tail show ?thesis unfolding drop_tags.simps(2) if_P [OF True] by (meson order_trans set_subset_Cons)
  next
    case False
    from 2(2) [OF False] show ?thesis unfolding drop_tags.simps(2) if_not_P [OF False] by auto
  qed
qed simp

lemma drop_tags_free: "tag_free (drop_tags s)"
proof (induction s rule: drop_tags.induct)
  case (2 c s)
  show ?case
  proof (cases "c = CHR ''<'' \<and> s \<noteq> [] \<and> not_gt (hd s) \<and> \<not> (\<forall>d\<in>set s. not_gt d)")
    case True
    with 2(1) [OF True] show ?thesis by simp
  next
    case False
    have "drop_tags s = [] \<or> \<not> not_gt (hd (drop_tags s)) \<or> (\<forall>d\<in>set (drop_tags s). not_gt d)" if "c = CHR ''<''"
    proof (cases s)
      case (Cons d t)
      show ?thesis
      proof (cases "not_gt d")
        case True
        with that False Cons have "\<forall>d\<in>set s. not_gt d" by simp
        with set_drop_tags [of s] show ?thesis by blast
      next
        case gt: False
        then have "d \<noteq> CHR ''<''" by (auto simp: not_gt_def)
        with gt Cons show ?thesis by simp
      qed
    qed simp
    with 2(2) [OF False] show ?thesis unfolding drop_tags.simps(2) if_not_P [OF False] by simp
  qed
qed simp

lemma free_no_match: "tag_free s \<Longrightarrow> find_match tag_re pre s = None"
proof (induction s arbitrary: pre)
  case Nil
  then show ?case by (simp add: tag_re_def class_then)
next
  case (Cons c s)
  then have "matches_at tag_re (pre, c # s) = []" unfolding tag_match by (simp only: tag_free.simps) auto
  with Cons show ?case by simp
qed

text \<open>Stripping tags. Replacing the matches of the tag expression is the same as a scanner that drops the text from a
  \<open><\<close> to the next \<open>>\<close> unless nothing is between them, and what is left has no match any more.\<close>

theorem stripping_leaves_no_tag:
  "replace_all tag_re [] s = drop_tags s \<and> \<not> match_string tag_re (replace_all tag_re [] s)"
  by (simp add: replace_all_def replace_tags match_string_def free_no_match drop_tags_free)

section \<open>Bounds\<close>


lemma collect_hits_bounded:
  assumes "distinct (map hi_url out)" "set (map hi_url out) \<subseteq> seen" "length out \<le> limit" "\<forall>h\<in>set out. hi_title h \<noteq> [] \<and> hi_url h \<noteq> []" "length out < limit"
  shows "distinct (map hi_url (collect_hits uddg limit snips seen out ms)) \<and> length (collect_hits uddg limit snips seen out ms) \<le> limit \<and>
    (\<forall>h\<in>set (collect_hits uddg limit snips seen out ms). hi_title h \<noteq> [] \<and> hi_url h \<noteq> [])"
  using assms
proof (induction uddg limit snips seen out ms rule: collect_hits.induct)
  case (2 uddg limit snips seen out m ms)
  show ?case
  proof (cases "unwrap_url uddg (m ! 0) = [] \<or> clean_text (m ! 1) = [] \<or> unwrap_url uddg (m ! 0) \<in> seen")
    case True
    with 2 show ?thesis by (simp add: Let_def)
  next
    case False
    let ?out = "out @ [\<lparr>hi_title = clean_text (m ! 1), hi_url = unwrap_url uddg (m ! 0),
        hi_snippet = (case snips of [] \<Rightarrow> [] | s # _ \<Rightarrow> clean_text (s ! 0))\<rparr>]"
    have out: "distinct (map hi_url ?out)" "set (map hi_url ?out) \<subseteq> insert (unwrap_url uddg (m ! 0)) seen"
      "length ?out \<le> limit" "\<forall>h\<in>set ?out. hi_title h \<noteq> [] \<and> hi_url h \<noteq> []"
      using 2(3-7) False by auto
    show ?thesis
    proof (cases "length ?out \<ge> limit")
      case True
      with out False show ?thesis by (simp add: Let_def)
    next
      case full: False
      then show ?thesis using 2(2) [OF refl refl refl False refl full out] False by (simp add: Let_def)
    qed
  qed
qed simp

text \<open>A web search answers between 1 and 25 hits, no more than asked for, each with a title and an address, and no address
  twice, whatever the page contains.\<close>

theorem web_search_is_bounded:
  assumes "web_search http uddg base query requested w = (w', Inr (q, hs))"
  shows "hs \<noteq> [] \<and> length hs \<le> 25 \<and> (0 < requested \<longrightarrow> int (length hs) \<le> requested) \<and> distinct (map hi_url hs) \<and>
    (\<forall>h\<in>set hs. hi_title h \<noteq> [] \<and> hi_url h \<noteq> [])"
proof -
  obtain body where b: "hs = parse_results uddg body (nat (search_limit 8 25 requested))" "hs \<noteq> []"
    using assms by (auto simp: web_search_def Let_def split: if_splits prod.splits sum.splits)
  have limit: "0 < search_limit 8 25 requested" "search_limit 8 25 requested \<le> 25"
    "0 < requested \<Longrightarrow> search_limit 8 25 requested \<le> requested" by (auto simp: search_limit_def Let_def)
  have "distinct (map hi_url hs) \<and> length hs \<le> nat (search_limit 8 25 requested) \<and> (\<forall>h\<in>set hs. hi_title h \<noteq> [] \<and> hi_url h \<noteq> [])"
    unfolding b(1) parse_results_def by (rule collect_hits_bounded) (use limit(1) in auto)
  with b(2) limit show ?thesis by auto
qed


section \<open>Samples\<close>

definition sample_page :: http_reply where
  "sample_page = \<lparr>hy_status = 200, hy_headers = [], hy_length = 5, hy_body = ''<p>ab'', hy_broken = None\<rparr>"

definition sample_run :: "string \<Rightarrow> string list \<Rightarrow> command_result" where
  "sample_run bin args = \<lparr>co_stdout = [], co_stderr = [], co_end = RanOk, co_deadline = False\<rparr>"

definition guarded_policy :: policy where
  "guarded_policy = default_policy\<lparr>po_http := (po_http default_policy)\<lparr>ht_deny_tools := [''fetch_url'', ''head_url'']\<rparr>\<rparr>"

definition guarded :: "string \<Rightarrow> mcp_server" where
  "guarded name = \<lparr>mv_name = name, mv_policy = Some guarded_policy, mv_log = []\<rparr>"

lemma nested_pair: "\<exists>a b c. x = ((a, b), c)"
  by (cases x) auto

theorem scan_target_can_be_an_option_witness:
  "snd (fst (call_tool None ''nmap_scan''
      (\<lambda>w. case nmap_scan (recording sample_run) (po_recon default_policy) (CHR ''-'' # ''sS'') False w of
         (w1, Inl e) \<Rightarrow> (w1, Inl ''error'') | (w1, Inr out) \<Rightarrow> (w1, Inr out))
      [(''target'', JStr (CHR ''-'' # ''sS''))] (\<lparr>mv_name = ''minti-mcp-recon'', mv_policy = Some default_policy, mv_log = []\<rparr>, []))) =
   [(''nmap'', [''-sV'', ''-T3'', ''--top-ports'', ''1000'', ''-sS''])]" (is "snd (fst ?c) = _")
proof -
  obtain s' log result where c: "?c = ((s', log), result)" using nested_pair [of ?c] by blast
  have "list_all target_char ''sS''" by code_simp
  then have "log = [(''nmap'', [''-sV'', ''-T3'', ''--top-ports'', ''1000'', CHR ''-'' # ''sS''])]"
    by (intro scan_target_can_be_an_option [OF _ _ _ _ _ c]) (simp_all add: default_policy_def)
  then show ?thesis by (simp only: c fst_conv snd_conv)
qed

theorem wiki_get_reaches_any_host_witness:
  "snd (fst (call_tool None ''wiki_get''
      (\<lambda>w. case wiki_get (requesting (\<lambda>_ _. Inr sample_page)) wiki_default_base ''http://x/'' w of
         (w1, Inl e) \<Rightarrow> (w1, Inl ''error'') | (w1, Inr out) \<Rightarrow> (w1, Inr out))
      [(''path'', JStr ''http://x/'')] (guarded ''minti-mcp-wiki'', []))) = [(''GET'', ''http://x/'')]" (is "snd (fst ?c) = _")
proof -
  obtain s' log result where c: "?c = ((s', log), result)" using nested_pair [of ?c] by blast
  have url: "trim ''http://x/'' = ''http://x/''" "http_url ''http://x/''" by code_simp+
  have policy: "''wiki_get'' \<notin> set (po_wiki_deny_tools guarded_policy)"
    "{''fetch_url'', ''head_url''} \<subseteq> set (ht_deny_tools (po_http guarded_policy))"
    by (simp_all add: guarded_policy_def default_policy_def)
  have server: "mv_name (guarded ''minti-mcp-wiki'') = ''minti-mcp-wiki''" "mv_policy (guarded ''minti-mcp-wiki'') = Some guarded_policy"
    by (simp_all add: guarded_def)
  have "log = [(''GET'', ''http://x/'')]"
    using wiki_get_reaches_any_host [OF server policy(1) url policy(2) c] by (rule conjunct1)
  then show ?thesis by (simp only: c fst_conv snd_conv)
qed


definition sample_results :: http_reply where
  "sample_results =
     sample_page\<lparr>hy_body := ''<a class='' @ [dquote] @ ''result__a'' @ [dquote] @ '' href='' @ [dquote] @ ''u'' @ [dquote] @ ''>t</a>''\<rparr>"

theorem web_search_is_bounded_witness:
  "\<exists>hs. web_search (\<lambda>w _ _. (w, Inr sample_results)) (\<lambda>_. ''u'') ''s'' ''q'' 3 () = ((), Inr (''q'', hs)) \<and> hs \<noteq> [] \<and> length hs \<le> 3"
proof -
  let ?a = "web_search (\<lambda>w _ _. (w, Inr sample_results)) (\<lambda>_. ''u'') ''s'' ''q'' 3 ()"
  have "snd ?a = Inr (''q'', [\<lparr>hi_title = ''t'', hi_url = ''u'', hi_snippet = []\<rparr>])" by code_simp
  then obtain hs where w: "?a = ((), Inr (''q'', hs))" by (cases ?a) simp
  from web_search_is_bounded [OF w] have "hs \<noteq> []" "length hs \<le> 3" by auto
  with w show ?thesis by blast
qed

end
