(* ===== verification/PackFetch.thy ===== *)
theory PackFetch
  imports ToolExec McpPolicy
begin

text \<open>
  The content fetcher for addon packs (\<open>pack-manager/cmd/minti-pack-fetch/main.go\<close>) over the files it writes. SHA-256, the JSON
  codec, \<open>ollama pull\<close>, the free space of the disk and the web server are parameters; making directories and writing files
  succeed. The headroom of 1.25 is computed exactly, as floats do for sizes below \<open>2 ^ 50\<close>. Progress output is left out.
\<close>

section \<open>Data\<close>

record manifest =
  mf_name :: string
  mf_kind :: string
  mf_tag :: string
  mf_url :: string
  mf_sha256 :: string
  mf_size :: int
  mf_dest :: string

record installed =
  it_name :: string
  it_kind :: string
  it_source :: string
  it_sha256 :: string
  it_dest_path :: string
  it_timestamp :: time

type_synonym files = "string \<rightharpoonup> bytes"

text \<open>\<open>path.Base\<close>.\<close>

definition path_base :: "string \<Rightarrow> string" where
  "path_base p =
     (if p = [] then ''.''
      else
        let q = rev (dropWhile (\<lambda>c. c = CHR ''/'') (rev p));
            b = rev (takeWhile (\<lambda>c. c \<noteq> CHR ''/'') (rev q))
        in if b = [] then ''/'' else b)"

definition equal_fold :: "string \<Rightarrow> string \<Rightarrow> bool" where
  "equal_fold a b \<longleftrightarrow> to_lower a = to_lower b"

section \<open>Manifests and markers\<close>

definition read_manifest :: "(bytes \<Rightarrow> string + manifest) \<Rightarrow> files \<Rightarrow> string \<Rightarrow> string + manifest" where
  "read_manifest decode fs p =
     (case fs p of
        None \<Rightarrow> Inl ''no such file''
      | Some b \<Rightarrow>
          (case decode b of
             Inl e \<Rightarrow> Inl e
           | Inr m \<Rightarrow> if mf_kind m = [] then Inl ''manifest.kind is required'' else Inr m))"

definition write_installed :: "(installed \<Rightarrow> bytes) \<Rightarrow> string \<Rightarrow> installed \<Rightarrow> files \<Rightarrow> files" where
  "write_installed encode p i fs =
     (let tmp = p @ ''.tmp''; fs1 = fs(tmp \<mapsto> encode i @ [LF]) in (fs1(p := fs1 tmp))(tmp := None))"

definition file_exists :: "files \<Rightarrow> string \<Rightarrow> bool" where
  "file_exists fs p \<longleftrightarrow> fs p \<noteq> None"

section \<open>Downloads\<close>

text \<open>The answer to a request from an offset: the status and the part of the body that arrives, broken off or not.\<close>

datatype get_reply = GetFails string | GetReply http_status bytes bool

type_synonym 'w web = "'w \<Rightarrow> string \<Rightarrow> nat option \<Rightarrow> 'w \<times> get_reply"

definition download_resumable :: "'w web \<Rightarrow> string \<Rightarrow> string \<Rightarrow> files \<times> 'w \<Rightarrow> (files \<times> 'w) \<times> string option" where
  "download_resumable web url dst s =
     (case s of (fs, w) \<Rightarrow>
        let start = (case fs dst of None \<Rightarrow> 0 | Some b \<Rightarrow> length b)
        in case web w url (if start > 0 then Some start else None) of
             (w1, GetFails e) \<Rightarrow> ((fs, w1), Some (''GET '' @ url @ '': '' @ e))
           | (w1, GetReply status body broken) \<Rightarrow>
               if status = 200 \<or> status = 206 then
                 let fs1 = (if status = 200 \<and> start > 0 then fs(dst \<mapsto> []) else fs);
                     old = (case fs1 dst of None \<Rightarrow> [] | Some b \<Rightarrow> b);
                     fs2 = fs1(dst \<mapsto> old @ body)
                 in ((fs2, w1), if broken then Some (''write '' @ dst) else None)
               else ((fs, w1), Some (''GET '' @ url @ '': unexpected status'')))"

definition sha_matches :: "(bytes \<Rightarrow> bytes) \<Rightarrow> manifest \<Rightarrow> bytes \<Rightarrow> bool" where
  "sha_matches sha m b \<longleftrightarrow> mf_sha256 m = [] \<or> equal_fold (hex_encode (sha b)) (mf_sha256 m)"

definition final_path :: "manifest \<Rightarrow> string" where
  "final_path m = path_join (mf_dest m) (path_base (mf_url m))"

definition fetch_kiwix ::
  "(bytes \<Rightarrow> bytes) \<Rightarrow> (string \<Rightarrow> int option) \<Rightarrow> 'w web \<Rightarrow> manifest \<Rightarrow> bool \<Rightarrow> files \<times> 'w \<Rightarrow> (files \<times> 'w) \<times> (string + string)" where
  "fetch_kiwix sha free web m no_fetch s =
     (if mf_url m = [] then (s, Inl ''kiwix-zim manifest missing `url`'')
      else if mf_dest m = [] then (s, Inl ''kiwix-zim manifest missing `dest`'')
      else if no_fetch then (s, Inr (final_path m))
      else case fst s (final_path m) of
        Some b \<Rightarrow> if sha_matches sha m b then (s, Inr (final_path m)) else (s, Inl ''existing file SHA-256 mismatch'')
      | None \<Rightarrow>
          if mf_size m > 0 \<and> (case free (mf_dest m) of None \<Rightarrow> False | Some n \<Rightarrow> n < mf_size m * 5 div 4)
          then (s, Inl ''not enough free disk'')
          else
            let partial = final_path m @ ''.partial''
            in case download_resumable web (mf_url m) partial s of
                 (s1, Some e) \<Rightarrow> (s1, Inl e)
               | (s1, None) \<Rightarrow>
                   (case fst s1 partial of
                      None \<Rightarrow> (s1, Inl ''no such file'')
                    | Some b \<Rightarrow>
                        if \<not> sha_matches sha m b then (s1, Inl ''SHA-256 mismatch'')
                        else (((fst s1)(final_path m \<mapsto> b, partial := None), snd s1), Inr (final_path m))))"

definition fetch_ollama :: "('w \<Rightarrow> string \<Rightarrow> 'w \<times> string option) \<Rightarrow> bool \<Rightarrow> manifest \<Rightarrow> 'w \<Rightarrow> 'w \<times> string option" where
  "fetch_ollama pull on_path m w =
     (if mf_tag m = [] then (w, Some ''ollama-model manifest missing `tag`'')
      else if \<not> on_path then (w, Some ''ollama not on PATH'')
      else case pull w (mf_tag m) of
        (w1, Some e) \<Rightarrow> (w1, Some (''ollama pull failed: '' @ e))
      | (w1, None) \<Rightarrow> (w1, None))"

section \<open>The command\<close>

record pack_options =
  pk_manifest_root :: string
  pk_manifest_path :: string
  pk_state_root :: string
  pk_force :: bool
  pk_no_fetch :: bool
  pk_env_no_fetch :: string
  pk_name :: string

datatype pack_result = PackUsage | PackFailed string | AlreadyInstalled | PackDone

definition marker_path :: "pack_options \<Rightarrow> string \<Rightarrow> string" where
  "marker_path opts name = path_join (pk_state_root opts) (name @ ''.installed'')"

definition manifest_path_of :: "pack_options \<Rightarrow> string" where
  "manifest_path_of opts =
     (if pk_manifest_path opts \<noteq> [] then pk_manifest_path opts
      else path_join (path_join (pk_manifest_root opts) (trim (pk_name opts))) ''manifest.json'')"

definition skips_download :: "pack_options \<Rightarrow> bool" where
  "skips_download opts \<longleftrightarrow> pk_env_no_fetch opts = ''1'' \<or> pk_no_fetch opts"

definition pack_name :: "pack_options \<Rightarrow> manifest \<Rightarrow> string" where
  "pack_name opts m = (if trim (pk_name opts) = [] then mf_name m else trim (pk_name opts))"

text \<open>From the flags on, without \<open>-version\<close> and \<open>-list\<close>.\<close>

definition pack_fetch ::
  "(bytes \<Rightarrow> bytes) \<Rightarrow> (bytes \<Rightarrow> string + manifest) \<Rightarrow> (installed \<Rightarrow> bytes) \<Rightarrow> (string \<Rightarrow> int option) \<Rightarrow> 'w web \<Rightarrow>
     ('w \<Rightarrow> string \<Rightarrow> 'w \<times> string option) \<Rightarrow> bool \<Rightarrow> time \<Rightarrow> pack_options \<Rightarrow> files \<times> 'w \<Rightarrow> (files \<times> 'w) \<times> pack_result" where
  "pack_fetch sha decode encode free web pull on_path now opts s =
     (if trim (pk_name opts) = [] \<and> pk_manifest_path opts = [] then (s, PackUsage)
      else case read_manifest decode (fst s) (manifest_path_of opts) of
           Inl e \<Rightarrow> (s, PackFailed (''read manifest: '' @ e))
         | Inr m \<Rightarrow>
             let name = pack_name opts m;
                 marker = marker_path opts name;
                 inst = \<lparr>it_name = name, it_kind = mf_kind m, it_source = [], it_sha256 = [], it_dest_path = [], it_timestamp = now\<rparr>
             in if mf_name m \<noteq> [] \<and> mf_name m \<noteq> name then (s, PackFailed ''manifest name does not match requested'')
                else if \<not> pk_force opts \<and> file_exists (fst s) marker then (s, AlreadyInstalled)
                else if mf_kind m = ''ollama-model'' then
                  (case (if skips_download opts then (snd s, None) else fetch_ollama pull on_path m (snd s)) of
                     (w1, Some e) \<Rightarrow> ((fst s, w1), PackFailed e)
                   | (w1, None) \<Rightarrow> ((write_installed encode marker (inst\<lparr>it_source := mf_tag m\<rparr>) (fst s), w1), PackDone))
                else if mf_kind m = ''kiwix-zim'' then
                  (case fetch_kiwix sha free web m (skips_download opts) s of
                     (s1, Inl e) \<Rightarrow> (s1, PackFailed e)
                   | (s1, Inr dest) \<Rightarrow>
                       ((write_installed encode marker
                           (inst\<lparr>it_source := mf_url m, it_sha256 := mf_sha256 m, it_dest_path := dest\<rparr>) (fst s1), snd s1), PackDone))
                else (s, PackFailed ''unknown manifest kind''))"

section \<open>Downloads that break off\<close>

text \<open>A server with one content: it may ignore ranges, and an answer may break off after some bytes.\<close>

record attempt =
  at_ranges :: bool
  at_cut :: nat

definition serving :: "bytes \<Rightarrow> attempt \<Rightarrow> unit web" where
  "serving content a w url from_byte =
     (let part = (case from_byte of Some k \<Rightarrow> if at_ranges a then drop k content else content | None \<Rightarrow> content)
      in if (case from_byte of Some k \<Rightarrow> at_ranges a \<and> length content \<le> k | None \<Rightarrow> False) then ((), GetReply 416 [] False)
         else ((), GetReply (if from_byte \<noteq> None \<and> at_ranges a then 206 else 200) (take (at_cut a) part) (at_cut a < length part)))"

definition part_of :: "bytes \<Rightarrow> bytes option \<Rightarrow> bool" where
  "part_of content f \<longleftrightarrow> (case f of None \<Rightarrow> True | Some b \<Rightarrow> \<exists>k. b = take k content)"

lemma take_more: "take k xs @ take n (drop (length (take k xs)) xs) = take (min k (length xs) + n) xs"
  by (simp add: take_add min_def)

lemma whole_is_part [simp]: "\<exists>k. xs = take k xs"
  by (rule exI[of _ "length xs"]) simp

lemma download_step:
  assumes "part_of content (fs dst)" "download_resumable (serving content a) url dst (fs, ()) = ((fs', u), err)"
  shows "part_of content (fs' dst) \<and> (err = None \<longrightarrow> fs' dst = Some content) \<and> (\<forall>p. p \<noteq> dst \<longrightarrow> fs' p = fs p)"
proof (cases "fs dst")
  case None
  with assms(2) show ?thesis
    by (auto simp: download_resumable_def serving_def part_of_def Let_def split: if_splits)
next
  case (Some b)
  with assms(1) obtain k where b: "b = take k content" by (auto simp: part_of_def)
  show ?thesis
  proof (cases "b = []")
    case True
    with Some assms(2) show ?thesis
      by (auto simp: download_resumable_def serving_def part_of_def Let_def split: if_splits)
  next
    case False
    show ?thesis
    proof (cases "at_ranges a")
      case True
      have "b @ take n (drop (length b) content) = take (length b + n) content" for n
        using b by (auto simp: take_add min_def)
      then show ?thesis
        using Some assms(2) False True b
        by (auto simp: download_resumable_def serving_def part_of_def Let_def split: if_splits)
    next
      case no: False
      with Some assms(2) False show ?thesis
        by (auto simp: download_resumable_def serving_def part_of_def Let_def split: if_splits)
    qed
  qed
qed

section \<open>Properties\<close>

text \<open>Runs of the fetcher over one server, each meeting its own luck.\<close>

fun fetch_attempts :: "(bytes \<Rightarrow> bytes) \<Rightarrow> (string \<Rightarrow> int option) \<Rightarrow> bytes \<Rightarrow> manifest \<Rightarrow> attempt list \<Rightarrow> files \<Rightarrow> files \<times> (string + string) list" where
  "fetch_attempts sha free content m [] fs = (fs, [])"
| "fetch_attempts sha free content m (a # as) fs =
     (case fetch_kiwix sha free (serving content a) m False (fs, ()) of
        ((fs1, _), r) \<Rightarrow> (case fetch_attempts sha free content m as fs1 of (fs2, rs) \<Rightarrow> (fs2, r # rs)))"

definition fetched_ok :: "bytes \<Rightarrow> manifest \<Rightarrow> files \<Rightarrow> bool" where
  "fetched_ok content m fs \<longleftrightarrow>
     part_of content (fs (final_path m @ ''.partial'')) \<and> fs (final_path m) \<in> {None, Some content}"

lemma partial_is_other [simp]: "p @ ''.partial'' \<noteq> p" "p \<noteq> p @ ''.partial''"
  by simp_all

lemma fetch_kiwix_step:
  assumes ok: "fetched_ok content m fs"
    and run: "fetch_kiwix sha free (serving content a) m False (fs, ()) = ((fs', u), r)"
  shows "fetched_ok content m fs' \<and> (\<forall>d. r = Inr d \<longrightarrow> fs' (final_path m) = Some content)"
proof -
  define q where "q = final_path m"
  define p where "p = q @ ''.partial''"
  have qp: "q \<noteq> p" unfolding p_def by simp
  obtain fs1 u1 e where dl: "download_resumable (serving content a) (mf_url m) p (fs, ()) = ((fs1, u1), e)"
    by (metis prod.exhaust)
  have part: "part_of content (fs p)" and q: "fs q = None \<or> fs q = Some content"
    using ok by (auto simp: fetched_ok_def p_def q_def)
  note step = download_step[OF part dl]
  consider (same) "fs' = fs" "\<And>d. r = Inr d \<Longrightarrow> fs q = Some content"
    | (failed) "fs' = fs1" "\<And>d. r \<noteq> Inr d"
    | (moved) "e = None" "fs' = fs1(q := fs1 p, p := None)"
    using run dl q qp unfolding fetch_kiwix_def q_def[symmetric] p_def[symmetric] Let_def
    by (auto split: if_splits option.splits)
  then show ?thesis
  proof cases
    case same
    then show ?thesis using ok by (auto simp: q_def)
  next
    case failed
    then show ?thesis using step q qp unfolding fetched_ok_def q_def[symmetric] p_def[symmetric] by auto
  next
    case moved
    then show ?thesis using step qp unfolding fetched_ok_def q_def[symmetric] p_def[symmetric] by (auto simp: part_of_def)
  qed
qed

lemma fetch_kiwix_present:
  assumes "fs (final_path m) = Some b" "fetch_kiwix sha free web m no_fetch (fs, w) = ((fs', w'), r)"
  shows "fs' = fs \<and> w' = w"
  using assms by (auto simp: fetch_kiwix_def Let_def split: if_splits)

lemma fetch_attempts_keeps:
  assumes "fs (final_path m) = Some b" "fetch_attempts sha free content m as fs = (fs', rs)"
  shows "fs' = fs"
  using assms
proof (induction as arbitrary: rs)
  case (Cons a as)
  then show ?case
    by (auto split: prod.splits dest: fetch_kiwix_present)
qed simp

text \<open>A pack for the concrete runs: three bytes of content whose digest is themselves, so that witnesses evaluate.\<close>

definition wiki_manifest :: manifest where
  "wiki_manifest = \<lparr>mf_name = ''wiki'', mf_kind = ''kiwix-zim'', mf_tag = [], mf_url = ''https://h/w.zim'', mf_sha256 = ''616263'',
     mf_size = 3, mf_dest = ''/data''\<rparr>"

definition wiki_files :: files where
  "wiki_files = [''/packs/wiki/manifest.json'' \<mapsto> ''m'']"

definition wiki_options :: pack_options where
  "wiki_options = \<lparr>pk_manifest_root = ''/packs'', pk_manifest_path = [], pk_state_root = ''/state'', pk_force = False,
     pk_no_fetch = False, pk_env_no_fetch = [], pk_name = ''wiki''\<rparr>"

text \<open>C36: Whatever breaks off: after any sequence of interrupted, resumed and restarted downloads of a pack, what lies in the
  partial file is a beginning of the content of the server, the final file is absent or the whole content, and it is the whole
  content once one of the runs has reported success.\<close>

theorem resumed_download_is_content:
  assumes "fetched_ok content m fs" "fetch_attempts sha free content m as fs = (fs', rs)"
  shows "fetched_ok content m fs' \<and> ((\<exists>d. Inr d \<in> set rs) \<longrightarrow> fs' (final_path m) = Some content)"
  using assms
proof (induction as arbitrary: fs fs' rs)
  case Nil
  then show ?case by simp
next
  case (Cons a as)
  obtain fs1 u r where k: "fetch_kiwix sha free (serving content a) m False (fs, ()) = ((fs1, u), r)"
    by (metis prod.exhaust)
  obtain fs2 rs2 where rest: "fetch_attempts sha free content m as fs1 = (fs2, rs2)"
    by (metis prod.exhaust)
  have eq: "fs' = fs2" "rs = r # rs2" using Cons.prems(2) k rest by simp_all
  note step = fetch_kiwix_step[OF Cons.prems(1) k]
  have ih: "fetched_ok content m fs2 \<and> ((\<exists>d. Inr d \<in> set rs2) \<longrightarrow> fs2 (final_path m) = Some content)"
    using Cons.IH[OF conjunct1[OF step] rest] .
  have kept: "fs1 (final_path m) = Some content \<Longrightarrow> fs2 (final_path m) = Some content"
    using fetch_attempts_keeps[OF _ rest] by simp
  show ?case using ih kept step eq by auto
qed

theorem resumed_download_is_content_witness:
  "fst (fetch_attempts id (\<lambda>_. None) ''abc'' wiki_manifest [\<lparr>at_ranges = True, at_cut = 1\<rparr>, \<lparr>at_ranges = True, at_cut = 5\<rparr>] wiki_files)
     ''/data/w.zim'' = Some ''abc''"
proof -
  let ?as = "[\<lparr>at_ranges = True, at_cut = 1\<rparr>, \<lparr>at_ranges = True, at_cut = 5\<rparr>]"
  have final: "final_path wiki_manifest = ''/data/w.zim''" by code_simp
  have ok: "fetched_ok ''abc'' wiki_manifest wiki_files"
    unfolding fetched_ok_def final by (simp add: part_of_def wiki_files_def)
  have won: "Inr ''/data/w.zim'' \<in> set (snd (fetch_attempts id (\<lambda>_. None) ''abc'' wiki_manifest ?as wiki_files))"
    by code_simp
  show ?thesis
    using resumed_download_is_content[OF ok prod.collapse[symmetric], of id "\<lambda>_. None" ?as] won final by auto
qed

lemma fetch_kiwix_verified:
  assumes "fetch_kiwix sha free web m False s = (s', Inr d)"
  shows "d = final_path m \<and> (\<exists>b. fst s' d = Some b \<and> sha_matches sha m b)"
  using assms by (auto simp: fetch_kiwix_def Let_def split: if_splits option.splits prod.splits)

lemma write_installed_apply:
  "write_installed encode p i fs q = (if q = p then Some (encode i @ [LF]) else if q = p @ ''.tmp'' then None else fs q)"
  by (simp add: write_installed_def Let_def)



text \<open>A pack whose download was put off counts as installed: the run with downloads switched off writes the marker and
  nothing else, and the run that is to fetch the content later returns at once as already installed, without a request.\<close>

theorem skipped_download_counts_as_installed:
  assumes "read_manifest decode fs (manifest_path_of opts) = Inr m" "mf_kind m = ''kiwix-zim''" "mf_url m \<noteq> []" "mf_dest m \<noteq> []"
    and "mf_name m = trim (pk_name opts)" "trim (pk_name opts) \<noteq> []"
    and "\<not> file_exists fs (marker_path opts (pack_name opts m))"
    and "manifest_path_of opts \<noteq> marker_path opts (pack_name opts m)"
        "manifest_path_of opts \<noteq> marker_path opts (pack_name opts m) @ ''.tmp''"
    and later: "pk_manifest_root opts2 = pk_manifest_root opts" "pk_manifest_path opts2 = pk_manifest_path opts"
        "pk_state_root opts2 = pk_state_root opts" "pk_name opts2 = pk_name opts" "\<not> pk_force opts2"
  shows "\<exists>fs1. pack_fetch sha decode encode free web pull on_path now (opts\<lparr>pk_no_fetch := True\<rparr>) (fs, w) = ((fs1, w), PackDone) \<and>
               (\<forall>p. p \<notin> {marker_path opts (pack_name opts m), marker_path opts (pack_name opts m) @ ''.tmp''} \<longrightarrow> fs1 p = fs p) \<and>
               pack_fetch sha decode encode free web2 pull on_path now2 opts2 (fs1, w2) = ((fs1, w2), AlreadyInstalled)"
proof -
  define mk where "mk = marker_path opts (pack_name opts m)"
  have mk: "marker_path opts (trim (pk_name opts)) = mk" "pack_name opts m = trim (pk_name opts)"
    using assms(6) by (simp_all add: mk_def pack_name_def)
  have no_fetch: "manifest_path_of (opts\<lparr>pk_no_fetch := True\<rparr>) = manifest_path_of opts"
    "marker_path (opts\<lparr>pk_no_fetch := True\<rparr>) = marker_path opts" "pack_name (opts\<lparr>pk_no_fetch := True\<rparr>) = pack_name opts"
    "skips_download (opts\<lparr>pk_no_fetch := True\<rparr>)"
    by (auto simp: manifest_path_of_def marker_path_def pack_name_def skips_download_def)
  have again: "manifest_path_of opts2 = manifest_path_of opts" "marker_path opts2 = marker_path opts" "pack_name opts2 = pack_name opts"
    using later by (auto simp: manifest_path_of_def marker_path_def pack_name_def)
  obtain i where first: "pack_fetch sha decode encode free web pull on_path now (opts\<lparr>pk_no_fetch := True\<rparr>) (fs, w) =
      ((write_installed encode mk i fs, w), PackDone)"
    using assms(1-7) unfolding pack_fetch_def
    by (auto simp: no_fetch fetch_kiwix_def Let_def mk_def pack_name_def)
  have kept: "read_manifest decode (write_installed encode mk i fs) (manifest_path_of opts) = Inr m"
    using assms(1,8,9) by (simp add: read_manifest_def write_installed_apply mk_def)
  have "file_exists (write_installed encode mk i fs) mk"
    by (simp add: file_exists_def write_installed_apply)
  then have "pack_fetch sha decode encode free web2 pull on_path now2 opts2 (write_installed encode mk i fs, w2) =
      ((write_installed encode mk i fs, w2), AlreadyInstalled)"
    using assms(5,6) later kept unfolding pack_fetch_def
    by (simp add: again mk Let_def)
  with first show ?thesis by (auto simp: write_installed_apply mk_def)
qed

theorem skipped_download_counts_as_installed_witness:
  "\<exists>fs1. fs1 ''/data/w.zim'' = None \<and>
     pack_fetch id (\<lambda>_. Inr wiki_manifest) it_name (\<lambda>_. None) (serving ''abc'' \<lparr>at_ranges = True, at_cut = 9\<rparr>)
        (\<lambda>w _. (w, None)) False 7 wiki_options (fs1, ()) = ((fs1, ()), AlreadyInstalled)"
proof -
  have m: "read_manifest (\<lambda>_. Inr wiki_manifest) wiki_files (manifest_path_of wiki_options) = Inr wiki_manifest" by code_simp
  have k: "mf_kind wiki_manifest = ''kiwix-zim''" "mf_url wiki_manifest \<noteq> []" "mf_dest wiki_manifest \<noteq> []"
    "mf_name wiki_manifest = trim (pk_name wiki_options)" "trim (pk_name wiki_options) \<noteq> []"
    "\<not> file_exists wiki_files (marker_path wiki_options (pack_name wiki_options wiki_manifest))"
    "manifest_path_of wiki_options \<noteq> marker_path wiki_options (pack_name wiki_options wiki_manifest)"
    "manifest_path_of wiki_options \<noteq> marker_path wiki_options (pack_name wiki_options wiki_manifest) @ ''.tmp''"
    by code_simp+
  have f: "\<not> pk_force wiki_options" by code_simp
  have p: "''/data/w.zim'' \<notin> {marker_path wiki_options (pack_name wiki_options wiki_manifest),
      marker_path wiki_options (pack_name wiki_options wiki_manifest) @ ''.tmp''}" "wiki_files ''/data/w.zim'' = None"
    by code_simp+
  show ?thesis
    using skipped_download_counts_as_installed[OF m k refl refl refl refl f, of id it_name "\<lambda>_. None"
        "serving ''abc'' \<lparr>at_ranges = True, at_cut = 9\<rparr>" "\<lambda>w _. (w, None)" False 0 "()"
        "serving ''abc'' \<lparr>at_ranges = True, at_cut = 9\<rparr>" 7 "()"] p
    by metis
qed

text \<open>A partial file as long as the content and with another digest blocks the pack for good on a server that serves ranges:
  every later run asks for the range behind it, is refused, and leaves the files as they are.\<close>

theorem bad_partial_blocks_the_pack:
  assumes "fs (final_path m) = None" "fs (final_path m @ ''.partial'') = Some b" "b \<noteq> []" "length content \<le> length b"
    and "list_all at_ranges as"
  shows "fst (fetch_attempts sha free content m as fs) = fs \<and>
         list_all (\<lambda>r. case r of Inl _ \<Rightarrow> True | Inr _ \<Rightarrow> False) (snd (fetch_attempts sha free content m as fs))"
  using assms(5)
proof (induction as)
  case Nil
  then show ?case by simp
next
  case (Cons a as)
  have "\<exists>e. fetch_kiwix sha free (serving content a) m False (fs, ()) = ((fs, ()), Inl e)"
    using assms(1-4) Cons.prems
    by (auto simp: fetch_kiwix_def download_resumable_def serving_def Let_def split: option.splits)
  then obtain e where "fetch_kiwix sha free (serving content a) m False (fs, ()) = ((fs, ()), Inl e)" ..
  with Cons show ?case by (auto split: prod.splits)
qed

theorem bad_partial_blocks_the_pack_witness:
  "fst (fetch_attempts id (\<lambda>_. None) ''abc'' wiki_manifest [\<lparr>at_ranges = True, at_cut = 9\<rparr>, \<lparr>at_ranges = True, at_cut = 9\<rparr>]
     (wiki_files(final_path wiki_manifest @ ''.partial'' \<mapsto> ''xyz''))) =
   wiki_files(final_path wiki_manifest @ ''.partial'' \<mapsto> ''xyz'')"
proof -
  have "wiki_files (final_path wiki_manifest) = None" by code_simp
  then show ?thesis
    using bad_partial_blocks_the_pack[of "wiki_files(final_path wiki_manifest @ ''.partial'' \<mapsto> ''xyz'')" wiki_manifest
        "''xyz''" "''abc''" "[\<lparr>at_ranges = True, at_cut = 9\<rparr>, \<lparr>at_ranges = True, at_cut = 9\<rparr>]" id "\<lambda>_. None"]
    by simp
qed

end
