(* ===== verification/Flags.thy ===== *)
theory Flags
  imports Http
begin

text \<open>
  Command line flags as Go's \<open>flag\<close> package reads them for the flag sets of \<open>minti-cland\<close>, and
  \<open>splitPositionals\<close> of \<open>cland/cmd/minti-cland/memory_cmds.go\<close>. Every flag set of the program is made with
  \<open>ExitOnError\<close>, so an error is the end of the process with a status of its own. The values of a flag set are kept as text,
  the last one given first found; \<open>valid_duration\<close> is \<open>time.ParseDuration\<close> as far as it succeeds.
\<close>

section \<open>Flag sets\<close>

datatype flag_kind = StringFlag | BoolFlag | DurationFlag

type_synonym flag_set = "(string \<times> flag_kind) list"
type_synonym flag_values = "(string \<times> string) list"

datatype flag_error = BadSyntax | NotDefined string | HelpWanted | NeedsArgument string | BadValue string

text \<open>The status of the process after an error.\<close>

definition flag_exit :: "flag_error \<Rightarrow> nat" where
  "flag_exit e = (if e = HelpWanted then 0 else 2)"

definition true_words :: "string list" where
  "true_words = [''1'', ''t'', ''T'', ''TRUE'', ''true'', ''True'']"

definition false_words :: "string list" where
  "false_words = [''0'', ''f'', ''F'', ''FALSE'', ''false'', ''False'']"

definition parse_bool :: "string \<Rightarrow> bool option" where
  "parse_bool s = (if s \<in> set true_words then Some True else if s \<in> set false_words then Some False else None)"

text \<open>The value set for a flag, \<open>None\<close> when \<open>Set\<close> fails.\<close>

definition set_value :: "(string \<Rightarrow> bool) \<Rightarrow> flag_kind \<Rightarrow> string \<Rightarrow> string option" where
  "set_value valid_duration k v =
     (case k of
        StringFlag \<Rightarrow> Some v
      | BoolFlag \<Rightarrow> map_option (\<lambda>b. if b then ''true'' else ''false'') (parse_bool v)
      | DurationFlag \<Rightarrow> if valid_duration v then Some v else None)"

definition flag_string :: "flag_values \<Rightarrow> string \<Rightarrow> string \<Rightarrow> string" where
  "flag_string vs name d = (case map_of vs name of None \<Rightarrow> d | Some v \<Rightarrow> v)"

definition flag_bool :: "flag_values \<Rightarrow> string \<Rightarrow> bool" where
  "flag_bool vs name \<longleftrightarrow> map_of vs name = Some ''true''"

text \<open>The name of a flag and the value behind the first \<open>=\<close>, which is not the first character.\<close>

definition split_equals :: "string \<Rightarrow> string \<times> string option" where
  "split_equals name =
     (case index_byte (tl name) CHR ''='' of
        None \<Rightarrow> (name, None)
      | Some i \<Rightarrow> (take (Suc i) name, Some (drop (i + 2) name)))"

text \<open>The name with its value, when the argument is a flag: the part behind one or two hyphens.\<close>

definition flag_body :: "string \<Rightarrow> string" where
  "flag_body s = (if s ! 1 = CHR ''-'' then drop 2 s else tl s)"

definition not_a_flag :: "string \<Rightarrow> bool" where
  "not_a_flag s \<longleftrightarrow> length s < 2 \<or> hd s \<noteq> CHR ''-''"

definition body_ok :: "string \<Rightarrow> bool" where
  "body_ok b \<longleftrightarrow> b \<noteq> [] \<and> hd b \<noteq> CHR ''-'' \<and> hd b \<noteq> CHR ''=''"

text \<open>\<open>FlagSet.Parse\<close>: the values, and the arguments from the first one on that is no flag.\<close>

fun parse_flags :: "flag_set \<Rightarrow> (string \<Rightarrow> bool) \<Rightarrow> string list \<Rightarrow> flag_values \<Rightarrow> flag_error + flag_values \<times> string list" where
  "parse_flags fs vd [] vs = Inr (vs, [])"
| "parse_flags fs vd (s # args) vs =
     (if not_a_flag s then Inr (vs, s # args)
      else if s = ''--'' then Inr (vs, args)
      else if \<not> body_ok (flag_body s) then Inl BadSyntax
      else case split_equals (flag_body s) of
        (name, value) \<Rightarrow>
          (case map_of fs name of
             None \<Rightarrow> Inl (if name = ''help'' \<or> name = ''h'' then HelpWanted else NotDefined name)
           | Some k \<Rightarrow>
               (case (value, k, args) of
                  (Some v, _, _) \<Rightarrow>
                    (case set_value vd k v of None \<Rightarrow> Inl (BadValue name) | Some x \<Rightarrow> parse_flags fs vd args ((name, x) # vs))
                | (None, BoolFlag, _) \<Rightarrow> parse_flags fs vd args ((name, ''true'') # vs)
                | (None, _, []) \<Rightarrow> Inl (NeedsArgument name)
                | (None, _, v # rest) \<Rightarrow>
                    (case set_value vd k v of None \<Rightarrow> Inl (BadValue name) | Some x \<Rightarrow> parse_flags fs vd rest ((name, x) # vs)))))"

section \<open>Positional arguments\<close>

text \<open>\<open>limit\<close> is \<open>None\<close> for a negative maximum.\<close>

fun leading_positionals :: "nat option \<Rightarrow> string list \<Rightarrow> string list" where
  "leading_positionals limit [] = []"
| "leading_positionals limit (s # rest) =
     (if starts_with s ''-'' \<or> limit = Some 0 then []
      else s # leading_positionals (map_option (\<lambda>n. n - 1) limit) rest)"

definition split_positionals ::
  "flag_set \<Rightarrow> (string \<Rightarrow> bool) \<Rightarrow> nat option \<Rightarrow> flag_values \<times> string list \<Rightarrow> flag_error + flag_values \<times> string list" where
  "split_positionals fs vd limit parsed =
     (case parsed of (vs, args) \<Rightarrow>
        let pos = leading_positionals limit args; rest = drop (length pos) args
        in if rest = [] then Inr (vs, pos)
           else case parse_flags fs vd rest vs of
             Inl e \<Rightarrow> Inl e
           | Inr (vs1, more) \<Rightarrow> Inr (vs1, pos @ more))"

section \<open>Arguments that programs build\<close>

text \<open>A flag with its value as the next argument, or a switch.\<close>

datatype flag_arg = Gives string string | Turns string

fun render_flag :: "flag_arg \<Rightarrow> string list" where
  "render_flag (Gives name v) = [''--'' @ name, v]"
| "render_flag (Turns name) = [''--'' @ name]"

fun flag_entry :: "flag_arg \<Rightarrow> string \<times> string" where
  "flag_entry (Gives name v) = (name, v)"
| "flag_entry (Turns name) = (name, ''true'')"

fun name_of :: "flag_arg \<Rightarrow> string" where
  "name_of (Gives name v) = name"
| "name_of (Turns name) = name"

definition plain_name :: "string \<Rightarrow> bool" where
  "plain_name n \<longleftrightarrow> body_ok n \<and> CHR ''='' \<notin> set n"

fun arg_ok :: "flag_set \<Rightarrow> flag_arg \<Rightarrow> bool" where
  "arg_ok fs (Gives name v) = (plain_name name \<and> map_of fs name = Some StringFlag)"
| "arg_ok fs (Turns name) = (plain_name name \<and> map_of fs name = Some BoolFlag)"

definition render :: "flag_arg list \<Rightarrow> string list" where
  "render = concat \<circ> map render_flag"

lemma render_simps [simp]: "render [] = []" "render (a # as) = render_flag a @ render as" "render (as @ bs) = render as @ render bs"
  by (simp_all add: render_def)

lemma index_byte_None: "index_byte s c = None \<longleftrightarrow> c \<notin> set s"
  by (induction s) auto

lemma plain_flag:
  assumes "plain_name n"
  shows "\<not> not_a_flag (''--'' @ n)" "''--'' @ n \<noteq> ''--''" "flag_body (''--'' @ n) = n" "body_ok n" "split_equals n = (n, None)"
proof -
  from assms show "\<not> not_a_flag (''--'' @ n)" "''--'' @ n \<noteq> ''--''" "flag_body (''--'' @ n) = n" "body_ok n"
    by (auto simp: plain_name_def body_ok_def not_a_flag_def flag_body_def)
  from assms have "index_byte (tl n) CHR ''='' = None"
    unfolding index_byte_None by (cases n) (auto simp: plain_name_def)
  then show "split_equals n = (n, None)" by (simp add: split_equals_def)
qed

lemma parse_one:
  assumes "arg_ok fs a"
  shows "parse_flags fs vd (render_flag a @ args) vs = parse_flags fs vd args (flag_entry a # vs)"
  using assms by (cases a) (auto simp: plain_flag[simplified] plain_flag set_value_def split: list.splits)

lemma parse_render:
  assumes "list_all (arg_ok fs) as"
  shows "parse_flags fs vd (render as @ args) vs = parse_flags fs vd args (rev (map flag_entry as) @ vs)"
  using assms by (induction as arbitrary: vs) (simp_all add: parse_one)

definition positionals_ok :: "nat option \<Rightarrow> string list \<Rightarrow> bool" where
  "positionals_ok limit pos \<longleftrightarrow> list_all (\<lambda>s. \<not> starts_with s ''-'') pos \<and> (case limit of None \<Rightarrow> True | Some n \<Rightarrow> length pos \<le> n)"

lemma not_flag: "\<not> starts_with s ''-'' \<Longrightarrow> not_a_flag s"
  by (cases s) (auto simp: starts_with_def not_a_flag_def)

lemma parse_stops: "positionals_ok limit pos \<Longrightarrow> pos \<noteq> [] \<Longrightarrow> parse_flags fs vd (pos @ more) vs = Inr (vs, pos @ more)"
  by (cases pos) (auto simp: positionals_ok_def not_flag)

lemma leading_all:
  assumes "positionals_ok limit pos" "more = [] \<or> starts_with (hd more) ''-''"
  shows "leading_positionals limit (pos @ more) = pos"
  using assms
proof (induction pos arbitrary: limit)
  case Nil
  then show ?case by (cases more) auto
next
  case (Cons s pos)
  then have "positionals_ok (map_option (\<lambda>n. n - 1) limit) pos"
    by (cases limit) (auto simp: positionals_ok_def)
  with Cons show ?case by (cases limit) (auto simp: positionals_ok_def)
qed

lemma render_starts: "render as = [] \<or> starts_with (hd (render as)) ''-''"
proof (cases as)
  case (Cons a bs)
  then show ?thesis by (cases a) (auto simp: starts_with_def)
qed simp

lemma split_positionals_plain:
  "positionals_ok limit pos \<Longrightarrow> split_positionals fs vd limit (vs, pos) = Inr (vs, pos)"
  using leading_all [of limit pos "[]"] by (simp add: split_positionals_def)

lemma split_positionals_trailing:
  assumes "positionals_ok limit pos" "list_all (arg_ok fs) as"
  shows "split_positionals fs vd limit (vs, pos @ render as) = Inr (rev (map flag_entry as) @ vs, pos)"
  using leading_all [OF assms(1) render_starts [of as]] parse_render [OF assms(2), of vd "[]" vs]
  by (cases as) (auto simp: split_positionals_def)

text \<open>Flags may stand before or behind the positional arguments. Where a command goes on with \<open>splitPositionals\<close>, the flags
  of a command line have the same values, and the positional arguments are the same, whether the flags come first, come last,
  or come half before and half behind.\<close>

theorem flags_in_any_position:
  assumes "list_all (arg_ok fs) as" "list_all (arg_ok fs) bs" "positionals_ok limit pos" "pos \<noteq> []"
  shows "\<exists>parsed. parse_flags fs vd (render as @ pos @ render bs) [] = Inr parsed \<and>
      split_positionals fs vd limit parsed = Inr (rev (map flag_entry (as @ bs)), pos)"
  using parse_render [OF assms(1)] parse_stops [OF assms(3,4)] split_positionals_trailing [OF assms(3,2)]
  by simp

text \<open>Without it they are dropped. A command that only calls \<open>Parse\<close> takes no notice of any flag behind its first positional
  argument, whatever it says.\<close>

theorem trailing_flags_are_dropped:
  assumes "list_all (arg_ok fs) as" "positionals_ok limit pos" "pos \<noteq> []"
  shows "parse_flags fs vd (render as @ pos @ more) [] = Inr (rev (map flag_entry as), pos @ more)"
  using parse_render [OF assms(1)] parse_stops [OF assms(2,3)] by simp

text \<open>The flags of \<open>knock-deny\<close> and of \<open>memory show\<close>.\<close>

definition sample_flags :: flag_set where
  "sample_flags = [(''config'', StringFlag), (''state'', StringFlag), (''reason'', StringFlag), (''json'', BoolFlag)]"

lemma sample_args: "list_all (arg_ok sample_flags) [Gives ''state'' ''/tmp/c'']" "list_all (arg_ok sample_flags) [Turns ''json'']"
  "positionals_ok (Some 1) [''n-1'']"
  by (simp_all add: sample_flags_def plain_name_def body_ok_def positionals_ok_def starts_with_def)

lemma flags_in_any_position_witness:
  "\<exists>parsed. parse_flags sample_flags (\<lambda>_. True) [''--state'', ''/tmp/c'', ''n-1'', ''--json''] [] = Inr parsed \<and>
      split_positionals sample_flags (\<lambda>_. True) (Some 1) parsed = Inr ([(''json'', ''true''), (''state'', ''/tmp/c'')], [''n-1''])"
  using flags_in_any_position [OF sample_args, of "\<lambda>_. True"] by simp

lemma trailing_flags_are_dropped_witness:
  "parse_flags sample_flags (\<lambda>_. True) [''--state'', ''/tmp/c'', ''n-1'', ''--reason'', ''spam''] [] =
     Inr ([(''state'', ''/tmp/c'')], [''n-1'', ''--reason'', ''spam''])"
  using trailing_flags_are_dropped [OF sample_args(1,3), of "\<lambda>_. True" "[''--reason'', ''spam'']"] by simp

lemma flag_get_simps [simp]:
  "flag_string ((n, v) # vs) m d = (if n = m then v else flag_string vs m d)"
  "flag_bool ((n, v) # vs) m = (if n = m then v = ''true'' else flag_bool vs m)"
  "flag_string [] m d = d" "\<not> flag_bool [] m"
  by (auto simp: flag_string_def flag_bool_def)

end
