(* ===== verification/Cli.thy ===== *)
theory Cli
  imports Flags Router Membership Blueprint Election Advertise
begin

text \<open>
  What the commands of \<open>minti-cland\<close> share: the configuration (\<open>cland/internal/config/config.go\<close>, and the paths of
  \<open>paths_unix.go\<close>), \<open>loadCommon\<close>, \<open>localDaemonClient\<close> and \<open>resolveLANAddr\<close> of
  \<open>cland/cmd/minti-cland/main.go\<close>, and the requests and replies that pass between a command and a daemon. The YAML decoder,
  the identity file, the addresses of the interfaces and the network are parameters; request and reply bodies are the Go
  structs that both ends encode and decode. Of what is printed, JSON is kept and the text for people is one mark.
\<close>

section \<open>Configuration\<close>

record config =
  cf_address :: string
  cf_port :: int
  cf_state_dir :: string
  cf_mdns_enabled :: bool
  cf_interface :: string
  cf_rubric_path :: string
  cf_ad_interval :: duration
  cf_bump_rate :: duration
  cf_initial_delay :: duration
  cf_heartbeat_interval :: duration
  cf_lease_duration :: duration
  cf_failover_grace :: duration
  cf_election_timeout :: duration
  cf_history_size :: int
  cf_probe_max_age :: duration
  cf_binaries_dir :: string
  cf_token_lifetime :: duration
  cf_exec_timeout :: duration
  cf_runtime_url :: string
  cf_log_level :: string

text \<open>The platform: macOS or not, whether the user is root, the home directory if there is one.\<close>

record platform =
  pt_darwin :: bool
  pt_root :: bool
  pt_home :: "string option"
  pt_minti_config :: string

definition user_path :: "platform \<Rightarrow> string \<Rightarrow> string \<Rightarrow> string \<Rightarrow> string" where
  "user_path p system under_home_darwin under_home_linux =
     (if pt_root p then system
      else case pt_home p of None \<Rightarrow> system | Some h \<Rightarrow> path_join h (if pt_darwin p then under_home_darwin else under_home_linux))"

definition default_state_dir :: "platform \<Rightarrow> string" where
  "default_state_dir p =
     user_path p (if pt_darwin p then ''/Library/Application Support/MINTI/cland'' else ''/var/lib/minti/cland'')
       ''Library/Application Support/MINTI/cland'' ''.minti/cland''"

definition default_audit_log_path :: "platform \<Rightarrow> string" where
  "default_audit_log_path p = path_join (default_state_dir p) ''audit.jsonl''"

definition default_config_path :: "platform \<Rightarrow> string" where
  "default_config_path p =
     (if pt_minti_config p \<noteq> [] then pt_minti_config p
      else user_path p (if pt_darwin p then ''/Library/Application Support/MINTI/cland.yaml'' else ''/etc/minti/cland.yaml'')
        ''Library/Application Support/MINTI/cland.yaml'' ''.config/minti/cland.yaml'')"

definition default_rubric_path :: "platform \<Rightarrow> string" where
  "default_rubric_path p =
     user_path p (if pt_darwin p then ''/Library/Application Support/MINTI/reasoning-scores.yaml'' else ''/etc/minti/reasoning-scores.yaml'')
       ''Library/Application Support/MINTI/reasoning-scores.yaml'' ''.config/minti/reasoning-scores.yaml''"

definition default_binaries_dir :: "platform \<Rightarrow> string" where
  "default_binaries_dir p = (if pt_darwin p then ''/usr/local/libexec/minti/mcp'' else ''/opt/minti/mcp'')"

definition default_config :: "platform \<Rightarrow> config" where
  "default_config p =
     \<lparr>cf_address = ''0.0.0.0'', cf_port = 7777, cf_state_dir = default_state_dir p, cf_mdns_enabled = True, cf_interface = [],
      cf_rubric_path = default_rubric_path p, cf_ad_interval = 30 * second, cf_bump_rate = second, cf_initial_delay = 5 * second,
      cf_heartbeat_interval = 2 * second, cf_lease_duration = 8 * second, cf_failover_grace = 6 * second,
      cf_election_timeout = second, cf_history_size = 32, cf_probe_max_age = 60 * second, cf_binaries_dir = default_binaries_dir p,
      cf_token_lifetime = 10 * minute, cf_exec_timeout = 5 * minute, cf_runtime_url = ''http://127.0.0.1:7780'', cf_log_level = ''info''\<rparr>"

text \<open>The decoder overlays the file on the defaults.\<close>

definition load_config :: "(bytes \<Rightarrow> config \<Rightarrow> string + config) \<Rightarrow> platform \<Rightarrow> file_text \<Rightarrow> string + config" where
  "load_config yaml p file =
     (case file of
        FileMissing \<Rightarrow> Inr (default_config p)
      | FileUnreadable e \<Rightarrow> Inl (''config: read: '' @ e)
      | FileText data \<Rightarrow> (case yaml data (default_config p) of Inl e \<Rightarrow> Inl (''config: parse: '' @ e) | Inr c \<Rightarrow> Inr c))"

section \<open>Requests to a daemon\<close>

record invite_reply =
  iv_token :: string
  iv_lan_address :: string
  iv_cert_pin :: string
  iv_clan_id :: string
  iv_expires_at :: time

datatype api_request =
    GetMemory | GetDigest | PostNode gnode | PostEdge gedge | PostImport import_request
  | GetScribe | PostPinScribe bool
  | PostInvite int | PostRevoke member_id string | PostPeerAdd string | GetPeers | PostPin bool | GetOrchestrator | GetHistory
  | PostRotate | GetKnocks | PostKnockAccept string | PostKnockDeny string string
  | PostWelcome member_id string | PostJoin string member_id string | PostKnock knock_request

datatype api_body =
    BodyText string | BodyGraph graph | BodyDigest string | BodyNode gnode | BodyEdge bool string | BodyImport bool string
  | BodyScribe member_id member_id bool bool | BodyPin bool | BodyInvite invite_reply
  | BodyPeers "candidate list" "peer_member list" | BodyOrchestrator orchestrator_response | BodyHistory "history_entry list"
  | BodyRotated string "member_id list" "member_id list" | BodyKnocks "pending_knock list"
  | BodyJoin join_response | BodyKnock knock_response

datatype api_reply = Unreachable string | Reply http_status api_body

text \<open>The method and the path of a request.\<close>

fun api_path :: "api_request \<Rightarrow> string \<times> string" where
  "api_path GetMemory = (''GET'', ''/clan/memory'')"
| "api_path GetDigest = (''GET'', ''/clan/memory/digest'')"
| "api_path (PostNode _) = (''POST'', ''/clan/memory/node'')"
| "api_path (PostEdge _) = (''POST'', ''/clan/memory/edge'')"
| "api_path (PostImport _) = (''POST'', ''/clan/memory/import'')"
| "api_path GetScribe = (''GET'', ''/clan/scribe'')"
| "api_path (PostPinScribe _) = (''POST'', ''/clan/pin-scribe'')"
| "api_path (PostInvite _) = (''POST'', ''/clan/invite'')"
| "api_path (PostRevoke _ _) = (''POST'', ''/clan/revoke'')"
| "api_path (PostPeerAdd _) = (''POST'', ''/clan/peer-add'')"
| "api_path GetPeers = (''GET'', ''/clan/peers'')"
| "api_path (PostPin _) = (''POST'', ''/clan/pin'')"
| "api_path GetOrchestrator = (''GET'', ''/clan/orchestrator'')"
| "api_path GetHistory = (''GET'', ''/clan/election/history'')"
| "api_path PostRotate = (''POST'', ''/clan/rotate-key'')"
| "api_path GetKnocks = (''GET'', ''/clan/knock-list'')"
| "api_path (PostKnockAccept _) = (''POST'', ''/clan/knock-accept'')"
| "api_path (PostKnockDeny _ _) = (''POST'', ''/clan/knock-deny'')"
| "api_path (PostWelcome _ _) = (''POST'', ''/clan/welcome'')"
| "api_path (PostJoin _ _ _) = (''POST'', ''/clan/join'')"
| "api_path (PostKnock _) = (''POST'', ''/clan/knock'')"

text \<open>A call over the network: with the client that stamps it, or without one, through the certificate pin alone.\<close>

datatype caller = Stamped transport_client | Pinned string

type_synonym 'w network = "caller \<Rightarrow> string \<Rightarrow> api_request \<Rightarrow> 'w \<Rightarrow> 'w \<times> api_reply"

section \<open>The process\<close>

datatype printed = PrintBody api_body | PrintNode gnode | PrintNodes "gnode list" | PrintText string | PrintInvite invite_reply string
  | PrintKey paste_key | ForPeople

datatype cli_result = Done | Failed string | FlagExit nat

text \<open>What a command meets: its files, its clock, its randomness and its interfaces.\<close>

record cli_env =
  ce_platform :: platform
  ce_config_file :: "string \<Rightarrow> file_text"
  ce_yaml :: "bytes \<Rightarrow> config \<Rightarrow> string + config"
  ce_identity :: "string \<Rightarrow> string + identity"
  ce_interfaces :: "string + (string option) list"
  ce_valid_duration :: "string \<Rightarrow> bool"
  ce_sha :: "bytes \<Rightarrow> bytes"
  ce_now :: time

text \<open>
  The directories hold the stores; one that cannot be made has none. The rest is the world behind the network, the files
  that are read and written, and the output.
\<close>

record 'w cli_state =
  cs_stores :: "string \<Rightarrow> store option"
  cs_world :: 'w
  cs_blueprints :: "string \<Rightarrow> blueprint option"
  cs_out :: "printed list"

type_synonym 'w command = "'w cli_state \<Rightarrow> 'w cli_state \<times> cli_result"

definition say :: "printed \<Rightarrow> 'w command" where
  "say p st = (st\<lparr>cs_out := cs_out st @ [p]\<rparr>, Done)"

definition failed :: "string \<Rightarrow> 'w command" where
  "failed e st = (st, Failed e)"

definition load_common :: "cli_env \<Rightarrow> string \<Rightarrow> string \<Rightarrow> 'w cli_state \<Rightarrow> string + config \<times> identity \<times> store" where
  "load_common env cfg_path state_dir st =
     (case load_config (ce_yaml env) (ce_platform env) (ce_config_file env cfg_path) of
        Inl e \<Rightarrow> Inl e
      | Inr cfg0 \<Rightarrow>
          let cfg = (if state_dir \<noteq> [] then cfg0\<lparr>cf_state_dir := state_dir\<rparr> else cfg0)
          in case ce_identity env (cf_state_dir cfg) of
            Inl e \<Rightarrow> Inl e
          | Inr idn \<Rightarrow>
              (case cs_stores st (cf_state_dir cfg) of None \<Rightarrow> Inl ''state: mkdir'' | Some s \<Rightarrow> Inr (cfg, idn, s)))"

definition any_address :: "string \<Rightarrow> bool" where
  "any_address a \<longleftrightarrow> a = [] \<or> a = ''0.0.0.0'' \<or> a = ''::''"

definition local_base :: "config \<Rightarrow> string" where
  "local_base cfg =
     ''https://'' @ (if any_address (cf_address cfg) then ''127.0.0.1'' else cf_address cfg) @ '':'' @ dec_int (cf_port cfg)"

definition local_daemon_client :: "config \<Rightarrow> clan \<Rightarrow> identity \<Rightarrow> string + transport_client \<times> string" where
  "local_daemon_client cfg c idn =
     (case new_key_provider (clan_key (Some c)) of
        None \<Rightarrow> Inl ''crypto: empty key''
      | Some kp \<Rightarrow>
          (case new_client (id_member idn) (Some kp) (cl_cert_pin c) (15 * second) of
             None \<Rightarrow> Inl ''transport: options''
           | Some cli \<Rightarrow> Inr (cli, local_base cfg)))"

text \<open>
  \<open>ce_interfaces\<close> lists the addresses of the interfaces in order, an address that is loopback or no IPv4 as \<open>None\<close>.
\<close>

definition first_lan_address :: "cli_env \<Rightarrow> string + string" where
  "first_lan_address env =
     (case ce_interfaces env of
        Inl e \<Rightarrow> Inl e
      | Inr addrs \<Rightarrow> (case find (\<lambda>a. a \<noteq> None) addrs of Some (Some a) \<Rightarrow> Inr a | _ \<Rightarrow> Inl ''no non-loopback IPv4 interface found''))"

definition resolve_lan_addr :: "cli_env \<Rightarrow> config \<Rightarrow> string + string" where
  "resolve_lan_addr env cfg =
     (if any_address (cf_address cfg)
      then (case first_lan_address env of Inl e \<Rightarrow> Inl e | Inr a \<Rightarrow> Inr (a @ '':'' @ dec_int (cf_port cfg)))
      else Inr (cf_address cfg @ '':'' @ dec_int (cf_port cfg)))"

definition put_store :: "string \<Rightarrow> store \<Rightarrow> 'w cli_state \<Rightarrow> 'w cli_state" where
  "put_store dir s st = st\<lparr>cs_stores := (cs_stores st)(dir \<mapsto> s)\<rparr>"

section \<open>Steps of commands\<close>

definition common_flags :: flag_set where
  "common_flags = [(''config'', StringFlag), (''state'', StringFlag)]"

definition config_flag :: "cli_env \<Rightarrow> flag_values \<Rightarrow> string" where
  "config_flag env vs = flag_string vs ''config'' (default_config_path (ce_platform env))"

definition with_flags :: "cli_env \<Rightarrow> flag_set \<Rightarrow> string list \<Rightarrow> (flag_values \<Rightarrow> string list \<Rightarrow> 'w command) \<Rightarrow> 'w command" where
  "with_flags env fs args k st =
     (case parse_flags fs (ce_valid_duration env) args [] of Inl e \<Rightarrow> (st, FlagExit (flag_exit e)) | Inr (vs, rest) \<Rightarrow> k vs rest st)"

text \<open>A flag error in the second pass exits as well: the flag set is one with \<open>ExitOnError\<close>.\<close>

definition with_positionals ::
  "cli_env \<Rightarrow> flag_set \<Rightarrow> nat option \<Rightarrow> string list \<Rightarrow> (flag_values \<Rightarrow> string list \<Rightarrow> 'w command) \<Rightarrow> 'w command" where
  "with_positionals env fs limit args k =
     with_flags env fs args (\<lambda>vs rest st.
       case split_positionals fs (ce_valid_duration env) limit (vs, rest) of
         Inl e \<Rightarrow> (st, FlagExit (flag_exit e))
       | Inr (vs1, pos) \<Rightarrow> k vs1 pos st)"

text \<open>\<open>loadCommon\<close> and \<open>LoadClan\<close>.\<close>

definition with_clan ::
  "cli_env \<Rightarrow> flag_values \<Rightarrow> (config \<Rightarrow> identity \<Rightarrow> store \<Rightarrow> clan option \<Rightarrow> 'w command) \<Rightarrow> 'w command" where
  "with_clan env vs k st =
     (case load_common env (config_flag env vs) (flag_string vs ''state'' []) st of
        Inl e \<Rightarrow> (st, Failed e)
      | Inr (cfg, idn, s) \<Rightarrow>
          (case load_clan s of Inl e \<Rightarrow> (st, Failed ''state: read clan'') | Inr c \<Rightarrow> k cfg idn s c st))"

text \<open>\<open>memoryDaemon\<close>, and the same lines in the commands of \<open>main.go\<close>.\<close>

definition with_daemon ::
  "cli_env \<Rightarrow> flag_values \<Rightarrow> (transport_client \<Rightarrow> string \<Rightarrow> clan \<Rightarrow> 'w command) \<Rightarrow> 'w command" where
  "with_daemon env vs k =
     with_clan env vs (\<lambda>cfg idn s c st.
       case c of
         None \<Rightarrow> (st, Failed ''unaffiliated'')
       | Some c \<Rightarrow>
           if \<not> is_active (Some c) then (st, Failed ''unaffiliated'')
           else (case local_daemon_client cfg c idn of Inl e \<Rightarrow> (st, Failed e) | Inr (cli, base) \<Rightarrow> k cli base c st))"

text \<open>A call that must answer 200.\<close>

definition answer_text :: "string \<Rightarrow> http_status \<Rightarrow> string" where
  "answer_text what status = what @ '' ('' @ dec_nat status @ '')''"

definition call_ok ::
  "'w network \<Rightarrow> caller \<Rightarrow> string \<Rightarrow> string \<Rightarrow> api_request \<Rightarrow> (api_body \<Rightarrow> 'w command) \<Rightarrow> 'w command" where
  "call_ok net who base what req k st =
     (case net who base req (cs_world st) of
        (w, Unreachable e) \<Rightarrow> (st\<lparr>cs_world := w\<rparr>, Failed (''call local daemon: '' @ e))
      | (w, Reply status body) \<Rightarrow>
          if status \<noteq> 200 then (st\<lparr>cs_world := w\<rparr>, Failed (answer_text what status)) else k body (st\<lparr>cs_world := w\<rparr>))"

end
