(* ===== verification/MemoryCmds.thy ===== *)
theory MemoryCmds
  imports Cli
begin

text \<open>
  The memory commands of \<open>minti-cland\<close> (\<open>cland/cmd/minti-cland/memory_cmds.go\<close>): each parses its flags, asks the local
  daemon, and prints. Blueprint files are values by path.
\<close>

section \<open>Talking to the daemon\<close>

definition with_graph :: "'w network \<Rightarrow> transport_client \<Rightarrow> string \<Rightarrow> (graph \<Rightarrow> 'w command) \<Rightarrow> 'w command" where
  "with_graph net cli base k =
     call_ok net (Stamped cli) base ''memory fetch'' GetMemory (\<lambda>body st.
       case body of BodyGraph g \<Rightarrow> k g st | _ \<Rightarrow> (st, Failed ''decode''))"

definition post_memory_node :: "'w network \<Rightarrow> transport_client \<Rightarrow> string \<Rightarrow> gnode \<Rightarrow> (gnode \<Rightarrow> 'w command) \<Rightarrow> 'w command" where
  "post_memory_node net cli base n k =
     call_ok net (Stamped cli) base ''memory node write'' (PostNode n) (\<lambda>body st.
       case body of BodyNode stored \<Rightarrow> k stored st | _ \<Rightarrow> (st, Failed ''decode''))"

text \<open>An exact match wins; else the only node with the prefix; else the text itself.\<close>

fun resolve_scan :: "gnode list \<Rightarrow> string \<Rightarrow> string list \<Rightarrow> string + string list" where
  "resolve_scan [] i acc = Inr acc"
| "resolve_scan (n # ns) i acc =
     (if gn_id n = i then Inl i
      else resolve_scan ns i (if starts_with (gn_id n) i then acc @ [gn_id n] else acc))"

definition resolve_node_id :: "graph \<Rightarrow> string \<Rightarrow> string + string" where
  "resolve_node_id g i =
     (if i = [] then Inl ''empty node id''
      else case resolve_scan (gr_nodes g) i [] of
        Inl found \<Rightarrow> Inr found
      | Inr [] \<Rightarrow> Inr i
      | Inr [one] \<Rightarrow> Inr one
      | Inr _ \<Rightarrow> Inl ''id prefix is ambiguous'')"

definition resolving :: "graph \<Rightarrow> string \<Rightarrow> (string \<Rightarrow> 'w command) \<Rightarrow> 'w command" where
  "resolving g i k st = (case resolve_node_id g i of Inl e \<Rightarrow> (st, Failed e) | Inr x \<Rightarrow> k x st)"

definition find_node :: "graph \<Rightarrow> string \<Rightarrow> gnode option" where
  "find_node g i = find (\<lambda>n. gn_id n = i) (gr_nodes g)"

definition new_node :: gnode where
  "new_node = \<lparr>gn_id = [], gn_type = [], gn_title = [], gn_body = [], gn_tags = [], gn_status = [], gn_session_id = [],
     gn_provenance = \<lparr>pv_author = [], pv_source = [], pv_created_at = zero_time\<rparr>, gn_updated_at = zero_time, gn_rev = 0\<rparr>"

definition new_edge :: "string \<Rightarrow> string \<Rightarrow> string \<Rightarrow> gedge" where
  "new_edge a b r = \<lparr>ge_from = a, ge_to = b, ge_relation = r, ge_created_at = zero_time, ge_created_by = []\<rparr>"

definition print_or :: "flag_values \<Rightarrow> printed \<Rightarrow> 'w command" where
  "print_or vs p = (if flag_bool vs ''json'' then say p else say ForPeople)"

definition json_flags :: flag_set where
  "json_flags = common_flags @ [(''json'', BoolFlag)]"

section \<open>Wipe, export, import\<close>

definition cmd_memory_wipe :: "cli_env \<Rightarrow> 'w network \<Rightarrow> string list \<Rightarrow> 'w command" where
  "cmd_memory_wipe env net args =
     with_flags env json_flags args (\<lambda>vs _.
       with_daemon env vs (\<lambda>cli base c st.
         case export_blueprint (ce_sha env) (Some new_graph) (cl_id c) [] False (ce_now env) of
           Inl e \<Rightarrow> (st, Failed ''blueprint'')
         | Inr bp \<Rightarrow>
             call_ok net (Stamped cli) base ''memory wipe'' (PostImport \<lparr>ir_blueprint = Some bp, ir_mode = ''replace''\<rparr>)
               (\<lambda>body. print_or vs (PrintBody body)) st))"

definition export_flags :: flag_set where
  "export_flags = common_flags @ [(''out'', StringFlag), (''session'', StringFlag), (''strip-authors'', BoolFlag)]"

text \<open>\<open>date\<close> is the day as the default file name spells it.\<close>

definition cmd_memory_export :: "cli_env \<Rightarrow> 'w network \<Rightarrow> string \<Rightarrow> string list \<Rightarrow> 'w command" where
  "cmd_memory_export env net date args =
     with_flags env export_flags args (\<lambda>vs _.
       with_daemon env vs (\<lambda>cli base c.
         with_graph net cli base (\<lambda>g.
           let session = flag_string vs ''session'' [];
               go = (\<lambda>sid st.
                 case export_blueprint (ce_sha env) (Some g) (cl_id c) sid (flag_bool vs ''strip-authors'') (ce_now env) of
                   Inl e \<Rightarrow> (st, Failed ''blueprint'')
                 | Inr bp \<Rightarrow>
                     let out = flag_string vs ''out'' [];
                         path = (if out = [] then ''minti-blueprint-'' @ date @ ''.json'' else out)
                     in say ForPeople (st\<lparr>cs_blueprints := (cs_blueprints st)(path \<mapsto> bp)\<rparr>))
           in if session \<noteq> [] then resolving g session go else go [])))"

definition read_blueprint_file :: "cli_env \<Rightarrow> 'w cli_state \<Rightarrow> string \<Rightarrow> string + blueprint" where
  "read_blueprint_file env st path =
     (case cs_blueprints st path of
        None \<Rightarrow> Inl ''read''
      | Some bp \<Rightarrow> (case validate_blueprint (ce_sha env) (Some bp) of Some e \<Rightarrow> Inl ''blueprint'' | None \<Rightarrow> Inr bp))"

definition import_flags :: flag_set where
  "import_flags = common_flags @ [(''replace'', BoolFlag), (''json'', BoolFlag)]"

definition cmd_memory_import :: "cli_env \<Rightarrow> 'w network \<Rightarrow> string list \<Rightarrow> 'w command" where
  "cmd_memory_import env net args =
     with_positionals env import_flags (Some 1) args (\<lambda>vs pos st.
       if pos = [] then (st, Failed ''usage'')
       else case read_blueprint_file env st (hd pos) of
         Inl e \<Rightarrow> (st, Failed e)
       | Inr bp \<Rightarrow>
           with_daemon env vs (\<lambda>cli base c.
             call_ok net (Stamped cli) base ''memory import''
               (PostImport \<lparr>ir_blueprint = Some bp, ir_mode = (if flag_bool vs ''replace'' then ''replace'' else ''merge'')\<rparr>)
               (\<lambda>body. print_or vs (PrintBody body))) st)"

section \<open>List and show\<close>

definition list_flags :: flag_set where
  "list_flags = json_flags @ [(''session'', StringFlag), (''type'', StringFlag), (''status'', StringFlag)]"

definition passes :: "flag_values \<Rightarrow> string \<Rightarrow> gnode \<Rightarrow> bool" where
  "passes vs session n \<longleftrightarrow>
     (session = [] \<or> gn_session_id n = session \<or> gn_id n = session) \<and>
     (flag_string vs ''type'' [] = [] \<or> gn_type n = flag_string vs ''type'' []) \<and>
     (flag_string vs ''status'' [] = [] \<or> gn_status n = flag_string vs ''status'' [])"

definition cmd_memory_list :: "cli_env \<Rightarrow> 'w network \<Rightarrow> string list \<Rightarrow> 'w command" where
  "cmd_memory_list env net args =
     with_flags env list_flags args (\<lambda>vs _.
       with_daemon env vs (\<lambda>cli base c.
         with_graph net cli base (\<lambda>g.
           let session = flag_string vs ''session'' [];
               go = (\<lambda>sid. print_or vs (PrintBody (BodyGraph \<lparr>gr_format_version = gr_format_version g,
                 gr_nodes = filter (passes vs sid) (gr_nodes g), gr_edges = gr_edges g\<rparr>)))
           in if session \<noteq> [] then resolving g session go else go [])))"

definition cmd_memory_show :: "cli_env \<Rightarrow> 'w network \<Rightarrow> string list \<Rightarrow> 'w command" where
  "cmd_memory_show env net args =
     with_positionals env json_flags (Some 1) args (\<lambda>vs pos st.
       if pos = [] then (st, Failed ''usage'')
       else with_daemon env vs (\<lambda>cli base c.
         with_graph net cli base (\<lambda>g.
           resolving g (hd pos) (\<lambda>i.
             case find_node g i of None \<Rightarrow> failed ''no node'' | Some n \<Rightarrow> print_or vs (PrintNode n)))) st)"

section \<open>Add, link, archive\<close>

definition add_flags :: flag_set where
  "add_flags = json_flags @ [(''type'', StringFlag), (''title'', StringFlag), (''body'', StringFlag), (''tags'', StringFlag),
     (''session'', StringFlag), (''status'', StringFlag), (''id'', StringFlag)]"

text \<open>\<open>strings.Split\<close> at commas.\<close>

fun split_commas :: "string \<Rightarrow> string list" where
  "split_commas [] = [[]]"
| "split_commas (c # s) =
     (if c = CHR '','' then [] # split_commas s
      else case split_commas s of [] \<Rightarrow> [[c]] | p # ps \<Rightarrow> (c # p) # ps)"

definition parse_tags :: "string \<Rightarrow> string list" where
  "parse_tags s = (if s = [] then [] else filter (\<lambda>t. t \<noteq> []) (map trim (split_commas s)))"

text \<open>The answer to the edge is not looked at, only whether there is one.\<close>

definition cmd_memory_add :: "cli_env \<Rightarrow> 'w network \<Rightarrow> string list \<Rightarrow> 'w command" where
  "cmd_memory_add env net args =
     with_flags env add_flags args (\<lambda>vs _ st.
       if flag_string vs ''type'' [] = [] \<or> flag_string vs ''title'' [] = [] then (st, Failed ''usage'')
       else with_daemon env vs (\<lambda>cli base c.
         let n = new_node\<lparr>gn_id := flag_string vs ''id'' [], gn_type := flag_string vs ''type'' [],
               gn_title := flag_string vs ''title'' [], gn_body := flag_string vs ''body'' [],
               gn_status := flag_string vs ''status'' [], gn_tags := parse_tags (flag_string vs ''tags'' [])\<rparr>;
             session = flag_string vs ''session'' [];
             go = (\<lambda>sid. post_memory_node net cli base (n\<lparr>gn_session_id := sid\<rparr>) (\<lambda>stored st.
               if gn_session_id stored \<noteq> [] then
                 (case net (Stamped cli) base (PostEdge (new_edge (gn_id stored) (gn_session_id stored) ''contributes_to'')) (cs_world st) of
                    (w, Unreachable e) \<Rightarrow> (st\<lparr>cs_world := w\<rparr>, Failed (''node stored but contributes_to edge failed: '' @ e))
                  | (w, Reply _ _) \<Rightarrow> print_or vs (PrintNode stored) (st\<lparr>cs_world := w\<rparr>))
               else print_or vs (PrintNode stored) st))
         in if session \<noteq> [] then with_graph net cli base (\<lambda>g. resolving g session go) else go []) st)"

definition link_flags :: flag_set where
  "link_flags = json_flags @ [(''relation'', StringFlag)]"

definition cmd_memory_link :: "cli_env \<Rightarrow> 'w network \<Rightarrow> string list \<Rightarrow> 'w command" where
  "cmd_memory_link env net args =
     with_positionals env link_flags (Some 2) args (\<lambda>vs pos st.
       if length pos < 2 then (st, Failed ''usage'')
       else with_daemon env vs (\<lambda>cli base c.
         with_graph net cli base (\<lambda>g.
           resolving g (pos ! 0) (\<lambda>a. resolving g (pos ! 1) (\<lambda>b.
             call_ok net (Stamped cli) base ''memory link'' (PostEdge (new_edge a b (flag_string vs ''relation'' ''relates'')))
               (\<lambda>body. print_or vs (PrintBody body)))))) st)"

text \<open>\<open>archive\<close> and \<open>research close\<close>: the node is sent back with its status set.\<close>

definition archive_node ::
  "'w network \<Rightarrow> (gnode \<Rightarrow> bool) \<Rightarrow> flag_values \<Rightarrow> string \<Rightarrow> transport_client \<Rightarrow> string \<Rightarrow> 'w command" where
  "archive_node net right_type vs given cli base =
     with_graph net cli base (\<lambda>g.
       resolving g given (\<lambda>i st.
         case find_node g i of
           None \<Rightarrow> (st, Failed ''no node'')
         | Some n \<Rightarrow>
             if \<not> right_type n then (st, Failed ''not a research_session'')
             else if gn_status n = ''archived'' then say ForPeople st
             else post_memory_node net cli base (n\<lparr>gn_status := ''archived''\<rparr>) (\<lambda>stored. print_or vs (PrintNode stored)) st))"

definition cmd_memory_archive :: "cli_env \<Rightarrow> 'w network \<Rightarrow> string list \<Rightarrow> 'w command" where
  "cmd_memory_archive env net args =
     with_positionals env json_flags (Some 1) args (\<lambda>vs pos st.
       if pos = [] then (st, Failed ''usage'')
       else with_daemon env vs (\<lambda>cli base c. archive_node net (\<lambda>_. True) vs (hd pos) cli base) st)"

definition cmd_memory_digest :: "cli_env \<Rightarrow> 'w network \<Rightarrow> string list \<Rightarrow> 'w command" where
  "cmd_memory_digest env net args =
     with_flags env json_flags args (\<lambda>vs _.
       with_daemon env vs (\<lambda>cli base c.
         call_ok net (Stamped cli) base ''memory digest'' GetDigest (\<lambda>body.
           if flag_bool vs ''json'' then say (PrintBody body)
           else case body of BodyDigest d \<Rightarrow> say (PrintText d) | _ \<Rightarrow> failed ''decode'')))"

section \<open>Research sessions\<close>

definition cmd_research_start :: "cli_env \<Rightarrow> 'w network \<Rightarrow> string list \<Rightarrow> 'w command" where
  "cmd_research_start env net args =
     with_positionals env json_flags None args (\<lambda>vs pos st.
       if pos = [] \<or> trim (hd pos) = [] then (st, Failed ''usage'')
       else with_daemon env vs (\<lambda>cli base c.
         post_memory_node net cli base
           (new_node\<lparr>gn_type := ''research_session'', gn_title := join CHR '' '' pos, gn_status := ''active''\<rparr>)
           (\<lambda>stored. print_or vs (PrintNode stored))) st)"

definition cmd_research_close :: "cli_env \<Rightarrow> 'w network \<Rightarrow> string list \<Rightarrow> 'w command" where
  "cmd_research_close env net args =
     with_positionals env json_flags (Some 1) args (\<lambda>vs pos st.
       if pos = [] then (st, Failed ''usage'')
       else with_daemon env vs (\<lambda>cli base c. archive_node net (\<lambda>n. gn_type n = ''research_session'') vs (hd pos) cli base) st)"

definition cmd_research_list :: "cli_env \<Rightarrow> 'w network \<Rightarrow> string list \<Rightarrow> 'w command" where
  "cmd_research_list env net args =
     with_flags env json_flags args (\<lambda>vs _.
       with_daemon env vs (\<lambda>cli base c.
         with_graph net cli base (\<lambda>g. print_or vs (PrintNodes (filter (\<lambda>n. gn_type n = ''research_session'') (gr_nodes g))))))"

definition cmd_memory_research :: "cli_env \<Rightarrow> 'w network \<Rightarrow> string list \<Rightarrow> 'w command" where
  "cmd_memory_research env net args =
     (case args of
        [] \<Rightarrow> failed ''usage''
      | sub # rest \<Rightarrow>
          if sub = ''start'' then cmd_research_start env net rest
          else if sub = ''close'' then cmd_research_close env net rest
          else if sub = ''list'' then cmd_research_list env net rest
          else failed ''unknown research subcommand'')"

section \<open>Dispatch and the scribe\<close>

definition cmd_memory :: "cli_env \<Rightarrow> 'w network \<Rightarrow> string \<Rightarrow> string list \<Rightarrow> 'w command" where
  "cmd_memory env net date args =
     (case args of
        [] \<Rightarrow> failed ''usage''
      | sub # rest \<Rightarrow>
          if sub = ''list'' then cmd_memory_list env net rest
          else if sub = ''show'' then cmd_memory_show env net rest
          else if sub = ''add'' then cmd_memory_add env net rest
          else if sub = ''link'' then cmd_memory_link env net rest
          else if sub = ''archive'' then cmd_memory_archive env net rest
          else if sub = ''digest'' then cmd_memory_digest env net rest
          else if sub = ''research'' then cmd_memory_research env net rest
          else if sub = ''export'' then cmd_memory_export env net date rest
          else if sub = ''import'' then cmd_memory_import env net rest
          else if sub = ''wipe'' then cmd_memory_wipe env net rest
          else failed ''unknown memory subcommand'')"

definition cmd_scribe :: "cli_env \<Rightarrow> 'w network \<Rightarrow> string list \<Rightarrow> 'w command" where
  "cmd_scribe env net args =
     with_flags env json_flags args (\<lambda>vs _.
       with_daemon env vs (\<lambda>cli base c.
         call_ok net (Stamped cli) base ''scribe'' GetScribe (\<lambda>body.
           if flag_bool vs ''json'' then say (PrintBody body)
           else case body of BodyScribe _ _ _ _ \<Rightarrow> say ForPeople | _ \<Rightarrow> failed ''decode'')))"

definition pin_flags :: flag_set where
  "pin_flags = common_flags @ [(''self'', BoolFlag), (''clear'', BoolFlag)]"

text \<open>\<open>pin-scribe\<close>, and \<open>pin\<close> of \<open>main.go\<close>: exactly one of the two flags.\<close>

definition cmd_pin_scribe :: "cli_env \<Rightarrow> 'w network \<Rightarrow> string list \<Rightarrow> 'w command" where
  "cmd_pin_scribe env net args =
     with_flags env pin_flags args (\<lambda>vs _ st.
       if flag_bool vs ''self'' = flag_bool vs ''clear'' then (st, Failed ''usage'')
       else with_daemon env vs (\<lambda>cli base c.
         call_ok net (Stamped cli) base ''pin-scribe'' (PostPinScribe (flag_bool vs ''self'')) (\<lambda>body.
           case body of BodyPin _ \<Rightarrow> say ForPeople | _ \<Rightarrow> failed ''decode'')) st)"

end
