(* ===== verification/Commands.thy ===== *)
theory Commands
  imports MemoryCmds Base64
begin

text \<open>
  The other commands of \<open>minti-cland\<close> (\<open>cland/cmd/minti-cland/main.go\<close>) and the connection token of
  \<open>connect.go\<close>: founding, inviting, joining, leaving, revoking, pins, and the dispatch on the first argument. The certificate
  parser, the JSON codec of the token and the derivation of the key are parameters. The knocking side of a join is in its
  own theory, the chat and agent commands are not here.
\<close>

section \<open>Connection tokens\<close>

record connect_blob =
  cb_token :: string
  cb_address :: string
  cb_pin :: string

definition connect_prefix :: string where "connect_prefix = ''MINTI1-''"

definition encode_connect_blob :: "(connect_blob \<Rightarrow> bytes) \<Rightarrow> string \<Rightarrow> string \<Rightarrow> string \<Rightarrow> string" where
  "encode_connect_blob enc token address pin =
     connect_prefix @ raw_url_encode (enc \<lparr>cb_token = token, cb_address = address, cb_pin = pin\<rparr>)"

text \<open>\<open>raw_url_decode\<close> reads groups of four characters and a rest of two or three; line breaks between them are skipped.\<close>

definition url_value :: "char \<Rightarrow> nat option" where "url_value = b64_value CHR ''-'' CHR ''_'' "

fun raw_url_groups :: "string \<Rightarrow> bytes option" where
  "raw_url_groups [] = Some []"
| "raw_url_groups [a] = None"
| "raw_url_groups [a, b] =
     (case (url_value a, url_value b) of (Some x, Some y) \<Rightarrow> Some [char_of (x * 4 + y div 16)] | _ \<Rightarrow> None)"
| "raw_url_groups [a, b, c] =
     (case (url_value a, url_value b, url_value c) of
        (Some x, Some y, Some z) \<Rightarrow> Some [char_of (x * 4 + y div 16), char_of (y mod 16 * 16 + z div 4)] | _ \<Rightarrow> None)"
| "raw_url_groups (a # b # c # d # rest) =
     (case (url_value a, url_value b, url_value c, url_value d) of
        (Some x, Some y, Some z, Some u) \<Rightarrow>
          map_option (\<lambda>bs. char_of (x * 4 + y div 16) # char_of (y mod 16 * 16 + z div 4) # char_of (z mod 4 * 64 + u) # bs)
            (raw_url_groups rest)
      | _ \<Rightarrow> None)"

definition raw_url_decode :: "string \<Rightarrow> bytes option" where
  "raw_url_decode s = raw_url_groups (filter (\<lambda>c. c \<noteq> LF \<and> c \<noteq> CHR 0x0D) s)"

definition decode_connect_blob :: "(bytes \<Rightarrow> connect_blob option) \<Rightarrow> string \<Rightarrow> string + string \<times> string \<times> string" where
  "decode_connect_blob dec s0 =
     (let s = trim s0
      in if \<not> starts_with s connect_prefix then Inl ''not a connection token''
         else case raw_url_decode (drop (length connect_prefix) s) of
           None \<Rightarrow> Inl ''connection token: bad encoding''
         | Some raw \<Rightarrow>
             (case dec raw of
                None \<Rightarrow> Inl ''connection token: bad payload''
              | Some b \<Rightarrow>
                  if cb_token b = [] \<or> cb_address b = [] \<or> cb_pin b = [] then Inl ''connection token: missing token/address/pin''
                  else Inr (cb_token b, cb_address b, cb_pin b)))"

section \<open>Founding and inviting\<close>

definition create_flags :: flag_set where
  "create_flags = common_flags @ [(''address'', StringFlag), (''from-blueprint'', StringFlag), (''json'', BoolFlag)]"

text \<open>\<open>founding\<close> is \<open>membership.Create\<close>, \<open>seeded\<close> saves the graph of a blueprint and says whether that failed.\<close>

definition cmd_create ::
  "cli_env \<Rightarrow> (store \<Rightarrow> identity \<Rightarrow> string \<Rightarrow> store \<times> (create_error + paste_key)) \<Rightarrow> (string \<Rightarrow> graph \<Rightarrow> 'w \<Rightarrow> 'w \<times> bool) \<Rightarrow>
     string list \<Rightarrow> 'w command" where
  "cmd_create env founding seeded args =
     with_flags env create_flags args (\<lambda>vs _.
       with_clan env vs (\<lambda>cfg idn s existing st.
         if is_active existing then (st, Failed ''this member is already in Clan'')
         else
           let file = flag_string vs ''from-blueprint'' [];
               dir = cf_state_dir cfg
           in case (if file = [] then Inr None else map_sum id Some (read_blueprint_file env st file)) of
             Inl e \<Rightarrow> (st, Failed (''blueprint rejected: '' @ e))
           | Inr bp \<Rightarrow>
               (case (if flag_string vs ''address'' [] = [] then resolve_lan_addr env cfg else Inr (flag_string vs ''address'' [])) of
                  Inl e \<Rightarrow> (st, Failed e)
                | Inr addr \<Rightarrow>
                    (case founding s idn addr of
                       (s1, Inl e) \<Rightarrow> (put_store dir s1 st, Failed ''create'')
                     | (s1, Inr pk) \<Rightarrow>
                         let st1 = put_store dir s1 st
                         in case bp of
                           None \<Rightarrow> print_or vs (PrintKey pk) st1
                         | Some b \<Rightarrow>
                             (case seeded dir (mark_imported (ce_sha env) (bp_graph b)) (cs_world st1) of
                                (w, True) \<Rightarrow> (st1\<lparr>cs_world := w\<rparr>, Failed ''clan created but memory seeding failed'')
                              | (w, False) \<Rightarrow> print_or vs (PrintKey pk) (st1\<lparr>cs_world := w\<rparr>))))))"

definition invite_flags :: flag_set where
  "invite_flags = common_flags @ [(''ttl'', DurationFlag), (''json'', BoolFlag), (''connect'', BoolFlag)]"

text \<open>\<open>seconds\<close> is the duration of a text in whole seconds; the default is one hour.\<close>

definition cmd_invite ::
  "cli_env \<Rightarrow> (connect_blob \<Rightarrow> bytes) \<Rightarrow> (string \<Rightarrow> int) \<Rightarrow> 'w network \<Rightarrow> string list \<Rightarrow> 'w command" where
  "cmd_invite env enc seconds net args =
     with_flags env invite_flags args (\<lambda>vs _.
       with_daemon env vs (\<lambda>cli base c.
         call_ok net (Stamped cli) base ''invite failed''
           (PostInvite (case map_of vs ''ttl'' of None \<Rightarrow> 3600 | Some t \<Rightarrow> seconds t)) (\<lambda>body.
           case body of
             BodyInvite ir \<Rightarrow>
               let blob = encode_connect_blob enc (iv_token ir) (iv_lan_address ir) (iv_cert_pin ir)
               in if flag_bool vs ''json'' then say (PrintInvite ir blob)
                  else if flag_bool vs ''connect'' then say (PrintText blob)
                  else say ForPeople
           | _ \<Rightarrow> failed ''decode'')))"

section \<open>Joining\<close>

text \<open>
  \<open>pin_of\<close> parses a certificate and gives its pin. The record saved is that of a joiner; the key comes with the reply, or was
  derived before.
\<close>

definition joined_clan :: "time \<Rightarrow> string \<Rightarrow> string \<Rightarrow> join_response \<Rightarrow> clan" where
  "joined_clan now pin key_b64 r =
     empty_clan\<lparr>cl_id := jr_clan_id r, cl_key_b64 := key_b64, cl_cert_pem := jr_cert_pem r, cl_cert_priv_b64 := jr_cert_priv_b64 r,
       cl_cert_pin := pin, cl_role := ''joined'', cl_joined_at := now, cl_roster := jr_roster r\<rparr>"

definition save_joined :: "string \<Rightarrow> clan \<Rightarrow> store \<Rightarrow> 'w command" where
  "save_joined dir c s st =
     (case save_clan s (Some c) of
        (s1, Some e) \<Rightarrow> (put_store dir s1 st, Failed ''state: save'')
      | (s1, None) \<Rightarrow> say ForPeople (put_store dir s1 st))"

definition remote_base :: "string \<Rightarrow> string" where
  "remote_base address = ''https://'' @ address"

definition join_token ::
  "cli_env \<Rightarrow> (string \<Rightarrow> string option) \<Rightarrow> 'w network \<Rightarrow> string \<Rightarrow> string \<Rightarrow> string \<Rightarrow> identity \<Rightarrow> string \<Rightarrow> store \<Rightarrow> 'w command" where
  "join_token env pin_of net token address pin idn dir s =
     call_ok net (Pinned pin) (remote_base address) ''join rejected'' (PostJoin token (id_member idn) (id_pub_key idn)) (\<lambda>body st.
       case body of
         BodyJoin r \<Rightarrow>
           (case pin_of (jr_cert_pem r) of
              None \<Rightarrow> (st, Failed ''parse returned clan_cert'')
            | Some p \<Rightarrow>
                if p \<noteq> pin then (st, Failed ''pin mismatch'')
                else save_joined dir (joined_clan (ce_now env) p (jr_clan_key_b64 r) r) s st)
       | _ \<Rightarrow> (st, Failed ''decode''))"

definition join_paste_key ::
  "cli_env \<Rightarrow> (string \<Rightarrow> create_error + bytes \<times> bytes) \<Rightarrow> (string \<Rightarrow> string option) \<Rightarrow> 'w network \<Rightarrow>
     string \<Rightarrow> string \<Rightarrow> string \<Rightarrow> identity \<Rightarrow> string \<Rightarrow> store \<Rightarrow> 'w command" where
  "join_paste_key env pre_join pin_of net mnemonic address pin idn dir s st =
     (case pre_join mnemonic of
        Inl e \<Rightarrow> (st, Failed ''derive clan_key from mnemonic'')
      | Inr (key, _) \<Rightarrow>
          (case new_key_provider key of
             None \<Rightarrow> (st, Failed ''crypto: empty key'')
           | Some kp \<Rightarrow>
               (case new_client (id_member idn) (Some kp) pin (30 * second) of
                  None \<Rightarrow> (st, Failed ''transport: options'')
                | Some cli \<Rightarrow>
                    call_ok net (Stamped cli) (remote_base address) ''welcome rejected''
                      (PostWelcome (id_member idn) (id_pub_key idn)) (\<lambda>body st.
                      case body of
                        BodyJoin r \<Rightarrow>
                          (case pin_of (jr_cert_pem r) of
                             None \<Rightarrow> (st, Failed ''parse returned clan_cert'')
                           | Some p \<Rightarrow>
                               if p \<noteq> pin then (st, Failed ''pin mismatch'')
                               else save_joined dir (set_clan_key (joined_clan (ce_now env) p [] r) key) s st)
                      | _ \<Rightarrow> (st, Failed ''decode'')) st)))"

definition join_flags :: flag_set where
  "join_flags = common_flags @ [(''mnemonic'', StringFlag), (''token'', StringFlag), (''address'', StringFlag), (''pin'', StringFlag),
     (''connect'', StringFlag)]"

definition cmd_join ::
  "cli_env \<Rightarrow> (bytes \<Rightarrow> connect_blob option) \<Rightarrow> (string \<Rightarrow> create_error + bytes \<times> bytes) \<Rightarrow> (string \<Rightarrow> string option) \<Rightarrow>
     'w network \<Rightarrow> string list \<Rightarrow> 'w command" where
  "cmd_join env dec pre_join pin_of net args =
     with_flags env join_flags args (\<lambda>vs _ st.
       let connect = flag_string vs ''connect'' [];
           given = (flag_string vs ''token'' [], flag_string vs ''address'' [], flag_string vs ''pin'' []);
           mnemonic = flag_string vs ''mnemonic'' []
       in case (if connect \<noteq> [] then decode_connect_blob dec connect else Inr given) of
         Inl e \<Rightarrow> (st, Failed e)
       | Inr (token, address, pin) \<Rightarrow>
           if address = [] \<or> pin = [] then (st, Failed ''--address and --pin are required'')
           else if mnemonic = [] \<and> token = [] \<or> mnemonic \<noteq> [] \<and> token \<noteq> [] then (st, Failed ''provide exactly one of --mnemonic or --token'')
           else with_clan env vs (\<lambda>cfg idn s existing.
             if is_active existing then failed ''already in Clan''
             else if mnemonic \<noteq> [] then join_paste_key env pre_join pin_of net mnemonic address pin idn (cf_state_dir cfg) s
             else join_token env pin_of net token address pin idn (cf_state_dir cfg) s) st)"

section \<open>Leaving and revoking\<close>

definition leave_flags :: flag_set where
  "leave_flags = common_flags @ [(''yes'', BoolFlag)]"

definition cmd_leave :: "cli_env \<Rightarrow> string list \<Rightarrow> 'w command" where
  "cmd_leave env args =
     with_flags env leave_flags args (\<lambda>vs _.
       with_clan env vs (\<lambda>cfg idn s c st.
         if \<not> is_active c then (st, Failed ''already unaffiliated'')
         else if \<not> flag_bool vs ''yes'' then (st, Failed ''pass --yes to confirm'')
         else save_joined (cf_state_dir cfg) empty_clan s st))"

definition revoke_flags :: flag_set where
  "revoke_flags = common_flags @ [(''reason'', StringFlag)]"

definition cmd_revoke :: "cli_env \<Rightarrow> 'w network \<Rightarrow> string list \<Rightarrow> 'w command" where
  "cmd_revoke env net args =
     with_flags env revoke_flags args (\<lambda>vs rest st.
       if rest = [] then (st, Failed ''usage'')
       else with_daemon env vs (\<lambda>cli base c.
         call_ok net (Stamped cli) base ''revoke failed'' (PostRevoke (hd rest) (flag_string vs ''reason'' [])) (\<lambda>_. say ForPeople)) st)"

section \<open>The rest\<close>

definition cmd_peer_add :: "cli_env \<Rightarrow> 'w network \<Rightarrow> string list \<Rightarrow> 'w command" where
  "cmd_peer_add env net args =
     with_flags env common_flags args (\<lambda>vs rest st.
       if rest = [] then (st, Failed ''usage'')
       else with_daemon env vs (\<lambda>cli base c.
         call_ok net (Stamped cli) base ''peer-add failed'' (PostPeerAdd (hd rest)) (\<lambda>_. say ForPeople)) st)"

text \<open>A listing: the body as it is, or a text for people when it decodes.\<close>

definition listing :: "cli_env \<Rightarrow> 'w network \<Rightarrow> string \<Rightarrow> api_request \<Rightarrow> (api_body \<Rightarrow> bool) \<Rightarrow> string list \<Rightarrow> 'w command" where
  "listing env net what req decodes args =
     with_flags env json_flags args (\<lambda>vs _.
       with_daemon env vs (\<lambda>cli base c.
         call_ok net (Stamped cli) base what req (\<lambda>body.
           if flag_bool vs ''json'' then say (PrintBody body) else if decodes body then say ForPeople else failed ''decode'')))"

definition cmd_peers :: "cli_env \<Rightarrow> 'w network \<Rightarrow> string list \<Rightarrow> 'w command" where
  "cmd_peers env net = listing env net ''peers failed'' GetPeers (\<lambda>b. case b of BodyPeers _ _ \<Rightarrow> True | _ \<Rightarrow> False)"

definition cmd_orchestrator :: "cli_env \<Rightarrow> 'w network \<Rightarrow> string list \<Rightarrow> 'w command" where
  "cmd_orchestrator env net =
     listing env net ''orchestrator failed'' GetOrchestrator (\<lambda>b. case b of BodyOrchestrator _ \<Rightarrow> True | _ \<Rightarrow> False)"

definition cmd_election_history :: "cli_env \<Rightarrow> 'w network \<Rightarrow> string list \<Rightarrow> 'w command" where
  "cmd_election_history env net =
     listing env net ''election-history failed'' GetHistory (\<lambda>b. case b of BodyHistory _ \<Rightarrow> True | _ \<Rightarrow> False)"

definition cmd_knocks :: "cli_env \<Rightarrow> 'w network \<Rightarrow> string list \<Rightarrow> 'w command" where
  "cmd_knocks env net = listing env net ''knock-list'' GetKnocks (\<lambda>b. case b of BodyKnocks _ \<Rightarrow> True | _ \<Rightarrow> False)"

definition cmd_pin :: "cli_env \<Rightarrow> 'w network \<Rightarrow> string list \<Rightarrow> 'w command" where
  "cmd_pin env net args =
     with_flags env pin_flags args (\<lambda>vs _ st.
       if flag_bool vs ''self'' = flag_bool vs ''clear'' then (st, Failed ''pass exactly one of --self or --clear'')
       else with_daemon env vs (\<lambda>cli base c.
         call_ok net (Stamped cli) base ''pin failed'' (PostPin (flag_bool vs ''self'')) (\<lambda>body.
           case body of BodyPin _ \<Rightarrow> say ForPeople | _ \<Rightarrow> failed ''decode'')) st)"

text \<open>With \<open>--json\<close> the body is printed before the status is looked at.\<close>

definition cmd_rotate_key :: "cli_env \<Rightarrow> 'w network \<Rightarrow> string list \<Rightarrow> 'w command" where
  "cmd_rotate_key env net args =
     with_flags env json_flags args (\<lambda>vs _.
       with_daemon env vs (\<lambda>cli base c st.
         case net (Stamped cli) base PostRotate (cs_world st) of
           (w, Unreachable e) \<Rightarrow> (st\<lparr>cs_world := w\<rparr>, Failed (''call local daemon: '' @ e))
         | (w, Reply status body) \<Rightarrow>
             let st1 = st\<lparr>cs_world := w\<rparr>
             in if flag_bool vs ''json'' then
                  (st1\<lparr>cs_out := cs_out st1 @ [PrintBody body]\<rparr>, if status \<noteq> 200 then Failed (answer_text ''rotate-key returned'' status) else Done)
                else if status \<noteq> 200 then (st1, Failed (answer_text ''rotate-key failed'' status))
                else (case body of BodyRotated _ _ _ \<Rightarrow> say ForPeople st1 | _ \<Rightarrow> (st1, Failed ''decode''))))"

definition cmd_members :: "cli_env \<Rightarrow> string list \<Rightarrow> 'w command" where
  "cmd_members env args =
     with_flags env common_flags args (\<lambda>vs _.
       with_clan env vs (\<lambda>cfg idn s c. if \<not> is_active c then failed ''unaffiliated'' else say ForPeople))"

text \<open>The lines of \<open>show\<close>, which the workspace reads back.\<close>

definition show_line :: "string \<Rightarrow> string \<Rightarrow> printed" where
  "show_line label v = PrintText (label @ '':'' @ replicate (11 - length label) CHR '' '' @ v)"

definition cmd_show :: "cli_env \<Rightarrow> string list \<Rightarrow> 'w command" where
  "cmd_show env args =
     with_flags env common_flags args (\<lambda>vs _.
       with_clan env vs (\<lambda>cfg idn s c st.
         let st1 = fst (say (show_line ''Member ID'' (id_member idn)) st)
         in case c of
           None \<Rightarrow> say (show_line ''Clan'' ''(unaffiliated)'') st1
         | Some c \<Rightarrow>
             if \<not> is_active (Some c) then say (show_line ''Clan'' ''(unaffiliated)'') st1
             else
               let lines = [show_line ''Clan ID'' (cl_id c), show_line ''Role'' (cl_role c), show_line ''Cert pin'' (cl_cert_pin c)] @
                     (case resolve_lan_addr env cfg of Inl _ \<Rightarrow> [] | Inr a \<Rightarrow> [show_line ''LAN addr'' a])
               in (st1\<lparr>cs_out := cs_out st1 @ lines\<rparr>, Done)))"

definition cmd_knock_accept :: "cli_env \<Rightarrow> 'w network \<Rightarrow> string list \<Rightarrow> 'w command" where
  "cmd_knock_accept env net args =
     with_flags env common_flags args (\<lambda>vs rest st.
       if rest = [] then (st, Failed ''usage'')
       else with_daemon env vs (\<lambda>cli base c.
         call_ok net (Stamped cli) base ''knock-accept'' (PostKnockAccept (hd rest)) (\<lambda>_. say ForPeople)) st)"

definition cmd_knock_deny :: "cli_env \<Rightarrow> 'w network \<Rightarrow> string list \<Rightarrow> 'w command" where
  "cmd_knock_deny env net args =
     with_flags env revoke_flags args (\<lambda>vs rest st.
       if rest = [] then (st, Failed ''usage'')
       else with_daemon env vs (\<lambda>cli base c.
         call_ok net (Stamped cli) base ''knock-deny'' (PostKnockDeny (hd rest) (flag_string vs ''reason'' [])) (\<lambda>_. say ForPeople)) st)"

section \<open>Dispatch\<close>

text \<open>
  What the commands need beside their arguments. The commands that are not modelled here (the daemon itself, the joiner's
  knock, chat and the agent) are the function \<open>mh_other\<close>.
\<close>

record 'w main_env =
  mh_env :: cli_env
  mh_net :: "'w network"
  mh_date :: string
  mh_enc :: "connect_blob \<Rightarrow> bytes"
  mh_dec :: "bytes \<Rightarrow> connect_blob option"
  mh_seconds :: "string \<Rightarrow> int"
  mh_founding :: "store \<Rightarrow> identity \<Rightarrow> string \<Rightarrow> store \<times> (create_error + paste_key)"
  mh_seeded :: "string \<Rightarrow> graph \<Rightarrow> 'w \<Rightarrow> 'w \<times> bool"
  mh_pre_join :: "string \<Rightarrow> create_error + bytes \<times> bytes"
  mh_pin_of :: "string \<Rightarrow> string option"
  mh_other :: "string list \<Rightarrow> 'w command"

definition looks_like_flag :: "string \<Rightarrow> bool" where
  "looks_like_flag s \<longleftrightarrow> length s > 0 \<and> s ! 0 = CHR ''-''"

definition cland_main :: "'w main_env \<Rightarrow> string list \<Rightarrow> 'w command" where
  "cland_main m args =
     (let env = mh_env m; net = mh_net m
      in case args of
        [] \<Rightarrow> mh_other m []
      | sub # rest \<Rightarrow>
          if looks_like_flag sub then mh_other m (sub # rest)
          else if sub = ''create'' then cmd_create env (mh_founding m) (mh_seeded m) rest
          else if sub = ''invite'' then cmd_invite env (mh_enc m) (mh_seconds m) net rest
          else if sub = ''join'' then cmd_join env (mh_dec m) (mh_pre_join m) (mh_pin_of m) net rest
          else if sub = ''leave'' then cmd_leave env rest
          else if sub = ''revoke'' then cmd_revoke env net rest
          else if sub = ''members'' then cmd_members env rest
          else if sub = ''peer-add'' then cmd_peer_add env net rest
          else if sub = ''peers'' then cmd_peers env net rest
          else if sub = ''pin'' then cmd_pin env net rest
          else if sub = ''orchestrator'' then cmd_orchestrator env net rest
          else if sub = ''election-history'' then cmd_election_history env net rest
          else if sub = ''rotate-key'' then cmd_rotate_key env net rest
          else if sub = ''show'' then cmd_show env rest
          else if sub = ''memory'' then cmd_memory env net (mh_date m) rest
          else if sub = ''scribe'' then cmd_scribe env net rest
          else if sub = ''pin-scribe'' then cmd_pin_scribe env net rest
          else if sub = ''knocks'' then cmd_knocks env net rest
          else if sub = ''knock-accept'' then cmd_knock_accept env net rest
          else if sub = ''knock-deny'' then cmd_knock_deny env net rest
          else if sub \<in> {''knock'', ''chat'', ''agent'', ''agent-approve''} then mh_other m (sub # rest)
          else if sub \<in> {''help'', ''-h'', ''--help''} then say ForPeople
          else (\<lambda>st. (st, FlagExit 2)))"

end
