(* ===== verification/Joiner.thy ===== *)
theory Joiner
  imports Commands Transport
begin

text \<open>
  The joiner's side of a knock: \<open>cmdKnock\<close> and \<open>knockJoinerLANAddr\<close> of \<open>cland/cmd/minti-cland/main.go\<close>, and
  \<open>DecodeKnockID\<close> of \<open>membership/knock.go\<close>. The command is cut where it waits: up to the code it shows, the
  events until a delivery is taken, and the rest. Key generation, X25519, HKDF, AES-GCM, the certificate parser and the listener
  are parameters.
\<close>

section \<open>Addresses\<close>

text \<open>The host of \<open>net.SplitHostPort\<close>, \<open>None\<close> for its error.\<close>

definition last_colon :: "string \<Rightarrow> nat option" where
  "last_colon s = map_option (\<lambda>i. length s - Suc i) (index_byte (rev s) CHR '':'')"

definition split_host :: "string \<Rightarrow> string option" where
  "split_host s =
     (case last_colon s of
        None \<Rightarrow> None
      | Some i \<Rightarrow>
          if hd s = CHR ''['' then
            (case index_byte s CHR '']'' of
               None \<Rightarrow> None
             | Some e \<Rightarrow>
                 if Suc e \<noteq> i then None
                 else if CHR ''['' \<in> set (tl s) \<or> CHR '']'' \<in> set (drop (Suc e) s) then None
                 else Some (take (e - 1) (tl s)))
          else
            let host = take i s
            in if CHR '':'' \<in> set host \<or> CHR ''['' \<in> set s \<or> CHR '']'' \<in> set s then None else Some host)"

definition host_of :: "string \<Rightarrow> string" where
  "host_of s = (case split_host s of None \<Rightarrow> [] | Some h \<Rightarrow> h)"

definition decode_knock_id :: "string \<Rightarrow> bytes option" where
  "decode_knock_id i = (case hex_decode (to_lower i) of None \<Rightarrow> None | Some b \<Rightarrow> if length b = 16 then Some b else None)"

definition knock_joiner_lan_addr :: "cli_env \<Rightarrow> int \<Rightarrow> string \<Rightarrow> string + string" where
  "knock_joiner_lan_addr env port listen =
     (let auto = (case first_lan_address env of Inl e \<Rightarrow> Inl e | Inr a \<Rightarrow> Inr (a @ '':'' @ dec_int port))
      in if listen \<noteq> [] \<and> listen \<noteq> '':0'' then
           (case split_host listen of
              None \<Rightarrow> Inl ''split''
            | Some host \<Rightarrow> if \<not> any_address host then Inr (host @ '':'' @ dec_int port) else auto)
         else auto)"

section \<open>Waiting for the delivery\<close>

record knock_wait =
  kw_receiver_ip :: string
  kw_confirmed :: bool
  kw_slot :: "delivery option"

text \<open>The handler of \<open>/clan/knock-deliver\<close>; a body that does not decode is \<open>None\<close>, the channel has room for one.\<close>

definition handle_knock_deliver :: "knock_wait \<Rightarrow> string \<Rightarrow> string \<Rightarrow> delivery option \<Rightarrow> knock_wait \<times> http_status" where
  "handle_knock_deliver k meth src body =
     (if meth \<noteq> ''POST'' then (k, 405)
      else if kw_receiver_ip k \<noteq> [] \<and> src \<noteq> kw_receiver_ip k then (k, 403)
      else if \<not> kw_confirmed k then (k, 503)
      else case body of
        None \<Rightarrow> (k, 400)
      | Some d \<Rightarrow> if kw_slot k = None then (k\<lparr>kw_slot := Some d\<rparr>, 200) else (k, 409))"

datatype knock_end = Cancelled | AskedTooLong | WaitedTooLong | Delivered delivery

datatype knock_phase = Asking | Waiting | Ended knock_end

text \<open>A request, a line of the user, the end of the input, the timer of the phase, and the main routine taking a delivery.\<close>

datatype knock_event = Arrives string string "delivery option" | Typed string | InputEnds | TimerFires | Takes

definition knock_step :: "knock_phase \<times> knock_wait \<Rightarrow> knock_event \<Rightarrow> knock_phase \<times> knock_wait" where
  "knock_step s e =
     (case s of
        (Ended x, k) \<Rightarrow> s
      | (phase, k) \<Rightarrow>
          (case e of
             Arrives meth src body \<Rightarrow> (phase, fst (handle_knock_deliver k meth src body))
           | Typed t \<Rightarrow>
               if phase \<noteq> Asking then s
               else let line = trim (to_lower t)
                    in if line = ''y'' \<or> line = ''yes'' then (Waiting, k\<lparr>kw_confirmed := True\<rparr>)
                       else if line = ''n'' \<or> line = ''no'' then (Ended Cancelled, k) else s
           | InputEnds \<Rightarrow> if phase = Asking then (Ended Cancelled, k) else s
           | TimerFires \<Rightarrow> (Ended (if phase = Asking then AskedTooLong else WaitedTooLong), k)
           | Takes \<Rightarrow>
               (case (phase, kw_slot k) of (Waiting, Some d) \<Rightarrow> (Ended (Delivered d), k\<lparr>kw_slot := None\<rparr>) | _ \<Rightarrow> s)))"

section \<open>The command\<close>

definition knock_flags :: flag_set where
  "knock_flags = common_flags @ [(''clan-id'', StringFlag), (''address'', StringFlag), (''pin'', StringFlag), (''listen'', StringFlag)]"

record knock_session =
  ks_clan_id :: string
  ks_dir :: string
  ks_store :: store
  ks_key :: bytes
  ks_nonce :: bytes
  ks_raw_id :: bytes
  ks_sas :: string
  ks_wait :: knock_wait

text \<open>What the host supplies to a knock.\<close>

record joiner_env =
  je_keypair :: "(bytes \<times> bytes) option"
  je_listen :: "string \<Rightarrow> string + int"
  je_x25519 :: "bytes \<Rightarrow> bytes \<Rightarrow> bytes option"
  je_hkdf :: "bytes \<Rightarrow> bytes \<Rightarrow> bytes \<Rightarrow> bytes"
  je_open :: "bytes \<Rightarrow> bytes \<Rightarrow> bytes \<Rightarrow> bytes \<Rightarrow> join_response option"
  je_pin_of :: "string \<Rightarrow> string option"

text \<open>Up to the code: a session, or the result of a command that ends before it.\<close>

definition begin_knock ::
  "cli_env \<Rightarrow> joiner_env \<Rightarrow> 'w network \<Rightarrow> string list \<Rightarrow> 'w cli_state \<Rightarrow> 'w cli_state \<times> (cli_result + knock_session)" where
  "begin_knock env je net args st =
     (case parse_flags knock_flags (ce_valid_duration env) args [] of
        Inl e \<Rightarrow> (st, Inl (FlagExit (flag_exit e)))
      | Inr (vs, _) \<Rightarrow>
          let clan_id = flag_string vs ''clan-id'' []; address = flag_string vs ''address'' []; pin = flag_string vs ''pin'' [];
              listen = flag_string vs ''listen'' []
          in if clan_id = [] \<or> address = [] \<or> pin = [] then (st, Inl (Failed ''--clan-id, --address, and --pin are required''))
             else case load_common env (config_flag env vs) (flag_string vs ''state'' []) st of
               Inl e \<Rightarrow> (st, Inl (Failed e))
             | Inr (cfg, idn, s) \<Rightarrow>
                 (case load_clan s of
                    Inl e \<Rightarrow> (st, Inl (Failed ''state: read clan''))
                  | Inr existing \<Rightarrow>
                      if is_active existing then (st, Inl (Failed ''already in Clan''))
                      else case je_keypair je of
                        None \<Rightarrow> (st, Inl (Failed ''x25519''))
                      | Some (priv, pub) \<Rightarrow>
                          (case je_listen je (if listen = [] then '':0'' else listen) of
                             Inl e \<Rightarrow> (st, Inl (Failed e))
                           | Inr port \<Rightarrow>
                               (case knock_joiner_lan_addr env port listen of
                                  Inl e \<Rightarrow> (st, Inl (Failed e))
                                | Inr lan \<Rightarrow>
                                    (case net (Pinned pin) (remote_base address)
                                         (PostKnock \<lparr>kr_clan_id = clan_id, kr_joiner_id = id_member idn, kr_joiner_pub = id_pub_key idn,
                                            kr_joiner_x25519 = std_encode pub, kr_joiner_address = lan\<rparr>) (cs_world st) of
                                       (w, Unreachable e) \<Rightarrow> (st\<lparr>cs_world := w\<rparr>, Inl (Failed (''knock: POST /clan/knock: '' @ e)))
                                     | (w, Reply status body) \<Rightarrow>
                                         let st1 = st\<lparr>cs_world := w\<rparr>
                                         in if status \<noteq> 200 then (st1, Inl (Failed (answer_text ''receiver rejected knock'' status)))
                                            else (case body of
                                              BodyKnock r \<Rightarrow>
                                                (case std_decode (kp_receiver_x25519 r) of
                                                   None \<Rightarrow> (st1, Inl (Failed ''knock: invalid receiver_x25519_pub_b64''))
                                                 | Some recv_pub \<Rightarrow>
                                                     if length recv_pub \<noteq> 32 then (st1, Inl (Failed ''knock: invalid receiver_x25519_pub_b64''))
                                                     else case decode_knock_id (kp_knock_id r) of
                                                       None \<Rightarrow> (st1, Inl (Failed ''knock: invalid knock_id''))
                                                     | Some raw \<Rightarrow>
                                                         (case derive_knock_bundle (je_x25519 je) (je_hkdf je) priv recv_pub clan_id raw pub recv_pub of
                                                            None \<Rightarrow> (st1, Inl (Failed ''knock: derive''))
                                                          | Some (key, nonce, sas) \<Rightarrow>
                                                              (fst (say (PrintText sas) st1),
                                                               Inr \<lparr>ks_clan_id = clan_id, ks_dir = cf_state_dir cfg, ks_store = s, ks_key = key, ks_nonce = nonce,
                                                                 ks_raw_id = raw, ks_sas = sas,
                                                                 ks_wait = \<lparr>kw_receiver_ip = host_of address, kw_confirmed = False, kw_slot = None\<rparr>\<rparr>)))
                                            | _ \<Rightarrow> (st1, Inl (Failed ''knock: decode response''))))))))"

definition finish_knock :: "cli_env \<Rightarrow> joiner_env \<Rightarrow> knock_session \<Rightarrow> knock_phase \<Rightarrow> 'w command" where
  "finish_knock env je ks phase st =
     (case phase of
        Ended (Delivered (DeliverDenied reason)) \<Rightarrow> (st, Failed (''knock denied by operator: '' @ (if reason = [] then ''(no reason given)'' else reason)))
      | Ended (Delivered (DeliverWelcome b64)) \<Rightarrow>
          (case std_decode b64 of
             None \<Rightarrow> (st, Failed ''knock: decode ciphertext'')
           | Some ct \<Rightarrow>
               (case je_open je (ks_key ks) (ks_nonce ks) (ks_raw_id ks) ct of
                  None \<Rightarrow> (st, Failed ''knock: AES-GCM open failed'')
                | Some r \<Rightarrow>
                    if jr_clan_id r \<noteq> ks_clan_id ks then (st, Failed ''knock: clan_id mismatch in welcome'')
                    else case std_decode (jr_clan_key_b64 r) of
                      None \<Rightarrow> (st, Failed ''knock: decode clan_key'')
                    | Some key \<Rightarrow>
                        (case je_pin_of je (jr_cert_pem r) of
                           None \<Rightarrow> (st, Failed ''knock: parse clan_cert'')
                         | Some pin \<Rightarrow>
                             save_joined (ks_dir ks) (set_clan_key (joined_clan (ce_now env) pin [] r) key) (ks_store ks) st)))
      | Ended Cancelled \<Rightarrow> (st, Failed ''knock cancelled by user'')
      | Ended _ \<Rightarrow> (st, Failed ''knock timed out'')
      | _ \<Rightarrow> (st, Failed ''waiting''))"

section \<open>Only after the code was confirmed\<close>

definition from_receiver :: "string \<Rightarrow> delivery \<Rightarrow> knock_event \<Rightarrow> bool" where
  "from_receiver ip d e \<longleftrightarrow> (\<exists>src. e = Arrives ''POST'' src (Some d) \<and> (ip = [] \<or> src = ip))"

definition confirms :: "knock_event \<Rightarrow> bool" where
  "confirms e \<longleftrightarrow> (\<exists>t. e = Typed t \<and> trim (to_lower t) \<in> {''y'', ''yes''})"

text \<open>A delivery that came after a confirmation.\<close>

definition came_after :: "string \<Rightarrow> knock_event list \<Rightarrow> delivery \<Rightarrow> bool" where
  "came_after ip es d \<longleftrightarrow> (\<exists>before e rest. es = before @ e # rest \<and> from_receiver ip d e \<and> (\<exists>c\<in>set before. confirms c))"

text \<open>What has happened so far explains the state.\<close>

definition explained :: "string \<Rightarrow> knock_event list \<Rightarrow> knock_phase \<times> knock_wait \<Rightarrow> bool" where
  "explained ip es s \<longleftrightarrow>
     kw_receiver_ip (snd s) = ip \<and>
     (kw_confirmed (snd s) \<longrightarrow> (\<exists>e\<in>set es. confirms e)) \<and>
     (\<forall>d. kw_slot (snd s) = Some d \<longrightarrow> came_after ip es d) \<and>
     (\<forall>d. fst s = Ended (Delivered d) \<longrightarrow> came_after ip es d)"

lemma came_after_more: "came_after ip es d \<Longrightarrow> came_after ip (es @ [e]) d"
proof -
  assume "came_after ip es d"
  then obtain before x rest where "es = before @ x # rest" "from_receiver ip d x" "\<exists>c\<in>set before. confirms c"
    by (auto simp: came_after_def)
  then show ?thesis unfolding came_after_def by (intro exI [of _ before] exI [of _ x] exI [of _ "rest @ [e]"]) simp
qed

lemma came_after_now: "from_receiver ip d e \<Longrightarrow> \<exists>c\<in>set es. confirms c \<Longrightarrow> came_after ip (es @ [e]) d"
  unfolding came_after_def by blast

lemma explained_more: "explained ip es s \<Longrightarrow> explained ip (es @ [e]) s"
  by (auto simp: explained_def came_after_more)

lemma explained_arrival:
  assumes "explained ip es (phase, k)"
  shows "explained ip (es @ [Arrives meth src body]) (phase, fst (handle_knock_deliver k meth src body))"
proof (cases "meth = ''POST'' \<and> (ip = [] \<or> src = ip) \<and> kw_confirmed k \<and> kw_slot k = None \<and> body \<noteq> None")
  case True
  then obtain d where d: "body = Some d" by blast
  have "came_after ip (es @ [Arrives meth src body]) d"
    using True d assms by (intro came_after_now) (auto simp: from_receiver_def explained_def)
  with True d assms show ?thesis
    by (auto simp: explained_def handle_knock_deliver_def came_after_more)
next
  case False
  then have "fst (handle_knock_deliver k meth src body) = k"
    using assms by (auto simp: handle_knock_deliver_def explained_def split: option.split)
  with explained_more [OF assms] show ?thesis by simp
qed

lemma explained_step: "explained ip es s \<Longrightarrow> explained ip (es @ [e]) (knock_step s e)"
proof -
  assume ex: "explained ip es s"
  obtain phase k where s: "s = (phase, k)" by fastforce
  note more = explained_more [OF ex, of e]
  show ?thesis
  proof (cases "\<exists>x. phase = Ended x")
    case True
    with more show ?thesis by (auto simp: s knock_step_def)
  next
    case False
    then have step: "knock_step (phase, k) e = (case e of
             Arrives meth src body \<Rightarrow> (phase, fst (handle_knock_deliver k meth src body))
           | Typed t \<Rightarrow>
               if phase \<noteq> Asking then (phase, k)
               else let line = trim (to_lower t)
                    in if line = ''y'' \<or> line = ''yes'' then (Waiting, k\<lparr>kw_confirmed := True\<rparr>)
                       else if line = ''n'' \<or> line = ''no'' then (Ended Cancelled, k) else (phase, k)
           | InputEnds \<Rightarrow> if phase = Asking then (Ended Cancelled, k) else (phase, k)
           | TimerFires \<Rightarrow> (Ended (if phase = Asking then AskedTooLong else WaitedTooLong), k)
           | Takes \<Rightarrow>
               (case (phase, kw_slot k) of (Waiting, Some d) \<Rightarrow> (Ended (Delivered d), k\<lparr>kw_slot := None\<rparr>) | _ \<Rightarrow> (phase, k)))"
    proof (cases phase)
      case Asking
      show ?thesis unfolding Asking by (simp add: knock_step_def)
    next
      case Waiting
      show ?thesis unfolding Waiting by (simp add: knock_step_def)
    qed (use False in auto)
    show ?thesis
    proof (cases e)
      case (Arrives meth src body)
      show ?thesis unfolding s step using explained_arrival [OF ex [unfolded s]] Arrives by simp
    next
      case (Typed t)
      have "trim (to_lower t) \<in> {''y'', ''yes''} \<Longrightarrow> confirms e" using Typed by (auto simp: confirms_def)
      with more False Typed show ?thesis unfolding s step by (auto simp: Let_def explained_def)
    next
      case InputEnds
      with more False show ?thesis unfolding s step by (auto simp: explained_def)
    next
      case TimerFires
      with more False show ?thesis unfolding s step by (auto simp: explained_def)
    next
      case Takes
      with more False show ?thesis unfolding s step by (auto simp: explained_def split: option.splits knock_phase.splits)
    qed
  qed
qed

lemma explained_run: "explained ip es s \<Longrightarrow> explained ip (es @ evs) (foldl knock_step s evs)"
proof (induction evs arbitrary: es s)
  case (Cons e evs)
  from Cons.IH [OF explained_step [OF Cons.prems, of e]] show ?case by simp
qed simp


end
