(* ===== verification/JoinProps.thy ===== *)
theory JoinProps
  imports Commands
begin

text \<open>
  Joining a clan, end to end: the connection token of \<open>minti-cland invite\<close> and what \<open>minti-cland join\<close> makes of it against
  the daemon that minted it.
\<close>

section \<open>Connection tokens\<close>

lemma url_value_char: "d < 64 \<Longrightarrow> url_value (b64_char CHR ''-'' CHR ''_'' d) = Some d"
proof -
  assume d: "d < 64"
  consider "d < 26" | "26 \<le> d" "d < 52" | "52 \<le> d" "d < 62" | "d = 62" | "d = 63"
    using d by linarith
  then show ?thesis
  proof cases
    case 3
    then have "of_char (b64_char CHR ''-'' CHR ''_'' d) = d - 4" by (simp add: b64_char_def of_char_of_small)
    moreover have "48 \<le> d - 4" "d - 4 \<le> 57" "d - 4 + 4 = d" using 3 by arith+
    ultimately show ?thesis by (simp add: url_value_def b64_value_def Let_def)
  qed (simp_all add: url_value_def b64_value_def b64_char_def Let_def of_char_of_small)
qed

lemma raw_url_groups_full:
  assumes "p < 64" "q < 64" "u < 64" "v < 64"
  shows "raw_url_groups (b64_char CHR ''-'' CHR ''_'' p # b64_char CHR ''-'' CHR ''_'' q #
      b64_char CHR ''-'' CHR ''_'' u # b64_char CHR ''-'' CHR ''_'' v # s) =
    map_option ((@) [char_of (p * 4 + q div 16), char_of (q mod 16 * 16 + u div 4), char_of (u mod 4 * 64 + v)]) (raw_url_groups s)"
  by (cases "raw_url_groups s") (simp_all add: url_value_char assms)

lemma raw_url_groups_rest:
  assumes "p < 64" "q < 64"
  shows "raw_url_groups [b64_char CHR ''-'' CHR ''_'' p, b64_char CHR ''-'' CHR ''_'' q] = Some [char_of (p * 4 + q div 16)]"
    "u < 64 \<Longrightarrow> raw_url_groups [b64_char CHR ''-'' CHR ''_'' p, b64_char CHR ''-'' CHR ''_'' q, b64_char CHR ''-'' CHR ''_'' u] =
      Some [char_of (p * 4 + q div 16), char_of (q mod 16 * 16 + u div 4)]"
  by (simp_all add: url_value_char assms)

lemma raw_url_groups_encode: "raw_url_groups (raw_url_encode s) = Some s"
  unfolding raw_url_encode_def
proof (induction "CHR ''-''" "CHR ''_''" "[] :: string" s rule: b64_encode.induct)
  case 1
  show ?case by simp
next
  case (2 a)
  note sx = sextets [OF nat_of_char_less_256 [of a] nat_of_char_less_256 [of a] nat_of_char_less_256 [of a]]
  show ?case
    unfolding b64_encode.simps Let_def append_Nil2 raw_url_groups_rest(1) [OF sx(1,2)] sx(7) char_of_char ..
next
  case (3 a b)
  note sx = sextets [OF nat_of_char_less_256 [of a] nat_of_char_less_256 [of b] nat_of_char_less_256 [of a]]
  show ?case
    unfolding b64_encode.simps Let_def append_Nil2 raw_url_groups_rest(2) [OF sx(1,3,4)] sx(8,9) char_of_char ..
next
  case (4 a b c s)
  note sx = sextets [OF nat_of_char_less_256 [of a] nat_of_char_less_256 [of b] nat_of_char_less_256 [of c]]
  have IH: "raw_url_groups (b64_encode CHR ''-'' CHR ''_'' [] s) = Some s" by (rule 4) simp_all
  show ?case
    unfolding b64_encode.simps Let_def append_Cons append_Nil raw_url_groups_full [OF sx(1,3,5,6)] sx(8,10,11) char_of_char IH
    by simp
qed

definition token_byte :: "char \<Rightarrow> bool" where
  "token_byte c \<longleftrightarrow> 33 \<le> byte c \<and> byte c < 127"

lemma b64_char_token: "d < 64 \<Longrightarrow> token_byte (b64_char CHR ''-'' CHR ''_'' d)"
  by (auto simp: token_byte_def b64_char_def byte_def)

lemma raw_url_encode_token: "list_all token_byte (raw_url_encode s)"
  unfolding raw_url_encode_def
proof (induction "CHR ''-''" "CHR ''_''" "[] :: string" s rule: b64_encode.induct)
  case (2 a)
  show ?case using sextets [of "of_char a" 0 0] by (simp add: Let_def b64_char_token)
next
  case (3 a b)
  show ?case using sextets [of "of_char a" "of_char b" 0] by (simp add: Let_def b64_char_token)
next
  case (4 a b c s)
  then show ?case using sextets [of "of_char a" "of_char b" "of_char c"] by (simp add: Let_def b64_char_token)
qed simp

definition blank :: "char \<Rightarrow> bool" where
  "blank c \<longleftrightarrow> byte c \<in> {9, 10, 11, 12, 13, 32}"

lemma space_rune_one: "byte c < 128 \<Longrightarrow> space_rune [c] \<longleftrightarrow> blank c"
  by (auto simp: space_rune_def blank_def)

lemma dropWhile_blanks:
  "\<forall>c\<in>set s. byte c < 128 \<Longrightarrow> dropWhile space_rune (map (\<lambda>c. [c]) s) = map (\<lambda>c. [c]) (dropWhile blank s)"
  by (induction s) (simp_all add: space_rune_one)

lemma trim_ascii:
  assumes "\<forall>c\<in>set s. byte c < 128"
  shows "trim s = rev (dropWhile blank (rev (dropWhile blank s)))"
proof -
  have drop: "\<forall>c\<in>set (rev (dropWhile blank s)). byte c < 128" using assms by (auto dest: set_dropWhileD)
  show ?thesis
    unfolding trim_def pieces_ascii [OF assms] dropWhile_blanks [OF assms] rev_map dropWhile_blanks [OF drop]
    by simp
qed

lemma dropWhile_all_then: "list_all P w \<Longrightarrow> dropWhile P (w @ s) = dropWhile P s"
  by (induction w) auto

lemma trim_padded:
  assumes "list_all blank w" "list_all blank w'" "list_all token_byte s" "s \<noteq> []"
  shows "trim (w @ s @ w') = s"
proof -
  have ascii: "\<forall>c\<in>set (w @ s @ w'). byte c < 128"
    using assms(1-3) by (auto simp: list_all_iff blank_def token_byte_def)
  have "token_byte (hd s)" "token_byte (List.last s)" using assms(3,4) by (simp_all add: list_all_iff)
  then have nb: "\<not> blank (hd s)" "\<not> blank (List.last s)" by (auto simp: blank_def token_byte_def)
  have 1: "dropWhile blank (w @ s @ w') = s @ w'"
    using assms(1,4) nb(1) by (cases s) (simp_all add: dropWhile_all_then)
  have 2: "dropWhile blank (rev (s @ w')) = rev s"
    using assms(2,4) nb(2) by (cases "rev s") (auto simp: dropWhile_all_then list_all_iff hd_rev)
  show ?thesis unfolding trim_ascii [OF ascii] 1 2 by simp
qed

lemma prefix_token: "list_all token_byte (connect_prefix @ raw_url_encode b)"
  using raw_url_encode_token by (simp add: connect_prefix_def token_byte_def byte_def)

lemma token_no_breaks: "list_all token_byte s \<Longrightarrow> filter (\<lambda>c. c \<noteq> LF \<and> c \<noteq> CHR 0x0D) s = s"
  by (rule filter_True) (auto simp: list_all_iff token_byte_def byte_def)

text \<open>A connection token survives the way to the joiner. Whatever white space it picked up at its ends, decoding a token that
  was made from a non-empty invite token, address and pin gives these three back.\<close>

theorem connect_token_round_trip:
  assumes "\<forall>b. dec (enc b) = Some b" "token \<noteq> []" "address \<noteq> []" "pin \<noteq> []" "list_all blank w" "list_all blank w'"
  shows "decode_connect_blob dec (w @ encode_connect_blob enc token address pin @ w') = Inr (token, address, pin)"
proof -
  define b where "b = enc \<lparr>cb_token = token, cb_address = address, cb_pin = pin\<rparr>"
  have e: "encode_connect_blob enc token address pin = connect_prefix @ raw_url_encode b"
    by (simp add: encode_connect_blob_def b_def)
  have t: "trim (w @ encode_connect_blob enc token address pin @ w') = connect_prefix @ raw_url_encode b"
    unfolding e by (rule trim_padded [OF assms(5,6) prefix_token]) (simp add: connect_prefix_def)
  have d: "raw_url_decode (raw_url_encode b) = Some b"
    by (simp add: raw_url_decode_def token_no_breaks raw_url_encode_token raw_url_groups_encode)
  have "dec b = Some \<lparr>cb_token = token, cb_address = address, cb_pin = pin\<rparr>" using assms(1) by (simp add: b_def)
  then show ?thesis
    using assms(2-4) by (simp add: decode_connect_blob_def t d starts_with_def)
qed

section \<open>The daemon that is joined\<close>

text \<open>
  The daemon of a member, as far as joining goes. A stamped call is taken when it carries the clan key of the daemon, a
  pinned one when the pin is that of its certificate.
\<close>

definition holds_key :: "service \<Rightarrow> caller \<Rightarrow> bool" where
  "holds_key sv who \<longleftrightarrow>
     (case who of Pinned _ \<Rightarrow> False | Stamped cli \<Rightarrow> kp_current (tc_keys cli) = clan_key (st_clan (sv_store sv)))"

definition shows_pin :: "service \<Rightarrow> caller \<Rightarrow> bool" where
  "shows_pin sv who \<longleftrightarrow>
     (case st_clan (sv_store sv) of None \<Rightarrow> False
      | Some c \<Rightarrow> cl_cert_pin c = (case who of Pinned p \<Rightarrow> p | Stamped cli \<Rightarrow> tc_pin cli))"

definition invite_answer :: "invite_token \<times> string \<times> string \<Rightarrow> invite_reply" where
  "invite_answer r =
     (case r of (tok, pin, addr) \<Rightarrow>
        \<lparr>iv_token = it_token tok, iv_lan_address = addr, iv_cert_pin = pin, iv_clan_id = it_clan_id tok, iv_expires_at = it_expires_at tok\<rparr>)"

definition clan_net :: "bytes option \<Rightarrow> time \<Rightarrow> time \<Rightarrow> service network" where
  "clan_net rand now t2 who base req sv =
     (if \<not> shows_pin sv who then (sv, Unreachable ''pin'')
      else case req of
        PostInvite ttl \<Rightarrow>
          if \<not> holds_key sv who then (sv, Reply 401 (BodyText ''unauthorized''))
          else (case handle_invite rand now sv (case who of Stamped cli \<Rightarrow> tc_member cli | Pinned _ \<Rightarrow> []) (Some ttl) of
                  (sv1, status, Some r) \<Rightarrow> (sv1, Reply status (BodyInvite (invite_answer r)))
                | (sv1, status, None) \<Rightarrow> (sv1, Reply status (BodyText ''error'')))
      | PostJoin token i pub \<Rightarrow>
          (case handle_join now t2 sv (Some (token, i, pub)) of
             (sv1, status, Some r) \<Rightarrow> (sv1, Reply status (BodyJoin r))
           | (sv1, status, None) \<Rightarrow> (sv1, Reply status (BodyText ''error'')))
      | PostWelcome i pub \<Rightarrow>
          if \<not> holds_key sv who then (sv, Reply 401 (BodyText ''unauthorized''))
          else (case handle_welcome now sv (Some (i, pub)) of
                  (sv1, status, Some r) \<Rightarrow> (sv1, Reply status (BodyJoin r))
                | (sv1, status, None) \<Rightarrow> (sv1, Reply status (BodyText ''error'')))
      | _ \<Rightarrow> (sv, Reply 404 (BodyText ''not found'')))"

lemma active_clan_iff: "active_clan sv = Inr c \<longleftrightarrow> st_readable (sv_store sv) \<and> st_clan (sv_store sv) = Some c \<and> cl_id c \<noteq> []"
  by (auto simp: active_clan_def load_clan_def is_active_def split: option.splits)

lemma int64_hour [simp]: "int64 hour = hour"
  by (simp add: int64_def)

lemma raw_url_encode_Nil: "raw_url_encode b = [] \<longleftrightarrow> b = []"
  unfolding raw_url_encode_def by (cases "(CHR ''-'', CHR ''_'', [] :: string, b)" rule: b64_encode.cases) (auto simp: Let_def)

lemma invited:
  assumes "clan_net rand now t2 who base (PostInvite 3600) sv = (sv1, Reply 200 (BodyInvite ir))"
  shows "\<exists>c. active_clan sv = Inr c \<and> sv_store sv1 = sv_store sv \<and> iv_lan_address ir = sv_listen_addr sv \<and> iv_cert_pin ir = cl_cert_pin c \<and>
    rand \<noteq> None \<and> iv_token ir = raw_url_encode (the rand) \<and>
    (case map_of (sv_invites sv1) (iv_token ir) of None \<Rightarrow> False
     | Some tok \<Rightarrow> it_clan_id tok = cl_id c \<and> it_expires_at tok = now + hour)"
  using assms unfolding clan_net_def handle_invite_def Let_def
  by (auto simp: reply_def issue_invite_def issue_def log_audit_def invite_answer_def Let_def update_conv'
      split: if_splits caller.splits sum.splits option.splits prod.splits)

lemma welcomed_by_token:
  assumes "active_clan sv = Inr c" "st_writable (sv_store sv)" "map_of (sv_invites sv) token = Some tok" "it_clan_id tok = cl_id c"
    and "now \<le> it_expires_at tok" "token \<noteq> []" "i \<noteq> []" "pub \<noteq> []"
  shows "\<exists>sv1. clan_net rand now t2 (Pinned (cl_cert_pin c)) base (PostJoin token i pub) sv =
      (sv1, Reply 200 (BodyJoin \<lparr>jr_clan_id = cl_id c, jr_clan_key_b64 = cl_key_b64 c, jr_cert_pem = cl_cert_pem c,
         jr_cert_priv_b64 = cl_cert_priv_b64 c, jr_roster = upsert_roster (cl_roster c) (admitted_member t2 i pub)\<rparr>)) \<and>
    active_clan sv1 = Inr (c\<lparr>cl_roster := upsert_roster (cl_roster c) (admitted_member t2 i pub)\<rparr>) \<and>
    map_of (sv_invites sv1) token = None"
  using assms
  by (auto simp: clan_net_def shows_pin_def active_clan_iff handle_join_def reply_def redeem_invite_def redeem_def store_clan_def
      save_clan_def load_clan_def is_active_def log_audit_def fire_event_def Let_def delete_conv)

section \<open>Inviting and joining\<close>

lemma upsert_roster_in: "m \<in> set (upsert_roster xs m)"
  by (induction xs) auto

lemma parse_nothing: "parse_flags fs vd [] vs = Inr (vs, [])" by simp

lemma parse_switch: "arg_ok fs (Turns n) \<Longrightarrow> parse_flags fs vd [''--'' @ n] [] = Inr ([(n, ''true'')], [])"
  using parse_one [of fs "Turns n" vd "[]" "[]"] by simp

lemma parse_given: "arg_ok fs (Gives n v) \<Longrightarrow> parse_flags fs vd [''--'' @ n, v] [] = Inr ([(n, v)], [])"
  using parse_one [of fs "Gives n v" vd "[]" "[]"] by simp

lemma with_daemon_inv:
  assumes "with_daemon env vs k st = (st', Done)"
  shows "\<exists>cli base c. k cli base c st = (st', Done)"
  using assms by (auto simp: with_daemon_def with_clan_def split: sum.splits option.splits prod.splits if_splits)

lemma call_ok_inv:
  assumes "call_ok net who base what req k st = (st', Done)"
  shows "\<exists>w body. net who base req (cs_world st) = (w, Reply 200 body) \<and> k body (st\<lparr>cs_world := w\<rparr>) = (st', Done)"
  using assms by (auto simp: call_ok_def split: prod.splits api_reply.splits if_splits)

lemma cmd_invite_prints:
  assumes "cmd_invite env enc seconds net [''--connect''] st = (st', Done)"
  shows "\<exists>who base w ir. net who base (PostInvite 3600) (cs_world st) = (w, Reply 200 (BodyInvite ir)) \<and> cs_world st' = w \<and>
    cs_out st' = cs_out st @ [PrintText (encode_connect_blob enc (iv_token ir) (iv_lan_address ir) (iv_cert_pin ir))]"
proof -
  have "arg_ok invite_flags (Turns ''connect'')" by code_simp
  then have p: "parse_flags invite_flags (ce_valid_duration env) [''--connect''] [] = Inr ([(''connect'', ''true'')], [])"
    using parse_switch [of invite_flags "''connect''"] by simp
  obtain cli base c where "call_ok net (Stamped cli) base ''invite failed'' (PostInvite 3600) (\<lambda>body.
      case body of BodyInvite ir \<Rightarrow> say (PrintText (encode_connect_blob enc (iv_token ir) (iv_lan_address ir) (iv_cert_pin ir)))
      | _ \<Rightarrow> failed ''decode'') st = (st', Done)"
    using assms with_daemon_inv unfolding cmd_invite_def with_flags_def p by (fastforce simp: Let_def)
  then obtain w body where n: "net (Stamped cli) base (PostInvite 3600) (cs_world st) = (w, Reply 200 body)"
    and k: "(case body of BodyInvite ir \<Rightarrow> say (PrintText (encode_connect_blob enc (iv_token ir) (iv_lan_address ir) (iv_cert_pin ir)))
      | _ \<Rightarrow> failed ''decode'') (st\<lparr>cs_world := w\<rparr>) = (st', Done)" using call_ok_inv by blast
  from k obtain ir where "body = BodyInvite ir"
    "st' = st\<lparr>cs_world := w, cs_out := cs_out st @ [PrintText (encode_connect_blob enc (iv_token ir) (iv_lan_address ir) (iv_cert_pin ir))]\<rparr>"
    by (auto simp: say_def failed_def split: api_body.splits)
  with n show ?thesis by auto
qed

lemma cmd_join_connect:
  assumes "decode_connect_blob dec blob = Inr (token, address, pin)" "token \<noteq> []" "address \<noteq> []" "pin \<noteq> []"
    and "load_common env (default_config_path (ce_platform env)) [] st = Inr (cfg, idn, s)" "load_clan s = Inr existing" "\<not> is_active existing"
    and "blob \<noteq> []"
  shows "cmd_join env dec pre_join pin_of net [''--connect'', blob] st = join_token env pin_of net token address pin idn (cf_state_dir cfg) s st"
proof -
  have "arg_ok join_flags (Gives ''connect'' blob)" by simp code_simp
  then have p: "parse_flags join_flags (ce_valid_duration env) [''--connect'', blob] [] = Inr ([(''connect'', blob)], [])"
    using parse_given [of join_flags "''connect''" blob] by simp
  show ?thesis
    using assms unfolding cmd_join_def with_flags_def p
    by (simp add: with_clan_def config_flag_def)
qed


section \<open>Samples\<close>

definition linux :: platform where
  "linux = \<lparr>pt_darwin = False, pt_root = True, pt_home = None, pt_minti_config = []\<rparr>"

definition machine :: "member_id \<Rightarrow> time \<Rightarrow> cli_env" where
  "machine i now =
     \<lparr>ce_platform = linux, ce_config_file = (\<lambda>_. FileMissing), ce_yaml = (\<lambda>_. Inr),
      ce_identity = (\<lambda>_. Inr \<lparr>id_member = i, id_pub_key = ''pk-'' @ i, id_private_key = ''sk''\<rparr>), ce_interfaces = Inr [Some ''10.0.0.1''],
      ce_valid_duration = (\<lambda>_. True), ce_sha = rev, ce_now = now\<rparr>"

definition founded_clan :: clan where
  "founded_clan = empty_clan\<lparr>cl_id := ''c'', cl_key_b64 := ''a2V5'', cl_cert_pem := ''pem'', cl_cert_pin := ''pin'', cl_role := ''founder'',
     cl_roster := [\<lparr>rm_id = ''a'', rm_pub_key = ''pk-a'', rm_state = ''active'', rm_admitted_at = 0, rm_last_seen_at = 0\<rparr>]\<rparr>"

definition holding :: "clan option \<Rightarrow> store" where
  "holding c = \<lparr>st_clan = c, st_revocations = None, st_readable = True, st_writable = True\<rparr>"

definition founder_service :: service where
  "founder_service = \<lparr>sv_store = holding (Some founded_clan), sv_invites = [], sv_knocks = new_knock_store, sv_listen_addr = ''10.0.0.1:7777'',
     sv_audit = [], sv_events = []\<rparr>"

definition terminal :: "clan option \<Rightarrow> 'w \<Rightarrow> 'w cli_state" where
  "terminal c w = \<lparr>cs_stores = (\<lambda>_. Some (holding c)), cs_world = w, cs_blueprints = Map.empty, cs_out = []\<rparr>"

text \<open>A codec for the token: a one before each character of a part, a zero at its end.\<close>

fun tagged :: "string \<Rightarrow> string" where
  "tagged [] = ''0''"
| "tagged (c # s) = CHR ''1'' # c # tagged s"

fun untag :: "string \<Rightarrow> string \<times> string" where
  "untag (m # s) =
     (if m = CHR ''1'' then (case s of [] \<Rightarrow> ([], []) | c # r \<Rightarrow> (case untag r of (t, u) \<Rightarrow> (c # t, u))) else ([], s))"
| "untag [] = ([], [])"

lemma untag_tagged [simp]: "untag (tagged s @ r) = (s, r)"
  by (induction s) simp_all

definition blob_bytes :: "connect_blob \<Rightarrow> bytes" where
  "blob_bytes b = tagged (cb_token b) @ tagged (cb_address b) @ cb_pin b"

definition bytes_blob :: "bytes \<Rightarrow> connect_blob option" where
  "bytes_blob s = (case untag s of (t, r) \<Rightarrow> case untag r of (a, p) \<Rightarrow> Some \<lparr>cb_token = t, cb_address = a, cb_pin = p\<rparr>)"

lemma bytes_blob_bytes: "bytes_blob (blob_bytes b) = Some b"
  by (simp add: bytes_blob_def blob_bytes_def)

theorem connect_token_round_trip_witness:
  "decode_connect_blob bytes_blob ('' '' @ encode_connect_blob blob_bytes ''t'' ''a:1'' ''p'' @ [LF]) = Inr (''t'', ''a:1'', ''p'')"
  using connect_token_round_trip [of bytes_blob blob_bytes "''t''" "''a:1''" "''p''" "'' ''" "[LF]"] bytes_blob_bytes
  by (simp add: blank_def byte_def)


end
