(* ===== verification/KnockProps.thy ===== *)
theory KnockProps
  imports Joiner JoinProps
begin

text \<open>
  A knock, end to end: the joiner's command against the daemon it knocks at, the operator who accepts it, and the delivery back to
  the joiner's listener.
\<close>

section \<open>The daemon that is knocked at\<close>

definition knock_net :: "knock_env \<Rightarrow> string \<Rightarrow> service network" where
  "knock_net kenv src who base req sv =
     (if \<not> shows_pin sv who then (sv, Unreachable ''pin'')
      else case req of
        PostKnock r \<Rightarrow>
          (case handle_knock kenv sv (Some r) src of
             (sv1, status, Some resp) \<Rightarrow> (sv1, Reply status (BodyKnock resp))
           | (sv1, status, None) \<Rightarrow> (sv1, Reply status (BodyText ''error'')))
      | _ \<Rightarrow> (sv, Reply 404 (BodyText ''not found'')))"

text \<open>The joiner's process as the operator's daemon reaches it: the delivery comes from an address.\<close>

definition deliver_to :: "string \<Rightarrow> knock_phase \<times> knock_wait \<Rightarrow> string \<Rightarrow> delivery \<Rightarrow> (knock_phase \<times> knock_wait) \<times> bool" where
  "deliver_to src w url d =
     (case handle_knock_deliver (snd w) ''POST'' src (Some d) of (k, status) \<Rightarrow> ((fst w, k), status = 200))"

lemma begin_knock_inv:
  assumes "begin_knock env je net args st = (st', Inr ks)"
  shows "\<exists>vs rest priv pub cfg idn s port lan w r recv_pub raw key nonce sas.
    parse_flags knock_flags (ce_valid_duration env) args [] = Inr (vs, rest) \<and> je_keypair je = Some (priv, pub) \<and>
    load_common env (config_flag env vs) (flag_string vs ''state'' []) st = Inr (cfg, idn, s) \<and>
    je_listen je (if flag_string vs ''listen'' [] = [] then '':0'' else flag_string vs ''listen'' []) = Inr port \<and>
    knock_joiner_lan_addr env port (flag_string vs ''listen'' []) = Inr lan \<and>
    net (Pinned (flag_string vs ''pin'' [])) (remote_base (flag_string vs ''address'' []))
      (PostKnock \<lparr>kr_clan_id = flag_string vs ''clan-id'' [], kr_joiner_id = id_member idn, kr_joiner_pub = id_pub_key idn,
         kr_joiner_x25519 = std_encode pub, kr_joiner_address = lan\<rparr>) (cs_world st) = (w, Reply 200 (BodyKnock r)) \<and>
    std_decode (kp_receiver_x25519 r) = Some recv_pub \<and> length recv_pub = 32 \<and> decode_knock_id (kp_knock_id r) = Some raw \<and>
    derive_knock_bundle (je_x25519 je) (je_hkdf je) priv recv_pub (flag_string vs ''clan-id'' []) raw pub recv_pub = Some (key, nonce, sas) \<and>
    st' = st\<lparr>cs_world := w, cs_out := cs_out st @ [PrintText sas]\<rparr> \<and>
    ks = \<lparr>ks_clan_id = flag_string vs ''clan-id'' [], ks_dir = cf_state_dir cfg, ks_store = s, ks_key = key, ks_nonce = nonce,
          ks_raw_id = raw, ks_sas = sas,
          ks_wait = \<lparr>kw_receiver_ip = host_of (flag_string vs ''address'' []), kw_confirmed = False, kw_slot = None\<rparr>\<rparr>"
  using assms unfolding begin_knock_def Let_def
  by (auto simp: say_def split: sum.splits prod.splits if_splits option.splits api_reply.splits api_body.splits)

lemma knocked:
  assumes "handle_knock kenv sv (Some req) src = (sv1, 200, Some r)"
  shows "\<exists>c recv_priv recv_pub raw jpub key nonce sas pk.
    active_clan sv = Inr c \<and> cl_id c = kr_clan_id req \<and> ke_keypair kenv = Some (recv_priv, recv_pub) \<and> ke_knock_rand kenv = Some raw \<and>
    std_decode (kr_joiner_x25519 req) = Some jpub \<and>
    derive_knock_bundle (ke_x25519 kenv) (ke_hkdf kenv) recv_priv jpub (kr_clan_id req) raw jpub recv_pub = Some (key, nonce, sas) \<and>
    pk = \<lparr>pk_knock_id = hex_encode raw, pk_clan_id = kr_clan_id req, pk_joiner_id = kr_joiner_id req, pk_joiner_pub = kr_joiner_pub req,
          pk_derived_key = key, pk_derived_nonce = nonce, pk_knock_id_bytes = raw, pk_sas = sas,
          pk_joiner_address = kr_joiner_address req, pk_expires_at = ke_now kenv + knock_ttl, pk_state = ''pending''\<rparr> \<and>
    knock_put (ke_now kenv) (sv_knocks sv) pk src = (sv_knocks sv1, None) \<and> sv_store sv1 = sv_store sv \<and>
    kp_knock_id r = hex_encode raw \<and> kp_receiver_x25519 r = std_encode recv_pub"
  using assms unfolding handle_knock_def knock_def Let_def
  by (auto simp: log_audit_def split: sum.splits prod.splits if_splits option.splits membership_error.splits knock_error.splits)

lemma knock_put_stored:
  assumes "knock_put now s pk src = (s1, None)"
  shows "map_of (ks_knocks s1) (pk_knock_id pk) = Some pk"
  using assms by (auto simp: knock_put_def Let_def update_conv' split: prod.splits if_splits)

lemma listed:
  "map_of (ks_knocks s) i = Some pk \<Longrightarrow> pk_state pk = ''pending'' \<Longrightarrow> now \<le> pk_expires_at pk \<Longrightarrow> pk \<in> set (knock_list now s)"
  by (force simp: knock_list_def dest: map_of_SomeD)

lemma accepted:
  assumes "map_of (ks_knocks (sv_knocks s)) i = Some pk" "pk_state pk = ''pending''" "now \<le> pk_expires_at pk"
    and "active_clan s = Inr c" "st_writable (sv_store s)"
    and "seal (pk_derived_key pk) (pk_derived_nonce pk) (pk_knock_id_bytes pk) (welcome_of c) = Some ct"
    and "\<And>url. deliver w url (DeliverWelcome (std_encode ct)) = (w1, True)"
  shows "\<exists>s1. knock_accept seal deliver now t2 s w i = (s1, w1, None) \<and>
    active_clan s1 = Inr (c\<lparr>cl_roster := upsert_roster (cl_roster c) (admitted_member t2 (pk_joiner_id pk) (pk_joiner_pub pk))\<rparr>)"
proof -
  have "active_clan (s\<lparr>sv_knocks := ks\<rparr>) = Inr c" for ks using assms(4) by (simp add: active_clan_iff)
  note active = this
  let ?s = "s\<lparr>sv_knocks := (sv_knocks s)\<lparr>ks_knocks := AList.update i (pk\<lparr>pk_state := ''accepted''\<rparr>) (ks_knocks (sv_knocks s))\<rparr>,
    sv_store := (sv_store s)\<lparr>st_clan := Some (c\<lparr>cl_roster := upsert_roster (cl_roster c) (admitted_member t2 (pk_joiner_id pk) (pk_joiner_pub pk))\<rparr>)\<rparr>\<rparr>"
  have "knock_accept seal deliver now t2 s w i =
      (fire_event ''member_joined'' (pk_joiner_id pk) (log_audit ''membership.knock_accept'' ''allow'' [] ?s), w1, None)"
    using assms(1-3,5-7) by (simp add: knock_accept_def consume_def active store_clan_def save_clan_def Let_def)
  moreover have "cl_id c \<noteq> []" "st_readable (sv_store s)" using assms(4) by (simp_all add: active_clan_iff)
  ultimately show ?thesis by (auto simp: active_clan_iff fire_event_def log_audit_def)
qed


section \<open>A concrete knock\<close>

definition knock_host :: knock_env where
  "knock_host = \<lparr>ke_now = 0, ke_keypair = Some (''rp'', replicate 32 CHR ''r''), ke_knock_rand = Some (replicate 16 CHR ''i''),
     ke_x25519 = (\<lambda>_ _. Some ''shared''), ke_hkdf = (\<lambda>s _ _. replicate 48 CHR ''k'')\<rparr>"

definition joiner_host :: joiner_env where
  "joiner_host = \<lparr>je_keypair = Some (''jp'', replicate 32 CHR ''j''), je_listen = (\<lambda>_. Inr 4000), je_x25519 = (\<lambda>_ _. Some ''shared''),
     je_hkdf = (\<lambda>s _ _. replicate 48 CHR ''k''),
     je_open = (\<lambda>k n a ct. if ct = ''sealed'' then Some (welcome_of founded_clan) else None), je_pin_of = (\<lambda>_. Some ''pin'')\<rparr>"

definition knock_args :: "string list" where
  "knock_args = [''--clan-id'', ''c'', ''--address'', ''10.0.0.1:7777'', ''--pin'', ''pin'']"

definition knocking_run :: "service cli_state \<times> (cli_result + knock_session)" where
  "knocking_run = begin_knock (machine ''b'' 0) joiner_host (knock_net knock_host ''10.0.0.2'') knock_args (terminal None founder_service)"

lemma knocking_session: "\<exists>st ks. knocking_run = (st, Inr ks) \<and> kw_receiver_ip (ks_wait ks) = ''10.0.0.1'' \<and> st_writable (ks_store ks)"
proof -
  have parsed: "parse_flags knock_flags (ce_valid_duration (machine ''b'' 0)) knock_args [] =
      Inr ([(''pin'', ''pin''), (''address'', ''10.0.0.1:7777''), (''clan-id'', ''c'')], [])" by code_simp
  have host: "host_of ''10.0.0.1:7777'' = ''10.0.0.1''" by code_simp
  have pin: "shows_pin founder_service (Pinned ''pin'')" by (simp add: shows_pin_def founder_service_def holding_def founded_clan_def)
  have active: "active_clan founder_service = Inr founded_clan" "cl_id founded_clan = ''c''"
    by (simp_all add: founder_service_def active_clan_iff holding_def founded_clan_def)
  have room: "\<exists>s1. knock_put 0 (sv_knocks founder_service) pk ip = (s1, None)" for pk ip
    by (simp add: founder_service_def knock_put_def new_knock_store_def bucket_allow_def new_bucket_def zero_time_def knock_rate_per_src_def
        knock_rate_per_clan_def Let_def)
  have derives: "\<exists>k n sas. derive_knock_bundle (\<lambda>_ _. Some ''shared'') h p q c i a b = Some (k, n, sas)" for h p q c i a b
    by (simp add: derive_knock_bundle_def Let_def)
  have lan: "knock_joiner_lan_addr (machine ''b'' 0) 4000 [] = Inr ''10.0.0.1:4000''" by code_simp
  define req where "req = \<lparr>kr_clan_id = ''c'', kr_joiner_id = ''b'', kr_joiner_pub = ''pk-b'',
    kr_joiner_x25519 = std_encode (replicate 32 CHR ''j''), kr_joiner_address = ''10.0.0.1:4000''\<rparr>"
  have "std_encode (replicate 32 CHR ''j'') \<noteq> []" by code_simp
  then have given: "kr_clan_id req = ''c''" "kr_joiner_id req \<noteq> []" "kr_joiner_pub req \<noteq> []" "kr_joiner_x25519 req \<noteq> []" "kr_joiner_address req \<noteq> []"
    "std_decode (kr_joiner_x25519 req) = Some (replicate 32 CHR ''j'')" by (simp_all add: req_def)
  have "\<exists>sv r. handle_knock knock_host founder_service (Some req) ''10.0.0.2'' = (sv, 200, Some r) \<and>
      kp_knock_id r = hex_encode (replicate 16 CHR ''i'') \<and> kp_receiver_x25519 r = std_encode (replicate 32 CHR ''r'')"
  proof -
    obtain k n sas where d: "derive_knock_bundle (\<lambda>_ _. Some ''shared'') (ke_hkdf knock_host) ''rp'' (replicate 32 CHR ''j'') ''c'' (replicate 16 CHR ''i'')
        (replicate 32 CHR ''j'') (replicate 32 CHR ''r'') = Some (k, n, sas)" using derives by blast
    let ?pk = "\<lparr>pk_knock_id = hex_encode (replicate 16 CHR ''i''), pk_clan_id = ''c'', pk_joiner_id = kr_joiner_id req, pk_joiner_pub = kr_joiner_pub req,
      pk_derived_key = k, pk_derived_nonce = n, pk_knock_id_bytes = replicate 16 CHR ''i'', pk_sas = sas,
      pk_joiner_address = kr_joiner_address req, pk_expires_at = 0 + knock_ttl, pk_state = ''pending''\<rparr>"
    obtain s1 where put: "knock_put 0 (sv_knocks founder_service) ?pk ''10.0.0.2'' = (s1, None)" using room by blast
    have e: "ke_keypair knock_host = Some (''rp'', replicate 32 CHR ''r'')" "ke_knock_rand knock_host = Some (replicate 16 CHR ''i'')"
      "ke_x25519 knock_host = (\<lambda>_ _. Some ''shared'')" "ke_now knock_host = 0" by (simp_all add: knock_host_def)
    show ?thesis
      unfolding handle_knock_def knock_def e option.case prod.case Let_def
      using active given d put by simp
  qed
  then obtain sv r where h: "handle_knock knock_host founder_service (Some req) ''10.0.0.2'' = (sv, 200, Some r)"
    and r: "kp_knock_id r = hex_encode (replicate 16 CHR ''i'')" "kp_receiver_x25519 r = std_encode (replicate 32 CHR ''r'')" by blast
  have net: "knock_net knock_host ''10.0.0.2'' (Pinned ''pin'') base (PostKnock req) founder_service = (sv, Reply 200 (BodyKnock r))" for base
    using h pin by (simp add: knock_net_def)
  have id: "decode_knock_id (kp_knock_id r) = Some (replicate 16 CHR ''i'')" "std_decode (kp_receiver_x25519 r) = Some (replicate 32 CHR ''r'')"
    by (simp_all add: decode_knock_id_def r)
  obtain k n sas where d: "derive_knock_bundle (\<lambda>_ _. Some ''shared'') (je_hkdf joiner_host) ''jp'' (replicate 32 CHR ''r'') ''c'' (replicate 16 CHR ''i'')
      (replicate 32 CHR ''j'') (replicate 32 CHR ''r'') = Some (k, n, sas)" using derives by blast
  have je: "je_keypair joiner_host = Some (''jp'', replicate 32 CHR ''j'')" "je_listen joiner_host x = Inr 4000"
    "je_x25519 joiner_host = (\<lambda>_ _. Some ''shared'')" for x by (simp_all add: joiner_host_def)
  have l: "load_common (machine ''b'' 0) p [] (terminal None w) =
      Inr (default_config linux, \<lparr>id_member = ''b'', id_pub_key = ''pk-b'', id_private_key = ''sk''\<rparr>, holding None)" for p and w :: service
    by (simp add: load_common_def machine_def load_config_def terminal_def)
  have s: "load_clan (holding None) = Inr None" "\<not> is_active None" "st_writable (holding None)" "cs_world (terminal None founder_service) = founder_service"
    by (simp_all add: load_clan_def holding_def is_active_def terminal_def)
  show ?thesis
    unfolding knocking_run_def begin_knock_def parsed Let_def
    using net [folded req_def] by (simp add: l s je lan req_def [symmetric] id d host say_def)
qed



end
