(* ===== verification/Spec2Isabelle.thy ===== *)
theory Spec2Isabelle
  imports ElectionProps Membership KeyRotate Blueprint SyncProps TrustProps ScribeProps McpWriteProps
    ApprovalProps RuntimeProps AdvertiseProps RouterProps McpToolProps PackFetch KnockProps
begin

text \<open>
  Verification of cland, the clan daemon of the repository.
\<close>

end
